(* ===== verification/Prelude.thy ===== *)
theory Prelude
  imports Main "HOL-Library.AList" "HOL-Library.List_Lexorder" "HOL-Library.Char_ord"
    "HOL-Library.Option_ord" "HOL-Library.Product_Lexorder" "HOL-Library.Word"
begin

text \<open>
  Shared vocabulary of the development: the Rust integer types and their saturating and
  checked operations, the hash maps and hash sets of the standard library as association
  lists and lists, byte strings with the UTF-8 segmentation the code relies on, and the
  lemma collections (\<open>hmap\<close>, \<open>rust_int\<close>, \<open>frame\<close>) the component theories share.
\<close>

named_theorems hmap \<open>lookup, update, removal and filtering of hash maps\<close>
named_theorems rust_int \<open>unfolding of saturating and checked machine arithmetic\<close>
named_theorems frame \<open>what an operation leaves unchanged\<close>

section \<open>Machine integers\<close>

text \<open>
  An \<open>i64\<close> is an \<open>int\<close> and an \<open>u64\<close> a \<open>nat\<close>; the bounds of the width are written out in the
  saturating, checked and wrapping operations the code calls.
\<close>

type_synonym i64 = int
type_synonym u64 = nat

definition i64_max :: i64 where "i64_max = 9223372036854775807"
definition i64_min :: i64 where "i64_min = - 9223372036854775808"
definition u64_max :: u64 where "u64_max = 18446744073709551615"

definition is_i64 :: "int \<Rightarrow> bool" where "is_i64 a \<longleftrightarrow> i64_min \<le> a \<and> a \<le> i64_max"
definition is_u64 :: "nat \<Rightarrow> bool" where "is_u64 a \<longleftrightarrow> a \<le> u64_max"

definition i64_saturating_add :: "i64 \<Rightarrow> i64 \<Rightarrow> i64" where
  "i64_saturating_add a b = max i64_min (min i64_max (a + b))"

definition i64_saturating_sub :: "i64 \<Rightarrow> i64 \<Rightarrow> i64" where
  "i64_saturating_sub a b = max i64_min (min i64_max (a - b))"

definition i64_checked_add :: "i64 \<Rightarrow> i64 \<Rightarrow> i64 option" where
  "i64_checked_add a b = (if is_i64 (a + b) then Some (a + b) else None)"

definition u64_saturating_add :: "u64 \<Rightarrow> u64 \<Rightarrow> u64" where
  "u64_saturating_add a b = min u64_max (a + b)"

definition u64_saturating_sub :: "u64 \<Rightarrow> u64 \<Rightarrow> u64" where
  "u64_saturating_sub a b = a - b"

definition u64_checked_add :: "u64 \<Rightarrow> u64 \<Rightarrow> u64 option" where
  "u64_checked_add a b = (if is_u64 (a + b) then Some (a + b) else None)"

definition u64_wrapping_add :: "u64 \<Rightarrow> u64 \<Rightarrow> u64" where
  "u64_wrapping_add a b = (a + b) mod 2 ^ 64"

text \<open>\<open>u64::try_from(i64)\<close>: fails on a negative value.\<close>

definition u64_try_from :: "i64 \<Rightarrow> u64 option" where
  "u64_try_from a = (if 0 \<le> a then Some (nat a) else None)"

lemmas [rust_int] = i64_max_def i64_min_def u64_max_def is_i64_def is_u64_def
  i64_saturating_add_def i64_saturating_sub_def i64_checked_add_def u64_saturating_add_def
  u64_saturating_sub_def u64_checked_add_def u64_wrapping_add_def u64_try_from_def

text \<open>Evaluation of the bounds of \<open>u64\<close> through binary integers: a \<open>nat\<close> is evaluated in unary.\<close>

lemma u64_code [code]:
  "is_u64 a \<longleftrightarrow> int a \<le> 18446744073709551615"
  "u64_saturating_add a b = nat (min 18446744073709551615 (int a + int b))"
  "u64_wrapping_add a b = nat ((int a + int b) mod 18446744073709551616)"
  by (simp_all add: rust_int nat_mod_distrib nat_add_distrib)

lemma i64_saturating_sub_nonneg: "b \<le> a \<Longrightarrow> 0 \<le> i64_saturating_sub a b"
  by (simp add: rust_int)

lemma i64_saturating_add_mono: "a \<le> b \<Longrightarrow> i64_saturating_add a c \<le> i64_saturating_add b c"
  by (simp add: rust_int)

section \<open>Hash maps and hash sets\<close>

text \<open>
  A \<open>HashMap\<close> is an association list in its iteration order, with distinct keys
  (\<open>hm_ok\<close>). Rust leaves that order unspecified: the model's insertion order is one of the
  orders the program may see, and a property that quantifies over a map holds for each.
  \<open>retain\<close> is \<open>filter\<close>; \<open>values\<close> is \<open>map snd\<close>. A \<open>HashSet\<close> is a list without repetition.
\<close>

type_synonym ('k, 'v) hmap = "('k \<times> 'v) list"

abbreviation hm_get :: "('k, 'v) hmap \<Rightarrow> 'k \<Rightarrow> 'v option" where
  "hm_get m k \<equiv> map_of m k"

abbreviation hm_put :: "'k \<Rightarrow> 'v \<Rightarrow> ('k, 'v) hmap \<Rightarrow> ('k, 'v) hmap" where
  "hm_put k v m \<equiv> AList.update k v m"

abbreviation hm_del :: "'k \<Rightarrow> ('k, 'v) hmap \<Rightarrow> ('k, 'v) hmap" where
  "hm_del k m \<equiv> AList.delete k m"

abbreviation hm_keys :: "('k, 'v) hmap \<Rightarrow> 'k list" where
  "hm_keys m \<equiv> map fst m"

abbreviation hm_values :: "('k, 'v) hmap \<Rightarrow> 'v list" where
  "hm_values m \<equiv> map snd m"

abbreviation hm_ok :: "('k, 'v) hmap \<Rightarrow> bool" where
  "hm_ok m \<equiv> distinct (map fst m)"

text \<open>\<open>retain\<close> on the entries and \<open>values_mut\<close>.\<close>

definition hm_retain :: "('k \<Rightarrow> 'v \<Rightarrow> bool) \<Rightarrow> ('k, 'v) hmap \<Rightarrow> ('k, 'v) hmap" where
  "hm_retain P m = filter (\<lambda>(k, v). P k v) m"

definition hm_map_values :: "('v \<Rightarrow> 'w) \<Rightarrow> ('k, 'v) hmap \<Rightarrow> ('k, 'w) hmap" where
  "hm_map_values f m = map (\<lambda>(k, v). (k, f v)) m"

text \<open>\<open>HashSet::insert\<close>, \<open>remove\<close>, \<open>extend\<close>.\<close>

definition hs_insert :: "'a \<Rightarrow> 'a list \<Rightarrow> 'a list" where
  "hs_insert x s = (if x \<in> set s then s else s @ [x])"

definition hs_remove :: "'a \<Rightarrow> 'a list \<Rightarrow> 'a list" where
  "hs_remove x s = filter (\<lambda>y. y \<noteq> x) s"

definition hs_extend :: "'a list \<Rightarrow> 'a list \<Rightarrow> 'a list" where
  "hs_extend s xs = fold hs_insert xs s"

lemma hm_get_put [hmap, simp]:
  "hm_get (hm_put k v m) k' = (if k' = k then Some v else hm_get m k')"
  by (simp add: update_conv)

lemma hm_get_del [hmap, simp]: "hm_get (hm_del k m) k' = (if k' = k then None else hm_get m k')"
  by (simp add: delete_conv)

lemma hm_ok_put [hmap, simp]: "hm_ok m \<Longrightarrow> hm_ok (hm_put k v m)"
  by (rule distinct_update)

lemma hm_ok_del [hmap, simp]: "hm_ok m \<Longrightarrow> hm_ok (hm_del k m)"
  by (rule distinct_delete)

lemma hm_ok_filter [hmap, simp]: "hm_ok m \<Longrightarrow> hm_ok (filter P m)"
  by (simp add: distinct_map_filter)

lemma hm_ok_retain [hmap, simp]: "hm_ok m \<Longrightarrow> hm_ok (hm_retain P m)"
  by (simp add: hm_retain_def)

lemma hm_keys_map_values [hmap, simp]: "hm_keys (hm_map_values f m) = hm_keys m"
  by (induction m) (auto simp: hm_map_values_def)

lemma hm_get_map_values [hmap, simp]:
  "hm_get (hm_map_values f m) k = map_option f (hm_get m k)"
  by (induction m) (auto simp: hm_map_values_def)

lemma hm_get_eq_iff: "hm_ok m \<Longrightarrow> hm_get m k = Some v \<longleftrightarrow> (k, v) \<in> set m"
  by simp

lemma hm_get_retain [hmap]:
  "hm_ok m \<Longrightarrow> hm_get (hm_retain P m) k =
     (case hm_get m k of Some v \<Rightarrow> if P k v then Some v else None | None \<Rightarrow> None)"
  unfolding hm_retain_def
  by (induction m) (auto simp: map_of_eq_None_iff image_iff split: option.splits)

lemma hm_values_iff: "hm_ok m \<Longrightarrow> v \<in> set (hm_values m) \<longleftrightarrow> (\<exists>k. hm_get m k = Some v)"
  by (force simp: image_iff)

lemma hm_keys_put: "set (hm_keys (hm_put k v m)) = insert k (set (hm_keys m))"
  by (simp add: dom_update)

lemma hs_insert_set [simp]: "set (hs_insert x s) = insert x (set s)"
  by (auto simp: hs_insert_def)

lemma hs_insert_distinct [simp]: "distinct s \<Longrightarrow> distinct (hs_insert x s)"
  by (auto simp: hs_insert_def)

lemma hs_remove_set [simp]: "set (hs_remove x s) = set s - {x}"
  by (auto simp: hs_remove_def)

lemma hs_remove_distinct [simp]: "distinct s \<Longrightarrow> distinct (hs_remove x s)"
  by (auto simp: hs_remove_def)

lemma hs_extend_set [simp]: "set (hs_extend s xs) = set s \<union> set xs"
  unfolding hs_extend_def by (induction xs arbitrary: s) auto

lemma hs_extend_distinct [simp]: "distinct s \<Longrightarrow> distinct (hs_extend s xs)"
  unfolding hs_extend_def by (induction xs arbitrary: s) auto

section \<open>Options and iterators\<close>

definition opt_is_some_and :: "('a \<Rightarrow> bool) \<Rightarrow> 'a option \<Rightarrow> bool" where
  "opt_is_some_and P x = (case x of None \<Rightarrow> False | Some y \<Rightarrow> P y)"

definition opt_is_none_or :: "('a \<Rightarrow> bool) \<Rightarrow> 'a option \<Rightarrow> bool" where
  "opt_is_none_or P x = (case x of None \<Rightarrow> True | Some y \<Rightarrow> P y)"

definition opt_filter :: "('a \<Rightarrow> bool) \<Rightarrow> 'a option \<Rightarrow> 'a option" where
  "opt_filter P x = (case x of Some y \<Rightarrow> if P y then Some y else None | None \<Rightarrow> None)"

definition opt_or :: "'a option \<Rightarrow> 'a option \<Rightarrow> 'a option" where
  "opt_or x y = (case x of Some _ \<Rightarrow> x | None \<Rightarrow> y)"

definition opt_unwrap_or :: "'a \<Rightarrow> 'a option \<Rightarrow> 'a" where
  "opt_unwrap_or d x = (case x of Some y \<Rightarrow> y | None \<Rightarrow> d)"

definition opt_zip :: "'a option \<Rightarrow> 'b option \<Rightarrow> ('a \<times> 'b) option" where
  "opt_zip x y = (case (x, y) of (Some a, Some b) \<Rightarrow> Some (a, b) | _ \<Rightarrow> None)"

lemma opt_simps [simp]:
  "opt_is_some_and P None = False" "opt_is_some_and P (Some a) = P a"
  "opt_is_none_or P None = True" "opt_is_none_or P (Some a) = P a"
  "opt_filter P None = None" "opt_filter P (Some a) = (if P a then Some a else None)"
  "opt_or None y = y" "opt_or (Some a) y = Some a"
  "opt_unwrap_or d None = d" "opt_unwrap_or d (Some a) = a"
  "opt_zip None y = None" "opt_zip x None = None" "opt_zip (Some a) (Some b) = Some (a, b)"
  by (auto simp: opt_is_some_and_def opt_is_none_or_def opt_filter_def opt_or_def
      opt_unwrap_or_def opt_zip_def split: option.splits)

lemma opt_is_some_and_iff: "opt_is_some_and P x \<longleftrightarrow> (\<exists>y. x = Some y \<and> P y)"
  by (cases x) auto

text \<open>\<open>Iterator::filter_map\<close>, \<open>next\<close>, \<open>min_by_key\<close> (the first minimum) and \<open>Vec::dedup\<close>.\<close>

definition filter_map :: "('a \<Rightarrow> 'b option) \<Rightarrow> 'a list \<Rightarrow> 'b list" where
  "filter_map f xs = List.map_filter f xs"

definition first_of :: "'a list \<Rightarrow> 'a option" where
  "first_of xs = (case xs of [] \<Rightarrow> None | x # _ \<Rightarrow> Some x)"

definition last_of :: "'a list \<Rightarrow> 'a option" where
  "last_of xs = (if xs = [] then None else Some (last xs))"

fun min_by_key :: "('a \<Rightarrow> 'k::linorder) \<Rightarrow> 'a list \<Rightarrow> 'a option" where
  "min_by_key f [] = None"
| "min_by_key f (x # xs) =
     (case min_by_key f xs of None \<Rightarrow> Some x | Some y \<Rightarrow> if f x \<le> f y then Some x else Some y)"

abbreviation dedup :: "'a list \<Rightarrow> 'a list" where
  "dedup xs \<equiv> remdups_adj xs"

lemma filter_map_simps [simp]:
  "filter_map f [] = []"
  "filter_map f (x # xs) = (case f x of None \<Rightarrow> filter_map f xs | Some y \<Rightarrow> y # filter_map f xs)"
  by (simp_all add: filter_map_def map_filter_def split: option.split)

lemma filter_map_set: "set (filter_map f xs) = {y. \<exists>x \<in> set xs. f x = Some y}"
  by (induction xs) (auto split: option.splits)

lemma filter_map_append [simp]: "filter_map f (xs @ ys) = filter_map f xs @ filter_map f ys"
  by (induction xs) (auto split: option.splits)

lemma first_of_simps [simp]: "first_of [] = None" "first_of (x # xs) = Some x"
  by (simp_all add: first_of_def)

lemma first_of_SomeD: "first_of xs = Some x \<Longrightarrow> x \<in> set xs"
  by (cases xs) auto

lemma min_by_key_None [simp]: "min_by_key f xs = None \<longleftrightarrow> xs = []"
  by (cases xs) (auto split: option.splits)

lemma min_by_key_Some:
  "min_by_key f xs = Some x \<Longrightarrow> x \<in> set xs \<and> (\<forall>y \<in> set xs. f x \<le> f y)"
proof (induction xs arbitrary: x)
  case Nil
  then show ?case by simp
next
  case (Cons a xs)
  then show ?case
    by (cases "min_by_key f xs") (auto split: if_splits)
qed

lemma sorted_dedup: "sorted xs \<Longrightarrow> sorted (dedup xs) \<and> distinct (dedup xs)"
  by (induction xs rule: remdups_adj.induct) (auto simp: order_antisym)

section \<open>Strings\<close>

text \<open>
  A Rust \<open>String\<close> is its UTF-8 byte sequence, a \<open>string\<close>; \<open>len\<close> is \<open>length\<close>, and \<open>Ord\<close> is the
  lexicographic order on bytes. \<open>utf8_chars\<close> cuts a byte sequence into the encodings of its
  characters by their first byte; a Rust string is always complete (\<open>utf8_wf\<close>).
\<close>

definition byte_of :: "char \<Rightarrow> nat" where "byte_of c = of_char c"

definition utf8_width :: "char \<Rightarrow> nat" where
  "utf8_width c = (let b = byte_of c in
     if b < 192 then 1 else if b < 224 then 2 else if b < 240 then 3 else 4)"

fun utf8_chars :: "string \<Rightarrow> string list" where
  "utf8_chars [] = []"
| "utf8_chars (c # cs) = (c # take (utf8_width c - 1) cs) # utf8_chars (drop (utf8_width c - 1) cs)"

definition utf8_char_ok :: "string \<Rightarrow> bool" where
  "utf8_char_ok u \<longleftrightarrow> (case u of [] \<Rightarrow> False | c # _ \<Rightarrow> length u = utf8_width c)"

definition utf8_wf :: "string \<Rightarrow> bool" where
  "utf8_wf s \<longleftrightarrow> list_all utf8_char_ok (utf8_chars s)"

text \<open>\<open>char::is_control\<close>: the scalar values 0 to 31 and 127 to 159 (general category Cc).\<close>

fun char_is_control :: "string \<Rightarrow> bool" where
  "char_is_control [c] = (byte_of c < 32 \<or> byte_of c = 127)"
| "char_is_control [c, d] = (byte_of c = 194 \<and> 128 \<le> byte_of d \<and> byte_of d < 160)"
| "char_is_control _ = False"

text \<open>The scalar value of a control character, and its lower-case hexadecimal digits.\<close>

fun control_code :: "string \<Rightarrow> nat" where
  "control_code [c] = byte_of c"
| "control_code [c, d] = (byte_of c - 192) * 64 + (byte_of d - 128)"
| "control_code _ = 0"

definition hex_digit :: "nat \<Rightarrow> char" where
  "hex_digit n = char_of (if n < 10 then 48 + n else 87 + n)"

definition hex_text :: "nat \<Rightarrow> string" where
  "hex_text n = (if n < 16 then [hex_digit n] else [hex_digit (n div 16), hex_digit (n mod 16)])"

text \<open>\<open>char::escape_default\<close> on a control character.\<close>

definition control_escape :: "string \<Rightarrow> string" where
  "control_escape u = (let n = control_code u in
     if n = 9 then [CHR 0x5C, CHR ''t''] else if n = 13 then [CHR 0x5C, CHR ''r'']
     else if n = 10 then [CHR 0x5C, CHR ''n'']
     else [CHR 0x5C, CHR ''u'', CHR ''{''] @ hex_text n @ [CHR ''}''])"

lemma utf8_width_pos [simp]: "0 < utf8_width c"
  by (simp add: utf8_width_def Let_def)

lemma utf8_width_le: "utf8_width c \<le> 4"
  by (simp add: utf8_width_def Let_def)

lemma concat_utf8_chars: "concat (utf8_chars s) = s"
  by (induction s rule: utf8_chars.induct) simp_all

lemma utf8_chars_char: "utf8_char_ok u \<Longrightarrow> utf8_chars (u @ s) = u # utf8_chars s"
  by (cases u) (auto simp: utf8_char_ok_def)

lemma utf8_chars_concat: "list_all utf8_char_ok us \<Longrightarrow> utf8_chars (concat us) = us"
  by (induction us) (auto simp: utf8_chars_char)

text \<open>\<open>str::to_ascii_lowercase\<close>, \<open>starts_with\<close>, \<open>strip_prefix\<close> and \<open>contains\<close>.\<close>

definition ascii_lower :: "char \<Rightarrow> char" where
  "ascii_lower c = (if 65 \<le> byte_of c \<and> byte_of c \<le> 90 then char_of (byte_of c + 32) else c)"

definition str_lower :: "string \<Rightarrow> string" where "str_lower s = map ascii_lower s"

definition starts_with :: "string \<Rightarrow> string \<Rightarrow> bool" where
  "starts_with s p = (take (length p) s = p)"

definition strip_prefix :: "string \<Rightarrow> string \<Rightarrow> string option" where
  "strip_prefix s p = (if starts_with s p then Some (drop (length p) s) else None)"

fun str_contains :: "string \<Rightarrow> string \<Rightarrow> bool" where
  "str_contains [] p = (p = [])"
| "str_contains (c # cs) p = (starts_with (c # cs) p \<or> str_contains cs p)"

text \<open>Decimal text of an integer, as \<open>Display\<close> prints it.\<close>

fun nat_text :: "nat \<Rightarrow> string" where
  "nat_text n = (if n < 10 then [char_of (48 + n)] else nat_text (n div 10) @ [char_of (48 + n mod 10)])"

declare nat_text.simps [simp del]

definition int_text :: "int \<Rightarrow> string" where
  "int_text i = (if i < 0 then CHR ''-'' # nat_text (nat (- i)) else nat_text (nat i))"

end
