(* ===== verification/Ids.thy ===== *)
theory Ids
  imports Prelude
begin

text \<open>
  Identifiers of \<open>src/model/ids.rs\<close>: providers, task-run identifiers, run keys and display
  ordinals. A \<open>RunId\<close> wraps a 128-bit ULID; the text form of a ULID and the minting of a fresh
  one belong to the \<open>ulid\<close> crate and are parameters of the definitions that use them.
\<close>

datatype provider = Claude | Codex

datatype run_id = RunId (ulid: "128 word")

datatype run_key =
    Controller string
  | Native provider string
  | NativePath provider string
  | Provisional string i64 u64

datatype display_ordinal = DisplayOrdinal (ordinal_get: i64)

text \<open>The derived orders compare the wrapped values.\<close>

instantiation run_id :: linorder
begin

definition less_eq_run_id :: "run_id \<Rightarrow> run_id \<Rightarrow> bool" where
  "less_eq_run_id a b \<longleftrightarrow> ulid a \<le> ulid b"

definition less_run_id :: "run_id \<Rightarrow> run_id \<Rightarrow> bool" where
  "less_run_id a b \<longleftrightarrow> ulid a < ulid b"

instance
  by standard (auto simp: less_eq_run_id_def less_run_id_def run_id.expand)

end

instantiation display_ordinal :: linorder
begin

definition less_eq_display_ordinal :: "display_ordinal \<Rightarrow> display_ordinal \<Rightarrow> bool" where
  "less_eq_display_ordinal a b \<longleftrightarrow> ordinal_get a \<le> ordinal_get b"

definition less_display_ordinal :: "display_ordinal \<Rightarrow> display_ordinal \<Rightarrow> bool" where
  "less_display_ordinal a b \<longleftrightarrow> ordinal_get a < ordinal_get b"

instance
  by standard (auto simp: less_eq_display_ordinal_def less_display_ordinal_def display_ordinal.expand)

end

definition is_controller :: "run_key \<Rightarrow> bool" where
  "is_controller k = (case k of Controller _ \<Rightarrow> True | _ \<Rightarrow> False)"

definition is_native :: "run_key \<Rightarrow> bool" where
  "is_native k = (case k of Native _ _ \<Rightarrow> True | _ \<Rightarrow> False)"

definition is_native_path :: "run_key \<Rightarrow> bool" where
  "is_native_path k = (case k of NativePath _ _ \<Rightarrow> True | _ \<Rightarrow> False)"

definition is_provisional :: "run_key \<Rightarrow> bool" where
  "is_provisional k = (case k of Provisional _ _ _ \<Rightarrow> True | _ \<Rightarrow> False)"

lemma run_key_kinds [simp]:
  "is_controller (Controller s)" "\<not> is_controller (Native p s)" "\<not> is_controller (NativePath p s)"
  "\<not> is_controller (Provisional s t q)" "is_native (Native p s)" "\<not> is_native (Controller s)"
  "\<not> is_native (NativePath p s)" "\<not> is_native (Provisional s t q)" "is_native_path (NativePath p s)"
  "\<not> is_native_path (Controller s)" "\<not> is_native_path (Native p s)"
  "\<not> is_native_path (Provisional s t q)" "is_provisional (Provisional s t q)"
  "\<not> is_provisional (Controller s)" "\<not> is_provisional (Native p s)" "\<not> is_provisional (NativePath p s)"
  by (simp_all add: is_controller_def is_native_def is_native_path_def is_provisional_def)

end
