(* ===== verification/RunState.thy ===== *)
theory RunState
  imports Ids
begin

text \<open>
  The value types of \<open>src/model/state.rs\<close>: history-drain identities, native-session lifecycle
  evidence with its totally ordered watermark, the persisted rate ledger with its saturating
  arithmetic, and the execution, pane and task states.
\<close>

section \<open>History drains and lifecycle evidence\<close>

datatype history_drain_id = HistoryDrainId (drain_text: string)

definition drain_id_max_bytes :: nat where "drain_id_max_bytes = 160"

definition history_drain_id_new :: "string \<Rightarrow> string + history_drain_id" where
  "history_drain_id_new value =
     (if value = [] then Inl ''history drain identity cannot be empty''
      else if drain_id_max_bytes < length value
        then Inl ''history drain identity exceeds the bounded byte length''
      else if list_ex char_is_control (utf8_chars value)
        then Inl ''history drain identity cannot contain control characters''
      else Inr (HistoryDrainId value))"

datatype observation_origin = Live | Historical history_drain_id string

datatype native_session_end_status = EndDone | EndError | EndCancelled | EndUnknown

record native_session_end =
  ne_status :: native_session_end_status
  ne_at_ms :: i64

text \<open>The derived order of the watermark compares source time, observation time, source order.\<close>

datatype native_lifecycle_watermark =
  Watermark (wm_source_at_ms: i64) (wm_observed_at_ms: i64) (wm_source_order: string)

definition watermark_key :: "native_lifecycle_watermark \<Rightarrow> i64 \<times> i64 \<times> string" where
  "watermark_key w = (wm_source_at_ms w, wm_observed_at_ms w, wm_source_order w)"

instantiation native_lifecycle_watermark :: linorder
begin

definition less_eq_native_lifecycle_watermark ::
  "native_lifecycle_watermark \<Rightarrow> native_lifecycle_watermark \<Rightarrow> bool" where
  "less_eq_native_lifecycle_watermark a b \<longleftrightarrow> watermark_key a \<le> watermark_key b"

definition less_native_lifecycle_watermark ::
  "native_lifecycle_watermark \<Rightarrow> native_lifecycle_watermark \<Rightarrow> bool" where
  "less_native_lifecycle_watermark a b \<longleftrightarrow> watermark_key a < watermark_key b"

instance
proof
  fix a b c :: native_lifecycle_watermark
  have inj: "watermark_key x = watermark_key y \<Longrightarrow> x = y" for x y
    by (cases x; cases y) (simp add: watermark_key_def)
  show "(a < b) = (a \<le> b \<and> \<not> b \<le> a)"
    unfolding less_native_lifecycle_watermark_def less_eq_native_lifecycle_watermark_def
    by (rule less_le_not_le)
  show "a \<le> a" by (simp add: less_eq_native_lifecycle_watermark_def)
  show "a \<le> b \<Longrightarrow> b \<le> c \<Longrightarrow> a \<le> c"
    unfolding less_eq_native_lifecycle_watermark_def by (rule order_trans)
  show "a \<le> b \<Longrightarrow> b \<le> a \<Longrightarrow> a = b"
    unfolding less_eq_native_lifecycle_watermark_def by (rule inj) (rule order_antisym)
  show "a \<le> b \<or> b \<le> a"
    unfolding less_eq_native_lifecycle_watermark_def by (rule linear)
qed

end

record task_run_v6_state =
  v6_native_session_end :: "native_session_end option"
  v6_lifecycle_watermark :: "native_lifecycle_watermark option"
  v6_history_ready :: bool
  v6_latest_provider_at_ms :: "i64 option"

definition v6_default :: task_run_v6_state where
  "v6_default = \<lparr>v6_native_session_end = None, v6_lifecycle_watermark = None,
     v6_history_ready = True, v6_latest_provider_at_ms = None\<rparr>"

section \<open>The active-time rate ledger\<close>

definition persisted_rate_total_max :: u64 where
  "persisted_rate_total_max = 9223372036854775807"

record run_rate_totals =
  rt_output_tokens :: u64
  rt_working_ms :: i64

definition rate_totals_default :: run_rate_totals where
  "rate_totals_default = \<lparr>rt_output_tokens = 0, rt_working_ms = 0\<rparr>"

definition rate_clamped :: "run_rate_totals \<Rightarrow> run_rate_totals \<times> bool" where
  "rate_clamped t =
     (let output_tokens = min (rt_output_tokens t) persisted_rate_total_max;
          working_ms = max (rt_working_ms t) 0
      in (\<lparr>rt_output_tokens = output_tokens, rt_working_ms = working_ms\<rparr>,
          output_tokens \<noteq> rt_output_tokens t \<or> working_ms \<noteq> rt_working_ms t))"

definition rate_saturating_add ::
  "run_rate_totals \<Rightarrow> run_rate_totals \<Rightarrow> run_rate_totals \<times> bool" where
  "rate_saturating_add self delta =
     (let delta_working_ms = max (rt_working_ms delta) 0;
          (current, preexisting_clamp) = rate_clamped self;
          output_sum = u64_checked_add (rt_output_tokens current) (rt_output_tokens delta);
          working_sum = i64_checked_add (rt_working_ms current) delta_working_ms;
          output_tokens = min (opt_unwrap_or u64_max output_sum) persisted_rate_total_max;
          working_ms = opt_unwrap_or i64_max working_sum;
          saturated = (preexisting_clamp
            \<or> rt_working_ms delta < 0
            \<or> opt_is_none_or (\<lambda>sum. persisted_rate_total_max < sum) output_sum
            \<or> working_sum = None)
      in (\<lparr>rt_output_tokens = output_tokens, rt_working_ms = working_ms\<rparr>, saturated))"

text \<open>The persisted domain, and the closed form of one addition.\<close>

definition rate_in_domain :: "run_rate_totals \<Rightarrow> bool" where
  "rate_in_domain t \<longleftrightarrow> rt_output_tokens t \<le> persisted_rate_total_max
     \<and> 0 \<le> rt_working_ms t \<and> rt_working_ms t \<le> i64_max"

lemma rate_add_tokens:
  "rt_output_tokens (fst (rate_saturating_add a b))
     = min persisted_rate_total_max (min persisted_rate_total_max (rt_output_tokens a) + rt_output_tokens b)"
  by (auto simp: rate_saturating_add_def rate_clamped_def Let_def rust_int
      persisted_rate_total_max_def min_def)

lemma rate_add_working:
  "is_i64 (rt_working_ms a) \<Longrightarrow> rt_working_ms (fst (rate_saturating_add a b))
     = min i64_max (max 0 (rt_working_ms a) + max 0 (rt_working_ms b))"
  by (auto simp: rate_saturating_add_def rate_clamped_def Let_def rust_int min_def max_def)

lemma rate_add_in_domain:
  "is_i64 (rt_working_ms a) \<Longrightarrow> rate_in_domain (fst (rate_saturating_add a b))"
  by (simp add: rate_in_domain_def rate_add_tokens rate_add_working) (simp add: i64_max_def)

lemma rate_in_domain_is_i64: "rate_in_domain t \<Longrightarrow> is_i64 (rt_working_ms t)"
  by (simp add: rate_in_domain_def rust_int)

text \<open>The reported flag is exact: it is set when, and only when, the stored sum lost something.\<close>

lemma rate_add_flag:
  "is_i64 (rt_working_ms a) \<Longrightarrow> is_i64 (rt_working_ms b) \<Longrightarrow> snd (rate_saturating_add a b) \<longleftrightarrow>
     rt_output_tokens (fst (rate_saturating_add a b)) \<noteq> rt_output_tokens a + rt_output_tokens b
     \<or> rt_working_ms (fst (rate_saturating_add a b)) \<noteq> rt_working_ms a + rt_working_ms b"
  by (auto simp: rate_saturating_add_def rate_clamped_def Let_def rust_int
      persisted_rate_total_max_def min_def max_def split: if_splits)

section \<open>Execution, pane and task states\<close>

datatype exec_state = ExecUnknown | ExecIdle | ExecWorking | ExecBlocked | ExecStale i64 | ExecEnded

fun exec_is_terminal :: "exec_state \<Rightarrow> bool" where
  "exec_is_terminal ExecEnded = True"
| "exec_is_terminal _ = False"

datatype pane_agent_status = PaneIdle | PaneWorking | PaneBlocked | PaneDone | PaneUnknown

definition pane_status_from_wire :: "string option \<Rightarrow> pane_agent_status" where
  "pane_status_from_wire v =
     (if v = Some ''idle'' then PaneIdle
      else if v = Some ''working'' then PaneWorking
      else if v = Some ''blocked'' then PaneBlocked
      else if v = Some ''done'' then PaneDone
      else if v = Some ''unknown'' \<or> v = None then PaneUnknown
      else PaneUnknown)"

fun pane_execution_state :: "pane_agent_status \<Rightarrow> exec_state" where
  "pane_execution_state PaneIdle = ExecIdle"
| "pane_execution_state PaneDone = ExecIdle"
| "pane_execution_state PaneWorking = ExecWorking"
| "pane_execution_state PaneBlocked = ExecBlocked"
| "pane_execution_state PaneUnknown = ExecUnknown"

datatype task_state = Queued | Running | Blocked | Completed | Failed | Cancelled | EndedUnknown

fun task_is_terminal :: "task_state \<Rightarrow> bool" where
  "task_is_terminal Completed = True"
| "task_is_terminal Failed = True"
| "task_is_terminal Cancelled = True"
| "task_is_terminal EndedUnknown = True"
| "task_is_terminal _ = False"

lemma exec_is_terminal_iff [simp]: "exec_is_terminal s \<longleftrightarrow> s = ExecEnded"
  by (cases s) auto

lemma pane_execution_state_live [simp]: "pane_execution_state p \<noteq> ExecEnded"
  by (cases p) auto

end
