(* ===== verification/Entities.thy ===== *)
theory Entities
  imports RunState
begin

text \<open>
  The entity structs and events of \<open>src/model/entities.rs\<close> and the activity item of
  \<open>src/activity.rs\<close>: physical topology, executions, task runs, telemetry, agent nodes, edges,
  history publications, Controller and normalized events, and the display-text sanitizer.
\<close>

section \<open>Topology, executions and task runs\<close>

record workspace =
  ws_workspace_id :: string

record tab =
  tb_tab_id :: string
  tb_workspace_id :: string
  tb_label :: "string option"

record pane =
  pn_pane_id :: string
  pn_workspace_id :: string
  pn_tab_id :: string
  pn_terminal_id :: string
  pn_display_name :: "string option"

record execution =
  ex_execution_id :: string
  ex_pane_id :: string
  ex_terminal_id :: string
  ex_task_run_id :: run_id
  ex_state :: exec_state

record pane_agent_status_observation =
  po_pane_id :: string
  po_status :: pane_agent_status

record task_run =
  tr_run_id :: run_id
  tr_key :: run_key
  tr_display_ordinal :: display_ordinal
  tr_state :: task_state
  tr_has_controller_task_state_event :: bool
  tr_created_at_ms :: "i64 option"
  tr_updated_at_ms :: "i64 option"
  tr_finished_at_ms :: "i64 option"
  tr_subject :: "string option"
  tr_dismissed_at_ms :: "i64 option"

text \<open>\<open>TaskRun::touch\<close>: \<open>get_or_insert\<close> keeps an existing finish time.\<close>

definition task_run_touch :: "i64 \<Rightarrow> task_run \<Rightarrow> task_run" where
  "task_run_touch timestamp_ms r =
     (let r = r\<lparr>tr_updated_at_ms := Some timestamp_ms\<rparr>
      in if task_is_terminal (tr_state r)
         then r\<lparr>tr_finished_at_ms := Some (opt_unwrap_or timestamp_ms (tr_finished_at_ms r))\<rparr>
         else r\<lparr>tr_finished_at_ms := None, tr_dismissed_at_ms := None\<rparr>)"

section \<open>Telemetry\<close>

record turn_attr =
  ta_model :: "string option"
  ta_effort :: "string option"
  ta_sandbox :: "string option"

record token_breakdown =
  tk_input_tokens :: "u64 option"
  tk_cached_input_tokens :: "u64 option"
  tk_cache_write_input_tokens :: "u64 option"
  tk_reasoning_output_tokens :: "u64 option"
  tk_total_tokens :: "u64 option"
  tk_context_window :: "u64 option"

definition token_breakdown_default :: token_breakdown where
  "token_breakdown_default = \<lparr>tk_input_tokens = None, tk_cached_input_tokens = None,
     tk_cache_write_input_tokens = None, tk_reasoning_output_tokens = None,
     tk_total_tokens = None, tk_context_window = None\<rparr>"

definition accumulate_reported :: "u64 option \<Rightarrow> u64 option \<Rightarrow> u64 option" where
  "accumulate_reported slot sample =
     (case sample of None \<Rightarrow> slot
      | Some v \<Rightarrow> Some (u64_saturating_add (opt_unwrap_or 0 slot) v))"

definition token_accumulate :: "token_breakdown \<Rightarrow> token_breakdown \<Rightarrow> token_breakdown" where
  "token_accumulate self sample =
     \<lparr>tk_input_tokens = accumulate_reported (tk_input_tokens self) (tk_input_tokens sample),
      tk_cached_input_tokens =
        accumulate_reported (tk_cached_input_tokens self) (tk_cached_input_tokens sample),
      tk_cache_write_input_tokens =
        accumulate_reported (tk_cache_write_input_tokens self) (tk_cache_write_input_tokens sample),
      tk_reasoning_output_tokens =
        accumulate_reported (tk_reasoning_output_tokens self) (tk_reasoning_output_tokens sample),
      tk_total_tokens = accumulate_reported (tk_total_tokens self) (tk_total_tokens sample),
      tk_context_window = (if tk_context_window sample \<noteq> None then tk_context_window sample
                           else tk_context_window self)\<rparr>"

record run_telemetry =
  tl_output_tokens :: u64
  tl_token_breakdown :: token_breakdown
  tl_started_wall_ms :: i64
  tl_model :: "string option"
  tl_effort :: "string option"
  tl_sandbox :: "string option"
  tl_per_turn :: "turn_attr list"

definition telemetry_accumulate ::
  "run_telemetry \<Rightarrow> u64 \<Rightarrow> string option \<Rightarrow> string option \<Rightarrow> string option \<Rightarrow> bool \<Rightarrow> run_telemetry" where
  "telemetry_accumulate self output_tokens model effort sandbox retain_turn =
     (let self = self\<lparr>tl_output_tokens := u64_saturating_add (tl_output_tokens self) output_tokens\<rparr>
      in if model = None \<and> effort = None \<and> sandbox = None then self
         else let attribution = \<lparr>ta_model = model, ta_effort = effort, ta_sandbox = sandbox\<rparr>;
                  self = self\<lparr>tl_model := model, tl_effort := effort, tl_sandbox := sandbox\<rparr>
              in if retain_turn \<and> last_of (tl_per_turn self) \<noteq> Some attribution
                 then self\<lparr>tl_per_turn := tl_per_turn self @ [attribution]\<rparr>
                 else self)"

record run_rate_cursor =
  rc_baseline_output_tokens :: u64
  rc_last_observed_at_ms :: i64
  rc_working :: bool
  rc_measurement_epoch :: u64
  rc_identity_basis :: run_key
  rc_live_baseline :: bool

section \<open>Agent nodes and edges\<close>

record agent_node =
  an_agent_node_id :: string
  an_provider :: provider
  an_native_session_id :: "string option"
  an_task_run_id :: run_id
  an_display_ordinal :: display_ordinal
  an_parent_agent_node_id :: "string option"
  an_state :: "exec_state option"
  an_model_id :: "string option"
  an_last_event_kind :: "string option"
  an_last_tool_name :: "string option"
  an_last_item_count :: "u64 option"
  an_last_byte_count :: "u64 option"
  an_last_activity_at_ms :: "i64 option"
  an_session_file :: "string option"

record agent_node_observation =
  ao_agent_node_id :: string
  ao_provider :: provider
  ao_native_session_id :: "string option"
  ao_task_run_id :: run_id
  ao_parent_agent_node_id :: "string option"
  ao_state :: "exec_state option"
  ao_model_id :: "string option"
  ao_session_file :: "string option"

record execution_edge =
  ee_parent_run_id :: run_id
  ee_child_run_id :: run_id

record dependency_edge =
  de_prerequisite_run_id :: run_id
  de_dependent_run_id :: run_id

record history_run_publication =
  hp_canonical_run_id :: run_id
  hp_task_run :: task_run
  hp_state :: task_run_v6_state
  hp_aliases :: "run_key list"
  hp_rate_totals :: "run_rate_totals option"
  hp_executions :: "execution list"
  hp_agent_nodes :: "agent_node list"
  hp_execution_edges :: "execution_edge list"
  hp_dependency_edges :: "dependency_edge list"
  hp_telemetry :: "run_telemetry option"
  hp_run_kind :: "string option"
  hp_rate_cursor :: "run_rate_cursor option"

section \<open>Events\<close>

record source_coverage =
  sc_source :: string
  sc_available :: bool
  sc_detail :: "string option"

record minimal_provider_metadata =
  mp_agent_id :: "string option"
  mp_parent_agent_id :: "string option"
  mp_model_id :: "string option"
  mp_event_kind :: "string option"
  mp_tool_name :: "string option"
  mp_item_count :: "u64 option"
  mp_byte_count :: "u64 option"

record event_metadata =
  md_event_id :: string
  md_timestamp_ms :: i64
  md_receipt_time_ms :: i64
  md_source :: string
  md_source_event_type :: string
  md_herdr_session :: string
  md_workspace_id :: "string option"
  md_tab_id :: "string option"
  md_pane_id :: "string option"
  md_terminal_id :: "string option"
  md_provider :: "provider option"
  md_native_session_id :: "string option"
  md_task_run_id :: "run_id option"
  md_agent_node_id :: "string option"
  md_task_state :: "task_state option"
  md_execution_parent :: "execution_edge option"
  md_dependency :: "dependency_edge option"
  md_source_coverage :: "source_coverage list"
  md_provider_metadata :: "minimal_provider_metadata option"
  md_label :: "string option"
  md_reason :: "string option"
  md_progress :: "nat option"
  md_ingest_seq :: "u64 option"

datatype controller_event_kind =
    CtlDispatch string
  | CtlTaskStarted
  | CtlDependsOn string
  | CtlBlocked
  | CtlProgress
  | CtlComplete
  | CtlFailed
  | CtlCancelled
  | CtlSessionEnded
  | CtlDismiss

record controller_event =
  ce_schema_version :: u64
  ce_task_run_id :: string
  ce_metadata :: event_metadata
  ce_event :: controller_event_kind

datatype topology_entity = EntityWorkspace workspace | EntityTab tab | EntityPane pane

datatype topology_entity_id = WorkspaceId string | TabId string | PaneId string

datatype topology_authority = Partial | Authoritative

datatype normalized_event =
    ControllerEvent event_metadata controller_event_kind
  | TopologyUpsert event_metadata topology_authority topology_entity
  | TopologyClosure event_metadata topology_entity_id
  | AgentStatusChanged event_metadata string exec_state
  | AgentNodeUpsert event_metadata agent_node_observation
  | AgentActivity event_metadata string minimal_provider_metadata
  | ExecutionBegin event_metadata execution
  | ExecutionEnd event_metadata string

datatype agent_session_reference_kind = RefId | RefPath

record agent_session_reference =
  ar_source :: string
  ar_agent :: string
  ar_kind :: agent_session_reference_kind
  ar_value :: string

record snapshot_agent =
  sa_agent_name :: string
  sa_status :: pane_agent_status

record pane_snapshot =
  ps_pane_id :: string
  ps_workspace_id :: string
  ps_tab_id :: string
  ps_terminal_id :: string
  ps_display_name :: "string option"
  ps_agent :: "snapshot_agent option"
  ps_agent_session :: "agent_session_reference option"

record topology_snapshot =
  tp_workspaces :: "workspace list"
  tp_tabs :: "tab list"
  tp_panes :: "pane_snapshot list"

datatype operator_command = DismissClearable

section \<open>Activity items\<close>

datatype activity_durability = Durable | CurrentOnly | DurabilityUnknown

record activity_item =
  ai_event_id :: string
  ai_event_timestamp_ms :: i64
  ai_seen_at_ms :: i64
  ai_ingest_seq :: "u64 option"
  ai_source :: string
  ai_normalized_kind :: string
  ai_source_event_type :: string
  ai_workspace_id :: "string option"
  ai_tab_id :: "string option"
  ai_pane_id :: "string option"
  ai_terminal_id :: "string option"
  ai_provider :: "provider option"
  ai_native_session_id :: "string option"
  ai_task_run_id :: "run_id option"
  ai_agent_node_id :: "string option"
  ai_task_state :: "task_state option"
  ai_model_id :: "string option"
  ai_provider_event_kind :: "string option"
  ai_tool_name :: "string option"
  ai_item_count :: "u64 option"
  ai_byte_count :: "u64 option"
  ai_provider_agent_id :: "string option"
  ai_provider_parent_agent_id :: "string option"
  ai_controller_label :: "string option"
  ai_controller_reason :: "string option"
  ai_durability :: activity_durability

section \<open>Controller display text\<close>

definition sanitize_max_bytes :: nat where "sanitize_max_bytes = 256"

fun sanitize_loop :: "string \<Rightarrow> string list \<Rightarrow> string" where
  "sanitize_loop sanitized [] = sanitized"
| "sanitize_loop sanitized (character # rest) =
     (if char_is_control character
      then let escaped = control_escape character
           in if sanitize_max_bytes < length sanitized + length escaped then sanitized
              else sanitize_loop (sanitized @ escaped) rest
      else if sanitize_max_bytes < length sanitized + length character then sanitized
      else sanitize_loop (sanitized @ character) rest)"

definition sanitize_controller_text :: "string \<Rightarrow> string" where
  "sanitize_controller_text value = sanitize_loop [] (utf8_chars value)"

end
