(* ===== verification/Domain_Model.thy ===== *)
theory Domain_Model
  imports Entities
begin

text \<open>
  The \<open>DomainModel\<close> of \<open>src/model/entities.rs\<close>: its tables, the reducer-owned diagnostic
  counters, and one definition per operation. A method that mutates the model returns the new
  model (with the method's return value where a caller uses it). The \<open>Arc\<close>-shared atomic
  counters of the acceptor and of the provider threads are not part of the value.
\<close>

section \<open>Diagnostics\<close>

record controller_diagnostics =
  cd_binding_conflicts :: u64
  cd_terminal_blocked_progress_noops :: u64
  cd_terminal_forward_reference_creations :: u64
  cd_unknown_lane_terminal_drops :: u64
  cd_dangling_announcement_components :: u64
  cd_ingest_sequence_exhaustions :: u64
  cd_provider_parent_conflicts :: u64
  cd_provider_identity_disagreements :: u64
  cd_rate_total_saturations :: u64

definition record_binding_conflict :: "controller_diagnostics \<Rightarrow> controller_diagnostics" where
  "record_binding_conflict d =
     d\<lparr>cd_binding_conflicts := u64_saturating_add (cd_binding_conflicts d) 1\<rparr>"

definition record_terminal_blocked_progress_noops ::
  "u64 \<Rightarrow> controller_diagnostics \<Rightarrow> controller_diagnostics" where
  "record_terminal_blocked_progress_noops count d =
     d\<lparr>cd_terminal_blocked_progress_noops :=
         u64_saturating_add (cd_terminal_blocked_progress_noops d) count\<rparr>"

definition record_terminal_forward_reference_creations ::
  "u64 \<Rightarrow> controller_diagnostics \<Rightarrow> controller_diagnostics" where
  "record_terminal_forward_reference_creations count d =
     d\<lparr>cd_terminal_forward_reference_creations :=
         u64_saturating_add (cd_terminal_forward_reference_creations d) count\<rparr>"

definition record_unknown_lane_terminal_drops ::
  "u64 \<Rightarrow> controller_diagnostics \<Rightarrow> controller_diagnostics" where
  "record_unknown_lane_terminal_drops count d =
     d\<lparr>cd_unknown_lane_terminal_drops :=
         u64_saturating_add (cd_unknown_lane_terminal_drops d) count\<rparr>"

definition set_dangling_announcement_components ::
  "u64 \<Rightarrow> controller_diagnostics \<Rightarrow> controller_diagnostics" where
  "set_dangling_announcement_components count d = d\<lparr>cd_dangling_announcement_components := count\<rparr>"

definition record_ingest_sequence_exhaustion ::
  "controller_diagnostics \<Rightarrow> controller_diagnostics" where
  "record_ingest_sequence_exhaustion d =
     d\<lparr>cd_ingest_sequence_exhaustions := u64_saturating_add (cd_ingest_sequence_exhaustions d) 1\<rparr>"

definition record_provider_parent_conflict ::
  "controller_diagnostics \<Rightarrow> controller_diagnostics" where
  "record_provider_parent_conflict d =
     d\<lparr>cd_provider_parent_conflicts := u64_saturating_add (cd_provider_parent_conflicts d) 1\<rparr>"

definition record_provider_identity_disagreement ::
  "controller_diagnostics \<Rightarrow> controller_diagnostics" where
  "record_provider_identity_disagreement d =
     d\<lparr>cd_provider_identity_disagreements :=
         u64_saturating_add (cd_provider_identity_disagreements d) 1\<rparr>"

definition record_rate_total_saturation ::
  "controller_diagnostics \<Rightarrow> controller_diagnostics" where
  "record_rate_total_saturation d =
     d\<lparr>cd_rate_total_saturations := u64_saturating_add (cd_rate_total_saturations d) 1\<rparr>"

section \<open>The model\<close>

datatype topology_kind = KindWorkspace | KindTab | KindPane

record domain_model =
  dm_workspaces :: "(string, workspace) hmap"
  dm_tabs :: "(string, tab) hmap"
  dm_panes :: "(string, pane) hmap"
  dm_pane_agent_statuses :: "(string, pane_agent_status) hmap"
  dm_topology_ordinals :: "(topology_kind \<times> string, display_ordinal) hmap"
  dm_task_runs :: "(run_id, task_run) hmap"
  dm_run_ids_by_key :: "(run_key, run_id) hmap"
  dm_task_run_v6_state :: "(run_id, task_run_v6_state) hmap"
  dm_run_rate_totals :: "(run_id, run_rate_totals) hmap"
  dm_run_rate_cursors :: "(run_id, run_rate_cursor) hmap"
  dm_telemetry :: "(run_id, run_telemetry) hmap"
  dm_run_kinds :: "(run_id, string) hmap"
  dm_executions :: "(string, execution) hmap"
  dm_agent_nodes :: "(string, agent_node) hmap"
  dm_execution_edges :: "execution_edge list"
  dm_dependency_edges :: "dependency_edge list"
  dm_history_run_publications :: "(run_id, history_run_publication) hmap"
  dm_deferred_history_activity :: "(history_drain_id, activity_item list) hmap"
  dm_controller_diagnostics :: controller_diagnostics

definition controller_diagnostics_default :: controller_diagnostics where
  "controller_diagnostics_default = \<lparr>cd_binding_conflicts = 0,
     cd_terminal_blocked_progress_noops = 0, cd_terminal_forward_reference_creations = 0,
     cd_unknown_lane_terminal_drops = 0, cd_dangling_announcement_components = 0,
     cd_ingest_sequence_exhaustions = 0, cd_provider_parent_conflicts = 0,
     cd_provider_identity_disagreements = 0, cd_rate_total_saturations = 0\<rparr>"

definition domain_model_default :: domain_model where
  "domain_model_default = \<lparr>dm_workspaces = [], dm_tabs = [], dm_panes = [],
     dm_pane_agent_statuses = [], dm_topology_ordinals = [], dm_task_runs = [],
     dm_run_ids_by_key = [], dm_task_run_v6_state = [], dm_run_rate_totals = [],
     dm_run_rate_cursors = [], dm_telemetry = [], dm_run_kinds = [], dm_executions = [],
     dm_agent_nodes = [], dm_execution_edges = [], dm_dependency_edges = [],
     dm_history_run_publications = [], dm_deferred_history_activity = [],
     dm_controller_diagnostics = controller_diagnostics_default\<rparr>"

text \<open>\<open>controller_diagnostics_mut\<close>: apply one counter update in place.\<close>

definition with_diagnostics ::
  "(controller_diagnostics \<Rightarrow> controller_diagnostics) \<Rightarrow> domain_model \<Rightarrow> domain_model" where
  "with_diagnostics f m = m\<lparr>dm_controller_diagnostics := f (dm_controller_diagnostics m)\<rparr>"

section \<open>Topology\<close>

definition insert_workspace :: "workspace \<Rightarrow> domain_model \<Rightarrow> domain_model" where
  "insert_workspace w m = m\<lparr>dm_workspaces := hm_put (ws_workspace_id w) w (dm_workspaces m)\<rparr>"

definition get_workspace :: "domain_model \<Rightarrow> string \<Rightarrow> workspace option" where
  "get_workspace m i = hm_get (dm_workspaces m) i"

definition remove_workspace :: "string \<Rightarrow> domain_model \<Rightarrow> domain_model \<times> workspace option" where
  "remove_workspace i m =
     (m\<lparr>dm_workspaces := hm_del i (dm_workspaces m)\<rparr>, hm_get (dm_workspaces m) i)"

definition insert_tab :: "tab \<Rightarrow> domain_model \<Rightarrow> domain_model" where
  "insert_tab t m = m\<lparr>dm_tabs := hm_put (tb_tab_id t) t (dm_tabs m)\<rparr>"

definition get_tab :: "domain_model \<Rightarrow> string \<Rightarrow> tab option" where
  "get_tab m i = hm_get (dm_tabs m) i"

definition remove_tab :: "string \<Rightarrow> domain_model \<Rightarrow> domain_model \<times> tab option" where
  "remove_tab i m = (m\<lparr>dm_tabs := hm_del i (dm_tabs m)\<rparr>, hm_get (dm_tabs m) i)"

definition insert_pane :: "pane \<Rightarrow> domain_model \<Rightarrow> domain_model" where
  "insert_pane p m = m\<lparr>dm_panes := hm_put (pn_pane_id p) p (dm_panes m)\<rparr>"

definition get_pane :: "domain_model \<Rightarrow> string \<Rightarrow> pane option" where
  "get_pane m i = hm_get (dm_panes m) i"

definition get_pane_agent_status :: "domain_model \<Rightarrow> string \<Rightarrow> pane_agent_status option" where
  "get_pane_agent_status m i = hm_get (dm_pane_agent_statuses m) i"

definition set_pane_agent_status ::
  "string \<Rightarrow> pane_agent_status \<Rightarrow> domain_model \<Rightarrow> domain_model" where
  "set_pane_agent_status i s m =
     m\<lparr>dm_pane_agent_statuses := hm_put i s (dm_pane_agent_statuses m)\<rparr>"

definition replace_pane_agent_statuses ::
  "(string, pane_agent_status) hmap \<Rightarrow> domain_model \<Rightarrow> domain_model" where
  "replace_pane_agent_statuses statuses m = m\<lparr>dm_pane_agent_statuses := statuses\<rparr>"

definition remove_pane :: "string \<Rightarrow> domain_model \<Rightarrow> domain_model \<times> pane option" where
  "remove_pane i m =
     (let m = m\<lparr>dm_pane_agent_statuses := hm_del i (dm_pane_agent_statuses m)\<rparr>
      in (m\<lparr>dm_panes := hm_del i (dm_panes m)\<rparr>, hm_get (dm_panes m) i))"

definition topology_ordinal ::
  "domain_model \<Rightarrow> topology_kind \<Rightarrow> string \<Rightarrow> display_ordinal option" where
  "topology_ordinal m kind i = hm_get (dm_topology_ordinals m) (kind, i)"

definition set_topology_ordinal ::
  "topology_kind \<Rightarrow> string \<Rightarrow> display_ordinal \<Rightarrow> domain_model \<Rightarrow> domain_model" where
  "set_topology_ordinal kind i ordinal m =
     m\<lparr>dm_topology_ordinals := hm_put (kind, i) ordinal (dm_topology_ordinals m)\<rparr>"

definition remove_topology_ordinal ::
  "topology_kind \<Rightarrow> string \<Rightarrow> domain_model \<Rightarrow> domain_model" where
  "remove_topology_ordinal kind i m =
     m\<lparr>dm_topology_ordinals := hm_del (kind, i) (dm_topology_ordinals m)\<rparr>"

section \<open>Task runs and their keys\<close>

definition get_task_run :: "domain_model \<Rightarrow> run_id \<Rightarrow> task_run option" where
  "get_task_run m r = hm_get (dm_task_runs m) r"

definition get_v6_state :: "domain_model \<Rightarrow> run_id \<Rightarrow> task_run_v6_state option" where
  "get_v6_state m r = hm_get (dm_task_run_v6_state m) r"

definition set_v6_state :: "run_id \<Rightarrow> task_run_v6_state \<Rightarrow> domain_model \<Rightarrow> domain_model" where
  "set_v6_state r s m = m\<lparr>dm_task_run_v6_state := hm_put r s (dm_task_run_v6_state m)\<rparr>"

text \<open>\<open>entry(run_id).or_default()\<close> on the v6 table.\<close>

definition ensure_v6_state :: "run_id \<Rightarrow> domain_model \<Rightarrow> domain_model" where
  "ensure_v6_state r m =
     (case get_v6_state m r of None \<Rightarrow> set_v6_state r v6_default m | Some _ \<Rightarrow> m)"

definition insert_task_run :: "task_run \<Rightarrow> domain_model \<Rightarrow> domain_model" where
  "insert_task_run t m =
     (let run = tr_run_id t;
          replaced = hm_get (dm_task_runs m) run;
          m = m\<lparr>dm_task_runs := hm_put run t (dm_task_runs m)\<rparr>;
          m = ensure_v6_state run m;
          keys = (case replaced of
                    None \<Rightarrow> dm_run_ids_by_key m
                  | Some previous \<Rightarrow>
                      if hm_get (dm_run_ids_by_key m) (tr_key previous) = Some run
                      then hm_del (tr_key previous) (dm_run_ids_by_key m)
                      else dm_run_ids_by_key m)
      in m\<lparr>dm_run_ids_by_key := hm_put (tr_key t) run keys\<rparr>)"

definition task_run_by_key :: "domain_model \<Rightarrow> run_key \<Rightarrow> task_run option" where
  "task_run_by_key m k =
     (case hm_get (dm_run_ids_by_key m) k of None \<Rightarrow> None | Some r \<Rightarrow> hm_get (dm_task_runs m) r)"

abbreviation task_runs :: "domain_model \<Rightarrow> task_run list" where
  "task_runs m \<equiv> hm_values (dm_task_runs m)"

definition insert_task_run_alias :: "run_key \<Rightarrow> run_id \<Rightarrow> domain_model \<Rightarrow> domain_model" where
  "insert_task_run_alias k r m = m\<lparr>dm_run_ids_by_key := hm_put k r (dm_run_ids_by_key m)\<rparr>"

definition insert_historical_task_run :: "task_run \<Rightarrow> domain_model \<Rightarrow> domain_model" where
  "insert_historical_task_run t m =
     (let m = ensure_v6_state (tr_run_id t) m
      in m\<lparr>dm_task_runs := hm_put (tr_run_id t) t (dm_task_runs m)\<rparr>)"

definition remove_task_run_record :: "run_id \<Rightarrow> domain_model \<Rightarrow> domain_model" where
  "remove_task_run_record r m =
     m\<lparr>dm_task_run_v6_state := hm_del r (dm_task_run_v6_state m),
       dm_run_rate_totals := hm_del r (dm_run_rate_totals m),
       dm_run_rate_cursors := hm_del r (dm_run_rate_cursors m),
       dm_task_runs := hm_del r (dm_task_runs m)\<rparr>"

definition effective_lifecycle_end_ms :: "domain_model \<Rightarrow> task_run \<Rightarrow> i64 option" where
  "effective_lifecycle_end_ms m run =
     opt_or (tr_finished_at_ms run)
       (case get_v6_state m (tr_run_id run) of
          None \<Rightarrow> None
        | Some state \<Rightarrow> map_option ne_at_ms (v6_native_session_end state))"

section \<open>Rate totals and cursors\<close>

definition get_run_rate_totals :: "domain_model \<Rightarrow> run_id \<Rightarrow> run_rate_totals option" where
  "get_run_rate_totals m r = hm_get (dm_run_rate_totals m) r"

definition set_run_rate_totals :: "run_id \<Rightarrow> run_rate_totals \<Rightarrow> domain_model \<Rightarrow> domain_model" where
  "set_run_rate_totals r totals m =
     (let (totals, saturated) = rate_clamped totals;
          m = (if saturated then with_diagnostics record_rate_total_saturation m else m)
      in m\<lparr>dm_run_rate_totals := hm_put r totals (dm_run_rate_totals m)\<rparr>)"

definition accumulate_run_rate_totals ::
  "run_id \<Rightarrow> run_rate_totals \<Rightarrow> domain_model \<Rightarrow> domain_model \<times> bool" where
  "accumulate_run_rate_totals r delta m =
     (let entry = opt_unwrap_or rate_totals_default (hm_get (dm_run_rate_totals m) r);
          (totals, saturated) = rate_saturating_add entry delta;
          m = m\<lparr>dm_run_rate_totals := hm_put r totals (dm_run_rate_totals m)\<rparr>
      in (if saturated then with_diagnostics record_rate_total_saturation m else m, saturated))"

definition get_run_rate_cursor :: "domain_model \<Rightarrow> run_id \<Rightarrow> run_rate_cursor option" where
  "get_run_rate_cursor m r = hm_get (dm_run_rate_cursors m) r"

definition set_run_rate_cursor :: "run_id \<Rightarrow> run_rate_cursor \<Rightarrow> domain_model \<Rightarrow> domain_model" where
  "set_run_rate_cursor r c m = m\<lparr>dm_run_rate_cursors := hm_put r c (dm_run_rate_cursors m)\<rparr>"

definition remove_run_rate_cursor :: "run_id \<Rightarrow> domain_model \<Rightarrow> domain_model" where
  "remove_run_rate_cursor r m = m\<lparr>dm_run_rate_cursors := hm_del r (dm_run_rate_cursors m)\<rparr>"

definition clear_run_rate_cursors :: "domain_model \<Rightarrow> domain_model" where
  "clear_run_rate_cursors m = m\<lparr>dm_run_rate_cursors := []\<rparr>"

section \<open>Telemetry and run kinds\<close>

definition get_telemetry :: "domain_model \<Rightarrow> run_id \<Rightarrow> run_telemetry option" where
  "get_telemetry m r = hm_get (dm_telemetry m) r"

text \<open>
  \<open>telemetry_entry\<close> returns a mutable reference after lowering the start time; the caller's
  mutation through it is the function \<open>f\<close>.
\<close>

definition telemetry_entry ::
  "run_id \<Rightarrow> i64 \<Rightarrow> (run_telemetry \<Rightarrow> run_telemetry) \<Rightarrow> domain_model \<Rightarrow> domain_model" where
  "telemetry_entry r at_ms f m =
     (let telemetry = (case hm_get (dm_telemetry m) r of
                         Some t \<Rightarrow> t
                       | None \<Rightarrow> \<lparr>tl_output_tokens = 0, tl_token_breakdown = token_breakdown_default,
                                  tl_started_wall_ms = at_ms, tl_model = None, tl_effort = None,
                                  tl_sandbox = None, tl_per_turn = []\<rparr>);
          telemetry = telemetry\<lparr>tl_started_wall_ms := min (tl_started_wall_ms telemetry) at_ms\<rparr>
      in m\<lparr>dm_telemetry := hm_put r (f telemetry) (dm_telemetry m)\<rparr>)"

fun push_turns :: "turn_attr list \<Rightarrow> turn_attr list \<Rightarrow> turn_attr list" where
  "push_turns per_turn [] = per_turn"
| "push_turns per_turn (attribution # rest) =
     push_turns (if last_of per_turn \<noteq> Some attribution then per_turn @ [attribution] else per_turn)
       rest"

definition telemetry_fold :: "run_telemetry \<Rightarrow> run_telemetry \<Rightarrow> run_telemetry" where
  "telemetry_fold canonical absorbed =
     (let canonical_context_window = tk_context_window (tl_token_breakdown canonical);
          absorbed_context_window = tk_context_window (tl_token_breakdown absorbed);
          breakdown = token_accumulate (tl_token_breakdown canonical) (tl_token_breakdown absorbed);
          breakdown = breakdown\<lparr>tk_context_window :=
            opt_or canonical_context_window absorbed_context_window\<rparr>
      in \<lparr>tl_output_tokens =
            u64_saturating_add (tl_output_tokens canonical) (tl_output_tokens absorbed),
          tl_token_breakdown = breakdown,
          tl_started_wall_ms = min (tl_started_wall_ms canonical) (tl_started_wall_ms absorbed),
          tl_model = (if tl_model canonical = None then tl_model absorbed else tl_model canonical),
          tl_effort = (if tl_effort canonical = None then tl_effort absorbed else tl_effort canonical),
          tl_sandbox =
            (if tl_sandbox canonical = None then tl_sandbox absorbed else tl_sandbox canonical),
          tl_per_turn = push_turns (tl_per_turn canonical) (tl_per_turn absorbed)\<rparr>)"

definition fold_telemetry :: "run_id \<Rightarrow> run_id \<Rightarrow> domain_model \<Rightarrow> domain_model" where
  "fold_telemetry survivor absorbed m =
     (case hm_get (dm_telemetry m) absorbed of
        None \<Rightarrow> m
      | Some absorbed_telemetry \<Rightarrow>
          let rest = hm_del absorbed (dm_telemetry m)
          in case hm_get rest survivor of
               None \<Rightarrow> m\<lparr>dm_telemetry := hm_put survivor absorbed_telemetry rest\<rparr>
             | Some canonical \<Rightarrow>
                 m\<lparr>dm_telemetry :=
                     hm_put survivor (telemetry_fold canonical absorbed_telemetry) rest\<rparr>)"

definition get_run_kind :: "domain_model \<Rightarrow> run_id \<Rightarrow> string option" where
  "get_run_kind m r = hm_get (dm_run_kinds m) r"

definition set_run_kind :: "run_id \<Rightarrow> string \<Rightarrow> domain_model \<Rightarrow> domain_model" where
  "set_run_kind r kind m =
     (if kind \<noteq> [] \<and> hm_get (dm_run_kinds m) r = None
      then m\<lparr>dm_run_kinds := hm_put r kind (dm_run_kinds m)\<rparr> else m)"

definition fold_run_kind :: "run_id \<Rightarrow> run_id \<Rightarrow> domain_model \<Rightarrow> domain_model" where
  "fold_run_kind survivor absorbed m =
     (case hm_get (dm_run_kinds m) absorbed of
        None \<Rightarrow> m
      | Some absorbed_kind \<Rightarrow>
          let rest = hm_del absorbed (dm_run_kinds m)
          in m\<lparr>dm_run_kinds :=
                 (case hm_get rest survivor of
                    None \<Rightarrow> hm_put survivor absorbed_kind rest | Some _ \<Rightarrow> rest)\<rparr>)"

section \<open>Folding one run into another\<close>

definition v6_fold :: "task_run_v6_state \<Rightarrow> task_run_v6_state \<Rightarrow> task_run_v6_state" where
  "v6_fold survivor absorbed =
     (let survivor = survivor\<lparr>v6_history_ready :=
            (v6_history_ready survivor \<or> v6_history_ready absorbed)\<rparr>;
          survivor = survivor\<lparr>v6_latest_provider_at_ms :=
            (case (v6_latest_provider_at_ms survivor, v6_latest_provider_at_ms absorbed) of
               (Some left, Some right) \<Rightarrow> Some (max left right)
             | (Some left, None) \<Rightarrow> Some left
             | (None, right) \<Rightarrow> right)\<rparr>
      in if v6_lifecycle_watermark survivor < v6_lifecycle_watermark absorbed
         then survivor\<lparr>v6_lifecycle_watermark := v6_lifecycle_watermark absorbed,
                       v6_native_session_end := v6_native_session_end absorbed\<rparr>
         else survivor)"

definition fold_task_run_v6_state :: "run_id \<Rightarrow> run_id \<Rightarrow> domain_model \<Rightarrow> domain_model" where
  "fold_task_run_v6_state survivor absorbed m =
     (let absorbed_state = opt_unwrap_or v6_default (hm_get (dm_task_run_v6_state m) absorbed);
          rest = hm_del absorbed (dm_task_run_v6_state m);
          survivor_state = opt_unwrap_or v6_default (hm_get rest survivor)
      in m\<lparr>dm_task_run_v6_state := hm_put survivor (v6_fold survivor_state absorbed_state) rest,
           dm_history_run_publications :=
             hm_map_values (\<lambda>p. if hp_canonical_run_id p = absorbed
                               then p\<lparr>hp_canonical_run_id := survivor\<rparr> else p)
               (dm_history_run_publications m)\<rparr>)"

definition fold_run_rate_totals :: "run_id \<Rightarrow> run_id \<Rightarrow> domain_model \<Rightarrow> domain_model" where
  "fold_run_rate_totals survivor absorbed m =
     (case hm_get (dm_run_rate_totals m) absorbed of
        None \<Rightarrow> m
      | Some absorbed_totals \<Rightarrow>
          fst (accumulate_run_rate_totals survivor absorbed_totals
                 (m\<lparr>dm_run_rate_totals := hm_del absorbed (dm_run_rate_totals m)\<rparr>)))"

section \<open>Executions, agent nodes and edges\<close>

definition insert_execution :: "execution \<Rightarrow> domain_model \<Rightarrow> domain_model" where
  "insert_execution e m = m\<lparr>dm_executions := hm_put (ex_execution_id e) e (dm_executions m)\<rparr>"

definition get_execution :: "domain_model \<Rightarrow> string \<Rightarrow> execution option" where
  "get_execution m i = hm_get (dm_executions m) i"

abbreviation executions :: "domain_model \<Rightarrow> execution list" where
  "executions m \<equiv> hm_values (dm_executions m)"

definition insert_agent_node :: "agent_node \<Rightarrow> domain_model \<Rightarrow> domain_model" where
  "insert_agent_node n m = m\<lparr>dm_agent_nodes := hm_put (an_agent_node_id n) n (dm_agent_nodes m)\<rparr>"

definition get_agent_node :: "domain_model \<Rightarrow> string \<Rightarrow> agent_node option" where
  "get_agent_node m i = hm_get (dm_agent_nodes m) i"

abbreviation agent_nodes :: "domain_model \<Rightarrow> agent_node list" where
  "agent_nodes m \<equiv> hm_values (dm_agent_nodes m)"

text \<open>\<open>HashSet::insert\<close> also returns whether the edge was new.\<close>

definition insert_execution_edge :: "execution_edge \<Rightarrow> domain_model \<Rightarrow> domain_model \<times> bool" where
  "insert_execution_edge e m =
     (m\<lparr>dm_execution_edges := hs_insert e (dm_execution_edges m)\<rparr>, e \<notin> set (dm_execution_edges m))"

definition insert_dependency_edge :: "dependency_edge \<Rightarrow> domain_model \<Rightarrow> domain_model \<times> bool" where
  "insert_dependency_edge e m =
     (m\<lparr>dm_dependency_edges := hs_insert e (dm_dependency_edges m)\<rparr>,
      e \<notin> set (dm_dependency_edges m))"

section \<open>Table contracts\<close>

text \<open>
  The tables of the model share one contract: a row is stored under its own key, replaces the
  row of that key and leaves every other lookup alone. The locale states it once, for any
  table, and each table of the model interprets it.
\<close>

locale row_table =
  fixes row_insert :: "'row \<Rightarrow> 'm \<Rightarrow> 'm"
    and row_get :: "'m \<Rightarrow> 'k \<Rightarrow> 'row option"
    and row_key :: "'row \<Rightarrow> 'k"
  assumes get_insert: "row_get (row_insert r m) k = (if k = row_key r then Some r else row_get m k)"
begin

definition keyed :: "'m \<Rightarrow> bool" where
  "keyed m \<longleftrightarrow> (\<forall>k r. row_get m k = Some r \<longrightarrow> row_key r = k)"

lemma keyed_insert: "keyed m \<Longrightarrow> keyed (row_insert r m)"
  by (simp add: keyed_def get_insert)

lemma insert_lookup: "row_get (row_insert r m) (row_key r) = Some r"
  by (simp add: get_insert)

lemma insert_other: "k \<noteq> row_key r \<Longrightarrow> row_get (row_insert r m) k = row_get m k"
  by (simp add: get_insert)

lemma insert_all:
  "row_get (fold row_insert rs m) k =
     (case first_of (rev (filter (\<lambda>r. row_key r = k) rs)) of Some r \<Rightarrow> Some r | None \<Rightarrow> row_get m k)"
proof (induction rs arbitrary: m)
  case Nil
  then show ?case by simp
next
  case (Cons r rs)
  then show ?case
    by (cases "rev (filter (\<lambda>r. row_key r = k) rs)") (auto simp: get_insert)
qed

lemma keyed_insert_all: "keyed m \<Longrightarrow> keyed (fold row_insert rs m)"
  by (induction rs arbitrary: m) (auto simp: keyed_insert)

end

interpretation workspace_table: row_table insert_workspace get_workspace ws_workspace_id
  by unfold_locales (simp add: insert_workspace_def get_workspace_def)

interpretation tab_table: row_table insert_tab get_tab tb_tab_id
  by unfold_locales (simp add: insert_tab_def get_tab_def)

interpretation pane_table: row_table insert_pane get_pane pn_pane_id
  by unfold_locales (simp add: insert_pane_def get_pane_def)

interpretation execution_table: row_table insert_execution get_execution ex_execution_id
  by unfold_locales (simp add: insert_execution_def get_execution_def)

interpretation agent_table: row_table insert_agent_node get_agent_node an_agent_node_id
  by unfold_locales (simp add: insert_agent_node_def get_agent_node_def)

lemma get_v6_state_ensure [simp]:
  "get_v6_state (ensure_v6_state r m) r' =
     (if r' = r then Some (opt_unwrap_or v6_default (get_v6_state m r)) else get_v6_state m r')"
  by (auto simp: ensure_v6_state_def get_v6_state_def set_v6_state_def split: option.splits)

lemma get_task_run_ensure_v6 [simp]: "get_task_run (ensure_v6_state r m) r' = get_task_run m r'"
  by (auto simp: ensure_v6_state_def get_task_run_def set_v6_state_def split: option.splits)

lemma dm_task_runs_ensure_v6 [simp]: "dm_task_runs (ensure_v6_state r m) = dm_task_runs m"
  by (auto simp: ensure_v6_state_def set_v6_state_def split: option.splits)

interpretation run_table: row_table insert_task_run get_task_run tr_run_id
  by unfold_locales (simp add: insert_task_run_def get_task_run_def Let_def)

interpretation historical_run_table: row_table insert_historical_task_run get_task_run tr_run_id
  by unfold_locales (simp add: insert_historical_task_run_def get_task_run_def Let_def)

end
