(* ===== verification/Graph.thy ===== *)
theory Graph
  imports Domain_Model
begin

text \<open>
  Task-run graph analysis of \<open>src/model/graph.rs\<close>: which runs are known by relationship events
  only, and how many dangling components they form. The explicit stack is a list with its top
  first. The code's traversal is proved to count exactly the connected components of
  relationship-only runs that touch no live run outside.
\<close>

section \<open>Relationship-only runs\<close>

definition relationship_only_with_bindings :: "task_run \<Rightarrow> run_id list \<Rightarrow> bool" where
  "relationship_only_with_bindings task_run execution_bound_runs \<longleftrightarrow>
     \<not> tr_has_controller_task_state_event task_run
     \<and> tr_run_id task_run \<notin> set execution_bound_runs"

text \<open>The \<open>debug_assert_eq!\<close> of the same function: a debug build panics where this is false.\<close>

definition relationship_assertion :: "task_run \<Rightarrow> run_id list \<Rightarrow> bool" where
  "relationship_assertion task_run execution_bound_runs \<longleftrightarrow>
     (relationship_only_with_bindings task_run execution_bound_runs \<longrightarrow> tr_state task_run = Queued)"

definition execution_bound_runs :: "domain_model \<Rightarrow> run_id list" where
  "execution_bound_runs m = remdups (map ex_task_run_id (executions m))"

definition is_relationship_only :: "domain_model \<Rightarrow> run_id \<Rightarrow> bool" where
  "is_relationship_only m r =
     (case get_task_run m r of
        None \<Rightarrow> False
      | Some t \<Rightarrow> relationship_only_with_bindings t (execution_bound_runs m))"

section \<open>Adjacency\<close>

definition adjacency_push ::
  "run_id \<Rightarrow> run_id \<Rightarrow> (run_id, run_id list) hmap \<Rightarrow> (run_id, run_id list) hmap" where
  "adjacency_push a b adj = hm_put a (opt_unwrap_or [] (hm_get adj a) @ [b]) adj"

definition adjacency_add ::
  "run_id \<times> run_id \<Rightarrow> (run_id, run_id list) hmap \<Rightarrow> (run_id, run_id list) hmap" where
  "adjacency_add e adj = adjacency_push (snd e) (fst e) (adjacency_push (fst e) (snd e) adj)"

definition relationship_pairs :: "domain_model \<Rightarrow> (run_id \<times> run_id) list" where
  "relationship_pairs m =
     map (\<lambda>e. (ee_parent_run_id e, ee_child_run_id e)) (dm_execution_edges m)
     @ map (\<lambda>e. (de_prerequisite_run_id e, de_dependent_run_id e)) (dm_dependency_edges m)"

definition adjacency :: "domain_model \<Rightarrow> (run_id, run_id list) hmap" where
  "adjacency m = fold adjacency_add (relationship_pairs m) []"

definition neighbors :: "(run_id, run_id list) hmap \<Rightarrow> run_id \<Rightarrow> run_id list" where
  "neighbors adj r = opt_unwrap_or [] (hm_get adj r)"

definition relationship_only_runs :: "domain_model \<Rightarrow> run_id list" where
  "relationship_only_runs m =
     remdups (map tr_run_id
       (filter (\<lambda>t. relationship_only_with_bindings t (execution_bound_runs m)) (task_runs m)))"

section \<open>Traversal\<close>

definition is_live_run :: "domain_model \<Rightarrow> run_id \<Rightarrow> bool" where
  "is_live_run m r = opt_is_some_and (\<lambda>t. \<not> task_is_terminal (tr_state t)) (get_task_run m r)"

definition visit_neighbor ::
  "domain_model \<Rightarrow> run_id list \<Rightarrow> run_id \<Rightarrow> run_id list \<times> run_id list \<times> bool
     \<Rightarrow> run_id list \<times> run_id list \<times> bool" where
  "visit_neighbor m rel n st =
     (case st of (visited, stack, outside) \<Rightarrow>
        if n \<in> set rel
        then if n \<in> set visited then (visited, stack, outside)
             else (hs_insert n visited, n # stack, outside)
        else if is_live_run m n then (visited, stack, True)
        else (visited, stack, outside))"

lemma visit_neighbors_measure:
  assumes "fold (visit_neighbor m rel) ns (visited, stack, outside) = (visited', stack', outside')"
  shows "2 * card (set rel - set visited') + length stack'
    \<le> 2 * card (set rel - set visited) + length stack"
  using assms
proof (induction ns arbitrary: visited stack outside)
  case Nil
  then show ?case by simp
next
  case (Cons n ns)
  obtain v s f where step: "visit_neighbor m rel n (visited, stack, outside) = (v, s, f)"
    by (cases "visit_neighbor m rel n (visited, stack, outside)") auto
  have "2 * card (set rel - set v) + length s \<le> 2 * card (set rel - set visited) + length stack"
  proof (cases "n \<in> set rel \<and> n \<notin> set visited")
    case True
    then have "card (set rel - insert n (set visited)) < card (set rel - set visited)"
      by (intro psubset_card_mono) auto
    with True step show ?thesis by (auto simp: visit_neighbor_def)
  next
    case False
    with step show ?thesis by (auto simp: visit_neighbor_def split: if_splits)
  qed
  with Cons step show ?case by (fastforce intro: order_trans)
qed

function component_walk ::
  "domain_model \<Rightarrow> (run_id, run_id list) hmap \<Rightarrow> run_id list \<Rightarrow> run_id list \<Rightarrow> run_id list \<Rightarrow> bool
     \<Rightarrow> run_id list \<times> bool" where
  "component_walk m adj rel visited [] outside = (visited, outside)"
| "component_walk m adj rel visited (run # stack) outside =
     (case fold (visit_neighbor m rel) (neighbors adj run) (visited, stack, outside) of
        (visited', stack', outside') \<Rightarrow> component_walk m adj rel visited' stack' outside')"
  by pat_completeness auto
termination
  by (relation "measure (\<lambda>(m, adj, rel, visited, stack, outside).
        2 * card (set rel - set visited) + length stack)")
    (auto simp: less_Suc_eq_le visit_neighbors_measure split: prod.split)

fun count_dangling ::
  "domain_model \<Rightarrow> (run_id, run_id list) hmap \<Rightarrow> run_id list \<Rightarrow> run_id list \<Rightarrow> run_id list \<Rightarrow> u64 \<Rightarrow> u64"
where
  "count_dangling m adj rel [] visited dangling = dangling"
| "count_dangling m adj rel (start # starts) visited dangling =
     (if start \<in> set visited then count_dangling m adj rel starts visited dangling
      else case component_walk m adj rel (hs_insert start visited) [start] False of
             (visited', outside) \<Rightarrow>
               count_dangling m adj rel starts visited'
                 (if outside then dangling else u64_saturating_add dangling 1))"

definition dangling_announcement_components :: "domain_model \<Rightarrow> u64" where
  "dangling_announcement_components m =
     count_dangling m (adjacency m) (relationship_only_runs m) (relationship_only_runs m) [] 0"

section \<open>Correctness of the traversal\<close>

text \<open>Neighbourhood is the symmetric closure of the recorded edges.\<close>

lemma neighbors_push [simp]:
  "neighbors (adjacency_push a b adj) r = (if r = a then neighbors adj a @ [b] else neighbors adj r)"
  by (auto simp: neighbors_def adjacency_push_def)

lemma neighbors_fold:
  "set (neighbors (fold adjacency_add es adj) r)
     = set (neighbors adj r) \<union> {n. (r, n) \<in> set es \<or> (n, r) \<in> set es}"
proof (induction es arbitrary: adj)
  case Nil
  then show ?case by simp
next
  case (Cons e es)
  then show ?case by (cases e) (auto simp: adjacency_add_def)
qed

lemma neighbors_adjacency:
  "n \<in> set (neighbors (adjacency m) r) \<longleftrightarrow>
     (r, n) \<in> set (relationship_pairs m) \<or> (n, r) \<in> set (relationship_pairs m)"
  by (simp add: adjacency_def neighbors_fold) (simp add: neighbors_def)

definition linked :: "(run_id, run_id list) hmap \<Rightarrow> run_id list \<Rightarrow> (run_id \<times> run_id) set" where
  "linked adj rel = {(a, b). a \<in> set rel \<and> b \<in> set rel \<and> b \<in> set (neighbors adj a)}"

definition touches_live ::
  "domain_model \<Rightarrow> (run_id, run_id list) hmap \<Rightarrow> run_id list \<Rightarrow> run_id \<Rightarrow> bool" where
  "touches_live m adj rel r \<longleftrightarrow> (\<exists>n \<in> set (neighbors adj r). n \<notin> set rel \<and> is_live_run m n)"

text \<open>One scan of a neighbour list.\<close>

lemma visit_neighbors:
  assumes "fold (visit_neighbor m rel) ns (visited, stack, outside) = (visited', stack', outside')"
    and "distinct stack" and "set stack \<subseteq> set visited"
  shows "set visited' = set visited \<union> (set ns \<inter> set rel)
    \<and> set stack' = set stack \<union> (set ns \<inter> set rel - set visited)
    \<and> distinct stack'
    \<and> (outside' \<longleftrightarrow> outside \<or> (\<exists>n \<in> set ns. n \<notin> set rel \<and> is_live_run m n))"
  using assms
proof (induction ns arbitrary: visited stack outside)
  case Nil
  then show ?case by simp
next
  case (Cons n ns)
  obtain v s f where step: "visit_neighbor m rel n (visited, stack, outside) = (v, s, f)"
    by (cases "visit_neighbor m rel n (visited, stack, outside)") auto
  have v: "set v = set visited \<union> ({n} \<inter> set rel)"
    and s: "set s = set stack \<union> ({n} \<inter> set rel - set visited)"
    and f: "f \<longleftrightarrow> outside \<or> (n \<notin> set rel \<and> is_live_run m n)"
    using step by (auto simp: visit_neighbor_def split: if_splits)
  have d: "distinct s"
    using step Cons.prems(2,3) by (auto simp: visit_neighbor_def split: if_splits)
  have sub: "set s \<subseteq> set v" using Cons.prems(3) v s by blast
  have eq: "fold (visit_neighbor m rel) ns (v, s, f) = (visited', stack', outside')"
    using Cons.prems(1) step by simp
  from Cons.IH [OF eq d sub] v s f show ?case by auto
qed

text \<open>
  The walk from one start explores its connected component: \<open>D\<close> is what it has reached,
  \<open>V0\<close> what earlier walks visited.
\<close>

definition walk_inv ::
  "domain_model \<Rightarrow> (run_id, run_id list) hmap \<Rightarrow> run_id list \<Rightarrow> run_id set \<Rightarrow> run_id \<Rightarrow>
   run_id list \<Rightarrow> run_id list \<Rightarrow> bool \<Rightarrow> bool" where
  "walk_inv m adj rel V0 s visited stack outside \<longleftrightarrow>
     (\<exists>D. set visited = V0 \<union> D \<and> V0 \<inter> D = {} \<and> s \<in> D \<and> D \<subseteq> (linked adj rel)\<^sup>* `` {s}
        \<and> D \<subseteq> set rel \<and> distinct stack \<and> set stack \<subseteq> D
        \<and> (linked adj rel) `` (D - set stack) \<subseteq> D
        \<and> (outside \<longleftrightarrow> (\<exists>r \<in> D - set stack. touches_live m adj rel r)))"

lemma walk_inv_step:
  assumes inv: "walk_inv m adj rel V0 s visited (run # stack) outside"
    and closed: "(linked adj rel)\<inverse> `` V0 \<subseteq> V0"
    and eq: "fold (visit_neighbor m rel) (neighbors adj run) (visited, stack, outside)
               = (visited', stack', outside')"
  shows "walk_inv m adj rel V0 s visited' stack' outside'"
proof -
  let ?R = "linked adj rel"
  from inv obtain D where D: "set visited = V0 \<union> D" "V0 \<inter> D = {}" "s \<in> D" "D \<subseteq> ?R\<^sup>* `` {s}"
      "D \<subseteq> set rel" "distinct (run # stack)" "set (run # stack) \<subseteq> D"
      "?R `` (D - set (run # stack)) \<subseteq> D"
      "outside \<longleftrightarrow> (\<exists>r \<in> D - set (run # stack). touches_live m adj rel r)"
    unfolding walk_inv_def by blast
  let ?N = "set (neighbors adj run) \<inter> set rel"
  let ?D' = "D \<union> ?N"
  have run: "run \<in> D" "run \<in> set rel" using D by auto
  have N: "?N = ?R `` {run}" using run by (auto simp: linked_def)
  have fresh: "?N \<inter> V0 = {}"
  proof -
    have "run \<notin> V0" using D run by blast
    with closed N show ?thesis by blast
  qed
  have "distinct stack" "set stack \<subseteq> set visited" using D by auto
  note scan = visit_neighbors [OF eq this]
  have reach: "?D' \<subseteq> ?R\<^sup>* `` {s}"
    using D(4) run N by (auto intro: rtrancl_into_rtrancl)
  have stack: "set stack' = set stack \<union> (?N - D)" using scan D(1) fresh by blast
  have rest: "?D' - set stack' = insert run (D - set (run # stack))"
    using stack D(6) run D(7) by auto
  have "?R `` (?D' - set stack') \<subseteq> ?D'"
    unfolding rest using D(8) N by blast
  moreover have "outside' \<longleftrightarrow> (\<exists>r \<in> ?D' - set stack'. touches_live m adj rel r)"
    unfolding rest using scan D(9) by (auto simp: touches_live_def)
  moreover have "set visited' = V0 \<union> ?D'" "V0 \<inter> ?D' = {}" "?D' \<subseteq> set rel" "set stack' \<subseteq> ?D'"
    "distinct stack'"
    using scan D(1,2,5,7) fresh stack by auto
  ultimately show ?thesis unfolding walk_inv_def using D(3) reach by blast
qed

lemma component_walk_inv:
  assumes "walk_inv m adj rel V0 s visited stack outside"
    and "(linked adj rel)\<inverse> `` V0 \<subseteq> V0"
    and "component_walk m adj rel visited stack outside = (visited', outside')"
  shows "walk_inv m adj rel V0 s visited' [] outside'"
  using assms
proof (induction m adj rel visited stack outside rule: component_walk.induct)
  case (1 m adj rel visited outside)
  then show ?case by simp
next
  case (2 m adj rel visited run stack outside)
  obtain v st f where eq: "fold (visit_neighbor m rel) (neighbors adj run) (visited, stack, outside)
      = (v, st, f)"
    by (cases "fold (visit_neighbor m rel) (neighbors adj run) (visited, stack, outside)") auto
  from 2 eq show ?case by (auto intro: walk_inv_step)
qed

lemma linked_closed:
  assumes "s \<in> D" and "(linked adj rel) `` D \<subseteq> D"
  shows "(linked adj rel)\<^sup>* `` {s} \<subseteq> D"
proof
  fix x assume "x \<in> (linked adj rel)\<^sup>* `` {s}"
  then have "(s, x) \<in> (linked adj rel)\<^sup>*" by simp
  then show "x \<in> D" by (induction) (use assms in auto)
qed

text \<open>What one walk returns: its component joined to the visited set, and the liveness flag.\<close>

lemma component_walk_spec:
  assumes "s \<in> set rel" and "s \<notin> set visited" and "(linked adj rel)\<inverse> `` set visited \<subseteq> set visited"
    and "component_walk m adj rel (hs_insert s visited) [s] False = (visited', outside')"
  shows "set visited' = set visited \<union> (linked adj rel)\<^sup>* `` {s}"
    and "outside' \<longleftrightarrow> (\<exists>r \<in> (linked adj rel)\<^sup>* `` {s}. touches_live m adj rel r)"
proof -
  have "walk_inv m adj rel (set visited) s (hs_insert s visited) [s] False"
    unfolding walk_inv_def using assms(1,2) by (intro exI [of _ "{s}"]) auto
  from component_walk_inv [OF this assms(3,4)]
  obtain D where D: "set visited' = set visited \<union> D" "s \<in> D" "D \<subseteq> (linked adj rel)\<^sup>* `` {s}"
      "(linked adj rel) `` D \<subseteq> D" "outside' \<longleftrightarrow> (\<exists>r \<in> D. touches_live m adj rel r)"
    unfolding walk_inv_def by auto
  have "D = (linked adj rel)\<^sup>* `` {s}" using D(3) linked_closed [OF D(2,4)] by blast
  with D show "set visited' = set visited \<union> (linked adj rel)\<^sup>* `` {s}"
    and "outside' \<longleftrightarrow> (\<exists>r \<in> (linked adj rel)\<^sup>* `` {s}. touches_live m adj rel r)"
    by auto
qed

section \<open>The count is the number of dangling components\<close>

lemma linked_sym:
  "sym (linked (adjacency m) rel)"
  by (auto simp: sym_def linked_def neighbors_adjacency)

definition component_of :: "domain_model \<Rightarrow> run_id \<Rightarrow> run_id set" where
  "component_of m r = (linked (adjacency m) (relationship_only_runs m))\<^sup>* `` {r}"

definition dangling_components :: "domain_model \<Rightarrow> run_id set set" where
  "dangling_components m =
     {C \<in> component_of m ` set (relationship_only_runs m).
        \<forall>r \<in> C. \<not> touches_live m (adjacency m) (relationship_only_runs m) r}"

lemma component_of_eq: "s \<in> component_of m r \<Longrightarrow> component_of m s = component_of m r"
proof -
  let ?R = "linked (adjacency m) (relationship_only_runs m)"
  assume "s \<in> component_of m r"
  then have "(r, s) \<in> ?R\<^sup>*" by (simp add: component_of_def)
  moreover have "(s, r) \<in> ?R\<^sup>*"
    using calculation linked_sym sym_rtrancl by (metis symD)
  ultimately show ?thesis unfolding component_of_def by (auto intro: rtrancl_trans)
qed

lemma component_of_self: "r \<in> component_of m r"
  by (simp add: component_of_def)

text \<open>
  Loop invariant of the outer scan: the visited set is a union of whole components, and the
  counter is the number of dangling ones among them, saturated at the width of the counter.
\<close>

lemma count_dangling_spec:
  fixes m :: domain_model
  defines "rel \<equiv> relationship_only_runs m"
  assumes "set starts \<subseteq> set rel"
    and "set visited = \<Union> (component_of m ` S)" and "S \<subseteq> set rel"
    and "dangling = min u64_max (card (dangling_components m \<inter> component_of m ` S))"
  shows "count_dangling m (adjacency m) rel starts visited dangling
    = min u64_max (card (dangling_components m \<inter> component_of m ` (S \<union> set starts)))"
  using assms(2-)
proof (induction starts arbitrary: visited dangling S)
  case Nil
  then show ?case by simp
next
  case (Cons s starts)
  show ?case
  proof (cases "s \<in> set visited")
    case True
    with Cons.prems(2) obtain r where "r \<in> S" "s \<in> component_of m r" by auto
    then have "component_of m ` (S \<union> set (s # starts)) = component_of m ` (S \<union> set starts)"
      using component_of_eq by fastforce
    with True Cons show ?thesis by simp
  next
    case False
    let ?adj = "adjacency m"
    obtain v out where walk: "component_walk m ?adj rel (hs_insert s visited) [s] False = (v, out)"
      by (cases "component_walk m ?adj rel (hs_insert s visited) [s] False") auto
    have closed: "(linked ?adj rel)\<inverse> `` set visited \<subseteq> set visited"
    proof
      fix x assume "x \<in> (linked ?adj rel)\<inverse> `` set visited"
      then obtain y where "y \<in> set visited" "(x, y) \<in> linked ?adj rel" by auto
      moreover then have "(y, x) \<in> linked ?adj rel" using linked_sym by (metis symD)
      ultimately show "x \<in> set visited"
        using Cons.prems(2) by (auto simp: component_of_def rel_def intro: rtrancl_into_rtrancl)
    qed
    have s: "s \<in> set rel" using Cons.prems(1) by simp
    note spec = component_walk_spec [OF s False closed walk]
    have v: "set v = \<Union> (component_of m ` insert s S)"
      using spec(1) Cons.prems(2) by (auto simp: component_of_def rel_def)
    have new: "component_of m s \<notin> component_of m ` S"
      using False Cons.prems(2) component_of_self by fastforce
    have out: "out \<longleftrightarrow> component_of m s \<notin> dangling_components m"
      using spec(2) s by (auto simp: dangling_components_def component_of_def rel_def)
    have fin: "finite (dangling_components m \<inter> component_of m ` S)"
      using Cons.prems(3) by (auto intro: finite_subset)
    let ?d = "if out then dangling else u64_saturating_add dangling 1"
    have "?d = min u64_max (card (dangling_components m \<inter> component_of m ` insert s S))"
    proof (cases out)
      case True
      with out have "dangling_components m \<inter> component_of m ` insert s S
          = dangling_components m \<inter> component_of m ` S" by auto
      with True Cons.prems(4) show ?thesis by simp
    next
      case False
      with out have "dangling_components m \<inter> component_of m ` insert s S
          = insert (component_of m s) (dangling_components m \<inter> component_of m ` S)" by auto
      with False new fin Cons.prems(4) show ?thesis by (simp add: u64_saturating_add_def)
    qed
    with Cons.IH [of v "insert s S" ?d] v s Cons.prems(1,3) walk False
    show ?thesis by (simp split: if_splits)
  qed
qed

lemma dangling_count_eq:
  "dangling_announcement_components m = min u64_max (card (dangling_components m))"
proof -
  have "dangling_announcement_components m
      = min u64_max (card (dangling_components m \<inter>
          component_of m ` ({} \<union> set (relationship_only_runs m))))"
    unfolding dangling_announcement_components_def
    by (rule count_dangling_spec) auto
  moreover have "dangling_components m \<inter> component_of m ` set (relationship_only_runs m)
      = dangling_components m"
    by (auto simp: dangling_components_def)
  ultimately show ?thesis by simp
qed

end
