(* ===== verification/Publication.thy ===== *)
theory Publication
  imports Graph
begin

text \<open>
  Publication of the model (\<open>src/model/entities.rs\<close>): the snapshot that hides runs whose
  history is not ready and shows their last published image instead, the capture and
  restoration of such images, and the change detector over run-keyed tables. The laws proved
  here: a capture restores to the same projection, and the detector reports exactly the runs
  whose projection differs.
\<close>

section \<open>Removing and restoring one run\<close>

definition remove_task_run_projection :: "run_id \<Rightarrow> domain_model \<Rightarrow> domain_model" where
  "remove_task_run_projection r m =
     m\<lparr>dm_task_runs := hm_del r (dm_task_runs m),
       dm_run_ids_by_key := hm_retain (\<lambda>_ owner. owner \<noteq> r) (dm_run_ids_by_key m),
       dm_task_run_v6_state := hm_del r (dm_task_run_v6_state m),
       dm_run_rate_totals := hm_del r (dm_run_rate_totals m),
       dm_run_rate_cursors := hm_del r (dm_run_rate_cursors m),
       dm_telemetry := hm_del r (dm_telemetry m),
       dm_run_kinds := hm_del r (dm_run_kinds m),
       dm_executions := hm_retain (\<lambda>_ e. ex_task_run_id e \<noteq> r) (dm_executions m),
       dm_agent_nodes := hm_retain (\<lambda>_ n. an_task_run_id n \<noteq> r) (dm_agent_nodes m),
       dm_execution_edges := filter (\<lambda>e. ee_parent_run_id e \<noteq> r \<and> ee_child_run_id e \<noteq> r)
         (dm_execution_edges m),
       dm_dependency_edges :=
         filter (\<lambda>e. de_prerequisite_run_id e \<noteq> r \<and> de_dependent_run_id e \<noteq> r)
           (dm_dependency_edges m)\<rparr>"

definition restore_history_publication ::
  "history_run_publication \<Rightarrow> domain_model \<Rightarrow> domain_model" where
  "restore_history_publication p m =
     (let r = tr_run_id (hp_task_run p);
          m = insert_task_run (hp_task_run p) m;
          m = set_v6_state r (hp_state p) m;
          m = fold (\<lambda>alias. insert_task_run_alias alias r) (hp_aliases p) m;
          m = (case hp_rate_totals p of None \<Rightarrow> m | Some t \<Rightarrow> set_run_rate_totals r t m);
          m = (case hp_rate_cursor p of None \<Rightarrow> m | Some c \<Rightarrow> set_run_rate_cursor r c m);
          m = (case hp_telemetry p of None \<Rightarrow> m
               | Some t \<Rightarrow> m\<lparr>dm_telemetry := hm_put r t (dm_telemetry m)\<rparr>);
          m = (case hp_run_kind p of None \<Rightarrow> m
               | Some k \<Rightarrow> m\<lparr>dm_run_kinds := hm_put r k (dm_run_kinds m)\<rparr>);
          m = fold insert_execution (hp_executions p) m;
          m = fold insert_agent_node (hp_agent_nodes p) m
      in m\<lparr>dm_execution_edges := hs_extend (dm_execution_edges m) (hp_execution_edges p),
           dm_dependency_edges := hs_extend (dm_dependency_edges m) (hp_dependency_edges p)\<rparr>)"

section \<open>Snapshot\<close>

definition history_blocked :: "domain_model \<Rightarrow> run_id list" where
  "history_blocked m =
     filter_map (\<lambda>(r, state). if \<not> v6_history_ready state then Some r else None)
       (dm_task_run_v6_state m)"

definition publication_snapshot :: "domain_model \<Rightarrow> domain_model" where
  "publication_snapshot self =
     (let blocked = history_blocked self in
      if blocked = []
      then self\<lparr>dm_history_run_publications := [], dm_deferred_history_activity := []\<rparr>
      else
        let snapshot = fold remove_task_run_projection blocked self;
            publications = filter (\<lambda>p. hp_canonical_run_id p \<in> set blocked)
              (hm_values (dm_history_run_publications snapshot));
            snapshot = fold restore_history_publication publications snapshot;
            dangling = dangling_announcement_components snapshot;
            snapshot = with_diagnostics (set_dangling_announcement_components dangling) snapshot
        in snapshot\<lparr>dm_history_run_publications := [], dm_deferred_history_activity := []\<rparr>)"

section \<open>Capture\<close>

definition provider_debug :: "provider \<Rightarrow> string" where
  "provider_debug p = (case p of Claude \<Rightarrow> ''Claude'' | Codex \<Rightarrow> ''Codex'')"

fun stable_run_key_identity :: "run_key \<Rightarrow> string" where
  "stable_run_key_identity (Controller value) =
     ''controller:'' @ nat_text (length value) @ '':'' @ value"
| "stable_run_key_identity (Native provider sid) =
     ''native:'' @ provider_debug provider @ '':'' @ nat_text (length sid) @ '':'' @ sid"
| "stable_run_key_identity (NativePath provider path) =
     ''native-path:'' @ provider_debug provider @ '':'' @ nat_text (length path) @ '':'' @ path"
| "stable_run_key_identity (Provisional terminal_id start_ms seq) =
     ''provisional:'' @ nat_text (length terminal_id) @ '':'' @ terminal_id @ '':''
       @ int_text start_ms @ '':'' @ nat_text seq"

definition capture_history_publication ::
  "domain_model \<Rightarrow> run_id \<Rightarrow> history_run_publication option" where
  "capture_history_publication m r =
     (case get_task_run m r of
        None \<Rightarrow> None
      | Some task_run \<Rightarrow> Some
          \<lparr>hp_canonical_run_id = r,
           hp_task_run = task_run,
           hp_state = opt_unwrap_or v6_default (get_v6_state m r),
           hp_aliases = sort_key stable_run_key_identity
             (filter_map (\<lambda>(key, owner). if owner = r then Some key else None)
                (dm_run_ids_by_key m)),
           hp_rate_totals = get_run_rate_totals m r,
           hp_executions =
             sort_key ex_execution_id (filter (\<lambda>e. ex_task_run_id e = r) (executions m)),
           hp_agent_nodes =
             sort_key an_agent_node_id (filter (\<lambda>n. an_task_run_id n = r) (agent_nodes m)),
           hp_execution_edges = sort_key (\<lambda>e. (ee_parent_run_id e, ee_child_run_id e))
             (filter (\<lambda>e. ee_parent_run_id e = r \<or> ee_child_run_id e = r) (dm_execution_edges m)),
           hp_dependency_edges = sort_key (\<lambda>e. (de_prerequisite_run_id e, de_dependent_run_id e))
             (filter (\<lambda>e. de_prerequisite_run_id e = r \<or> de_dependent_run_id e = r)
                (dm_dependency_edges m)),
           hp_telemetry = get_telemetry m r,
           hp_run_kind = get_run_kind m r,
           hp_rate_cursor = get_run_rate_cursor m r\<rparr>)"

definition install_history_publication ::
  "history_run_publication \<Rightarrow> domain_model \<Rightarrow> domain_model \<times> bool" where
  "install_history_publication p m =
     (let r = tr_run_id (hp_task_run p) in
      case hm_get (dm_history_run_publications m) r of
        None \<Rightarrow> (m\<lparr>dm_history_run_publications := hm_put r p (dm_history_run_publications m)\<rparr>, True)
      | Some _ \<Rightarrow> (m, False))"

definition release_history_publications :: "run_id \<Rightarrow> domain_model \<Rightarrow> domain_model \<times> bool" where
  "release_history_publications canonical m =
     (let kept = hm_retain (\<lambda>_ p. hp_canonical_run_id p \<noteq> canonical) (dm_history_run_publications m)
      in (m\<lparr>dm_history_run_publications := kept\<rparr>,
          length kept \<noteq> length (dm_history_run_publications m)))"

definition take_deferred_history_activity ::
  "domain_model \<Rightarrow> domain_model \<times> (history_drain_id, activity_item list) hmap" where
  "take_deferred_history_activity m =
     (m\<lparr>dm_deferred_history_activity := []\<rparr>, dm_deferred_history_activity m)"

section \<open>Change detection\<close>

definition collect_changed_map_keys ::
  "(run_id, 'v) hmap \<Rightarrow> (run_id, 'v) hmap \<Rightarrow> run_id list \<Rightarrow> run_id list" where
  "collect_changed_map_keys current before changed =
     (let changed = fold (\<lambda>(r, v) changed.
            if hm_get before r \<noteq> Some v then hs_insert r changed else changed) current changed
      in fold (\<lambda>r changed. if hm_get current r = None then hs_insert r changed else changed)
           (hm_keys before) changed)"

definition collect_changed_owned_rows ::
  "('v \<Rightarrow> run_id) \<Rightarrow> (string, 'v) hmap \<Rightarrow> (string, 'v) hmap \<Rightarrow> run_id list \<Rightarrow> run_id list" where
  "collect_changed_owned_rows owner current before changed =
     (let changed = fold (\<lambda>(i, v) changed.
            if hm_get before i \<noteq> Some v
            then (let changed = hs_insert (owner v) changed in
                  case hm_get before i of None \<Rightarrow> changed
                  | Some previous \<Rightarrow> hs_insert (owner previous) changed)
            else changed) current changed
      in fold (\<lambda>(i, v) changed.
           if hm_get current i = None then hs_insert (owner v) changed else changed) before changed)"

definition collect_changed_edges ::
  "('e \<Rightarrow> run_id \<times> run_id) \<Rightarrow> 'e list \<Rightarrow> 'e list \<Rightarrow> run_id list \<Rightarrow> run_id list" where
  "collect_changed_edges ends current before changed =
     fold (\<lambda>e changed. hs_insert (snd (ends e)) (hs_insert (fst (ends e)) changed))
       (filter (\<lambda>e. e \<notin> set before) current @ filter (\<lambda>e. e \<notin> set current) before) changed"

definition collect_changed_owners ::
  "(run_key, run_id) hmap \<Rightarrow> (run_key, run_id) hmap \<Rightarrow> run_id list \<Rightarrow> run_id list" where
  "collect_changed_owners current before changed =
     (let changed = fold (\<lambda>(key, owner) changed.
            if hm_get before key \<noteq> Some owner
            then (let changed = hs_insert owner changed in
                  case hm_get before key of None \<Rightarrow> changed
                  | Some previous \<Rightarrow> hs_insert previous changed)
            else changed) current changed
      in fold (\<lambda>(key, owner) changed.
           if hm_get current key \<noteq> Some owner then hs_insert owner changed else changed)
           before changed)"

definition execution_edge_ends :: "execution_edge \<Rightarrow> run_id \<times> run_id" where
  "execution_edge_ends e = (ee_parent_run_id e, ee_child_run_id e)"

definition dependency_edge_ends :: "dependency_edge \<Rightarrow> run_id \<times> run_id" where
  "dependency_edge_ends e = (de_prerequisite_run_id e, de_dependent_run_id e)"

definition changed_task_run_ids_since :: "domain_model \<Rightarrow> domain_model \<Rightarrow> run_id list" where
  "changed_task_run_ids_since m before =
     (let changed = [];
          changed = collect_changed_map_keys (dm_task_runs m) (dm_task_runs before) changed;
          changed = collect_changed_map_keys (dm_task_run_v6_state m) (dm_task_run_v6_state before) changed;
          changed = collect_changed_map_keys (dm_run_rate_totals m) (dm_run_rate_totals before) changed;
          changed = collect_changed_map_keys (dm_run_rate_cursors m) (dm_run_rate_cursors before) changed;
          changed = collect_changed_map_keys (dm_telemetry m) (dm_telemetry before) changed;
          changed = collect_changed_map_keys (dm_run_kinds m) (dm_run_kinds before) changed;
          changed = collect_changed_owned_rows ex_task_run_id (dm_executions m) (dm_executions before) changed;
          changed = collect_changed_owned_rows an_task_run_id (dm_agent_nodes m) (dm_agent_nodes before) changed;
          changed = collect_changed_edges execution_edge_ends (dm_execution_edges m) (dm_execution_edges before) changed;
          changed = collect_changed_edges dependency_edge_ends (dm_dependency_edges m) (dm_dependency_edges before) changed
      in collect_changed_owners (dm_run_ids_by_key m) (dm_run_ids_by_key before) changed)"

section \<open>The projection of one run\<close>

text \<open>Everything the model keeps under one run: six run-keyed tables, owned rows, edges, keys.\<close>

definition owned_row :: "('v \<Rightarrow> run_id) \<Rightarrow> (string, 'v) hmap \<Rightarrow> run_id \<Rightarrow> string \<Rightarrow> 'v option" where
  "owned_row owner t r i = opt_filter (\<lambda>v. owner v = r) (hm_get t i)"

definition incident :: "('e \<Rightarrow> run_id \<times> run_id) \<Rightarrow> 'e list \<Rightarrow> run_id \<Rightarrow> 'e set" where
  "incident ends es r = {e \<in> set es. fst (ends e) = r \<or> snd (ends e) = r}"

definition run_projection where
  "run_projection m r =
     ((hm_get (dm_task_runs m) r, hm_get (dm_task_run_v6_state m) r,
       hm_get (dm_run_rate_totals m) r, hm_get (dm_run_rate_cursors m) r,
       hm_get (dm_telemetry m) r, hm_get (dm_run_kinds m) r),
      (owned_row ex_task_run_id (dm_executions m) r, owned_row an_task_run_id (dm_agent_nodes m) r),
      (incident execution_edge_ends (dm_execution_edges m) r,
       incident dependency_edge_ends (dm_dependency_edges m) r),
      {k. hm_get (dm_run_ids_by_key m) k = Some r})"

definition tables_ok :: "domain_model \<Rightarrow> bool" where
  "tables_ok m \<longleftrightarrow> hm_ok (dm_task_runs m) \<and> hm_ok (dm_task_run_v6_state m)
     \<and> hm_ok (dm_run_rate_totals m) \<and> hm_ok (dm_run_rate_cursors m) \<and> hm_ok (dm_telemetry m)
     \<and> hm_ok (dm_run_kinds m) \<and> hm_ok (dm_executions m) \<and> hm_ok (dm_agent_nodes m)
     \<and> hm_ok (dm_run_ids_by_key m)"

text \<open>Membership in what one scan of a table collects.\<close>

lemma fold_pairs_mem:
  "r \<in> set (fold (\<lambda>(i, v) c. if P i v then hs_insert (f i v) c else c) xs c) \<longleftrightarrow>
     r \<in> set c \<or> (\<exists>i v. (i, v) \<in> set xs \<and> P i v \<and> f i v = r)"
proof (induction xs arbitrary: c)
  case Nil
  show ?case by simp
next
  case (Cons x xs)
  obtain a b where x: "x = (a, b)" by (cases x)
  have "r \<in> set (if P a b then hs_insert (f a b) c else c) \<longleftrightarrow> r \<in> set c \<or> (P a b \<and> f a b = r)"
    by auto
  then show ?case by (simp only: fold_Cons o_apply Cons.IH x prod.case list.set insert_iff) blast
qed

lemma fold_pairs_mem2:
  "r \<in> set (fold (\<lambda>(i, v) c. if P i v
        then (let c = hs_insert (f i v) c in case g i of None \<Rightarrow> c | Some w \<Rightarrow> hs_insert (h w) c)
        else c) xs c) \<longleftrightarrow>
     r \<in> set c \<or> (\<exists>i v. (i, v) \<in> set xs \<and> P i v \<and> (f i v = r \<or> (\<exists>w. g i = Some w \<and> h w = r)))"
proof (induction xs arbitrary: c)
  case Nil
  show ?case by simp
next
  case (Cons x xs)
  obtain a b where x: "x = (a, b)" by (cases x)
  have "r \<in> set (if P a b then (let c = hs_insert (f a b) c in
          case g a of None \<Rightarrow> c | Some w \<Rightarrow> hs_insert (h w) c) else c) \<longleftrightarrow>
      r \<in> set c \<or> (P a b \<and> (f a b = r \<or> (\<exists>w. g a = Some w \<and> h w = r)))"
    by (cases "g a") (auto simp: Let_def)
  then show ?case by (simp only: fold_Cons o_apply Cons.IH x prod.case list.set insert_iff) blast
qed

lemma fold_keys_mem:
  "r \<in> set (fold (\<lambda>x c. if P x then hs_insert x c else c) xs c) \<longleftrightarrow> r \<in> set c \<or> (r \<in> set xs \<and> P r)"
  by (induction xs arbitrary: c) auto

lemma collect_map_keys_set:
  assumes "hm_ok cur"
  shows "set (collect_changed_map_keys cur bef c) = set c \<union> {r. hm_get cur r \<noteq> hm_get bef r}"
proof -
  have keys: "r \<in> set (hm_keys bef) \<longleftrightarrow> hm_get bef r \<noteq> None" for r
    by (simp add: map_of_eq_None_iff)
  have mem: "r \<in> set (collect_changed_map_keys cur bef c) \<longleftrightarrow> r \<in> set c
      \<or> (\<exists>v. hm_get cur r = Some v \<and> hm_get bef r \<noteq> Some v)
      \<or> (hm_get bef r \<noteq> None \<and> hm_get cur r = None)" for r
    unfolding collect_changed_map_keys_def Let_def fold_keys_mem fold_pairs_mem keys
      hm_get_eq_iff [OF assms, symmetric] by blast
  have diff: "a \<noteq> b \<longleftrightarrow> (\<exists>v. a = Some v \<and> b \<noteq> Some v) \<or> (b \<noteq> None \<and> a = None)"
    for a b :: "'a option"
    by (cases a; cases b) auto
  show ?thesis
    by (rule set_eqI) (simp only: mem diff [of "hm_get cur _"] Un_iff mem_Collect_eq)
qed

lemma collect_owned_rows_set:
  assumes "hm_ok cur" and "hm_ok bef"
  shows "set (collect_changed_owned_rows owner cur bef c)
    = set c \<union> {r. owned_row owner cur r \<noteq> owned_row owner bef r}"
proof -
  have mem: "r \<in> set (collect_changed_owned_rows owner cur bef c) \<longleftrightarrow> r \<in> set c
      \<or> (\<exists>i v. hm_get cur i = Some v \<and> hm_get bef i \<noteq> Some v
           \<and> (owner v = r \<or> (\<exists>w. hm_get bef i = Some w \<and> owner w = r)))
      \<or> (\<exists>i w. hm_get bef i = Some w \<and> hm_get cur i = None \<and> owner w = r)" for r
    unfolding collect_changed_owned_rows_def Let_def [of "fold _ cur c"] fold_pairs_mem
      fold_pairs_mem2 hm_get_eq_iff [OF assms(1), symmetric] hm_get_eq_iff [OF assms(2), symmetric]
    by blast
  have diff: "opt_filter (\<lambda>v. owner v = r) a \<noteq> opt_filter (\<lambda>v. owner v = r) b \<longleftrightarrow>
      (\<exists>v. a = Some v \<and> b \<noteq> Some v \<and> (owner v = r \<or> (\<exists>w. b = Some w \<and> owner w = r)))
      \<or> (\<exists>w. b = Some w \<and> a = None \<and> owner w = r)" for a b r
    by (cases a; cases b) auto
  have ne: "(owned_row owner cur r \<noteq> owned_row owner bef r) \<longleftrightarrow>
      (\<exists>i v. hm_get cur i = Some v \<and> hm_get bef i \<noteq> Some v
           \<and> (owner v = r \<or> (\<exists>w. hm_get bef i = Some w \<and> owner w = r)))
      \<or> (\<exists>i w. hm_get bef i = Some w \<and> hm_get cur i = None \<and> owner w = r)" for r
    unfolding owned_row_def fun_eq_iff by (simp only: not_all diff) blast
  show ?thesis by (rule set_eqI) (simp only: mem ne Un_iff mem_Collect_eq)
qed

lemma collect_edges_set:
  "set (collect_changed_edges ends cur bef c) = set c \<union> {r. incident ends cur r \<noteq> incident ends bef r}"
proof -
  have fold: "set (fold (\<lambda>e changed. hs_insert (snd (ends e)) (hs_insert (fst (ends e)) changed)) es c)
      = set c \<union> {r. \<exists>e \<in> set es. fst (ends e) = r \<or> snd (ends e) = r}" for es
    by (induction es arbitrary: c) auto
  show ?thesis unfolding collect_changed_edges_def incident_def fold by auto
qed

lemma collect_owners_set:
  assumes "hm_ok cur" and "hm_ok bef"
  shows "set (collect_changed_owners cur bef c)
    = set c \<union> {r. {k. hm_get cur k = Some r} \<noteq> {k. hm_get bef k = Some r}}"
proof -
  have mem: "r \<in> set (collect_changed_owners cur bef c) \<longleftrightarrow> r \<in> set c
      \<or> (\<exists>k v. hm_get cur k = Some v \<and> hm_get bef k \<noteq> Some v
           \<and> (v = r \<or> (\<exists>w. hm_get bef k = Some w \<and> w = r)))
      \<or> (\<exists>k v. hm_get bef k = Some v \<and> hm_get cur k \<noteq> Some v \<and> v = r)" for r
    unfolding collect_changed_owners_def Let_def [of "fold _ cur c"] fold_pairs_mem
      fold_pairs_mem2 [where h = "\<lambda>w. w"] hm_get_eq_iff [OF assms(1), symmetric]
      hm_get_eq_iff [OF assms(2), symmetric]
    by blast
  have diff: "({k. f k = Some r} \<noteq> {k. g k = Some r}) \<longleftrightarrow>
      (\<exists>k v. f k = Some v \<and> g k \<noteq> Some v \<and> (v = r \<or> (\<exists>w. g k = Some w \<and> w = r)))
      \<or> (\<exists>k v. g k = Some v \<and> f k \<noteq> Some v \<and> v = r)" for f g :: "run_key \<Rightarrow> run_id option" and r
    by (auto simp: set_eq_iff) (metis option.inject)
  show ?thesis by (rule set_eqI) (simp only: mem diff Un_iff mem_Collect_eq)
qed

text \<open>The detector is exact.\<close>

lemma changed_ids_iff:
  assumes "tables_ok m" and "tables_ok before"
  shows "r \<in> set (changed_task_run_ids_since m before) \<longleftrightarrow>
    run_projection m r \<noteq> run_projection before r"
proof -
  note ok = assms [unfolded tables_ok_def]
  show ?thesis
    unfolding changed_task_run_ids_since_def Let_def run_projection_def
    using ok
    by (simp only: collect_map_keys_set collect_owned_rows_set collect_edges_set collect_owners_set
        Un_iff mem_Collect_eq prod.inject de_Morgan_conj list.set) blast
qed

section \<open>Capturing and restoring\<close>

text \<open>What the insertions of a restored publication do to each table.\<close>

lemma fold_insert_alias:
  "fold (\<lambda>alias. insert_task_run_alias alias r) ks m
     = m\<lparr>dm_run_ids_by_key := fold (\<lambda>k. hm_put k r) ks (dm_run_ids_by_key m)\<rparr>"
  by (induction ks arbitrary: m) (simp_all add: insert_task_run_alias_def)

lemma fold_insert_execution:
  "fold insert_execution es m
     = m\<lparr>dm_executions := fold (\<lambda>e. hm_put (ex_execution_id e) e) es (dm_executions m)\<rparr>"
  by (induction es arbitrary: m) (simp_all add: insert_execution_def)

lemma fold_insert_agent_node:
  "fold insert_agent_node ns m
     = m\<lparr>dm_agent_nodes := fold (\<lambda>n. hm_put (an_agent_node_id n) n) ns (dm_agent_nodes m)\<rparr>"
  by (induction ns arbitrary: m) (simp_all add: insert_agent_node_def)

lemma hm_get_fold_put_const:
  "hm_get (fold (\<lambda>k. hm_put k v) ks t) k = (if k \<in> set ks then Some v else hm_get t k)"
  by (induction ks arbitrary: t) auto

lemma hm_get_fold_put_rows:
  assumes "\<forall>v \<in> set vs. hm_get src (f v) = Some v"
  shows "hm_get (fold (\<lambda>v. hm_put (f v) v) vs t) k
    = (if k \<in> f ` set vs then hm_get src k else hm_get t k)"
  using assms by (induction vs arbitrary: t) auto

text \<open>Rows stand under their own identifiers; the run is bound, ready-made and in the ledger's domain.\<close>

definition runs_keyed :: "domain_model \<Rightarrow> bool" where
  "runs_keyed m \<longleftrightarrow> (\<forall>r t. get_task_run m r = Some t \<longrightarrow> tr_run_id t = r)"

lemma runs_keyed_iff: "run_table.keyed m = runs_keyed m"
  by (simp add: run_table.keyed_def runs_keyed_def)

definition rows_keyed :: "domain_model \<Rightarrow> bool" where
  "rows_keyed m \<longleftrightarrow> runs_keyed m
     \<and> (\<forall>i e. get_execution m i = Some e \<longrightarrow> ex_execution_id e = i)
     \<and> (\<forall>i n. get_agent_node m i = Some n \<longrightarrow> an_agent_node_id n = i)"

definition run_bound :: "domain_model \<Rightarrow> run_id \<Rightarrow> bool" where
  "run_bound m r \<longleftrightarrow>
     (case get_task_run m r of None \<Rightarrow> False
      | Some t \<Rightarrow> hm_get (dm_run_ids_by_key m) (tr_key t) = Some r)
     \<and> get_v6_state m r \<noteq> None
     \<and> opt_is_none_or rate_in_domain (get_run_rate_totals m r)"

lemma rate_clamped_id: "rate_in_domain t \<Longrightarrow> rate_clamped t = (t, False)"
  by (simp add: rate_in_domain_def rate_clamped_def Let_def)

lemma owned_row_retain:
  assumes "hm_ok t"
  shows "owned_row owner (hm_retain (\<lambda>_ v. owner v \<noteq> r) t) r' i
    = (if r' = r then None else owned_row owner t r' i)"
  by (auto simp: owned_row_def hm_get_retain [OF assms] split: option.splits)

lemma owned_row_refill:
  assumes ok: "hm_ok t" and key: "\<And>i v. hm_get t i = Some v \<Longrightarrow> f v = i"
  shows "owned_row owner (fold (\<lambda>v. hm_put (f v) v)
      (sort_key g (filter (\<lambda>v. owner v = r) (hm_values t)))
      (hm_retain (\<lambda>_ v. owner v \<noteq> r) t)) = owned_row owner t"
proof (intro ext)
  fix r' i
  let ?vs = "sort_key g (filter (\<lambda>v. owner v = r) (hm_values t))"
  have src: "\<forall>v \<in> set ?vs. hm_get t (f v) = Some v"
    using key by (auto simp: hm_get_eq_iff [OF ok, symmetric] simp del: map_of_eq_Some_iff)
  have mem: "i \<in> f ` set ?vs \<longleftrightarrow> (\<exists>v. hm_get t i = Some v \<and> owner v = r)"
    using key hm_values_iff [OF ok] by (auto simp: image_iff)
  show "owned_row owner (fold (\<lambda>v. hm_put (f v) v) ?vs (hm_retain (\<lambda>_ v. owner v \<noteq> r) t)) r' i
      = owned_row owner t r' i"
    unfolding owned_row_def hm_get_fold_put_rows [OF src] mem hm_get_retain [OF ok]
    by (auto split: option.splits)
qed

lemma incident_refill:
  "set (hs_extend (filter (\<lambda>e. \<not> P e) es) (sort_key g (filter P es))) = set es"
  by auto

lemma owned_keys_mem:
  "k \<in> set (filter_map (\<lambda>(key, owner). if owner = r then Some key else None) t) \<longleftrightarrow> (k, r) \<in> set t"
  unfolding filter_map_set by (auto split: if_splits intro!: bexI [of _ "(k, r)"])

lemma capture_keys:
  assumes "hm_ok t"
  shows "k \<in> set (sort_key g (filter_map (\<lambda>(key, owner). if owner = r then Some key else None) t))
    \<longleftrightarrow> hm_get t k = Some r"
  unfolding hm_get_eq_iff [OF assms] set_sort owned_keys_mem ..

text \<open>Each optional step of the restoration is one field update.\<close>

lemma restore_totals_step:
  "opt_is_none_or rate_in_domain totals \<Longrightarrow>
   (case totals of None \<Rightarrow> m | Some t \<Rightarrow> set_run_rate_totals r t m) =
     m\<lparr>dm_run_rate_totals := (case totals of None \<Rightarrow> dm_run_rate_totals m
        | Some t \<Rightarrow> hm_put r t (dm_run_rate_totals m))\<rparr>"
  by (cases totals) (simp_all add: set_run_rate_totals_def rate_clamped_id)

lemma restore_option_steps:
  "(case c of None \<Rightarrow> m | Some c \<Rightarrow> set_run_rate_cursor r c m) =
     m\<lparr>dm_run_rate_cursors := (case c of None \<Rightarrow> dm_run_rate_cursors m
        | Some c \<Rightarrow> hm_put r c (dm_run_rate_cursors m))\<rparr>"
  "(case t of None \<Rightarrow> m | Some t \<Rightarrow> m\<lparr>dm_telemetry := hm_put r t (dm_telemetry m)\<rparr>) =
     m\<lparr>dm_telemetry := (case t of None \<Rightarrow> dm_telemetry m | Some t \<Rightarrow> hm_put r t (dm_telemetry m))\<rparr>"
  "(case k of None \<Rightarrow> m | Some k \<Rightarrow> m\<lparr>dm_run_kinds := hm_put r k (dm_run_kinds m)\<rparr>) =
     m\<lparr>dm_run_kinds := (case k of None \<Rightarrow> dm_run_kinds m | Some k \<Rightarrow> hm_put r k (dm_run_kinds m))\<rparr>"
  by (auto simp: set_run_rate_cursor_def split: option.split)

lemma insert_fresh_task_run:
  "get_task_run m (tr_run_id t) = None \<Longrightarrow> insert_task_run t m =
     ensure_v6_state (tr_run_id t) m\<lparr>dm_task_runs := hm_put (tr_run_id t) t (dm_task_runs m),
       dm_run_ids_by_key := hm_put (tr_key t) (tr_run_id t) (dm_run_ids_by_key m)\<rparr>"
  by (simp add: insert_task_run_def get_task_run_def ensure_v6_state_def get_v6_state_def
      set_v6_state_def Let_def split: option.split)

lemma set_v6_after_insert:
  assumes "get_task_run m (tr_run_id t) = None" and "get_v6_state m (tr_run_id t) = None"
  shows "set_v6_state (tr_run_id t) s (insert_task_run t m) =
    m\<lparr>dm_task_runs := hm_put (tr_run_id t) t (dm_task_runs m),
      dm_task_run_v6_state := hm_put (tr_run_id t) s (hm_put (tr_run_id t) v6_default
        (dm_task_run_v6_state m)),
      dm_run_ids_by_key := hm_put (tr_key t) (tr_run_id t) (dm_run_ids_by_key m)\<rparr>"
  using assms by (simp add: insert_fresh_task_run)
    (simp add: set_v6_state_def ensure_v6_state_def get_v6_state_def)

lemma restore_fields:
  assumes "get_task_run m (tr_run_id (hp_task_run p)) = None"
    and "get_v6_state m (tr_run_id (hp_task_run p)) = None"
    and "opt_is_none_or rate_in_domain (hp_rate_totals p)"
  shows "restore_history_publication p m =
    (let r = tr_run_id (hp_task_run p) in
     m\<lparr>dm_task_runs := hm_put r (hp_task_run p) (dm_task_runs m),
       dm_run_ids_by_key := fold (\<lambda>k. hm_put k r) (hp_aliases p)
         (hm_put (tr_key (hp_task_run p)) r (dm_run_ids_by_key m)),
       dm_task_run_v6_state := hm_put r (hp_state p) (hm_put r v6_default (dm_task_run_v6_state m)),
       dm_run_rate_totals := (case hp_rate_totals p of None \<Rightarrow> dm_run_rate_totals m
         | Some t \<Rightarrow> hm_put r t (dm_run_rate_totals m)),
       dm_run_rate_cursors := (case hp_rate_cursor p of None \<Rightarrow> dm_run_rate_cursors m
         | Some c \<Rightarrow> hm_put r c (dm_run_rate_cursors m)),
       dm_telemetry := (case hp_telemetry p of None \<Rightarrow> dm_telemetry m
         | Some t \<Rightarrow> hm_put r t (dm_telemetry m)),
       dm_run_kinds := (case hp_run_kind p of None \<Rightarrow> dm_run_kinds m
         | Some k \<Rightarrow> hm_put r k (dm_run_kinds m)),
       dm_executions := fold (\<lambda>e. hm_put (ex_execution_id e) e) (hp_executions p) (dm_executions m),
       dm_agent_nodes := fold (\<lambda>n. hm_put (an_agent_node_id n) n) (hp_agent_nodes p) (dm_agent_nodes m),
       dm_execution_edges := hs_extend (dm_execution_edges m) (hp_execution_edges p),
       dm_dependency_edges := hs_extend (dm_dependency_edges m) (hp_dependency_edges p)\<rparr>)"
  unfolding restore_history_publication_def Let_def set_v6_after_insert [OF assms(1,2)]
    fold_insert_alias restore_totals_step [OF assms(3)] restore_option_steps
    fold_insert_execution fold_insert_agent_node
  by (simp cong: option.case_cong)

text \<open>Restoring binds the key of the run and gives it a state, whether it had them or not.\<close>

definition rebound :: "history_run_publication \<Rightarrow> domain_model \<Rightarrow> domain_model" where
  "rebound p m = m\<lparr>dm_run_ids_by_key :=
       hm_put (tr_key (hp_task_run p)) (hp_canonical_run_id p) (dm_run_ids_by_key m),
     dm_task_run_v6_state := hm_put (hp_canonical_run_id p) (hp_state p) (dm_task_run_v6_state m)\<rparr>"

lemma restore_capture:
  assumes ok: "tables_ok m" and rows: "rows_keyed m"
    and dom: "opt_is_none_or rate_in_domain (get_run_rate_totals m r)"
    and cap: "capture_history_publication m r = Some p"
  shows "run_projection (restore_history_publication p (remove_task_run_projection r m)) r'
    = run_projection (rebound p m) r'"
proof -
  note ok = ok [unfolded tables_ok_def] and rows = rows [unfolded rows_keyed_def runs_keyed_def]
  obtain t where t: "get_task_run m r = Some t"
    using cap by (auto simp: capture_history_publication_def split: option.splits)
  have own: "tr_run_id t = r" using rows t by blast
  have p: "hp_task_run p = t" "hp_canonical_run_id p = r"
    "hp_aliases p = sort_key stable_run_key_identity
       (filter_map (\<lambda>(key, owner). if owner = r then Some key else None) (dm_run_ids_by_key m))"
    "hp_rate_totals p = get_run_rate_totals m r" "hp_rate_cursor p = get_run_rate_cursor m r"
    "hp_telemetry p = get_telemetry m r" "hp_run_kind p = get_run_kind m r"
    "hp_executions p = sort_key ex_execution_id (filter (\<lambda>e. ex_task_run_id e = r) (executions m))"
    "hp_agent_nodes p = sort_key an_agent_node_id (filter (\<lambda>n. an_task_run_id n = r) (agent_nodes m))"
    "set (hp_execution_edges p) = {e \<in> set (dm_execution_edges m). ee_parent_run_id e = r \<or> ee_child_run_id e = r}"
    "set (hp_dependency_edges p) =
       {e \<in> set (dm_dependency_edges m). de_prerequisite_run_id e = r \<or> de_dependent_run_id e = r}"
    using arg_cong [OF cap, of the] t by (auto simp: capture_history_publication_def)
  have keys: "{k. hm_get (fold (\<lambda>k. hm_put k r) (hp_aliases p) (hm_put (tr_key t) r
      (hm_retain (\<lambda>_ owner. owner \<noteq> r) (dm_run_ids_by_key m)))) k = Some r'}
      = {k. hm_get (hm_put (tr_key t) r (dm_run_ids_by_key m)) k = Some r'}"
    using ok unfolding p(3) hm_get_fold_put_const
    by (auto simp only: capture_keys hm_get_put hm_get_retain split: option.splits if_splits)
  have ex: "owned_row ex_task_run_id (fold (\<lambda>e. hm_put (ex_execution_id e) e) (hp_executions p)
      (hm_retain (\<lambda>_ e. ex_task_run_id e \<noteq> r) (dm_executions m))) = owned_row ex_task_run_id (dm_executions m)"
    unfolding p(8) using ok rows by (intro owned_row_refill) (auto simp: get_execution_def)
  have an: "owned_row an_task_run_id (fold (\<lambda>n. hm_put (an_agent_node_id n) n) (hp_agent_nodes p)
      (hm_retain (\<lambda>_ n. an_task_run_id n \<noteq> r) (dm_agent_nodes m))) = owned_row an_task_run_id (dm_agent_nodes m)"
    unfolding p(9) using ok rows by (intro owned_row_refill) (auto simp: get_agent_node_def)
  have gone: "get_task_run (remove_task_run_projection r m) (tr_run_id (hp_task_run p)) = None"
    "get_v6_state (remove_task_run_projection r m) (tr_run_id (hp_task_run p)) = None"
    by (simp_all add: p own remove_task_run_projection_def get_task_run_def get_v6_state_def)
  have totals: "opt_is_none_or rate_in_domain (hp_rate_totals p)" using dom by (simp add: p)
  show ?thesis
    unfolding restore_fields [OF gone totals] Let_def p(1) own
    using t keys ex an
    by (auto simp: run_projection_def rebound_def incident_def remove_task_run_projection_def p
        get_task_run_def get_v6_state_def get_run_rate_totals_def get_run_rate_cursor_def
        get_telemetry_def get_run_kind_def execution_edge_ends_def dependency_edge_ends_def
        split: option.split)
qed

lemma rebound_bound:
  assumes "run_bound m r" and cap: "capture_history_publication m r = Some p"
  shows "run_projection (rebound p m) r' = run_projection m r'"
proof -
  obtain t s where t: "get_task_run m r = Some t" "hm_get (dm_run_ids_by_key m) (tr_key t) = Some r"
    and s: "get_v6_state m r = Some s"
    using assms(1) by (auto simp: run_bound_def split: option.splits)
  have p: "hp_task_run p = t" "hp_canonical_run_id p = r" "hp_state p = s"
    using cap t s by (auto simp: capture_history_publication_def)
  have "{k. hm_get (hm_put (tr_key t) r (dm_run_ids_by_key m)) k = Some r'} = {k. hm_get (dm_run_ids_by_key m) k = Some r'}"
    using t by auto
  moreover have "hm_get (hm_put r s (dm_task_run_v6_state m)) r' = hm_get (dm_task_run_v6_state m) r'"
    using s by (simp add: get_v6_state_def)
  ultimately show ?thesis by (simp add: run_projection_def rebound_def p del: hm_get_put)
qed

end
