(* ===== verification/Persist_Ops.thy ===== *)
theory Persist_Ops
  imports Publication
begin

text \<open>
  The typed persistence operations of \<open>src/store/mod.rs\<close>: what one reducer batch asks the
  store to write in one transaction. \<open>Store_Write\<close> and the theories after it execute them.
\<close>

record native_session_binding =
  nb_provider :: provider
  nb_native_session_id :: string

record persist_task_run =
  pt_task_run :: task_run
  pt_native_session :: "native_session_binding option"
  pt_created_at_ms :: i64
  pt_updated_at_ms :: i64
  pt_finished_at_ms :: "i64 option"

record persist_task_run_v6 =
  p6_task_run :: persist_task_run
  p6_state :: task_run_v6_state

record persist_history_drain_artifact =
  pa_artifact_id :: string
  pa_generation :: string
  pa_goalpost :: u64

record persist_history_drain =
  pd_drain_id :: history_drain_id
  pd_provider :: provider
  pd_created_at_ms :: i64
  pd_artifacts :: "persist_history_drain_artifact list"

record persist_history_drain_run =
  pr_drain_id :: history_drain_id
  pr_run_id :: run_id

record persist_execution =
  pe_execution :: execution
  pe_started_at_ms :: i64
  pe_updated_at_ms :: i64
  pe_ended_at_ms :: "i64 option"

datatype gap_kind = Startup | Reconnect | SocketReplacement | PersistenceOutage

record collector_gap =
  cg_event_id :: string
  cg_herdr_session :: string
  cg_seen_at_ms :: i64
  cg_kind :: gap_kind

datatype persist_op =
    UpsertWorkspace workspace display_ordinal
  | UpsertTab tab display_ordinal
  | UpsertPane pane display_ordinal
  | DeleteWorkspace string
  | DeleteTab string
  | ClearTabLabel string
  | ClearPaneDisplayName string
  | DeletePane string
  | UpsertTaskRun persist_task_run
  | PromoteTaskRunKey persist_task_run run_key run_id
  | MergeTaskRuns run_id run_id
  | UpsertExecution persist_execution
  | UpsertAgentNode agent_node
  | UpsertExecutionEdge execution_edge i64
  | UpsertDependencyEdge dependency_edge i64
  | RecordEvent normalized_event i64
  | RecordCollectorGap collector_gap
  | AdvanceIngestSequence i64

type_synonym persist_batch = "persist_op list"

record persist_v6_batch =
  vb_operations :: persist_batch
  vb_task_runs :: "persist_task_run_v6 list"
  vb_rate_totals :: "(run_id \<times> run_rate_totals) list"
  vb_history_drains :: "persist_history_drain list"
  vb_history_associations :: "persist_history_drain_run list"
  vb_history_publications :: "history_run_publication list"
  vb_history_event_drain :: "history_drain_id option"

definition persist_v6_batch_default :: persist_v6_batch where
  "persist_v6_batch_default = \<lparr>vb_operations = [], vb_task_runs = [], vb_rate_totals = [],
     vb_history_drains = [], vb_history_associations = [], vb_history_publications = [],
     vb_history_event_drain = None\<rparr>"

record finalized_history_run =
  fr_run_id :: run_id
  fr_state :: task_run_v6_state

record history_drain_finalization =
  hf_drain_id :: history_drain_id
  hf_finalized_at_ms :: i64
  hf_completed_drains :: "history_drain_id list"
  hf_runs :: "finalized_history_run list"

record ledger_entry =
  le_event_id :: string
  le_seen_at_ms :: i64

section \<open>Outcome of a write\<close>

text \<open>\<open>src/store/writer.rs\<close> and \<open>src/diagnostics/mod.rs\<close>: what the writer reports back.\<close>

datatype persistence_operation =
  OpApply | OpCleanup | OpUpdateOwnerLocation | OpReplaceOwner | OpBarrier | OpCheckpoint

datatype persistence_phase = QueueAdmission | CommandExecution | PostApplyCommit | Acknowledgement

datatype durability_disposition = DispNotApplicable | DispNotCommitted | DispCommitted | DispUnknown

datatype persistence_failure_code =
  CodeSqlite | CodeIo | CodeInvalidData | CodeClock | CodeOwnerAbsent | CodeCheckpointBusy
| CodeChannelClosed | CodeAcknowledgementDropped

record persistence_failure =
  pf_operation :: persistence_operation
  pf_phase :: persistence_phase
  pf_code :: persistence_failure_code
  pf_durability :: durability_disposition

datatype runtime_write_outcome =
    WriteDurable
  | CommittedButDegraded persistence_failure
  | NotCommitted persistence_failure
  | WriteDurabilityUnknown persistence_failure
  | WriteSkipped

end
