(* ===== verification/Cycles.thy ===== *)
theory Cycles
  imports Persist_Ops
begin

text \<open>
  The cycle test of \<open>src/identity.rs\<close> (\<open>graph_has_cycle\<close>): Kahn's algorithm with an indegree
  map, a child map and a queue. It is proved to answer true exactly on the edge lists whose
  relation has a cycle, self-loops and repeated edges included.
\<close>

lemma hm_fst_put [hmap, simp]: "fst ` set (hm_put k v m) = insert k (fst ` set m)"
  using hm_keys_put [of k v m] by simp

section \<open>The algorithm\<close>

definition count_edge ::
  "run_id \<times> run_id \<Rightarrow> (run_id, nat) hmap \<times> (run_id, run_id list) hmap
     \<Rightarrow> (run_id, nat) hmap \<times> (run_id, run_id list) hmap" where
  "count_edge e st =
     (case (e, st) of ((parent, child), (indegrees, children)) \<Rightarrow>
        let indegrees = (case hm_get indegrees parent of None \<Rightarrow> hm_put parent 0 indegrees
              | Some _ \<Rightarrow> indegrees);
            indegrees = hm_put child (opt_unwrap_or 0 (hm_get indegrees child) + 1) indegrees
        in (indegrees, adjacency_push parent child children))"

definition count_edges ::
  "(run_id \<times> run_id) list \<Rightarrow> (run_id, nat) hmap \<times> (run_id, run_id list) hmap" where
  "count_edges edges = fold count_edge edges ([], [])"

definition relax ::
  "run_id \<Rightarrow> (run_id, nat) hmap \<times> run_id list \<Rightarrow> (run_id, nat) hmap \<times> run_id list" where
  "relax next st =
     (case st of (indegrees, queue) \<Rightarrow>
        case hm_get indegrees next of
          None \<Rightarrow> (indegrees, queue)
        | Some degree \<Rightarrow>
            if degree = 0 then (indegrees, queue)
            else (hm_put next (degree - 1) indegrees,
                  if degree - 1 = 0 then queue @ [next] else queue))"

definition degree_sum :: "(run_id, nat) hmap \<Rightarrow> nat" where
  "degree_sum indegrees = sum_list (hm_values indegrees)"

lemma degree_sum_put:
  "hm_get m k = Some (Suc d) \<Longrightarrow> Suc (degree_sum (hm_put k d m)) = degree_sum m"
  by (induction m) (auto simp: degree_sum_def simp del: map_of_eq_Some_iff)

lemma relax_measure:
  "fold relax ns (indegrees, queue) = (indegrees', queue') \<Longrightarrow>
     degree_sum indegrees' + length queue' \<le> degree_sum indegrees + length queue"
proof (induction ns arbitrary: indegrees queue)
  case Nil
  then show ?case by simp
next
  case (Cons n ns)
  obtain i q where st: "relax n (indegrees, queue) = (i, q)" by (cases "relax n (indegrees, queue)")
  have "degree_sum i + length q \<le> degree_sum indegrees + length queue"
    using st degree_sum_put [of indegrees n]
    by (cases "hm_get indegrees n"; cases "the (hm_get indegrees n)") (auto simp: relax_def split: if_splits)
  with Cons st show ?case by (fastforce intro: order_trans)
qed

function kahn ::
  "(run_id, run_id list) hmap \<Rightarrow> (run_id, nat) hmap \<Rightarrow> run_id list \<Rightarrow> nat \<Rightarrow> nat" where
  "kahn children indegrees [] visited = visited"
| "kahn children indegrees (run # queue) visited =
     (case fold relax (neighbors children run) (indegrees, queue) of
        (indegrees', queue') \<Rightarrow> kahn children indegrees' queue' (visited + 1))"
  by pat_completeness auto
termination
  by (relation "measure (\<lambda>(children, indegrees, queue, visited). degree_sum indegrees + length queue)")
    (auto simp: less_Suc_eq_le relax_measure)

definition graph_has_cycle :: "(run_id \<times> run_id) list \<Rightarrow> bool" where
  "graph_has_cycle edges =
     (case count_edges edges of (indegrees, children) \<Rightarrow>
        let queue = filter_map (\<lambda>(run, degree). if degree = 0 then Some run else None) indegrees
        in kahn children indegrees queue 0 \<noteq> length indegrees)"

section \<open>Correctness\<close>

definition edge_nodes :: "(run_id \<times> run_id) list \<Rightarrow> run_id set" where
  "edge_nodes E = fst ` set E \<union> snd ` set E"

definition indeg :: "(run_id \<times> run_id) list \<Rightarrow> run_id set \<Rightarrow> run_id \<Rightarrow> nat" where
  "indeg E X n = length (filter (\<lambda>(p, c). c = n \<and> p \<notin> X) E)"

definition children_of :: "(run_id \<times> run_id) list \<Rightarrow> run_id \<Rightarrow> run_id list" where
  "children_of E r = map snd (filter (\<lambda>(p, c). p = r) E)"

lemma count_edges_ok:
  assumes "fold count_edge E (ind, ch) = (ind', ch')" and "hm_ok ind"
  shows "hm_ok ind' \<and> fst ` set ind' = fst ` set ind \<union> edge_nodes E
    \<and> opt_unwrap_or 0 (hm_get ind' n) = opt_unwrap_or 0 (hm_get ind n) + indeg E {} n
    \<and> neighbors ch' r = neighbors ch r @ children_of E r"
  using assms
proof (induction E arbitrary: ind ch)
  case Nil
  then show ?case by (simp add: edge_nodes_def indeg_def children_of_def)
next
  case (Cons e E)
  obtain p c where e: "e = (p, c)" by (cases e)
  obtain i h where st: "count_edge e (ind, ch) = (i, h)" by (cases "count_edge e (ind, ch)")
  define j where "j = (if hm_get ind p = None then hm_put p 0 ind else ind)"
  have ieq: "i = hm_put c (opt_unwrap_or 0 (hm_get j c) + 1) j"
    using st by (auto simp: e count_edge_def Let_def j_def simp del: map_of_eq_Some_iff
        split: option.splits)
  have j: "hm_ok ind \<Longrightarrow> hm_ok j" "fst ` set j = insert p (fst ` set ind)"
    "opt_unwrap_or 0 (hm_get j k) = opt_unwrap_or 0 (hm_get ind k)" for k
    unfolding j_def by (cases "hm_get ind p"; simp add: map_of_eq_None_iff)
      (cases "hm_get ind p"; force dest: map_of_SomeD simp del: map_of_eq_Some_iff)+
  have i: "hm_ok ind \<Longrightarrow> hm_ok i" "fst ` set i = insert p (insert c (fst ` set ind))"
    "opt_unwrap_or 0 (hm_get i n) = opt_unwrap_or 0 (hm_get ind n) + (if n = c then 1 else 0)"
    by (simp_all add: ieq j insert_commute)
  have h: "neighbors h r = (if r = p then neighbors ch r @ [c] else neighbors ch r)"
    using st by (auto simp: e count_edge_def Let_def adjacency_push_def neighbors_def)
  have run: "fold count_edge E (i, h) = (ind', ch')" using Cons.prems(1) st by simp
  show ?case
    using Cons.IH [OF run i(1) [OF Cons.prems(2)]] i(2,3) h
    by (auto simp: e edge_nodes_def indeg_def children_of_def)
qed

lemma indeg_insert:
  "r \<notin> X \<Longrightarrow> indeg E X n = indeg E (insert r X) n + count_list (children_of E r) n"
  by (induction E) (auto simp: indeg_def children_of_def)

lemma indeg_zero: "indeg E X n = 0 \<longleftrightarrow> (\<forall>p. (p, n) \<in> set E \<longrightarrow> p \<in> X)"
  by (auto simp: indeg_def filter_empty_conv)

text \<open>
  The state of the algorithm between two pops: \<open>X\<close> is the set of popped runs, \<open>ns\<close> the children
  of the last popped run that are still to be relaxed.
\<close>

definition kahn_state ::
  "(run_id \<times> run_id) list \<Rightarrow> run_id set \<Rightarrow> run_id list \<Rightarrow> (run_id, nat) hmap \<Rightarrow> run_id list \<Rightarrow> bool" where
  "kahn_state E X ns ind queue \<longleftrightarrow> set (hm_keys ind) = edge_nodes E \<and> set ns \<subseteq> edge_nodes E
     \<and> (\<forall>n. opt_unwrap_or 0 (hm_get ind n) = indeg E X n + count_list ns n)
     \<and> distinct queue \<and> set queue \<inter> X = {} \<and> X \<union> set queue \<subseteq> edge_nodes E
     \<and> (\<forall>n \<in> edge_nodes E. indeg E X n + count_list ns n = 0 \<longleftrightarrow> n \<in> X \<union> set queue)"

lemma relax_state:
  assumes "kahn_state E X (n # ns) ind queue" and "relax n (ind, queue) = (ind', queue')"
  shows "kahn_state E X ns ind' queue'"
proof -
  note st = assms(1) [unfolded kahn_state_def]
  have n: "n \<in> edge_nodes E" using st by simp
  obtain d where d: "hm_get ind n = Some d"
    using st n by (metis map_of_eq_None_iff not_None_eq list.set_map)
  have deg: "d = indeg E X n + count_list (n # ns) n"
    using st d by (metis opt_simps(10))
  then obtain k where k: "d = Suc k" by simp
  have eq: "ind' = hm_put n k ind" "queue' = (if k = 0 then queue @ [n] else queue)"
    using assms(2) d k by (auto simp: relax_def simp del: map_of_eq_Some_iff)
  have nq: "n \<notin> X \<union> set queue" using st n deg k by auto
  have get: "opt_unwrap_or 0 (hm_get ind' m) = indeg E X m + count_list ns m" for m
    using st deg k by (cases "m = n") (auto simp: eq)
  show ?thesis
    unfolding kahn_state_def
  proof (intro conjI ballI allI)
    show "set (hm_keys ind') = edge_nodes E" using st n by (auto simp: eq hm_keys_put)
    show "set ns \<subseteq> edge_nodes E" using st by simp
    show "opt_unwrap_or 0 (hm_get ind' m) = indeg E X m + count_list ns m" for m by (rule get)
    show "distinct queue'" using st nq by (auto simp: eq)
    show "set queue' \<inter> X = {}" using st nq by (auto simp: eq)
    show "X \<union> set queue' \<subseteq> edge_nodes E" using st n by (auto simp: eq)
    fix m assume m: "m \<in> edge_nodes E"
    show "(indeg E X m + count_list ns m = 0) = (m \<in> X \<union> set queue')"
      using st m nq deg k by (cases "m = n") (auto simp: eq)
  qed
qed

lemma relax_all_state:
  "kahn_state E X ns ind queue \<Longrightarrow> fold relax ns (ind, queue) = (ind', queue')
     \<Longrightarrow> kahn_state E X [] ind' queue'"
proof (induction ns arbitrary: ind queue)
  case Nil
  then show ?case by simp
next
  case (Cons n ns)
  obtain i q where "relax n (ind, queue) = (i, q)" by (cases "relax n (ind, queue)")
  with Cons relax_state show ?case by force
qed

lemma relax_ok: "hm_ok (fst st) \<Longrightarrow> hm_ok (fst (relax n st))"
  by (cases st) (auto simp: relax_def split: option.split)

lemma relax_all_ok: "hm_ok (fst st) \<Longrightarrow> hm_ok (fst (fold relax ns st))"
  by (induction ns arbitrary: st) (auto simp: relax_ok)

lemma not_acc_loop: "x \<in> Wellfounded.acc r \<Longrightarrow> (x, x) \<notin> r\<^sup>+"
proof (induction rule: acc.induct)
  case (accI x)
  show ?case
  proof
    assume "(x, x) \<in> r\<^sup>+"
    then obtain y where y: "(y, x) \<in> r" "(x, y) \<in> r\<^sup>*" by (meson tranclD2)
    then have "(y, y) \<in> r\<^sup>+" by (meson rtrancl_into_trancl2)
    with accI y show False by blast
  qed
qed

text \<open>The loop pops every run whose ancestors are all popped, and no run of a cycle.\<close>

lemma kahn_works:
  assumes "kahn_state E X [] ind queue" and "hm_ok ind"
    and "\<And>r. neighbors children r = children_of E r"
    and "X \<union> set queue \<subseteq> Wellfounded.acc (set E)" and "visited = card X"
  shows "\<exists>Y. X \<subseteq> Y \<and> Y \<subseteq> Wellfounded.acc (set E) \<and> Y \<subseteq> edge_nodes E
    \<and> (\<forall>n \<in> edge_nodes E. indeg E Y n = 0 \<longrightarrow> n \<in> Y) \<and> kahn children ind queue visited = card Y"
  using assms
proof (induction "card (edge_nodes E - X)" arbitrary: X ind queue visited rule: less_induct)
  case less
  note st = less.prems(1) [unfolded kahn_state_def]
  have fin: "finite (edge_nodes E)" by (simp add: edge_nodes_def)
  show ?case
  proof (cases queue)
    case Nil
    with st less.prems show ?thesis by (intro exI [of _ X]) auto
  next
    case (Cons run rest)
    have run: "run \<in> edge_nodes E" "run \<notin> X" using st Cons by auto
    obtain ind' queue' where step: "fold relax (children_of E run) (ind, rest) = (ind', queue')"
      by (cases "fold relax (children_of E run) (ind, rest)")
    have kids: "set (children_of E run) \<subseteq> edge_nodes E"
      by (force simp: children_of_def edge_nodes_def)
    have pre: "kahn_state E (insert run X) (children_of E run) ind rest"
      using st run kids unfolding kahn_state_def Cons indeg_insert [OF run(2), symmetric] by auto
    have post: "kahn_state E (insert run X) [] ind' queue'"
      by (rule relax_all_state [OF pre step])
    have ok': "hm_ok ind'" using relax_all_ok [of "(ind, rest)" "children_of E run"] less.prems(2) step by simp
    have accs: "insert run X \<union> set queue' \<subseteq> Wellfounded.acc (set E)"
    proof -
      have "n \<in> Wellfounded.acc (set E)" if "n \<in> set queue'" for n
      proof (rule accI)
        fix p assume "(p, n) \<in> set E"
        moreover have "indeg E (insert run X) n = 0"
          using post that unfolding kahn_state_def by auto
        ultimately have "p \<in> insert run X" by (simp add: indeg_zero)
        with less.prems(4) Cons show "p \<in> Wellfounded.acc (set E)" by auto
      qed
      with less.prems(4) Cons show ?thesis by auto
    qed
    have smaller: "card (edge_nodes E - insert run X) < card (edge_nodes E - X)"
      using run fin by (intro psubset_card_mono) auto
    have "finite X" using st fin finite_subset by blast
    then have vis: "visited + 1 = card (insert run X)" using less.prems(5) run by simp
    from less.hyps [OF smaller post ok' less.prems(3) accs vis]
    show ?thesis using step less.prems(3) by (auto simp: Cons)
  qed
qed

lemma graph_has_cycle_iff: "graph_has_cycle E \<longleftrightarrow> (\<exists>r. (r, r) \<in> (set E)\<^sup>+)"
proof -
  obtain ind ch where c: "count_edges E = (ind, ch)" by (cases "count_edges E")
  note cnt = count_edges_ok [OF c [unfolded count_edges_def]]
  let ?q = "filter_map (\<lambda>(run, degree). if degree = (0::nat) then Some run else None) ind"
  have ok: "hm_ok ind" using cnt by simp
  have keys: "set (hm_keys ind) = edge_nodes E" using cnt by simp
  have deg: "opt_unwrap_or 0 (hm_get ind n) = indeg E {} n" for n using cnt [of n] by simp
  have q: "n \<in> set ?q \<longleftrightarrow> n \<in> edge_nodes E \<and> indeg E {} n = 0" for n
  proof -
    have "n \<in> set ?q \<longleftrightarrow> hm_get ind n = Some 0"
      unfolding hm_get_eq_iff [OF ok] filter_map_set by (auto split: if_splits intro!: bexI [of _ "(n, 0)"])
    moreover have "n \<in> edge_nodes E \<longleftrightarrow> hm_get ind n \<noteq> None"
      using keys by (metis map_of_eq_None_iff list.set_map)
    ultimately show ?thesis using deg [of n] by auto
  qed
  have dq: "distinct (filter_map (\<lambda>(run, degree). if degree = (0::nat) then Some run else None) xs)"
    if "hm_ok xs" for xs :: "(run_id, nat) hmap"
    using that by (induction xs) (auto simp: filter_map_set split: if_splits option.splits)
  have st: "kahn_state E {} [] ind ?q"
    using keys deg q dq [OF ok] by (auto simp: kahn_state_def)
  have acc: "{} \<union> set ?q \<subseteq> Wellfounded.acc (set E)"
    using q by (auto simp: indeg_zero intro: accI)
  have nb: "neighbors ch r = children_of E r" for r
    using cnt [of _ r] by (simp add: neighbors_def)
  obtain Y where Y: "Y \<subseteq> Wellfounded.acc (set E)" "Y \<subseteq> edge_nodes E"
      "\<forall>n \<in> edge_nodes E. indeg E Y n = 0 \<longrightarrow> n \<in> Y" "kahn ch ind ?q 0 = card Y"
    using kahn_works [OF st ok nb acc, of 0] by auto
  have fin: "finite (edge_nodes E)" by (simp add: edge_nodes_def)
  have len: "length ind = card (edge_nodes E)"
    using ok keys by (metis distinct_card length_map)
  have "card Y \<noteq> card (edge_nodes E) \<longleftrightarrow> Y \<noteq> edge_nodes E"
    using card_subset_eq [OF fin Y(2)] by auto
  moreover have "Y \<noteq> edge_nodes E \<longleftrightarrow> (\<exists>r. (r, r) \<in> (set E)\<^sup>+)"
  proof
    assume "Y \<noteq> edge_nodes E"
    then obtain n where n: "n \<in> edge_nodes E - Y" using Y(2) by auto
    show "\<exists>r. (r, r) \<in> (set E)\<^sup>+"
    proof (rule ccontr)
      assume "\<nexists>r. (r, r) \<in> (set E)\<^sup>+"
      then have "wf (set E)" by (intro finite_acyclic_wf) (auto simp: acyclic_def)
      then obtain z where z: "z \<in> edge_nodes E - Y" "\<And>y. (y, z) \<in> set E \<Longrightarrow> y \<notin> edge_nodes E - Y"
        using n by (metis wfE_min)
      have "p \<in> Y" if "(p, z) \<in> set E" for p
        using that z(2) by (force simp: edge_nodes_def)
      then have "indeg E Y z = 0" unfolding indeg_zero by blast
      with z(1) Y(3) show False by blast
    qed
  next
    assume "\<exists>r. (r, r) \<in> (set E)\<^sup>+"
    then obtain r where r: "(r, r) \<in> (set E)\<^sup>+" by blast
    then obtain y where "(r, y) \<in> set E" by (meson tranclD)
    then have "r \<in> edge_nodes E" unfolding edge_nodes_def by (metis UnI1 fst_conv imageI)
    moreover have "r \<notin> Y" using Y(1) not_acc_loop [of r "set E"] r by blast
    ultimately show "Y \<noteq> edge_nodes E" by auto
  qed
  ultimately show ?thesis by (simp add: graph_has_cycle_def c Y(4) len)
qed

end
