(* ===== verification/Identity.thy ===== *)
theory Identity
  imports Cycles
begin

text \<open>
  Identity binding of \<open>src/identity.rs\<close>: the evidence that ties task runs together, the pure
  plan it leads to, the preflight checks over the dispatch and dependency graphs, and the
  application of a plan to the model. A function that mutates \<open>&mut DomainModel\<close> and returns a
  \<open>Result\<close> gives the model it leaves behind next to the result. The identifier minted for a
  durable alias row and the clock are arguments.
\<close>

section \<open>Evidence, plans and conflicts\<close>

datatype binding_evidence =
    NativeSession run_id provider string
  | HeuristicNativeSession run_id string
  | NativePathResolved run_id provider string
  | ControllerNativeSession run_id provider string
  | ControllerTerminal run_id string

datatype merge_conflict =
    MissingRun run_id
  | SameRun run_id
  | LowerPrioritySurvivor run_id run_id
  | EvidenceMismatch run_id
  | ExplicitControllerEvidenceRequired run_id run_id
  | ControllerRunRequired run_id
  | ControllerIdentityAlreadyBound run_id run_id
  | NativeSessionAlreadyBound provider string run_id run_id
  | DifferingNativeSessions run_id run_id
  | MultipleNativeSessions run_id
  | NativeSessionRebind run_id
  | KeyAlreadyBound run_id run_id
  | UnsupportedBindingKey
  | AmbiguousTerminal string "run_id list"
  | DispatchSelfEdge run_id
  | DependencySelfEdge run_id
  | DispatchCycle
  | DependencyCycle
  | DifferingDispatchParents run_id run_id run_id

datatype binding_plan =
    NoChange
  | Bind run_id run_key
  | Merge run_id run_id
  | Conflict merge_conflict

section \<open>Contraction and preflight\<close>

definition key_priority :: "run_key \<Rightarrow> nat" where
  "key_priority key = (case key of Controller _ \<Rightarrow> 3 | Native _ _ \<Rightarrow> 2 | NativePath _ _ \<Rightarrow> 1
     | Provisional _ _ _ \<Rightarrow> 0)"

definition native_of :: "run_key \<Rightarrow> (provider \<times> string) option" where
  "native_of key = (case key of Native p sid \<Rightarrow> Some (p, sid) | _ \<Rightarrow> None)"

definition native_bindings :: "domain_model \<Rightarrow> run_id \<Rightarrow> (provider \<times> string) list" where
  "native_bindings m run =
     (let own = (case get_task_run m run of
            None \<Rightarrow> []
          | Some t \<Rightarrow> (case native_of (tr_key t) of None \<Rightarrow> [] | Some b \<Rightarrow> [b]))
      in fold (\<lambda>(key, owner) bindings.
           if owner = run
           then (case native_of key of None \<Rightarrow> bindings | Some b \<Rightarrow> hs_insert b bindings)
           else bindings)
         (dm_run_ids_by_key m) own)"

definition single_native_binding ::
  "domain_model \<Rightarrow> run_id \<Rightarrow> merge_conflict + (provider \<times> string) option" where
  "single_native_binding m run =
     (let bindings = native_bindings m run in
      if 1 < length bindings then Inl (MultipleNativeSessions run) else Inr (first_of bindings))"

definition substitute :: "run_id \<Rightarrow> run_id \<Rightarrow> run_id \<Rightarrow> run_id" where
  "substitute run survivor absorbed = (if run = absorbed then survivor else run)"

definition sorted_pair :: "run_id \<Rightarrow> run_id \<Rightarrow> run_id \<times> run_id" where
  "sorted_pair first second = (if first \<le> second then (first, second) else (second, first))"

text \<open>The loop over the execution edges: self-edge, second parent, then collect.\<close>

fun contract_execution_loop ::
  "run_id \<Rightarrow> run_id \<Rightarrow> execution_edge list \<Rightarrow> execution_edge list \<Rightarrow> (run_id, run_id) hmap
     \<Rightarrow> merge_conflict + execution_edge list" where
  "contract_execution_loop survivor absorbed [] contracted parent_by_child = Inr contracted"
| "contract_execution_loop survivor absorbed (edge # edges) contracted parent_by_child =
     (let parent = substitute (ee_parent_run_id edge) survivor absorbed;
          child = substitute (ee_child_run_id edge) survivor absorbed;
          contracted' = hs_insert \<lparr>ee_parent_run_id = parent, ee_child_run_id = child\<rparr> contracted
      in if parent = child then Inl (DispatchSelfEdge parent)
         else case hm_get parent_by_child child of
                Some existing_parent \<Rightarrow>
                  if existing_parent \<noteq> parent
                  then (case sorted_pair existing_parent parent of (first_parent, second_parent) \<Rightarrow>
                          Inl (DifferingDispatchParents child first_parent second_parent))
                  else contract_execution_loop survivor absorbed edges contracted' parent_by_child
              | None \<Rightarrow> contract_execution_loop survivor absorbed edges contracted'
                          (hm_put child parent parent_by_child))"

definition contract_execution_edges ::
  "domain_model \<Rightarrow> run_id \<Rightarrow> run_id \<Rightarrow> merge_conflict + execution_edge list" where
  "contract_execution_edges m survivor absorbed =
     (case contract_execution_loop survivor absorbed (dm_execution_edges m) [] [] of
        Inl conflict \<Rightarrow> Inl conflict
      | Inr contracted \<Rightarrow>
          let pairs = map (\<lambda>e. (ee_parent_run_id e, ee_child_run_id e)) contracted in
          if graph_has_cycle pairs then Inl DispatchCycle else Inr contracted)"

fun contract_dependency_loop ::
  "run_id \<Rightarrow> run_id \<Rightarrow> dependency_edge list \<Rightarrow> dependency_edge list
     \<Rightarrow> merge_conflict + dependency_edge list" where
  "contract_dependency_loop survivor absorbed [] contracted = Inr contracted"
| "contract_dependency_loop survivor absorbed (edge # edges) contracted =
     (let prerequisite = substitute (de_prerequisite_run_id edge) survivor absorbed;
          dependent = substitute (de_dependent_run_id edge) survivor absorbed
      in if prerequisite = dependent then Inl (DependencySelfEdge prerequisite)
         else contract_dependency_loop survivor absorbed edges
                (hs_insert \<lparr>de_prerequisite_run_id = prerequisite, de_dependent_run_id = dependent\<rparr>
                   contracted))"

definition contract_dependency_edges ::
  "domain_model \<Rightarrow> run_id \<Rightarrow> run_id \<Rightarrow> merge_conflict + dependency_edge list" where
  "contract_dependency_edges m survivor absorbed =
     (case contract_dependency_loop survivor absorbed (dm_dependency_edges m) [] of
        Inl conflict \<Rightarrow> Inl conflict
      | Inr contracted \<Rightarrow>
          let pairs = map (\<lambda>e. (de_prerequisite_run_id e, de_dependent_run_id e)) contracted in
          if graph_has_cycle pairs then Inl DependencyCycle else Inr contracted)"

record contracted_graphs =
  gr_execution_edges :: "execution_edge list"
  gr_dependency_edges :: "dependency_edge list"

definition preflight_merge ::
  "domain_model \<Rightarrow> run_id \<Rightarrow> run_id \<Rightarrow> merge_conflict + contracted_graphs" where
  "preflight_merge m survivor absorbed =
     (case get_task_run m survivor of
        None \<Rightarrow> Inl (MissingRun survivor)
      | Some survivor_run \<Rightarrow>
     (case get_task_run m absorbed of
        None \<Rightarrow> Inl (MissingRun absorbed)
      | Some absorbed_run \<Rightarrow>
     (if survivor = absorbed then Inl (SameRun survivor)
      else if key_priority (tr_key survivor_run) < key_priority (tr_key absorbed_run)
        then Inl (LowerPrioritySurvivor survivor absorbed)
      else if is_controller (tr_key survivor_run) \<and> is_controller (tr_key absorbed_run)
        then Inl (ControllerIdentityAlreadyBound absorbed survivor)
      else case single_native_binding m survivor of
        Inl conflict \<Rightarrow> Inl conflict
      | Inr survivor_binding \<Rightarrow>
     (case single_native_binding m absorbed of
        Inl conflict \<Rightarrow> Inl conflict
      | Inr absorbed_binding \<Rightarrow>
     (case (survivor_binding, absorbed_binding) of
        (Some left, Some right) \<Rightarrow>
          if left \<noteq> right then Inl (DifferingNativeSessions survivor absorbed)
          else Inl (NativeSessionAlreadyBound (fst left) (snd left) survivor absorbed)
      | _ \<Rightarrow>
     (case contract_execution_edges m survivor absorbed of
        Inl conflict \<Rightarrow> Inl conflict
      | Inr execution_edges \<Rightarrow>
     (case contract_dependency_edges m survivor absorbed of
        Inl conflict \<Rightarrow> Inl conflict
      | Inr dependency_edges \<Rightarrow>
          Inr \<lparr>gr_execution_edges = execution_edges, gr_dependency_edges = dependency_edges\<rparr>)))))))"

section \<open>Preflight of one edge\<close>

fun preflight_execution_loop ::
  "execution_edge list \<Rightarrow> (run_id, run_id) hmap \<Rightarrow> (run_id \<times> run_id) list
     \<Rightarrow> merge_conflict + (run_id \<times> run_id) list" where
  "preflight_execution_loop [] parent_by_child pairs = Inr pairs"
| "preflight_execution_loop (edge # edges) parent_by_child pairs =
     (let parent = ee_parent_run_id edge; child = ee_child_run_id edge;
          pairs' = pairs @ [(parent, child)]
      in if parent = child then Inl (DispatchSelfEdge parent)
         else case hm_get parent_by_child child of
                Some existing_parent \<Rightarrow>
                  if existing_parent \<noteq> parent
                  then (case sorted_pair existing_parent parent of (first_parent, second_parent) \<Rightarrow>
                          Inl (DifferingDispatchParents child first_parent second_parent))
                  else preflight_execution_loop edges parent_by_child pairs'
              | None \<Rightarrow> preflight_execution_loop edges (hm_put child parent parent_by_child) pairs')"

definition preflight_execution_edge :: "domain_model \<Rightarrow> execution_edge \<Rightarrow> merge_conflict + unit" where
  "preflight_execution_edge m candidate =
     (case preflight_execution_loop (dm_execution_edges m @ [candidate]) [] [] of
        Inl conflict \<Rightarrow> Inl conflict
      | Inr pairs \<Rightarrow> if graph_has_cycle pairs then Inl DispatchCycle else Inr ())"

fun preflight_dependency_loop ::
  "dependency_edge list \<Rightarrow> (run_id \<times> run_id) list \<Rightarrow> merge_conflict + (run_id \<times> run_id) list" where
  "preflight_dependency_loop [] pairs = Inr pairs"
| "preflight_dependency_loop (edge # edges) pairs =
     (let prerequisite = de_prerequisite_run_id edge; dependent = de_dependent_run_id edge
      in if prerequisite = dependent then Inl (DependencySelfEdge prerequisite)
         else preflight_dependency_loop edges (pairs @ [(prerequisite, dependent)]))"

definition preflight_dependency_edge :: "domain_model \<Rightarrow> dependency_edge \<Rightarrow> merge_conflict + unit" where
  "preflight_dependency_edge m candidate =
     (case preflight_dependency_loop (dm_dependency_edges m @ [candidate]) [] of
        Inl conflict \<Rightarrow> Inl conflict
      | Inr pairs \<Rightarrow> if graph_has_cycle pairs then Inl DependencyCycle else Inr ())"

section \<open>Planning\<close>

definition planned_merge :: "domain_model \<Rightarrow> run_id \<Rightarrow> run_id \<Rightarrow> binding_plan" where
  "planned_merge m survivor absorbed =
     (case preflight_merge m survivor absorbed of
        Inr _ \<Rightarrow> Merge survivor absorbed
      | Inl conflict \<Rightarrow> Conflict conflict)"

definition plan_native_session ::
  "domain_model \<Rightarrow> run_id \<Rightarrow> provider \<Rightarrow> string \<Rightarrow> binding_plan" where
  "plan_native_session m run provider sid =
     (case get_task_run m run of
        None \<Rightarrow> Conflict (MissingRun run)
      | Some observed \<Rightarrow>
          let key = Native provider sid in
          case task_run_by_key m key of
            Some owner \<Rightarrow>
              if tr_run_id owner = run then NoChange
              else if is_controller (tr_key owner) \<or> is_controller (tr_key observed)
                then (case (if is_controller (tr_key owner) then (tr_run_id owner, run)
                            else (run, tr_run_id owner)) of
                        (controller, observed_run) \<Rightarrow>
                          Conflict (ExplicitControllerEvidenceRequired controller observed_run))
              else if is_provisional (tr_key observed) then planned_merge m (tr_run_id owner) run
              else Conflict (EvidenceMismatch run)
          | None \<Rightarrow>
              if is_provisional (tr_key observed) then Bind run key
              else if tr_key observed = key then Bind run key
              else if is_controller (tr_key observed)
                then Conflict (ExplicitControllerEvidenceRequired run run)
              else Conflict (EvidenceMismatch run))"

definition plan_heuristic_native_session :: "domain_model \<Rightarrow> run_id \<Rightarrow> string \<Rightarrow> binding_plan" where
  "plan_heuristic_native_session m run sid =
     (case get_task_run m run of
        None \<Rightarrow> Conflict (MissingRun run)
      | Some observed \<Rightarrow>
          if is_provisional (tr_key observed)
          then (case task_run_by_key m (Native Codex sid) of
                  Some owner \<Rightarrow>
                    Conflict (NativeSessionAlreadyBound Codex sid (tr_run_id owner) run)
                | None \<Rightarrow> plan_native_session m run Codex sid)
          else if tr_key observed = Native Codex sid then NoChange
          else Conflict (EvidenceMismatch run))"

definition plan_native_path_resolution ::
  "domain_model \<Rightarrow> run_id \<Rightarrow> provider \<Rightarrow> string \<Rightarrow> binding_plan" where
  "plan_native_path_resolution m run provider sid =
     (case get_task_run m run of
        None \<Rightarrow> Conflict (MissingRun run)
      | Some observed \<Rightarrow>
          if \<not> (case tr_key observed of NativePath current _ \<Rightarrow> current = provider | _ \<Rightarrow> False)
          then Conflict (EvidenceMismatch run)
          else let key = Native provider sid in
            case task_run_by_key m key of
              Some owner \<Rightarrow> if tr_run_id owner = run then NoChange
                else planned_merge m (tr_run_id owner) run
            | None \<Rightarrow> Bind run key)"

definition plan_controller_native ::
  "domain_model \<Rightarrow> run_id \<Rightarrow> provider \<Rightarrow> string \<Rightarrow> binding_plan" where
  "plan_controller_native m controller_run provider sid =
     (case get_task_run m controller_run of
        None \<Rightarrow> Conflict (MissingRun controller_run)
      | Some controller \<Rightarrow>
          if \<not> is_controller (tr_key controller) then Conflict (ControllerRunRequired controller_run)
          else let key = Native provider sid in
            case task_run_by_key m key of
              Some owner \<Rightarrow>
                if tr_run_id owner = controller_run then NoChange
                else if is_controller (tr_key owner)
                  then Conflict (NativeSessionAlreadyBound provider sid (tr_run_id owner) controller_run)
                else planned_merge m controller_run (tr_run_id owner)
            | None \<Rightarrow>
                (case single_native_binding m controller_run of
                   Inl conflict \<Rightarrow> Conflict conflict
                 | Inr bound \<Rightarrow>
                     if opt_is_some_and (\<lambda>b. b \<noteq> (provider, sid)) bound
                     then Conflict (NativeSessionRebind controller_run)
                     else Bind controller_run key))"

definition live_terminal_runs :: "domain_model \<Rightarrow> string \<Rightarrow> run_id list" where
  "live_terminal_runs m terminal_id =
     dedup (sort (map ex_task_run_id
       (filter (\<lambda>e. ex_terminal_id e = terminal_id \<and> \<not> exec_is_terminal (ex_state e)) (executions m))))"

definition plan_controller_terminal :: "domain_model \<Rightarrow> run_id \<Rightarrow> string \<Rightarrow> binding_plan" where
  "plan_controller_terminal m controller_run terminal_id =
     (case get_task_run m controller_run of
        None \<Rightarrow> Conflict (MissingRun controller_run)
      | Some controller \<Rightarrow>
          if \<not> is_controller (tr_key controller) then Conflict (ControllerRunRequired controller_run)
          else case live_terminal_runs m terminal_id of
            [] \<Rightarrow> NoChange
          | [run] \<Rightarrow>
              if run = controller_run then NoChange
              else (case get_task_run m run of
                      None \<Rightarrow> Conflict (MissingRun run)
                    | Some target \<Rightarrow>
                        if is_controller (tr_key target)
                        then Conflict (ControllerIdentityAlreadyBound run controller_run)
                        else planned_merge m controller_run run)
          | runs \<Rightarrow> Conflict (AmbiguousTerminal terminal_id runs))"

fun plan_binding :: "domain_model \<Rightarrow> binding_evidence \<Rightarrow> binding_plan" where
  "plan_binding m (NativeSession run provider sid) = plan_native_session m run provider sid"
| "plan_binding m (HeuristicNativeSession run sid) = plan_heuristic_native_session m run sid"
| "plan_binding m (NativePathResolved run provider sid) = plan_native_path_resolution m run provider sid"
| "plan_binding m (ControllerNativeSession run provider sid) = plan_controller_native m run provider sid"
| "plan_binding m (ControllerTerminal run terminal_id) = plan_controller_terminal m run terminal_id"

section \<open>Application\<close>

definition touch_task_run :: "i64 \<Rightarrow> task_run \<Rightarrow> task_run" where
  "touch_task_run bookkeeping_time_ms t =
     task_run_touch
       (max (opt_unwrap_or bookkeeping_time_ms (tr_updated_at_ms t)) bookkeeping_time_ms) t"

definition persist_of_run ::
  "i64 \<Rightarrow> native_session_binding option \<Rightarrow> task_run \<Rightarrow> persist_task_run" where
  "persist_of_run bookkeeping_time_ms native_session t =
     \<lparr>pt_task_run = t, pt_native_session = native_session,
      pt_created_at_ms = opt_unwrap_or bookkeeping_time_ms (tr_created_at_ms t),
      pt_updated_at_ms = opt_unwrap_or bookkeeping_time_ms (tr_updated_at_ms t),
      pt_finished_at_ms = tr_finished_at_ms t\<rparr>"

text \<open>
  The run to persist, the key it was promoted from, and the model after the alias of a
  Controller run is recorded: the \<open>match\<close> of \<open>apply_bind\<close> on the current key.
\<close>

definition bind_run ::
  "run_id \<Rightarrow> run_key \<Rightarrow> provider \<times> string \<Rightarrow> task_run \<Rightarrow> domain_model
     \<Rightarrow> domain_model \<times> (merge_conflict + task_run \<times> run_key option)" where
  "bind_run run key native task_run m =
     (case tr_key task_run of
        Controller _ \<Rightarrow> (insert_task_run_alias key run m, Inr (task_run, None))
      | Native current_provider current_sid \<Rightarrow>
          if (current_provider, current_sid) = native then (m, Inr (task_run, None))
          else (m, Inl (EvidenceMismatch run))
      | old_key \<Rightarrow> (m, Inr (task_run\<lparr>tr_key := key\<rparr>, Some old_key)))"

definition apply_bind ::
  "run_id \<Rightarrow> run_id \<Rightarrow> run_key \<Rightarrow> i64 \<Rightarrow> domain_model
     \<Rightarrow> domain_model \<times> (merge_conflict + persist_batch)" where
  "apply_bind fresh run key bookkeeping_time_ms m =
     (case native_of key of
        None \<Rightarrow> (m, Inl UnsupportedBindingKey)
      | Some (provider, sid) \<Rightarrow>
     (case get_task_run m run of
        None \<Rightarrow> (m, Inl (MissingRun run))
      | Some task_run \<Rightarrow>
     (case task_run_by_key m key of
        Some owner \<Rightarrow> if tr_run_id owner = run then (m, Inr [])
          else (m, Inl (KeyAlreadyBound (tr_run_id owner) run))
      | None \<Rightarrow>
     (case single_native_binding m run of
        Inl conflict \<Rightarrow> (m, Inl conflict)
      | Inr bound \<Rightarrow>
          if opt_is_some_and (\<lambda>b. b \<noteq> (provider, sid)) bound
          then (m, Inl (NativeSessionRebind run))
          else case bind_run run key (provider, sid) task_run m of
            (m, Inl conflict) \<Rightarrow> (m, Inl conflict)
          | (m, Inr (bound_run, promoted_from)) \<Rightarrow>
              let bound_run = touch_task_run bookkeeping_time_ms bound_run;
                  m = insert_task_run bound_run m;
                  m = (case promoted_from of None \<Rightarrow> m
                       | Some old_key \<Rightarrow> insert_task_run_alias old_key run m);
                  persisted = persist_of_run bookkeeping_time_ms
                    (Some \<lparr>nb_provider = provider, nb_native_session_id = sid\<rparr>) bound_run
              in (m, Inr (case promoted_from of
                      Some (NativePath p path) \<Rightarrow>
                        [PromoteTaskRunKey persisted (NativePath p path) fresh]
                    | _ \<Rightarrow> [UpsertTaskRun persisted]))))))"

definition absorbed_aliases :: "domain_model \<Rightarrow> run_id \<Rightarrow> run_key list" where
  "absorbed_aliases m absorbed =
     (let aliases = filter_map (\<lambda>(key, owner). if owner = absorbed then Some key else None)
            (dm_run_ids_by_key m)
      in case get_task_run m absorbed of
           None \<Rightarrow> aliases
         | Some t \<Rightarrow> if tr_key t \<notin> set aliases then aliases @ [tr_key t] else aliases)"

definition inherit_controller_evidence ::
  "run_id \<Rightarrow> run_id \<Rightarrow> i64 \<Rightarrow> domain_model \<Rightarrow> domain_model" where
  "inherit_controller_evidence survivor absorbed bookkeeping_time_ms m =
     (if opt_is_some_and tr_has_controller_task_state_event (get_task_run m absorbed)
      then case get_task_run m survivor of
             None \<Rightarrow> m
           | Some t \<Rightarrow> insert_task_run
               (touch_task_run bookkeeping_time_ms (t\<lparr>tr_has_controller_task_state_event := True\<rparr>)) m
      else m)"

definition reown_executions :: "run_id \<Rightarrow> run_id \<Rightarrow> (string, execution) hmap \<Rightarrow> (string, execution) hmap" where
  "reown_executions survivor absorbed =
     hm_map_values (\<lambda>e. if ex_task_run_id e = absorbed then e\<lparr>ex_task_run_id := survivor\<rparr> else e)"

definition reown_agent_nodes :: "run_id \<Rightarrow> run_id \<Rightarrow> (string, agent_node) hmap \<Rightarrow> (string, agent_node) hmap" where
  "reown_agent_nodes survivor absorbed =
     hm_map_values (\<lambda>n. if an_task_run_id n = absorbed then n\<lparr>an_task_run_id := survivor\<rparr> else n)"

definition merge_in_memory ::
  "run_id \<Rightarrow> run_id \<Rightarrow> contracted_graphs \<Rightarrow> i64 \<Rightarrow> domain_model \<Rightarrow> domain_model" where
  "merge_in_memory survivor absorbed contracted bookkeeping_time_ms m =
     (let m = inherit_controller_evidence survivor absorbed bookkeeping_time_ms m;
          aliases = absorbed_aliases m absorbed;
          m = fold_telemetry survivor absorbed m;
          m = fold_run_kind survivor absorbed m;
          m = fold_task_run_v6_state survivor absorbed m;
          m = fold_run_rate_totals survivor absorbed m;
          m = remove_run_rate_cursor survivor m;
          m = remove_task_run_record absorbed m;
          m = m\<lparr>dm_executions := reown_executions survivor absorbed (dm_executions m)\<rparr>;
          m = m\<lparr>dm_agent_nodes := reown_agent_nodes survivor absorbed (dm_agent_nodes m)\<rparr>;
          m = m\<lparr>dm_execution_edges := gr_execution_edges contracted,
                dm_dependency_edges := gr_dependency_edges contracted\<rparr>
      in fold (\<lambda>alias. insert_task_run_alias alias survivor) aliases m)"

fun apply_binding_plan_at ::
  "run_id \<Rightarrow> binding_plan \<Rightarrow> i64 \<Rightarrow> domain_model \<Rightarrow> domain_model \<times> (merge_conflict + persist_batch)"
where
  "apply_binding_plan_at fresh NoChange bookkeeping_time_ms m = (m, Inr [])"
| "apply_binding_plan_at fresh (Conflict conflict) bookkeeping_time_ms m = (m, Inl conflict)"
| "apply_binding_plan_at fresh (Bind run key) bookkeeping_time_ms m =
     apply_bind fresh run key bookkeeping_time_ms m"
| "apply_binding_plan_at fresh (Merge survivor absorbed) bookkeeping_time_ms m =
     (case preflight_merge m survivor absorbed of
        Inl conflict \<Rightarrow> (m, Inl conflict)
      | Inr contracted \<Rightarrow>
          let m = merge_in_memory survivor absorbed contracted bookkeeping_time_ms m in
          case get_task_run m survivor of
            None \<Rightarrow> (m, Inl (MissingRun survivor))
          | Some task_run \<Rightarrow>
              let task_run = touch_task_run bookkeeping_time_ms task_run;
                  m = insert_task_run task_run m in
              case single_native_binding m survivor of
                Inl conflict \<Rightarrow> (m, Inl conflict)
              | Inr bound \<Rightarrow>
                  let native_session = map_option
                        (\<lambda>(provider, sid). \<lparr>nb_provider = provider, nb_native_session_id = sid\<rparr>) bound
                  in (m, Inr [MergeTaskRuns survivor absorbed,
                        UpsertTaskRun (persist_of_run bookkeeping_time_ms native_session task_run)]))"

end
