(* ===== verification/Identity_Laws.thy ===== *)
theory Identity_Laws
  imports Identity
begin

text \<open>
  Laws of identity binding: the preflight checks accept exactly the edges that keep the
  dispatch graph a forest and the dependency graph acyclic, contraction is the image of the
  graph under the merge, a merge leaves no reference to the absorbed run, a rejected plan
  leaves the model as it was, and a planned merge always applies.
\<close>

section \<open>Well-formed graphs\<close>

abbreviation execution_pairs :: "execution_edge list \<Rightarrow> (run_id \<times> run_id) list" where
  "execution_pairs es \<equiv> map (\<lambda>e. (ee_parent_run_id e, ee_child_run_id e)) es"

abbreviation dependency_pairs :: "dependency_edge list \<Rightarrow> (run_id \<times> run_id) list" where
  "dependency_pairs es \<equiv> map (\<lambda>e. (de_prerequisite_run_id e, de_dependent_run_id e)) es"

text \<open>One parent per child and no cycle; a self-edge is a cycle.\<close>

definition dispatch_graph_ok :: "execution_edge list \<Rightarrow> bool" where
  "dispatch_graph_ok es \<longleftrightarrow>
     (\<forall>e \<in> set es. \<forall>f \<in> set es. ee_child_run_id e = ee_child_run_id f
        \<longrightarrow> ee_parent_run_id e = ee_parent_run_id f)
     \<and> acyclic (set (execution_pairs es))"

definition dependency_graph_ok :: "dependency_edge list \<Rightarrow> bool" where
  "dependency_graph_ok es \<longleftrightarrow> acyclic (set (dependency_pairs es))"

lemma graph_has_cycle_acyclic: "graph_has_cycle E \<longleftrightarrow> \<not> acyclic (set E)"
  by (simp add: graph_has_cycle_iff acyclic_def)

lemma acyclic_no_self: "acyclic R \<Longrightarrow> (a, a) \<notin> R"
  by (auto simp: acyclic_def)

lemma dispatch_graph_no_self:
  assumes "dispatch_graph_ok es" and "e \<in> set es"
  shows "ee_parent_run_id e \<noteq> ee_child_run_id e"
proof
  assume "ee_parent_run_id e = ee_child_run_id e"
  with assms(2) have "(ee_child_run_id e, ee_child_run_id e) \<in> set (execution_pairs es)"
    by (auto intro!: image_eqI [of _ _ e])
  with assms(1) show False by (simp only: dispatch_graph_ok_def acyclic_no_self)
qed

lemma dependency_graph_no_self:
  assumes "dependency_graph_ok es" and "e \<in> set es"
  shows "de_prerequisite_run_id e \<noteq> de_dependent_run_id e"
proof
  assume "de_prerequisite_run_id e = de_dependent_run_id e"
  with assms(2) have "(de_dependent_run_id e, de_dependent_run_id e) \<in> set (dependency_pairs es)"
    by (auto intro!: image_eqI [of _ _ e])
  with assms(1) show False by (simp only: dependency_graph_ok_def acyclic_no_self)
qed

lemma sum_case_Some:
  "(case x of Inl _ \<Rightarrow> None | Inr y \<Rightarrow> Some y) = (if P then Some z else None) \<longleftrightarrow>
     (P \<and> x = Inr z) \<or> (\<not> P \<and> (\<exists>c. x = Inl c))"
  by (cases x) auto

lemma dispatch_graph_ok_mono: "set xs \<subseteq> set ys \<Longrightarrow> dispatch_graph_ok ys \<Longrightarrow> dispatch_graph_ok xs"
  unfolding dispatch_graph_ok_def set_map by (blast intro: acyclic_subset)

lemma dependency_graph_ok_mono: "set xs \<subseteq> set ys \<Longrightarrow> dependency_graph_ok ys \<Longrightarrow> dependency_graph_ok xs"
  unfolding dependency_graph_ok_def set_map by (blast intro: acyclic_subset)

text \<open>What the two edge loops accept, with the parents met so far.\<close>

definition edges_fit :: "(run_id, run_id) hmap \<Rightarrow> execution_edge list \<Rightarrow> bool" where
  "edges_fit parents es \<longleftrightarrow> (\<forall>e \<in> set es. ee_parent_run_id e \<noteq> ee_child_run_id e
     \<and> opt_is_none_or (\<lambda>p. p = ee_parent_run_id e) (hm_get parents (ee_child_run_id e)))
     \<and> (\<forall>e \<in> set es. \<forall>f \<in> set es. ee_child_run_id e = ee_child_run_id f
        \<longrightarrow> ee_parent_run_id e = ee_parent_run_id f)"

lemma edges_fit_Cons:
  "edges_fit parents (e # es) \<longleftrightarrow> ee_parent_run_id e \<noteq> ee_child_run_id e
     \<and> opt_is_none_or (\<lambda>p. p = ee_parent_run_id e) (hm_get parents (ee_child_run_id e))
     \<and> edges_fit (if hm_get parents (ee_child_run_id e) = None
          then hm_put (ee_child_run_id e) (ee_parent_run_id e) parents else parents) es"
proof (cases "hm_get parents (ee_child_run_id e)")
  case None
  have free: "opt_is_none_or (\<lambda>p. p = x) (hm_get parents (ee_child_run_id f))"
    if "ee_child_run_id f = ee_child_run_id e" for f x
    using None that by simp
  show ?thesis
  proof
    assume L: "edges_fit parents (e # es)"
    note L = L [unfolded edges_fit_def list.set]
    have put: "opt_is_none_or (\<lambda>p. p = ee_parent_run_id f)
        (hm_get (hm_put (ee_child_run_id e) (ee_parent_run_id e) parents) (ee_child_run_id f))"
      if f: "f \<in> set es" for f
    proof (cases "ee_child_run_id f = ee_child_run_id e")
      case True
      with L f have "ee_parent_run_id f = ee_parent_run_id e" by blast
      with True show ?thesis by simp
    next
      case False
      from L f have "opt_is_none_or (\<lambda>p. p = ee_parent_run_id f) (hm_get parents (ee_child_run_id f))"
        by blast
      with False show ?thesis by simp
    qed
    show "ee_parent_run_id e \<noteq> ee_child_run_id e
     \<and> opt_is_none_or (\<lambda>p. p = ee_parent_run_id e) (hm_get parents (ee_child_run_id e))
     \<and> edges_fit (if hm_get parents (ee_child_run_id e) = None
          then hm_put (ee_child_run_id e) (ee_parent_run_id e) parents else parents) es"
      unfolding edges_fit_def if_P [OF None] using L put by blast
  next
    assume R: "ee_parent_run_id e \<noteq> ee_child_run_id e
     \<and> opt_is_none_or (\<lambda>p. p = ee_parent_run_id e) (hm_get parents (ee_child_run_id e))
     \<and> edges_fit (if hm_get parents (ee_child_run_id e) = None
          then hm_put (ee_child_run_id e) (ee_parent_run_id e) parents else parents) es"
    note R = R [unfolded edges_fit_def if_P [OF None]]
    have same: "ee_parent_run_id f = ee_parent_run_id e"
      if "f \<in> set es" "ee_child_run_id f = ee_child_run_id e" for f
    proof -
      from R that(1) have "opt_is_none_or (\<lambda>p. p = ee_parent_run_id f)
        (hm_get (hm_put (ee_child_run_id e) (ee_parent_run_id e) parents) (ee_child_run_id f))" by blast
      with that(2) show ?thesis by simp
    qed
    have old: "opt_is_none_or (\<lambda>p. p = ee_parent_run_id f) (hm_get parents (ee_child_run_id f))"
      if "f \<in> set es" for f
    proof (cases "ee_child_run_id f = ee_child_run_id e")
      case False
      from R that have "opt_is_none_or (\<lambda>p. p = ee_parent_run_id f)
        (hm_get (hm_put (ee_child_run_id e) (ee_parent_run_id e) parents) (ee_child_run_id f))" by blast
      with False show ?thesis by simp
    qed (rule free)
    show "edges_fit parents (e # es)"
      unfolding edges_fit_def list.set using R same old by (metis insert_iff)
  qed
next
  case (Some p)
  then have notNone: "hm_get parents (ee_child_run_id e) \<noteq> None" by simp
  have same: "ee_parent_run_id f = ee_parent_run_id e"
    if "opt_is_none_or (\<lambda>p. p = ee_parent_run_id e) (hm_get parents (ee_child_run_id e))"
      "opt_is_none_or (\<lambda>p. p = ee_parent_run_id f) (hm_get parents (ee_child_run_id f))"
      "ee_child_run_id f = ee_child_run_id e" for f
    using that Some by simp
  show ?thesis
    unfolding edges_fit_def list.set if_not_P [OF notNone]
  proof (rule iffI, goal_cases)
    case 1
    then show ?case by blast
  next
    case 2
    then have "\<forall>f \<in> set es. ee_child_run_id f = ee_child_run_id e \<longrightarrow> ee_parent_run_id f = ee_parent_run_id e"
      using same by blast
    with 2 show ?case by (metis insert_iff)
  qed
qed

lemma dispatch_graph_fit:
  "dispatch_graph_ok es \<longleftrightarrow> edges_fit [] es \<and> acyclic (set (execution_pairs es))"
proof -
  have "dispatch_graph_ok es \<Longrightarrow> \<forall>e \<in> set es. ee_parent_run_id e \<noteq> ee_child_run_id e"
    using dispatch_graph_no_self by blast
  then show ?thesis
    unfolding dispatch_graph_ok_def edges_fit_def map_of.simps opt_simps by blast
qed

lemma preflight_execution_loop_iff:
  "(case preflight_execution_loop es parents pairs of Inl _ \<Rightarrow> None | Inr ps \<Rightarrow> Some ps)
     = (if edges_fit parents es then Some (pairs @ execution_pairs es) else None)"
proof (induction es arbitrary: parents pairs)
  case Nil
  then show ?case by (simp add: edges_fit_def)
next
  case (Cons e es)
  then show ?case
    by (cases "hm_get parents (ee_child_run_id e)")
      (auto simp: edges_fit_Cons Let_def simp del: map_of_eq_Some_iff split: prod.split)
qed

lemma preflight_execution_edge_iff:
  "preflight_execution_edge m c = Inr () \<longleftrightarrow> dispatch_graph_ok (dm_execution_edges m @ [c])"
proof -
  let ?es = "dm_execution_edges m @ [c]"
  note fit = dispatch_graph_fit [of ?es]
  have loop: "(case preflight_execution_loop ?es [] [] of Inl _ \<Rightarrow> None | Inr ps \<Rightarrow> Some ps)
      = (if edges_fit [] ?es then Some (execution_pairs ?es) else None)"
    using preflight_execution_loop_iff [of ?es "[]" "[]"] by simp
  show ?thesis
  proof (cases "edges_fit [] ?es")
    case True
    with loop have "preflight_execution_loop ?es [] [] = Inr (execution_pairs ?es)"
      unfolding sum_case_Some by blast
    with True show ?thesis by (simp only: preflight_execution_edge_def fit graph_has_cycle_acyclic) simp
  next
    case False
    with loop obtain c where "preflight_execution_loop ?es [] [] = Inl c"
      unfolding sum_case_Some by blast
    with False show ?thesis by (simp only: preflight_execution_edge_def fit) simp
  qed
qed

lemma preflight_dependency_loop_iff:
  "(case preflight_dependency_loop es pairs of Inl _ \<Rightarrow> None | Inr ps \<Rightarrow> Some ps)
     = (if \<forall>e \<in> set es. de_prerequisite_run_id e \<noteq> de_dependent_run_id e
        then Some (pairs @ dependency_pairs es) else None)"
  by (induction es arbitrary: pairs) (auto simp: Let_def)

lemma preflight_dependency_edge_iff:
  "preflight_dependency_edge m c = Inr () \<longleftrightarrow> dependency_graph_ok (dm_dependency_edges m @ [c])"
proof -
  let ?es = "dm_dependency_edges m @ [c]"
  have self: "dependency_graph_ok ?es \<Longrightarrow> \<forall>e \<in> set ?es. de_prerequisite_run_id e \<noteq> de_dependent_run_id e"
    using dependency_graph_no_self by blast
  have loop: "(case preflight_dependency_loop ?es [] of Inl _ \<Rightarrow> None | Inr ps \<Rightarrow> Some ps)
      = (if \<forall>e \<in> set ?es. de_prerequisite_run_id e \<noteq> de_dependent_run_id e
         then Some (dependency_pairs ?es) else None)"
    using preflight_dependency_loop_iff [of ?es "[]"] by simp
  show ?thesis
  proof (cases "\<forall>e \<in> set ?es. de_prerequisite_run_id e \<noteq> de_dependent_run_id e")
    case True
    with loop have "preflight_dependency_loop ?es [] = Inr (dependency_pairs ?es)"
      unfolding sum_case_Some by blast
    then show ?thesis
      by (simp only: preflight_dependency_edge_def graph_has_cycle_acyclic dependency_graph_ok_def) simp
  next
    case False
    with loop obtain c where c: "preflight_dependency_loop ?es [] = Inl c"
      unfolding sum_case_Some by blast
    have "\<not> dependency_graph_ok ?es" using self False by blast
    with c show ?thesis by (simp only: preflight_dependency_edge_def) simp
  qed
qed

section \<open>Guarded insertion of edges\<close>

text \<open>
  The contract shared by the dispatch and the dependency graph: an edge is inserted only after
  its preflight, the preflight decides well-formedness of the extended edge set, and
  well-formedness depends on the set of edges and is inherited by subsets.
\<close>

locale guarded_edges =
  fixes guard :: "'m \<Rightarrow> 'e \<Rightarrow> 'err + unit"
    and insert_edge :: "'e \<Rightarrow> 'm \<Rightarrow> 'm \<times> bool"
    and edges :: "'m \<Rightarrow> 'e list"
    and well_formed :: "'e list \<Rightarrow> bool"
  assumes guard_iff: "guard m e = Inr () \<longleftrightarrow> well_formed (edges m @ [e])"
    and edges_insert: "edges (fst (insert_edge e m)) = hs_insert e (edges m)"
    and well_formed_mono: "set xs \<subseteq> set ys \<Longrightarrow> well_formed ys \<Longrightarrow> well_formed xs"
begin

lemma guarded_insert_keeps:
  assumes "guard m e = Inr ()"
  shows "well_formed (edges (fst (insert_edge e m)))"
  by (rule well_formed_mono [of _ "edges m @ [e]"])
    (use assms in \<open>auto simp: edges_insert guard_iff\<close>)

lemma guarded_edge_present:
  "guard m e = Inr () \<Longrightarrow> e \<in> set (edges m) \<Longrightarrow> well_formed (edges m)"
  using well_formed_mono [of "edges m" "edges m @ [e]"] by (auto simp: guard_iff)

lemma reinsertion_accepted:
  "well_formed (edges m) \<Longrightarrow> e \<in> set (edges m) \<Longrightarrow> guard m e = Inr ()"
  using well_formed_mono [of "edges m @ [e]" "edges m"] by (auto simp: guard_iff)

end

interpretation dispatch: guarded_edges preflight_execution_edge insert_execution_edge
  dm_execution_edges dispatch_graph_ok
  by unfold_locales (simp_all add: preflight_execution_edge_iff insert_execution_edge_def
      dispatch_graph_ok_mono)

interpretation dependency: guarded_edges preflight_dependency_edge insert_dependency_edge
  dm_dependency_edges dependency_graph_ok
  by unfold_locales (simp_all add: preflight_dependency_edge_iff insert_dependency_edge_def
      dependency_graph_ok_mono)

section \<open>Contraction\<close>

definition contract_execution :: "run_id \<Rightarrow> run_id \<Rightarrow> execution_edge \<Rightarrow> execution_edge" where
  "contract_execution survivor absorbed e =
     \<lparr>ee_parent_run_id = substitute (ee_parent_run_id e) survivor absorbed,
      ee_child_run_id = substitute (ee_child_run_id e) survivor absorbed\<rparr>"

definition contract_dependency :: "run_id \<Rightarrow> run_id \<Rightarrow> dependency_edge \<Rightarrow> dependency_edge" where
  "contract_dependency survivor absorbed e =
     \<lparr>de_prerequisite_run_id = substitute (de_prerequisite_run_id e) survivor absorbed,
      de_dependent_run_id = substitute (de_dependent_run_id e) survivor absorbed\<rparr>"

lemma contract_execution_loop_Cons:
  "contract_execution_loop s a (e # es) acc parents =
     (let c = contract_execution s a e in
      if ee_parent_run_id c = ee_child_run_id c then Inl (DispatchSelfEdge (ee_parent_run_id c))
      else case hm_get parents (ee_child_run_id c) of
             Some p \<Rightarrow>
               if p \<noteq> ee_parent_run_id c
               then (case sorted_pair p (ee_parent_run_id c) of (x, y) \<Rightarrow>
                       Inl (DifferingDispatchParents (ee_child_run_id c) x y))
               else contract_execution_loop s a es (hs_insert c acc) parents
           | None \<Rightarrow> contract_execution_loop s a es (hs_insert c acc)
                       (hm_put (ee_child_run_id c) (ee_parent_run_id c) parents))"
  by (cases "hm_get parents (substitute (ee_child_run_id e) s a)")
    (simp_all add: Let_def contract_execution_def split_beta del: map_of_eq_Some_iff)

lemma contract_execution_loop_iff:
  "(case contract_execution_loop s a es acc parents of Inl _ \<Rightarrow> None | Inr c \<Rightarrow> Some c)
     = (if edges_fit parents (map (contract_execution s a) es)
        then Some (hs_extend acc (map (contract_execution s a) es)) else None)"
proof (induction es arbitrary: acc parents)
  case Nil
  then show ?case by (simp add: edges_fit_def hs_extend_def)
next
  case (Cons e es)
  then show ?case
    by (cases "hm_get parents (ee_child_run_id (contract_execution s a e))")
      (auto simp: edges_fit_Cons contract_execution_loop_Cons Let_def hs_extend_def
        simp del: map_of_eq_Some_iff contract_execution_loop.simps split: prod.split)
qed

lemma contract_execution_edges_iff:
  "contract_execution_edges m s a = Inr c \<longleftrightarrow>
     c = hs_extend [] (map (contract_execution s a) (dm_execution_edges m))
     \<and> dispatch_graph_ok (map (contract_execution s a) (dm_execution_edges m))"
proof -
  let ?es = "map (contract_execution s a) (dm_execution_edges m)"
  note fit = dispatch_graph_fit [of ?es]
  have same: "set (execution_pairs (hs_extend [] ?es)) = set (execution_pairs ?es)"
    by (simp only: set_map hs_extend_set list.set(1) Un_empty_left)
  note loop = contract_execution_loop_iff [of s a "dm_execution_edges m" "[]" "[]", unfolded sum_case_Some]
  show ?thesis
  proof (cases "edges_fit [] ?es")
    case True
    with loop have "contract_execution_loop s a (dm_execution_edges m) [] [] = Inr (hs_extend [] ?es)"
      by blast
    with True show ?thesis
      by (simp only: contract_execution_edges_def fit graph_has_cycle_acyclic same Let_def)
        (auto simp: image_image)
  next
    case False
    with loop obtain x where "contract_execution_loop s a (dm_execution_edges m) [] [] = Inl x" by blast
    with False show ?thesis by (simp only: contract_execution_edges_def fit) simp
  qed
qed

lemma contract_dependency_loop_iff:
  "(case contract_dependency_loop s a es acc of Inl _ \<Rightarrow> None | Inr c \<Rightarrow> Some c)
     = (if \<forall>e \<in> set (map (contract_dependency s a) es). de_prerequisite_run_id e \<noteq> de_dependent_run_id e
        then Some (hs_extend acc (map (contract_dependency s a) es)) else None)"
  by (induction es arbitrary: acc) (auto simp: Let_def contract_dependency_def hs_extend_def)

lemma contract_dependency_edges_iff:
  "contract_dependency_edges m s a = Inr c \<longleftrightarrow>
     c = hs_extend [] (map (contract_dependency s a) (dm_dependency_edges m))
     \<and> dependency_graph_ok (map (contract_dependency s a) (dm_dependency_edges m))"
proof -
  let ?es = "map (contract_dependency s a) (dm_dependency_edges m)"
  have same: "set (dependency_pairs (hs_extend [] ?es)) = set (dependency_pairs ?es)"
    by (simp only: set_map hs_extend_set list.set(1) Un_empty_left)
  note loop = contract_dependency_loop_iff [of s a "dm_dependency_edges m" "[]", unfolded sum_case_Some]
  show ?thesis
  proof (cases "\<forall>e \<in> set ?es. de_prerequisite_run_id e \<noteq> de_dependent_run_id e")
    case True
    with loop have "contract_dependency_loop s a (dm_dependency_edges m) [] = Inr (hs_extend [] ?es)"
      by blast
    then show ?thesis
      by (simp only: contract_dependency_edges_def graph_has_cycle_acyclic same Let_def
          dependency_graph_ok_def) (auto simp: image_image)
  next
    case False
    with loop obtain x where x: "contract_dependency_loop s a (dm_dependency_edges m) [] = Inl x" by blast
    have "\<not> dependency_graph_ok ?es" using dependency_graph_no_self False by blast
    with x show ?thesis by (simp only: contract_dependency_edges_def) simp
  qed
qed

end
