(* ===== verification/Merge_Laws.thy ===== *)
theory Merge_Laws
  imports Identity_Laws
begin

text \<open>
  Laws of applying a binding plan: what each step of a merge leaves alone, that a merge leaves
  no reference to the absorbed run and keeps both graphs well formed, that a rejected plan
  changes nothing, and that every planned merge goes through.
\<close>

section \<open>Frames of the folding steps\<close>

lemma fold_telemetry_frame [frame, simp]:
  "dm_task_runs (fold_telemetry s a m) = dm_task_runs m"
  "dm_run_ids_by_key (fold_telemetry s a m) = dm_run_ids_by_key m"
  "dm_task_run_v6_state (fold_telemetry s a m) = dm_task_run_v6_state m"
  "dm_run_rate_totals (fold_telemetry s a m) = dm_run_rate_totals m"
  "dm_run_rate_cursors (fold_telemetry s a m) = dm_run_rate_cursors m"
  "dm_run_kinds (fold_telemetry s a m) = dm_run_kinds m"
  "dm_executions (fold_telemetry s a m) = dm_executions m"
  "dm_agent_nodes (fold_telemetry s a m) = dm_agent_nodes m"
  "dm_execution_edges (fold_telemetry s a m) = dm_execution_edges m"
  "dm_dependency_edges (fold_telemetry s a m) = dm_dependency_edges m"
  "dm_history_run_publications (fold_telemetry s a m) = dm_history_run_publications m"
  by (auto simp: fold_telemetry_def Let_def split: option.split)

lemma fold_run_kind_frame [frame, simp]:
  "dm_task_runs (fold_run_kind s a m) = dm_task_runs m"
  "dm_run_ids_by_key (fold_run_kind s a m) = dm_run_ids_by_key m"
  "dm_task_run_v6_state (fold_run_kind s a m) = dm_task_run_v6_state m"
  "dm_run_rate_totals (fold_run_kind s a m) = dm_run_rate_totals m"
  "dm_run_rate_cursors (fold_run_kind s a m) = dm_run_rate_cursors m"
  "dm_telemetry (fold_run_kind s a m) = dm_telemetry m"
  "dm_executions (fold_run_kind s a m) = dm_executions m"
  "dm_agent_nodes (fold_run_kind s a m) = dm_agent_nodes m"
  "dm_execution_edges (fold_run_kind s a m) = dm_execution_edges m"
  "dm_dependency_edges (fold_run_kind s a m) = dm_dependency_edges m"
  "dm_history_run_publications (fold_run_kind s a m) = dm_history_run_publications m"
  by (auto simp: fold_run_kind_def Let_def split: option.split)

lemma fold_v6_frame [frame, simp]:
  "dm_task_runs (fold_task_run_v6_state s a m) = dm_task_runs m"
  "dm_run_ids_by_key (fold_task_run_v6_state s a m) = dm_run_ids_by_key m"
  "dm_run_rate_totals (fold_task_run_v6_state s a m) = dm_run_rate_totals m"
  "dm_run_rate_cursors (fold_task_run_v6_state s a m) = dm_run_rate_cursors m"
  "dm_telemetry (fold_task_run_v6_state s a m) = dm_telemetry m"
  "dm_run_kinds (fold_task_run_v6_state s a m) = dm_run_kinds m"
  "dm_executions (fold_task_run_v6_state s a m) = dm_executions m"
  "dm_agent_nodes (fold_task_run_v6_state s a m) = dm_agent_nodes m"
  "dm_execution_edges (fold_task_run_v6_state s a m) = dm_execution_edges m"
  "dm_dependency_edges (fold_task_run_v6_state s a m) = dm_dependency_edges m"
  by (simp_all add: fold_task_run_v6_state_def Let_def)

lemma accumulate_rate_frame [frame, simp]:
  "dm_task_runs (fst (accumulate_run_rate_totals r d m)) = dm_task_runs m"
  "dm_run_ids_by_key (fst (accumulate_run_rate_totals r d m)) = dm_run_ids_by_key m"
  "dm_task_run_v6_state (fst (accumulate_run_rate_totals r d m)) = dm_task_run_v6_state m"
  "dm_run_rate_cursors (fst (accumulate_run_rate_totals r d m)) = dm_run_rate_cursors m"
  "dm_telemetry (fst (accumulate_run_rate_totals r d m)) = dm_telemetry m"
  "dm_run_kinds (fst (accumulate_run_rate_totals r d m)) = dm_run_kinds m"
  "dm_executions (fst (accumulate_run_rate_totals r d m)) = dm_executions m"
  "dm_agent_nodes (fst (accumulate_run_rate_totals r d m)) = dm_agent_nodes m"
  "dm_execution_edges (fst (accumulate_run_rate_totals r d m)) = dm_execution_edges m"
  "dm_dependency_edges (fst (accumulate_run_rate_totals r d m)) = dm_dependency_edges m"
  "dm_history_run_publications (fst (accumulate_run_rate_totals r d m)) = dm_history_run_publications m"
  by (simp_all add: accumulate_run_rate_totals_def Let_def with_diagnostics_def split: prod.split)

lemma accumulate_rate_totals:
  "dm_run_rate_totals (fst (accumulate_run_rate_totals r d m)) =
     hm_put r (fst (rate_saturating_add (opt_unwrap_or rate_totals_default
       (hm_get (dm_run_rate_totals m) r)) d)) (dm_run_rate_totals m)"
  by (simp add: accumulate_run_rate_totals_def Let_def with_diagnostics_def split: prod.split)

lemma fold_rate_frame [frame, simp]:
  "dm_task_runs (fold_run_rate_totals s a m) = dm_task_runs m"
  "dm_run_ids_by_key (fold_run_rate_totals s a m) = dm_run_ids_by_key m"
  "dm_task_run_v6_state (fold_run_rate_totals s a m) = dm_task_run_v6_state m"
  "dm_run_rate_cursors (fold_run_rate_totals s a m) = dm_run_rate_cursors m"
  "dm_telemetry (fold_run_rate_totals s a m) = dm_telemetry m"
  "dm_run_kinds (fold_run_rate_totals s a m) = dm_run_kinds m"
  "dm_executions (fold_run_rate_totals s a m) = dm_executions m"
  "dm_agent_nodes (fold_run_rate_totals s a m) = dm_agent_nodes m"
  "dm_execution_edges (fold_run_rate_totals s a m) = dm_execution_edges m"
  "dm_dependency_edges (fold_run_rate_totals s a m) = dm_dependency_edges m"
  "dm_history_run_publications (fold_run_rate_totals s a m) = dm_history_run_publications m"
  by (auto simp: fold_run_rate_totals_def split: option.split)

lemma insert_task_run_frame [frame, simp]:
  "dm_run_rate_totals (insert_task_run t m) = dm_run_rate_totals m"
  "dm_run_rate_cursors (insert_task_run t m) = dm_run_rate_cursors m"
  "dm_telemetry (insert_task_run t m) = dm_telemetry m"
  "dm_run_kinds (insert_task_run t m) = dm_run_kinds m"
  "dm_executions (insert_task_run t m) = dm_executions m"
  "dm_agent_nodes (insert_task_run t m) = dm_agent_nodes m"
  "dm_execution_edges (insert_task_run t m) = dm_execution_edges m"
  "dm_dependency_edges (insert_task_run t m) = dm_dependency_edges m"
  "dm_history_run_publications (insert_task_run t m) = dm_history_run_publications m"
  by (simp_all add: insert_task_run_def Let_def ensure_v6_state_def set_v6_state_def split: option.split)

text \<open>Re-inserting a run under the key it already has only touches that binding.\<close>

lemma insert_task_run_same_key:
  assumes "get_task_run m (tr_run_id t) = Some old" and "tr_key t = tr_key old"
  shows "hm_get (dm_run_ids_by_key (insert_task_run t m)) k =
    (if k = tr_key t then Some (tr_run_id t) else hm_get (dm_run_ids_by_key m) k)"
  using assms by (simp add: insert_task_run_def get_task_run_def Let_def ensure_v6_state_def
      set_v6_state_def split: option.split)

lemma insert_task_run_keys_ok:
  "hm_ok (dm_run_ids_by_key m) \<Longrightarrow> hm_ok (dm_run_ids_by_key (insert_task_run t m))"
  by (simp add: insert_task_run_def Let_def ensure_v6_state_def set_v6_state_def split: option.split)

lemma insert_task_run_v6:
  "get_v6_state (insert_task_run t m) r = (if r = tr_run_id t
     then Some (opt_unwrap_or v6_default (get_v6_state m r)) else get_v6_state m r)"
  by (simp add: insert_task_run_def Let_def)
    (auto simp: get_v6_state_def ensure_v6_state_def set_v6_state_def split: option.split)

lemma task_run_touch_fields [simp]:
  "tr_run_id (task_run_touch n t) = tr_run_id t" "tr_key (task_run_touch n t) = tr_key t"
  "tr_state (task_run_touch n t) = tr_state t"
  "tr_has_controller_task_state_event (task_run_touch n t) = tr_has_controller_task_state_event t"
  "tr_display_ordinal (task_run_touch n t) = tr_display_ordinal t"
  by (simp_all add: task_run_touch_def Let_def)

lemma touch_task_run_fields [simp]:
  "tr_run_id (touch_task_run n t) = tr_run_id t" "tr_key (touch_task_run n t) = tr_key t"
  "tr_state (touch_task_run n t) = tr_state t"
  "tr_has_controller_task_state_event (touch_task_run n t) = tr_has_controller_task_state_event t"
  by (simp_all add: touch_task_run_def)

section \<open>Native bindings of a run\<close>

definition native_set :: "domain_model \<Rightarrow> run_id \<Rightarrow> (provider \<times> string) set" where
  "native_set m r = {b. \<exists>t. get_task_run m r = Some t \<and> native_of (tr_key t) = Some b}
     \<union> {b. \<exists>k. hm_get (dm_run_ids_by_key m) k = Some r \<and> native_of k = Some b}"

lemma native_bindings_fold:
  "set (fold (\<lambda>(key, owner) bindings.
       if owner = run then (case native_of key of None \<Rightarrow> bindings | Some b \<Rightarrow> hs_insert b bindings)
       else bindings) xs acc) = set acc \<union> {b. \<exists>k. (k, run) \<in> set xs \<and> native_of k = Some b}"
  "distinct acc \<Longrightarrow> distinct (fold (\<lambda>(key, owner) bindings.
       if owner = run then (case native_of key of None \<Rightarrow> bindings | Some b \<Rightarrow> hs_insert b bindings)
       else bindings) xs acc)"
proof (induction xs arbitrary: acc)
  case (Cons x xs)
  { case 1 from Cons.IH(1) show ?case by (cases x) (auto split: option.splits)
  next case 2 with Cons.IH(2) show ?case by (cases x) (auto split: option.splits) }
qed simp_all

lemma native_bindings_set:
  assumes "hm_ok (dm_run_ids_by_key m)"
  shows "set (native_bindings m r) = native_set m r" and "distinct (native_bindings m r)"
proof -
  let ?own = "case get_task_run m r of None \<Rightarrow> []
          | Some t \<Rightarrow> (case native_of (tr_key t) of None \<Rightarrow> [] | Some b \<Rightarrow> [b])"
  have own: "set ?own = {b. \<exists>t. get_task_run m r = Some t \<and> native_of (tr_key t) = Some b}"
    by (cases "get_task_run m r") (auto split: option.split)
  show "set (native_bindings m r) = native_set m r"
    unfolding native_bindings_def Let_def native_bindings_fold(1) own native_set_def
      hm_get_eq_iff [OF assms] ..
  show "distinct (native_bindings m r)"
    unfolding native_bindings_def Let_def
    by (rule native_bindings_fold(2)) (simp split: option.split)
qed

lemma single_native_binding_iff:
  assumes "hm_ok (dm_run_ids_by_key m)"
  shows "single_native_binding m r = Inr None \<longleftrightarrow> native_set m r = {}"
    and "single_native_binding m r = Inr (Some b) \<longleftrightarrow> native_set m r = {b}"
    and "(\<exists>x. single_native_binding m r = Inr x) \<longleftrightarrow> (\<forall>b \<in> native_set m r. \<forall>c \<in> native_set m r. b = c)"
proof -
  note nb = native_bindings_set [OF assms, of r]
  show "single_native_binding m r = Inr None \<longleftrightarrow> native_set m r = {}"
    unfolding nb(1) [symmetric] by (cases "native_bindings m r") (auto simp: single_native_binding_def Let_def)
  show "single_native_binding m r = Inr (Some b) \<longleftrightarrow> native_set m r = {b}"
    unfolding nb(1) [symmetric] using nb(2)
    by (cases "native_bindings m r"; cases "tl (native_bindings m r)")
      (auto simp: single_native_binding_def Let_def)
  show "(\<exists>x. single_native_binding m r = Inr x) \<longleftrightarrow> (\<forall>b \<in> native_set m r. \<forall>c \<in> native_set m r. b = c)"
    unfolding nb(1) [symmetric] using nb(2)
    by (cases "native_bindings m r"; cases "tl (native_bindings m r)")
      (auto simp: single_native_binding_def Let_def)
qed

section \<open>The merged model\<close>

lemma inherit_frame:
  fixes s a :: run_id and n :: i64
  defines "I \<equiv> \<lambda>m. inherit_controller_evidence s a n m"
  shows "dm_run_rate_totals (I m) = dm_run_rate_totals m" "dm_run_rate_cursors (I m) = dm_run_rate_cursors m"
    "dm_telemetry (I m) = dm_telemetry m" "dm_run_kinds (I m) = dm_run_kinds m"
    "dm_executions (I m) = dm_executions m" "dm_agent_nodes (I m) = dm_agent_nodes m"
    "dm_history_run_publications (I m) = dm_history_run_publications m"
    "hm_ok (dm_run_ids_by_key m) \<Longrightarrow> hm_ok (dm_run_ids_by_key (I m))"
  unfolding I_def by (auto simp: inherit_controller_evidence_def insert_task_run_keys_ok split: option.split)

lemma inherit_runs:
  assumes "runs_keyed m" and "get_task_run m s = Some ts" and "s \<noteq> a"
  shows "get_task_run (inherit_controller_evidence s a n m) a = get_task_run m a"
    and "\<exists>t. get_task_run (inherit_controller_evidence s a n m) s = Some t \<and> tr_run_id t = s
      \<and> tr_key t = tr_key ts"
    and "hm_get (dm_run_ids_by_key (inherit_controller_evidence s a n m)) k =
      (if k = tr_key ts \<and> opt_is_some_and tr_has_controller_task_state_event (get_task_run m a)
       then Some s else hm_get (dm_run_ids_by_key m) k)"
proof -
  let ?t = "touch_task_run n (ts\<lparr>tr_has_controller_task_state_event := True\<rparr>)"
  have own: "tr_run_id ts = s" using assms by (simp add: runs_keyed_def)
  have get: "get_task_run (insert_task_run ?t m) r = (if r = s then Some ?t else get_task_run m r)" for r
    using run_table.get_insert [of ?t m r] own by simp
  have keys: "hm_get (dm_run_ids_by_key (insert_task_run ?t m)) k =
      (if k = tr_key ts then Some s else hm_get (dm_run_ids_by_key m) k)" for k
    using insert_task_run_same_key [of m ?t ts k] assms own by simp
  show "get_task_run (inherit_controller_evidence s a n m) a = get_task_run m a"
    using assms get by (simp add: inherit_controller_evidence_def)
  show "\<exists>t. get_task_run (inherit_controller_evidence s a n m) s = Some t \<and> tr_run_id t = s
      \<and> tr_key t = tr_key ts"
    using assms get own by (simp add: inherit_controller_evidence_def)
  show "hm_get (dm_run_ids_by_key (inherit_controller_evidence s a n m)) k =
      (if k = tr_key ts \<and> opt_is_some_and tr_has_controller_task_state_event (get_task_run m a)
       then Some s else hm_get (dm_run_ids_by_key m) k)"
    using assms keys by (simp add: inherit_controller_evidence_def)
qed

lemma absorbed_aliases_set:
  assumes "hm_ok (dm_run_ids_by_key m)"
  shows "k \<in> set (absorbed_aliases m a) \<longleftrightarrow> hm_get (dm_run_ids_by_key m) k = Some a
    \<or> (\<exists>t. get_task_run m a = Some t \<and> k = tr_key t)"
  unfolding absorbed_aliases_def Let_def hm_get_eq_iff [OF assms]
  by (cases "get_task_run m a") (auto simp: owned_keys_mem)

text \<open>Each fold reads and writes its own table only.\<close>

lemma fold_own_table:
  "dm_task_run_v6_state m = dm_task_run_v6_state m' \<Longrightarrow>
     dm_task_run_v6_state (fold_task_run_v6_state s a m) = dm_task_run_v6_state (fold_task_run_v6_state s a m')"
  "dm_history_run_publications m = dm_history_run_publications m' \<Longrightarrow>
     dm_history_run_publications (fold_task_run_v6_state s a m)
       = dm_history_run_publications (fold_task_run_v6_state s a m')"
  "dm_run_rate_totals m = dm_run_rate_totals m' \<Longrightarrow>
     dm_run_rate_totals (fold_run_rate_totals s a m) = dm_run_rate_totals (fold_run_rate_totals s a m')"
  "dm_run_kinds m = dm_run_kinds m' \<Longrightarrow>
     dm_run_kinds (fold_run_kind s a m) = dm_run_kinds (fold_run_kind s a m')"
  by (simp_all add: fold_task_run_v6_state_def fold_run_rate_totals_def fold_run_kind_def
      accumulate_rate_totals Let_def split: option.split)

lemma merge_tables:
  fixes s a :: run_id and n :: i64 and g :: contracted_graphs and m :: domain_model
  defines "I \<equiv> inherit_controller_evidence s a n m" and "M \<equiv> merge_in_memory s a g n m"
  shows "get_task_run M r = (if r = a then None else get_task_run I r)"
    and "dm_run_ids_by_key M = fold (\<lambda>k. hm_put k s) (absorbed_aliases I a) (dm_run_ids_by_key I)"
    and "dm_executions M = reown_executions s a (dm_executions m)"
    and "dm_agent_nodes M = reown_agent_nodes s a (dm_agent_nodes m)"
    and "dm_execution_edges M = gr_execution_edges g"
    and "dm_dependency_edges M = gr_dependency_edges g"
    and "get_v6_state M r = (if r = a then None else get_v6_state (fold_task_run_v6_state s a I) r)"
    and "get_run_rate_totals M r = (if r = a then None else get_run_rate_totals (fold_run_rate_totals s a I) r)"
    and "get_run_rate_cursor M r = (if r = a \<or> r = s then None else get_run_rate_cursor m r)"
    and "dm_telemetry M = dm_telemetry (fold_telemetry s a I)"
    and "dm_run_kinds M = dm_run_kinds (fold_run_kind s a I)"
    and "dm_history_run_publications M = dm_history_run_publications (fold_task_run_v6_state s a I)"
  unfolding M_def I_def merge_in_memory_def Let_def fold_insert_alias
  by (simp_all add: inherit_frame remove_task_run_record_def remove_run_rate_cursor_def
      get_task_run_def get_v6_state_def get_run_rate_totals_def get_run_rate_cursor_def)
    (auto intro!: fold_own_table arg_cong [where f = "\<lambda>t. hm_get t r"])

text \<open>What it means that a run still occurs in the tables of live rows, or as the canonical run of a
  captured image. The keys and contents of captured images are archives, as is deferred activity.\<close>

definition mentions_run :: "domain_model \<Rightarrow> run_id \<Rightarrow> bool" where
  "mentions_run m r \<longleftrightarrow> get_task_run m r \<noteq> None \<or> get_v6_state m r \<noteq> None
     \<or> get_run_rate_totals m r \<noteq> None \<or> get_run_rate_cursor m r \<noteq> None
     \<or> get_telemetry m r \<noteq> None \<or> get_run_kind m r \<noteq> None
     \<or> (\<exists>k. hm_get (dm_run_ids_by_key m) k = Some r)
     \<or> (\<exists>e \<in> set (executions m). ex_task_run_id e = r)
     \<or> (\<exists>n \<in> set (agent_nodes m). an_task_run_id n = r)
     \<or> (\<exists>e \<in> set (dm_execution_edges m). ee_parent_run_id e = r \<or> ee_child_run_id e = r)
     \<or> (\<exists>e \<in> set (dm_dependency_edges m). de_prerequisite_run_id e = r \<or> de_dependent_run_id e = r)
     \<or> (\<exists>p \<in> set (hm_values (dm_history_run_publications m)). hp_canonical_run_id p = r)"

lemma preflight_merge_D:
  assumes "preflight_merge m s a = Inr g"
  shows "s \<noteq> a" and "\<exists>t. get_task_run m s = Some t" and "\<exists>t. get_task_run m a = Some t"
    and "gr_execution_edges g = hs_extend [] (map (contract_execution s a) (dm_execution_edges m))"
    and "dispatch_graph_ok (map (contract_execution s a) (dm_execution_edges m))"
    and "gr_dependency_edges g = hs_extend [] (map (contract_dependency s a) (dm_dependency_edges m))"
    and "dependency_graph_ok (map (contract_dependency s a) (dm_dependency_edges m))"
    and "\<exists>bs ba. single_native_binding m s = Inr bs \<and> single_native_binding m a = Inr ba
      \<and> (bs = None \<or> ba = None)"
  using assms
  by (auto simp: preflight_merge_def contract_execution_edges_iff contract_dependency_edges_iff
      split: option.splits sum.splits if_splits)

lemma merged_edges:
  assumes "preflight_merge m s a = Inr g"
  shows "dispatch_graph_ok (gr_execution_edges g)" and "dependency_graph_ok (gr_dependency_edges g)"
    and "e \<in> set (gr_execution_edges g) \<Longrightarrow> ee_parent_run_id e \<noteq> a \<and> ee_child_run_id e \<noteq> a"
    and "d \<in> set (gr_dependency_edges g) \<Longrightarrow> de_prerequisite_run_id d \<noteq> a \<and> de_dependent_run_id d \<noteq> a"
proof -
  note d = preflight_merge_D [OF assms]
  show "dispatch_graph_ok (gr_execution_edges g)"
    by (rule dispatch_graph_ok_mono [OF _ d(5)]) (simp add: d(4))
  show "dependency_graph_ok (gr_dependency_edges g)"
    by (rule dependency_graph_ok_mono [OF _ d(7)]) (simp add: d(6))
  show "e \<in> set (gr_execution_edges g) \<Longrightarrow> ee_parent_run_id e \<noteq> a \<and> ee_child_run_id e \<noteq> a"
    using d(1) by (auto simp: d(4) contract_execution_def substitute_def split: if_splits)
  show "d \<in> set (gr_dependency_edges g) \<Longrightarrow> de_prerequisite_run_id d \<noteq> a \<and> de_dependent_run_id d \<noteq> a"
    using d(1) by (auto simp: d(6) contract_dependency_def substitute_def split: if_splits)
qed

lemma merge_forgets_absorbed:
  assumes ok: "hm_ok (dm_run_ids_by_key m)" and pre: "preflight_merge m s a = Inr g"
  shows "\<not> mentions_run (merge_in_memory s a g n m) a"
proof -
  note d = preflight_merge_D [OF pre]
  let ?I = "inherit_controller_evidence s a n m" and ?M = "merge_in_memory s a g n m"
  have okI: "hm_ok (dm_run_ids_by_key ?I)" by (rule inherit_frame(8) [OF ok])
  have keys: "hm_get (dm_run_ids_by_key ?M) k \<noteq> Some a" for k
    unfolding merge_tables(2) hm_get_fold_put_const absorbed_aliases_set [OF okI]
    using d(1) by auto
  have tel: "get_telemetry ?M a = None"
    using d(1) by (simp add: get_telemetry_def merge_tables(10) fold_telemetry_def Let_def split: option.split)
  have kind: "get_run_kind ?M a = None"
    using d(1) by (simp add: get_run_kind_def merge_tables(11) fold_run_kind_def Let_def split: option.split)
  have rows: "\<forall>e \<in> set (executions ?M). ex_task_run_id e \<noteq> a" "\<forall>n \<in> set (agent_nodes ?M). an_task_run_id n \<noteq> a"
    "\<forall>p \<in> set (hm_values (dm_history_run_publications ?M)). hp_canonical_run_id p \<noteq> a"
    using d(1) unfolding merge_tables(3,4,12) reown_executions_def reown_agent_nodes_def
    by (auto simp: hm_map_values_def fold_task_run_v6_state_def Let_def split: if_splits)
  show ?thesis
    unfolding mentions_run_def
    using keys tel kind rows merged_edges(3,4) [OF pre]
    by (auto simp: merge_tables(1,5,6,7,8,9))
qed

section \<open>A merge goes through\<close>

text \<open>The survivor ends with the bindings of both runs.\<close>

lemma merged_native_set:
  assumes ok: "hm_ok (dm_run_ids_by_key m)" and keyed: "runs_keyed m"
    and pre: "preflight_merge m s a = Inr g"
    and t: "get_task_run (merge_in_memory s a g n m) s = Some t"
  shows "native_set (insert_task_run (touch_task_run n t) (merge_in_memory s a g n m)) s
    \<subseteq> native_set m s \<union> native_set m a"
proof -
  note d = preflight_merge_D [OF pre]
  obtain ts where ts: "get_task_run m s = Some ts" using d(2) by blast
  obtain ta where ta: "get_task_run m a = Some ta" using d(3) by blast
  let ?I = "inherit_controller_evidence s a n m" and ?M = "merge_in_memory s a g n m"
  let ?t = "touch_task_run n t"
  note inh = inherit_runs [OF keyed ts d(1), of n]
  have okI: "hm_ok (dm_run_ids_by_key ?I)" by (rule inherit_frame(8) [OF ok])
  have key: "tr_run_id t = s" "tr_key t = tr_key ts"
    using t inh(2) d(1) by (auto simp: merge_tables(1))
  have get: "get_task_run (insert_task_run ?t ?M) s = Some ?t"
    using run_table.get_insert [of ?t ?M s] key by simp
  have keys: "hm_get (dm_run_ids_by_key (insert_task_run ?t ?M)) k = Some s \<Longrightarrow>
      k = tr_key ts \<or> k = tr_key ta \<or> hm_get (dm_run_ids_by_key m) k = Some a
      \<or> hm_get (dm_run_ids_by_key m) k = Some s" for k
  proof -
    have "hm_get (dm_run_ids_by_key (insert_task_run ?t ?M)) k =
        (if k = tr_key t then Some s else hm_get (dm_run_ids_by_key ?M) k)"
      using insert_task_run_same_key [of ?M ?t t k] t key by simp
    then show "hm_get (dm_run_ids_by_key (insert_task_run ?t ?M)) k = Some s \<Longrightarrow> ?thesis"
      unfolding merge_tables(2) hm_get_fold_put_const absorbed_aliases_set [OF okI] inh(1,3) ta key(2)
      by (auto split: if_splits)
  qed
  show ?thesis
    unfolding native_set_def get using keys ts ta key by auto
qed

lemma planned_merge_applies:
  assumes ok: "hm_ok (dm_run_ids_by_key m)" and keyed: "runs_keyed m"
    and pre: "preflight_merge m s a = Inr g"
  shows "\<exists>t bound. get_task_run (merge_in_memory s a g n m) s = Some t
    \<and> single_native_binding (insert_task_run (touch_task_run n t) (merge_in_memory s a g n m)) s = Inr bound"
proof -
  note d = preflight_merge_D [OF pre]
  obtain ts where ts: "get_task_run m s = Some ts" using d(2) by blast
  let ?M = "merge_in_memory s a g n m"
  obtain t where t: "get_task_run ?M s = Some t"
    using inherit_runs(2) [OF keyed ts d(1)] d(1) by (auto simp: merge_tables(1))
  obtain bs ba where b: "single_native_binding m s = Inr bs" "single_native_binding m a = Inr ba"
      "bs = None \<or> ba = None"
    using d(8) by blast
  have "\<forall>b \<in> native_set m s \<union> native_set m a. \<forall>c \<in> native_set m s \<union> native_set m a. b = c"
  proof (cases "bs = None")
    case True
    then have "native_set m s = {}" using b(1) single_native_binding_iff(1) [OF ok] by simp
    moreover have "\<forall>b \<in> native_set m a. \<forall>c \<in> native_set m a. b = c"
      using single_native_binding_iff(3) [OF ok, of a] b(2) by blast
    ultimately show ?thesis by simp
  next
    case False
    with b(3) have "ba = None" by blast
    then have "native_set m a = {}" using b(2) single_native_binding_iff(1) [OF ok] by simp
    moreover have "\<forall>b \<in> native_set m s. \<forall>c \<in> native_set m s. b = c"
      using single_native_binding_iff(3) [OF ok, of s] b(1) by blast
    ultimately show ?thesis by simp
  qed
  then have one: "\<forall>b \<in> native_set (insert_task_run (touch_task_run n t) ?M) s.
      \<forall>c \<in> native_set (insert_task_run (touch_task_run n t) ?M) s. b = c"
    using merged_native_set [OF ok keyed pre t] by blast
  have "hm_ok (dm_run_ids_by_key ?M)"
  proof -
    have put: "hm_ok (fold (\<lambda>k. hm_put k s) ks x)" if "hm_ok x" for ks and x :: "(run_key, run_id) hmap"
      using that by (induction ks arbitrary: x) auto
    show ?thesis unfolding merge_tables(2) by (intro put inherit_frame(8) ok)
  qed
  then have "hm_ok (dm_run_ids_by_key (insert_task_run (touch_task_run n t) ?M))"
    by (rule insert_task_run_keys_ok)
  from one [folded single_native_binding_iff(3) [OF this]] t show ?thesis by blast
qed

lemma merge_applies:
  assumes "hm_ok (dm_run_ids_by_key m)" and "runs_keyed m" and "preflight_merge m s a = Inr g"
  shows "\<exists>m' batch. apply_binding_plan_at fresh (Merge s a) n m = (m', Inr batch)"
  using planned_merge_applies [OF assms, of n] assms(3) by (auto simp: Let_def)

lemma merge_result_model:
  assumes "hm_ok (dm_run_ids_by_key m)" and "runs_keyed m"
    and "apply_binding_plan_at fresh (Merge s a) n m = (m', Inr batch)"
  obtains g t where "preflight_merge m s a = Inr g"
    and "get_task_run (merge_in_memory s a g n m) s = Some t"
    and "m' = insert_task_run (touch_task_run n t) (merge_in_memory s a g n m)"
  using assms by (auto simp: Let_def split: sum.splits option.splits)

text \<open>A plan that is rejected leaves the model as it was.\<close>

lemma apply_bind_unchanged:
  "apply_bind fresh run key n m = (m', Inl conflict) \<Longrightarrow> m' = m"
  by (auto simp: apply_bind_def bind_run_def Let_def split: option.splits sum.splits prod.splits
      if_splits run_key.splits)

lemma apply_plan_unchanged:
  assumes "hm_ok (dm_run_ids_by_key m)" and "runs_keyed m"
    and "apply_binding_plan_at fresh plan n m = (m', Inl conflict)"
  shows "m' = m"
proof (cases plan)
  case (Merge s a)
  show ?thesis
  proof (cases "preflight_merge m s a")
    case (Inl c)
    with assms(3) Merge show ?thesis by simp
  next
    case (Inr g)
    from merge_applies [OF assms(1,2) Inr, of fresh n] assms(3) Merge show ?thesis by auto
  qed
qed (use assms apply_bind_unchanged in auto)

lemma planned_merge_Merge:
  "planned_merge m x y = Merge s a \<longleftrightarrow> x = s \<and> y = a \<and> (\<exists>g. preflight_merge m s a = Inr g)"
  by (auto simp: planned_merge_def split: sum.splits)

lemma plan_native_session_Merge:
  "plan_native_session m run p sid = Merge s a \<Longrightarrow> \<exists>g. preflight_merge m s a = Inr g"
  by (auto simp: plan_native_session_def Let_def planned_merge_Merge split: option.splits if_splits)

lemma plan_binding_Merge: "plan_binding m ev = Merge s a \<Longrightarrow> \<exists>g. preflight_merge m s a = Inr g"
  by (cases ev) (auto simp: plan_heuristic_native_session_def plan_native_path_resolution_def
      plan_controller_native_def plan_controller_terminal_def Let_def planned_merge_Merge
      dest: plan_native_session_Merge
      split: option.splits if_splits sum.splits list.splits run_key.splits)

lemma mentions_run_insert:
  assumes "\<not> mentions_run m r" and "tr_run_id t \<noteq> r"
  shows "\<not> mentions_run (insert_task_run t m) r"
proof -
  have "hm_get (dm_run_ids_by_key (insert_task_run t m)) k \<noteq> Some r" for k
    using assms by (auto simp: mentions_run_def insert_task_run_def Let_def ensure_v6_state_def
        set_v6_state_def split: option.split)
  moreover have "get_v6_state (insert_task_run t m) r = None"
    using assms by (auto simp: mentions_run_def insert_task_run_def Let_def get_v6_state_def
        ensure_v6_state_def set_v6_state_def split: option.split)
  ultimately show ?thesis
    using assms by (auto simp: mentions_run_def insert_task_run_frame run_table.get_insert
        get_run_rate_totals_def get_run_rate_cursor_def get_telemetry_def get_run_kind_def)
qed

lemma merge_survivor_id:
  assumes "runs_keyed m" and "preflight_merge m s a = Inr g"
    and "get_task_run (merge_in_memory s a g n m) s = Some t"
  shows "tr_run_id t = s"
proof -
  note d = preflight_merge_D [OF assms(2)]
  obtain ts where ts: "get_task_run m s = Some ts" using d(2) by blast
  show ?thesis using inherit_runs(2) [OF assms(1) ts d(1), of n] assms(3) d(1) by (auto simp: merge_tables(1))
qed

text \<open>A merge does not rewrite the archives: the captured image of a run stays under its key and only
  its canonical run follows the merge; deferred activity stays as it is.\<close>

lemma fold_deferred:
  "dm_deferred_history_activity (fold_telemetry s a m) = dm_deferred_history_activity m"
  "dm_deferred_history_activity (fold_run_kind s a m) = dm_deferred_history_activity m"
  "dm_deferred_history_activity (fold_task_run_v6_state s a m) = dm_deferred_history_activity m"
  "dm_deferred_history_activity (fold_run_rate_totals s a m) = dm_deferred_history_activity m"
  "dm_deferred_history_activity (insert_task_run t m) = dm_deferred_history_activity m"
  by (simp_all add: fold_telemetry_def fold_run_kind_def fold_task_run_v6_state_def fold_run_rate_totals_def
      accumulate_run_rate_totals_def set_run_rate_totals_def with_diagnostics_def insert_task_run_def
      ensure_v6_state_def set_v6_state_def Let_def case_prod_beta split: option.split)

lemma merge_archives:
  "dm_history_run_publications (merge_in_memory s a g n m) =
     hm_map_values (\<lambda>p. if hp_canonical_run_id p = a then p\<lparr>hp_canonical_run_id := s\<rparr> else p)
       (dm_history_run_publications m)"
  "dm_deferred_history_activity (merge_in_memory s a g n m) = dm_deferred_history_activity m"
proof -
  show "dm_history_run_publications (merge_in_memory s a g n m) =
     hm_map_values (\<lambda>p. if hp_canonical_run_id p = a then p\<lparr>hp_canonical_run_id := s\<rparr> else p)
       (dm_history_run_publications m)"
    unfolding merge_tables(12) by (simp add: fold_task_run_v6_state_def Let_def inherit_frame)
  have "dm_deferred_history_activity (inherit_controller_evidence s a n m) = dm_deferred_history_activity m"
    by (simp add: inherit_controller_evidence_def fold_deferred split: option.split)
  then show "dm_deferred_history_activity (merge_in_memory s a g n m) = dm_deferred_history_activity m"
    by (simp add: merge_in_memory_def Let_def fold_insert_alias remove_task_run_record_def
        remove_run_rate_cursor_def fold_deferred)
qed

end
