(* ===== verification/Operator.thy ===== *)
theory Operator
  imports Persist_Ops
begin

text \<open>
  The operator projection of \<open>src/operator.rs\<close>: the private and the published activity list,
  the identities a submission leaves pending, the deferred history of a drain, and the
  snapshot on the watch channel. The list is proved sorted, free of repeated identities and
  bounded after every operation, and a private submission never reaches the snapshot.
\<close>

definition activity_limit :: nat where "activity_limit = 10000"

record operator_projection =
  op_activity :: "activity_item list"
  op_terminal_times :: "(run_id, i64) hmap"
  op_pending_identities :: "string list"
  op_deferred_pending_identities :: "string list"
  op_deferred_activity :: "(history_drain_id, string list) hmap"
  op_blocked_history_runs :: "run_id list"
  op_published_activity :: "activity_item list"
  op_published_terminal_times :: "(run_id, i64) hmap"
  op_published_pending_identities :: "string list"
  op_snapshot :: "activity_item list \<times> (run_id, i64) hmap"

section \<open>Normalization\<close>

text \<open>
  \<open>compare_activity\<close> orders by these components, each descending: a stable descending sort is
  the reverse of the stable ascending sort of the reversed list.
\<close>

definition activity_key :: "activity_item \<Rightarrow> i64 \<times> i64 \<times> bool \<times> u64 option \<times> string" where
  "activity_key i = (ai_event_timestamp_ms i, ai_seen_at_ms i, ai_ingest_seq i \<noteq> None,
     ai_ingest_seq i, ai_event_id i)"

definition sort_activity :: "activity_item list \<Rightarrow> activity_item list" where
  "sort_activity xs = rev (sort_key activity_key (rev xs))"

fun retain_new :: "string list \<Rightarrow> activity_item list \<Rightarrow> activity_item list" where
  "retain_new identities [] = []"
| "retain_new identities (i # is) =
     (if ai_event_id i \<in> set identities then retain_new identities is
      else i # retain_new (hs_insert (ai_event_id i) identities) is)"

definition normalize_activity :: "activity_item list \<Rightarrow> activity_item list" where
  "normalize_activity activity = take activity_limit (retain_new [] (sort_activity activity))"

section \<open>Projection of one event\<close>

definition project_metadata ::
  "event_metadata \<Rightarrow> string \<Rightarrow> i64 \<Rightarrow> bool \<Rightarrow> activity_item option" where
  "project_metadata md normalized_kind seen_at_ms controller_text =
     (if md_event_id md = [] \<or> md_source md = [] \<or> md_source_event_type md = [] then None
      else
        let provider = md_provider_metadata md;
            pick = (\<lambda>f. case provider of None \<Rightarrow> None | Some v \<Rightarrow> f v);
            pick_count = (\<lambda>f. case provider of None \<Rightarrow> None | Some v \<Rightarrow> f v)
        in Some
          \<lparr>ai_event_id = md_event_id md,
           ai_event_timestamp_ms = md_timestamp_ms md,
           ai_seen_at_ms = seen_at_ms,
           ai_ingest_seq = md_ingest_seq md,
           ai_source = md_source md,
           ai_normalized_kind = normalized_kind,
           ai_source_event_type = md_source_event_type md,
           ai_workspace_id = md_workspace_id md,
           ai_tab_id = md_tab_id md,
           ai_pane_id = md_pane_id md,
           ai_terminal_id = md_terminal_id md,
           ai_provider = md_provider md,
           ai_native_session_id = md_native_session_id md,
           ai_task_run_id = md_task_run_id md,
           ai_agent_node_id = md_agent_node_id md,
           ai_task_state = md_task_state md,
           ai_model_id = pick mp_model_id,
           ai_provider_event_kind = pick mp_event_kind,
           ai_tool_name = pick mp_tool_name,
           ai_item_count = pick_count mp_item_count,
           ai_byte_count = pick_count mp_byte_count,
           ai_provider_agent_id = pick mp_agent_id,
           ai_provider_parent_agent_id = pick mp_parent_agent_id,
           ai_controller_label =
             (if controller_text then map_option sanitize_controller_text (md_label md) else None),
           ai_controller_reason =
             (if controller_text then map_option sanitize_controller_text (md_reason md) else None),
           ai_durability = Durable\<rparr>)"

fun project_event :: "normalized_event \<Rightarrow> i64 \<Rightarrow> activity_item option" where
  "project_event (ControllerEvent md _) seen = project_metadata md ''controller_event'' seen True"
| "project_event (TopologyUpsert md _ _) seen = project_metadata md ''topology_upsert'' seen False"
| "project_event (TopologyClosure md _) seen = project_metadata md ''topology_closure'' seen False"
| "project_event (AgentStatusChanged md _ _) seen =
     project_metadata md ''agent_status_changed'' seen False"
| "project_event (AgentNodeUpsert md _) seen = project_metadata md ''agent_node_upsert'' seen False"
| "project_event (AgentActivity md _ _) seen = project_metadata md ''agent_activity'' seen False"
| "project_event (ExecutionBegin md _) seen = project_metadata md ''execution_begin'' seen False"
| "project_event (ExecutionEnd md _) seen = project_metadata md ''execution_end'' seen False"

section \<open>Application of a submission\<close>

definition apply_terminal_time ::
  "persist_task_run \<Rightarrow> (run_id, i64) hmap \<Rightarrow> (run_id, i64) hmap \<times> bool" where
  "apply_terminal_time persisted ended =
     (let run = tr_run_id (pt_task_run persisted) in
      if task_is_terminal (tr_state (pt_task_run persisted))
      then case hm_get ended run of
             Some _ \<Rightarrow> (ended, False)
           | None \<Rightarrow> (hm_put run
               (opt_unwrap_or (pt_updated_at_ms persisted) (pt_finished_at_ms persisted)) ended, True)
      else (hm_del run ended, hm_get ended run \<noteq> None))"

definition merge_terminal_times ::
  "run_id \<Rightarrow> run_id \<Rightarrow> (run_id, i64) hmap \<Rightarrow> (run_id, i64) hmap \<times> bool" where
  "merge_terminal_times survivor absorbed ended =
     (let survivor_time = hm_get ended survivor; ended = hm_del survivor ended;
          absorbed_time = hm_get ended absorbed; ended = hm_del absorbed ended;
          merged_time = (case (survivor_time, absorbed_time) of
              (Some left, Some right) \<Rightarrow> Some (min left right)
            | (Some time, None) \<Rightarrow> Some time
            | (None, Some time) \<Rightarrow> Some time
            | (None, None) \<Rightarrow> None);
          ended = (case merged_time of None \<Rightarrow> ended | Some time \<Rightarrow> hm_put survivor time ended)
      in (ended, absorbed_time \<noteq> None \<or> survivor_time \<noteq> merged_time))"

type_synonym submission_state =
  "activity_item list \<times> (run_id, i64) hmap \<times> bool \<times> string list"

definition project_operation :: "persist_op \<Rightarrow> submission_state \<Rightarrow> submission_state" where
  "project_operation operation st =
     (case (operation, st) of
        (RecordEvent event seen_at_ms, (activity, ended, changed, pending)) \<Rightarrow>
          (case project_event event seen_at_ms of
             None \<Rightarrow> st
           | Some item \<Rightarrow>
               (filter (\<lambda>existing. ai_event_id existing \<noteq> ai_event_id item) activity @ [item],
                ended, True, hs_insert (ai_event_id item) pending))
      | _ \<Rightarrow> st)"

definition rewrite_lineage :: "run_id \<Rightarrow> run_id \<Rightarrow> submission_state \<Rightarrow> submission_state" where
  "rewrite_lineage survivor absorbed st =
     (case st of (activity, ended, changed, pending) \<Rightarrow>
        let moved = filter (\<lambda>i. ai_task_run_id i = Some absorbed) activity;
            activity = map (\<lambda>i. if ai_task_run_id i = Some absorbed
                                then i\<lparr>ai_task_run_id := Some survivor\<rparr> else i) activity;
            pending = hs_extend pending (map ai_event_id moved);
            (ended, times_changed) = merge_terminal_times survivor absorbed ended
        in (activity, ended, changed \<or> moved \<noteq> [] \<or> times_changed, pending))"

definition apply_operation :: "persist_op \<Rightarrow> submission_state \<Rightarrow> submission_state" where
  "apply_operation operation st =
     (case operation of
        MergeTaskRuns survivor absorbed \<Rightarrow> rewrite_lineage survivor absorbed st
      | UpsertTaskRun task_run \<Rightarrow>
          (case st of (activity, ended, changed, pending) \<Rightarrow>
             let (ended, c) = apply_terminal_time task_run ended
             in (activity, ended, changed \<or> c, pending))
      | PromoteTaskRunKey promoted _ _ \<Rightarrow>
          (case st of (activity, ended, changed, pending) \<Rightarrow>
             let (ended, c) = apply_terminal_time promoted ended
             in (activity, ended, changed \<or> c, pending))
      | _ \<Rightarrow> st)"

definition apply_submission_to ::
  "persist_batch \<Rightarrow> activity_item list \<Rightarrow> (run_id, i64) hmap \<Rightarrow> submission_state" where
  "apply_submission_to batch activity ended =
     fold apply_operation batch (fold project_operation batch (activity, ended, False, []))"

section \<open>Publication\<close>

definition hm_same :: "('k, 'v) hmap \<Rightarrow> ('k, 'v) hmap \<Rightarrow> bool" where
  "hm_same a b \<longleftrightarrow> list_all (\<lambda>(k, v). hm_get b k = Some v) a
     \<and> list_all (\<lambda>(k, v). hm_get a k = Some v) b"

definition publish_operator :: "operator_projection \<Rightarrow> operator_projection" where
  "publish_operator self =
     (let next = (op_published_activity self, op_published_terminal_times self);
          current = op_snapshot self
      in if fst current = fst next \<and> hm_same (snd current) (snd next) then self
         else self\<lparr>op_snapshot := next\<rparr>)"

definition operator_new :: "activity_item list \<Rightarrow> (run_id, i64) hmap \<Rightarrow> operator_projection" where
  "operator_new activity terminal_times =
     (let activity = normalize_activity activity
      in \<lparr>op_activity = activity, op_terminal_times = terminal_times, op_pending_identities = [],
          op_deferred_pending_identities = [], op_deferred_activity = [],
          op_blocked_history_runs = [], op_published_activity = activity,
          op_published_terminal_times = terminal_times, op_published_pending_identities = [],
          op_snapshot = (activity, terminal_times)\<rparr>)"

definition finished_times :: "domain_model \<Rightarrow> (run_id, i64) hmap" where
  "finished_times m =
     fold (\<lambda>t ended. case tr_finished_at_ms t of None \<Rightarrow> ended
             | Some f \<Rightarrow> hm_put (tr_run_id t) f ended) (task_runs m) []"

definition restore_deferred_page ::
  "history_drain_id \<times> activity_item list \<Rightarrow> operator_projection \<Rightarrow> operator_projection" where
  "restore_deferred_page page self =
     (case page of (drain_id, items) \<Rightarrow>
        let identities = remdups (map ai_event_id items)
        in self\<lparr>op_activity :=
              filter (\<lambda>i. ai_event_id i \<notin> set identities) (op_activity self) @ items,
            op_deferred_activity := hm_put drain_id identities (op_deferred_activity self)\<rparr>)"

definition restore_deferred_history ::
  "(history_drain_id, activity_item list) hmap \<Rightarrow> domain_model \<Rightarrow> operator_projection
     \<Rightarrow> operator_projection" where
  "restore_deferred_history deferred m self =
     (let self = self\<lparr>op_blocked_history_runs := remdups (filter_map
            (\<lambda>t. if opt_is_some_and (\<lambda>s. \<not> v6_history_ready s) (get_v6_state m (tr_run_id t))
                 then Some (tr_run_id t) else None) (task_runs m)),
          op_terminal_times := finished_times m\<rparr>;
          self = fold restore_deferred_page deferred self
      in self\<lparr>op_activity := normalize_activity (op_activity self)\<rparr>)"

definition apply_submission :: "persist_batch \<Rightarrow> operator_projection \<Rightarrow> operator_projection" where
  "apply_submission batch self =
     (let (activity, ended, changed, pending) =
            apply_submission_to batch (op_activity self) (op_terminal_times self);
          (published, published_times, published_changed, published_pending) =
            apply_submission_to batch (op_published_activity self) (op_published_terminal_times self);
          self = self\<lparr>op_activity := (if changed then normalize_activity activity else activity),
            op_terminal_times := ended, op_pending_identities := pending,
            op_published_activity :=
              (if published_changed then normalize_activity published else published),
            op_published_terminal_times := published_times,
            op_published_pending_identities := published_pending\<rparr>
      in if published_changed then publish_operator self else self)"

definition apply_submission_without_publishing ::
  "history_drain_id \<Rightarrow> persist_batch \<Rightarrow> operator_projection \<Rightarrow> operator_projection" where
  "apply_submission_without_publishing drain_id batch self =
     (let (activity, ended, changed, pending) =
            apply_submission_to batch (op_activity self) (op_terminal_times self);
          self = self\<lparr>op_activity := activity, op_terminal_times := ended,
            op_deferred_pending_identities := pending,
            op_deferred_activity := hm_put drain_id
              (hs_extend (opt_unwrap_or [] (hm_get (op_deferred_activity self) drain_id)) pending)
              (op_deferred_activity self)\<rparr>
      in if changed
         then let activity = normalize_activity (op_activity self);
                  retained = map ai_event_id activity
              in self\<lparr>op_activity := activity,
                   op_deferred_activity := hm_map_values (filter (\<lambda>i. i \<in> set retained))
                     (op_deferred_activity self)\<rparr>
         else self)"

section \<open>Completion\<close>

fun activity_durability_of :: "runtime_write_outcome \<Rightarrow> activity_durability" where
  "activity_durability_of WriteDurable = Durable"
| "activity_durability_of (CommittedButDegraded _) = Durable"
| "activity_durability_of (NotCommitted _) = CurrentOnly"
| "activity_durability_of WriteSkipped = CurrentOnly"
| "activity_durability_of (WriteDurabilityUnknown _) = DurabilityUnknown"

definition reclassify_pending ::
  "string list \<Rightarrow> activity_durability \<Rightarrow> activity_item list \<Rightarrow> activity_item list \<times> bool" where
  "reclassify_pending pending durability activity =
     (map (\<lambda>i. if ai_event_id i \<in> set pending then i\<lparr>ai_durability := durability\<rparr> else i) activity,
      list_ex (\<lambda>i. ai_event_id i \<in> set pending \<and> ai_durability i \<noteq> durability) activity)"

definition complete_submission :: "runtime_write_outcome \<Rightarrow> operator_projection \<Rightarrow> operator_projection" where
  "complete_submission outcome self =
     (let durability = activity_durability_of outcome;
          activity = fst (reclassify_pending (op_pending_identities self) durability (op_activity self));
          (published, changed) =
            reclassify_pending (op_published_pending_identities self) durability
              (op_published_activity self);
          self = self\<lparr>op_activity := activity, op_published_activity := published,
            op_pending_identities := [], op_published_pending_identities := []\<rparr>
      in if changed then publish_operator self else self)"

definition complete_submission_without_publishing ::
  "runtime_write_outcome \<Rightarrow> operator_projection \<Rightarrow> operator_projection" where
  "complete_submission_without_publishing outcome self =
     (let self = self\<lparr>op_activity := fst (reclassify_pending (op_deferred_pending_identities self)
            (activity_durability_of outcome) (op_activity self))\<rparr>
      in if (case outcome of WriteDurable \<Rightarrow> True | CommittedButDegraded _ \<Rightarrow> True | _ \<Rightarrow> False)
         then self\<lparr>op_deferred_pending_identities := []\<rparr> else self)"

definition publish_accumulated ::
  "history_drain_id list \<Rightarrow> finalized_history_run list \<Rightarrow> domain_model \<Rightarrow> operator_projection
     \<Rightarrow> operator_projection" where
  "publish_accumulated completed_drains finalized_runs published_model self =
     (let self = self\<lparr>op_deferred_activity :=
            fold hm_del completed_drains (op_deferred_activity self),
          op_blocked_history_runs := fold (\<lambda>f blocked.
            if v6_history_ready (fr_state f) then hs_remove (fr_run_id f) blocked
            else hs_insert (fr_run_id f) blocked) finalized_runs (op_blocked_history_runs self)\<rparr>;
          hidden = remdups (concat (hm_values (op_deferred_activity self)));
          hidden = hs_extend hidden (filter_map
            (\<lambda>i. if opt_is_some_and (\<lambda>r. r \<in> set (op_blocked_history_runs self)) (ai_task_run_id i)
                 then Some (ai_event_id i) else None) (op_activity self));
          next = filter (\<lambda>i. ai_event_id i \<notin> set hidden) (op_activity self)
            @ filter (\<lambda>i. ai_event_id i \<in> set hidden) (op_published_activity self)
      in publish_operator (self\<lparr>op_published_activity := normalize_activity next,
           op_published_terminal_times := finished_times published_model,
           op_published_pending_identities := []\<rparr>))"

section \<open>The activity list stays normal\<close>

definition newest_first :: "activity_item list \<Rightarrow> bool" where
  "newest_first xs \<longleftrightarrow> sorted_wrt (\<lambda>a b. activity_key b \<le> activity_key a) xs"

definition activity_normal :: "activity_item list \<Rightarrow> bool" where
  "activity_normal xs \<longleftrightarrow> newest_first xs \<and> distinct (map ai_event_id xs) \<and> length xs \<le> activity_limit"

lemma newest_first_rev: "newest_first xs \<longleftrightarrow> sorted (map activity_key (rev xs))"
  by (simp add: newest_first_def sorted_wrt_map sorted_wrt_rev del: rev_map)

lemma sort_activity_newest: "newest_first (sort_activity xs)"
  by (simp add: newest_first_rev sort_activity_def del: rev_map)

lemma sort_activity_set [simp]: "set (sort_activity xs) = set xs"
  by (simp add: sort_activity_def)

lemma sort_activity_id: "newest_first xs \<Longrightarrow> sort_activity xs = xs"
  unfolding newest_first_rev sort_activity_def by (subst sort_key_id_if_sorted) simp_all

lemma retain_new_set:
  "set (retain_new s xs) \<subseteq> {i \<in> set xs. ai_event_id i \<notin> set s}"
  by (induction s xs rule: retain_new.induct) auto

lemma retain_new_distinct: "distinct (map ai_event_id (retain_new s xs))"
proof (induction s xs rule: retain_new.induct)
  case (2 s i xs)
  then show ?case using retain_new_set [of "hs_insert (ai_event_id i) s" xs] by auto
qed simp

lemma retain_new_newest: "newest_first xs \<Longrightarrow> newest_first (retain_new s xs)"
proof (induction s xs rule: retain_new.induct)
  case (2 s i xs)
  then show ?case
    using retain_new_set [of "hs_insert (ai_event_id i) s" xs] by (auto simp: newest_first_def)
qed simp

lemma retain_new_id:
  "distinct (map ai_event_id xs) \<Longrightarrow> ai_event_id ` set xs \<inter> set s = {} \<Longrightarrow> retain_new s xs = xs"
  by (induction s xs rule: retain_new.induct) auto

text \<open>The retained item of an identity is its newest one.\<close>

lemma retain_new_keeps:
  "newest_first xs \<Longrightarrow> x \<in> set xs \<Longrightarrow> ai_event_id x \<notin> set s \<Longrightarrow>
     \<exists>y \<in> set (retain_new s xs). ai_event_id y = ai_event_id x \<and> activity_key x \<le> activity_key y"
proof (induction s xs rule: retain_new.induct)
  case (2 s i xs)
  show ?case
  proof (cases "ai_event_id i \<in> set s")
    case True
    with 2 show ?thesis by (auto simp: newest_first_def)
  next
    case False
    show ?thesis
    proof (cases "ai_event_id x = ai_event_id i")
      case True
      with False 2(3,4) show ?thesis by (auto simp: newest_first_def)
    next
      case neq: False
      with 2 False have "\<exists>y \<in> set (retain_new (hs_insert (ai_event_id i) s) xs).
          ai_event_id y = ai_event_id x \<and> activity_key x \<le> activity_key y"
        by (intro 2(2)) (auto simp: newest_first_def)
      with False show ?thesis by auto
    qed
  qed
qed simp

lemma newest_first_take: "newest_first xs \<Longrightarrow> newest_first (take n xs)"
  by (simp add: newest_first_def sorted_wrt_take)

lemma normalize_normal: "activity_normal (normalize_activity xs)"
  unfolding activity_normal_def normalize_activity_def
  by (simp add: newest_first_take retain_new_newest sort_activity_newest retain_new_distinct
      take_map [symmetric])

lemma normalize_id: "activity_normal xs \<Longrightarrow> normalize_activity xs = xs"
  by (simp add: activity_normal_def normalize_activity_def sort_activity_id retain_new_id)

lemma normalize_subset: "set (normalize_activity xs) \<subseteq> set xs"
  using set_take_subset [of activity_limit "retain_new [] (sort_activity xs)"]
    retain_new_set [of "[]" "sort_activity xs"]
  by (auto simp: normalize_activity_def)

lemma normalize_keeps_newest:
  assumes "x \<in> set xs"
  shows "(\<exists>y \<in> set (normalize_activity xs). ai_event_id y = ai_event_id x \<and> activity_key x \<le> activity_key y)
    \<or> (length (normalize_activity xs) = activity_limit
       \<and> (\<forall>y \<in> set (normalize_activity xs). activity_key x \<le> activity_key y))"
proof -
  let ?r = "retain_new [] (sort_activity xs)"
  obtain y where y: "y \<in> set ?r" "ai_event_id y = ai_event_id x" "activity_key x \<le> activity_key y"
    using retain_new_keeps [OF sort_activity_newest [of xs], of x "[]"] assms by auto
  show ?thesis
  proof (cases "y \<in> set (take activity_limit ?r)")
    case True
    with y show ?thesis by (auto simp: normalize_activity_def)
  next
    case False
    then have d: "y \<in> set (drop activity_limit ?r)"
      using y(1) by (metis Un_iff append_take_drop_id set_append)
    then have "activity_limit \<le> length ?r" by (cases "activity_limit \<le> length ?r") auto
    moreover have "newest_first (take activity_limit ?r @ drop activity_limit ?r)"
      using retain_new_newest [OF sort_activity_newest [of xs], of "[]"] by simp
    then have "\<forall>z \<in> set (take activity_limit ?r). activity_key y \<le> activity_key z"
      using d unfolding newest_first_def sorted_wrt_append by blast
    ultimately show ?thesis using y(3) by (auto simp: normalize_activity_def intro: order_trans)
  qed
qed

section \<open>Every operation keeps the projection normal and the channel in step\<close>

text \<open>A submission that reports no change changed nothing.\<close>

definition quiet :: "submission_state \<Rightarrow> submission_state \<Rightarrow> bool" where
  "quiet st st' \<longleftrightarrow> (\<not> fst (snd (snd st')) \<longrightarrow>
     \<not> fst (snd (snd st)) \<and> fst st' = fst st \<and> hm_get (fst (snd st')) = hm_get (fst (snd st)))"

lemma quiet_trans: "quiet a b \<Longrightarrow> quiet b c \<Longrightarrow> quiet a c"
  by (auto simp: quiet_def)

lemma quiet_fold: "(\<And>x s. quiet s (f x s)) \<Longrightarrow> quiet s (fold f xs s)"
proof (induction xs arbitrary: s)
  case Nil
  then show ?case by (simp add: quiet_def)
next
  case (Cons x xs)
  have "quiet (f x s) (fold f xs (f x s))" by (rule Cons.IH) (rule Cons.prems)
  from quiet_trans [OF Cons.prems this] show ?case by simp
qed

lemma quiet_project: "quiet st (project_operation op st)"
  by (cases op; cases st) (auto simp: project_operation_def quiet_def split: option.split)

lemma apply_terminal_time_quiet:
  "\<not> snd (apply_terminal_time p t) \<Longrightarrow> hm_get (fst (apply_terminal_time p t)) = hm_get t"
  by (auto simp: apply_terminal_time_def Let_def fun_eq_iff split: option.splits if_splits)

lemma merge_terminal_times_quiet:
  "\<not> snd (merge_terminal_times s a t) \<Longrightarrow> hm_get (fst (merge_terminal_times s a t)) = hm_get t"
  by (cases "hm_get t s"; cases "hm_get (hm_del s t) a")
    (auto simp: merge_terminal_times_def Let_def fun_eq_iff simp del: map_of_eq_Some_iff)

lemma quiet_terminal_time:
  "quiet (xs, t, c, p) (let (ended, changed) = apply_terminal_time q t in (xs, ended, c \<or> changed, p))"
  using apply_terminal_time_quiet [of q t] by (simp add: quiet_def case_prod_beta)

lemma quiet_lineage: "quiet (xs, t, c, p) (rewrite_lineage s a (xs, t, c, p))"
proof -
  have "map (\<lambda>i. if ai_task_run_id i = Some a then i\<lparr>ai_task_run_id := Some s\<rparr> else i) xs = xs"
    if "filter (\<lambda>i. ai_task_run_id i = Some a) xs = []"
    by (rule map_idI) (use that in \<open>auto simp: filter_empty_conv\<close>)
  then show ?thesis
    using merge_terminal_times_quiet [of s a t] by (simp add: rewrite_lineage_def quiet_def Let_def case_prod_beta)
qed

lemma quiet_apply: "quiet st (apply_operation op st)"
proof (cases st)
  case (fields xs t c p)
  have same: "quiet st st" by (simp add: quiet_def)
  show ?thesis
    by (cases op) (simp_all only: apply_operation_def persist_op.case fields prod.case quiet_terminal_time
        quiet_lineage same [unfolded fields])
qed

lemma apply_submission_quiet:
  assumes "apply_submission_to batch xs t = (xs', t', changed, pending)" and "\<not> changed"
  shows "xs' = xs" and "hm_get t' = hm_get t"
proof -
  have "quiet (xs, t, False, []) (xs', t', changed, pending)"
    unfolding assms(1) [symmetric] apply_submission_to_def
    by (rule quiet_trans [OF quiet_fold [OF quiet_project] quiet_fold [OF quiet_apply]])
  with assms(2) show "xs' = xs" "hm_get t' = hm_get t" by (auto simp: quiet_def)
qed

definition operator_ok :: "operator_projection \<Rightarrow> bool" where
  "operator_ok o1 \<longleftrightarrow> activity_normal (op_activity o1) \<and> activity_normal (op_published_activity o1)
     \<and> fst (op_snapshot o1) = op_published_activity o1
     \<and> hm_get (snd (op_snapshot o1)) = hm_get (op_published_terminal_times o1)"

lemma hm_same_get: "hm_same a b \<Longrightarrow> hm_get a = hm_get b"
proof
  fix k
  assume same: "hm_same a b"
  show "hm_get a k = hm_get b k"
  proof (cases "hm_get a k")
    case (Some v)
    then have "(k, v) \<in> set a" by (rule map_of_SomeD)
    with same Some show ?thesis by (fastforce simp: hm_same_def list_all_iff simp del: map_of_eq_Some_iff)
  next
    case None
    show ?thesis
    proof (cases "hm_get b k")
      case (Some w)
      then have "(k, w) \<in> set b" by (rule map_of_SomeD)
      with same None show ?thesis by (fastforce simp: hm_same_def list_all_iff simp del: map_of_eq_Some_iff)
    qed (simp add: None)
  qed
qed

lemma publish_operator_sync:
  "fst (op_snapshot (publish_operator o1)) = op_published_activity (publish_operator o1)"
  "hm_get (snd (op_snapshot (publish_operator o1))) = hm_get (op_published_terminal_times (publish_operator o1))"
  by (auto simp: publish_operator_def Let_def dest: hm_same_get)

lemma publish_operator_frame [frame, simp]:
  "op_activity (publish_operator o1) = op_activity o1"
  "op_published_activity (publish_operator o1) = op_published_activity o1"
  "op_published_terminal_times (publish_operator o1) = op_published_terminal_times o1"
  by (simp_all add: publish_operator_def Let_def)

lemma publish_operator_ok:
  "activity_normal (op_activity o1) \<Longrightarrow> activity_normal (op_published_activity o1)
     \<Longrightarrow> operator_ok (publish_operator o1)"
  using publish_operator_sync [of o1] by (simp add: operator_ok_def)

lemma reclassify_normal: "activity_normal xs \<Longrightarrow> activity_normal (fst (reclassify_pending p d xs))"
proof -
  let ?f = "\<lambda>i. if ai_event_id i \<in> set p then i\<lparr>ai_durability := d\<rparr> else i"
  have key: "activity_key (?f i) = activity_key i" "ai_event_id (?f i) = ai_event_id i" for i
    by (simp_all add: activity_key_def)
  have ids: "map ai_event_id (map ?f xs) = map ai_event_id xs" by (simp add: key(2) comp_def)
  show "activity_normal xs \<Longrightarrow> activity_normal (fst (reclassify_pending p d xs))"
    unfolding activity_normal_def reclassify_pending_def fst_conv newest_first_def sorted_wrt_map key ids
    by simp
qed

lemma reclassify_quiet:
  "\<not> snd (reclassify_pending p d xs) \<Longrightarrow> fst (reclassify_pending p d xs) = xs"
  by (induction xs) (auto simp: reclassify_pending_def)

lemma operator_new_ok: "operator_ok (operator_new xs t)"
  by (simp add: operator_new_def operator_ok_def Let_def normalize_normal)

lemma restore_deferred_frame [frame, simp]:
  "op_published_activity (fold restore_deferred_page d o1) = op_published_activity o1"
  "op_published_terminal_times (fold restore_deferred_page d o1) = op_published_terminal_times o1"
  "op_snapshot (fold restore_deferred_page d o1) = op_snapshot o1"
  by (induction d arbitrary: o1) (auto simp: restore_deferred_page_def Let_def split: prod.split)

lemma restore_deferred_ok: "operator_ok o1 \<Longrightarrow> operator_ok (restore_deferred_history d m o1)"
  by (simp add: restore_deferred_history_def Let_def operator_ok_def normalize_normal)

lemma apply_submission_ok:
  assumes "operator_ok o1"
  shows "operator_ok (apply_submission batch o1)"
proof -
  obtain xs t c p where a: "apply_submission_to batch (op_activity o1) (op_terminal_times o1) = (xs, t, c, p)"
    by (cases "apply_submission_to batch (op_activity o1) (op_terminal_times o1)")
  obtain ys u d q where b: "apply_submission_to batch (op_published_activity o1)
      (op_published_terminal_times o1) = (ys, u, d, q)"
    by (cases "apply_submission_to batch (op_published_activity o1) (op_published_terminal_times o1)")
  note ok = assms [unfolded operator_ok_def]
  have xs: "activity_normal (if c then normalize_activity xs else xs)"
    using ok apply_submission_quiet(1) [OF a] by (simp add: normalize_normal)
  show ?thesis
  proof (cases d)
    case True
    show ?thesis
      unfolding apply_submission_def a b Let_def prod.case if_P [OF True]
      by (rule publish_operator_ok) (simp_all add: xs normalize_normal del: if_split)
  next
    case False
    with apply_submission_quiet [OF b] xs ok show ?thesis
      unfolding apply_submission_def a b Let_def prod.case if_not_P [OF False] operator_ok_def
      by simp
  qed
qed

lemma apply_private_ok:
  assumes "operator_ok o1"
  shows "operator_ok (apply_submission_without_publishing drain batch o1)"
proof -
  obtain xs t c p where a: "apply_submission_to batch (op_activity o1) (op_terminal_times o1) = (xs, t, c, p)"
    by (cases "apply_submission_to batch (op_activity o1) (op_terminal_times o1)")
  show ?thesis
    using assms apply_submission_quiet(1) [OF a]
    unfolding apply_submission_without_publishing_def a Let_def prod.case
    by (cases c) (simp_all add: operator_ok_def normalize_normal)
qed

lemma complete_submission_ok:
  assumes "operator_ok o1"
  shows "operator_ok (complete_submission outcome o1)"
proof -
  let ?d = "activity_durability_of outcome"
  obtain ys c where b: "reclassify_pending (op_published_pending_identities o1) ?d (op_published_activity o1) = (ys, c)"
    by (cases "reclassify_pending (op_published_pending_identities o1) ?d (op_published_activity o1)")
  note ok = assms [unfolded operator_ok_def]
  have ys: "activity_normal ys" using reclassify_normal [of "op_published_activity o1"] ok b by (metis fst_conv)
  have xs: "activity_normal (fst (reclassify_pending (op_pending_identities o1) ?d (op_activity o1)))"
    using reclassify_normal ok by blast
  show ?thesis
  proof (cases c)
    case True
    show ?thesis
      unfolding complete_submission_def Let_def b prod.case if_P [OF True]
      by (rule publish_operator_ok) (simp_all add: xs ys)
  next
    case False
    then have "ys = op_published_activity o1"
      using reclassify_quiet [of "op_published_pending_identities o1" ?d "op_published_activity o1"] b by simp
    with xs ok show ?thesis
      unfolding complete_submission_def Let_def b prod.case if_not_P [OF False] operator_ok_def by simp
  qed
qed

lemma complete_private_ok:
  "operator_ok o1 \<Longrightarrow> operator_ok (complete_submission_without_publishing outcome o1)"
  by (auto simp: complete_submission_without_publishing_def Let_def operator_ok_def reclassify_normal)

lemma publish_accumulated_ok:
  assumes "operator_ok o1"
  shows "operator_ok (publish_accumulated drains runs m o1)"
  using assms unfolding publish_accumulated_def Let_def
  by (intro publish_operator_ok) (simp_all add: operator_ok_def normalize_normal)

text \<open>A private submission and its completion never touch what is published.\<close>

lemma private_submission_hidden:
  "op_snapshot (apply_submission_without_publishing drain batch o1) = op_snapshot o1"
  "op_published_activity (apply_submission_without_publishing drain batch o1) = op_published_activity o1"
  "op_snapshot (complete_submission_without_publishing outcome o1) = op_snapshot o1"
  "op_published_activity (complete_submission_without_publishing outcome o1) = op_published_activity o1"
  by (auto simp: apply_submission_without_publishing_def complete_submission_without_publishing_def
      Let_def split: prod.split)

end
