(* ===== verification/Transitions.thy ===== *)
theory Transitions
  imports Merge_Laws Operator
begin

text \<open>
  The pure functions of \<open>src/reducer.rs\<close>: task-state and execution-state transitions, the
  names and targets of Controller events, native bindings, the rewriting of a batch after
  merges, and the text identities of runs. The text form of a \<open>RunId\<close> is an argument.
\<close>

definition source_log_lane :: string where "source_log_lane = ''provider-log''"
definition stale_grace_ms :: i64 where "stale_grace_ms = 30000"

section \<open>Controller events\<close>

datatype reject_reason = Invalid | Cycle | Rejected_Conflict | StaleEvent | UnsupportedVersion

fun reject_merge_conflict :: "merge_conflict \<Rightarrow> reject_reason" where
  "reject_merge_conflict (DispatchSelfEdge _) = Cycle"
| "reject_merge_conflict (DependencySelfEdge _) = Cycle"
| "reject_merge_conflict DispatchCycle = Cycle"
| "reject_merge_conflict DependencyCycle = Cycle"
| "reject_merge_conflict _ = Rejected_Conflict"

fun controller_kind_name :: "controller_event_kind \<Rightarrow> string" where
  "controller_kind_name (CtlDispatch _) = ''dispatch''"
| "controller_kind_name CtlTaskStarted = ''task_started''"
| "controller_kind_name (CtlDependsOn _) = ''depends_on''"
| "controller_kind_name CtlBlocked = ''blocked''"
| "controller_kind_name CtlProgress = ''progress''"
| "controller_kind_name CtlComplete = ''complete''"
| "controller_kind_name CtlFailed = ''failed''"
| "controller_kind_name CtlCancelled = ''cancelled''"
| "controller_kind_name CtlSessionEnded = ''session_ended''"
| "controller_kind_name CtlDismiss = ''dismiss''"

fun controller_target_state :: "controller_event_kind \<Rightarrow> task_state option" where
  "controller_target_state (CtlDispatch _) = None"
| "controller_target_state (CtlDependsOn _) = None"
| "controller_target_state CtlSessionEnded = None"
| "controller_target_state CtlDismiss = None"
| "controller_target_state CtlTaskStarted = Some Running"
| "controller_target_state CtlBlocked = Some Blocked"
| "controller_target_state CtlProgress = Some Queued"
| "controller_target_state CtlComplete = Some Completed"
| "controller_target_state CtlFailed = Some Failed"
| "controller_target_state CtlCancelled = Some Cancelled"

fun event_metadata :: "normalized_event \<Rightarrow> event_metadata" where
  "event_metadata (ControllerEvent md _) = md"
| "event_metadata (TopologyUpsert md _ _) = md"
| "event_metadata (TopologyClosure md _) = md"
| "event_metadata (AgentStatusChanged md _ _) = md"
| "event_metadata (AgentNodeUpsert md _) = md"
| "event_metadata (AgentActivity md _ _) = md"
| "event_metadata (ExecutionBegin md _) = md"
| "event_metadata (ExecutionEnd md _) = md"

text \<open>\<open>event_metadata_mut\<close>: the caller's mutation is the function \<open>f\<close>.\<close>

fun map_event_metadata ::
  "(event_metadata \<Rightarrow> event_metadata) \<Rightarrow> normalized_event \<Rightarrow> normalized_event" where
  "map_event_metadata f (ControllerEvent md k) = ControllerEvent (f md) k"
| "map_event_metadata f (TopologyUpsert md a e) = TopologyUpsert (f md) a e"
| "map_event_metadata f (TopologyClosure md i) = TopologyClosure (f md) i"
| "map_event_metadata f (AgentStatusChanged md i s) = AgentStatusChanged (f md) i s"
| "map_event_metadata f (AgentNodeUpsert md n) = AgentNodeUpsert (f md) n"
| "map_event_metadata f (AgentActivity md i a) = AgentActivity (f md) i a"
| "map_event_metadata f (ExecutionBegin md e) = ExecutionBegin (f md) e"
| "map_event_metadata f (ExecutionEnd md i) = ExecutionEnd (f md) i"

section \<open>Task and execution states\<close>

datatype legacy_controller_event_kind =
  LegacyStarted | LegacyBlocked | LegacyProgress | LegacyComplete | LegacyFailed
| LegacyCancelled | LegacyOther

definition legacy_event_kind :: "string \<Rightarrow> legacy_controller_event_kind" where
  "legacy_event_kind t =
     (if t = ''task_started'' then LegacyStarted
      else if t = ''blocked'' then LegacyBlocked
      else if t = ''progress'' then LegacyProgress
      else if t = ''complete'' then LegacyComplete
      else if t = ''failed'' then LegacyFailed
      else if t = ''cancelled'' then LegacyCancelled
      else LegacyOther)"

definition initial_controller_state :: "string \<Rightarrow> task_state \<Rightarrow> task_state" where
  "initial_controller_state source_event_type supplied =
     (case legacy_event_kind source_event_type of
        LegacyStarted \<Rightarrow> Running | LegacyBlocked \<Rightarrow> Blocked | LegacyProgress \<Rightarrow> Queued
      | LegacyComplete \<Rightarrow> Completed | LegacyFailed \<Rightarrow> Failed | LegacyCancelled \<Rightarrow> Cancelled
      | LegacyOther \<Rightarrow> supplied)"

definition terminal_transition :: "task_state \<Rightarrow> task_state \<Rightarrow> task_state" where
  "terminal_transition current target =
     (if current \<in> {Completed, Failed, Cancelled} \<and> current \<noteq> target then current else target)"

definition controller_task_transition ::
  "task_state \<Rightarrow> string \<Rightarrow> task_state \<Rightarrow> bool \<Rightarrow> task_state" where
  "controller_task_transition current source_event_type supplied allow_lane_reopen =
     (case legacy_event_kind source_event_type of
        LegacyStarted \<Rightarrow>
          if current \<in> {Queued, Blocked, EndedUnknown} then Running
          else if current \<in> {Completed, Cancelled} \<and> allow_lane_reopen then Running
          else current
      | LegacyBlocked \<Rightarrow> if current \<in> {Queued, Running, EndedUnknown} then Blocked else current
      | LegacyProgress \<Rightarrow> if current = EndedUnknown then Running else current
      | LegacyComplete \<Rightarrow> terminal_transition current Completed
      | LegacyFailed \<Rightarrow> terminal_transition current Failed
      | LegacyCancelled \<Rightarrow> terminal_transition current Cancelled
      | LegacyOther \<Rightarrow>
          (case supplied of
             Completed \<Rightarrow> terminal_transition current supplied
           | Failed \<Rightarrow> terminal_transition current supplied
           | Cancelled \<Rightarrow> terminal_transition current supplied
           | Running \<Rightarrow> if current \<in> {Queued, Blocked, EndedUnknown} then Running else current
           | Blocked \<Rightarrow> if current \<in> {Queued, Running, EndedUnknown} then Blocked else current
           | Queued \<Rightarrow> if current = EndedUnknown then Running else current
           | EndedUnknown \<Rightarrow> current))"

definition next_execution_state :: "exec_state \<Rightarrow> exec_state \<Rightarrow> event_metadata \<Rightarrow> exec_state" where
  "next_execution_state current observed md =
     (if md_source md = ''herdr'' \<and> md_source_event_type md = ''done''
      then (if exec_is_terminal current then ExecEnded else ExecIdle)
      else case observed of
        ExecStale _ \<Rightarrow>
          (case current of
             ExecEnded \<Rightarrow> ExecEnded
           | ExecStale since_ms \<Rightarrow>
               if stale_grace_ms \<le> i64_saturating_sub (md_receipt_time_ms md) since_ms
               then ExecEnded else ExecStale since_ms
           | _ \<Rightarrow> ExecStale (md_receipt_time_ms md))
      | ExecEnded \<Rightarrow> ExecEnded
      | state \<Rightarrow> if exec_is_terminal current then ExecEnded else state)"

section \<open>Batches after merges\<close>

text \<open>The bounded loop of the lineage rewriting: at most \<open>fuel\<close> steps along the merges.\<close>

fun follow_merges :: "nat \<Rightarrow> (run_id, run_id) hmap \<Rightarrow> run_id \<Rightarrow> run_id" where
  "follow_merges 0 merged_into r = r"
| "follow_merges (Suc fuel) merged_into r =
     (case hm_get merged_into r of
        None \<Rightarrow> r
      | Some survivor \<Rightarrow> follow_merges fuel merged_into survivor)"

fun normalize_lineage :: "(run_id, run_id) hmap \<Rightarrow> persist_batch \<Rightarrow> persist_batch" where
  "normalize_lineage merged_into [] = []"
| "normalize_lineage merged_into (MergeTaskRuns survivor absorbed # ops) =
     MergeTaskRuns survivor absorbed # normalize_lineage (hm_put absorbed survivor merged_into) ops"
| "normalize_lineage merged_into (RecordEvent event seen # ops) =
     (case md_task_run_id (event_metadata event) of
        None \<Rightarrow> RecordEvent event seen # normalize_lineage merged_into ops
      | Some r \<Rightarrow>
          RecordEvent (map_event_metadata
            (\<lambda>md. md\<lparr>md_task_run_id := Some (follow_merges (length merged_into) merged_into r)\<rparr>)
            event) seen # normalize_lineage merged_into ops)"
| "normalize_lineage merged_into (op # ops) = op # normalize_lineage merged_into ops"

definition normalize_persist_batch_lineage :: "persist_batch \<Rightarrow> persist_batch" where
  "normalize_persist_batch_lineage batch = normalize_lineage [] batch"

definition canonical_run_after_batch :: "run_id \<Rightarrow> persist_batch \<Rightarrow> run_id" where
  "canonical_run_after_batch r batch =
     fold (\<lambda>op r. case op of
         MergeTaskRuns survivor absorbed \<Rightarrow> if absorbed = r then survivor else r
       | _ \<Rightarrow> r) batch r"

section \<open>Bindings, keys and names\<close>

definition native_session_of :: "provider \<times> string \<Rightarrow> native_session_binding" where
  "native_session_of b = \<lparr>nb_provider = fst b, nb_native_session_id = snd b\<rparr>"

definition native_binding :: "domain_model \<Rightarrow> run_id \<Rightarrow> native_session_binding option" where
  "native_binding m r =
     (let bound = first_of (filter_map
            (\<lambda>(key, owner). if owner \<noteq> r then None else map_option native_session_of (native_of key))
            (dm_run_ids_by_key m))
      in if bound \<noteq> None then bound
         else case filter_map
                (\<lambda>n. map_option (\<lambda>sid. native_session_of (an_provider n, sid)) (an_native_session_id n))
                (filter (\<lambda>n. an_task_run_id n = r) (agent_nodes m)) of
              [] \<Rightarrow> None
            | first # bindings \<Rightarrow> if list_all (\<lambda>b. b = first) bindings then Some first else None)"

definition deterministic_agent_node_id :: "provider \<Rightarrow> string \<Rightarrow> string" where
  "deterministic_agent_node_id p sid =
     ''agent:'' @ (case p of Claude \<Rightarrow> ''claude'' | Codex \<Rightarrow> ''codex'') @ '':'' @ sid"

definition provisional_key :: "string \<Rightarrow> i64 \<Rightarrow> display_ordinal \<Rightarrow> run_key" where
  "provisional_key terminal_id timestamp_ms ordinal =
     Provisional terminal_id timestamp_ms (opt_unwrap_or 0 (u64_try_from (ordinal_get ordinal)))"

definition persist_execution_op :: "execution \<Rightarrow> i64 \<Rightarrow> persist_op" where
  "persist_execution_op e timestamp_ms =
     UpsertExecution \<lparr>pe_execution = e, pe_started_at_ms = timestamp_ms,
       pe_updated_at_ms = timestamp_ms,
       pe_ended_at_ms = (if exec_is_terminal (ex_state e) then Some timestamp_ms else None)\<rparr>"

definition provider_from_name :: "string \<Rightarrow> provider option" where
  "provider_from_name name =
     (let normalized = str_lower name in
      if str_contains normalized ''codex'' then Some Codex
      else if str_contains normalized ''claude'' then Some Claude else None)"

definition snapshot_provider :: "string \<Rightarrow> string option \<Rightarrow> provider option" where
  "snapshot_provider agent_name session_agent =
     opt_or (case session_agent of None \<Rightarrow> None | Some a \<Rightarrow> provider_from_name a)
       (provider_from_name agent_name)"

definition stable_provider_token :: "provider \<Rightarrow> string" where
  "stable_provider_token p = (case p of Claude \<Rightarrow> ''claude'' | Codex \<Rightarrow> ''codex'')"

fun stable_provider_lifecycle_run_key_identity :: "run_key \<Rightarrow> string" where
  "stable_provider_lifecycle_run_key_identity (Controller i) =
     ''v1:controller:'' @ nat_text (length i) @ '':'' @ i"
| "stable_provider_lifecycle_run_key_identity (Native p sid) =
     ''v1:native:'' @ stable_provider_token p @ '':'' @ nat_text (length sid) @ '':'' @ sid"
| "stable_provider_lifecycle_run_key_identity (NativePath p path) =
     ''v1:native-path:'' @ stable_provider_token p @ '':'' @ nat_text (length path) @ '':'' @ path"
| "stable_provider_lifecycle_run_key_identity (Provisional terminal start_ms seq) =
     ''v1:provisional:'' @ nat_text (length terminal) @ '':'' @ terminal @ '':''
       @ int_text start_ms @ '':'' @ nat_text seq"

definition stamp_and_touch :: "i64 \<Rightarrow> task_run \<Rightarrow> task_run" where
  "stamp_and_touch timestamp_ms t =
     touch_task_run timestamp_ms
       (t\<lparr>tr_created_at_ms := Some (opt_unwrap_or timestamp_ms (tr_created_at_ms t))\<rparr>)"

definition run_bookkeeping_time_ms :: "event_metadata \<Rightarrow> i64" where
  "run_bookkeeping_time_ms md =
     (if md_source md = source_log_lane then md_timestamp_ms md else md_receipt_time_ms md)"

definition persist_task_run :: "domain_model \<Rightarrow> task_run \<Rightarrow> i64 \<Rightarrow> persist_op" where
  "persist_task_run m t timestamp_ms =
     UpsertTaskRun \<lparr>pt_task_run = t, pt_native_session = native_binding m (tr_run_id t),
       pt_created_at_ms = opt_unwrap_or timestamp_ms (tr_created_at_ms t),
       pt_updated_at_ms = opt_unwrap_or timestamp_ms (tr_updated_at_ms t),
       pt_finished_at_ms = tr_finished_at_ms t\<rparr>"

section \<open>Laws of the transitions\<close>

lemma terminal_transition_sticky:
  "current \<in> {Completed, Failed, Cancelled} \<Longrightarrow> terminal_transition current target = current"
  by (auto simp: terminal_transition_def)

text \<open>A semantic end is final: no Controller event changes it unless a lane reopening is allowed.\<close>

lemma controller_transition_sticky:
  "current \<in> {Completed, Failed, Cancelled} \<Longrightarrow>
     controller_task_transition current source_event_type supplied False = current"
  by (auto simp: controller_task_transition_def terminal_transition_sticky
      split: legacy_controller_event_kind.split task_state.split)

lemma next_execution_state_ended: "next_execution_state ExecEnded observed md = ExecEnded"
  by (auto simp: next_execution_state_def split: exec_state.split)

text \<open>Only an end, or a stale observation past the grace, ends an execution that is alive.\<close>

lemma next_execution_state_ends_iff:
  "current \<noteq> ExecEnded \<Longrightarrow> next_execution_state current observed md = ExecEnded \<longleftrightarrow>
     \<not> (md_source md = ''herdr'' \<and> md_source_event_type md = ''done'')
     \<and> (observed = ExecEnded \<or> (\<exists>s t. observed = ExecStale s \<and> current = ExecStale t
          \<and> stale_grace_ms \<le> i64_saturating_sub (md_receipt_time_ms md) t))"
  by (cases current; cases observed) (auto simp: next_execution_state_def)

lemma next_execution_state_keeps_since:
  "next_execution_state (ExecStale since) (ExecStale s) md \<in> {ExecStale since, ExecEnded, ExecIdle}"
  by (auto simp: next_execution_state_def)

lemma normalize_lineage_length: "length (normalize_lineage mp batch) = length batch"
  by (induction mp batch rule: normalize_lineage.induct) (auto split: option.split)

end
