(* ===== verification/Text_Keys.thy ===== *)
theory Text_Keys
  imports Publication Transitions
begin

text \<open>
  The text identities of run keys are injective: every variable part is preceded by its length,
  so no two keys share an identity. The reducer orders the aliases of a captured run by one of
  them and breaks ties between lifecycle watermarks by the other. The second part shows that the
  bounded loop along the merges of a batch always reaches the surviving run.
\<close>

section \<open>Decimal numbers\<close>

definition is_digit :: "char \<Rightarrow> bool" where
  "is_digit c \<longleftrightarrow> (\<exists>d < 10. c = char_of (48 + d :: nat))"

lemma is_digit_char: "d < 10 \<Longrightarrow> is_digit (char_of (48 + d :: nat))"
  by (auto simp only: is_digit_def)

lemma not_digit [simp]: "\<not> is_digit CHR '':''" "\<not> is_digit CHR ''-''"
  unfolding is_digit_def by (auto dest!: arg_cong [where f = "of_char :: char \<Rightarrow> nat"])

lemma nat_text_digits: "c \<in> set (nat_text n) \<Longrightarrow> is_digit c"
proof (induction n rule: nat_text.induct)
  case (1 n)
  then show ?case
    by (subst (asm) (2) nat_text.simps) (auto simp: is_digit_char split: if_splits)
qed

fun nat_value :: "string \<Rightarrow> nat" where
  "nat_value [] = 0"
| "nat_value (c # cs) = (of_char c - 48) * 10 ^ length cs + nat_value cs"

lemma nat_value_snoc: "nat_value (xs @ [c]) = nat_value xs * 10 + (of_char c - 48)"
  by (induction xs) (auto simp: algebra_simps)

lemma nat_value_text: "nat_value (nat_text n) = n"
proof (induction n rule: nat_text.induct)
  case (1 n)
  show ?case
  proof (cases "n < 10")
    case True
    then show ?thesis by (subst nat_text.simps) simp
  next
    case False
    with 1 show ?thesis by (subst nat_text.simps) (simp add: nat_value_snoc)
  qed
qed

lemma nat_text_inject: "nat_text a = nat_text b \<longleftrightarrow> a = b"
  by (metis nat_value_text)

lemma nat_text_nonempty: "nat_text n \<noteq> []"
  by (subst nat_text.simps) simp

lemma int_text_inject: "int_text a = int_text b \<longleftrightarrow> a = b"
proof -
  have "CHR ''-'' \<notin> set (nat_text n)" for n using nat_text_digits not_digit(2) by blast
  then have "CHR ''-'' # xs \<noteq> nat_text n" for xs n by (metis list.set_intros(1))
  then show ?thesis by (auto simp: int_text_def nat_text_inject dest: sym)
qed

lemma nat_text_colon: "CHR '':'' \<notin> set (nat_text n)"
  using nat_text_digits not_digit(1) by blast

lemma int_text_colon: "CHR '':'' \<notin> set (int_text i)"
  by (simp add: int_text_def nat_text_colon)

section \<open>Fields separated by colons\<close>

lemma field_inject:
  assumes "c \<notin> set xs" and "c \<notin> set ys"
  shows "xs @ c # as = ys @ c # bs \<longleftrightarrow> xs = ys \<and> as = bs"
  using assms
proof (induction xs arbitrary: ys)
  case Nil
  then show ?case by (cases ys) auto
next
  case (Cons x xs)
  then show ?case by (cases ys) auto
qed

lemma counted_inject:
  "nat_text (length xs) @ CHR '':'' # xs @ as = nat_text (length ys) @ CHR '':'' # ys @ bs
     \<longleftrightarrow> xs = ys \<and> as = bs"
  by (auto simp: field_inject nat_text_colon nat_text_inject)

lemma counted_inject_last:
  "nat_text (length xs) @ CHR '':'' # xs = nat_text (length ys) @ CHR '':'' # ys \<longleftrightarrow> xs = ys"
  using counted_inject [of xs "[]" ys "[]"] by simp

lemma stamp_inject:
  "int_text a @ CHR '':'' # nat_text b = int_text c @ CHR '':'' # nat_text d \<longleftrightarrow> a = c \<and> b = d"
  by (simp add: field_inject int_text_colon int_text_inject nat_text_inject)

lemma provider_debug_inject [simp]:
  "provider_debug p @ CHR '':'' # as = provider_debug q @ CHR '':'' # bs \<longleftrightarrow> p = q \<and> as = bs"
  by (cases p; cases q) (simp_all add: provider_debug_def)

lemma provider_token_inject [simp]:
  "stable_provider_token p @ CHR '':'' # as = stable_provider_token q @ CHR '':'' # bs \<longleftrightarrow> p = q \<and> as = bs"
  by (cases p; cases q) (simp_all add: stable_provider_token_def)

lemma stable_run_key_identity_inject:
  "stable_run_key_identity a = stable_run_key_identity b \<longleftrightarrow> a = b"
  by (cases a; cases b) (auto simp: counted_inject counted_inject_last stamp_inject)

lemma lifecycle_identity_inject:
  "stable_provider_lifecycle_run_key_identity a = stable_provider_lifecycle_run_key_identity b \<longleftrightarrow> a = b"
  by (cases a; cases b) (auto simp: counted_inject counted_inject_last stamp_inject)

section \<open>Following the merges of a batch\<close>

definition merge_links :: "(run_id, run_id) hmap \<Rightarrow> (run_id \<times> run_id) set" where
  "merge_links t = {(a, s). hm_get t a = Some s}"

definition merged_from :: "(run_id, run_id) hmap \<Rightarrow> run_id \<Rightarrow> run_id set" where
  "merged_from t r = {a. (r, a) \<in> (merge_links t)\<^sup>* \<and> hm_get t a \<noteq> None}"

lemma merged_from_subset: "merged_from t r \<subseteq> set (hm_keys t)"
  by (auto simp: merged_from_def dest: map_of_SomeD intro: rev_image_eqI)

lemma merged_from_finite: "finite (merged_from t r)"
  by (rule finite_subset [OF merged_from_subset]) simp

lemma merged_from_step:
  assumes "acyclic (merge_links t)" and "hm_get t r = Some s"
  shows "merged_from t s \<subset> merged_from t r"
proof
  have e: "(r, s) \<in> merge_links t" using assms(2) by (simp add: merge_links_def)
  then show "merged_from t s \<subseteq> merged_from t r"
    by (auto simp: merged_from_def intro: converse_rtrancl_into_rtrancl)
  have "(s, r) \<notin> (merge_links t)\<^sup>*"
    using assms(1) e by (auto simp: acyclic_def dest: rtrancl_into_trancl2)
  then have "r \<notin> merged_from t s" by (simp add: merged_from_def)
  moreover have "r \<in> merged_from t r" using assms(2) by (simp add: merged_from_def)
  ultimately show "merged_from t s \<noteq> merged_from t r" by blast
qed

lemma follow_merges_end:
  assumes "acyclic (merge_links t)"
  shows "card (merged_from t r) \<le> n \<Longrightarrow> hm_get t (follow_merges n t r) = None
    \<and> (r, follow_merges n t r) \<in> (merge_links t)\<^sup>*"
proof (induction n arbitrary: r)
  case 0
  then have "merged_from t r = {}" by (simp add: merged_from_finite)
  then show ?case by (auto simp: merged_from_def)
next
  case (Suc n)
  show ?case
  proof (cases "hm_get t r")
    case None
    then show ?thesis by simp
  next
    case (Some s)
    from psubset_card_mono [OF merged_from_finite merged_from_step [OF assms Some]] Suc.prems
    have "card (merged_from t s) \<le> n" by simp
    from Suc.IH [OF this] Some show ?thesis
      by (auto simp: merge_links_def intro: converse_rtrancl_into_rtrancl)
  qed
qed

lemma follow_merges_bound:
  assumes "acyclic (merge_links t)"
  shows "hm_get t (follow_merges (length t) t r) = None \<and> (r, follow_merges (length t) t r) \<in> (merge_links t)\<^sup>*"
proof (rule follow_merges_end [OF assms])
  have "card (merged_from t r) \<le> card (set (hm_keys t))"
    by (rule card_mono [OF _ merged_from_subset]) simp
  also have "\<dots> \<le> length (hm_keys t)" by (rule card_length)
  finally show "card (merged_from t r) \<le> length t" by simp
qed

end
