(* ===== verification/Store_Codec.thy ===== *)
theory Store_Codec
  imports Persist_Ops Text_Keys
begin

text \<open>
  Errors and text codecs of \<open>src/store/mod.rs\<close>. Every function of the store that returns a
  \<open>Result\<close> returns a sum here, \<open>Inl\<close> the error; \<open>try_then\<close> is the \<open>?\<close> operator. An error keeps
  its variant and the field it names; the offending value and the sentence for the log are left
  out. The text of a \<open>RunId\<close> belongs to the \<open>ulid\<close> crate and the JSON of a publication to
  \<open>serde_json\<close>: both are fields of \<open>store_env\<close>. The locale \<open>codec\<close> states what a text codec
  promises; it is interpreted on every codec of the file.
\<close>

section \<open>Results\<close>

datatype sqlite_failure =
    ForeignKeyFailed | UniqueFailed | CheckFailed | NoRowReturned | ConversionFailed

datatype store_error =
    Sqlite sqlite_failure
  | NewerSchema i64 i64
  | SchemaNotCurrent
  | DatabaseAbsent
  | InvalidData string
  | IntegerOutOfRange string
  | OwnerAbsent
  | CheckpointBusy i64

type_synonym 'a store_result = "store_error + 'a"

definition try_then :: "'e + 'a \<Rightarrow> ('a \<Rightarrow> 'e + 'b) \<Rightarrow> 'e + 'b" where
  "try_then r f = (case r of Inl e \<Rightarrow> Inl e | Inr x \<Rightarrow> f x)"

definition ok_or :: "'e \<Rightarrow> 'a option \<Rightarrow> 'e + 'a" where
  "ok_or e x = (case x of None \<Rightarrow> Inl e | Some y \<Rightarrow> Inr y)"

definition ensure :: "'e \<Rightarrow> bool \<Rightarrow> 'e + unit" where
  "ensure e b = (if b then Inr () else Inl e)"

fun try_map :: "('a \<Rightarrow> 'e + 'b) \<Rightarrow> 'a list \<Rightarrow> 'e + 'b list" where
  "try_map f [] = Inr []"
| "try_map f (x # xs) = try_then (f x) (\<lambda>y. try_then (try_map f xs) (\<lambda>ys. Inr (y # ys)))"

fun try_fold :: "('a \<Rightarrow> 's \<Rightarrow> 'e + 's) \<Rightarrow> 'a list \<Rightarrow> 's \<Rightarrow> 'e + 's" where
  "try_fold f [] s = Inr s"
| "try_fold f (x # xs) s = try_then (f x s) (try_fold f xs)"

text \<open>\<open>Option<Result>::transpose\<close> after a map.\<close>

definition try_option :: "('a \<Rightarrow> 'e + 'b) \<Rightarrow> 'a option \<Rightarrow> 'e + 'b option" where
  "try_option f x = (case x of None \<Rightarrow> Inr None | Some a \<Rightarrow> try_then (f a) (\<lambda>b. Inr (Some b)))"

lemma try_then_simps [simp]:
  "try_then (Inl e) f = Inl e" "try_then (Inr x) f = f x"
  by (simp_all add: try_then_def)

lemma try_then_Inr: "try_then r f = Inr y \<longleftrightarrow> (\<exists>x. r = Inr x \<and> f x = Inr y)"
  by (cases r) auto

lemma ok_or_simps [simp]:
  "ok_or e None = Inl e" "ok_or e (Some x) = Inr x"
  by (simp_all add: ok_or_def)

lemma ok_or_Inr: "ok_or e x = Inr y \<longleftrightarrow> x = Some y"
  by (cases x) auto

lemma ensure_Inr: "ensure e b = Inr u \<longleftrightarrow> b"
  by (simp add: ensure_def)

lemma ensure_simps [simp]: "ensure e True = Inr ()" "ensure e False = Inl e"
  by (simp_all add: ensure_def)

lemma try_option_simps [simp]:
  "try_option f None = Inr None" "try_option f (Some a) = try_then (f a) (\<lambda>b. Inr (Some b))"
  by (simp_all add: try_option_def)

lemmas results = try_then_Inr ok_or_Inr ensure_Inr

lemma try_fold_invariant:
  assumes "try_fold f xs s = Inr s'" and "P s"
    and "\<And>x s s'. x \<in> set xs \<Longrightarrow> P s \<Longrightarrow> f x s = Inr s' \<Longrightarrow> P s'"
  shows "P s'"
  using assms by (induction xs arbitrary: s) (auto simp: results)

lemma try_fold_total:
  assumes "P s" and "\<And>x s. x \<in> set xs \<Longrightarrow> P s \<Longrightarrow> \<exists>s'. f x s = Inr s' \<and> P s'"
  shows "\<exists>s'. try_fold f xs s = Inr s' \<and> P s'"
  using assms
proof (induction xs arbitrary: s)
  case (Cons x xs)
  then obtain s1 where "f x s = Inr s1" "P s1" by (metis list.set_intros(1))
  then show ?case using Cons.IH [of s1] Cons.prems(2) by simp
qed simp

lemma try_fold_append:
  "try_fold f (xs @ ys) s = try_then (try_fold f xs s) (try_fold f ys)"
proof (induction xs arbitrary: s)
  case (Cons x xs)
  then show ?case by (cases "f x s") simp_all
qed simp

lemma try_map_total: "(\<And>x. x \<in> set xs \<Longrightarrow> f x = Inr (g x)) \<Longrightarrow> try_map f xs = Inr (map g xs)"
  by (induction xs) auto

section \<open>The external codecs\<close>

record store_env =
  se_run_text :: "run_id \<Rightarrow> string"
  se_parse_run :: "string \<Rightarrow> run_id option"
  se_publication_json :: "history_run_publication \<Rightarrow> string option"
  se_parse_publication :: "string \<Rightarrow> history_run_publication option"
  se_coverage_json :: "source_coverage list \<Rightarrow> string option"

text \<open>What the store relies on: parsing inverts printing.\<close>

definition env_ok :: "store_env \<Rightarrow> bool" where
  "env_ok env \<longleftrightarrow> (\<forall>r. se_parse_run env (se_run_text env r) = Some r)
     \<and> (\<forall>p. case se_publication_json env p of None \<Rightarrow> True
              | Some text \<Rightarrow> se_parse_publication env text = Some p)"

lemma run_text_inject: "env_ok env \<Longrightarrow> se_run_text env a = se_run_text env b \<longleftrightarrow> a = b"
  unfolding env_ok_def by (metis option.inject)

definition parse_run_id :: "store_env \<Rightarrow> string \<Rightarrow> run_id store_result" where
  "parse_run_id env value = ok_or (InvalidData ''run_id'') (se_parse_run env value)"

lemma parse_run_text [simp]: "env_ok env \<Longrightarrow> parse_run_id env (se_run_text env r) = Inr r"
  by (simp add: parse_run_id_def env_ok_def)

section \<open>Text codecs\<close>

fun provider_text :: "provider \<Rightarrow> string" where
  "provider_text Claude = ''claude''"
| "provider_text Codex = ''codex''"

definition parse_provider :: "string \<Rightarrow> provider store_result" where
  "parse_provider value =
     (if value = ''claude'' then Inr Claude
      else if value = ''codex'' then Inr Codex
      else Inl (InvalidData ''provider''))"

fun task_state_text :: "task_state \<Rightarrow> string" where
  "task_state_text Queued = ''queued''"
| "task_state_text Running = ''running''"
| "task_state_text Blocked = ''blocked''"
| "task_state_text Completed = ''completed''"
| "task_state_text Failed = ''failed''"
| "task_state_text Cancelled = ''cancelled''"
| "task_state_text EndedUnknown = ''ended_unknown''"

definition parse_task_state :: "string \<Rightarrow> task_state store_result" where
  "parse_task_state value =
     (if value = ''queued'' then Inr Queued
      else if value = ''running'' then Inr Running
      else if value = ''blocked'' then Inr Blocked
      else if value = ''completed'' then Inr Completed
      else if value = ''failed'' then Inr Failed
      else if value = ''cancelled'' then Inr Cancelled
      else if value = ''ended_unknown'' then Inr EndedUnknown
      else Inl (InvalidData ''task_state''))"

fun native_session_end_status_text :: "native_session_end_status \<Rightarrow> string" where
  "native_session_end_status_text EndDone = ''done''"
| "native_session_end_status_text EndError = ''error''"
| "native_session_end_status_text EndCancelled = ''cancelled''"
| "native_session_end_status_text EndUnknown = ''unknown''"

definition parse_native_session_end_status :: "string \<Rightarrow> native_session_end_status store_result" where
  "parse_native_session_end_status value =
     (if value = ''done'' then Inr EndDone
      else if value = ''error'' then Inr EndError
      else if value = ''cancelled'' then Inr EndCancelled
      else if value = ''unknown'' then Inr EndUnknown
      else Inl (InvalidData ''native_session_end_status''))"

fun encode_exec_state :: "exec_state \<Rightarrow> string \<times> i64 option" where
  "encode_exec_state ExecUnknown = (''unknown'', None)"
| "encode_exec_state ExecIdle = (''idle'', None)"
| "encode_exec_state ExecWorking = (''working'', None)"
| "encode_exec_state ExecBlocked = (''blocked'', None)"
| "encode_exec_state (ExecStale since_ms) = (''stale'', Some since_ms)"
| "encode_exec_state ExecEnded = (''ended'', None)"

definition parse_exec_state :: "string \<Rightarrow> i64 option \<Rightarrow> exec_state store_result" where
  "parse_exec_state value stale_since_ms =
     (if value = ''unknown'' then Inr ExecUnknown
      else if value = ''idle'' then Inr ExecIdle
      else if value = ''working'' then Inr ExecWorking
      else if value = ''blocked'' then Inr ExecBlocked
      else if value = ''stale''
        then try_then (ok_or (InvalidData ''stale_since_ms'') stale_since_ms)
               (\<lambda>since_ms. Inr (ExecStale since_ms))
      else if value = ''ended'' then Inr ExecEnded
      else Inl (InvalidData ''exec_state''))"

fun agent_node_state_text :: "exec_state \<Rightarrow> string store_result" where
  "agent_node_state_text ExecWorking = Inr ''working''"
| "agent_node_state_text ExecEnded = Inr ''ended''"
| "agent_node_state_text _ = Inl (InvalidData ''agent_nodes.state'')"

definition parse_agent_node_state :: "string option \<Rightarrow> exec_state option store_result" where
  "parse_agent_node_state value =
     (if value = None then Inr None
      else if value = Some ''working'' then Inr (Some ExecWorking)
      else if value = Some ''ended'' then Inr (Some ExecEnded)
      else Inl (InvalidData ''agent_nodes.state''))"

fun gap_kind_text :: "gap_kind \<Rightarrow> string" where
  "gap_kind_text Startup = ''startup''"
| "gap_kind_text Reconnect = ''reconnect''"
| "gap_kind_text SocketReplacement = ''socket_replacement''"
| "gap_kind_text PersistenceOutage = ''persistence_outage''"

section \<open>Integers\<close>

text \<open>SQLite integers are signed: a \<open>u64\<close> above \<open>i64::MAX\<close> is refused on the way in, a negative
  count on the way out.\<close>

definition i64_try_from :: "u64 \<Rightarrow> i64 option" where
  "i64_try_from n = (if int n \<le> i64_max then Some (int n) else None)"

definition signed_count :: "string \<Rightarrow> u64 \<Rightarrow> i64 store_result" where
  "signed_count field value = ok_or (IntegerOutOfRange field) (i64_try_from value)"

definition optional_unsigned_count :: "string \<Rightarrow> i64 option \<Rightarrow> u64 option store_result" where
  "optional_unsigned_count field =
     try_option (\<lambda>value. ok_or (InvalidData field) (u64_try_from value))"

definition optional_unsigned_integer :: "string \<Rightarrow> i64 option \<Rightarrow> u64 option store_result" where
  "optional_unsigned_integer field =
     try_option (\<lambda>value. ok_or (InvalidData field) (u64_try_from value))"

lemma signed_count_back:
  "signed_count field value = Inr n \<Longrightarrow> u64_try_from n = Some value"
  by (auto simp: signed_count_def ok_or_Inr i64_try_from_def u64_try_from_def split: if_splits)

text \<open>\<open>str::parse::<u64>\<close>: an optional plus sign, then digits, within range.\<close>

definition ascii_digit :: "char \<Rightarrow> bool" where
  "ascii_digit c \<longleftrightarrow> 48 \<le> byte_of c \<and> byte_of c \<le> 57"

definition parse_u64 :: "string \<Rightarrow> u64 option" where
  "parse_u64 text =
     (let digits = (case text of c # cs \<Rightarrow> if c = CHR ''+'' then cs else text | [] \<Rightarrow> [])
      in if digits = [] \<or> \<not> list_all ascii_digit digits then None
         else let value = foldl (\<lambda>n c. n * 10 + (byte_of c - 48)) 0 digits
              in if is_u64 value then Some value else None)"

lemma foldl_digits: "foldl (\<lambda>n c. n * 10 + (byte_of c - 48)) 0 xs = nat_value xs"
  by (induction xs rule: rev_induct) (simp_all add: nat_value_snoc byte_of_def)

lemma digit_ascii: "is_digit c \<Longrightarrow> ascii_digit c \<and> c \<noteq> CHR ''+''"
  unfolding is_digit_def ascii_digit_def byte_of_def
  by (auto dest!: arg_cong [where f = "of_char :: char \<Rightarrow> nat"])

lemma parse_u64_text: "is_u64 n \<Longrightarrow> parse_u64 (nat_text n) = Some n"
proof -
  assume n: "is_u64 n"
  have digits: "\<And>c. c \<in> set (nat_text n) \<Longrightarrow> ascii_digit c \<and> c \<noteq> CHR ''+''"
    using digit_ascii nat_text_digits by blast
  then have "(case nat_text n of c # cs \<Rightarrow> if c = CHR ''+'' then cs else nat_text n | [] \<Rightarrow> [])
      = nat_text n" by (auto split: list.split)
  moreover have "list_all ascii_digit (nat_text n)" using digits by (simp add: list_all_iff)
  ultimately show ?thesis
    using n by (simp add: parse_u64_def Let_def foldl_digits nat_value_text nat_text_nonempty)
qed

section \<open>Run keys\<close>

record encoded_run_key =
  ek_kind :: string
  ek_controller_id :: "string option"
  ek_provider :: "string option"
  ek_native_sid :: "string option"
  ek_native_path :: "string option"
  ek_terminal_id :: "string option"
  ek_start_ms :: "i64 option"
  ek_seq :: "string option"

definition encoded_empty :: encoded_run_key where
  "encoded_empty = \<lparr>ek_kind = [], ek_controller_id = None, ek_provider = None,
     ek_native_sid = None, ek_native_path = None, ek_terminal_id = None, ek_start_ms = None,
     ek_seq = None\<rparr>"

fun encode_run_key :: "run_key \<Rightarrow> encoded_run_key" where
  "encode_run_key (Controller controller_id) =
     encoded_empty\<lparr>ek_kind := ''controller'', ek_controller_id := Some controller_id\<rparr>"
| "encode_run_key (Native provider sid) =
     encoded_empty\<lparr>ek_kind := ''native'', ek_provider := Some (provider_text provider),
       ek_native_sid := Some sid\<rparr>"
| "encode_run_key (NativePath provider path) =
     encoded_empty\<lparr>ek_kind := ''native_path'', ek_provider := Some (provider_text provider),
       ek_native_path := Some path\<rparr>"
| "encode_run_key (Provisional terminal_id start_ms seq) =
     encoded_empty\<lparr>ek_kind := ''provisional'', ek_terminal_id := Some terminal_id,
       ek_start_ms := Some start_ms, ek_seq := Some (nat_text seq)\<rparr>"

definition required :: "string \<Rightarrow> string option \<Rightarrow> string store_result" where
  "required field value = ok_or (InvalidData field) value"

definition decode_run_key :: "encoded_run_key \<Rightarrow> run_key store_result" where
  "decode_run_key k =
     (if ek_kind k = ''controller''
        then try_then (required ''key_controller_id'' (ek_controller_id k)) (\<lambda>i. Inr (Controller i))
      else if ek_kind k = ''native''
        then try_then (required ''key_provider'' (ek_provider k)) (\<lambda>p.
             try_then (parse_provider p) (\<lambda>provider.
             try_then (required ''key_native_sid'' (ek_native_sid k)) (\<lambda>sid.
             Inr (Native provider sid))))
      else if ek_kind k = ''native_path''
        then try_then (required ''key_provider'' (ek_provider k)) (\<lambda>p.
             try_then (parse_provider p) (\<lambda>provider.
             try_then (required ''key_native_path'' (ek_native_path k)) (\<lambda>path.
             Inr (NativePath provider path))))
      else if ek_kind k = ''provisional''
        then try_then (required ''key_seq'' (ek_seq k)) (\<lambda>seq.
             try_then (required ''key_terminal_id'' (ek_terminal_id k)) (\<lambda>terminal_id.
             try_then (ok_or (InvalidData ''key_start_ms'') (ek_start_ms k)) (\<lambda>start_ms.
             try_then (ok_or (InvalidData ''key_seq'') (parse_u64 seq)) (\<lambda>seq.
             Inr (Provisional terminal_id start_ms seq)))))
      else Inl (InvalidData ''key_kind''))"

section \<open>The contract of a codec\<close>

text \<open>On its domain a codec reads back what it wrote, so two values share a text only when they
  are equal.\<close>

locale codec =
  fixes encode :: "'a \<Rightarrow> 't" and decode :: "'t \<Rightarrow> 'e + 'a" and domain :: "'a \<Rightarrow> bool"
  assumes reads_back: "domain a \<Longrightarrow> decode (encode a) = Inr a"
begin

lemma inject: "domain a \<Longrightarrow> domain b \<Longrightarrow> encode a = encode b \<longleftrightarrow> a = b"
  using reads_back by (metis sum.inject(2))

lemma option_reads_back:
  "(\<And>a. x = Some a \<Longrightarrow> domain a) \<Longrightarrow> try_option decode (map_option encode x) = Inr x"
  by (cases x) (auto simp: reads_back)

end

text \<open>A run key fits the store when its sequence number is a \<open>u64\<close>, as its type says.\<close>

definition run_key_in_range :: "run_key \<Rightarrow> bool" where
  "run_key_in_range key = (case key of Provisional _ _ seq \<Rightarrow> is_u64 seq | _ \<Rightarrow> True)"

interpretation provider_codec: codec provider_text parse_provider "\<lambda>_. True"
proof
  show "parse_provider (provider_text p) = Inr p" for p
    by (cases p) (simp_all add: parse_provider_def)
qed

interpretation state_codec: codec task_state_text parse_task_state "\<lambda>_. True"
proof
  show "parse_task_state (task_state_text s) = Inr s" for s
    by (cases s) (simp_all add: parse_task_state_def)
qed

interpretation end_codec:
  codec native_session_end_status_text parse_native_session_end_status "\<lambda>_. True"
proof
  show "parse_native_session_end_status (native_session_end_status_text s) = Inr s" for s
    by (cases s) (simp_all add: parse_native_session_end_status_def)
qed

interpretation exec_codec: codec encode_exec_state "\<lambda>(text, since). parse_exec_state text since" "\<lambda>_. True"
proof
  show "(case encode_exec_state s of (text, since) \<Rightarrow> parse_exec_state text since) = Inr s" for s
    by (cases s) (simp_all add: parse_exec_state_def)
qed

interpretation key_codec: codec encode_run_key decode_run_key run_key_in_range
proof
  show "run_key_in_range k \<Longrightarrow> decode_run_key (encode_run_key k) = Inr k" for k
    by (cases k) (simp_all add: decode_run_key_def encoded_empty_def required_def
        run_key_in_range_def parse_u64_text provider_codec.reads_back)
qed

lemmas reads_back [simp] = provider_codec.reads_back [OF TrueI] state_codec.reads_back [OF TrueI]
  end_codec.reads_back [OF TrueI]

lemma exec_reads_back [simp]:
  "encode_exec_state s = (text, since) \<Longrightarrow> parse_exec_state text since = Inr s"
  using exec_codec.reads_back [OF TrueI, of s] by simp

lemma node_state_Inr:
  "agent_node_state_text a = Inr text \<longleftrightarrow>
     a = ExecWorking \<and> text = ''working'' \<or> a = ExecEnded \<and> text = ''ended''"
  by (cases a) auto

lemma node_state_back:
  "try_option agent_node_state_text s = Inr text \<Longrightarrow> parse_agent_node_state text = Inr s"
  by (cases s) (auto simp: parse_agent_node_state_def results node_state_Inr)

lemma count_back:
  "try_option (signed_count f) x = Inr n \<Longrightarrow> optional_unsigned_count f n = Inr x"
  by (cases x) (auto simp: optional_unsigned_count_def results dest!: signed_count_back)

end
