(* ===== verification/Store_Schema.thy ===== *)
theory Store_Schema
  imports Store_Codec
begin

text \<open>
  The database of \<open>src/store/schema.rs\<close> at schema version 8: one field per table, a table with a
  text primary key being the list of its rows in row order under that key. The statements of
  \<open>src/store/mod.rs\<close> run against it; a statement that breaks a CHECK, UNIQUE or FOREIGN KEY
  constraint of the schema returns the constraint, and a deletion cascades along ON DELETE
  CASCADE. Transactions are values: a failed one leaves its caller with the database it had. Row
  ids of \<open>events\<close> are the positions in the list, as AUTOINCREMENT assigns them in order.
\<close>

section \<open>Rows\<close>

record tab_row =
  tbr_workspace_id :: string
  tbr_label :: "string option"

record pane_row =
  pnr_workspace_id :: string
  pnr_tab_id :: string
  pnr_terminal_id :: string
  pnr_display_name :: "string option"

record lifecycle_columns =
  lf_end_status :: "string option"
  lf_end_at_ms :: "i64 option"
  lf_source_at_ms :: "i64 option"
  lf_observed_at_ms :: "i64 option"
  lf_source_order :: "string option"
  lf_history_ready :: i64
  lf_latest_provider_at_ms :: "i64 option"

record task_run_row =
  rr_key :: encoded_run_key
  rr_display_ordinal :: i64
  rr_task_state :: string
  rr_has_controller_event :: i64
  rr_native_provider :: "string option"
  rr_native_session_id :: "string option"
  rr_merged_into :: "string option"
  rr_created_at_ms :: i64
  rr_updated_at_ms :: i64
  rr_finished_at_ms :: "i64 option"
  rr_subject :: "string option"
  rr_dismissed_at_ms :: "i64 option"
  rr_lifecycle :: lifecycle_columns

record execution_row =
  exr_pane_id :: string
  exr_terminal_id :: string
  exr_task_run_id :: string
  exr_exec_state :: string
  exr_stale_since_ms :: "i64 option"
  exr_started_at_ms :: i64
  exr_updated_at_ms :: i64
  exr_ended_at_ms :: "i64 option"

record agent_node_row =
  anr_provider :: string
  anr_native_session_id :: "string option"
  anr_task_run_id :: string
  anr_parent_agent_node_id :: "string option"
  anr_state :: "string option"
  anr_model_id :: "string option"
  anr_last_event_kind :: "string option"
  anr_last_tool_name :: "string option"
  anr_last_item_count :: "i64 option"
  anr_last_byte_count :: "i64 option"
  anr_last_activity_at_ms :: "i64 option"
  anr_session_file :: "string option"

text \<open>\<open>RelationalEventProjection\<close>: every column of \<open>events\<close> but the row id.\<close>

record event_projection =
  ep_event_id :: string
  ep_seen_at_ms :: i64
  ep_event_timestamp_ms :: i64
  ep_herdr_session :: string
  ep_source :: string
  ep_normalized_kind :: string
  ep_source_event_type :: string
  ep_workspace_id :: "string option"
  ep_tab_id :: "string option"
  ep_pane_id :: "string option"
  ep_terminal_id :: "string option"
  ep_provider :: "string option"
  ep_native_session_id :: "string option"
  ep_task_run_id :: "string option"
  ep_agent_node_id :: "string option"
  ep_task_state :: "string option"
  ep_model_id :: "string option"
  ep_provider_event_kind :: "string option"
  ep_tool_name :: "string option"
  ep_item_count :: "i64 option"
  ep_byte_count :: "i64 option"
  ep_gap_kind :: "string option"
  ep_ingest_seq :: "i64 option"
  ep_provider_agent_id :: "string option"
  ep_provider_parent_agent_id :: "string option"
  ep_source_coverage :: "string option"
  ep_history_drain_id :: "string option"

record history_drain_row =
  dr_provider :: string
  dr_created_at_ms :: i64
  dr_finalized_at_ms :: "i64 option"
  dr_completed_by_drain_id :: "string option"

record owner_row =
  ow_pid :: i64
  ow_started_at_ms :: i64
  ow_terminal_id :: "string option"
  ow_pane_id :: "string option"

section \<open>The database\<close>

record database =
  db_herdr_sessions :: "(string, i64) hmap"
  db_workspaces :: "string list"
  db_tabs :: "(string, tab_row) hmap"
  db_panes :: "(string, pane_row) hmap"
  db_native_sessions :: "(string \<times> string) list"
  db_task_runs :: "(string, task_run_row) hmap"
  db_agent_nodes :: "(string, agent_node_row) hmap"
  db_executions :: "(string, execution_row) hmap"
  db_execution_edges :: "(string \<times> string, i64) hmap"
  db_dependency_edges :: "(string \<times> string, i64) hmap"
  db_events :: "event_projection list"
  db_event_ledger :: "(string, i64) hmap"
  db_owner :: "owner_row option"
  db_display_ordinals :: "(string \<times> string, i64) hmap"
  db_ingest_high_water :: i64
  db_run_rate_totals :: "(string, i64 \<times> i64) hmap"
  db_history_drains :: "(string, history_drain_row) hmap"
  db_drain_artifacts :: "(string \<times> string, string \<times> i64) hmap"
  db_drain_runs :: "(string \<times> string) list"
  db_publications :: "(string, string \<times> string) hmap"
  db_before_images :: "(string \<times> string, string option) hmap"

definition empty_database :: database where
  "empty_database = \<lparr>db_herdr_sessions = [], db_workspaces = [], db_tabs = [], db_panes = [],
     db_native_sessions = [], db_task_runs = [], db_agent_nodes = [], db_executions = [],
     db_execution_edges = [], db_dependency_edges = [], db_events = [], db_event_ledger = [],
     db_owner = None, db_display_ordinals = [], db_ingest_high_water = 0,
     db_run_rate_totals = [], db_history_drains = [], db_drain_artifacts = [],
     db_drain_runs = [], db_publications = [], db_before_images = []\<rparr>"

abbreviation run_row :: "database \<Rightarrow> string \<Rightarrow> task_run_row option" where
  "run_row db \<equiv> hm_get (db_task_runs db)"

definition run_exists :: "database \<Rightarrow> string \<Rightarrow> bool" where
  "run_exists db i \<longleftrightarrow> run_row db i \<noteq> None"

section \<open>The columns of a task run\<close>

definition lifecycle_default :: lifecycle_columns where
  "lifecycle_default = \<lparr>lf_end_status = None, lf_end_at_ms = None, lf_source_at_ms = None,
     lf_observed_at_ms = None, lf_source_order = None, lf_history_ready = 1,
     lf_latest_provider_at_ms = None\<rparr>"

definition i64_from_bool :: "bool \<Rightarrow> i64" where
  "i64_from_bool b = (if b then 1 else 0)"

text \<open>The CHECK constraints of \<open>task_runs\<close>.\<close>

definition lifecycle_checks :: "lifecycle_columns \<Rightarrow> bool" where
  "lifecycle_checks c \<longleftrightarrow>
     (case lf_end_status c of None \<Rightarrow> True
      | Some status \<Rightarrow> status \<in> {''done'', ''error'', ''cancelled'', ''unknown''})
     \<and> lf_history_ready c \<in> {0, 1}"

definition task_run_checks :: "string \<Rightarrow> task_run_row \<Rightarrow> bool" where
  "task_run_checks i row \<longleftrightarrow>
     rr_has_controller_event row \<in> {0, 1}
     \<and> (rr_native_provider row = None \<longleftrightarrow> rr_native_session_id row = None)
     \<and> rr_merged_into row \<noteq> Some i
     \<and> lifecycle_checks (rr_lifecycle row)"

text \<open>The UNIQUE indexes of \<open>task_runs\<close>: two rows that must not coexist. NULLs are distinct.\<close>

definition sql_same :: "'a option \<Rightarrow> 'a option \<Rightarrow> bool" where
  "sql_same a b \<longleftrightarrow> a \<noteq> None \<and> a = b"

definition same_key :: "encoded_run_key \<Rightarrow> encoded_run_key \<Rightarrow> bool" where
  "same_key a b \<longleftrightarrow> ek_kind a = ek_kind b \<and>
     (ek_kind a = ''controller'' \<and> sql_same (ek_controller_id a) (ek_controller_id b)
      \<or> ek_kind a = ''native'' \<and> sql_same (ek_provider a) (ek_provider b)
          \<and> sql_same (ek_native_sid a) (ek_native_sid b)
      \<or> ek_kind a = ''native_path'' \<and> sql_same (ek_provider a) (ek_provider b)
          \<and> sql_same (ek_native_path a) (ek_native_path b))"

definition row_conflict :: "task_run_row \<Rightarrow> task_run_row \<Rightarrow> bool" where
  "row_conflict a b \<longleftrightarrow>
     rr_display_ordinal a = rr_display_ordinal b
     \<or> same_key (rr_key a) (rr_key b)
     \<or> sql_same (rr_native_provider a) (rr_native_provider b)
         \<and> sql_same (rr_native_session_id a) (rr_native_session_id b)"

definition binding_known :: "database \<Rightarrow> task_run_row \<Rightarrow> bool" where
  "binding_known db row \<longleftrightarrow>
     (case (rr_native_provider row, rr_native_session_id row) of
        (Some provider, Some sid) \<Rightarrow> (provider, sid) \<in> set (db_native_sessions db)
      | _ \<Rightarrow> True)"

definition target_known :: "database \<Rightarrow> task_run_row \<Rightarrow> bool" where
  "target_known db row \<longleftrightarrow>
     (case rr_merged_into row of None \<Rightarrow> True | Some target \<Rightarrow> run_exists db target)"

text \<open>Write one row of \<open>task_runs\<close> under its constraints.\<close>

definition write_task_run :: "string \<Rightarrow> task_run_row \<Rightarrow> database \<Rightarrow> database store_result" where
  "write_task_run i row db =
     (if \<not> task_run_checks i row then Inl (Sqlite CheckFailed)
      else if list_ex (\<lambda>(j, other). j \<noteq> i \<and> row_conflict row other) (db_task_runs db)
        then Inl (Sqlite UniqueFailed)
      else if \<not> binding_known db row \<or> \<not> target_known db row then Inl (Sqlite ForeignKeyFailed)
      else Inr (db\<lparr>db_task_runs := hm_put i row (db_task_runs db)\<rparr>))"

section \<open>Rows of the other tables\<close>

definition insert_native_session :: "string \<Rightarrow> string \<Rightarrow> database \<Rightarrow> database" where
  "insert_native_session provider sid db =
     db\<lparr>db_native_sessions := hs_insert (provider, sid) (db_native_sessions db)\<rparr>"

definition write_tab :: "string \<Rightarrow> tab_row \<Rightarrow> database \<Rightarrow> database store_result" where
  "write_tab i row db =
     (if tbr_workspace_id row \<notin> set (db_workspaces db) then Inl (Sqlite ForeignKeyFailed)
      else Inr (db\<lparr>db_tabs := hm_put i row (db_tabs db)\<rparr>))"

definition write_pane :: "string \<Rightarrow> pane_row \<Rightarrow> database \<Rightarrow> database store_result" where
  "write_pane i row db =
     (if pnr_workspace_id row \<notin> set (db_workspaces db) \<or> hm_get (db_tabs db) (pnr_tab_id row) = None
        then Inl (Sqlite ForeignKeyFailed)
      else Inr (db\<lparr>db_panes := hm_put i row (db_panes db)\<rparr>))"

definition write_execution :: "string \<Rightarrow> execution_row \<Rightarrow> database \<Rightarrow> database store_result" where
  "write_execution i row db =
     (if \<not> run_exists db (exr_task_run_id row) then Inl (Sqlite ForeignKeyFailed)
      else Inr (db\<lparr>db_executions := hm_put i row (db_executions db)\<rparr>))"

definition write_agent_node :: "string \<Rightarrow> agent_node_row \<Rightarrow> database \<Rightarrow> database store_result" where
  "write_agent_node i row db =
     (if anr_state row \<notin> {None, Some ''working'', Some ''ended''} then Inl (Sqlite CheckFailed)
      else if \<not> run_exists db (anr_task_run_id row)
        \<or> (case anr_native_session_id row of None \<Rightarrow> False
           | Some sid \<Rightarrow> (anr_provider row, sid) \<notin> set (db_native_sessions db))
        then Inl (Sqlite ForeignKeyFailed)
      else Inr (db\<lparr>db_agent_nodes := hm_put i row (db_agent_nodes db)\<rparr>))"

text \<open>Both edge tables forbid loops and dangling ends; a child has one dispatch row.\<close>

definition insert_execution_edge_row ::
  "string \<Rightarrow> string \<Rightarrow> i64 \<Rightarrow> database \<Rightarrow> database store_result" where
  "insert_execution_edge_row parent child created_at_ms db =
     (if parent = child then Inl (Sqlite CheckFailed)
      else if list_ex (\<lambda>((_, other), _). other = child) (db_execution_edges db)
        then Inl (Sqlite UniqueFailed)
      else if \<not> run_exists db parent \<or> \<not> run_exists db child then Inl (Sqlite ForeignKeyFailed)
      else Inr (db\<lparr>db_execution_edges := db_execution_edges db @ [((parent, child), created_at_ms)]\<rparr>))"

definition insert_dependency_edge_row ::
  "string \<Rightarrow> string \<Rightarrow> i64 \<Rightarrow> database \<Rightarrow> database store_result" where
  "insert_dependency_edge_row prerequisite dependent created_at_ms db =
     (if prerequisite = dependent then Inl (Sqlite CheckFailed)
      else if hm_get (db_dependency_edges db) (prerequisite, dependent) \<noteq> None
        then Inl (Sqlite UniqueFailed)
      else if \<not> run_exists db prerequisite \<or> \<not> run_exists db dependent
        then Inl (Sqlite ForeignKeyFailed)
      else Inr (db\<lparr>db_dependency_edges :=
                    db_dependency_edges db @ [((prerequisite, dependent), created_at_ms)]\<rparr>))"

definition write_rate_totals :: "string \<Rightarrow> i64 \<Rightarrow> i64 \<Rightarrow> database \<Rightarrow> database store_result" where
  "write_rate_totals i output_tokens working_ms db =
     (if output_tokens < 0 \<or> working_ms < 0 then Inl (Sqlite CheckFailed)
      else if \<not> run_exists db i then Inl (Sqlite ForeignKeyFailed)
      else Inr (db\<lparr>db_run_rate_totals := hm_put i (output_tokens, working_ms) (db_run_rate_totals db)\<rparr>))"

definition insert_drain_run :: "string \<Rightarrow> string \<Rightarrow> database \<Rightarrow> database store_result" where
  "insert_drain_run drain i db =
     (if hm_get (db_history_drains db) drain = None \<or> \<not> run_exists db i
        then Inl (Sqlite ForeignKeyFailed)
      else Inr (db\<lparr>db_drain_runs := hs_insert (drain, i) (db_drain_runs db)\<rparr>))"

text \<open>\<open>INSERT OR IGNORE INTO history_event_before_images\<close>: the first image of an event in a
  drain is kept.\<close>

definition insert_before_image ::
  "string \<Rightarrow> string \<Rightarrow> string option \<Rightarrow> database \<Rightarrow> database store_result" where
  "insert_before_image drain event_id task_run db =
     (if hm_get (db_before_images db) (drain, event_id) \<noteq> None then Inr db
      else if hm_get (db_history_drains db) drain = None
        \<or> event_id \<notin> set (map ep_event_id (db_events db)) then Inl (Sqlite ForeignKeyFailed)
      else Inr (db\<lparr>db_before_images := hm_put (drain, event_id) task_run (db_before_images db)\<rparr>))"

text \<open>The CHECK constraints of \<open>history_drains\<close> and \<open>history_drain_artifacts\<close>; \<open>length\<close> of a text counts
  its characters before the first NUL.\<close>

definition sql_length :: "string \<Rightarrow> nat" where
  "sql_length s = length (utf8_chars (takeWhile (\<lambda>c. c \<noteq> CHR 0x00) s))"

definition drain_checks :: "string \<Rightarrow> history_drain_row \<Rightarrow> bool" where
  "drain_checks i row \<longleftrightarrow> 1 \<le> sql_length i \<and> sql_length i \<le> 160 \<and> dr_provider row \<in> {''claude'', ''codex''}"

definition artifact_checks :: "string \<Rightarrow> string \<Rightarrow> i64 \<Rightarrow> bool" where
  "artifact_checks artifact_id generation goalpost \<longleftrightarrow>
     0 < sql_length artifact_id \<and> 0 < sql_length generation \<and> 0 \<le> goalpost"

section \<open>Display ordinals\<close>

text \<open>\<open>upsert_display_ordinal\<close>: an entity keeps the ordinal it has; another one is refused.\<close>

definition upsert_display_ordinal ::
  "string \<Rightarrow> string \<Rightarrow> display_ordinal \<Rightarrow> database \<Rightarrow> database store_result" where
  "upsert_display_ordinal entity_kind entity_id display_ordinal db =
     (let n = ordinal_get display_ordinal in
      case hm_get (db_display_ordinals db) (entity_kind, entity_id) of
        Some persisted \<Rightarrow>
          if persisted \<noteq> n then Inl (InvalidData ''display_ordinal'') else Inr db
      | None \<Rightarrow>
          if n \<in> set (hm_values (db_display_ordinals db)) then Inl (Sqlite UniqueFailed)
          else Inr (db\<lparr>db_display_ordinals :=
                        hm_put (entity_kind, entity_id) n (db_display_ordinals db)\<rparr>))"

definition delete_display_ordinal :: "string \<Rightarrow> string \<Rightarrow> database \<Rightarrow> database" where
  "delete_display_ordinal entity_kind entity_id db =
     db\<lparr>db_display_ordinals := hm_del (entity_kind, entity_id) (db_display_ordinals db)\<rparr>"

section \<open>Deletion with cascades\<close>

text \<open>The least superset of \<open>start\<close> within \<open>start\<close> and \<open>universe\<close> that is closed under \<open>pull\<close>:
  \<open>pull reached x\<close> says that the rows reached so far pull the row \<open>x\<close> in. It models the
  recursive queries of the retention pass and the cascade of deletions.\<close>

function grow :: "('a list \<Rightarrow> 'a \<Rightarrow> bool) \<Rightarrow> 'a list \<Rightarrow> 'a list \<Rightarrow> 'a list" where
  "grow pull universe reached =
     (let fresh = filter (\<lambda>x. x \<notin> set reached \<and> pull reached x) universe
      in if fresh = [] then reached else grow pull universe (reached @ fresh))"
  by pat_completeness auto
termination
proof (relation "measure (\<lambda>(pull, universe, reached). length (filter (\<lambda>x. x \<notin> set reached) universe))",
    goal_cases)
  case (2 pull universe reached fresh)
  then obtain x where "x \<in> set fresh" using list.set_sel(1) by blast
  with 2(1) have x: "x \<in> set universe" "x \<notin> set reached" "x \<in> set fresh" by auto
  have "length (filter (\<lambda>y. y \<notin> set (reached @ fresh)) universe)
      < length (filter (\<lambda>y. y \<notin> set reached) universe)"
    using x length_filter_less [of x "filter (\<lambda>y. y \<notin> set reached) universe" "\<lambda>y. y \<notin> set fresh"]
    by (simp add: conj_commute)
  then show ?case by simp
qed simp

declare grow.simps [simp del]

definition delete_task_runs :: "string list \<Rightarrow> database \<Rightarrow> database" where
  "delete_task_runs doomed db =
     (let gone = grow (\<lambda>reached i. case run_row db i of None \<Rightarrow> False
                | Some row \<Rightarrow> (case rr_merged_into row of None \<Rightarrow> False | Some t \<Rightarrow> t \<in> set reached))
                (hm_keys (db_task_runs db)) doomed
      in db\<lparr>db_task_runs := filter (\<lambda>(i, _). i \<notin> set gone) (db_task_runs db),
            db_agent_nodes := filter (\<lambda>(_, n). anr_task_run_id n \<notin> set gone) (db_agent_nodes db),
            db_executions := filter (\<lambda>(_, e). exr_task_run_id e \<notin> set gone) (db_executions db),
            db_execution_edges := filter (\<lambda>((p, c), _). p \<notin> set gone \<and> c \<notin> set gone)
              (db_execution_edges db),
            db_dependency_edges := filter (\<lambda>((p, d), _). p \<notin> set gone \<and> d \<notin> set gone)
              (db_dependency_edges db),
            db_run_rate_totals := filter (\<lambda>(i, _). i \<notin> set gone) (db_run_rate_totals db),
            db_drain_runs := filter (\<lambda>(_, i). i \<notin> set gone) (db_drain_runs db),
            db_publications := filter (\<lambda>(_, canonical, _). canonical \<notin> set gone)
              (db_publications db)\<rparr>)"

definition delete_tab :: "string \<Rightarrow> database \<Rightarrow> database" where
  "delete_tab i db =
     db\<lparr>db_tabs := hm_del i (db_tabs db),
        db_panes := filter (\<lambda>(_, p). pnr_tab_id p \<noteq> i) (db_panes db)\<rparr>"

definition delete_workspace :: "string \<Rightarrow> database \<Rightarrow> database" where
  "delete_workspace i db =
     (let tabs = filter (\<lambda>(_, t). tbr_workspace_id t \<noteq> i) (db_tabs db)
      in db\<lparr>db_workspaces := hs_remove i (db_workspaces db),
            db_tabs := tabs,
            db_panes := filter (\<lambda>(_, p). pnr_workspace_id p \<noteq> i
                \<and> (pnr_tab_id p \<in> set (hm_keys tabs))) (db_panes db)\<rparr>)"

definition delete_events :: "(event_projection \<Rightarrow> bool) \<Rightarrow> database \<Rightarrow> database" where
  "delete_events doomed db =
     (let events = filter (\<lambda>e. \<not> doomed e) (db_events db)
      in db\<lparr>db_events := events,
            db_before_images := filter (\<lambda>((_, i), _). i \<in> set (map ep_event_id events))
              (db_before_images db)\<rparr>)"

text \<open>Set one column group of one row, for updates that no constraint can refuse.\<close>

definition update_run :: "string \<Rightarrow> (task_run_row \<Rightarrow> task_run_row) \<Rightarrow> database \<Rightarrow> database" where
  "update_run i f db =
     (case run_row db i of None \<Rightarrow> db
      | Some row \<Rightarrow> db\<lparr>db_task_runs := hm_put i (f row) (db_task_runs db)\<rparr>)"

end
