(* ===== verification/Store_Write.thy ===== *)
theory Store_Write
  imports Store_Schema
begin

text \<open>
  The writing half of \<open>src/store/mod.rs\<close>: the upserts of task runs, lifecycle state, rate totals,
  executions and agent nodes, the event ledger, key promotion and the dispatch of one persistence
  operation. The merge of two task runs has its own theory and is an argument of the dispatch.
\<close>

section \<open>Lifecycle columns\<close>

definition decode_session_end :: "lifecycle_columns \<Rightarrow> native_session_end option store_result" where
  "decode_session_end c =
     (case (lf_end_status c, lf_end_at_ms c) of
        (Some status, Some at_ms) \<Rightarrow>
          try_then (parse_native_session_end_status status)
            (\<lambda>status. Inr (Some \<lparr>ne_status = status, ne_at_ms = at_ms\<rparr>))
      | (None, None) \<Rightarrow> Inr None
      | _ \<Rightarrow> Inl (InvalidData ''native_session_end''))"

definition decode_watermark ::
  "lifecycle_columns \<Rightarrow> native_lifecycle_watermark option store_result" where
  "decode_watermark c =
     (case (lf_source_at_ms c, lf_observed_at_ms c, lf_source_order c) of
        (Some source_at_ms, Some observed_at_ms, Some source_order) \<Rightarrow>
          Inr (Some (Watermark source_at_ms observed_at_ms source_order))
      | (None, None, None) \<Rightarrow> Inr None
      | _ \<Rightarrow> Inl (InvalidData ''native_lifecycle_watermark''))"

definition decode_history_ready :: "i64 \<Rightarrow> bool store_result" where
  "decode_history_ready value =
     (if value = 0 then Inr False else if value = 1 then Inr True
      else Inl (InvalidData ''task_runs.history_ready''))"

definition decode_lifecycle :: "lifecycle_columns \<Rightarrow> task_run_v6_state store_result" where
  "decode_lifecycle c =
     try_then (decode_session_end c) (\<lambda>session_end.
     try_then (decode_watermark c) (\<lambda>watermark.
     try_then (decode_history_ready (lf_history_ready c)) (\<lambda>ready.
     Inr \<lparr>v6_native_session_end = session_end, v6_lifecycle_watermark = watermark,
       v6_history_ready = ready, v6_latest_provider_at_ms = lf_latest_provider_at_ms c\<rparr>)))"

definition encode_lifecycle :: "task_run_v6_state \<Rightarrow> lifecycle_columns" where
  "encode_lifecycle s =
     \<lparr>lf_end_status =
        map_option (\<lambda>e. native_session_end_status_text (ne_status e)) (v6_native_session_end s),
      lf_end_at_ms = map_option ne_at_ms (v6_native_session_end s),
      lf_source_at_ms = map_option wm_source_at_ms (v6_lifecycle_watermark s),
      lf_observed_at_ms = map_option wm_observed_at_ms (v6_lifecycle_watermark s),
      lf_source_order = map_option wm_source_order (v6_lifecycle_watermark s),
      lf_history_ready = i64_from_bool (v6_history_ready s),
      lf_latest_provider_at_ms = v6_latest_provider_at_ms s\<rparr>"

definition later_time :: "i64 option \<Rightarrow> i64 option \<Rightarrow> i64 option" where
  "later_time a b =
     (case (a, b) of (Some left, Some right) \<Rightarrow> Some (max left right)
      | (Some left, None) \<Rightarrow> Some left | (None, right) \<Rightarrow> right)"

section \<open>Task runs\<close>

definition persisted_finish :: "persist_task_run \<Rightarrow> i64 option" where
  "persisted_finish persisted =
     (if task_is_terminal (tr_state (pt_task_run persisted))
      then opt_or (pt_finished_at_ms persisted) (Some (pt_updated_at_ms persisted)) else None)"

text \<open>The row the statement inserts, or what its \<open>ON CONFLICT\<close> clause makes of the row it finds.\<close>

definition upserted_task_run_row :: "persist_task_run \<Rightarrow> task_run_row option \<Rightarrow> task_run_row" where
  "upserted_task_run_row persisted existing =
     (let task_run = pt_task_run persisted; binding = pt_native_session persisted in
      case existing of
        None \<Rightarrow>
          \<lparr>rr_key = encode_run_key (tr_key task_run),
           rr_display_ordinal = ordinal_get (tr_display_ordinal task_run),
           rr_task_state = task_state_text (tr_state task_run),
           rr_has_controller_event = i64_from_bool (tr_has_controller_task_state_event task_run),
           rr_native_provider = map_option (\<lambda>b. provider_text (nb_provider b)) binding,
           rr_native_session_id = map_option nb_native_session_id binding,
           rr_merged_into = None,
           rr_created_at_ms = pt_created_at_ms persisted,
           rr_updated_at_ms = pt_updated_at_ms persisted,
           rr_finished_at_ms = persisted_finish persisted,
           rr_subject = tr_subject task_run,
           rr_dismissed_at_ms = tr_dismissed_at_ms task_run,
           rr_lifecycle = lifecycle_default\<rparr>
      | Some old \<Rightarrow> old\<lparr>
           rr_key := encode_run_key (tr_key task_run),
           rr_task_state := task_state_text (tr_state task_run),
           rr_has_controller_event := i64_from_bool (tr_has_controller_task_state_event task_run),
           rr_native_provider := map_option (\<lambda>b. provider_text (nb_provider b)) binding,
           rr_native_session_id := map_option nb_native_session_id binding,
           rr_created_at_ms := min (rr_created_at_ms old) (pt_created_at_ms persisted),
           rr_updated_at_ms := pt_updated_at_ms persisted,
           rr_finished_at_ms :=
             (if persisted_finish persisted = None then None
              else opt_or (rr_finished_at_ms old) (persisted_finish persisted)),
           rr_subject := tr_subject task_run,
           rr_dismissed_at_ms := tr_dismissed_at_ms task_run\<rparr>)"

definition upsert_task_run :: "store_env \<Rightarrow> persist_task_run \<Rightarrow> database \<Rightarrow> database store_result" where
  "upsert_task_run env persisted db =
     (let task_run = pt_task_run persisted;
          i = se_run_text env (tr_run_id task_run)
      in if (case run_row db i of None \<Rightarrow> False | Some row \<Rightarrow> rr_merged_into row \<noteq> None)
           then Inl (InvalidData ''merged_into'')
         else
           let db = (case pt_native_session persisted of None \<Rightarrow> db
                     | Some b \<Rightarrow> insert_native_session (provider_text (nb_provider b))
                                   (nb_native_session_id b) db)
           in try_then (upsert_display_ordinal ''task_run'' i (tr_display_ordinal task_run) db) (\<lambda>db.
                write_task_run i (upserted_task_run_row persisted (run_row db i)) db))"

text \<open>\<open>upsert_task_run_v6\<close>: a row that is ready keeps its meaning against a historical upsert, the
  newer lifecycle watermark wins, and readiness and provider time never go back.\<close>

definition keep_semantics :: "task_run_row \<Rightarrow> task_run_row \<Rightarrow> task_run_row" where
  "keep_semantics old row =
     row\<lparr>rr_task_state := rr_task_state old,
       rr_has_controller_event := rr_has_controller_event old,
       rr_updated_at_ms := rr_updated_at_ms old, rr_finished_at_ms := rr_finished_at_ms old,
       rr_subject := rr_subject old, rr_dismissed_at_ms := rr_dismissed_at_ms old\<rparr>"

definition combine_lifecycle ::
  "lifecycle_columns \<Rightarrow> task_run_v6_state \<Rightarrow> task_run_v6_state store_result" where
  "combine_lifecycle existing state =
     (if lf_history_ready existing \<notin> {0, 1} then Inl (InvalidData ''task_runs.history_ready'')
      else try_then (decode_watermark existing) (\<lambda>existing_watermark.
           try_then (decode_session_end existing) (\<lambda>existing_end.
           let state = (if v6_lifecycle_watermark state \<le> existing_watermark
                        then state\<lparr>v6_native_session_end := existing_end,
                                    v6_lifecycle_watermark := existing_watermark\<rparr>
                        else state)
           in Inr (state\<lparr>
                v6_history_ready := v6_history_ready state \<or> lf_history_ready existing \<noteq> 0,
                v6_latest_provider_at_ms :=
                  later_time (v6_latest_provider_at_ms state)
                    (lf_latest_provider_at_ms existing)\<rparr>))))"

definition upsert_task_run_v6 ::
  "store_env \<Rightarrow> persist_task_run_v6 \<Rightarrow> database \<Rightarrow> database store_result" where
  "upsert_task_run_v6 env persisted db =
     (let state = p6_state persisted;
          i = se_run_text env (tr_run_id (pt_task_run (p6_task_run persisted)))
      in if v6_native_session_end state \<noteq> None \<and> v6_lifecycle_watermark state = None
           then Inl (InvalidData ''native_session_end'')
         else if opt_is_some_and (\<lambda>w. wm_source_order w = []) (v6_lifecycle_watermark state)
           then Inl (InvalidData ''lifecycle_source_order'')
         else
           let existing = run_row db i;
               preserve_ready_semantics = opt_is_some_and
                 (\<lambda>row. lf_history_ready (rr_lifecycle row) \<noteq> 0 \<and> \<not> v6_history_ready state) existing
           in try_then (upsert_task_run env (p6_task_run persisted) db) (\<lambda>db.
              let db = (case existing of
                          None \<Rightarrow> db
                        | Some old \<Rightarrow>
                            if preserve_ready_semantics then update_run i (keep_semantics old) db
                            else db)
              in try_then (case existing of
                             None \<Rightarrow> Inr state
                           | Some old \<Rightarrow> combine_lifecycle (rr_lifecycle old) state) (\<lambda>state.
                 Inr (update_run i (\<lambda>row. row\<lparr>rr_lifecycle := encode_lifecycle state\<rparr>) db))))"

text \<open>\<open>i64::try_from\<close> on a clamped total cannot fail.\<close>

definition upsert_run_rate_totals ::
  "store_env \<Rightarrow> run_id \<Rightarrow> run_rate_totals \<Rightarrow> database \<Rightarrow> database store_result" where
  "upsert_run_rate_totals env r totals db =
     (let (totals, _) = rate_clamped totals
      in write_rate_totals (se_run_text env r) (int (rt_output_tokens totals)) (rt_working_ms totals) db)"

section \<open>Executions and agent nodes\<close>

definition upsert_execution ::
  "store_env \<Rightarrow> persist_execution \<Rightarrow> database \<Rightarrow> database store_result" where
  "upsert_execution env persisted db =
     (let execution = pe_execution persisted;
          (state, stale_since_ms) = encode_exec_state (ex_state execution);
          ended = (if exec_is_terminal (ex_state execution)
                   then opt_or (pe_ended_at_ms persisted) (Some (pe_updated_at_ms persisted))
                   else None)
      in write_execution (ex_execution_id execution)
           \<lparr>exr_pane_id = ex_pane_id execution, exr_terminal_id = ex_terminal_id execution,
            exr_task_run_id = se_run_text env (ex_task_run_id execution),
            exr_exec_state = state, exr_stale_since_ms = stale_since_ms,
            exr_started_at_ms =
              (case hm_get (db_executions db) (ex_execution_id execution) of
                 None \<Rightarrow> pe_started_at_ms persisted
               | Some old \<Rightarrow> min (exr_started_at_ms old) (pe_started_at_ms persisted)),
            exr_updated_at_ms = pe_updated_at_ms persisted,
            exr_ended_at_ms = ended\<rparr> db)"

definition agent_node_columns ::
  "store_env \<Rightarrow> agent_node \<Rightarrow> string option \<Rightarrow> i64 option \<Rightarrow> i64 option \<Rightarrow> agent_node_row" where
  "agent_node_columns env node state item_count byte_count =
     \<lparr>anr_provider = provider_text (an_provider node),
      anr_native_session_id = an_native_session_id node,
      anr_task_run_id = se_run_text env (an_task_run_id node),
      anr_parent_agent_node_id = an_parent_agent_node_id node,
      anr_state = state, anr_model_id = an_model_id node,
      anr_last_event_kind = an_last_event_kind node,
      anr_last_tool_name = an_last_tool_name node,
      anr_last_item_count = item_count, anr_last_byte_count = byte_count,
      anr_last_activity_at_ms = an_last_activity_at_ms node,
      anr_session_file = an_session_file node\<rparr>"

definition upsert_agent_node :: "store_env \<Rightarrow> agent_node \<Rightarrow> database \<Rightarrow> database store_result" where
  "upsert_agent_node env node db =
     (let db = (case an_native_session_id node of None \<Rightarrow> db
                | Some sid \<Rightarrow> insert_native_session (provider_text (an_provider node)) sid db)
      in try_then (upsert_display_ordinal ''agent_node'' (an_agent_node_id node)
                     (an_display_ordinal node) db) (\<lambda>db.
         try_then (try_option agent_node_state_text (an_state node)) (\<lambda>state.
         try_then (try_option (signed_count ''agent_nodes.last_item_count'')
                     (an_last_item_count node)) (\<lambda>item_count.
         try_then (try_option (signed_count ''agent_nodes.last_byte_count'')
                     (an_last_byte_count node)) (\<lambda>byte_count.
         write_agent_node (an_agent_node_id node)
           (agent_node_columns env node state item_count byte_count) db)))))"

section \<open>Events\<close>

fun store_event_metadata :: "normalized_event \<Rightarrow> event_metadata \<times> string" where
  "store_event_metadata (ControllerEvent md _) = (md, ''controller_event'')"
| "store_event_metadata (TopologyUpsert md _ _) = (md, ''topology_upsert'')"
| "store_event_metadata (TopologyClosure md _) = (md, ''topology_closure'')"
| "store_event_metadata (AgentStatusChanged md _ _) = (md, ''agent_status_changed'')"
| "store_event_metadata (AgentNodeUpsert md _) = (md, ''agent_node_upsert'')"
| "store_event_metadata (AgentActivity md _ _) = (md, ''agent_activity'')"
| "store_event_metadata (ExecutionBegin md _) = (md, ''execution_begin'')"
| "store_event_metadata (ExecutionEnd md _) = (md, ''execution_end'')"

definition from_provider_metadata ::
  "event_metadata \<Rightarrow> (minimal_provider_metadata \<Rightarrow> 'a option) \<Rightarrow> 'a option" where
  "from_provider_metadata md f = (case md_provider_metadata md of None \<Rightarrow> None | Some v \<Rightarrow> f v)"

definition relational_event_projection ::
  "store_env \<Rightarrow> normalized_event \<Rightarrow> i64 \<Rightarrow> history_drain_id option \<Rightarrow> run_id option
     \<Rightarrow> event_projection store_result" where
  "relational_event_projection env event seen_at_ms drain task_run_id =
     (let (md, normalized_kind) = store_event_metadata event
      in try_then (try_option (signed_count ''event.item_count'')
                     (from_provider_metadata md mp_item_count)) (\<lambda>item_count.
         try_then (try_option (signed_count ''event.byte_count'')
                     (from_provider_metadata md mp_byte_count)) (\<lambda>byte_count.
         try_then (try_option (\<lambda>value. ok_or (IntegerOutOfRange ''event.ingest_seq'')
                     (i64_try_from value)) (md_ingest_seq md)) (\<lambda>ingest_seq.
         try_then (if md_source md = ''provider''
                   then try_then (ok_or (InvalidData ''event.source_coverage'')
                          (se_coverage_json env (md_source_coverage md))) (\<lambda>text. Inr (Some text))
                   else Inr None) (\<lambda>source_coverage.
         Inr \<lparr>ep_event_id = md_event_id md, ep_seen_at_ms = seen_at_ms,
           ep_event_timestamp_ms = md_timestamp_ms md, ep_herdr_session = md_herdr_session md,
           ep_source = md_source md, ep_normalized_kind = normalized_kind,
           ep_source_event_type = md_source_event_type md, ep_workspace_id = md_workspace_id md,
           ep_tab_id = md_tab_id md, ep_pane_id = md_pane_id md, ep_terminal_id = md_terminal_id md,
           ep_provider = map_option provider_text (md_provider md),
           ep_native_session_id = md_native_session_id md,
           ep_task_run_id = map_option (se_run_text env) task_run_id,
           ep_agent_node_id = md_agent_node_id md,
           ep_task_state = map_option task_state_text (md_task_state md),
           ep_model_id = from_provider_metadata md mp_model_id,
           ep_provider_event_kind = from_provider_metadata md mp_event_kind,
           ep_tool_name = from_provider_metadata md mp_tool_name,
           ep_item_count = item_count, ep_byte_count = byte_count, ep_gap_kind = None,
           ep_ingest_seq = ingest_seq,
           ep_provider_agent_id = from_provider_metadata md mp_agent_id,
           ep_provider_parent_agent_id = from_provider_metadata md mp_parent_agent_id,
           ep_source_coverage = source_coverage,
           ep_history_drain_id = map_option drain_text drain\<rparr>)))))"

text \<open>\<open>insert_ledger\<close>: whether the identifier is new.\<close>

definition insert_ledger :: "string \<Rightarrow> i64 \<Rightarrow> database \<Rightarrow> database \<times> bool" where
  "insert_ledger event_id seen_at_ms db =
     (if hm_get (db_event_ledger db) event_id \<noteq> None then (db, False)
      else (db\<lparr>db_event_ledger := hm_put event_id seen_at_ms (db_event_ledger db)\<rparr>, True))"

definition touch_herdr_session :: "string \<Rightarrow> i64 \<Rightarrow> database \<Rightarrow> database" where
  "touch_herdr_session name seen_at_ms db =
     db\<lparr>db_herdr_sessions := hm_put name
         (case hm_get (db_herdr_sessions db) name of None \<Rightarrow> seen_at_ms
          | Some updated_at_ms \<Rightarrow> max updated_at_ms seen_at_ms) (db_herdr_sessions db)\<rparr>"

definition insert_event :: "event_projection \<Rightarrow> database \<Rightarrow> database store_result" where
  "insert_event e db =
     (if ep_event_id e \<in> set (map ep_event_id (db_events db)) then Inl (Sqlite UniqueFailed)
      else Inr (db\<lparr>db_events := db_events db @ [e]\<rparr>))"

definition record_event ::
  "store_env \<Rightarrow> normalized_event \<Rightarrow> i64 \<Rightarrow> history_drain_id option \<Rightarrow> database
     \<Rightarrow> database store_result" where
  "record_event env event seen_at_ms drain db =
     (let md = fst (store_event_metadata event);
          (db, inserted) = insert_ledger (md_event_id md) seen_at_ms db
      in if \<not> inserted then Inr db
         else let db = touch_herdr_session (md_herdr_session md) seen_at_ms db
              in try_then (relational_event_projection env event seen_at_ms drain (md_task_run_id md))
                   (\<lambda>projection. insert_event projection db))"

definition gap_projection :: "collector_gap \<Rightarrow> event_projection" where
  "gap_projection gap =
     \<lparr>ep_event_id = cg_event_id gap, ep_seen_at_ms = cg_seen_at_ms gap,
      ep_event_timestamp_ms = cg_seen_at_ms gap, ep_herdr_session = cg_herdr_session gap,
      ep_source = ''collector'', ep_normalized_kind = ''collector_gap'',
      ep_source_event_type = ''observation_gap'', ep_workspace_id = None, ep_tab_id = None,
      ep_pane_id = None, ep_terminal_id = None, ep_provider = None, ep_native_session_id = None,
      ep_task_run_id = None, ep_agent_node_id = None, ep_task_state = None, ep_model_id = None,
      ep_provider_event_kind = None, ep_tool_name = None, ep_item_count = None,
      ep_byte_count = None, ep_gap_kind = Some (gap_kind_text (cg_kind gap)),
      ep_ingest_seq = None, ep_provider_agent_id = None, ep_provider_parent_agent_id = None,
      ep_source_coverage = None, ep_history_drain_id = None\<rparr>"

definition record_gap :: "collector_gap \<Rightarrow> database \<Rightarrow> database store_result" where
  "record_gap gap db =
     (let (db, inserted) = insert_ledger (cg_event_id gap) (cg_seen_at_ms gap) db
      in if \<not> inserted then Inr db
         else insert_event (gap_projection gap)
                (touch_herdr_session (cg_herdr_session gap) (cg_seen_at_ms gap) db))"

definition advance_ingest_sequence :: "i64 \<Rightarrow> database \<Rightarrow> database store_result" where
  "advance_ingest_sequence ingest_seq db =
     (if db_ingest_high_water db < ingest_seq then Inr (db\<lparr>db_ingest_high_water := ingest_seq\<rparr>)
      else Inl (InvalidData ''ingest_seq''))"

section \<open>Promotion of a key\<close>

text \<open>The canonical row takes the new key; the old key stays on an alias row below every display
  ordinal in use.\<close>

definition alias_ordinal :: "database \<Rightarrow> i64" where
  "alias_ordinal db =
     (case map rr_display_ordinal (hm_values (db_task_runs db)) of
        [] \<Rightarrow> 0 - 1 | n # ns \<Rightarrow> fold min ns n - 1)"

definition alias_row :: "run_key \<Rightarrow> persist_task_run \<Rightarrow> string \<Rightarrow> i64 \<Rightarrow> task_run_row" where
  "alias_row old_key promoted canonical ordinal =
     \<lparr>rr_key = encode_run_key old_key, rr_display_ordinal = ordinal,
      rr_task_state = task_state_text (tr_state (pt_task_run promoted)),
      rr_has_controller_event =
        i64_from_bool (tr_has_controller_task_state_event (pt_task_run promoted)),
      rr_native_provider = None, rr_native_session_id = None, rr_merged_into = Some canonical,
      rr_created_at_ms = pt_created_at_ms promoted, rr_updated_at_ms = pt_updated_at_ms promoted,
      rr_finished_at_ms = pt_finished_at_ms promoted, rr_subject = None,
      rr_dismissed_at_ms = None, rr_lifecycle = lifecycle_default\<rparr>"

definition promote_task_run_key ::
  "store_env \<Rightarrow> persist_task_run \<Rightarrow> run_key \<Rightarrow> run_id \<Rightarrow> database \<Rightarrow> database store_result" where
  "promote_task_run_key env promoted old_key alias_run_id db =
     (let canonical = se_run_text env (tr_run_id (pt_task_run promoted));
          alias_id = se_run_text env alias_run_id
      in try_then (ok_or (Sqlite NoRowReturned)
                     (opt_filter (\<lambda>row. rr_merged_into row = None) (run_row db canonical))) (\<lambda>row.
         try_then (decode_run_key (rr_key row)) (\<lambda>decoded.
         try_then (ensure (InvalidData ''task_run_key'') (decoded = old_key)) (\<lambda>_.
         try_then (upsert_task_run env promoted db) (\<lambda>db.
         try_then (ensure (Sqlite UniqueFailed) (\<not> run_exists db alias_id)) (\<lambda>_.
         write_task_run alias_id (alias_row old_key promoted canonical (alias_ordinal db)) db))))))"

end
