(* ===== verification/Store_Merge.thy ===== *)
theory Store_Merge
  imports Store_Write
begin

text \<open>
  The merge of two canonical task runs in the database (\<open>merge_task_runs\<close> and its helpers in
  \<open>src/store/mod.rs\<close>), the dispatch of one persistence operation, and the transactional batch.
\<close>

section \<open>The two parties\<close>

record merge_party =
  mg_binding :: "(string \<times> string) option"
  mg_state :: task_state
  mg_finished_at_ms :: "i64 option"
  mg_updated_at_ms :: i64
  mg_v6_state :: task_run_v6_state

definition read_canonical_merge_party :: "string \<Rightarrow> database \<Rightarrow> merge_party store_result" where
  "read_canonical_merge_party i db =
     try_then (ok_or (InvalidData ''task_run_merge'') (run_row db i)) (\<lambda>row.
     try_then (ensure (InvalidData ''merged_into'') (rr_merged_into row = None)) (\<lambda>_.
     try_then (case (rr_native_provider row, rr_native_session_id row) of
                 (Some provider, Some sid) \<Rightarrow> Inr (Some (provider, sid))
               | (None, None) \<Rightarrow> Inr None
               | _ \<Rightarrow> Inl (InvalidData ''native_session_binding'')) (\<lambda>binding.
     try_then (decode_lifecycle (rr_lifecycle row)) (\<lambda>v6_state.
     try_then (parse_task_state (rr_task_state row)) (\<lambda>state.
     Inr \<lparr>mg_binding = binding, mg_state = state, mg_finished_at_ms = rr_finished_at_ms row,
       mg_updated_at_ms = rr_updated_at_ms row, mg_v6_state = v6_state\<rparr>)))))"

section \<open>Contraction of the edges\<close>

definition substitute_run_id :: "string \<Rightarrow> string \<Rightarrow> string \<Rightarrow> string" where
  "substitute_run_id survivor absorbed value = (if value = absorbed then survivor else value)"

definition substitute_execution_edge ::
  "string \<Rightarrow> string \<Rightarrow> (string \<times> string) \<times> i64 \<Rightarrow> (string, string \<times> i64) hmap
     \<Rightarrow> (string, string \<times> i64) hmap store_result" where
  "substitute_execution_edge survivor absorbed edge substituted =
     (case edge of ((parent, child), created_at_ms) \<Rightarrow>
        let parent = substitute_run_id survivor absorbed parent;
            child = substitute_run_id survivor absorbed child
        in if parent = child then Inl (InvalidData ''execution_edge'')
           else case hm_get substituted child of
                  None \<Rightarrow> Inr (hm_put child (parent, created_at_ms) substituted)
                | Some (existing_parent, oldest) \<Rightarrow>
                    if existing_parent \<noteq> parent then Inl (InvalidData ''execution_edge'')
                    else Inr (hm_put child (existing_parent, min oldest created_at_ms) substituted))"

definition substituted_execution_edges ::
  "string \<Rightarrow> string \<Rightarrow> database \<Rightarrow> (string \<times> string \<times> i64) list store_result" where
  "substituted_execution_edges survivor absorbed db =
     try_then (try_fold (substitute_execution_edge survivor absorbed) (db_execution_edges db) [])
       (\<lambda>substituted. Inr (sort_key (\<lambda>(parent, child, _). (parent, child))
          (map (\<lambda>(child, parent, created_at_ms). (parent, child, created_at_ms)) substituted)))"

definition substitute_dependency_edge ::
  "string \<Rightarrow> string \<Rightarrow> (string \<times> string) \<times> i64 \<Rightarrow> (string \<times> string, i64) hmap
     \<Rightarrow> (string \<times> string, i64) hmap store_result" where
  "substitute_dependency_edge survivor absorbed edge substituted =
     (case edge of ((prerequisite, dependent), created_at_ms) \<Rightarrow>
        let prerequisite = substitute_run_id survivor absorbed prerequisite;
            dependent = substitute_run_id survivor absorbed dependent
        in if prerequisite = dependent then Inl (InvalidData ''dependency_edge'')
           else Inr (hm_put (prerequisite, dependent)
                  (case hm_get substituted (prerequisite, dependent) of
                     None \<Rightarrow> created_at_ms | Some oldest \<Rightarrow> min oldest created_at_ms) substituted))"

definition substituted_dependency_edges ::
  "string \<Rightarrow> string \<Rightarrow> database \<Rightarrow> (string \<times> string \<times> i64) list store_result" where
  "substituted_dependency_edges survivor absorbed db =
     try_then (try_fold (substitute_dependency_edge survivor absorbed) (db_dependency_edges db) [])
       (\<lambda>substituted. Inr (sort_key (\<lambda>(prerequisite, dependent, _). (prerequisite, dependent))
          (map (\<lambda>((prerequisite, dependent), created_at_ms).
             (prerequisite, dependent, created_at_ms)) substituted)))"

definition replace_execution_edges ::
  "(string \<times> string \<times> i64) list \<Rightarrow> database \<Rightarrow> database store_result" where
  "replace_execution_edges edges db =
     try_fold (\<lambda>(parent, child, created_at_ms). insert_execution_edge_row parent child created_at_ms)
       edges (db\<lparr>db_execution_edges := []\<rparr>)"

definition replace_dependency_edges ::
  "(string \<times> string \<times> i64) list \<Rightarrow> database \<Rightarrow> database store_result" where
  "replace_dependency_edges edges db =
     try_fold (\<lambda>(prerequisite, dependent, created_at_ms).
         insert_dependency_edge_row prerequisite dependent created_at_ms)
       edges (db\<lparr>db_dependency_edges := []\<rparr>)"

section \<open>Lifecycle and rates\<close>

definition completed_coverage :: "string \<Rightarrow> string \<Rightarrow> database \<Rightarrow> bool" where
  "completed_coverage survivor absorbed db =
     list_ex (\<lambda>(drain, i). (i = survivor \<or> i = absorbed)
         \<and> (case hm_get (db_history_drains db) drain of None \<Rightarrow> False
            | Some row \<Rightarrow> dr_finalized_at_ms row \<noteq> None)) (db_drain_runs db)"

definition merge_v6_run_state ::
  "string \<Rightarrow> string \<Rightarrow> task_run_v6_state \<Rightarrow> task_run_v6_state \<Rightarrow> database \<Rightarrow> database" where
  "merge_v6_run_state survivor absorbed survivor_state absorbed_state db =
     (let merged = survivor_state;
          merged = (if v6_lifecycle_watermark merged < v6_lifecycle_watermark absorbed_state
                    then merged\<lparr>v6_native_session_end := v6_native_session_end absorbed_state,
                                 v6_lifecycle_watermark := v6_lifecycle_watermark absorbed_state\<rparr>
                    else merged);
          merged = merged\<lparr>
            v6_history_ready := v6_history_ready merged \<or> v6_history_ready absorbed_state
              \<or> completed_coverage survivor absorbed db,
            v6_latest_provider_at_ms :=
              later_time (v6_latest_provider_at_ms merged)
                (v6_latest_provider_at_ms absorbed_state)\<rparr>
      in update_run survivor (\<lambda>row. row\<lparr>rr_lifecycle := encode_lifecycle merged\<rparr>) db)"

definition read_rate_totals :: "string \<Rightarrow> database \<Rightarrow> run_rate_totals option store_result" where
  "read_rate_totals i db =
     try_option (\<lambda>(output_tokens, working_ms).
       if output_tokens < 0 \<or> working_ms < 0 then Inl (InvalidData ''run_rate_totals'')
       else Inr \<lparr>rt_output_tokens = nat output_tokens, rt_working_ms = working_ms\<rparr>)
       (hm_get (db_run_rate_totals db) i)"

definition merge_rate_totals :: "string \<Rightarrow> string \<Rightarrow> database \<Rightarrow> database store_result" where
  "merge_rate_totals survivor absorbed db =
     try_then (read_rate_totals survivor db) (\<lambda>survivor_totals.
     try_then (read_rate_totals absorbed db) (\<lambda>absorbed_totals.
     try_then (if survivor_totals = None \<and> absorbed_totals = None then Inr db
               else let merged = fst (rate_saturating_add
                          (opt_unwrap_or rate_totals_default survivor_totals)
                          (opt_unwrap_or rate_totals_default absorbed_totals))
                    in write_rate_totals survivor (int (rt_output_tokens merged))
                         (rt_working_ms merged) db) (\<lambda>db.
     Inr (db\<lparr>db_run_rate_totals := hm_del absorbed (db_run_rate_totals db)\<rparr>))))"

section \<open>The merge\<close>

definition transfer_binding ::
  "string \<Rightarrow> string \<Rightarrow> (string \<times> string) option \<Rightarrow> (string \<times> string) option \<Rightarrow> database
     \<Rightarrow> database store_result" where
  "transfer_binding survivor absorbed survivor_binding absorbed_binding db =
     (case (survivor_binding, absorbed_binding) of
        (None, Some (provider, sid)) \<Rightarrow>
          Inr (update_run survivor
                 (\<lambda>row. row\<lparr>rr_native_provider := Some provider, rr_native_session_id := Some sid\<rparr>)
                 (update_run absorbed
                   (\<lambda>row. row\<lparr>rr_native_provider := None, rr_native_session_id := None\<rparr>) db))
      | (Some _, Some _) \<Rightarrow> Inl (InvalidData ''native_session_binding'')
      | _ \<Rightarrow> Inr db)"

text \<open>The events of the absorbed run keep an image of their owner under the drain being read and
  under every open drain of either party.\<close>

definition keep_event_images ::
  "string \<Rightarrow> string \<Rightarrow> history_drain_id option \<Rightarrow> database \<Rightarrow> database store_result" where
  "keep_event_images survivor absorbed drain db =
     (let moved = filter (\<lambda>e. ep_task_run_id e = Some absorbed) (db_events db);
          keep = (\<lambda>drain e. insert_before_image drain (ep_event_id e) (ep_task_run_id e));
          open_drains = filter_map (\<lambda>(d, i).
            if (i = survivor \<or> i = absorbed)
               \<and> (case hm_get (db_history_drains db) d of None \<Rightarrow> False
                  | Some row \<Rightarrow> dr_finalized_at_ms row = None)
            then Some d else None) (db_drain_runs db)
      in try_then (case drain of None \<Rightarrow> Inr db
                   | Some d \<Rightarrow> try_fold (keep (drain_text d)) moved db) (\<lambda>db.
         try_fold (\<lambda>e. try_fold (\<lambda>d. keep d e) open_drains) moved db))"

definition repoint_rows :: "string \<Rightarrow> string \<Rightarrow> database \<Rightarrow> database" where
  "repoint_rows survivor absorbed db =
     db\<lparr>db_executions := hm_map_values (\<lambda>e. if exr_task_run_id e = absorbed
            then e\<lparr>exr_task_run_id := survivor\<rparr> else e) (db_executions db),
        db_agent_nodes := hm_map_values (\<lambda>n. if anr_task_run_id n = absorbed
            then n\<lparr>anr_task_run_id := survivor\<rparr> else n) (db_agent_nodes db),
        db_events := map (\<lambda>e. if ep_task_run_id e = Some absorbed
            then e\<lparr>ep_task_run_id := Some survivor\<rparr> else e) (db_events db),
        db_publications := hm_map_values (\<lambda>(canonical, payload).
            (if canonical = absorbed then survivor else canonical, payload)) (db_publications db)\<rparr>"

definition transfer_associations :: "string \<Rightarrow> string \<Rightarrow> database \<Rightarrow> database" where
  "transfer_associations survivor absorbed db =
     (let taken = filter_map (\<lambda>(drain, i). if i = absorbed then Some (drain, survivor) else None)
                    (db_drain_runs db)
      in db\<lparr>db_drain_runs := filter (\<lambda>(_, i). i \<noteq> absorbed)
              (hs_extend (db_drain_runs db) taken)\<rparr>)"

definition merged_finish :: "merge_party \<Rightarrow> merge_party \<Rightarrow> i64 option" where
  "merged_finish survivor absorbed =
     (if task_is_terminal (mg_state survivor)
      then (case (mg_finished_at_ms survivor, mg_finished_at_ms absorbed) of
              (Some survivor_time, Some absorbed_time) \<Rightarrow> Some (min survivor_time absorbed_time)
            | (Some time, None) \<Rightarrow> Some time
            | (None, Some time) \<Rightarrow> Some time
            | (None, None) \<Rightarrow> Some (mg_updated_at_ms survivor))
      else None)"

text \<open>The absorbed row and every alias of it become aliases of the survivor.\<close>

definition redirect_aliases :: "string \<Rightarrow> string \<Rightarrow> database \<Rightarrow> database" where
  "redirect_aliases survivor absorbed db =
     update_run absorbed (\<lambda>row. row\<lparr>rr_merged_into := Some survivor\<rparr>)
       (db\<lparr>db_task_runs := hm_map_values (\<lambda>row. if rr_merged_into row = Some absorbed
           then row\<lparr>rr_merged_into := Some survivor\<rparr> else row) (db_task_runs db)\<rparr>)"

definition merge_task_runs ::
  "store_env \<Rightarrow> run_id \<Rightarrow> run_id \<Rightarrow> history_drain_id option \<Rightarrow> database \<Rightarrow> database store_result" where
  "merge_task_runs env survivor absorbed drain db =
     (let s = se_run_text env survivor; a = se_run_text env absorbed
      in try_then (ensure (InvalidData ''task_run_merge'') (survivor \<noteq> absorbed)) (\<lambda>_.
         try_then (read_canonical_merge_party s db) (\<lambda>survivor_party.
         try_then (read_canonical_merge_party a db) (\<lambda>absorbed_party.
         try_then (transfer_binding s a (mg_binding survivor_party) (mg_binding absorbed_party) db) (\<lambda>db.
         try_then (substituted_execution_edges s a db) (\<lambda>execution_edges.
         try_then (substituted_dependency_edges s a db) (\<lambda>dependency_edges.
         try_then (keep_event_images s a drain db) (\<lambda>db.
         try_then (replace_execution_edges execution_edges (repoint_rows s a db)) (\<lambda>db.
         try_then (replace_dependency_edges dependency_edges db) (\<lambda>db.
         try_then (merge_rate_totals s a (merge_v6_run_state s a (mg_v6_state survivor_party)
                     (mg_v6_state absorbed_party) db)) (\<lambda>db.
         Inr (redirect_aliases s a
                (update_run s (\<lambda>row. row\<lparr>rr_finished_at_ms :=
                     merged_finish survivor_party absorbed_party\<rparr>)
                  (transfer_associations s a db))))))))))))))"

section \<open>One operation, one batch\<close>

fun apply_store_operation ::
  "store_env \<Rightarrow> history_drain_id option \<Rightarrow> persist_op \<Rightarrow> database \<Rightarrow> database store_result" where
  "apply_store_operation env drain (UpsertWorkspace workspace display_ordinal) db =
     try_then (upsert_display_ordinal ''workspace'' (ws_workspace_id workspace) display_ordinal db)
       (\<lambda>db. Inr (db\<lparr>db_workspaces := hs_insert (ws_workspace_id workspace) (db_workspaces db)\<rparr>))"
| "apply_store_operation env drain (UpsertTab tab display_ordinal) db =
     try_then (upsert_display_ordinal ''tab'' (tb_tab_id tab) display_ordinal db) (\<lambda>db.
       write_tab (tb_tab_id tab)
         \<lparr>tbr_workspace_id = tb_workspace_id tab,
          tbr_label = opt_or (tb_label tab)
            (case hm_get (db_tabs db) (tb_tab_id tab) of None \<Rightarrow> None
             | Some old \<Rightarrow> tbr_label old)\<rparr> db)"
| "apply_store_operation env drain (UpsertPane pane display_ordinal) db =
     try_then (upsert_display_ordinal ''pane'' (pn_pane_id pane) display_ordinal db) (\<lambda>db.
       write_pane (pn_pane_id pane)
         \<lparr>pnr_workspace_id = pn_workspace_id pane, pnr_tab_id = pn_tab_id pane,
          pnr_terminal_id = pn_terminal_id pane,
          pnr_display_name = opt_or (pn_display_name pane)
            (case hm_get (db_panes db) (pn_pane_id pane) of None \<Rightarrow> None
             | Some old \<Rightarrow> pnr_display_name old)\<rparr> db)"
| "apply_store_operation env drain (DeleteWorkspace i) db =
     Inr (delete_display_ordinal ''workspace'' i (delete_workspace i db))"
| "apply_store_operation env drain (DeleteTab i) db =
     Inr (delete_display_ordinal ''tab'' i (delete_tab i db))"
| "apply_store_operation env drain (ClearTabLabel i) db =
     Inr (case hm_get (db_tabs db) i of None \<Rightarrow> db
          | Some row \<Rightarrow> db\<lparr>db_tabs := hm_put i (row\<lparr>tbr_label := None\<rparr>) (db_tabs db)\<rparr>)"
| "apply_store_operation env drain (ClearPaneDisplayName i) db =
     Inr (case hm_get (db_panes db) i of None \<Rightarrow> db
          | Some row \<Rightarrow> db\<lparr>db_panes := hm_put i (row\<lparr>pnr_display_name := None\<rparr>) (db_panes db)\<rparr>)"
| "apply_store_operation env drain (DeletePane i) db =
     Inr (delete_display_ordinal ''pane'' i (db\<lparr>db_panes := hm_del i (db_panes db)\<rparr>))"
| "apply_store_operation env drain (UpsertTaskRun task_run) db = upsert_task_run env task_run db"
| "apply_store_operation env drain (PromoteTaskRunKey promoted old_key alias_run_id) db =
     promote_task_run_key env promoted old_key alias_run_id db"
| "apply_store_operation env drain (MergeTaskRuns survivor absorbed) db =
     merge_task_runs env survivor absorbed drain db"
| "apply_store_operation env drain (UpsertExecution execution) db = upsert_execution env execution db"
| "apply_store_operation env drain (UpsertAgentNode node) db = upsert_agent_node env node db"
| "apply_store_operation env drain (UpsertExecutionEdge edge created_at_ms) db =
     (let parent = se_run_text env (ee_parent_run_id edge);
          child = se_run_text env (ee_child_run_id edge)
      in if hm_get (db_execution_edges db) (parent, child) \<noteq> None then Inr db
         else insert_execution_edge_row parent child created_at_ms db)"
| "apply_store_operation env drain (UpsertDependencyEdge edge created_at_ms) db =
     (let prerequisite = se_run_text env (de_prerequisite_run_id edge);
          dependent = se_run_text env (de_dependent_run_id edge)
      in if hm_get (db_dependency_edges db) (prerequisite, dependent) \<noteq> None then Inr db
         else insert_dependency_edge_row prerequisite dependent created_at_ms db)"
| "apply_store_operation env drain (RecordEvent event seen_at_ms) db =
     record_event env event seen_at_ms drain db"
| "apply_store_operation env drain (RecordCollectorGap gap) db = record_gap gap db"
| "apply_store_operation env drain (AdvanceIngestSequence ingest_seq) db =
     advance_ingest_sequence ingest_seq db"

text \<open>A transaction: its caller sees the database it had before when any statement failed.\<close>

definition transact ::
  "(database \<Rightarrow> database store_result) \<Rightarrow> database \<Rightarrow> database \<times> unit store_result" where
  "transact body db = (case body db of Inl e \<Rightarrow> (db, Inl e) | Inr db' \<Rightarrow> (db', Inr ()))"

definition apply_batch ::
  "store_env \<Rightarrow> persist_batch \<Rightarrow> database \<Rightarrow> database \<times> unit store_result" where
  "apply_batch env batch = transact (try_fold (apply_store_operation env None) batch)"

end
