(* ===== verification/Store_History.thy ===== *)
theory Store_History
  imports Store_Merge
begin

text \<open>
  History drains in \<open>src/store/mod.rs\<close>: the frozen manifest of a drain, the recognition of a batch
  that is already durable, the versioned batch, and the finalization of a drain.
\<close>

section \<open>The frozen manifest\<close>

definition checked_artifact ::
  "persist_history_drain_artifact \<Rightarrow> string list \<times> (string \<times> string \<times> i64) list
     \<Rightarrow> (string list \<times> (string \<times> string \<times> i64) list) store_result" where
  "checked_artifact artifact st =
     (case st of (artifact_ids, manifest) \<Rightarrow>
        if pa_artifact_id artifact = [] \<or> pa_generation artifact = []
          then Inl (InvalidData ''history_drain_artifact'')
        else if pa_artifact_id artifact \<in> set artifact_ids
          then Inl (InvalidData ''history_drain_artifacts.artifact_id'')
        else try_then (ok_or (IntegerOutOfRange ''history_drain_artifacts.goalpost'')
                         (i64_try_from (pa_goalpost artifact))) (\<lambda>goalpost.
             Inr (artifact_ids @ [pa_artifact_id artifact],
                  manifest @ [(pa_artifact_id artifact, pa_generation artifact, goalpost)])))"

definition stored_manifest :: "string \<Rightarrow> database \<Rightarrow> (string \<times> string \<times> i64) list" where
  "stored_manifest drain db =
     sort_key fst (filter_map (\<lambda>((d, artifact), generation, goalpost).
        if d = drain then Some (artifact, generation, goalpost) else None) (db_drain_artifacts db))"

definition upsert_history_drain :: "persist_history_drain \<Rightarrow> database \<Rightarrow> database store_result" where
  "upsert_history_drain drain db =
     (let i = drain_text (pd_drain_id drain); provider = provider_text (pd_provider drain)
      in try_then (try_fold checked_artifact (pd_artifacts drain) ([], [])) (\<lambda>(_, incoming).
         let incoming = sort incoming
         in case hm_get (db_history_drains db) i of
              Some row \<Rightarrow>
                if dr_provider row \<noteq> provider then Inl (InvalidData ''history_drains'')
                else if stored_manifest i db \<noteq> incoming
                  then Inl (InvalidData ''history_drain_artifacts'')
                else Inr db
            | None \<Rightarrow>
                let row = \<lparr>dr_provider = provider, dr_created_at_ms = pd_created_at_ms drain,
                      dr_finalized_at_ms = None, dr_completed_by_drain_id = None\<rparr>
                in if \<not> drain_checks i row
                     \<or> list_ex (\<lambda>(artifact, generation, goalpost). \<not> artifact_checks artifact generation goalpost) incoming
                   then Inl (Sqlite CheckFailed)
                   else
                Inr (db\<lparr>db_history_drains := hm_put i row (db_history_drains db),
                        db_drain_artifacts := db_drain_artifacts db
                          @ map (\<lambda>(artifact, generation, goalpost).
                               ((i, artifact), generation, goalpost)) incoming\<rparr>)))"

section \<open>A batch that is already durable\<close>

definition canonical_run_after_operations :: "run_id \<Rightarrow> persist_op list \<Rightarrow> run_id" where
  "canonical_run_after_operations r operations =
     fold (\<lambda>operation r. case operation of
         MergeTaskRuns survivor absorbed \<Rightarrow> if absorbed = r then survivor else r
       | _ \<Rightarrow> r) operations r"

definition is_advance :: "persist_op \<Rightarrow> bool" where
  "is_advance operation = (case operation of AdvanceIngestSequence _ \<Rightarrow> True | _ \<Rightarrow> False)"

text \<open>The identifiers of the recorded events, or nothing when one of them was not stamped with the
  sequence number of the batch or appears twice.\<close>

fun stamped_event_ids :: "i64 \<Rightarrow> persist_op list \<Rightarrow> string list \<Rightarrow> string list option" where
  "stamped_event_ids ingest_seq [] ids = Some ids"
| "stamped_event_ids ingest_seq (operation # operations) ids =
     (case operation of
        RecordEvent event _ \<Rightarrow>
          (let md = fst (store_event_metadata event) in
           case Option.bind (md_ingest_seq md) i64_try_from of
             None \<Rightarrow> None
           | Some event_ingest_seq \<Rightarrow>
               if event_ingest_seq \<noteq> ingest_seq \<or> md_event_id md \<in> set ids then None
               else stamped_event_ids ingest_seq operations (ids @ [md_event_id md]))
      | _ \<Rightarrow> stamped_event_ids ingest_seq operations ids)"

definition same_elements :: "'a list \<Rightarrow> 'a list \<Rightarrow> bool" where
  "same_elements xs ys \<longleftrightarrow> list_all (\<lambda>x. x \<in> set ys) xs \<and> list_all (\<lambda>y. y \<in> set xs) ys"

definition durable_run_key_and_target ::
  "store_env \<Rightarrow> run_id \<Rightarrow> database \<Rightarrow> (run_key \<times> run_id option) option store_result" where
  "durable_run_key_and_target env r db =
     (case run_row db (se_run_text env r) of
        None \<Rightarrow> Inr None
      | Some row \<Rightarrow>
          try_then (decode_run_key (rr_key row)) (\<lambda>key.
          try_then (try_option (parse_run_id env) (rr_merged_into row)) (\<lambda>target.
          Inr (Some (key, target)))))"

definition durable_agent_node_matches ::
  "store_env \<Rightarrow> agent_node \<Rightarrow> database \<Rightarrow> bool store_result" where
  "durable_agent_node_matches env expected db =
     (let i = an_agent_node_id expected in
      case (hm_get (db_agent_nodes db) i, hm_get (db_display_ordinals db) (''agent_node'', i)) of
        (Some row, Some ordinal) \<Rightarrow>
          try_then (parse_provider (anr_provider row)) (\<lambda>provider.
          try_then (parse_run_id env (anr_task_run_id row)) (\<lambda>task_run_id.
          try_then (parse_agent_node_state (anr_state row)) (\<lambda>state.
          try_then (optional_unsigned_count ''agent_nodes.last_item_count''
                      (anr_last_item_count row)) (\<lambda>item_count.
          try_then (optional_unsigned_count ''agent_nodes.last_byte_count''
                      (anr_last_byte_count row)) (\<lambda>byte_count.
          Inr (\<lparr>an_agent_node_id = i, an_provider = provider,
                an_native_session_id = anr_native_session_id row, an_task_run_id = task_run_id,
                an_display_ordinal = DisplayOrdinal ordinal,
                an_parent_agent_node_id = anr_parent_agent_node_id row, an_state = state,
                an_model_id = anr_model_id row, an_last_event_kind = anr_last_event_kind row,
                an_last_tool_name = anr_last_tool_name row, an_last_item_count = item_count,
                an_last_byte_count = byte_count,
                an_last_activity_at_ms = anr_last_activity_at_ms row,
                an_session_file = anr_session_file row\<rparr> = expected))))))
      | _ \<Rightarrow> Inr False)"

definition durable_event_projection_matches :: "event_projection \<Rightarrow> database \<Rightarrow> bool" where
  "durable_event_projection_matches expected db =
     (first_of (filter (\<lambda>e. ep_event_id e = ep_event_id expected) (db_events db)) = Some expected)"

definition durable_task_run_v6_matches ::
  "store_env \<Rightarrow> persist_task_run_v6 \<Rightarrow> database \<Rightarrow> bool store_result" where
  "durable_task_run_v6_matches env expected db =
     (let persisted = p6_task_run expected; task_run = pt_task_run persisted;
          binding = pt_native_session persisted
      in try_then (durable_run_key_and_target env (tr_run_id task_run) db) (\<lambda>stored.
         Inr (case (stored, run_row db (se_run_text env (tr_run_id task_run))) of
                (Some (key, target), Some row) \<Rightarrow>
                  key = tr_key task_run \<and> target = None
                  \<and> rr_display_ordinal row = ordinal_get (tr_display_ordinal task_run)
                  \<and> rr_task_state row = task_state_text (tr_state task_run)
                  \<and> rr_has_controller_event row =
                      i64_from_bool (tr_has_controller_task_state_event task_run)
                  \<and> rr_native_provider row = map_option (\<lambda>b. provider_text (nb_provider b)) binding
                  \<and> rr_native_session_id row = map_option nb_native_session_id binding
                  \<and> rr_created_at_ms row = pt_created_at_ms persisted
                  \<and> rr_updated_at_ms row = pt_updated_at_ms persisted
                  \<and> rr_finished_at_ms row = persisted_finish persisted
                  \<and> rr_subject row = tr_subject task_run
                  \<and> rr_dismissed_at_ms row = tr_dismissed_at_ms task_run
                  \<and> rr_lifecycle row = encode_lifecycle (p6_state expected)
              | _ \<Rightarrow> False)))"

definition durable_history_drain_matches ::
  "persist_history_drain \<Rightarrow> database \<Rightarrow> bool store_result" where
  "durable_history_drain_matches expected db =
     (let i = drain_text (pd_drain_id expected) in
      case hm_get (db_history_drains db) i of
        None \<Rightarrow> Inr False
      | Some row \<Rightarrow>
          if dr_provider row \<noteq> provider_text (pd_provider expected)
             \<or> dr_created_at_ms row \<noteq> pd_created_at_ms expected \<or> dr_finalized_at_ms row \<noteq> None
            then Inr False
          else try_then (try_map (\<lambda>artifact.
                   try_then (ok_or (IntegerOutOfRange ''history_drain_artifacts.goalpost'')
                               (i64_try_from (pa_goalpost artifact))) (\<lambda>goalpost.
                   Inr (pa_artifact_id artifact, pa_generation artifact, goalpost)))
                 (pd_artifacts expected)) (\<lambda>artifacts.
               Inr (stored_manifest i db = sort artifacts)))"

text \<open>Stops at the first check that fails, as the early returns do.\<close>

fun try_all :: "('a \<Rightarrow> bool store_result) \<Rightarrow> 'a list \<Rightarrow> bool store_result" where
  "try_all check [] = Inr True"
| "try_all check (x # xs) = try_then (check x) (\<lambda>ok. if ok then try_all check xs else Inr False)"

text \<open>One operation of an identity batch: its durable trace is checked at once, or it is put aside
  for the checks after the loop. \<open>None\<close> is the early \<open>return Ok(false)\<close>.\<close>

record replay_expectation =
  rx_has_identity :: bool
  rx_event_ids :: "string list"
  rx_events :: "event_projection list"
  rx_agent_nodes :: "(string, agent_node) hmap"

definition replay_identity ::
  "store_env \<Rightarrow> persist_v6_batch \<Rightarrow> run_id list \<Rightarrow> database \<Rightarrow> persist_op
     \<Rightarrow> replay_expectation \<Rightarrow> replay_expectation option store_result" where
  "replay_identity env batch expected_runs db operation x =
     (let operations = vb_operations batch in
      case operation of
        MergeTaskRuns survivor absorbed \<Rightarrow>
          (let final_survivor = canonical_run_after_operations survivor operations
           in if final_survivor \<notin> set expected_runs
                 \<or> canonical_run_after_operations absorbed operations \<noteq> final_survivor
                then Inr None
              else try_then (try_all (\<lambda>party.
                     try_then (durable_run_key_and_target env party db) (\<lambda>stored.
                     Inr (case stored of None \<Rightarrow> False
                          | Some (_, target) \<Rightarrow>
                              target = (if party \<noteq> final_survivor then Some final_survivor else None))))
                     [survivor, absorbed]) (\<lambda>durable.
                   Inr (if durable then Some (x\<lparr>rx_has_identity := True\<rparr>) else None)))
      | PromoteTaskRunKey promoted old_key alias_run_id \<Rightarrow>
          (let r = tr_run_id (pt_task_run promoted)
           in if r \<notin> set expected_runs then Inr None
              else try_then (durable_run_key_and_target env r db) (\<lambda>canonical.
                   case canonical of None \<Rightarrow> Inr None | Some (canonical_key, canonical_target) \<Rightarrow>
                   try_then (durable_run_key_and_target env alias_run_id db) (\<lambda>alias.
                   case alias of None \<Rightarrow> Inr None | Some (alias_key, alias_target) \<Rightarrow>
                   Inr (if canonical_key = tr_key (pt_task_run promoted) \<and> canonical_target = None
                            \<and> alias_key = old_key \<and> alias_target = Some r
                        then Some (x\<lparr>rx_has_identity := True\<rparr>) else None))))
      | RecordEvent event seen_at_ms \<Rightarrow>
          (let md = fst (store_event_metadata event)
           in if md_event_id md \<in> set (rx_event_ids x) then Inr None
              else try_then (relational_event_projection env event seen_at_ms
                       (vb_history_event_drain batch)
                       (map_option (\<lambda>r. canonical_run_after_operations r operations)
                          (md_task_run_id md))) (\<lambda>projection.
                   Inr (Some (x\<lparr>rx_event_ids := rx_event_ids x @ [md_event_id md],
                                rx_events := rx_events x @ [projection]\<rparr>))))
      | UpsertAgentNode node \<Rightarrow>
          Inr (Some (x\<lparr>rx_agent_nodes := hm_put (an_agent_node_id node) node (rx_agent_nodes x)\<rparr>))
      | UpsertTaskRun task_run \<Rightarrow>
          Inr (if canonical_run_after_operations (tr_run_id (pt_task_run task_run)) operations
                    \<in> set expected_runs then Some x else None)
      | _ \<Rightarrow> Inr None)"

fun replay_identities ::
  "(persist_op \<Rightarrow> replay_expectation \<Rightarrow> replay_expectation option store_result)
     \<Rightarrow> persist_op list \<Rightarrow> replay_expectation \<Rightarrow> replay_expectation option store_result" where
  "replay_identities check [] x = Inr (Some x)"
| "replay_identities check (operation # operations) x =
     try_then (check operation x) (\<lambda>next. case next of None \<Rightarrow> Inr None
       | Some x \<Rightarrow> replay_identities check operations x)"

definition and_then :: "bool store_result \<Rightarrow> bool store_result \<Rightarrow> bool store_result" where
  "and_then a b = try_then a (\<lambda>ok. if ok then b else Inr False)"

definition publication_durable ::
  "store_env \<Rightarrow> database \<Rightarrow> history_run_publication \<Rightarrow> bool store_result" where
  "publication_durable env db publication =
     try_then (ok_or (InvalidData ''history_run_publications.payload'')
                 (se_publication_json env publication)) (\<lambda>payload.
     Inr (hm_get (db_publications db) (se_run_text env (tr_run_id (hp_task_run publication)))
            = Some (se_run_text env (hp_canonical_run_id publication), payload)))"

definition exact_non_ingest_identity_replay_is_already_durable ::
  "store_env \<Rightarrow> persist_v6_batch \<Rightarrow> database \<Rightarrow> bool store_result" where
  "exact_non_ingest_identity_replay_is_already_durable env batch db =
     (let operations = vb_operations batch;
          expected_runs = map (\<lambda>t. tr_run_id (pt_task_run (p6_task_run t))) (vb_task_runs batch)
      in if list_ex is_advance operations \<or> \<not> distinct expected_runs then Inr False
         else try_then (replay_identities (replay_identity env batch expected_runs db) operations
                \<lparr>rx_has_identity = False, rx_event_ids = [], rx_events = [], rx_agent_nodes = []\<rparr>)
           (\<lambda>scanned. case scanned of
              None \<Rightarrow> Inr False
            | Some x \<Rightarrow>
                if \<not> rx_has_identity x then Inr False
                else
                  and_then (try_all (\<lambda>node.
                      let node = node\<lparr>an_task_run_id :=
                            canonical_run_after_operations (an_task_run_id node) operations\<rparr>
                      in if an_task_run_id node \<notin> set expected_runs then Inr False
                         else durable_agent_node_matches env node db) (hm_values (rx_agent_nodes x)))
                 (and_then (try_all (\<lambda>e. Inr (durable_event_projection_matches e db)) (rx_events x))
                 (and_then (try_all (\<lambda>t. durable_task_run_v6_matches env t db) (vb_task_runs batch))
                 (and_then (try_all (\<lambda>d. durable_history_drain_matches d db) (vb_history_drains batch))
                 (and_then (try_all (\<lambda>a. Inr ((drain_text (pr_drain_id a), se_run_text env (pr_run_id a))
                       \<in> set (db_drain_runs db))) (vb_history_associations batch))
                 (and_then (try_all (publication_durable env db) (vb_history_publications batch))
                 (and_then (try_all (\<lambda>(r, totals).
                      let expected = fst (rate_clamped totals)
                      in Inr (hm_get (db_run_rate_totals db) (se_run_text env r)
                           = Some (int (rt_output_tokens expected), rt_working_ms expected)))
                    (vb_rate_totals batch))
                 (Inr (case vb_history_event_drain batch of None \<Rightarrow> True
                       | Some drain \<Rightarrow>
                           (case hm_get (db_history_drains db) (drain_text drain) of
                              None \<Rightarrow> False
                            | Some row \<Rightarrow> dr_finalized_at_ms row = None)))))))))))"

definition exact_v6_replay_is_already_durable ::
  "store_env \<Rightarrow> persist_v6_batch \<Rightarrow> database \<Rightarrow> bool store_result" where
  "exact_v6_replay_is_already_durable env batch db =
     (case vb_operations batch of
        AdvanceIngestSequence ingest_seq # later \<Rightarrow>
          Inr (if list_ex is_advance later \<or> db_ingest_high_water db < ingest_seq then False
               else (case stamped_event_ids ingest_seq (vb_operations batch) [] of
                       None \<Rightarrow> False
                     | Some expected \<Rightarrow>
                         expected \<noteq> [] \<and> same_elements (filter_map (\<lambda>e.
                             if ep_ingest_seq e = Some ingest_seq then Some (ep_event_id e) else None)
                           (db_events db)) expected))
      | _ \<Rightarrow> exact_non_ingest_identity_replay_is_already_durable env batch db)"

section \<open>The versioned batch\<close>

text \<open>A run the database does not know yet is written first, under the key and binding that are
  valid before the operations of the batch.\<close>

definition promoted_from :: "run_id \<Rightarrow> persist_op list \<Rightarrow> run_key option" where
  "promoted_from r operations =
     first_of (filter_map (\<lambda>operation. case operation of
         PromoteTaskRunKey promoted old_key _ \<Rightarrow>
           if tr_run_id (pt_task_run promoted) = r then Some old_key else None
       | _ \<Rightarrow> None) operations)"

definition final_merge_survivors :: "persist_op list \<Rightarrow> run_id list" where
  "final_merge_survivors operations =
     remdups (filter_map (\<lambda>operation. case operation of
         MergeTaskRuns survivor _ \<Rightarrow> Some (canonical_run_after_operations survivor operations)
       | _ \<Rightarrow> None) operations)"

definition seed_task_run :: "persist_op list \<Rightarrow> persist_task_run_v6 \<Rightarrow> persist_task_run_v6" where
  "seed_task_run operations seed =
     (let r = tr_run_id (pt_task_run (p6_task_run seed));
          seed = (case promoted_from r operations of
                    None \<Rightarrow> seed
                  | Some old_key \<Rightarrow> seed\<lparr>p6_task_run := (p6_task_run seed)\<lparr>
                      pt_task_run := (pt_task_run (p6_task_run seed))\<lparr>tr_key := old_key\<rparr>,
                      pt_native_session := None\<rparr>\<rparr>)
      in if r \<in> set (final_merge_survivors operations)
         then seed\<lparr>p6_task_run := (p6_task_run seed)\<lparr>pt_native_session := None\<rparr>\<rparr>
         else seed)"

definition seed_missing_run ::
  "store_env \<Rightarrow> persist_op list \<Rightarrow> persist_task_run_v6 \<Rightarrow> database \<Rightarrow> database store_result" where
  "seed_missing_run env operations task_run db =
     (if run_exists db (se_run_text env (tr_run_id (pt_task_run (p6_task_run task_run)))) then Inr db
      else upsert_task_run_v6 env (seed_task_run operations task_run) db)"

definition insert_publication ::
  "store_env \<Rightarrow> history_run_publication \<Rightarrow> database \<Rightarrow> database store_result" where
  "insert_publication env publication db =
     (let published = se_run_text env (tr_run_id (hp_task_run publication));
          canonical = se_run_text env (hp_canonical_run_id publication)
      in try_then (ok_or (InvalidData ''history_run_publications.payload'')
                     (se_publication_json env publication)) (\<lambda>payload.
         if hm_get (db_publications db) published \<noteq> None then Inr db
         else if \<not> run_exists db canonical then Inl (Sqlite ForeignKeyFailed)
         else Inr (db\<lparr>db_publications := hm_put published (canonical, payload)
                        (db_publications db)\<rparr>)))"

definition drop_publications :: "(string \<Rightarrow> bool) \<Rightarrow> database \<Rightarrow> database" where
  "drop_publications ready db =
     db\<lparr>db_publications := filter (\<lambda>(_, canonical, _). \<not> ready canonical) (db_publications db)\<rparr>"

definition has_publication :: "database \<Rightarrow> string \<Rightarrow> bool" where
  "has_publication db i \<longleftrightarrow> list_ex (\<lambda>(_, canonical, _). canonical = i) (db_publications db)"

text \<open>\<open>UPDATE task_runs SET history_ready = 0\<close> on the runs that an open drain may hide.\<close>

definition unready_run :: "bool \<Rightarrow> string \<Rightarrow> database \<Rightarrow> database" where
  "unready_run historical i db =
     (case run_row db i of None \<Rightarrow> db
      | Some row \<Rightarrow>
          if historical \<or> lf_history_ready (rr_lifecycle row) = 0 \<or> has_publication db i
          then update_run i (\<lambda>row. row\<lparr>rr_lifecycle := (rr_lifecycle row)\<lparr>lf_history_ready := 0\<rparr>\<rparr>) db
          else db)"

definition drain_open :: "database \<Rightarrow> string \<Rightarrow> bool" where
  "drain_open db drain \<longleftrightarrow>
     (case hm_get (db_history_drains db) drain of None \<Rightarrow> False
      | Some row \<Rightarrow> dr_finalized_at_ms row = None)"

definition blocked_by_drain :: "database \<Rightarrow> string \<Rightarrow> bool" where
  "blocked_by_drain db i \<longleftrightarrow> list_ex (\<lambda>(drain, j). j = i \<and> drain_open db drain) (db_drain_runs db)"

definition unready_blocked_runs :: "bool \<Rightarrow> database \<Rightarrow> database" where
  "unready_blocked_runs historical db =
     fold (unready_run historical) (filter (blocked_by_drain db) (hm_keys (db_task_runs db))) db"

definition associate_run ::
  "store_env \<Rightarrow> bool \<Rightarrow> persist_history_drain_run \<Rightarrow> database \<Rightarrow> database store_result" where
  "associate_run env historical association db =
     (let drain = drain_text (pr_drain_id association); i = se_run_text env (pr_run_id association)
      in if (drain, i) \<in> set (db_drain_runs db) then Inr db
         else if opt_is_some_and (\<lambda>row. dr_finalized_at_ms row \<noteq> None)
                   (hm_get (db_history_drains db) drain)
           then Inl (InvalidData ''history_drain_runs'')
         else try_then (insert_drain_run drain i db) (\<lambda>db. Inr (unready_run historical i db)))"

definition v6_batch_body :: "store_env \<Rightarrow> persist_v6_batch \<Rightarrow> database \<Rightarrow> database store_result" where
  "v6_batch_body env batch db =
     (let drain = vb_history_event_drain batch;
          historical = (drain \<noteq> None);
          live_ready = (if historical then []
             else filter_map (\<lambda>t. if v6_history_ready (p6_state t)
                    then Some (tr_run_id (pt_task_run (p6_task_run t))) else None)
                  (vb_task_runs batch))
      in try_then (try_fold (seed_missing_run env (vb_operations batch)) (vb_task_runs batch) db) (\<lambda>db.
         try_then (try_fold upsert_history_drain (vb_history_drains batch) db) (\<lambda>db.
         try_then (ensure (InvalidData ''events.history_drain_id'')
                     (case drain of None \<Rightarrow> True
                      | Some d \<Rightarrow> hm_get (db_history_drains db) (drain_text d) \<noteq> None)) (\<lambda>_.
         try_then (try_fold (insert_publication env) (vb_history_publications batch) db) (\<lambda>db.
         try_then (try_fold (apply_store_operation env drain) (vb_operations batch) db) (\<lambda>db.
         try_then (try_fold (upsert_task_run_v6 env) (vb_task_runs batch) db) (\<lambda>db.
         let db = fold (\<lambda>r. drop_publications (\<lambda>c. c = se_run_text env r)) live_ready db
         in try_then (try_fold (\<lambda>(r, totals). upsert_run_rate_totals env r totals)
                        (vb_rate_totals batch) db) (\<lambda>db.
            try_then (try_fold (associate_run env historical) (vb_history_associations batch) db) (\<lambda>db.
            Inr (unready_blocked_runs historical db))))))))))"

definition apply_v6_batch ::
  "store_env \<Rightarrow> persist_v6_batch \<Rightarrow> database \<Rightarrow> database \<times> unit store_result" where
  "apply_v6_batch env batch =
     transact (\<lambda>db. try_then (exact_v6_replay_is_already_durable env batch db) (\<lambda>durable.
       if durable then Inr db else v6_batch_body env batch db))"

section \<open>Finalization\<close>

definition history_drain_finalized :: "history_drain_id \<Rightarrow> database \<Rightarrow> bool store_result" where
  "history_drain_finalized drain db =
     (case hm_get (db_history_drains db) (drain_text drain) of
        None \<Rightarrow> Inl (InvalidData ''history_drains.drain_id'')
      | Some row \<Rightarrow> Inr (dr_finalized_at_ms row \<noteq> None))"

text \<open>The canonical runs of a drain in the order of their identifiers.\<close>

definition drain_members :: "string \<Rightarrow> database \<Rightarrow> string list" where
  "drain_members drain db =
     sort (filter_map (\<lambda>(d, i). if d = drain
          \<and> (case run_row db i of None \<Rightarrow> False | Some row \<Rightarrow> rr_merged_into row = None)
        then Some i else None) (db_drain_runs db))"

definition history_drain_run_ids ::
  "store_env \<Rightarrow> history_drain_id \<Rightarrow> database \<Rightarrow> run_id list store_result" where
  "history_drain_run_ids env drain db =
     try_map (parse_run_id env) (drain_members (drain_text drain) db)"

definition load_history_drain_finalization ::
  "store_env \<Rightarrow> history_drain_id \<Rightarrow> database \<Rightarrow> history_drain_finalization store_result" where
  "load_history_drain_finalization env drain db =
     try_then (ok_or (InvalidData ''history_drains.finalized_at_ms'')
                 (Option.bind (hm_get (db_history_drains db) (drain_text drain))
                    dr_finalized_at_ms)) (\<lambda>finalized_at_ms.
     try_then (try_map (\<lambda>value. case history_drain_id_new value of
                   Inl _ \<Rightarrow> Inl (Sqlite ConversionFailed) | Inr d \<Rightarrow> Inr d)
                 (sort (filter_map (\<lambda>(d, row).
                      if dr_completed_by_drain_id row = Some (drain_text drain) then Some d else None)
                    (db_history_drains db)))) (\<lambda>completed.
     try_then (try_map (\<lambda>i. case run_row db i of
                   None \<Rightarrow> Inl (Sqlite NoRowReturned)
                 | Some row \<Rightarrow>
                     try_then (decode_lifecycle (rr_lifecycle row)) (\<lambda>state.
                     try_then (parse_run_id env i) (\<lambda>r. Inr \<lparr>fr_run_id = r, fr_state = state\<rparr>)))
                 (drain_members (drain_text drain) db)) (\<lambda>runs.
     Inr \<lparr>hf_drain_id = drain, hf_finalized_at_ms = finalized_at_ms,
       hf_completed_drains = completed, hf_runs = runs\<rparr>)))"

definition history_drain_finalization ::
  "store_env \<Rightarrow> history_drain_id \<Rightarrow> database \<Rightarrow> history_drain_finalization option store_result" where
  "history_drain_finalization env drain db =
     (case Option.bind (hm_get (db_history_drains db) (drain_text drain)) dr_finalized_at_ms of
        None \<Rightarrow> Inr None
      | Some _ \<Rightarrow> try_then (load_history_drain_finalization env drain db) (\<lambda>f. Inr (Some f)))"

text \<open>An older open drain of the same provider is superseded when every artifact of it is covered
  by the same generation at an equal or later goalpost.\<close>

definition covers :: "database \<Rightarrow> string \<Rightarrow> string \<Rightarrow> bool" where
  "covers db newer older \<longleftrightarrow>
     list_all (\<lambda>((d, artifact), generation, goalpost). d = older \<longrightarrow>
        (case hm_get (db_drain_artifacts db) (newer, artifact) of
           None \<Rightarrow> False
         | Some (new_generation, new_goalpost) \<Rightarrow>
             new_generation = generation \<and> goalpost \<le> new_goalpost)) (db_drain_artifacts db)"

definition superseded :: "database \<Rightarrow> string \<Rightarrow> history_drain_row \<Rightarrow> string \<times> history_drain_row \<Rightarrow> bool" where
  "superseded db drain completing entry =
     (case entry of (older, row) \<Rightarrow>
        dr_provider row = dr_provider completing \<and> dr_finalized_at_ms row = None \<and> older \<noteq> drain
        \<and> (dr_created_at_ms row < dr_created_at_ms completing
           \<or> dr_created_at_ms row = dr_created_at_ms completing \<and> older < drain)
        \<and> covers db drain older)"

definition inherit_associations :: "string \<Rightarrow> string list \<Rightarrow> database \<Rightarrow> database" where
  "inherit_associations drain olders db =
     db\<lparr>db_drain_runs := hs_extend (db_drain_runs db)
          (filter_map (\<lambda>(d, i). if d \<in> set olders then Some (drain, i) else None)
             (db_drain_runs db))\<rparr>"

definition close_drains :: "string \<Rightarrow> i64 \<Rightarrow> string list \<Rightarrow> database \<Rightarrow> database" where
  "close_drains drain observed_at_ms closing db =
     db\<lparr>db_history_drains := map (\<lambda>(d, row).
          (d, if d \<in> set closing
              then row\<lparr>dr_finalized_at_ms := Some observed_at_ms,
                       dr_completed_by_drain_id := Some drain\<rparr>
              else row)) (db_history_drains db)\<rparr>"

text \<open>SQL comparison: NULL compares to nothing.\<close>

definition sql_less :: "'a::linorder option \<Rightarrow> 'a \<Rightarrow> bool" where
  "sql_less a b = (case a of None \<Rightarrow> False | Some x \<Rightarrow> x < b)"

definition running_execution :: "database \<Rightarrow> string \<Rightarrow> bool" where
  "running_execution db i \<longleftrightarrow>
     list_ex (\<lambda>(_, e). exr_task_run_id e = i \<and> exr_ended_at_ms e = None) (db_executions db)"

text \<open>The condition repeated in each \<open>CASE\<close>: a run still unready, not terminal, without end
  evidence and without a running execution is closed at its latest provider time, unless a newer
  lifecycle watermark stands.\<close>

definition closes_unknown ::
  "database \<Rightarrow> i64 \<Rightarrow> string \<Rightarrow> string \<times> task_run_row \<Rightarrow> bool" where
  "closes_unknown db observed_at_ms source_order_prefix entry =
     (case entry of (i, row) \<Rightarrow>
        let c = rr_lifecycle row in
        lf_history_ready c = 0
        \<and> rr_task_state row \<notin> {''completed'', ''failed'', ''cancelled'', ''ended_unknown''}
        \<and> lf_end_status c = None
        \<and> \<not> running_execution db i
        \<and> (case lf_latest_provider_at_ms c of None \<Rightarrow> False
           | Some latest \<Rightarrow>
               lf_source_at_ms c = None \<or> sql_less (lf_source_at_ms c) latest
               \<or> lf_source_at_ms c = Some latest \<and> sql_less (lf_observed_at_ms c) observed_at_ms
               \<or> lf_source_at_ms c = Some latest \<and> lf_observed_at_ms c = Some observed_at_ms
                   \<and> sql_less (lf_source_order c) (source_order_prefix @ i)))"

definition close_unknown ::
  "i64 \<Rightarrow> string \<Rightarrow> string \<Rightarrow> lifecycle_columns \<Rightarrow> lifecycle_columns" where
  "close_unknown observed_at_ms source_order_prefix i c =
     c\<lparr>lf_end_status := Some ''unknown'', lf_end_at_ms := lf_latest_provider_at_ms c,
       lf_source_at_ms := lf_latest_provider_at_ms c, lf_observed_at_ms := Some observed_at_ms,
       lf_source_order := Some (source_order_prefix @ i)\<rparr>"

definition drain_member :: "database \<Rightarrow> string \<Rightarrow> string \<times> task_run_row \<Rightarrow> bool" where
  "drain_member db drain entry =
     (case entry of (i, row) \<Rightarrow> rr_merged_into row = None \<and> (drain, i) \<in> set (db_drain_runs db))"

definition close_members :: "string \<Rightarrow> i64 \<Rightarrow> database \<Rightarrow> database" where
  "close_members drain observed_at_ms db =
     (let source_order_prefix = ''history-drain:'' @ drain @ '':''
      in db\<lparr>db_task_runs := map (\<lambda>(i, row).
           (i, if drain_member db drain (i, row) \<and> \<not> blocked_by_drain db i
                  \<and> \<not> running_execution db i
                  \<and> closes_unknown db observed_at_ms source_order_prefix (i, row)
               then row\<lparr>rr_lifecycle :=
                      close_unknown observed_at_ms source_order_prefix i (rr_lifecycle row)\<rparr>
               else row)) (db_task_runs db)\<rparr>)"

definition ready_members :: "string \<Rightarrow> database \<Rightarrow> database" where
  "ready_members drain db =
     db\<lparr>db_task_runs := map (\<lambda>(i, row).
          (i, if drain_member db drain (i, row)
              then row\<lparr>rr_lifecycle := (rr_lifecycle row)\<lparr>lf_history_ready :=
                     i64_from_bool (lf_history_ready (rr_lifecycle row) \<noteq> 0
                       \<or> \<not> blocked_by_drain db i)\<rparr>\<rparr>
              else row)) (db_task_runs db)\<rparr>"

definition run_ready :: "database \<Rightarrow> string \<Rightarrow> bool" where
  "run_ready db i \<longleftrightarrow> opt_is_some_and (\<lambda>row. lf_history_ready (rr_lifecycle row) = 1) (run_row db i)"

definition drop_ready_images :: "database \<Rightarrow> database" where
  "drop_ready_images db =
     db\<lparr>db_before_images := filter (\<lambda>((_, event_id), _).
          \<not> list_ex (\<lambda>e. ep_event_id e = event_id \<and> opt_is_some_and (run_ready db) (ep_task_run_id e))
              (db_events db)) (db_before_images db)\<rparr>"

definition finalize_body ::
  "persist_history_drain \<Rightarrow> i64 \<Rightarrow> database \<Rightarrow> database store_result" where
  "finalize_body manifest observed_at_ms db =
     (let drain = drain_text (pd_drain_id manifest)
      in try_then (upsert_history_drain manifest db) (\<lambda>db.
         try_then (ok_or (InvalidData ''history_drains.drain_id'')
                     (hm_get (db_history_drains db) drain)) (\<lambda>row.
         if dr_finalized_at_ms row \<noteq> None then Inr db
         else
           let olders = map fst (filter (superseded db drain row) (db_history_drains db));
               db = inherit_associations drain olders db;
               db = close_drains drain observed_at_ms (drain # olders) db;
               db = close_members drain observed_at_ms db;
               db = ready_members drain db;
               db = drop_publications (run_ready db) db
           in Inr (drop_ready_images db))))"

definition finalize_history_drain ::
  "store_env \<Rightarrow> persist_history_drain \<Rightarrow> i64 \<Rightarrow> database
     \<Rightarrow> database \<times> history_drain_finalization store_result" where
  "finalize_history_drain env manifest observed_at_ms db =
     (case finalize_body manifest observed_at_ms db of
        Inl e \<Rightarrow> (db, Inl e)
      | Inr db' \<Rightarrow> (db', load_history_drain_finalization env (pd_drain_id manifest) db'))"

end
