(* ===== verification/Store_Restore.thy ===== *)
theory Store_Restore
  imports Store_History
begin

text \<open>
  The reading half of \<open>src/store/mod.rs\<close>: the domain model, the counters and the operator page an
  owner restores at startup. A query without ORDER BY yields the rows in row order.
\<close>

section \<open>Topology\<close>

definition required_topology_ordinal ::
  "string \<Rightarrow> string \<Rightarrow> database \<Rightarrow> display_ordinal store_result" where
  "required_topology_ordinal entity_kind entity_id db =
     try_then (ok_or (InvalidData ''display_ordinal'')
                 (hm_get (db_display_ordinals db) (entity_kind, entity_id)))
       (\<lambda>n. Inr (DisplayOrdinal n))"

definition restore_workspaces :: "database \<Rightarrow> domain_model \<Rightarrow> domain_model store_result" where
  "restore_workspaces db =
     try_fold (\<lambda>i m. try_then (required_topology_ordinal ''workspace'' i db) (\<lambda>ordinal.
       Inr (set_topology_ordinal KindWorkspace i ordinal
              (insert_workspace \<lparr>ws_workspace_id = i\<rparr> m)))) (db_workspaces db)"

definition restore_tabs :: "database \<Rightarrow> domain_model \<Rightarrow> domain_model store_result" where
  "restore_tabs db =
     try_fold (\<lambda>(i, row) m. try_then (required_topology_ordinal ''tab'' i db) (\<lambda>ordinal.
       Inr (set_topology_ordinal KindTab i ordinal
              (insert_tab \<lparr>tb_tab_id = i, tb_workspace_id = tbr_workspace_id row,
                 tb_label = tbr_label row\<rparr> m)))) (db_tabs db)"

definition restore_panes :: "database \<Rightarrow> domain_model \<Rightarrow> domain_model store_result" where
  "restore_panes db =
     try_fold (\<lambda>(i, row) m. try_then (required_topology_ordinal ''pane'' i db) (\<lambda>ordinal.
       Inr (set_topology_ordinal KindPane i ordinal
              (insert_pane \<lparr>pn_pane_id = i, pn_workspace_id = pnr_workspace_id row,
                 pn_tab_id = pnr_tab_id row, pn_terminal_id = pnr_terminal_id row,
                 pn_display_name = pnr_display_name row\<rparr> m)))) (db_panes db)"

section \<open>Task runs\<close>

record stored_task_run =
  sr_task_run :: task_run
  sr_v6_state :: task_run_v6_state
  sr_merged_into :: "run_id option"
  sr_native_binding :: "(provider \<times> string) option"

definition decode_binding :: "task_run_row \<Rightarrow> (provider \<times> string) option store_result" where
  "decode_binding row =
     (case (rr_native_provider row, rr_native_session_id row) of
        (Some provider, Some sid) \<Rightarrow>
          try_then (parse_provider provider) (\<lambda>provider. Inr (Some (provider, sid)))
      | (None, None) \<Rightarrow> Inr None
      | _ \<Rightarrow> Inl (InvalidData ''native_session_binding''))"

definition decode_stored_run ::
  "store_env \<Rightarrow> string \<times> task_run_row \<Rightarrow> stored_task_run store_result" where
  "decode_stored_run env entry =
     (case entry of (i, row) \<Rightarrow>
        try_then (parse_run_id env i) (\<lambda>run_id.
        try_then (decode_run_key (rr_key row)) (\<lambda>key.
        try_then (decode_lifecycle (rr_lifecycle row)) (\<lambda>v6_state.
        try_then (parse_task_state (rr_task_state row)) (\<lambda>state.
        try_then (try_option (parse_run_id env) (rr_merged_into row)) (\<lambda>merged_into.
        try_then (decode_binding row) (\<lambda>binding.
        Inr \<lparr>sr_task_run =
               \<lparr>tr_run_id = run_id, tr_key = key,
                tr_display_ordinal = DisplayOrdinal (rr_display_ordinal row),
                tr_state = state,
                tr_has_controller_task_state_event = (rr_has_controller_event row \<noteq> 0),
                tr_created_at_ms = Some (rr_created_at_ms row),
                tr_updated_at_ms = Some (rr_updated_at_ms row),
                tr_finished_at_ms = rr_finished_at_ms row, tr_subject = rr_subject row,
                tr_dismissed_at_ms = rr_dismissed_at_ms row\<rparr>,
             sr_v6_state = v6_state, sr_merged_into = merged_into,
             sr_native_binding = binding\<rparr>)))))))"

definition restore_canonical_run :: "stored_task_run \<Rightarrow> domain_model \<Rightarrow> domain_model" where
  "restore_canonical_run stored m =
     (let task_run = sr_task_run stored;
          m = (if is_provisional (tr_key task_run) then insert_historical_task_run task_run m
               else insert_task_run task_run m);
          m = set_v6_state (tr_run_id task_run) (sr_v6_state stored) m
      in case sr_native_binding stored of None \<Rightarrow> m
         | Some (provider, sid) \<Rightarrow>
             insert_task_run_alias (Native provider sid) (tr_run_id task_run) m)"

text \<open>\<open>resolve_alias_root\<close>: the loop stops on an identifier it has visited before.\<close>

function resolve_alias_root ::
  "(run_id, run_id) hmap \<Rightarrow> run_id list \<Rightarrow> run_id \<Rightarrow> run_id store_result" where
  "resolve_alias_root aliases visited current =
     (case hm_get aliases current of
        None \<Rightarrow> Inr current
      | Some target \<Rightarrow>
          if current \<in> set visited then Inl (InvalidData ''merged_into'')
          else resolve_alias_root aliases (hs_insert current visited) target)"
  by pat_completeness auto
termination
proof (relation "measure (\<lambda>(aliases, visited, current). card (set (hm_keys aliases) - set visited))",
    goal_cases)
  case (2 aliases visited current target)
  then have "current \<in> set (hm_keys aliases) - set visited" by (force dest: map_of_SomeD)
  then have "set (hm_keys aliases) - set (hs_insert current visited)
      \<subset> set (hm_keys aliases) - set visited" by auto
  then show ?case by (simp add: psubset_card_mono)
qed simp

declare resolve_alias_root.simps [simp del]

definition restore_alias ::
  "(run_id, run_id) hmap \<Rightarrow> stored_task_run \<Rightarrow> domain_model \<Rightarrow> domain_model store_result" where
  "restore_alias aliases stored m =
     try_then (resolve_alias_root aliases [] (tr_run_id (sr_task_run stored))) (\<lambda>canonical.
       if get_task_run m canonical = None then Inl (InvalidData ''merged_into'')
       else if is_provisional (tr_key (sr_task_run stored)) then Inr m
       else Inr (insert_task_run_alias (tr_key (sr_task_run stored)) canonical m))"

definition stored_aliases :: "stored_task_run list \<Rightarrow> (run_id, run_id) hmap" where
  "stored_aliases stored =
     fold (\<lambda>s aliases. case sr_merged_into s of None \<Rightarrow> aliases
        | Some target \<Rightarrow> hm_put (tr_run_id (sr_task_run s)) target aliases) stored []"

definition restore_task_runs ::
  "store_env \<Rightarrow> database \<Rightarrow> domain_model \<Rightarrow> domain_model store_result" where
  "restore_task_runs env db m =
     try_then (try_map (decode_stored_run env) (db_task_runs db)) (\<lambda>stored.
       let m = fold restore_canonical_run (filter (\<lambda>s. sr_merged_into s = None) stored) m
       in try_fold (restore_alias (stored_aliases stored))
            (filter (\<lambda>s. sr_merged_into s \<noteq> None) stored) m)"

section \<open>Rates, executions, nodes and edges\<close>

definition restore_run_rate_totals ::
  "store_env \<Rightarrow> database \<Rightarrow> domain_model \<Rightarrow> domain_model store_result" where
  "restore_run_rate_totals env db =
     try_fold (\<lambda>(i, output_tokens, working_ms) m.
       try_then (parse_run_id env i) (\<lambda>run_id.
       try_then (ensure (InvalidData ''run_rate_totals.run_id'') (get_task_run m run_id \<noteq> None)) (\<lambda>_.
       try_then (ok_or (InvalidData ''run_rate_totals.output_tokens'')
                   (u64_try_from output_tokens)) (\<lambda>output_tokens.
       try_then (ensure (InvalidData ''run_rate_totals.working_ms'') (0 \<le> working_ms)) (\<lambda>_.
       Inr (set_run_rate_totals run_id
              \<lparr>rt_output_tokens = output_tokens, rt_working_ms = working_ms\<rparr> m))))))
       (sort_key fst (db_run_rate_totals db))"

definition restore_executions ::
  "store_env \<Rightarrow> database \<Rightarrow> domain_model \<Rightarrow> domain_model store_result" where
  "restore_executions env db =
     try_fold (\<lambda>(i, row) m.
       try_then (parse_run_id env (exr_task_run_id row)) (\<lambda>run_id.
       try_then (parse_exec_state (exr_exec_state row) (exr_stale_since_ms row)) (\<lambda>state.
       Inr (insert_execution
              \<lparr>ex_execution_id = i, ex_pane_id = exr_pane_id row,
               ex_terminal_id = exr_terminal_id row, ex_task_run_id = run_id,
               ex_state = state\<rparr> m))))
       (db_executions db)"

definition restore_agent_nodes ::
  "store_env \<Rightarrow> database \<Rightarrow> domain_model \<Rightarrow> domain_model store_result" where
  "restore_agent_nodes env db =
     try_fold (\<lambda>(i, row) m.
       case hm_get (db_display_ordinals db) (''agent_node'', i) of
         None \<Rightarrow> Inr m
       | Some ordinal \<Rightarrow>
           try_then (parse_provider (anr_provider row)) (\<lambda>provider.
           try_then (parse_run_id env (anr_task_run_id row)) (\<lambda>run_id.
           try_then (parse_agent_node_state (anr_state row)) (\<lambda>state.
           try_then (optional_unsigned_count ''agent_nodes.last_item_count''
                       (anr_last_item_count row)) (\<lambda>item_count.
           try_then (optional_unsigned_count ''agent_nodes.last_byte_count''
                       (anr_last_byte_count row)) (\<lambda>byte_count.
           Inr (insert_agent_node
                  \<lparr>an_agent_node_id = i, an_provider = provider,
                   an_native_session_id = anr_native_session_id row, an_task_run_id = run_id,
                   an_display_ordinal = DisplayOrdinal ordinal,
                   an_parent_agent_node_id = anr_parent_agent_node_id row, an_state = state,
                   an_model_id = anr_model_id row, an_last_event_kind = anr_last_event_kind row,
                   an_last_tool_name = anr_last_tool_name row, an_last_item_count = item_count,
                   an_last_byte_count = byte_count,
                   an_last_activity_at_ms = anr_last_activity_at_ms row,
                   an_session_file = anr_session_file row\<rparr> m)))))))
       (db_agent_nodes db)"

definition restore_execution_edges ::
  "store_env \<Rightarrow> database \<Rightarrow> domain_model \<Rightarrow> domain_model store_result" where
  "restore_execution_edges env db =
     try_fold (\<lambda>((parent, child), _) m.
       try_then (parse_run_id env parent) (\<lambda>parent.
       try_then (parse_run_id env child) (\<lambda>child.
       Inr (fst (insert_execution_edge \<lparr>ee_parent_run_id = parent, ee_child_run_id = child\<rparr> m)))))
       (db_execution_edges db)"

definition restore_dependency_edges ::
  "store_env \<Rightarrow> database \<Rightarrow> domain_model \<Rightarrow> domain_model store_result" where
  "restore_dependency_edges env db =
     try_fold (\<lambda>((prerequisite, dependent), _) m.
       try_then (parse_run_id env prerequisite) (\<lambda>prerequisite.
       try_then (parse_run_id env dependent) (\<lambda>dependent.
       Inr (fst (insert_dependency_edge
              \<lparr>de_prerequisite_run_id = prerequisite, de_dependent_run_id = dependent\<rparr> m)))))
       (db_dependency_edges db)"

section \<open>Publications and deferred activity\<close>

definition load_history_run_publications ::
  "store_env \<Rightarrow> database \<Rightarrow> history_run_publication list store_result" where
  "load_history_run_publications env db =
     try_map (\<lambda>(i, canonical, payload).
       try_then (parse_run_id env i) (\<lambda>published_run_id.
       try_then (ok_or (InvalidData ''history_run_publications.payload'')
                   (se_parse_publication env payload)) (\<lambda>publication.
       try_then (ensure (InvalidData ''history_run_publications.published_run_id'')
                   (tr_run_id (hp_task_run publication) = published_run_id)) (\<lambda>_.
       try_then (parse_run_id env canonical) (\<lambda>canonical.
       Inr (publication\<lparr>hp_canonical_run_id := canonical\<rparr>))))))
       (sort_key fst (db_publications db))"

definition activity_item_from_row ::
  "store_env \<Rightarrow> event_projection \<Rightarrow> activity_item store_result" where
  "activity_item_from_row env e =
     try_then (optional_unsigned_integer ''events.ingest_seq'' (ep_ingest_seq e)) (\<lambda>ingest_seq.
     try_then (try_option parse_provider (ep_provider e)) (\<lambda>provider.
     try_then (try_option (parse_run_id env) (ep_task_run_id e)) (\<lambda>task_run_id.
     try_then (try_option parse_task_state (ep_task_state e)) (\<lambda>task_state.
     try_then (optional_unsigned_count ''events.item_count'' (ep_item_count e)) (\<lambda>item_count.
     try_then (optional_unsigned_count ''events.byte_count'' (ep_byte_count e)) (\<lambda>byte_count.
     Inr \<lparr>ai_event_id = ep_event_id e, ai_event_timestamp_ms = ep_event_timestamp_ms e,
       ai_seen_at_ms = ep_seen_at_ms e, ai_ingest_seq = ingest_seq, ai_source = ep_source e,
       ai_normalized_kind = ep_normalized_kind e, ai_source_event_type = ep_source_event_type e,
       ai_workspace_id = ep_workspace_id e, ai_tab_id = ep_tab_id e, ai_pane_id = ep_pane_id e,
       ai_terminal_id = ep_terminal_id e, ai_provider = provider,
       ai_native_session_id = ep_native_session_id e, ai_task_run_id = task_run_id,
       ai_agent_node_id = ep_agent_node_id e, ai_task_state = task_state,
       ai_model_id = ep_model_id e, ai_provider_event_kind = ep_provider_event_kind e,
       ai_tool_name = ep_tool_name e, ai_item_count = item_count, ai_byte_count = byte_count,
       ai_provider_agent_id = ep_provider_agent_id e,
       ai_provider_parent_agent_id = ep_provider_parent_agent_id e,
       ai_controller_label = None, ai_controller_reason = None,
       ai_durability = Durable\<rparr>))))))"

definition operator_activity_limit :: nat where "operator_activity_limit = 10000"

definition event_order :: "event_projection \<Rightarrow> i64 \<times> i64 \<times> i64 option \<times> string" where
  "event_order e = (ep_event_timestamp_ms e, ep_seen_at_ms e, ep_ingest_seq e, ep_event_id e)"

definition newest_events :: "event_projection list \<Rightarrow> event_projection list" where
  "newest_events es = take operator_activity_limit (rev (sort_key event_order es))"

definition drain_finalized :: "database \<Rightarrow> string \<Rightarrow> bool" where
  "drain_finalized db drain \<longleftrightarrow>
     (case hm_get (db_history_drains db) drain of None \<Rightarrow> False
      | Some row \<Rightarrow> dr_finalized_at_ms row \<noteq> None)"

text \<open>\<open>run.history_ready = n\<close> on the run of an event, false when there is no such run.\<close>

definition event_run_readiness :: "database \<Rightarrow> event_projection \<Rightarrow> i64 option" where
  "event_run_readiness db e =
     map_option (\<lambda>row. lf_history_ready (rr_lifecycle row))
       (Option.bind (ep_task_run_id e) (run_row db))"

text \<open>The before images of an event in the order of their drains.\<close>

definition event_images :: "database \<Rightarrow> event_projection \<Rightarrow> (string \<times> string option) list" where
  "event_images db e =
     map (\<lambda>(_, drain, owner). (drain, owner)) (sort_key (\<lambda>(created, drain, _). (created, drain))
       (filter_map (\<lambda>((drain, event_id), owner).
          if event_id = ep_event_id e
          then map_option (\<lambda>row. (dr_created_at_ms row, drain, owner))
                 (hm_get (db_history_drains db) drain)
          else None) (db_before_images db)))"

definition masking_image :: "database \<Rightarrow> event_projection \<Rightarrow> string \<times> string option \<Rightarrow> bool" where
  "masking_image db e img \<longleftrightarrow>
     drain_open db (fst img) \<or> event_run_readiness db e = Some 0"

definition visible_event :: "database \<Rightarrow> event_projection \<Rightarrow> bool" where
  "visible_event db e \<longleftrightarrow> ep_gap_kind e = None
     \<and> (case ep_history_drain_id e of None \<Rightarrow> True
        | Some drain \<Rightarrow> drain_finalized db drain
            \<and> (ep_task_run_id e = None \<or> event_run_readiness db e = Some 1))"

text \<open>The owner a reader sees: the first masking image, or the current one.\<close>

definition displayed_event :: "database \<Rightarrow> event_projection \<Rightarrow> event_projection" where
  "displayed_event db e =
     e\<lparr>ep_task_run_id :=
         (case first_of (filter (masking_image db e) (event_images db e)) of
            None \<Rightarrow> ep_task_run_id e
          | Some (_, owner) \<Rightarrow> opt_or owner (ep_task_run_id e))\<rparr>"

definition deferred_event :: "database \<Rightarrow> event_projection \<Rightarrow> bool" where
  "deferred_event db e \<longleftrightarrow> ep_gap_kind e = None
     \<and> ((case ep_history_drain_id e of None \<Rightarrow> False
         | Some drain \<Rightarrow> \<not> drain_finalized db drain \<or> event_run_readiness db e = Some 0)
        \<or> list_ex (masking_image db e) (event_images db e))"

text \<open>The drain an event waits for; a CHECK-free database may leave it NULL, an error.\<close>

definition blocking_drain :: "database \<Rightarrow> string option \<Rightarrow> string option" where
  "blocking_drain db i =
     map_option snd (first_of (sort (filter_map (\<lambda>(drain, j).
        if Some j = i \<and> drain_open db drain
        then map_option (\<lambda>row. (dr_created_at_ms row, drain)) (hm_get (db_history_drains db) drain)
        else None) (db_drain_runs db))))"

definition deferred_drain :: "database \<Rightarrow> event_projection \<Rightarrow> string option" where
  "deferred_drain db e =
     (if event_run_readiness db e = Some 0 then blocking_drain db (ep_task_run_id e)
      else if opt_is_some_and (\<lambda>drain. \<not> drain_finalized db drain) (ep_history_drain_id e) then ep_history_drain_id e
      else map_option fst (first_of (filter (\<lambda>(drain, _). drain_open db drain) (event_images db e))))"

definition load_deferred_history_activity ::
  "store_env \<Rightarrow> database \<Rightarrow> (history_drain_id, activity_item list) hmap store_result" where
  "load_deferred_history_activity env db =
     try_fold (\<lambda>e deferred.
       try_then (ok_or (Sqlite ConversionFailed) (deferred_drain db e)) (\<lambda>drain_text.
       try_then (case history_drain_id_new drain_text of
                   Inl _ \<Rightarrow> Inl (InvalidData ''events.history_drain_id'') | Inr d \<Rightarrow> Inr d) (\<lambda>drain.
       try_then (activity_item_from_row env e) (\<lambda>item.
       Inr (hm_put drain (opt_unwrap_or [] (hm_get deferred drain) @ [item]) deferred)))))
       (newest_events (filter (deferred_event db) (db_events db))) []"

section \<open>The restored state\<close>

record restored_state =
  rs_model :: domain_model
  rs_next_ordinal :: i64
  rs_next_ingest_seq :: "i64 option"
  rs_event_ledger :: "ledger_entry list"

definition display_ordinal_base :: i64 where "display_ordinal_base = 1"

definition maximum_ordinal :: "database \<Rightarrow> i64 option" where
  "maximum_ordinal db =
     (case hm_values (db_display_ordinals db) of [] \<Rightarrow> None | n # ns \<Rightarrow> Some (fold max ns n))"

definition load_event_ledger :: "database \<Rightarrow> ledger_entry list" where
  "load_event_ledger db =
     map (\<lambda>(i, seen_at_ms). \<lparr>le_event_id = i, le_seen_at_ms = seen_at_ms\<rparr>)
       (sort_key fst (db_event_ledger db))"

definition restore_tables :: "store_env \<Rightarrow> database \<Rightarrow> domain_model store_result" where
  "restore_tables env db =
     try_then (restore_workspaces db domain_model_default) (\<lambda>m.
     try_then (restore_tabs db m) (\<lambda>m.
     try_then (restore_panes db m) (\<lambda>m.
     try_then (restore_task_runs env db m) (\<lambda>m.
     try_then (restore_run_rate_totals env db m) (\<lambda>m.
     try_then (restore_executions env db m) (\<lambda>m.
     try_then (restore_agent_nodes env db m) (\<lambda>m.
     try_then (restore_execution_edges env db m) (restore_dependency_edges env db))))))))"

definition load_restored_state :: "store_env \<Rightarrow> database \<Rightarrow> restored_state store_result" where
  "load_restored_state env db =
     try_then (restore_tables env db) (\<lambda>m.
     try_then (load_history_run_publications env db) (\<lambda>publications.
     let m = fold (\<lambda>p m. fst (install_history_publication p m)) publications m
     in try_then (load_deferred_history_activity env db) (\<lambda>deferred.
        let m = m\<lparr>dm_deferred_history_activity := deferred\<rparr>
        in try_then (case maximum_ordinal db of
                       None \<Rightarrow> Inr display_ordinal_base
                     | Some n \<Rightarrow> ok_or (InvalidData ''display_ordinal'') (i64_checked_add n 1)) (\<lambda>next_ordinal.
           try_then (ensure (InvalidData ''meta.ingest_seq_high_water'')
                       (0 \<le> db_ingest_high_water db)) (\<lambda>_.
           Inr \<lparr>rs_model = m, rs_next_ordinal = next_ordinal,
             rs_next_ingest_seq = i64_checked_add (db_ingest_high_water db) 1,
             rs_event_ledger = load_event_ledger db\<rparr>)))))"

record restored_operator_state =
  ro_activity :: "activity_item list"
  ro_terminal_times :: "(run_id, i64) hmap"

definition stored_terminal_time ::
  "store_env \<Rightarrow> string \<times> task_run_row \<Rightarrow> (run_id, i64) hmap \<Rightarrow> (run_id, i64) hmap store_result" where
  "stored_terminal_time env entry ended =
     (case entry of (i, row) \<Rightarrow>
        case (rr_merged_into row, rr_finished_at_ms row) of
          (None, Some finished_at_ms) \<Rightarrow>
            try_then (parse_run_id env i) (\<lambda>r. Inr (hm_put r finished_at_ms ended))
        | _ \<Rightarrow> Inr ended)"

definition load_restored_operator_state ::
  "store_env \<Rightarrow> database \<Rightarrow> restored_operator_state store_result" where
  "load_restored_operator_state env db =
     try_then (try_map (\<lambda>e. activity_item_from_row env (displayed_event db e))
                 (newest_events (filter (visible_event db) (db_events db)))) (\<lambda>activity.
     try_then (try_fold (stored_terminal_time env) (db_task_runs db) []) (\<lambda>ended.
     try_then (load_history_run_publications env db) (\<lambda>publications.
     let ended = fold (\<lambda>p. hm_del (hp_canonical_run_id p)) publications ended;
         ended = fold (\<lambda>p ended. case tr_finished_at_ms (hp_task_run p) of
                     None \<Rightarrow> ended
                   | Some finished_at_ms \<Rightarrow>
                       hm_put (tr_run_id (hp_task_run p)) finished_at_ms ended) publications ended
     in Inr \<lparr>ro_activity = activity, ro_terminal_times = ended\<rparr>)))"

text \<open>The two event queries that seed the reducer.\<close>

definition terminal_event_sources ::
  "store_env \<Rightarrow> database \<Rightarrow> (run_id, string) hmap store_result" where
  "terminal_event_sources env db =
     try_fold (\<lambda>e sources.
       case ep_task_run_id e of None \<Rightarrow> Inr sources
       | Some i \<Rightarrow>
           if ep_task_state e \<in> {Some ''completed'', Some ''failed'', Some ''cancelled''}
           then try_then (parse_run_id env i) (\<lambda>r. Inr (hm_put r (ep_source e) sources))
           else Inr sources) (db_events db) []"

definition non_lane_task_state_runs ::
  "store_env \<Rightarrow> database \<Rightarrow> run_id list store_result" where
  "non_lane_task_state_runs env db =
     try_fold (\<lambda>e runs.
       case ep_task_run_id e of None \<Rightarrow> Inr runs
       | Some i \<Rightarrow>
           if ep_task_state e \<noteq> None \<and> ep_source e \<noteq> source_log_lane
           then try_then (parse_run_id env i) (\<lambda>r. Inr (hs_insert r runs))
           else Inr runs) (db_events db) []"

section \<open>The owner row\<close>

record owner_record =
  or_pid :: nat
  or_started_at_ms :: i64
  or_terminal_id :: "string option"
  or_pane_id :: "string option"

definition read_owner :: "database \<Rightarrow> owner_record option store_result" where
  "read_owner db =
     try_option (\<lambda>row.
       if 0 \<le> ow_pid row \<and> ow_pid row < 2 ^ 32
       then Inr \<lparr>or_pid = nat (ow_pid row), or_started_at_ms = ow_started_at_ms row,
              or_terminal_id = ow_terminal_id row, or_pane_id = ow_pane_id row\<rparr>
       else Inl (InvalidData ''owner.pid'')) (db_owner db)"

definition replace_owner :: "owner_record \<Rightarrow> database \<Rightarrow> database" where
  "replace_owner rec db =
     db\<lparr>db_owner := Some \<lparr>ow_pid = int (or_pid rec), ow_started_at_ms = or_started_at_ms rec,
         ow_terminal_id = or_terminal_id rec, ow_pane_id = or_pane_id rec\<rparr>\<rparr>"

definition update_owner_location :: "string \<Rightarrow> string \<Rightarrow> database \<Rightarrow> database store_result" where
  "update_owner_location terminal_id pane_id db =
     (case db_owner db of
        None \<Rightarrow> Inl OwnerAbsent
      | Some row \<Rightarrow> Inr (db\<lparr>db_owner := Some (row\<lparr>ow_terminal_id := Some terminal_id,
                              ow_pane_id := Some pane_id\<rparr>)\<rparr>))"

end
