(* ===== verification/Store_Retention.thy ===== *)
theory Store_Retention
  imports Store_Restore
begin

text \<open>
  Retention in \<open>src/store/mod.rs\<close> (\<open>cleanup_retention\<close>): the activity ring, the deduplication
  ledger, and finished task runs that no active run and no open history drain depends on.
\<close>

definition event_retention_ms :: i64 where "event_retention_ms = 7 * 24 * 60 * 60 * 1000"

definition run_retention_ms :: i64 where "run_retention_ms = 30 * 24 * 60 * 60 * 1000"

definition event_ring_limit :: nat where "event_ring_limit = 100000"

record cleanup_stats =
  cs_events_evicted :: nat
  cs_ledger_pruned :: nat
  cs_runs_pruned :: nat
  cs_executions_pruned :: nat
  cs_agent_nodes_pruned :: nat
  cs_execution_edges_pruned :: nat
  cs_dependency_edges_pruned :: nat
  cs_native_sessions_pruned :: nat
  cs_display_ordinals_pruned :: nat
  cs_deleted_ledger_entries :: "ledger_entry list"

section \<open>The activity ring\<close>

text \<open>\<open>ROW_NUMBER\<close> over one session, newest receipt first and the later row first on a tie: the
  events before this one in that order.\<close>

definition session_rank :: "event_projection list \<Rightarrow> nat \<Rightarrow> nat" where
  "session_rank events n =
     (let e = events ! n in
      1 + length (filter (\<lambda>(j, f). ep_herdr_session f = ep_herdr_session e
            \<and> (ep_seen_at_ms e < ep_seen_at_ms f
               \<or> ep_seen_at_ms f = ep_seen_at_ms e \<and> n < j)) (enumerate 0 events)))"

definition ring_survivors :: "event_projection list \<Rightarrow> event_projection list" where
  "ring_survivors events =
     map snd (filter (\<lambda>(n, _). session_rank events n \<le> event_ring_limit) (enumerate 0 events))"

section \<open>Runs that may go\<close>

definition merged_target :: "database \<Rightarrow> string \<Rightarrow> string option" where
  "merged_target db i = Option.bind (run_row db i) rr_merged_into"

definition run_end_ms :: "task_run_row \<Rightarrow> i64 option" where
  "run_end_ms row = opt_or (rr_finished_at_ms row) (lf_end_at_ms (rr_lifecycle row))"

definition active_run :: "database \<Rightarrow> string \<Rightarrow> bool" where
  "active_run db i \<longleftrightarrow> opt_is_some_and (\<lambda>row. run_end_ms row = None) (run_row db i)"

text \<open>The runs of an open drain, and the runs they were merged into.\<close>

definition protected_runs :: "database \<Rightarrow> string list" where
  "protected_runs db =
     grow (\<lambda>reached i. list_ex (\<lambda>j. merged_target db j = Some i) reached)
       (hm_keys (db_task_runs db))
       (remdups (map snd (filter (\<lambda>(drain, _). drain_open db drain) (db_drain_runs db))))"

definition removal_candidate :: "database \<Rightarrow> i64 \<Rightarrow> string list \<Rightarrow> string \<times> task_run_row \<Rightarrow> bool" where
  "removal_candidate db run_cutoff protected entry =
     (case entry of (i, row) \<Rightarrow>
        rr_merged_into row = None
        \<and> sql_less (run_end_ms row) run_cutoff
        \<and> \<not> list_ex (\<lambda>((parent, child), _). parent = i \<and> active_run db child) (db_execution_edges db)
        \<and> \<not> list_ex (\<lambda>((prerequisite, dependent), _). prerequisite = i \<and> active_run db dependent)
              (db_dependency_edges db)
        \<and> i \<notin> set protected)"

definition doomed_runs :: "database \<Rightarrow> i64 \<Rightarrow> string list" where
  "doomed_runs db run_cutoff =
     (let protected = protected_runs db
      in grow (\<lambda>reached i. (case merged_target db i of None \<Rightarrow> False | Some t \<Rightarrow> t \<in> set reached)
             \<and> i \<notin> set protected)
           (hm_keys (db_task_runs db))
           (map fst (filter (removal_candidate db run_cutoff protected) (db_task_runs db))))"

section \<open>The pass\<close>

definition prune_doomed :: "string list \<Rightarrow> database \<Rightarrow> database" where
  "prune_doomed doomed db =
     (let db = db\<lparr>db_execution_edges := filter (\<lambda>((p, c), _). p \<notin> set doomed \<and> c \<notin> set doomed)
                    (db_execution_edges db)\<rparr>;
          db = db\<lparr>db_dependency_edges := filter (\<lambda>((p, d), _). p \<notin> set doomed \<and> d \<notin> set doomed)
                    (db_dependency_edges db)\<rparr>;
          db = db\<lparr>db_executions := filter (\<lambda>(_, e). exr_task_run_id e \<notin> set doomed)
                    (db_executions db)\<rparr>;
          nodes = map fst (filter (\<lambda>(_, n). anr_task_run_id n \<in> set doomed) (db_agent_nodes db));
          db = db\<lparr>db_display_ordinals := filter (\<lambda>((kind, i), _).
                    \<not> (kind = ''task_run'' \<and> i \<in> set doomed)
                    \<and> \<not> (kind = ''agent_node'' \<and> i \<in> set nodes)) (db_display_ordinals db)\<rparr>;
          db = db\<lparr>db_agent_nodes := filter (\<lambda>(_, n). anr_task_run_id n \<notin> set doomed)
                    (db_agent_nodes db)\<rparr>
      in delete_task_runs doomed db)"

definition session_in_use :: "database \<Rightarrow> string \<times> string \<Rightarrow> bool" where
  "session_in_use db session \<longleftrightarrow>
     list_ex (\<lambda>(_, row). rr_native_provider row = Some (fst session)
        \<and> rr_native_session_id row = Some (snd session)) (db_task_runs db)
     \<or> list_ex (\<lambda>(_, n). anr_provider n = fst session
        \<and> anr_native_session_id n = Some (snd session)) (db_agent_nodes db)"

definition cleanup_retention :: "i64 \<Rightarrow> database \<Rightarrow> database \<times> cleanup_stats" where
  "cleanup_retention now_ms db =
     (let event_cutoff = i64_saturating_sub now_ms event_retention_ms;
          run_cutoff = i64_saturating_sub now_ms run_retention_ms;
          before = length (db_events db);
          db = delete_events (\<lambda>e. ep_seen_at_ms e < event_cutoff) db;
          kept = ring_survivors (db_events db);
          db = delete_events (\<lambda>e. e \<notin> set kept) db;
          stale = filter (\<lambda>(_, seen_at_ms). seen_at_ms < event_cutoff) (db_event_ledger db);
          db1 = db\<lparr>db_event_ledger := filter (\<lambda>(_, seen_at_ms). event_cutoff \<le> seen_at_ms)
                    (db_event_ledger db)\<rparr>;
          doomed = doomed_runs db1 run_cutoff;
          db2 = prune_doomed doomed db1;
          db3 = db2\<lparr>db_native_sessions := filter (session_in_use db2) (db_native_sessions db2)\<rparr>
      in (db3, \<lparr>cs_events_evicted = before - length (db_events db),
           cs_ledger_pruned = length stale,
           cs_runs_pruned = length (remdups doomed),
           cs_executions_pruned = length (filter (\<lambda>(_, e). exr_task_run_id e \<in> set doomed)
             (db_executions db1)),
           cs_agent_nodes_pruned = length (filter (\<lambda>(_, n). anr_task_run_id n \<in> set doomed)
             (db_agent_nodes db1)),
           cs_execution_edges_pruned = length (db_execution_edges db1) - length (filter
             (\<lambda>((p, c), _). p \<notin> set doomed \<and> c \<notin> set doomed) (db_execution_edges db1)),
           cs_dependency_edges_pruned = length (db_dependency_edges db1) - length (filter
             (\<lambda>((p, d), _). p \<notin> set doomed \<and> d \<notin> set doomed) (db_dependency_edges db1)),
           cs_native_sessions_pruned =
             length (db_native_sessions db2) - length (db_native_sessions db3),
           cs_display_ordinals_pruned =
             length (db_display_ordinals db1) - length (db_display_ordinals db2),
           cs_deleted_ledger_entries =
             map (\<lambda>(i, seen_at_ms). \<lparr>le_event_id = i, le_seen_at_ms = seen_at_ms\<rparr>)
               (sort_key fst stale)\<rparr>))"

end
