(* ===== verification/Store_Laws.thy ===== *)
theory Store_Laws
  imports Store_Retention
begin

text \<open>
  Lemmas the proofs about the store share: rows of filtered and mapped tables, the closure
  \<open>grow\<close> of the recursive queries and cascades as a least fixed point, and the shape of the
  database after each successful write: which tables it sets and to what.
\<close>

section \<open>Filtered and mapped tables\<close>

lemma hm_get_filter_key [simp]:
  "hm_get (filter (\<lambda>(i, _). P i) m) k = (if P k then hm_get m k else None)"
  by (induction m) auto

lemma hm_get_map_row [simp]:
  "hm_get (map (\<lambda>(i, v). (i, f i v)) m) k = map_option (f k) (hm_get m k)"
  by (induction m) auto

lemma hm_keys_map_row [simp]: "hm_keys (map (\<lambda>(i, v). (i, f i v)) m) = hm_keys m"
  by (induction m) auto

lemma hm_member: "hm_get m k = Some v \<Longrightarrow> k \<in> set (hm_keys m)"
  by (force dest: map_of_SomeD)

lemma hm_put_member: "x \<in> set (hm_put k v m) \<Longrightarrow> x = (k, v) \<or> x \<in> set m"
  by (induction m) (auto split: if_splits)

lemma run_exists_iff: "run_exists db i \<longleftrightarrow> i \<in> set (hm_keys (db_task_runs db))"
  by (simp add: run_exists_def map_of_eq_None_iff)

section \<open>The closure\<close>

lemma grow_start: "set reached \<subseteq> set (grow pull universe reached)"
proof (induction pull universe reached rule: grow.induct)
  case (1 pull universe reached)
  show ?case
    by (subst grow.simps) (use 1 [OF refl] in \<open>auto simp: Let_def\<close>)
qed

lemma grow_closed:
  assumes "x \<in> set universe" and "pull (grow pull universe reached) x"
  shows "x \<in> set (grow pull universe reached)"
  using assms
proof (induction pull universe reached rule: grow.induct)
  case (1 pull universe reached)
  let ?fresh = "filter (\<lambda>x. x \<notin> set reached \<and> pull reached x) universe"
  show ?case
  proof (cases "?fresh = []")
    case True
    then have "grow pull universe reached = reached" by (subst grow.simps) simp
    with True 1(2,3) show ?thesis by (auto simp: filter_empty_conv)
  next
    case False
    then have g: "grow pull universe reached = grow pull universe (reached @ ?fresh)"
      by (subst grow.simps) simp
    show ?thesis unfolding g by (rule 1(1) [OF refl False 1(2)]) (use 1(3) g in simp)
  qed
qed

lemma grow_least:
  assumes "\<And>x. x \<in> set reached \<Longrightarrow> P x"
    and "\<And>ys x. (\<And>y. y \<in> set ys \<Longrightarrow> P y) \<Longrightarrow> x \<in> set universe \<Longrightarrow> pull ys x \<Longrightarrow> P x"
    and "x \<in> set (grow pull universe reached)"
  shows "P x"
  using assms
proof (induction pull universe reached rule: grow.induct)
  case (1 pull universe reached)
  let ?fresh = "filter (\<lambda>x. x \<notin> set reached \<and> pull reached x) universe"
  show ?case
  proof (cases "?fresh = []")
    case True
    then have "grow pull universe reached = reached" by (subst grow.simps) simp
    with 1(2,4) show ?thesis by simp
  next
    case False
    then have g: "grow pull universe reached = grow pull universe (reached @ ?fresh)"
      by (subst grow.simps) simp
    show ?thesis
    proof (rule 1(1) [OF refl False _ 1(3)])
      show "x \<in> set (grow pull universe (reached @ ?fresh))" using 1(4) g by simp
      show "P y" if "y \<in> set (reached @ ?fresh)" for y using that 1(2) 1(3) [of reached y] by auto
    qed
  qed
qed

section \<open>The shape of a write\<close>

lemma write_Inr:
  "write_task_run i row db = Inr db' \<longleftrightarrow> task_run_checks i row
     \<and> \<not> list_ex (\<lambda>(j, other). j \<noteq> i \<and> row_conflict row other) (db_task_runs db)
     \<and> binding_known db row \<and> target_known db row
     \<and> db' = db\<lparr>db_task_runs := hm_put i row (db_task_runs db)\<rparr>"
  "write_tab t tab db = Inr db' \<longleftrightarrow> tbr_workspace_id tab \<in> set (db_workspaces db)
     \<and> db' = db\<lparr>db_tabs := hm_put t tab (db_tabs db)\<rparr>"
  "write_pane p pane db = Inr db' \<longleftrightarrow> pnr_workspace_id pane \<in> set (db_workspaces db)
     \<and> hm_get (db_tabs db) (pnr_tab_id pane) \<noteq> None
     \<and> db' = db\<lparr>db_panes := hm_put p pane (db_panes db)\<rparr>"
  "write_execution x execution db = Inr db' \<longleftrightarrow> run_exists db (exr_task_run_id execution)
     \<and> db' = db\<lparr>db_executions := hm_put x execution (db_executions db)\<rparr>"
  "write_rate_totals i tokens working db = Inr db' \<longleftrightarrow> 0 \<le> tokens \<and> 0 \<le> working \<and> run_exists db i
     \<and> db' = db\<lparr>db_run_rate_totals := hm_put i (tokens, working) (db_run_rate_totals db)\<rparr>"
  "insert_drain_run d i db = Inr db' \<longleftrightarrow> hm_get (db_history_drains db) d \<noteq> None \<and> run_exists db i
     \<and> db' = db\<lparr>db_drain_runs := hs_insert (d, i) (db_drain_runs db)\<rparr>"
  "insert_execution_edge_row parent child created db = Inr db' \<longleftrightarrow> parent \<noteq> child
     \<and> \<not> list_ex (\<lambda>((_, other), _). other = child) (db_execution_edges db)
     \<and> run_exists db parent \<and> run_exists db child
     \<and> db' = db\<lparr>db_execution_edges := db_execution_edges db @ [((parent, child), created)]\<rparr>"
  "insert_dependency_edge_row pre dep created db = Inr db' \<longleftrightarrow> pre \<noteq> dep
     \<and> hm_get (db_dependency_edges db) (pre, dep) = None \<and> run_exists db pre \<and> run_exists db dep
     \<and> db' = db\<lparr>db_dependency_edges := db_dependency_edges db @ [((pre, dep), created)]\<rparr>"
  "insert_event e db = Inr db' \<longleftrightarrow> ep_event_id e \<notin> set (map ep_event_id (db_events db))
     \<and> db' = db\<lparr>db_events := db_events db @ [e]\<rparr>"
  by (auto simp: write_task_run_def write_tab_def write_pane_def write_execution_def
      write_rate_totals_def insert_drain_run_def insert_execution_edge_row_def
      insert_dependency_edge_row_def insert_event_def)

lemma write_agent_node_shape:
  assumes "write_agent_node i row db = Inr db'"
  shows "db' = db\<lparr>db_agent_nodes := hm_put i row (db_agent_nodes db)\<rparr>"
    and "anr_state row \<in> {None, Some ''working'', Some ''ended''}" and "run_exists db (anr_task_run_id row)"
  using assms by (auto simp: write_agent_node_def split: if_splits)

lemma update_run_shape:
  "update_run i f db = db\<lparr>db_task_runs := (case run_row db i of None \<Rightarrow> db_task_runs db
     | Some row \<Rightarrow> hm_put i (f row) (db_task_runs db))\<rparr>"
  by (simp add: update_run_def split: option.split)

lemma update_run_row:
  "run_row (update_run i f db) j = (if j = i then map_option f (run_row db i) else run_row db j)"
  by (simp add: update_run_shape split: option.split)

text \<open>An ordinal table that keeps every ordinal already given.\<close>

definition extends :: "('k, 'v) hmap \<Rightarrow> ('k, 'v) hmap \<Rightarrow> bool" where
  "extends old new \<longleftrightarrow> (\<forall>k v. hm_get old k = Some v \<longrightarrow> hm_get new k = Some v)"

lemma extends_refl [simp]: "extends m m"
  by (simp add: extends_def)

lemma extends_trans: "extends a b \<Longrightarrow> extends b c \<Longrightarrow> extends a c"
  by (simp add: extends_def)

lemma extendsD: "extends old new \<Longrightarrow> hm_get old k \<noteq> None \<Longrightarrow> hm_get new k \<noteq> None"
  by (auto simp: extends_def)

lemma ordinal_shape:
  assumes "upsert_display_ordinal kind i ordinal db = Inr db'"
  obtains ords where "db' = db\<lparr>db_display_ordinals := ords\<rparr>" and "extends (db_display_ordinals db) ords"
    and "hm_get ords (kind, i) = Some (ordinal_get ordinal)"
    and "set (hm_values ords) \<subseteq> insert (ordinal_get ordinal) (set (hm_values (db_display_ordinals db)))"
proof (cases "hm_get (db_display_ordinals db) (kind, i)")
  case (Some n)
  with assms show thesis
    by (intro that [of "db_display_ordinals db"])
      (auto simp: upsert_display_ordinal_def Let_def split: if_splits)
next
  case None
  with assms have "db' = db\<lparr>db_display_ordinals :=
      hm_put (kind, i) (ordinal_get ordinal) (db_display_ordinals db)\<rparr>"
    by (auto simp: upsert_display_ordinal_def Let_def split: if_splits)
  then show thesis
    by (rule that) (use None in \<open>auto simp: extends_def dest!: hm_put_member\<close>)
qed

text \<open>The row a task-run upsert leaves, and the tables it touches.\<close>

definition upserted_row :: "task_run_row \<Rightarrow> persist_task_run \<Rightarrow> bool" where
  "upserted_row row persisted \<longleftrightarrow>
     rr_key row = encode_run_key (tr_key (pt_task_run persisted))
     \<and> rr_merged_into row = None
     \<and> (\<exists>state. rr_task_state row = task_state_text state)
     \<and> rr_native_provider row =
         map_option (\<lambda>b. provider_text (nb_provider b)) (pt_native_session persisted)
     \<and> rr_native_session_id row = map_option nb_native_session_id (pt_native_session persisted)"

lemma task_run_shape:
  assumes "upsert_task_run env p db = Inr db'"
  obtains ns ords row
  where "db' = db\<lparr>db_native_sessions := ns, db_display_ordinals := ords,
      db_task_runs := hm_put (se_run_text env (tr_run_id (pt_task_run p))) row (db_task_runs db)\<rparr>"
    and "extends (db_display_ordinals db) ords"
    and "set (hm_values ords) \<subseteq> insert (ordinal_get (tr_display_ordinal (pt_task_run p)))
      (set (hm_values (db_display_ordinals db)))"
    and "upserted_row row p"
    and "rr_task_state row = task_state_text (tr_state (pt_task_run p))"
    and "rr_lifecycle row = (case run_row db (se_run_text env (tr_run_id (pt_task_run p))) of
           None \<Rightarrow> lifecycle_default | Some old \<Rightarrow> rr_lifecycle old)"
    and "\<And>old. run_row db (se_run_text env (tr_run_id (pt_task_run p))) = Some old \<Longrightarrow>
      rr_merged_into old = None"
proof -
  let ?i = "se_run_text env (tr_run_id (pt_task_run p))"
  let ?db = "case pt_native_session p of None \<Rightarrow> db
      | Some b \<Rightarrow> insert_native_session (provider_text (nb_provider b)) (nb_native_session_id b) db"
  define ns where "ns = db_native_sessions ?db"
  have ns: "?db = db\<lparr>db_native_sessions := ns\<rparr>"
    by (simp add: ns_def insert_native_session_def split: option.split)
  have canonical: "rr_merged_into old = None" if "run_row db ?i = Some old" for old
    using assms that by (auto simp: upsert_task_run_def Let_def split: if_splits)
  have "try_then (upsert_display_ordinal ''task_run'' ?i (tr_display_ordinal (pt_task_run p)) ?db)
      (\<lambda>db. write_task_run ?i (upserted_task_run_row p (run_row db ?i)) db) = Inr db'"
    using assms by (simp add: upsert_task_run_def Let_def split: if_splits)
  then obtain db1 where ord: "upsert_display_ordinal ''task_run'' ?i (tr_display_ordinal (pt_task_run p)) ?db = Inr db1"
    and wr: "write_task_run ?i (upserted_task_run_row p (run_row db1 ?i)) db1 = Inr db'"
    by (auto simp only: try_then_Inr)
  obtain ords where db1: "db1 = ?db\<lparr>db_display_ordinals := ords\<rparr>"
    and e: "extends (db_display_ordinals ?db) ords"
    and v: "set (hm_values ords) \<subseteq> insert (ordinal_get (tr_display_ordinal (pt_task_run p)))
      (set (hm_values (db_display_ordinals ?db)))"
    by (rule ordinal_shape [OF ord]) (rule that; assumption)
  have rows: "run_row db1 = run_row db" by (simp add: db1 ns)
  define row where "row = upserted_task_run_row p (run_row db ?i)"
  have w: "write_task_run ?i row db1 = Inr db'" using wr rows by (simp add: row_def)
  have row: "upserted_row row p" "rr_task_state row = task_state_text (tr_state (pt_task_run p))"
      "rr_lifecycle row = (case run_row db ?i of None \<Rightarrow> lifecycle_default | Some old \<Rightarrow> rr_lifecycle old)"
    using canonical by (auto simp: row_def upserted_task_run_row_def upserted_row_def Let_def split: option.split)
  show thesis
    by (rule that [where ns = ns and ords = ords and row = row])
      (use w e v row canonical in \<open>simp_all add: write_Inr(1) db1 ns\<close>)
qed

lemma task_run_v6_shape:
  assumes "upsert_task_run_v6 env p db = Inr db'"
  obtains ns ords row state
  where "db' = db\<lparr>db_native_sessions := ns, db_display_ordinals := ords,
      db_task_runs := hm_put (se_run_text env (tr_run_id (pt_task_run (p6_task_run p)))) row
        (db_task_runs db)\<rparr>"
    and "extends (db_display_ordinals db) ords"
    and "set (hm_values ords) \<subseteq> insert (ordinal_get (tr_display_ordinal (pt_task_run (p6_task_run p))))
      (set (hm_values (db_display_ordinals db)))"
    and "rr_key row = encode_run_key (tr_key (pt_task_run (p6_task_run p)))"
    and "rr_merged_into row = None"
    and "rr_task_state row = task_state_text (tr_state (pt_task_run (p6_task_run p)))
      \<or> (\<exists>old. run_row db (se_run_text env (tr_run_id (pt_task_run (p6_task_run p)))) = Some old
          \<and> rr_task_state row = rr_task_state old)"
    and "rr_native_provider row =
      map_option (\<lambda>b. provider_text (nb_provider b)) (pt_native_session (p6_task_run p))"
    and "rr_native_session_id row = map_option nb_native_session_id (pt_native_session (p6_task_run p))"
    and "rr_lifecycle row = encode_lifecycle state"
    and "case run_row db (se_run_text env (tr_run_id (pt_task_run (p6_task_run p)))) of
        None \<Rightarrow> state = p6_state p
      | Some old \<Rightarrow> rr_merged_into old = None
          \<and> combine_lifecycle (rr_lifecycle old) (p6_state p) = Inr state"
proof -
  let ?i = "se_run_text env (tr_run_id (pt_task_run (p6_task_run p)))"
  obtain db1 where up: "upsert_task_run env (p6_task_run p) db = Inr db1"
    using assms by (auto simp: upsert_task_run_v6_def Let_def results split: if_splits)
  obtain ns ords row
    where db1: "db1 = db\<lparr>db_native_sessions := ns, db_display_ordinals := ords,
      db_task_runs := hm_put ?i row (db_task_runs db)\<rparr>"
      and e: "extends (db_display_ordinals db) ords"
      and v: "set (hm_values ords) \<subseteq> insert (ordinal_get (tr_display_ordinal (pt_task_run (p6_task_run p))))
        (set (hm_values (db_display_ordinals db)))"
      and row: "upserted_row row (p6_task_run p)"
        "rr_task_state row = task_state_text (tr_state (pt_task_run (p6_task_run p)))"
      and canonical: "\<And>old. run_row db ?i = Some old \<Longrightarrow> rr_merged_into old = None"
    by (rule task_run_shape [OF up]) (rule that; assumption)
  note facts = row [unfolded upserted_row_def]
  show thesis
  proof (cases "run_row db ?i")
    case None
    then have "db' = update_run ?i (\<lambda>row. row\<lparr>rr_lifecycle := encode_lifecycle (p6_state p)\<rparr>) db1"
      using assms up by (auto simp: upsert_task_run_v6_def Let_def split: if_splits)
    then show thesis
      by (intro that [where ns = ns and ords = ords and state = "p6_state p"
            and row = "row\<lparr>rr_lifecycle := encode_lifecycle (p6_state p)\<rparr>"])
        (use e v facts None in \<open>simp_all add: db1 update_run_shape\<close>)
  next
    case (Some old)
    define row1 where "row1 = (if lf_history_ready (rr_lifecycle old) \<noteq> 0 \<and> \<not> v6_history_ready (p6_state p)
      then keep_semantics old row else row)"
    obtain state where st: "combine_lifecycle (rr_lifecycle old) (p6_state p) = Inr state"
      and db': "db' = update_run ?i (\<lambda>row. row\<lparr>rr_lifecycle := encode_lifecycle state\<rparr>)
          (if lf_history_ready (rr_lifecycle old) \<noteq> 0 \<and> \<not> v6_history_ready (p6_state p)
           then update_run ?i (keep_semantics old) db1 else db1)"
      using assms up Some unfolding upsert_task_run_v6_def Let_def by (auto simp: results split: if_splits)
    have "db' = db1\<lparr>db_task_runs := hm_put ?i (row1\<lparr>rr_lifecycle := encode_lifecycle state\<rparr>) (db_task_runs db)\<rparr>"
      by (simp add: db' db1 row1_def update_run_shape)
    then show thesis
      by (intro that [where ns = ns and ords = ords and state = state
            and row = "row1\<lparr>rr_lifecycle := encode_lifecycle state\<rparr>"])
        (use e v facts Some st canonical in \<open>simp_all add: db1 row1_def keep_semantics_def\<close>)
  qed
qed

lemma promotion_shape:
  assumes "promote_task_run_key env p old_key alias_id db = Inr db'"
  obtains ns ords row ordinal
  where "db' = db\<lparr>db_native_sessions := ns, db_display_ordinals := ords,
      db_task_runs := hm_put (se_run_text env alias_id)
        (alias_row old_key p (se_run_text env (tr_run_id (pt_task_run p))) ordinal)
        (hm_put (se_run_text env (tr_run_id (pt_task_run p))) row (db_task_runs db))\<rparr>"
    and "extends (db_display_ordinals db) ords"
    and "set (hm_values ords) \<subseteq> insert (ordinal_get (tr_display_ordinal (pt_task_run p)))
      (set (hm_values (db_display_ordinals db)))"
    and "upserted_row row p"
    and "run_row db (se_run_text env alias_id) = None"
    and "se_run_text env alias_id \<noteq> se_run_text env (tr_run_id (pt_task_run p))"
    and "\<exists>old. run_row db (se_run_text env (tr_run_id (pt_task_run p))) = Some old
      \<and> rr_merged_into old = None \<and> rr_lifecycle row = rr_lifecycle old
      \<and> decode_run_key (rr_key old) = Inr old_key"
proof -
  let ?i = "se_run_text env (tr_run_id (pt_task_run p))" and ?a = "se_run_text env alias_id"
  obtain old db1 where old: "run_row db ?i = Some old" "rr_merged_into old = None"
      "decode_run_key (rr_key old) = Inr old_key"
    and up: "upsert_task_run env p db = Inr db1" and new: "\<not> run_exists db1 ?a"
    and w: "write_task_run ?a (alias_row old_key p ?i (alias_ordinal db1)) db1 = Inr db'"
    using assms by (auto simp: promote_task_run_key_def Let_def results opt_filter_def
        split: option.splits if_splits)
  obtain ns ords row
    where db1: "db1 = db\<lparr>db_native_sessions := ns, db_display_ordinals := ords,
      db_task_runs := hm_put ?i row (db_task_runs db)\<rparr>"
      and e: "extends (db_display_ordinals db) ords"
      and v: "set (hm_values ords) \<subseteq> insert (ordinal_get (tr_display_ordinal (pt_task_run p)))
        (set (hm_values (db_display_ordinals db)))"
      and row: "upserted_row row p"
      and life: "rr_lifecycle row = (case run_row db ?i of None \<Rightarrow> lifecycle_default
        | Some old \<Rightarrow> rr_lifecycle old)"
    by (rule task_run_shape [OF up]) (rule that; assumption)
  have "?a \<noteq> ?i" and "run_row db ?a = None" using new db1 by (auto simp: run_exists_def split: if_splits)
  with w show thesis
    by (intro that [where ns = ns and ords = ords and row = row and ordinal = "alias_ordinal db1"])
      (use e v row life old in \<open>simp_all add: write_Inr(1) db1\<close>)
qed

lemma agent_node_shape:
  assumes "upsert_agent_node env node db = Inr db'"
  obtains ns ords row
  where "db' = db\<lparr>db_native_sessions := ns, db_display_ordinals := ords,
      db_agent_nodes := hm_put (an_agent_node_id node) row (db_agent_nodes db)\<rparr>"
    and "extends (db_display_ordinals db) ords"
    and "set (hm_values ords) \<subseteq> insert (ordinal_get (an_display_ordinal node))
      (set (hm_values (db_display_ordinals db)))"
    and "anr_provider row = provider_text (an_provider node)"
    and "anr_task_run_id row = se_run_text env (an_task_run_id node)"
    and "parse_agent_node_state (anr_state row) = Inr (an_state node)"
    and "optional_unsigned_count ''agent_nodes.last_item_count'' (anr_last_item_count row) = Inr (an_last_item_count node)"
    and "optional_unsigned_count ''agent_nodes.last_byte_count'' (anr_last_byte_count row) = Inr (an_last_byte_count node)"
proof -
  let ?db = "case an_native_session_id node of None \<Rightarrow> db
      | Some sid \<Rightarrow> insert_native_session (provider_text (an_provider node)) sid db"
  define ns where "ns = db_native_sessions ?db"
  have ns: "?db = db\<lparr>db_native_sessions := ns\<rparr>"
    by (simp add: ns_def insert_native_session_def split: option.split)
  obtain db1 state items bytes
    where ord: "upsert_display_ordinal ''agent_node'' (an_agent_node_id node) (an_display_ordinal node) ?db = Inr db1"
      and st: "try_option agent_node_state_text (an_state node) = Inr state"
      and it: "try_option (signed_count ''agent_nodes.last_item_count'') (an_last_item_count node) = Inr items"
      and bt: "try_option (signed_count ''agent_nodes.last_byte_count'') (an_last_byte_count node) = Inr bytes"
      and w: "write_agent_node (an_agent_node_id node) (agent_node_columns env node state items bytes) db1 = Inr db'"
    using assms unfolding upsert_agent_node_def Let_def by (auto simp only: try_then_Inr)
  obtain ords where db1: "db1 = ?db\<lparr>db_display_ordinals := ords\<rparr>"
    and e: "extends (db_display_ordinals ?db) ords"
    and v: "set (hm_values ords) \<subseteq> insert (ordinal_get (an_display_ordinal node))
      (set (hm_values (db_display_ordinals ?db)))"
    by (rule ordinal_shape [OF ord]) (rule that; assumption)
  show thesis
    by (rule that [where ns = ns and ords = ords and row = "agent_node_columns env node state items bytes"])
      (use write_agent_node_shape(1) [OF w] e v node_state_back [OF st] count_back [OF it] count_back [OF bt] in
        \<open>simp_all add: db1 ns agent_node_columns_def\<close>)
qed

end
