(* ===== verification/Store_Merge_Laws.thy ===== *)
theory Store_Merge_Laws
  imports Store_Laws
begin

text \<open>
  What a successful merge makes of the database: the row of the absorbed run becomes an alias of
  the survivor, earlier aliases follow, and nothing else names the absorbed run any more.
\<close>

section \<open>The steps\<close>

lemma keep_images_shape:
  assumes "keep_event_images s a drain db = Inr db'"
  obtains imgs where "db' = db\<lparr>db_before_images := imgs\<rparr>"
    and "\<And>k v. (k, v) \<in> set imgs \<Longrightarrow> (k, v) \<in> set (db_before_images db) \<or> v = Some a"
proof -
  define P where "P d \<longleftrightarrow> (\<exists>imgs. d = db\<lparr>db_before_images := imgs\<rparr>
    \<and> (\<forall>(k, v) \<in> set imgs. (k, v) \<in> set (db_before_images db) \<or> v = Some a))" for d
  have step: "P d'" if "P d" "insert_before_image i (ep_event_id e) (ep_task_run_id e) d = Inr d'"
      "ep_task_run_id e = Some a" for d d' i e
    using that by (auto simp: P_def insert_before_image_def split: if_splits dest!: hm_put_member)
  let ?moved = "filter (\<lambda>e. ep_task_run_id e = Some a) (db_events db)"
  have moved: "e \<in> set ?moved \<Longrightarrow> ep_task_run_id e = Some a" for e by simp
  obtain db1 where 1: "(case drain of None \<Rightarrow> Inr db
      | Some d \<Rightarrow> try_fold (\<lambda>e. insert_before_image (drain_text d) (ep_event_id e) (ep_task_run_id e)) ?moved db) = Inr db1"
    and 2: "try_fold (\<lambda>e. try_fold (\<lambda>d. insert_before_image d (ep_event_id e) (ep_task_run_id e))
        (filter_map (\<lambda>(d, i). if (i = s \<or> i = a) \<and> (case hm_get (db_history_drains db) d of None \<Rightarrow> False
            | Some row \<Rightarrow> dr_finalized_at_ms row = None) then Some d else None) (db_drain_runs db)))
        ?moved db1 = Inr db'"
    using assms unfolding keep_event_images_def Let_def by (auto simp only: try_then_Inr)
  have "P db" by (auto simp: P_def intro: exI [of _ "db_before_images db"])
  have "P db1"
  proof (cases drain)
    case None
    with 1 \<open>P db\<close> show ?thesis by simp
  next
    case (Some d)
    with 1 have "try_fold (\<lambda>e. insert_before_image (drain_text d) (ep_event_id e) (ep_task_run_id e)) ?moved db = Inr db1"
      by simp
    then show ?thesis by (rule try_fold_invariant [where P = P, OF _ \<open>P db\<close>]) (use step moved in blast)
  qed
  with 2 have "P db'"
    by (rule try_fold_invariant [where P = P])
      (rule try_fold_invariant [where P = P], assumption, assumption, use step moved in blast)
  then show thesis using that by (auto simp: P_def)
qed

lemma insert_execution_edges:
  "try_fold (\<lambda>(p, c, t). insert_execution_edge_row p c t) edges db = Inr db' \<Longrightarrow>
     db' = db\<lparr>db_execution_edges := db_execution_edges db @ map (\<lambda>(p, c, t). ((p, c), t)) edges\<rparr>
     \<and> (\<forall>(p, c, t) \<in> set edges. run_exists db p \<and> run_exists db c)"
proof (induction edges arbitrary: db)
  case (Cons e edges)
  then obtain p c t where e: "e = (p, c, t)" by (cases e)
  with Cons.prems obtain db1 where 1: "insert_execution_edge_row p c t db = Inr db1"
    and 2: "try_fold (\<lambda>(p, c, t). insert_execution_edge_row p c t) edges db1 = Inr db'"
    by (auto simp: try_then_Inr)
  from Cons.IH [OF 2] 1 show ?case by (auto simp: e write_Inr run_exists_def)
qed simp

lemma insert_dependency_edges:
  "try_fold (\<lambda>(p, c, t). insert_dependency_edge_row p c t) edges db = Inr db' \<Longrightarrow>
     db' = db\<lparr>db_dependency_edges := db_dependency_edges db @ map (\<lambda>(p, c, t). ((p, c), t)) edges\<rparr>
     \<and> (\<forall>(p, c, t) \<in> set edges. run_exists db p \<and> run_exists db c)"
proof (induction edges arbitrary: db)
  case (Cons e edges)
  then obtain p c t where e: "e = (p, c, t)" by (cases e)
  with Cons.prems obtain db1 where 1: "insert_dependency_edge_row p c t db = Inr db1"
    and 2: "try_fold (\<lambda>(p, c, t). insert_dependency_edge_row p c t) edges db1 = Inr db'"
    by (auto simp: try_then_Inr)
  from Cons.IH [OF 2] 1 show ?case by (auto simp: e write_Inr run_exists_def)
qed simp

lemma replace_edges_shape:
  "replace_execution_edges edges db = Inr db' \<Longrightarrow>
     db' = db\<lparr>db_execution_edges := map (\<lambda>(p, c, t). ((p, c), t)) edges\<rparr>"
  "replace_dependency_edges edges db = Inr db' \<Longrightarrow>
     db' = db\<lparr>db_dependency_edges := map (\<lambda>(p, c, t). ((p, c), t)) edges\<rparr>"
  by (auto simp: replace_execution_edges_def replace_dependency_edges_def
      dest: insert_execution_edges insert_dependency_edges)

lemma merge_rates_shape:
  assumes "merge_rate_totals s a db = Inr db'"
  obtains totals where "db' = db\<lparr>db_run_rate_totals := totals\<rparr>"
    and "\<And>i. hm_get totals i = (if i = a then None else if i = s then hm_get totals s
      else hm_get (db_run_rate_totals db) i)"
    and "hm_ok (db_run_rate_totals db) \<Longrightarrow> hm_ok totals"
    and "\<And>v. hm_get totals s = Some v \<Longrightarrow> hm_get (db_run_rate_totals db) s = Some v \<or> 0 \<le> fst v \<and> 0 \<le> snd v"
proof -
  obtain x y where x: "read_rate_totals s db = Inr x" and y: "read_rate_totals a db = Inr y"
    using assms by (auto simp: merge_rate_totals_def results)
  let ?m = "fst (rate_saturating_add (opt_unwrap_or rate_totals_default x) (opt_unwrap_or rate_totals_default y))"
  show thesis
  proof (cases "x = None \<and> y = None")
    case True
    then show thesis
      using assms x y
      by (intro that [where totals = "hm_del a (db_run_rate_totals db)"])
        (auto simp: merge_rate_totals_def split: if_splits)
  next
    case False
    then have w: "write_rate_totals s (int (rt_output_tokens ?m)) (rt_working_ms ?m) db
        = Inr (db\<lparr>db_run_rate_totals := hm_put s (int (rt_output_tokens ?m), rt_working_ms ?m) (db_run_rate_totals db)\<rparr>)"
      and db': "db' = db\<lparr>db_run_rate_totals := hm_del a
        (hm_put s (int (rt_output_tokens ?m), rt_working_ms ?m) (db_run_rate_totals db))\<rparr>"
      using assms x y by (auto simp: merge_rate_totals_def results write_Inr Let_def split: if_splits)
    show thesis
      by (rule that [OF db']) (use w in \<open>auto simp: write_Inr split: if_splits\<close>)
  qed
qed

section \<open>The merged database\<close>

text \<open>The tables a merge never touches.\<close>

definition merge_frame :: "database \<Rightarrow> database \<Rightarrow> bool" where
  "merge_frame db db' \<longleftrightarrow> db_herdr_sessions db' = db_herdr_sessions db
     \<and> db_workspaces db' = db_workspaces db \<and> db_tabs db' = db_tabs db \<and> db_panes db' = db_panes db
     \<and> db_native_sessions db' = db_native_sessions db
     \<and> db_event_ledger db' = db_event_ledger db \<and> db_owner db' = db_owner db
     \<and> db_display_ordinals db' = db_display_ordinals db
     \<and> db_ingest_high_water db' = db_ingest_high_water db
     \<and> db_history_drains db' = db_history_drains db \<and> db_drain_artifacts db' = db_drain_artifacts db"

definition same_binding :: "task_run_row \<Rightarrow> task_run_row \<Rightarrow> bool" where
  "same_binding row row' \<longleftrightarrow> rr_native_provider row' = rr_native_provider row
     \<and> rr_native_session_id row' = rr_native_session_id row"

lemma redirect_rows:
  "run_row (redirect_aliases s a db) i =
     map_option (\<lambda>row. if i = a \<or> rr_merged_into row = Some a then row\<lparr>rr_merged_into := Some s\<rparr> else row)
       (run_row db i)"
  by (cases "run_row db i") (auto simp: redirect_aliases_def update_run_shape split: option.splits)

lemma update_run_keys [simp]: "hm_keys (db_task_runs (update_run i f db)) = hm_keys (db_task_runs db)"
proof (cases "run_row db i")
  case (Some row)
  then show ?thesis using hm_member [OF Some] by (simp add: update_run_shape update_keys)
qed (simp add: update_run_shape)

lemma redirect_keys [simp]:
  "hm_keys (db_task_runs (redirect_aliases s a db)) = hm_keys (db_task_runs db)"
  by (simp add: redirect_aliases_def)

lemma party_row:
  assumes "read_canonical_merge_party i db = Inr p"
  obtains row where "run_row db i = Some row" and "rr_merged_into row = None"
    and "mg_binding p = (case (rr_native_provider row, rr_native_session_id row) of
           (Some provider, Some sid) \<Rightarrow> Some (provider, sid) | _ \<Rightarrow> None)"
    and "decode_lifecycle (rr_lifecycle row) = Inr (mg_v6_state p)"
    and "parse_task_state (rr_task_state row) = Inr (mg_state p)"
  using assms
  by (auto simp: read_canonical_merge_party_def results split: option.splits)

lemma transfer_shape:
  assumes "transfer_binding s a (mg_binding sp) (mg_binding ap) db = Inr db'" and "s \<noteq> a"
    and "run_row db s = Some srow" and "run_row db a = Some arow"
    and "mg_binding ap = (case (rr_native_provider arow, rr_native_session_id arow) of
           (Some provider, Some sid) \<Rightarrow> Some (provider, sid) | _ \<Rightarrow> None)"
  obtains rows srow' arow' where "db' = db\<lparr>db_task_runs := rows\<rparr>"
    and "hm_keys rows = hm_keys (db_task_runs db)"
    and "\<And>i. hm_get rows i = (if i = s then Some srow' else if i = a then Some arow' else run_row db i)"
    and "rr_merged_into srow' = rr_merged_into srow" "rr_key srow' = rr_key srow"
      "rr_task_state srow' = rr_task_state srow" "same_binding srow srow' \<or> same_binding arow srow'"
    and "rr_merged_into arow' = rr_merged_into arow" "rr_key arow' = rr_key arow"
      "rr_task_state arow' = rr_task_state arow" "rr_lifecycle arow' = rr_lifecycle arow"
      "same_binding arow arow' \<or> rr_native_provider arow' = None \<and> rr_native_session_id arow' = None"
proof (cases "mg_binding sp = None \<and> mg_binding ap \<noteq> None")
  case False
  then have "db' = db" using assms(1) by (auto simp: transfer_binding_def split: option.splits)
  then show thesis
    by (intro that [where rows = "db_task_runs db" and srow' = srow and arow' = arow])
      (use assms in \<open>auto simp: same_binding_def\<close>)
next
  case True
  then obtain provider sid where b: "mg_binding sp = None" "mg_binding ap = Some (provider, sid)" by auto
  then have native: "rr_native_provider arow = Some provider" "rr_native_session_id arow = Some sid"
    using assms(5) by (auto split: option.splits)
  let ?f = "\<lambda>row. row\<lparr>rr_native_provider := Some provider, rr_native_session_id := Some sid\<rparr>"
  let ?g = "\<lambda>row. row\<lparr>rr_native_provider := None, rr_native_session_id := None\<rparr>"
  have db': "db' = update_run s ?f (update_run a ?g db)"
    using assms(1) b by (simp add: transfer_binding_def)
  show thesis
  proof (rule that [where rows = "db_task_runs db'" and srow' = "?f srow" and arow' = "?g arow"])
    show "db' = db\<lparr>db_task_runs := db_task_runs db'\<rparr>" by (simp add: db' update_run_shape)
    show "hm_keys (db_task_runs db') = hm_keys (db_task_runs db)" by (simp add: db')
    show "run_row db' i = (if i = s then Some (?f srow) else if i = a then Some (?g arow) else run_row db i)" for i
      using assms by (simp add: db' update_run_row)
  qed (use native in \<open>simp_all add: same_binding_def\<close>)
qed

lemma merge_shape:
  assumes "merge_task_runs env survivor absorbed drain db = Inr db'" and env: "env_ok env"
  defines "s \<equiv> se_run_text env survivor" and "a \<equiv> se_run_text env absorbed"
  obtains sp ap srow arow execution_edges dependency_edges imgs totals state
  where "read_canonical_merge_party s db = Inr sp" and "read_canonical_merge_party a db = Inr ap"
    and "run_row db s = Some srow" and "run_row db a = Some arow"
    and "substituted_execution_edges s a db = Inr execution_edges"
    and "substituted_dependency_edges s a db = Inr dependency_edges"
    and "merge_frame db db'"
    and "db_executions db' = db_executions (repoint_rows s a db)"
    and "db_agent_nodes db' = db_agent_nodes (repoint_rows s a db)"
    and "db_events db' = db_events (repoint_rows s a db)"
    and "db_publications db' = db_publications (repoint_rows s a db)"
    and "db_drain_runs db' = db_drain_runs (transfer_associations s a db)"
    and "db_execution_edges db' = map (\<lambda>(p, c, t). ((p, c), t)) execution_edges"
    and "db_dependency_edges db' = map (\<lambda>(p, c, t). ((p, c), t)) dependency_edges"
    and "db_before_images db' = imgs"
    and "\<And>k v. (k, v) \<in> set imgs \<Longrightarrow> (k, v) \<in> set (db_before_images db) \<or> v = Some a"
    and "db_run_rate_totals db' = totals"
    and "\<And>i. hm_get totals i = (if i = a then None else if i = s then hm_get totals s
      else hm_get (db_run_rate_totals db) i)"
    and "hm_ok (db_run_rate_totals db) \<Longrightarrow> hm_ok totals"
    and "\<And>v. hm_get totals s = Some v \<Longrightarrow> hm_get (db_run_rate_totals db) s = Some v \<or> 0 \<le> fst v \<and> 0 \<le> snd v"
    and "hm_keys (db_task_runs db') = hm_keys (db_task_runs db)"
    and "\<And>i. run_row db' i = (if i = s then run_row db' s else if i = a then run_row db' a
      else map_option (\<lambda>row. if rr_merged_into row = Some a then row\<lparr>rr_merged_into := Some s\<rparr> else row)
        (run_row db i))"
    and "\<exists>row. run_row db' s = Some row \<and> rr_merged_into row = None \<and> rr_key row = rr_key srow
      \<and> rr_task_state row = rr_task_state srow \<and> rr_lifecycle row = encode_lifecycle state
      \<and> (same_binding srow row \<or> same_binding arow row)"
    and "\<exists>row. run_row db' a = Some row \<and> rr_merged_into row = Some s \<and> rr_key row = rr_key arow
      \<and> rr_task_state row = rr_task_state arow \<and> rr_lifecycle row = rr_lifecycle arow
      \<and> (same_binding arow row \<or> rr_native_provider row = None \<and> rr_native_session_id row = None)"
proof -
  obtain sp ap db0 execution_edges dependency_edges db1 db2 db3 db4
    where ne: "survivor \<noteq> absorbed"
      and sp: "read_canonical_merge_party s db = Inr sp" and ap: "read_canonical_merge_party a db = Inr ap"
      and db0: "transfer_binding s a (mg_binding sp) (mg_binding ap) db = Inr db0"
      and ee: "substituted_execution_edges s a db0 = Inr execution_edges"
      and de: "substituted_dependency_edges s a db0 = Inr dependency_edges"
      and db1: "keep_event_images s a drain db0 = Inr db1"
      and db2: "replace_execution_edges execution_edges (repoint_rows s a db1) = Inr db2"
      and db3: "replace_dependency_edges dependency_edges db2 = Inr db3"
      and db4: "merge_rate_totals s a
          (merge_v6_run_state s a (mg_v6_state sp) (mg_v6_state ap) db3) = Inr db4"
      and db': "redirect_aliases s a (update_run s (\<lambda>row. row\<lparr>rr_finished_at_ms := merged_finish sp ap\<rparr>)
          (transfer_associations s a db4)) = db'"
    using assms(1) unfolding merge_task_runs_def Let_def s_def [symmetric] a_def [symmetric]
    by (simp only: try_then_Inr ensure_Inr sum.inject) (elim exE conjE, rule that; assumption)
  have sa: "s \<noteq> a" using ne run_text_inject [OF env] by (simp add: s_def a_def)
  obtain srow where srow: "run_row db s = Some srow" "rr_merged_into srow = None"
    by (rule party_row [OF sp]) (rule that; assumption)
  obtain arow where arow: "run_row db a = Some arow" "rr_merged_into arow = None"
    and ab: "mg_binding ap = (case (rr_native_provider arow, rr_native_session_id arow) of
           (Some provider, Some sid) \<Rightarrow> Some (provider, sid) | _ \<Rightarrow> None)"
    by (rule party_row [OF ap]) (rule that; assumption)
  obtain rows srow' arow' where t: "db0 = db\<lparr>db_task_runs := rows\<rparr>"
    and keys: "hm_keys rows = hm_keys (db_task_runs db)"
    and lookup: "\<And>i. hm_get rows i = (if i = s then Some srow' else if i = a then Some arow' else run_row db i)"
    and s': "rr_merged_into srow' = rr_merged_into srow" "rr_key srow' = rr_key srow"
      "rr_task_state srow' = rr_task_state srow" "same_binding srow srow' \<or> same_binding arow srow'"
    and a': "rr_merged_into arow' = rr_merged_into arow" "rr_key arow' = rr_key arow"
      "rr_task_state arow' = rr_task_state arow" "rr_lifecycle arow' = rr_lifecycle arow"
      "same_binding arow arow' \<or> rr_native_provider arow' = None \<and> rr_native_session_id arow' = None"
    by (rule transfer_shape [OF db0 sa srow(1) arow(1) ab]) (rule that; assumption)
  obtain imgs where i1: "db1 = db0\<lparr>db_before_images := imgs\<rparr>"
    and i2: "\<And>k v. (k, v) \<in> set imgs \<Longrightarrow> (k, v) \<in> set (db_before_images db0) \<or> v = Some a"
    by (rule keep_images_shape [OF db1]) (rule that, assumption, blast)
  note d2 = replace_edges_shape(1) [OF db2] and d3 = replace_edges_shape(2) [OF db3]
  define state where "state = (let merged = mg_v6_state sp;
      merged = (if v6_lifecycle_watermark merged < v6_lifecycle_watermark (mg_v6_state ap)
        then merged\<lparr>v6_native_session_end := v6_native_session_end (mg_v6_state ap),
                     v6_lifecycle_watermark := v6_lifecycle_watermark (mg_v6_state ap)\<rparr> else merged)
    in merged\<lparr>v6_history_ready := v6_history_ready merged \<or> v6_history_ready (mg_v6_state ap)
          \<or> completed_coverage s a db3,
        v6_latest_provider_at_ms := later_time (v6_latest_provider_at_ms merged)
          (v6_latest_provider_at_ms (mg_v6_state ap))\<rparr>)"
  have v6: "merge_v6_run_state s a (mg_v6_state sp) (mg_v6_state ap) db3
      = update_run s (\<lambda>row. row\<lparr>rr_lifecycle := encode_lifecycle state\<rparr>) db3"
    by (simp add: merge_v6_run_state_def state_def Let_def)
  let ?db3 = "update_run s (\<lambda>row. row\<lparr>rr_lifecycle := encode_lifecycle state\<rparr>) db3"
  have totals3: "db_run_rate_totals ?db3 = db_run_rate_totals db"
    by (simp add: update_run_shape d3 d2 repoint_rows_def i1 t)
  obtain totals where d4: "db4 = ?db3\<lparr>db_run_rate_totals := totals\<rparr>"
    and totals: "\<And>i. hm_get totals i = (if i = a then None else if i = s then hm_get totals s
        else hm_get (db_run_rate_totals db) i)"
      "hm_ok (db_run_rate_totals db) \<Longrightarrow> hm_ok totals"
      "\<And>v. hm_get totals s = Some v \<Longrightarrow> hm_get (db_run_rate_totals db) s = Some v \<or> 0 \<le> fst v \<and> 0 \<le> snd v"
    by (rule merge_rates_shape [OF db4 [unfolded v6]]) (unfold totals3, rule that; assumption)
  let ?finish = "\<lambda>row. row\<lparr>rr_finished_at_ms := merged_finish sp ap\<rparr>"
  let ?life = "\<lambda>row. row\<lparr>rr_lifecycle := encode_lifecycle state\<rparr>"
  have db3_rows: "db_task_runs db3 = rows" by (simp add: d3 d2 repoint_rows_def i1 t)
  have rows4: "run_row (update_run s ?finish (transfer_associations s a db4)) i
      = (if i = s then Some (?finish (?life srow')) else if i = a then Some arow' else run_row db i)" for i
    using sa by (simp add: update_run_row transfer_associations_def Let_def d4 db3_rows lookup)
  have final: "run_row db' i = map_option (\<lambda>row. if i = a \<or> rr_merged_into row = Some a
        then row\<lparr>rr_merged_into := Some s\<rparr> else row)
      (if i = s then Some (?finish (?life srow')) else if i = a then Some arow' else run_row db i)" for i
    by (simp add: db' [symmetric] redirect_rows rows4)
  note frames = redirect_aliases_def update_run_shape transfer_associations_def Let_def d4 d3 d2 i1 t
    repoint_rows_def
  show thesis
  proof (rule that [OF sp ap srow(1) arow(1), where execution_edges = execution_edges
        and dependency_edges = dependency_edges and imgs = imgs and totals = totals and state = state])
    show "substituted_execution_edges s a db = Inr execution_edges"
      "substituted_dependency_edges s a db = Inr dependency_edges"
      using ee de by (simp_all add: t substituted_execution_edges_def substituted_dependency_edges_def)
    show "merge_frame db db'" by (simp add: db' [symmetric] merge_frame_def frames)
    show "db_executions db' = db_executions (repoint_rows s a db)"
      "db_agent_nodes db' = db_agent_nodes (repoint_rows s a db)"
      "db_events db' = db_events (repoint_rows s a db)"
      "db_publications db' = db_publications (repoint_rows s a db)"
      "db_drain_runs db' = db_drain_runs (transfer_associations s a db)"
      "db_execution_edges db' = map (\<lambda>(p, c, t). ((p, c), t)) execution_edges"
      "db_dependency_edges db' = map (\<lambda>(p, c, t). ((p, c), t)) dependency_edges"
      "db_before_images db' = imgs" "db_run_rate_totals db' = totals"
      by (simp_all add: db' [symmetric] frames)
    show "(k, v) \<in> set (db_before_images db) \<or> v = Some a" if "(k, v) \<in> set imgs" for k v
      using i2 [OF that] by (simp add: t)
    show "hm_get totals i = (if i = a then None else if i = s then hm_get totals s
        else hm_get (db_run_rate_totals db) i)" for i by (rule totals(1))
    show "hm_keys (db_task_runs db') = hm_keys (db_task_runs db)"
      using keys by (simp add: db' [symmetric] transfer_associations_def Let_def d4 db3_rows update_run_keys [of s _ db3])
    show "run_row db' i = (if i = s then run_row db' s else if i = a then run_row db' a
      else map_option (\<lambda>row. if rr_merged_into row = Some a then row\<lparr>rr_merged_into := Some s\<rparr> else row)
        (run_row db i))" for i by (cases "i = s"; cases "i = a"; simp add: final)
    show "\<exists>row. run_row db' s = Some row \<and> rr_merged_into row = None \<and> rr_key row = rr_key srow
      \<and> rr_task_state row = rr_task_state srow \<and> rr_lifecycle row = encode_lifecycle state
      \<and> (same_binding srow row \<or> same_binding arow row)"
      using final [of s] sa s' srow(2) by (simp add: same_binding_def)
    show "\<exists>row. run_row db' a = Some row \<and> rr_merged_into row = Some s \<and> rr_key row = rr_key arow
      \<and> rr_task_state row = rr_task_state arow \<and> rr_lifecycle row = rr_lifecycle arow
      \<and> (same_binding arow row \<or> rr_native_provider row = None \<and> rr_native_session_id row = None)"
      using final [of a] sa a' by (simp add: same_binding_def)
  qed (use totals in auto)
qed

end
