(* ===== verification/Drain_Laws.thy ===== *)
theory Drain_Laws
  imports Store_Laws
begin

text \<open>
  What finalizing a history drain does: the drain closes, every run it claims is ready unless an
  open drain still claims it, and a repeated request finds the stored result unchanged.
\<close>

section \<open>The manifest\<close>

text \<open>Artifacts belong to known drains, as the foreign key says.\<close>

definition artifacts_owned :: "database \<Rightarrow> bool" where
  "artifacts_owned db \<longleftrightarrow>
     (\<forall>((d, artifact), content) \<in> set (db_drain_artifacts db). hm_get (db_history_drains db) d \<noteq> None)"

lemma sorted_manifest: "sort_key fst (sort m) = sort (m :: (string \<times> 'a::linorder) list)"
proof (rule sort_key_id_if_sorted)
  have "sorted_wrt (\<lambda>x y. fst x \<le> fst y) (sort m)"
    by (rule sorted_wrt_mono_rel [OF _ sorted_sort]) (auto simp: less_eq_prod_def)
  then show "sorted (map fst (sort m))" by (simp add: sorted_wrt_map)
qed

lemma filter_map_Nil: "filter_map f xs = [] \<longleftrightarrow> (\<forall>x \<in> set xs. f x = None)"
  by (induction xs) (auto split: option.splits)

lemma stored_manifest_insert:
  assumes "\<And>artifact content. ((i, artifact), content) \<notin> set (db_drain_artifacts db)"
  shows "stored_manifest i (db\<lparr>db_history_drains := drains, db_drain_artifacts := db_drain_artifacts db
      @ map (\<lambda>(artifact, generation, goalpost). ((i, artifact), generation, goalpost)) m\<rparr>)
    = sort_key fst m"
proof -
  have "filter_map (\<lambda>((d, artifact), generation, goalpost).
      if d = i then Some (artifact, generation, goalpost) else None) (db_drain_artifacts db) = []"
    using assms by (auto simp: filter_map_Nil)
  moreover have "filter_map (\<lambda>((d, artifact), generation, goalpost).
      if d = i then Some (artifact, generation, goalpost) else None)
      (map (\<lambda>(artifact, generation, goalpost). ((i, artifact), generation, goalpost)) m) = m"
    by (induction m) auto
  ultimately show ?thesis by (simp add: stored_manifest_def)
qed

text \<open>An accepted manifest was either known with the same content or is entered now.\<close>

lemma upsert_drain_cases:
  assumes "upsert_history_drain drain db = Inr db1"
  obtains (known) ids incoming row
    where "try_fold checked_artifact (pd_artifacts drain) ([], []) = Inr (ids, incoming)"
      and "hm_get (db_history_drains db) (drain_text (pd_drain_id drain)) = Some row"
      and "dr_provider row = provider_text (pd_provider drain)"
      and "stored_manifest (drain_text (pd_drain_id drain)) db = sort incoming" and "db1 = db"
  | (entered) ids incoming
    where "try_fold checked_artifact (pd_artifacts drain) ([], []) = Inr (ids, incoming)"
      and "hm_get (db_history_drains db) (drain_text (pd_drain_id drain)) = None"
      and "db1 = db\<lparr>db_history_drains := hm_put (drain_text (pd_drain_id drain))
             \<lparr>dr_provider = provider_text (pd_provider drain), dr_created_at_ms = pd_created_at_ms drain,
              dr_finalized_at_ms = None, dr_completed_by_drain_id = None\<rparr> (db_history_drains db),
           db_drain_artifacts := db_drain_artifacts db @ map (\<lambda>(artifact, generation, goalpost).
              ((drain_text (pd_drain_id drain), artifact), generation, goalpost)) (sort incoming)\<rparr>"
      and "drain_checks (drain_text (pd_drain_id drain)) \<lparr>dr_provider = provider_text (pd_provider drain),
              dr_created_at_ms = pd_created_at_ms drain, dr_finalized_at_ms = None, dr_completed_by_drain_id = None\<rparr>"
      and "\<forall>(artifact, generation, goalpost) \<in> set incoming. artifact_checks artifact generation goalpost"
proof -
  obtain ids incoming where scan: "try_fold checked_artifact (pd_artifacts drain) ([], []) = Inr (ids, incoming)"
    using assms by (auto simp: upsert_history_drain_def Let_def results)
  show thesis
  proof (cases "hm_get (db_history_drains db) (drain_text (pd_drain_id drain))")
    case None
    with assms show thesis
      by (intro entered [OF scan])
        (simp_all add: upsert_history_drain_def scan Let_def list_ex_iff case_prod_beta split: if_splits)
  next
    case (Some row)
    with assms show thesis
      by (intro known [OF scan Some]) (simp_all add: upsert_history_drain_def scan Let_def split: if_splits)
  qed
qed

text \<open>A manifest that was accepted is accepted again and then changes nothing.\<close>

lemma upsert_drain_again:
  assumes "upsert_history_drain drain db = Inr db1" and "artifacts_owned db"
    and "db_drain_artifacts db2 = db_drain_artifacts db1"
    and "map_option dr_provider (hm_get (db_history_drains db2) (drain_text (pd_drain_id drain)))
      = map_option dr_provider (hm_get (db_history_drains db1) (drain_text (pd_drain_id drain)))"
  shows "upsert_history_drain drain db2 = Inr db2"
  using assms(1)
proof (cases rule: upsert_drain_cases)
  case (known ids incoming row)
  then obtain row2 where "hm_get (db_history_drains db2) (drain_text (pd_drain_id drain)) = Some row2"
    "dr_provider row2 = provider_text (pd_provider drain)" using assms(4) by auto
  moreover have "stored_manifest (drain_text (pd_drain_id drain)) db2 = sort incoming"
    using known assms(3) by (simp add: stored_manifest_def)
  ultimately show ?thesis by (simp add: upsert_history_drain_def Let_def known(1))
next
  case (entered ids incoming)
  then obtain row2 where "hm_get (db_history_drains db2) (drain_text (pd_drain_id drain)) = Some row2"
    "dr_provider row2 = provider_text (pd_provider drain)" using assms(4) by auto
  moreover have "stored_manifest (drain_text (pd_drain_id drain)) db1 = sort incoming"
  proof -
    have "((drain_text (pd_drain_id drain), artifact), content) \<notin> set (db_drain_artifacts db)"
      for artifact content using assms(2) entered(2) by (force simp: artifacts_owned_def)
    from stored_manifest_insert [OF this] show ?thesis by (simp add: entered(3) sorted_manifest)
  qed
  then have "stored_manifest (drain_text (pd_drain_id drain)) db2 = sort incoming"
    using assms(3) by (simp add: stored_manifest_def)
  ultimately show ?thesis by (simp add: upsert_history_drain_def Let_def entered(1))
qed

section \<open>The steps of a finalization\<close>

lemma upsert_drain_frame:
  assumes "upsert_history_drain drain db = Inr db1"
  shows "db_task_runs db1 = db_task_runs db" and "db_drain_runs db1 = db_drain_runs db"
    and "db_events db1 = db_events db" and "db_executions db1 = db_executions db"
    and "db_publications db1 = db_publications db"
    and "hm_get (db_history_drains db1) (drain_text (pd_drain_id drain)) \<noteq> None"
  by (cases rule: upsert_drain_cases [OF assms]; simp)+

lemma upsert_drain_rows:
  assumes "upsert_history_drain drain db = Inr db1"
    and "hm_get (db_history_drains db) d = Some row"
  shows "hm_get (db_history_drains db1) d = Some row"
  by (cases rule: upsert_drain_cases [OF assms(1)]) (use assms(2) in auto)

lemma closed_drain_rows:
  "hm_get (db_history_drains (close_drains drain now closing db)) d =
    map_option (\<lambda>row. if d \<in> set closing then row\<lparr>dr_finalized_at_ms := Some now,
        dr_completed_by_drain_id := Some drain\<rparr> else row) (hm_get (db_history_drains db) d)"
  by (simp add: close_drains_def)

text \<open>The database after a first finalization, step by step.\<close>

definition finalize_steps :: "string \<Rightarrow> string list \<Rightarrow> i64 \<Rightarrow> database \<Rightarrow> database" where
  "finalize_steps drain olders now db =
     (let db = ready_members drain (close_members drain now
            (close_drains drain now (drain # olders) (inherit_associations drain olders db)));
          db = drop_publications (run_ready db) db
      in drop_ready_images db)"

lemma finalize_body_cases:
  assumes "finalize_body manifest now db = Inr db'"
  obtains (done_before) "upsert_history_drain manifest db = Inr db'"
      "drain_finalized db' (drain_text (pd_drain_id manifest))"
  | (first) db1 olders where "upsert_history_drain manifest db = Inr db1"
      "\<not> drain_finalized db1 (drain_text (pd_drain_id manifest))"
      "db' = finalize_steps (drain_text (pd_drain_id manifest)) olders now db1"
proof -
  obtain db1 row where up: "upsert_history_drain manifest db = Inr db1"
    and row: "hm_get (db_history_drains db1) (drain_text (pd_drain_id manifest)) = Some row"
    using assms by (auto simp: finalize_body_def Let_def results)
  show thesis
  proof (cases "dr_finalized_at_ms row = None")
    case False
    with assms up row show thesis
      by (intro done_before) (simp_all add: finalize_body_def Let_def drain_finalized_def)
  next
    case True
    with assms up row show thesis
      by (intro first [OF up, where olders = "map fst (filter
            (superseded db1 (drain_text (pd_drain_id manifest)) row) (db_history_drains db1))"])
        (simp_all add: finalize_body_def Let_def drain_finalized_def finalize_steps_def)
  qed
qed

lemma finalize_steps_drains:
  "hm_get (db_history_drains (finalize_steps drain olders now db)) d =
    map_option (\<lambda>row. if d \<in> set (drain # olders) then row\<lparr>dr_finalized_at_ms := Some now,
        dr_completed_by_drain_id := Some drain\<rparr> else row) (hm_get (db_history_drains db) d)"
  "db_drain_artifacts (finalize_steps drain olders now db) = db_drain_artifacts db"
  "db_drain_runs (finalize_steps drain olders now db) = db_drain_runs (inherit_associations drain olders db)"
  by (simp_all add: finalize_steps_def Let_def drop_ready_images_def drop_publications_def
      ready_members_def close_members_def close_drains_def inherit_associations_def)

lemma finalize_steps_runs:
  "run_row (finalize_steps drain olders now db) i =
    run_row (ready_members drain (close_members drain now
      (close_drains drain now (drain # olders) (inherit_associations drain olders db)))) i"
  by (simp add: finalize_steps_def Let_def drop_ready_images_def drop_publications_def)

lemma blocked_frame:
  assumes "db_drain_runs db' = db_drain_runs db"
    and "\<And>d. hm_get (db_history_drains db') d = hm_get (db_history_drains db) d"
  shows "blocked_by_drain db' i = blocked_by_drain db i"
  using assms by (simp add: blocked_by_drain_def drain_open_def)

text \<open>After the steps a canonical member that is not ready is blocked by an open drain.\<close>

lemma finalized_member:
  assumes row: "run_row (finalize_steps drain olders now db) i = Some row"
    and "rr_merged_into row = None"
    and "(drain, i) \<in> set (db_drain_runs (finalize_steps drain olders now db))"
    and "\<not> blocked_by_drain (finalize_steps drain olders now db) i"
  shows "lf_history_ready (rr_lifecycle row) = 1"
proof -
  let ?db = "close_members drain now
      (close_drains drain now (drain # olders) (inherit_associations drain olders db))"
  have runs: "db_drain_runs ?db = db_drain_runs (finalize_steps drain olders now db)"
    and "hm_get (db_history_drains ?db) d = hm_get (db_history_drains (finalize_steps drain olders now db)) d" for d
    by (simp_all add: finalize_steps_def Let_def drop_ready_images_def drop_publications_def
        ready_members_def close_members_def)
  then have "\<not> blocked_by_drain ?db i" using blocked_frame [of ?db] assms(4) by metis
  moreover obtain old where old: "run_row ?db i = Some old"
    and new: "row = (if drain_member ?db drain (i, old)
        then old\<lparr>rr_lifecycle := (rr_lifecycle old)\<lparr>lf_history_ready :=
           i64_from_bool (lf_history_ready (rr_lifecycle old) \<noteq> 0 \<or> \<not> blocked_by_drain ?db i)\<rparr>\<rparr>
        else old)"
    using row unfolding finalize_steps_runs ready_members_def by auto
  moreover have "drain_member ?db drain (i, old)"
    using assms(2,3) new runs by (auto simp: drain_member_def split: if_splits)
  ultimately show ?thesis by (simp add: i64_from_bool_def)
qed

lemma finalize_drain_members:
  assumes fin: "finalize_history_drain env manifest now db = (db', Inr result)"
    and fresh: "\<not> drain_finalized db (drain_text (pd_drain_id manifest))"
    and row: "run_row db' i = Some row" "rr_merged_into row = None"
    and member: "(drain_text (pd_drain_id manifest), i) \<in> set (db_drain_runs db')"
    and free: "\<not> blocked_by_drain db' i"
  shows "lf_history_ready (rr_lifecycle row) = 1"
proof -
  have body: "finalize_body manifest now db = Inr db'"
    using fin by (auto simp: finalize_history_drain_def split: sum.splits)
  show ?thesis
  proof (cases rule: finalize_body_cases [OF body])
    case 1
    then show ?thesis
      using fresh by (cases rule: upsert_drain_cases [OF 1(1)]) (simp_all add: drain_finalized_def)
  next
    case (2 db1 olders)
    then show ?thesis using finalized_member [of _ olders now db1 i row] row member free by simp
  qed
qed

text \<open>A finalized drain stays finalized, so a repeated request changes nothing.\<close>

lemma finalize_body_finalized:
  assumes "finalize_body manifest now db = Inr db'"
  shows "drain_finalized db' (drain_text (pd_drain_id manifest))"
proof (cases rule: finalize_body_cases [OF assms])
  case (2 db1 olders)
  then obtain row where "hm_get (db_history_drains db1) (drain_text (pd_drain_id manifest)) = Some row"
    using upsert_drain_frame(6) [OF 2(1)] by blast
  then show ?thesis by (simp add: 2(3) drain_finalized_def finalize_steps_drains)
qed simp

lemma finalize_again:
  assumes fin: "finalize_history_drain env manifest now db = (db', Inr result)"
    and owned: "artifacts_owned db"
  shows "finalize_history_drain env manifest later db' = (db', Inr result)"
proof -
  let ?d = "drain_text (pd_drain_id manifest)"
  have body: "finalize_body manifest now db = Inr db'"
    and load: "load_history_drain_finalization env (pd_drain_id manifest) db' = Inr result"
    using fin by (auto simp: finalize_history_drain_def split: sum.splits)
  have "upsert_history_drain manifest db' = Inr db'"
  proof (cases rule: finalize_body_cases [OF body])
    case 1
    then show ?thesis using upsert_drain_again [OF 1(1) owned] by blast
  next
    case (2 db1 olders)
    show ?thesis
      by (rule upsert_drain_again [OF 2(1) owned])
        (simp_all add: 2(3) finalize_steps_drains option.map_comp comp_def if_distrib cong: if_cong)
  qed
  moreover obtain row where "hm_get (db_history_drains db') ?d = Some row" "dr_finalized_at_ms row \<noteq> None"
    using finalize_body_finalized [OF body] by (auto simp: drain_finalized_def split: option.splits)
  ultimately have "finalize_body manifest later db' = Inr db'"
    by (simp add: finalize_body_def Let_def)
  with load show ?thesis by (simp add: finalize_history_drain_def)
qed

end
