(* ===== verification/Schema_Laws.thy ===== *)
theory Schema_Laws
  imports Store_Merge_Laws Drain_Laws
begin

text \<open>
  The constraints the schema declares for its tables as one invariant: primary keys, UNIQUE indexes, CHECKs and
  foreign keys, and the flatness of the aliases the statements keep. The model refuses a statement
  only where SQLite would report a violation, so an update that is modelled without a check must
  be shown not to violate any: every statement, batch, finalization and retention pass keeps the
  invariant, and every database they reach from an empty one satisfies it.
\<close>

section \<open>The constraints, table by table\<close>

text \<open>\<open>R\<close> is the set of run identifiers, \<open>S\<close> the set of native sessions.\<close>

definition bound_in :: "(string \<times> string) set \<Rightarrow> task_run_row \<Rightarrow> bool" where
  "bound_in S row \<longleftrightarrow> (\<forall>provider sid. rr_native_provider row = Some provider \<longrightarrow>
     rr_native_session_id row = Some sid \<longrightarrow> (provider, sid) \<in> S)"

definition flat_target :: "(string, task_run_row) hmap \<Rightarrow> task_run_row \<Rightarrow> bool" where
  "flat_target runs row \<longleftrightarrow> (\<forall>t. rr_merged_into row = Some t \<longrightarrow>
     (\<exists>target. hm_get runs t = Some target \<and> rr_merged_into target = None))"

definition runs_ok :: "(string \<times> string) set \<Rightarrow> (string, task_run_row) hmap \<Rightarrow> bool" where
  "runs_ok S runs \<longleftrightarrow> hm_ok runs
     \<and> (\<forall>i row. hm_get runs i = Some row \<longrightarrow>
          task_run_checks i row \<and> bound_in S row \<and> flat_target runs row)
     \<and> (\<forall>i j a b. hm_get runs i = Some a \<longrightarrow> hm_get runs j = Some b \<longrightarrow> i \<noteq> j \<longrightarrow>
          \<not> row_conflict a b)"

definition topology_ok :: "database \<Rightarrow> bool" where
  "topology_ok db \<longleftrightarrow> distinct (db_workspaces db) \<and> hm_ok (db_tabs db) \<and> hm_ok (db_panes db)
     \<and> (\<forall>t \<in> set (hm_values (db_tabs db)). tbr_workspace_id t \<in> set (db_workspaces db))
     \<and> (\<forall>p \<in> set (hm_values (db_panes db)). pnr_workspace_id p \<in> set (db_workspaces db)
          \<and> pnr_tab_id p \<in> set (hm_keys (db_tabs db)))"

definition ordinals_ok :: "(string \<times> string, i64) hmap \<Rightarrow> bool" where
  "ordinals_ok ords \<longleftrightarrow> hm_ok ords \<and> distinct (hm_values ords)"

definition executions_ok :: "string set \<Rightarrow> (string, execution_row) hmap \<Rightarrow> bool" where
  "executions_ok R m \<longleftrightarrow> hm_ok m \<and> (\<forall>e \<in> set (hm_values m). exr_task_run_id e \<in> R)"

definition nodes_ok ::
  "string set \<Rightarrow> (string \<times> string) set \<Rightarrow> (string, agent_node_row) hmap \<Rightarrow> bool" where
  "nodes_ok R S m \<longleftrightarrow> hm_ok m
     \<and> (\<forall>n \<in> set (hm_values m). anr_task_run_id n \<in> R \<and> anr_state n \<in> {None, Some ''working'', Some ''ended''}
          \<and> (\<forall>sid. anr_native_session_id n = Some sid \<longrightarrow> (anr_provider n, sid) \<in> S))"

definition execution_edges_ok :: "string set \<Rightarrow> (string \<times> string, i64) hmap \<Rightarrow> bool" where
  "execution_edges_ok R m \<longleftrightarrow> distinct (map (\<lambda>((_, c), _). c) m)
     \<and> (\<forall>((p, c), t) \<in> set m. p \<noteq> c \<and> p \<in> R \<and> c \<in> R)"

definition dependency_edges_ok :: "string set \<Rightarrow> (string \<times> string, i64) hmap \<Rightarrow> bool" where
  "dependency_edges_ok R m \<longleftrightarrow> hm_ok m \<and> (\<forall>((p, d), t) \<in> set m. p \<noteq> d \<and> p \<in> R \<and> d \<in> R)"

definition totals_ok :: "string set \<Rightarrow> (string, i64 \<times> i64) hmap \<Rightarrow> bool" where
  "totals_ok R m \<longleftrightarrow> hm_ok m \<and> (\<forall>(i, tokens, working) \<in> set m. i \<in> R \<and> 0 \<le> tokens \<and> 0 \<le> working)"

definition publications_ok :: "string set \<Rightarrow> (string, string \<times> string) hmap \<Rightarrow> bool" where
  "publications_ok R m \<longleftrightarrow> hm_ok m \<and> (\<forall>(i, canonical, payload) \<in> set m. canonical \<in> R)"

text \<open>\<open>D\<close> is the set of drain identifiers, \<open>E\<close> the set of event identifiers.\<close>

definition drain_runs_ok :: "string set \<Rightarrow> string set \<Rightarrow> (string \<times> string) list \<Rightarrow> bool" where
  "drain_runs_ok D R m \<longleftrightarrow> distinct m \<and> set m \<subseteq> D \<times> R"

definition drains_ok :: "(string, history_drain_row) hmap \<Rightarrow> bool" where
  "drains_ok m \<longleftrightarrow> hm_ok m \<and> (\<forall>(i, row) \<in> set m. drain_checks i row)"

definition artifacts_ok :: "string set \<Rightarrow> (string \<times> string, string \<times> i64) hmap \<Rightarrow> bool" where
  "artifacts_ok D m \<longleftrightarrow> hm_ok m
     \<and> (\<forall>((d, artifact), generation, goalpost) \<in> set m. d \<in> D \<and> artifact_checks artifact generation goalpost)"

definition images_ok :: "string set \<Rightarrow> string set \<Rightarrow> (string \<times> string, string option) hmap \<Rightarrow> bool" where
  "images_ok D E m \<longleftrightarrow> hm_ok m \<and> (\<forall>((d, e), owner) \<in> set m. d \<in> D \<and> e \<in> E)"

abbreviation run_ids :: "database \<Rightarrow> string set" where
  "run_ids db \<equiv> set (hm_keys (db_task_runs db))"

abbreviation drain_ids :: "database \<Rightarrow> string set" where
  "drain_ids db \<equiv> set (hm_keys (db_history_drains db))"

abbreviation event_ids :: "database \<Rightarrow> string set" where
  "event_ids db \<equiv> ep_event_id ` set (db_events db)"

definition schema_ok :: "database \<Rightarrow> bool" where
  "schema_ok db \<longleftrightarrow>
     runs_ok (set (db_native_sessions db)) (db_task_runs db)
     \<and> topology_ok db
     \<and> ordinals_ok (db_display_ordinals db)
     \<and> executions_ok (run_ids db) (db_executions db)
     \<and> nodes_ok (run_ids db) (set (db_native_sessions db)) (db_agent_nodes db)
     \<and> execution_edges_ok (run_ids db) (db_execution_edges db)
     \<and> dependency_edges_ok (run_ids db) (db_dependency_edges db)
     \<and> totals_ok (run_ids db) (db_run_rate_totals db)
     \<and> publications_ok (run_ids db) (db_publications db)
     \<and> drain_runs_ok (drain_ids db) (run_ids db) (db_drain_runs db)
     \<and> drains_ok (db_history_drains db)
     \<and> artifacts_ok (drain_ids db) (db_drain_artifacts db)
     \<and> images_ok (drain_ids db) (event_ids db) (db_before_images db)
     \<and> distinct (map ep_event_id (db_events db))
     \<and> hm_ok (db_event_ledger db)
     \<and> distinct (db_native_sessions db)
     \<and> hm_ok (db_herdr_sessions db)"

lemma schema_ok_empty: "schema_ok empty_database"
  by (simp add: schema_ok_def empty_database_def runs_ok_def topology_ok_def ordinals_ok_def
      executions_ok_def nodes_ok_def execution_edges_ok_def dependency_edges_ok_def totals_ok_def
      publications_ok_def drain_runs_ok_def drains_ok_def artifacts_ok_def images_ok_def)

section \<open>One table\<close>

lemma sql_same_sym: "sql_same a b = sql_same b a"
  unfolding sql_same_def by metis

lemma row_conflict_sym: "row_conflict a b = row_conflict b a"
proof -
  have key: "same_key x y = same_key y x" for x y
    unfolding same_key_def sql_same_sym [of _ "ek_controller_id y"] sql_same_sym [of _ "ek_provider y"]
      sql_same_sym [of _ "ek_native_sid y"] sql_same_sym [of _ "ek_native_path y"]
    by (cases "ek_kind x = ek_kind y") simp_all
  show ?thesis
    unfolding row_conflict_def key [of _ "rr_key b"] sql_same_sym [of _ "rr_native_provider b"]
      sql_same_sym [of _ "rr_native_session_id b"]
    by (simp only: eq_commute [of "rr_display_ordinal a"])
qed

text \<open>More runs, sessions, drains or events break no reference.\<close>

lemma references_mono:
  "executions_ok R m \<Longrightarrow> R \<subseteq> R' \<Longrightarrow> executions_ok R' m"
  "nodes_ok R S n \<Longrightarrow> R \<subseteq> R' \<Longrightarrow> S \<subseteq> S' \<Longrightarrow> nodes_ok R' S' n"
  "execution_edges_ok R ee \<Longrightarrow> R \<subseteq> R' \<Longrightarrow> execution_edges_ok R' ee"
  "dependency_edges_ok R de \<Longrightarrow> R \<subseteq> R' \<Longrightarrow> dependency_edges_ok R' de"
  "totals_ok R t \<Longrightarrow> R \<subseteq> R' \<Longrightarrow> totals_ok R' t"
  "publications_ok R p \<Longrightarrow> R \<subseteq> R' \<Longrightarrow> publications_ok R' p"
  "drain_runs_ok D R dr \<Longrightarrow> R \<subseteq> R' \<Longrightarrow> D \<subseteq> D' \<Longrightarrow> drain_runs_ok D' R' dr"
  "artifacts_ok D ar \<Longrightarrow> D \<subseteq> D' \<Longrightarrow> artifacts_ok D' ar"
  "images_ok D E im \<Longrightarrow> D \<subseteq> D' \<Longrightarrow> E \<subseteq> E' \<Longrightarrow> images_ok D' E' im"
  subgoal by (auto simp: executions_ok_def subset_eq)
  subgoal by (auto simp: nodes_ok_def subset_eq)
  subgoal by (auto simp: execution_edges_ok_def subset_eq)
  subgoal by (auto simp: dependency_edges_ok_def subset_eq)
  subgoal by (auto simp: totals_ok_def subset_eq)
  subgoal by (auto simp: publications_ok_def subset_eq)
  subgoal by (auto simp: drain_runs_ok_def subset_eq)
  subgoal by (auto simp: artifacts_ok_def subset_eq)
  subgoal by (auto simp: images_ok_def subset_eq)
  done

text \<open>Fewer rows break no constraint of their own table.\<close>

lemma rows_dropped:
  "executions_ok R m \<Longrightarrow> executions_ok R (filter P1 m)"
  "nodes_ok R S n \<Longrightarrow> nodes_ok R S (filter P2 n)"
  "execution_edges_ok R ee \<Longrightarrow> execution_edges_ok R (filter P3 ee)"
  "dependency_edges_ok R de \<Longrightarrow> dependency_edges_ok R (filter P3 de)"
  "totals_ok R t \<Longrightarrow> totals_ok R (filter P4 t)"
  "publications_ok R p \<Longrightarrow> publications_ok R (filter P5 p)"
  "drain_runs_ok D R dr \<Longrightarrow> drain_runs_ok D R (filter P6 dr)"
  "images_ok D E im \<Longrightarrow> images_ok D E (filter P7 im)"
  "ordinals_ok ords \<Longrightarrow> ordinals_ok (filter P8 ords)"
  by (auto simp: executions_ok_def nodes_ok_def execution_edges_ok_def dependency_edges_ok_def
      totals_ok_def publications_ok_def drain_runs_ok_def images_ok_def ordinals_ok_def distinct_map_filter)

text \<open>A row that satisfies the constraints may be written.\<close>

lemma rows_put:
  "executions_ok R m \<Longrightarrow> exr_task_run_id e \<in> R \<Longrightarrow> executions_ok R (hm_put i e m)"
  "nodes_ok R S n \<Longrightarrow> anr_task_run_id row \<in> R \<Longrightarrow> anr_state row \<in> {None, Some ''working'', Some ''ended''} \<Longrightarrow>
     (\<And>sid. anr_native_session_id row = Some sid \<Longrightarrow> (anr_provider row, sid) \<in> S) \<Longrightarrow> nodes_ok R S (hm_put i row n)"
  "totals_ok R t \<Longrightarrow> i \<in> R \<Longrightarrow> 0 \<le> tokens \<Longrightarrow> 0 \<le> working \<Longrightarrow> totals_ok R (hm_put i (tokens, working) t)"
  "images_ok D E im \<Longrightarrow> d \<in> D \<Longrightarrow> event \<in> E \<Longrightarrow> images_ok D E (hm_put (d, event) owner im)"
  "publications_ok R p \<Longrightarrow> canonical \<in> R \<Longrightarrow> publications_ok R (hm_put i (canonical, payload) p)"
  subgoal by (auto simp: executions_ok_def dest!: hm_put_member)
  subgoal unfolding nodes_ok_def by (intro conjI ballI) (auto dest!: hm_put_member)
  subgoal by (auto simp: totals_ok_def dest!: hm_put_member)
  subgoal by (auto simp: images_ok_def dest!: hm_put_member)
  subgoal by (auto simp: publications_ok_def dest!: hm_put_member)
  done

lemma runs_ok_put:
  assumes ok: "runs_ok S runs" and "S \<subseteq> S'"
    and "task_run_checks i row" and "bound_in S' row"
    and "\<forall>j other. (j, other) \<in> set runs \<longrightarrow> j \<noteq> i \<longrightarrow> \<not> row_conflict row other"
    and target: "flat_target runs row"
    and canonical: "rr_merged_into row = None \<or> hm_get runs i = None
      \<or> (\<exists>old. hm_get runs i = Some old \<and> rr_merged_into old = rr_merged_into row)"
  shows "runs_ok S' (hm_put i row runs)"
proof -
  have loop: "rr_merged_into row \<noteq> Some i" using assms(3) by (simp add: task_run_checks_def)
  have flat: "flat_target (hm_put i row runs) other" if flat: "flat_target runs other" for other
    unfolding flat_target_def
  proof (intro allI impI)
    fix t
    assume t: "rr_merged_into other = Some t"
    then obtain u where u: "hm_get runs t = Some u" "rr_merged_into u = None"
      using flat unfolding flat_target_def by blast
    show "\<exists>target. hm_get (hm_put i row runs) t = Some target \<and> rr_merged_into target = None"
      using u canonical by (cases "t = i") auto
  qed
  have mono: "bound_in S' other" if "bound_in S other" for other using that assms(2) by (auto simp: bound_in_def)
  have clash: "\<not> row_conflict row other \<and> \<not> row_conflict other row" if "hm_get runs j = Some other" "j \<noteq> i" for j other
    using assms(5) that ok row_conflict_sym [of row other] by (auto simp: runs_ok_def hm_get_eq_iff)
  show ?thesis
    using ok assms(3,4) flat [OF target] flat mono clash by (auto simp: runs_ok_def)
qed

lemma runs_ok_sessions: "runs_ok S runs \<Longrightarrow> S \<subseteq> S' \<Longrightarrow> runs_ok S' runs"
  by (fastforce simp: runs_ok_def bound_in_def)

text \<open>A change of the lifecycle, the times or the state of rows.\<close>

definition same_identity :: "task_run_row \<Rightarrow> task_run_row \<Rightarrow> bool" where
  "same_identity row row' \<longleftrightarrow> rr_key row' = rr_key row
     \<and> rr_display_ordinal row' = rr_display_ordinal row
     \<and> rr_native_provider row' = rr_native_provider row
     \<and> rr_native_session_id row' = rr_native_session_id row
     \<and> rr_merged_into row' = rr_merged_into row
     \<and> rr_has_controller_event row' \<in> {0, 1} \<and> lifecycle_checks (rr_lifecycle row')"

lemma runs_ok_same:
  assumes ok: "runs_ok S runs" and keys: "hm_keys runs' = hm_keys runs"
    and same: "\<And>i row row'. hm_get runs i = Some row \<Longrightarrow> hm_get runs' i = Some row' \<Longrightarrow>
      same_identity row row'"
  shows "runs_ok S runs'"
proof -
  have ex: "\<exists>row. hm_get runs i = Some row" if "hm_get runs' i = Some row'" for i row'
    using hm_member [OF that] keys by (metis map_of_eq_None_iff not_None_eq set_map)
  have ex': "\<exists>row'. hm_get runs' i = Some row'" if "hm_get runs i = Some row" for i row
    using hm_member [OF that] keys by (metis map_of_eq_None_iff not_None_eq set_map)
  show ?thesis
    unfolding runs_ok_def
  proof (intro conjI allI impI)
    show "hm_ok runs'" using ok keys by (simp add: runs_ok_def)
    fix i row'
    assume row': "hm_get runs' i = Some row'"
    then obtain row where row: "hm_get runs i = Some row" "same_identity row row'" using ex same by blast
    then have old: "task_run_checks i row" "bound_in S row" "flat_target runs row" using ok by (auto simp: runs_ok_def)
    show "task_run_checks i row'" "bound_in S row'"
      using row(2) old(1,2) by (auto simp: same_identity_def task_run_checks_def bound_in_def)
    show "flat_target runs' row'"
      unfolding flat_target_def
    proof (intro allI impI)
      fix t assume "rr_merged_into row' = Some t"
      then have "rr_merged_into row = Some t" using row(2) by (simp add: same_identity_def)
      with old(3) obtain u where u: "hm_get runs t = Some u" "rr_merged_into u = None"
        unfolding flat_target_def by blast
      then obtain u' where u': "hm_get runs' t = Some u'" using ex' by blast
      with same [OF u(1) u'] u(2) show "\<exists>target. hm_get runs' t = Some target \<and> rr_merged_into target = None"
        by (simp add: same_identity_def)
    qed
  next
    fix i j a' b'
    assume "hm_get runs' i = Some a'" "hm_get runs' j = Some b'" "i \<noteq> j"
    moreover from this obtain a b where "hm_get runs i = Some a" "hm_get runs j = Some b"
        "same_identity a a'" "same_identity b b'" using ex same by blast
    moreover from this have "\<not> row_conflict a b" using ok \<open>i \<noteq> j\<close> by (auto simp: runs_ok_def)
    ultimately show "\<not> row_conflict a' b'" by (simp add: row_conflict_def same_identity_def)
  qed
qed

section \<open>The statements\<close>

lemma schema_okI:
  assumes "schema_ok db"
  shows "runs_ok (set (db_native_sessions db)) (db_task_runs db)" and "topology_ok db"
    and "ordinals_ok (db_display_ordinals db)" and "executions_ok (run_ids db) (db_executions db)"
    and "nodes_ok (run_ids db) (set (db_native_sessions db)) (db_agent_nodes db)"
    and "execution_edges_ok (run_ids db) (db_execution_edges db)"
    and "dependency_edges_ok (run_ids db) (db_dependency_edges db)"
    and "totals_ok (run_ids db) (db_run_rate_totals db)"
    and "publications_ok (run_ids db) (db_publications db)"
    and "drain_runs_ok (drain_ids db) (run_ids db) (db_drain_runs db)" and "drains_ok (db_history_drains db)"
    and "artifacts_ok (drain_ids db) (db_drain_artifacts db)"
    and "images_ok (drain_ids db) (event_ids db) (db_before_images db)"
    and "distinct (map ep_event_id (db_events db))" and "hm_ok (db_event_ledger db)"
    and "distinct (db_native_sessions db)" and "hm_ok (db_herdr_sessions db)"
  using assms by (simp_all add: schema_ok_def)

lemma topology_frame:
  "db_workspaces db' = db_workspaces db \<Longrightarrow> db_tabs db' = db_tabs db \<Longrightarrow> db_panes db' = db_panes db
     \<Longrightarrow> topology_ok db' = topology_ok db"
  by (simp add: topology_ok_def)

lemma insert_native_session_ok:
  assumes "schema_ok db"
  shows "schema_ok (insert_native_session provider sid db)"
  using schema_okI [OF assms] topology_frame [of "insert_native_session provider sid db" db]
  by (auto simp: schema_ok_def insert_native_session_def intro: runs_ok_sessions references_mono(2))

lemma ordinals_ok_put:
  "ordinals_ok ords \<Longrightarrow> hm_get ords k = None \<Longrightarrow> n \<notin> set (hm_values ords) \<Longrightarrow> ordinals_ok (hm_put k n ords)"
proof -
  assume ok: "ordinals_ok ords" and k: "hm_get ords k = None" and n: "n \<notin> set (hm_values ords)"
  have "hm_put k n ords = ords @ [(k, n)]" using k by (induction ords) (auto split: if_splits)
  with ok k n show "ordinals_ok (hm_put k n ords)"
    by (auto simp: ordinals_ok_def map_of_eq_None_iff)
qed

lemma upsert_display_ordinal_ok:
  assumes "upsert_display_ordinal kind i ordinal db = Inr db'" and "schema_ok db"
  shows "schema_ok db'"
proof (cases "hm_get (db_display_ordinals db) (kind, i)")
  case None
  with assms(1) have "db' = db\<lparr>db_display_ordinals := hm_put (kind, i) (ordinal_get ordinal) (db_display_ordinals db)\<rparr>"
    "ordinal_get ordinal \<notin> set (hm_values (db_display_ordinals db))"
    by (auto simp: upsert_display_ordinal_def Let_def split: if_splits)
  with ordinals_ok_put [OF schema_okI(3) [OF assms(2)] None] assms(2) topology_frame [of db' db] show ?thesis
    by (simp add: schema_ok_def)
qed (use assms in \<open>auto simp: upsert_display_ordinal_def Let_def split: if_splits\<close>)

lemma put_keys: "set (hm_keys m) \<subseteq> set (hm_keys (hm_put k v m))"
  by (auto simp: hm_keys_put)

text \<open>The tables that refer to runs stand when the runs grow.\<close>

lemma runs_grown:
  assumes ok: "schema_ok db" and keys: "run_ids db \<subseteq> set (hm_keys runs)"
    and new: "runs_ok (set (db_native_sessions db)) runs"
  shows "schema_ok (db\<lparr>db_task_runs := runs\<rparr>)"
  using schema_okI [OF ok] new topology_frame [of "db\<lparr>db_task_runs := runs\<rparr>" db]
    references_mono(1) [OF schema_okI(4) [OF ok] keys] references_mono(2) [OF schema_okI(5) [OF ok] keys subset_refl]
    references_mono(3) [OF schema_okI(6) [OF ok] keys] references_mono(4) [OF schema_okI(7) [OF ok] keys]
    references_mono(5) [OF schema_okI(8) [OF ok] keys] references_mono(6) [OF schema_okI(9) [OF ok] keys]
    references_mono(7) [OF schema_okI(10) [OF ok] keys subset_refl]
  by (simp add: schema_ok_def)

lemma write_task_run_ok:
  assumes w: "write_task_run i row db = Inr db'" and ok: "schema_ok db"
    and target: "flat_target (db_task_runs db) row"
    and "rr_merged_into row = None \<or> run_row db i = None"
  shows "schema_ok db'"
proof -
  from w have c: "task_run_checks i row" "\<not> list_ex (\<lambda>(j, other). j \<noteq> i \<and> row_conflict row other) (db_task_runs db)"
    "binding_known db row" and db': "db' = db\<lparr>db_task_runs := hm_put i row (db_task_runs db)\<rparr>"
    by (simp_all add: write_Inr(1))
  have "runs_ok (set (db_native_sessions db)) (hm_put i row (db_task_runs db))"
  proof (rule runs_ok_put [OF schema_okI(1) [OF ok] subset_refl c(1) _ _ target])
    show "bound_in (set (db_native_sessions db)) row"
      using c(3) by (auto simp: binding_known_def bound_in_def split: option.splits)
    show "\<forall>j other. (j, other) \<in> set (db_task_runs db) \<longrightarrow> j \<noteq> i \<longrightarrow> \<not> row_conflict row other"
      using c(2) by (auto simp: list_ex_iff)
  qed (use assms(4) in auto)
  then show ?thesis unfolding db' by (rule runs_grown [OF ok put_keys])
qed

lemma update_run_ok:
  assumes ok: "schema_ok db" and "\<And>row. run_row db i = Some row \<Longrightarrow> same_identity row (f row)"
  shows "schema_ok (update_run i f db)"
proof (cases "run_row db i")
  case (Some row)
  have refl: "same_identity other other" if "run_row db j = Some other" for j other
    using schema_okI(1) [OF ok] that by (auto simp: runs_ok_def same_identity_def task_run_checks_def)
  have "runs_ok (set (db_native_sessions db)) (hm_put i (f row) (db_task_runs db))"
    by (rule runs_ok_same [OF schema_okI(1) [OF ok]])
      (use Some assms(2) refl hm_member [OF Some] in \<open>auto simp: update_keys split: if_splits\<close>)
  then show ?thesis using runs_grown [OF ok put_keys] Some by (simp add: update_run_shape)
qed (use ok in \<open>simp add: update_run_shape\<close>)

lemma write_tab_ok: "write_tab i tab db = Inr db' \<Longrightarrow> schema_ok db \<Longrightarrow> schema_ok db'"
  by (auto simp: write_Inr schema_ok_def topology_ok_def hm_keys_put dest!: hm_put_member)

lemma write_pane_ok: "write_pane i pane db = Inr db' \<Longrightarrow> schema_ok db \<Longrightarrow> schema_ok db'"
proof -
  assume w: "write_pane i pane db = Inr db'" and ok: "schema_ok db"
  from w have c: "pnr_workspace_id pane \<in> set (db_workspaces db)" "pnr_tab_id pane \<in> set (hm_keys (db_tabs db))"
    and db': "db' = db\<lparr>db_panes := hm_put i pane (db_panes db)\<rparr>"
    by (simp_all add: write_Inr map_of_eq_None_iff)
  from ok have "topology_ok db" by (simp add: schema_ok_def)
  with c have "topology_ok db'" unfolding db' topology_ok_def by (auto dest!: hm_put_member intro: rev_image_eqI)
  with ok show ?thesis unfolding db' schema_ok_def by simp
qed

lemma write_execution_ok:
  assumes "write_execution i row db = Inr db'" and ok: "schema_ok db"
  shows "schema_ok db'"
  using assms topology_frame [of db' db] rows_put(1) [OF schema_okI(4) [OF ok]]
  by (simp add: write_Inr(4) schema_ok_def run_exists_iff)

lemma write_agent_node_ok:
  assumes "write_agent_node i row db = Inr db'" and ok: "schema_ok db"
  shows "schema_ok db'"
proof -
  have "\<forall>sid. anr_native_session_id row = Some sid \<longrightarrow> (anr_provider row, sid) \<in> set (db_native_sessions db)"
    using assms(1) by (auto simp: write_agent_node_def split: if_splits)
  with rows_put(2) [OF schema_okI(5) [OF ok], of row i] write_agent_node_shape [OF assms(1)] ok
    topology_frame [of db' db] show ?thesis
    by (simp add: schema_ok_def run_exists_iff)
qed

lemma write_rate_totals_ok:
  assumes "write_rate_totals i tokens working db = Inr db'" and ok: "schema_ok db"
  shows "schema_ok db'"
  using assms topology_frame [of db' db] rows_put(3) [OF schema_okI(8) [OF ok], of i tokens working]
  by (simp add: write_Inr(5) schema_ok_def run_exists_iff)

lemma insert_drain_run_ok:
  assumes "insert_drain_run d i db = Inr db'" and ok: "schema_ok db"
  shows "schema_ok db'"
proof -
  have "drain_runs_ok (drain_ids db) (run_ids db) (hs_insert (d, i) (db_drain_runs db))"
    using schema_okI(10) [OF ok] assms(1)
    by (auto simp: drain_runs_ok_def write_Inr(6) run_exists_iff map_of_eq_None_iff)
  with assms topology_frame [of db' db] show ?thesis
    by (simp add: write_Inr(6) schema_ok_def)
qed

lemma insert_execution_edge_ok:
  assumes "insert_execution_edge_row p c t db = Inr db'" and ok: "schema_ok db"
  shows "schema_ok db'"
proof -
  have "execution_edges_ok (run_ids db) (db_execution_edges db @ [((p, c), t)])"
    using schema_okI(6) [OF ok] assms(1)
    by (auto simp: execution_edges_ok_def write_Inr(7) run_exists_iff list_ex_iff)
  with assms topology_frame [of db' db] show ?thesis
    by (simp add: write_Inr(7) schema_ok_def)
qed

lemma insert_dependency_edge_ok:
  assumes "insert_dependency_edge_row p c t db = Inr db'" and ok: "schema_ok db"
  shows "schema_ok db'"
proof -
  have "dependency_edges_ok (run_ids db) (db_dependency_edges db @ [((p, c), t)])"
    using schema_okI(7) [OF ok] assms(1)
    by (auto simp: dependency_edges_ok_def write_Inr(8) run_exists_iff map_of_eq_None_iff)
  with assms topology_frame [of db' db] show ?thesis
    by (simp add: write_Inr(8) schema_ok_def)
qed

lemma insert_before_image_ok:
  assumes w: "insert_before_image d e owner db = Inr db'" and ok: "schema_ok db"
  shows "schema_ok db'"
proof (cases "db' = db")
  case False
  with w have "db' = db\<lparr>db_before_images := hm_put (d, e) owner (db_before_images db)\<rparr>"
    and "d \<in> drain_ids db" "e \<in> event_ids db"
    by (auto simp: insert_before_image_def map_of_eq_None_iff split: if_splits)
  with rows_put(4) [OF schema_okI(13) [OF ok]] ok topology_frame [of db' db] show ?thesis
    by (simp add: schema_ok_def)
qed (use ok in simp)

lemma insert_event_ok:
  assumes "insert_event e db = Inr db'" and ok: "schema_ok db"
  shows "schema_ok db'"
  using assms topology_frame [of db' db] references_mono(9) [OF schema_okI(13) [OF ok] subset_refl, of "event_ids db'"]
  by (auto simp: write_Inr(9) schema_ok_def)

end
