(* ===== verification/Retention_Laws.thy ===== *)
theory Retention_Laws
  imports Store_Laws
begin

text \<open>
  What the retention pass removes. The recursive queries compute least fixed points (\<open>grow\<close>); on a
  database whose aliases point at canonical runs (\<open>aliases_flat\<close>) the pass removes a run exactly
  when its canonical run has expired, has no active dependant and is not held by an open drain.
\<close>

section \<open>Flat aliases\<close>

text \<open>Every alias points at a canonical run: no chains, no dangling targets.\<close>

definition aliases_flat :: "database \<Rightarrow> bool" where
  "aliases_flat db \<longleftrightarrow> hm_ok (db_task_runs db)
     \<and> (\<forall>i t. merged_target db i = Some t \<longrightarrow> run_exists db t \<and> merged_target db t = None)"

definition canonical_root :: "database \<Rightarrow> string \<Rightarrow> string" where
  "canonical_root db i = (case merged_target db i of None \<Rightarrow> i | Some t \<Rightarrow> t)"

text \<open>A root is held when an open drain claims it or one of its aliases.\<close>

definition held_by_drain :: "database \<Rightarrow> string \<Rightarrow> bool" where
  "held_by_drain db root \<longleftrightarrow>
     (\<exists>i. canonical_root db i = root \<and> blocked_by_drain db i)"

definition depended_on :: "database \<Rightarrow> string \<Rightarrow> bool" where
  "depended_on db i \<longleftrightarrow>
     (\<exists>c created. ((i, c), created) \<in> set (db_execution_edges db) \<and> active_run db c)
     \<or> (\<exists>d created. ((i, d), created) \<in> set (db_dependency_edges db) \<and> active_run db d)"

definition removable :: "database \<Rightarrow> i64 \<Rightarrow> string \<Rightarrow> bool" where
  "removable db run_cutoff root \<longleftrightarrow>
     opt_is_some_and (\<lambda>row. sql_less (run_end_ms row) run_cutoff) (run_row db root)
     \<and> \<not> depended_on db root \<and> \<not> held_by_drain db root"

lemma merged_target_iff: "merged_target db i = Some t \<longleftrightarrow>
    (\<exists>row. run_row db i = Some row \<and> rr_merged_into row = Some t)"
  by (cases "run_row db i") (auto simp: merged_target_def)

lemma flat_root: "aliases_flat db \<Longrightarrow> merged_target db (canonical_root db i) = None"
  by (auto simp: canonical_root_def aliases_flat_def split: option.splits)

lemma drain_seeds: "set (map snd (filter (\<lambda>(drain, _). drain_open db drain) (db_drain_runs db)))
    = {i. blocked_by_drain db i}"
  by (force simp: blocked_by_drain_def list_ex_iff image_iff)

lemma protected_iff:
  assumes "aliases_flat db" and "merged_target db i = None" and "run_exists db i"
  shows "i \<in> set (protected_runs db) \<longleftrightarrow> held_by_drain db i"
proof
  assume "i \<in> set (protected_runs db)"
  then have "blocked_by_drain db i \<or> (\<exists>j. merged_target db j = Some i \<and> blocked_by_drain db j)"
    unfolding protected_runs_def
  proof (rule grow_least [rotated 2], goal_cases)
    case (1 x)
    then show ?case using drain_seeds [of db] by auto
  next
    case (2 ys x)
    then obtain j where j: "j \<in> set ys" "merged_target db j = Some x" by (auto simp: list_ex_iff)
    then have "\<not> (\<exists>k. merged_target db k = Some j)"
      using assms(1) by (auto simp: aliases_flat_def)
    with 2(1) [OF j(1)] j(2) show ?case by auto
  qed
  then show "held_by_drain db i"
    unfolding held_by_drain_def canonical_root_def
    using assms(2) by (metis option.simps(4,5))
next
  assume "held_by_drain db i"
  then obtain j where j: "canonical_root db j = i" "blocked_by_drain db j"
    by (auto simp: held_by_drain_def)
  have jp: "j \<in> set (protected_runs db)"
    unfolding protected_runs_def using grow_start j(2) drain_seeds [of db] by fastforce
  show "i \<in> set (protected_runs db)"
  proof (cases "merged_target db j")
    case None
    with j(1) jp show ?thesis by (simp add: canonical_root_def)
  next
    case (Some t)
    then have t: "t = i" using j(1) by (simp add: canonical_root_def)
    have "i \<in> set (hm_keys (db_task_runs db))"
      using assms(3) by (auto simp: run_exists_def map_of_eq_None_iff)
    then show ?thesis
      unfolding protected_runs_def
      by (rule grow_closed) (use jp Some t in \<open>auto simp: list_ex_iff protected_runs_def\<close>)
  qed
qed

section \<open>Exactly the removable families go\<close>

lemma doomed_iff:
  assumes flat: "aliases_flat db" and "run_exists db i"
  shows "i \<in> set (doomed_runs db run_cutoff) \<longleftrightarrow> removable db run_cutoff (canonical_root db i)"
proof -
  let ?p = "protected_runs db"
  let ?cand = "map fst (filter (removal_candidate db run_cutoff ?p) (db_task_runs db))"
  have ok: "hm_ok (db_task_runs db)" using flat by (simp add: aliases_flat_def)
  have cand: "j \<in> set ?cand \<longleftrightarrow> merged_target db j = None \<and> removable db run_cutoff j" for j
  proof -
    have "j \<in> set ?cand \<longleftrightarrow> (\<exists>row. run_row db j = Some row \<and> removal_candidate db run_cutoff ?p (j, row))"
      using ok by force
    moreover have "removal_candidate db run_cutoff ?p (j, row) \<longleftrightarrow>
        merged_target db j = None \<and> removable db run_cutoff j" if "run_row db j = Some row" for row
      using that protected_iff [OF flat, of j]
      by (auto simp: removal_candidate_def removable_def merged_target_def depended_on_def list_ex_iff
          run_exists_def split: prod.splits)
    ultimately show ?thesis by (auto simp: removable_def opt_is_some_and_iff)
  qed
  have held: "t \<in> set ?p" if "merged_target db j = Some t" "j \<in> set ?p" for j t
  proof -
    have t: "merged_target db t = None" "run_exists db t"
      using flat that(1) by (auto simp: aliases_flat_def)
    then have "t \<in> set (hm_keys (db_task_runs db))"
      by (auto simp: run_exists_def map_of_eq_None_iff)
    then show ?thesis
      unfolding protected_runs_def
      by (rule grow_closed) (use that in \<open>auto simp: list_ex_iff protected_runs_def\<close>)
  qed
  show ?thesis
  proof
    assume "i \<in> set (doomed_runs db run_cutoff)"
    then show "removable db run_cutoff (canonical_root db i)"
      unfolding doomed_runs_def Let_def
    proof (rule grow_least [rotated 2], goal_cases)
      case (1 x)
      then show ?case using cand by (simp add: canonical_root_def)
    next
      case (2 ys x)
      then obtain t where t: "merged_target db x = Some t" "t \<in> set ys" by (auto split: option.splits)
      then have "merged_target db t = None" using flat by (auto simp: aliases_flat_def)
      with 2(1) [OF t(2)] t(1) show ?case by (simp add: canonical_root_def)
    qed
  next
    assume r: "removable db run_cutoff (canonical_root db i)"
    have root: "canonical_root db i \<in> set (doomed_runs db run_cutoff)"
      unfolding doomed_runs_def Let_def
      by (rule subsetD [OF grow_start]) (use cand [of "canonical_root db i"] r flat_root [OF flat] in blast)
    show "i \<in> set (doomed_runs db run_cutoff)"
    proof (cases "merged_target db i")
      case None
      with root show ?thesis by (simp add: canonical_root_def)
    next
      case (Some t)
      then have t: "canonical_root db i = t" by (simp add: canonical_root_def)
      have "i \<notin> set ?p"
      proof
        assume "i \<in> set ?p"
        then have "t \<in> set ?p" by (rule held [OF Some])
        then have "held_by_drain db t"
          using protected_iff [OF flat, of t] flat Some by (auto simp: aliases_flat_def)
        with r t show False by (simp add: removable_def)
      qed
      moreover have "i \<in> set (hm_keys (db_task_runs db))"
        using assms(2) by (auto simp: run_exists_def map_of_eq_None_iff)
      ultimately show ?thesis
        unfolding doomed_runs_def Let_def
        by (intro grow_closed) (use root Some t in \<open>auto simp: doomed_runs_def Let_def\<close>)
    qed
  qed
qed

lemma doomed_closed:
  assumes "aliases_flat db" and "merged_target db i = Some t" and "t \<in> set (doomed_runs db cutoff)"
  shows "i \<in> set (doomed_runs db cutoff)"
proof -
  have "merged_target db t = None" "run_exists db t" using assms(1,2) unfolding aliases_flat_def by blast+
  moreover have "run_exists db i" using assms(2) by (auto simp only: merged_target_iff run_exists_def)
  ultimately have "merged_target db t = None" "run_exists db t" "run_exists db i" by blast+
  with assms doomed_iff [OF assms(1)] show ?thesis by (simp add: canonical_root_def)
qed

text \<open>The cascade of the last deletion finds nothing more.\<close>

lemma delete_closed_runs:
  assumes "\<And>i t. merged_target db i = Some t \<Longrightarrow> t \<in> set doomed \<Longrightarrow> i \<in> set doomed"
  shows "db_task_runs (delete_task_runs doomed db)
    = filter (\<lambda>(i, _). i \<notin> set doomed) (db_task_runs db)"
proof -
  let ?g = "grow (\<lambda>reached i. case run_row db i of None \<Rightarrow> False
      | Some row \<Rightarrow> (case rr_merged_into row of None \<Rightarrow> False | Some t \<Rightarrow> t \<in> set reached))
      (hm_keys (db_task_runs db)) doomed"
  have "set ?g \<subseteq> set doomed"
  proof
    fix x assume "x \<in> set ?g"
    then show "x \<in> set doomed"
    proof (rule grow_least [rotated 2])
      fix ys y
      assume ys: "\<And>z. z \<in> set ys \<Longrightarrow> z \<in> set doomed"
        and "case run_row db y of None \<Rightarrow> False
          | Some row \<Rightarrow> (case rr_merged_into row of None \<Rightarrow> False | Some t \<Rightarrow> t \<in> set ys)"
      then obtain t where "merged_target db y = Some t" "t \<in> set ys"
        by (auto simp: merged_target_def split: option.splits)
      with ys assms show "y \<in> set doomed" by blast
    qed
  qed
  moreover have "set doomed \<subseteq> set ?g" by (rule grow_start)
  ultimately have "set ?g = set doomed" by (rule equalityI)
  then show ?thesis by (simp add: delete_task_runs_def Let_def del: set_map)
qed

lemma active_run_frame: "db_task_runs db' = db_task_runs db \<Longrightarrow> active_run db' = active_run db"
  by (intro ext) (simp add: active_run_def)

lemma prune_doomed_runs:
  assumes "aliases_flat db"
  shows "db_task_runs (prune_doomed (doomed_runs db cutoff) db)
    = filter (\<lambda>(i, _). i \<notin> set (doomed_runs db cutoff)) (db_task_runs db)"
  unfolding prune_doomed_def Let_def
  by (subst delete_closed_runs)
    (use doomed_closed [OF assms] in \<open>auto simp: merged_target_def\<close>)

lemma removable_frame:
  assumes "db_task_runs db' = db_task_runs db" and "db_execution_edges db' = db_execution_edges db"
    and "db_dependency_edges db' = db_dependency_edges db" and "db_drain_runs db' = db_drain_runs db"
    and "db_history_drains db' = db_history_drains db"
  shows "removable db' cutoff i = removable db cutoff i"
    and "canonical_root db' j = canonical_root db j" and "aliases_flat db' = aliases_flat db"
  using assms
  by (simp_all add: removable_def depended_on_def active_run_def held_by_drain_def blocked_by_drain_def
      drain_open_def canonical_root_def merged_target_def aliases_flat_def run_exists_def)

lemma cleanup_runs:
  assumes flat: "aliases_flat db" and clean: "cleanup_retention now_ms db = (db', stats)"
  shows "run_row db' i =
    (if removable db (i64_saturating_sub now_ms run_retention_ms) (canonical_root db i) then None
     else run_row db i)"
proof -
  let ?cut = "i64_saturating_sub now_ms run_retention_ms"
  define db1 where "db1 = (let ec = i64_saturating_sub now_ms event_retention_ms;
      d = delete_events (\<lambda>e. ep_seen_at_ms e < ec) db; kept = ring_survivors (db_events d);
      d = delete_events (\<lambda>e. e \<notin> set kept) d
    in d\<lparr>db_event_ledger := filter (\<lambda>(_, seen_at_ms). ec \<le> seen_at_ms) (db_event_ledger d)\<rparr>)"
  have frame: "db_task_runs db1 = db_task_runs db" "db_execution_edges db1 = db_execution_edges db"
    "db_dependency_edges db1 = db_dependency_edges db" "db_drain_runs db1 = db_drain_runs db"
    "db_history_drains db1 = db_history_drains db"
    by (simp_all add: db1_def Let_def delete_events_def)
  note same = removable_frame [OF frame]
  have runs: "db_task_runs db' = filter (\<lambda>(i, _). i \<notin> set (doomed_runs db1 ?cut)) (db_task_runs db)"
  proof -
    have "db_task_runs db' = db_task_runs (prune_doomed (doomed_runs db1 ?cut) db1)"
      using clean unfolding cleanup_retention_def Let_def db1_def by (simp only: prod.inject) (elim conjE, hypsubst, simp)
    then show ?thesis using prune_doomed_runs [of db1 ?cut] flat same(3) frame(1) by simp
  qed
  show ?thesis
  proof (cases "run_exists db i")
    case True
    then have "i \<in> set (doomed_runs db1 ?cut) \<longleftrightarrow> removable db ?cut (canonical_root db i)"
      using doomed_iff [of db1 i ?cut] flat same frame(1) by (simp add: run_exists_def)
    then have "i \<in> set (doomed_runs db1 ?cut) \<longleftrightarrow> removable db ?cut (canonical_root db i)" .
    moreover have "run_row db' i = (if i \<in> set (doomed_runs db1 ?cut) then None else run_row db i)"
      unfolding runs by simp
    ultimately show ?thesis by simp
  next
    case False
    then have "run_row db i = None" by (simp add: run_exists_def)
    moreover have "run_row db' i = None"
      unfolding runs using False by (auto simp: run_exists_def map_of_eq_None_iff)
    ultimately show ?thesis by simp
  qed
qed

end
