(* ===== verification/Schema_Steps.thy ===== *)
theory Schema_Steps
  imports Schema_Laws Retention_Laws
begin

text \<open>
  Every operation of the store keeps the constraints of the schema: the persistence operations, the
  merge of two runs, the versioned batch, the finalization of a drain and the retention pass.
\<close>

section \<open>Upserts\<close>

lemma flat_target_None [simp]: "rr_merged_into row = None \<Longrightarrow> flat_target runs row"
  by (simp add: flat_target_def)

lemma encoded_lifecycle_checks [simp]: "lifecycle_checks (encode_lifecycle state)"
proof -
  have "native_session_end_status_text e \<in> {''done'', ''error'', ''cancelled'', ''unknown''}" for e
    by (cases e) auto
  then show ?thesis
    by (auto simp: lifecycle_checks_def encode_lifecycle_def i64_from_bool_def split: option.splits)
qed

lemma upsert_task_run_ok:
  assumes up: "upsert_task_run env p db = Inr db'" and ok: "schema_ok db"
  shows "schema_ok db'"
proof -
  let ?i = "se_run_text env (tr_run_id (pt_task_run p))"
  let ?db = "case pt_native_session p of None \<Rightarrow> db
      | Some b \<Rightarrow> insert_native_session (provider_text (nb_provider b)) (nb_native_session_id b) db"
  have canonical: "rr_merged_into row = None" if "run_row db ?i = Some row" for row
    using up that by (auto simp: upsert_task_run_def Let_def split: if_splits)
  have "try_then (upsert_display_ordinal ''task_run'' ?i (tr_display_ordinal (pt_task_run p)) ?db)
      (\<lambda>db. write_task_run ?i (upserted_task_run_row p (run_row db ?i)) db) = Inr db'"
    using up by (simp add: upsert_task_run_def Let_def split: if_splits)
  then obtain db1 where ord: "upsert_display_ordinal ''task_run'' ?i (tr_display_ordinal (pt_task_run p)) ?db = Inr db1"
    and w: "write_task_run ?i (upserted_task_run_row p (run_row db1 ?i)) db1 = Inr db'"
    by (auto simp only: try_then_Inr)
  have ok0: "schema_ok ?db" using insert_native_session_ok [OF ok] ok by (simp split: option.split)
  have rows: "run_row ?db = run_row db" by (simp add: insert_native_session_def split: option.split)
  have rows1: "run_row db1 = run_row db"
    by (rule ordinal_shape [OF ord]) (simp add: rows)
  have "rr_merged_into (upserted_task_run_row p (run_row db1 ?i)) = None"
    using canonical by (simp add: rows1 upserted_task_run_row_def Let_def split: option.split)
  then show ?thesis by (intro write_task_run_ok [OF w upsert_display_ordinal_ok [OF ord ok0]]) simp_all
qed

lemma row_checks: "schema_ok db \<Longrightarrow> run_row db i = Some row \<Longrightarrow> task_run_checks i row"
  using schema_okI(1) [of db] by (auto simp: runs_ok_def)

lemma upsert_task_run_v6_ok:
  assumes "upsert_task_run_v6 env p db = Inr db'" and ok: "schema_ok db"
  shows "schema_ok db'"
proof -
  let ?i = "se_run_text env (tr_run_id (pt_task_run (p6_task_run p)))"
  let ?kept = "\<lambda>db1. case run_row db ?i of None \<Rightarrow> db1
      | Some old \<Rightarrow> if opt_is_some_and (\<lambda>row. lf_history_ready (rr_lifecycle row) \<noteq> 0 \<and> \<not> v6_history_ready (p6_state p))
            (run_row db ?i) then update_run ?i (keep_semantics old) db1 else db1"
  obtain db1 state where up: "upsert_task_run env (p6_task_run p) db = Inr db1"
    and db': "db' = update_run ?i (\<lambda>row. row\<lparr>rr_lifecycle := encode_lifecycle state\<rparr>) (?kept db1)"
    using assms(1) unfolding upsert_task_run_v6_def Let_def
    by (simp only: try_then_Inr sum.inject sum.distinct split: if_split_asm) blast
  have ok1: "schema_ok db1" by (rule upsert_task_run_ok [OF up ok])
  have ok2: "schema_ok (?kept db1)"
    using ok1 row_checks [OF ok] row_checks [OF ok1]
    by (auto split: option.split intro!: update_run_ok
        simp: same_identity_def keep_semantics_def task_run_checks_def)
  show ?thesis
    unfolding db' by (rule update_run_ok [OF ok2])
      (use row_checks [OF ok2] in \<open>auto simp: same_identity_def task_run_checks_def\<close>)
qed

lemma promote_task_run_key_ok:
  assumes "promote_task_run_key env p old_key alias_id db = Inr db'" and ok: "schema_ok db"
  shows "schema_ok db'"
proof -
  let ?i = "se_run_text env (tr_run_id (pt_task_run p))" and ?a = "se_run_text env alias_id"
  obtain db1 where up: "upsert_task_run env p db = Inr db1" and new: "\<not> run_exists db1 ?a"
    and w: "write_task_run ?a (alias_row old_key p ?i (alias_ordinal db1)) db1 = Inr db'"
    using assms(1) by (auto simp: promote_task_run_key_def Let_def results)
  have "\<exists>row. run_row db1 ?i = Some row \<and> rr_merged_into row = None"
    by (rule task_run_shape [OF up]) (simp add: upserted_row_def)
  then have "flat_target (db_task_runs db1) (alias_row old_key p ?i (alias_ordinal db1))"
    by (simp add: flat_target_def alias_row_def)
  then show ?thesis
    by (rule write_task_run_ok [OF w upsert_task_run_ok [OF up ok]]) (use new in \<open>simp add: run_exists_def\<close>)
qed

lemma upsert_agent_node_ok:
  assumes "upsert_agent_node env node db = Inr db'" and ok: "schema_ok db"
  shows "schema_ok db'"
proof -
  let ?db = "case an_native_session_id node of None \<Rightarrow> db
      | Some sid \<Rightarrow> insert_native_session (provider_text (an_provider node)) sid db"
  obtain db1 row where ord: "upsert_display_ordinal ''agent_node'' (an_agent_node_id node) (an_display_ordinal node) ?db = Inr db1"
    and w: "write_agent_node (an_agent_node_id node) row db1 = Inr db'"
    using assms(1) unfolding upsert_agent_node_def Let_def by (auto simp only: try_then_Inr)
  have "schema_ok ?db" using insert_native_session_ok [OF ok] ok by (simp split: option.split)
  then show ?thesis by (rule write_agent_node_ok [OF w upsert_display_ordinal_ok [OF ord]])
qed

lemma upsert_execution_ok: "upsert_execution env e db = Inr db' \<Longrightarrow> schema_ok db \<Longrightarrow> schema_ok db'"
  by (auto simp: upsert_execution_def Let_def split: prod.splits dest: write_execution_ok)

lemma upsert_run_rate_totals_ok:
  "upsert_run_rate_totals env r totals db = Inr db' \<Longrightarrow> schema_ok db \<Longrightarrow> schema_ok db'"
  by (auto simp: upsert_run_rate_totals_def Let_def split: prod.splits dest: write_rate_totals_ok)

section \<open>Events\<close>

text \<open>Tables that no constraint of the invariant mentions.\<close>

lemma schema_ok_frame [simp]:
  "schema_ok (db\<lparr>db_owner := own\<rparr>) = schema_ok db"
  "schema_ok (db\<lparr>db_ingest_high_water := q\<rparr>) = schema_ok db"
  by (simp_all add: schema_ok_def topology_ok_def)

lemma touch_session_ok: "schema_ok db \<Longrightarrow> schema_ok (touch_herdr_session name seen db)"
  by (simp add: schema_ok_def topology_ok_def touch_herdr_session_def)

lemma ledger_put_ok: "schema_ok db \<Longrightarrow> schema_ok (db\<lparr>db_event_ledger := hm_put i t (db_event_ledger db)\<rparr>)"
  by (simp add: schema_ok_def topology_ok_def)

lemma record_event_ok:
  assumes "record_event env event seen drain db = Inr db'" and ok: "schema_ok db"
  shows "schema_ok db'"
  using assms ledger_put_ok [OF ok]
  by (auto simp: record_event_def insert_ledger_def Let_def results
      split: if_splits intro: insert_event_ok [OF _ touch_session_ok])

lemma record_gap_ok:
  assumes "record_gap gap db = Inr db'" and ok: "schema_ok db"
  shows "schema_ok db'"
  using assms ledger_put_ok [OF ok]
  by (auto simp: record_gap_def insert_ledger_def Let_def results
      split: if_splits intro: insert_event_ok [OF _ touch_session_ok])

section \<open>Topology\<close>

lemma delete_display_ordinal_ok:
  assumes ok: "schema_ok db"
  shows "schema_ok (delete_display_ordinal kind i db)"
  using ok rows_dropped(9) [OF schema_okI(3) [OF ok]] topology_frame [of "delete_display_ordinal kind i db" db]
  by (simp add: schema_ok_def delete_display_ordinal_def AList.delete_eq)

lemma topology_change:
  assumes "schema_ok db" and "topology_ok (db\<lparr>db_workspaces := ws, db_tabs := tabs, db_panes := panes\<rparr>)"
  shows "schema_ok (db\<lparr>db_workspaces := ws, db_tabs := tabs, db_panes := panes\<rparr>)"
  using assms by (simp add: schema_ok_def)

lemma delete_tab_ok:
  assumes ok: "schema_ok db"
  shows "schema_ok (delete_tab i db)"
proof -
  have "topology_ok (delete_tab i db)"
    using schema_okI(2) [OF ok] unfolding delete_tab_def topology_ok_def
    by (auto simp: AList.delete_eq distinct_map_filter) force
  with ok show ?thesis by (simp add: schema_ok_def) (simp add: delete_tab_def)
qed

lemma delete_workspace_ok: "schema_ok db \<Longrightarrow> schema_ok (delete_workspace i db)"
  unfolding delete_workspace_def Let_def
  by (rule topology_change) (use schema_okI(2) [of db] in \<open>auto simp: topology_ok_def distinct_map_filter\<close>)

lemma relabel_ok:
  "schema_ok db \<Longrightarrow> hm_get (db_tabs db) i = Some row \<Longrightarrow>
     schema_ok (db\<lparr>db_tabs := hm_put i (row\<lparr>tbr_label := l\<rparr>) (db_tabs db)\<rparr>)"
  "schema_ok db \<Longrightarrow> hm_get (db_panes db) i = Some pane \<Longrightarrow>
     schema_ok (db\<lparr>db_panes := hm_put i (pane\<lparr>pnr_display_name := l\<rparr>) (db_panes db)\<rparr>)"
  by (force simp: schema_ok_def topology_ok_def hm_keys_put dest!: hm_put_member map_of_SomeD)+

lemma workspace_ok:
  "schema_ok db \<Longrightarrow> schema_ok (db\<lparr>db_workspaces := hs_insert i (db_workspaces db)\<rparr>)"
  by (auto simp: schema_ok_def topology_ok_def)

lemma delete_pane_ok: "schema_ok db \<Longrightarrow> schema_ok (db\<lparr>db_panes := hm_del i (db_panes db)\<rparr>)"
  by (auto simp: schema_ok_def topology_ok_def AList.delete_eq distinct_map_filter)

section \<open>The merge\<close>

lemma keep_event_images_ok:
  assumes "keep_event_images s a drain db = Inr db'" and ok: "schema_ok db"
  shows "schema_ok db'"
proof -
  define moved where "moved = filter (\<lambda>e. ep_task_run_id e = Some a) (db_events db)"
  obtain db1 drains where 1: "(case drain of None \<Rightarrow> Inr db
      | Some d \<Rightarrow> try_fold (\<lambda>e. insert_before_image (drain_text d) (ep_event_id e) (ep_task_run_id e)) moved db) = Inr db1"
    and 2: "try_fold (\<lambda>e. try_fold (\<lambda>d. insert_before_image d (ep_event_id e) (ep_task_run_id e)) drains) moved db1 = Inr db'"
    using assms(1) unfolding keep_event_images_def Let_def moved_def [symmetric]
    by (simp only: try_then_Inr) (elim exE conjE, rule that; assumption)
  have "schema_ok db1"
    using 1 ok by (auto split: option.splits elim: try_fold_invariant intro: insert_before_image_ok)
  then show ?thesis
    by (rule try_fold_invariant [OF 2])
      (rule try_fold_invariant [where P = schema_ok], assumption, assumption, erule (1) insert_before_image_ok)
qed

lemma event_ids_repoint: "map ep_event_id (db_events (repoint_rows s a db)) = map ep_event_id (db_events db)"
  by (simp add: repoint_rows_def)

lemma hm_values_map_values: "hm_values (hm_map_values f m) = map f (hm_values m)"
  by (induction m) (auto simp: hm_map_values_def)

text \<open>Rows that move from one run to another.\<close>

lemma rows_moved:
  "executions_ok R m \<Longrightarrow> s \<in> R \<Longrightarrow> executions_ok R (hm_map_values (\<lambda>e. if exr_task_run_id e = a
     then e\<lparr>exr_task_run_id := s\<rparr> else e) m)"
  "nodes_ok R S n \<Longrightarrow> s \<in> R \<Longrightarrow> nodes_ok R S (hm_map_values (\<lambda>n. if anr_task_run_id n = a
     then n\<lparr>anr_task_run_id := s\<rparr> else n) n)"
  "publications_ok R p \<Longrightarrow> s \<in> R \<Longrightarrow> publications_ok R (hm_map_values (\<lambda>(canonical, payload).
     (if canonical = a then s else canonical, payload)) p)"
  subgoal by (auto simp: executions_ok_def hm_values_map_values)
  subgoal unfolding nodes_ok_def hm_values_map_values by (intro conjI) (auto split: if_splits)
  subgoal by (auto simp: publications_ok_def) (auto simp: hm_map_values_def)
  done

lemma repoint_rows_ok:
  assumes ok: "schema_ok db" and s: "s \<in> run_ids db"
  shows "schema_ok (repoint_rows s a db)"
proof -
  let ?db = "repoint_rows s a db"
  have events: "map ep_event_id (db_events ?db) = map ep_event_id (db_events db)" by (rule event_ids_repoint)
  then have "event_ids ?db = event_ids db" by (metis list.set_map)
  moreover have "executions_ok (run_ids db) (db_executions ?db)"
      "nodes_ok (run_ids db) (set (db_native_sessions db)) (db_agent_nodes ?db)"
      "publications_ok (run_ids db) (db_publications ?db)"
    using rows_moved(1) [OF schema_okI(4) [OF ok] s] rows_moved(2) [OF schema_okI(5) [OF ok] s]
      rows_moved(3) [OF schema_okI(9) [OF ok] s] by (simp_all add: repoint_rows_def)
  moreover have "db_task_runs ?db = db_task_runs db" "db_native_sessions ?db = db_native_sessions db"
      "db_workspaces ?db = db_workspaces db" "db_tabs ?db = db_tabs db" "db_panes ?db = db_panes db"
      "db_display_ordinals ?db = db_display_ordinals db" "db_execution_edges ?db = db_execution_edges db"
      "db_dependency_edges ?db = db_dependency_edges db" "db_run_rate_totals ?db = db_run_rate_totals db"
      "db_drain_runs ?db = db_drain_runs db" "db_history_drains ?db = db_history_drains db"
      "db_drain_artifacts ?db = db_drain_artifacts db" "db_before_images ?db = db_before_images db"
      "db_event_ledger ?db = db_event_ledger db" "db_herdr_sessions ?db = db_herdr_sessions db"
    by (simp_all add: repoint_rows_def)
  ultimately show ?thesis
    using ok events topology_frame [of ?db db] unfolding schema_ok_def by simp
qed

lemma edges_cleared:
  assumes "schema_ok db"
  shows "schema_ok (db\<lparr>db_execution_edges := []\<rparr>)" and "schema_ok (db\<lparr>db_dependency_edges := []\<rparr>)"
  using assms topology_frame [of "db\<lparr>db_execution_edges := []\<rparr>" db] topology_frame [of "db\<lparr>db_dependency_edges := []\<rparr>" db]
  by (simp_all add: schema_ok_def execution_edges_ok_def dependency_edges_ok_def)

lemma replace_edges_ok:
  "replace_execution_edges edges db = Inr db' \<Longrightarrow> schema_ok db \<Longrightarrow> schema_ok db'"
  "replace_dependency_edges edges db = Inr db' \<Longrightarrow> schema_ok db \<Longrightarrow> schema_ok db'"
  unfolding replace_execution_edges_def replace_dependency_edges_def
  by (erule try_fold_invariant [where P = schema_ok], erule edges_cleared,
      auto intro: insert_execution_edge_ok insert_dependency_edge_ok)+

lemma merge_rate_totals_ok:
  assumes "merge_rate_totals s a db = Inr db'" and ok: "schema_ok db"
  shows "schema_ok db'"
proof -
  obtain db1 where 1: "db1 = db \<or> (\<exists>i tokens working. write_rate_totals i tokens working db = Inr db1)"
    and db': "db' = db1\<lparr>db_run_rate_totals := hm_del a (db_run_rate_totals db1)\<rparr>"
    using assms(1) by (auto simp: merge_rate_totals_def results Let_def split: if_splits)
  have "schema_ok db1" using 1 ok write_rate_totals_ok by blast
  then show ?thesis
    using rows_dropped(5) [OF schema_okI(8)] topology_frame [of db' db1]
    by (simp add: db' schema_ok_def AList.delete_eq)
qed

lemma transfer_associations_ok:
  assumes ok: "schema_ok db" and s: "s \<in> run_ids db"
  shows "schema_ok (transfer_associations s a db)"
proof -
  have "drain_runs_ok (drain_ids db) (run_ids db) (db_drain_runs (transfer_associations s a db))"
    using schema_okI(10) [OF ok] s unfolding drain_runs_ok_def transfer_associations_def Let_def
    by (auto simp: filter_map_set simp del: set_map split: if_splits)
  with ok topology_frame [of "transfer_associations s a db" db] show ?thesis
    by (simp add: schema_ok_def) (simp add: transfer_associations_def Let_def)
qed

text \<open>The two updates of the merge that no statement checks: the binding that moves to the survivor,
  and the aliases that follow the absorbed run.\<close>

lemma conflict_parts:
  "row_conflict a b \<longleftrightarrow> rr_display_ordinal a = rr_display_ordinal b \<or> same_key (rr_key a) (rr_key b)
     \<or> sql_same (rr_native_provider a) (rr_native_provider b)
         \<and> sql_same (rr_native_session_id a) (rr_native_session_id b)"
  by (simp add: row_conflict_def)

lemma transfer_binding_ok:
  assumes t: "transfer_binding s a (mg_binding sp) (mg_binding ap) db = Inr db'" and ok: "schema_ok db"
    and s: "run_row db s = Some srow" and a: "run_row db a = Some arow" and ne: "s \<noteq> a"
    and ab: "mg_binding ap = (case (rr_native_provider arow, rr_native_session_id arow) of
           (Some provider, Some sid) \<Rightarrow> Some (provider, sid) | _ \<Rightarrow> None)"
  shows "schema_ok db'"
proof (cases "mg_binding sp = None \<and> mg_binding ap \<noteq> None")
  case False
  then show ?thesis using t ok by (auto simp: transfer_binding_def split: option.splits)
next
  case True
  then obtain provider sid where b: "mg_binding sp = None" "mg_binding ap = Some (provider, sid)" by auto
  then have native: "rr_native_provider arow = Some provider" "rr_native_session_id arow = Some sid"
    using ab by (auto split: option.splits)
  let ?srow = "srow\<lparr>rr_native_provider := Some provider, rr_native_session_id := Some sid\<rparr>"
  let ?arow = "arow\<lparr>rr_native_provider := None, rr_native_session_id := None\<rparr>"
  let ?runs1 = "hm_put a ?arow (db_task_runs db)"
  note runs = schema_okI(1) [OF ok, unfolded runs_ok_def]
  have rows: "task_run_checks s srow" "task_run_checks a arow" "bound_in (set (db_native_sessions db)) arow"
      "flat_target (db_task_runs db) srow" "flat_target (db_task_runs db) arow"
    using runs s a by auto
  have clash: "\<not> row_conflict x y" if "run_row db i = Some x" "run_row db j = Some y" "i \<noteq> j" for i j x y
    using runs that by blast
  have 1: "runs_ok (set (db_native_sessions db)) ?runs1"
  proof (rule runs_ok_put [OF schema_okI(1) [OF ok] subset_refl _ _ _ _ disjI2 [OF disjI2]])
    show "\<forall>j other. (j, other) \<in> set (db_task_runs db) \<longrightarrow> j \<noteq> a \<longrightarrow> \<not> row_conflict ?arow other"
    proof (intro allI impI)
      fix j other
      assume "(j, other) \<in> set (db_task_runs db)" "j \<noteq> a"
      then have "\<not> row_conflict arow other" using clash [OF a, of j other] runs by (simp add: hm_get_eq_iff)
      then show "\<not> row_conflict ?arow other" by (simp add: conflict_parts sql_same_def)
    qed
  qed (use rows a in \<open>auto simp: task_run_checks_def bound_in_def flat_target_def\<close>)
  have 2: "runs_ok (set (db_native_sessions db)) (hm_put s ?srow ?runs1)"
  proof (rule runs_ok_put [OF 1 subset_refl _ _ _ _ disjI2 [OF disjI2]])
    show "\<forall>j other. (j, other) \<in> set ?runs1 \<longrightarrow> j \<noteq> s \<longrightarrow> \<not> row_conflict ?srow other"
    proof (intro allI impI)
      fix j other
      assume j: "(j, other) \<in> set ?runs1" "j \<noteq> s"
      have "hm_ok ?runs1" using 1 unfolding runs_ok_def by blast
      then have "hm_get ?runs1 j = Some other" using j(1) by (simp only: hm_get_eq_iff)
      then have row: "if j = a then other = ?arow else run_row db j = Some other" by (simp split: if_splits)
      show "\<not> row_conflict ?srow other"
      proof (cases "j = a")
        case True
        then show ?thesis using row clash [OF s a ne] by (simp add: conflict_parts sql_same_def)
      next
        case False
        then have "\<not> row_conflict srow other" "\<not> row_conflict arow other"
          using row clash [OF s _ j(2) [symmetric]] clash [OF a, of j other] by auto
        then show ?thesis using native by (simp add: conflict_parts sql_same_def)
      qed
    qed
    show "flat_target ?runs1 ?srow"
      unfolding flat_target_def
    proof (intro allI impI)
      fix t assume "rr_merged_into ?srow = Some t"
      then obtain u where u: "run_row db t = Some u" "rr_merged_into u = None"
        using rows(4) unfolding flat_target_def by auto
      then show "\<exists>target. hm_get ?runs1 t = Some target \<and> rr_merged_into target = None"
        using a by (cases "t = a") auto
    qed
  qed (use rows s ne native in \<open>auto simp: task_run_checks_def bound_in_def\<close>)
  have db': "db' = db\<lparr>db_task_runs := hm_put s ?srow ?runs1\<rparr>"
    using t b s a ne by (simp add: transfer_binding_def update_run_shape)
  show ?thesis
    unfolding db' by (rule runs_grown [OF ok subset_trans [OF put_keys put_keys] 2])
qed

lemma redirect_aliases_ok:
  assumes ok: "schema_ok db" and s: "run_row db s = Some srow" "rr_merged_into srow = None"
    and a: "run_row db a = Some arow" "rr_merged_into arow = None" and ne: "s \<noteq> a"
  shows "schema_ok (redirect_aliases s a db)"
proof -
  let ?db = "redirect_aliases s a db"
  let ?f = "\<lambda>i row. if i = a \<or> rr_merged_into row = Some a then row\<lparr>rr_merged_into := Some s\<rparr> else row"
  note runs = schema_okI(1) [OF ok, unfolded runs_ok_def]
  have get: "run_row ?db i = map_option (?f i) (run_row db i)" for i by (rule redirect_rows)
  have "runs_ok (set (db_native_sessions db)) (db_task_runs ?db)"
    unfolding runs_ok_def
  proof (intro conjI allI impI)
    show "hm_ok (db_task_runs ?db)" using runs by simp
    fix i row
    assume "run_row ?db i = Some row"
    then obtain old where old: "run_row db i = Some old" and row: "row = ?f i old" by (auto simp: get)
    then have checks: "task_run_checks i old" "bound_in (set (db_native_sessions db)) old" "flat_target (db_task_runs db) old"
      using runs by auto
    show "task_run_checks i row" "bound_in (set (db_native_sessions db)) row"
      using checks(1,2) ne old s by (auto simp: row task_run_checks_def bound_in_def)
    show "flat_target (db_task_runs ?db) row"
      unfolding flat_target_def
    proof (intro allI impI)
      fix t
      assume t: "rr_merged_into row = Some t"
      show "\<exists>target. run_row ?db t = Some target \<and> rr_merged_into target = None"
      proof (cases "t = s")
        case True
        then show ?thesis using s ne by (simp add: get)
      next
        case False
        with t have "rr_merged_into old = Some t" "t \<noteq> a" by (auto simp: row split: if_splits)
        moreover from this obtain u where "run_row db t = Some u" "rr_merged_into u = None"
          using checks(3) unfolding flat_target_def by blast
        ultimately show ?thesis by (simp add: get)
      qed
    qed
  next
    fix i j x y
    assume "run_row ?db i = Some x" "run_row ?db j = Some y" "i \<noteq> j"
    then obtain x0 y0 where "run_row db i = Some x0" "run_row db j = Some y0" "x = ?f i x0" "y = ?f j y0"
      by (auto simp: get)
    moreover from this have "\<not> row_conflict x0 y0" using runs \<open>i \<noteq> j\<close> by blast
    ultimately show "\<not> row_conflict x y" by (simp add: conflict_parts)
  qed
  moreover have "?db = db\<lparr>db_task_runs := db_task_runs ?db\<rparr>"
    by (simp add: redirect_aliases_def update_run_shape)
  moreover have "run_ids db \<subseteq> run_ids ?db" by simp
  ultimately show ?thesis using runs_grown [OF ok] by metis
qed

lemma merge_task_runs_ok:
  assumes merge: "merge_task_runs env survivor absorbed drain db = Inr db'" and ok: "schema_ok db"
    and env: "env_ok env"
  shows "schema_ok db'"
proof -
  let ?s = "se_run_text env survivor" and ?a = "se_run_text env absorbed"
  obtain sp ap db0 execution_edges dependency_edges db1 db2 db3 db4
    where ne: "survivor \<noteq> absorbed"
      and sp: "read_canonical_merge_party ?s db = Inr sp" and ap: "read_canonical_merge_party ?a db = Inr ap"
      and db0: "transfer_binding ?s ?a (mg_binding sp) (mg_binding ap) db = Inr db0"
      and db1: "keep_event_images ?s ?a drain db0 = Inr db1"
      and db2: "replace_execution_edges execution_edges (repoint_rows ?s ?a db1) = Inr db2"
      and db3: "replace_dependency_edges dependency_edges db2 = Inr db3"
      and db4: "merge_rate_totals ?s ?a
          (merge_v6_run_state ?s ?a (mg_v6_state sp) (mg_v6_state ap) db3) = Inr db4"
      and db': "redirect_aliases ?s ?a (update_run ?s (\<lambda>row. row\<lparr>rr_finished_at_ms := merged_finish sp ap\<rparr>)
          (transfer_associations ?s ?a db4)) = db'"
    using merge unfolding merge_task_runs_def Let_def
    by (simp only: try_then_Inr ensure_Inr sum.inject) (elim exE conjE, rule that; assumption)
  have sa: "?s \<noteq> ?a" using ne run_text_inject [OF env] by simp
  obtain srow where srow: "run_row db ?s = Some srow" "rr_merged_into srow = None"
    by (rule party_row [OF sp]) (rule that; assumption)
  obtain arow where arow: "run_row db ?a = Some arow" "rr_merged_into arow = None"
    and ab: "mg_binding ap = (case (rr_native_provider arow, rr_native_session_id arow) of
           (Some provider, Some sid) \<Rightarrow> Some (provider, sid) | _ \<Rightarrow> None)"
    by (rule party_row [OF ap]) (rule that; assumption)
  obtain rows srow' arow' where t: "db0 = db\<lparr>db_task_runs := rows\<rparr>"
    and lookup: "\<And>i. hm_get rows i = (if i = ?s then Some srow' else if i = ?a then Some arow' else run_row db i)"
    and canonical: "rr_merged_into srow' = None" "rr_merged_into arow' = None"
    by (rule transfer_shape [OF db0 sa srow(1) arow(1) ab]) (rule that, assumption+, simp_all add: srow arow)
  have ok0: "schema_ok db0" by (rule transfer_binding_ok [OF db0 ok srow(1) arow(1) sa ab])
  then have ok1: "schema_ok db1" by (rule keep_event_images_ok [OF db1])
  obtain imgs where i1: "db1 = db0\<lparr>db_before_images := imgs\<rparr>"
    by (rule keep_images_shape [OF db1]) (rule that)
  have "?s \<in> run_ids db1" by (rule hm_member [of _ _ srow']) (simp add: i1 t lookup)
  then have "schema_ok (repoint_rows ?s ?a db1)" by (rule repoint_rows_ok [OF ok1])
  then have "schema_ok db2" by (rule replace_edges_ok(1) [OF db2])
  then have ok3: "schema_ok db3" by (rule replace_edges_ok(2) [OF db3])
  have runs3: "db_task_runs db3 = rows"
    by (simp add: replace_edges_shape(1) [OF db2] replace_edges_shape(2) [OF db3] repoint_rows_def i1 t)
  obtain state where v6: "merge_v6_run_state ?s ?a (mg_v6_state sp) (mg_v6_state ap) db3
      = update_run ?s (\<lambda>row. row\<lparr>rr_lifecycle := encode_lifecycle state\<rparr>) db3"
    by (simp add: merge_v6_run_state_def Let_def)
  have ok4': "schema_ok (merge_v6_run_state ?s ?a (mg_v6_state sp) (mg_v6_state ap) db3)"
    unfolding v6 by (rule update_run_ok [OF ok3])
      (use row_checks [OF ok3] in \<open>auto simp: same_identity_def task_run_checks_def\<close>)
  then have ok4: "schema_ok db4" by (rule merge_rate_totals_ok [OF db4])
  obtain totals where d4: "db4 = (update_run ?s (\<lambda>row. row\<lparr>rr_lifecycle := encode_lifecycle state\<rparr>) db3)
      \<lparr>db_run_rate_totals := totals\<rparr>"
    by (rule merge_rates_shape [OF db4 [unfolded v6]]) (rule that)
  have rows4: "run_row db4 i = (if i = ?s then Some (srow'\<lparr>rr_lifecycle := encode_lifecycle state\<rparr>)
      else if i = ?a then Some arow' else run_row db i)" for i
    using sa by (simp add: d4 update_run_row runs3 lookup)
  have "?s \<in> run_ids db4" by (rule hm_member, subst rows4) simp
  then have ok5: "schema_ok (transfer_associations ?s ?a db4)" by (rule transfer_associations_ok [OF ok4])
  let ?db6 = "update_run ?s (\<lambda>row. row\<lparr>rr_finished_at_ms := merged_finish sp ap\<rparr>) (transfer_associations ?s ?a db4)"
  have ok6: "schema_ok ?db6"
    by (rule update_run_ok [OF ok5])
      (use row_checks [OF ok5] in \<open>auto simp: same_identity_def task_run_checks_def\<close>)
  have row6: "run_row ?db6 i = (if i = ?s then Some (srow'\<lparr>rr_lifecycle := encode_lifecycle state,
      rr_finished_at_ms := merged_finish sp ap\<rparr>) else if i = ?a then Some arow' else run_row db i)" for i
    by (simp add: update_run_row transfer_associations_def Let_def rows4)
  have s6: "run_row ?db6 ?s = Some (srow'\<lparr>rr_lifecycle := encode_lifecycle state,
      rr_finished_at_ms := merged_finish sp ap\<rparr>)" by (subst row6) simp
  have a6: "run_row ?db6 ?a = Some arow'" using sa by (subst row6) simp
  show ?thesis
    unfolding db' [symmetric] by (rule redirect_aliases_ok [OF ok6 s6 _ a6 _ sa]) (simp_all add: canonical)
qed

section \<open>Operations and batches\<close>

lemma apply_store_operation_ok:
  assumes "apply_store_operation env drain operation db = Inr db'" and ok: "schema_ok db" and env: "env_ok env"
  shows "schema_ok db'"
  using assms(1)
proof (cases operation)
  case (UpsertWorkspace w ordinal)
  with assms show ?thesis by (auto simp: results dest!: upsert_display_ordinal_ok intro: workspace_ok)
next
  case (UpsertTab t ordinal)
  with assms show ?thesis by (auto simp: results dest!: upsert_display_ordinal_ok dest: write_tab_ok)
next
  case (UpsertPane p ordinal)
  with assms show ?thesis by (auto simp: results dest!: upsert_display_ordinal_ok dest: write_pane_ok)
next
  case (ClearTabLabel i)
  with assms show ?thesis by (auto split: option.splits intro: relabel_ok)
next
  case (ClearPaneDisplayName i)
  with assms show ?thesis by (auto split: option.splits intro: relabel_ok)
next
  case (MergeTaskRuns s a)
  with assms merge_task_runs_ok [OF _ ok env] show ?thesis by simp
next
  case (UpsertExecutionEdge e t)
  with assms show ?thesis by (auto simp: Let_def split: if_splits intro: insert_execution_edge_ok)
next
  case (UpsertDependencyEdge e t)
  with assms show ?thesis by (auto simp: Let_def split: if_splits intro: insert_dependency_edge_ok)
next
  case (AdvanceIngestSequence q)
  with assms show ?thesis by (auto simp: advance_ingest_sequence_def split: if_splits)
qed (use assms in \<open>auto intro: delete_display_ordinal_ok delete_workspace_ok delete_tab_ok delete_pane_ok
    upsert_task_run_ok promote_task_run_key_ok upsert_execution_ok upsert_agent_node_ok record_event_ok record_gap_ok\<close>)

lemma apply_batch_ok:
  assumes "schema_ok db" and "env_ok env"
  shows "schema_ok (fst (apply_batch env batch db))"
  using assms apply_store_operation_ok
  by (auto simp: apply_batch_def transact_def split: sum.split elim: try_fold_invariant)

section \<open>Versioned batches and finalization\<close>

lemma checked_artifacts_distinct:
  assumes "try_fold checked_artifact artifacts ([], []) = Inr (ids, manifest)"
  shows "distinct (map fst manifest)"
proof -
  have "case (ids, manifest) of (ids, manifest) \<Rightarrow> map fst manifest = ids \<and> distinct ids"
    by (rule try_fold_invariant [OF assms, where P = "\<lambda>(ids, manifest). map fst manifest = ids \<and> distinct ids"])
      (auto simp: checked_artifact_def results split: if_splits prod.splits)
  then show ?thesis by simp
qed

lemma artifacts_entered:
  assumes "artifacts_ok D old" and "artifacts_ok D' old" and "d \<notin> D" and "d \<in> D'" and "distinct (map fst new)"
    and "\<forall>((d', artifact), generation, goalpost) \<in> set new. d' = d \<and> artifact_checks artifact generation goalpost"
  shows "artifacts_ok D' (old @ new)"
proof -
  have "fst x \<noteq> fst y" if "x \<in> set old" "y \<in> set new" for x y
    using assms(1,3,6) that unfolding artifacts_ok_def by (cases x; cases y) fastforce
  then have "set (map fst old) \<inter> set (map fst new) = {}" by fastforce
  with assms show ?thesis unfolding artifacts_ok_def by auto
qed

lemma upsert_history_drain_ok:
  assumes up: "upsert_history_drain drain db = Inr db'" and ok: "schema_ok db"
  shows "schema_ok db'"
  using up
proof (cases rule: upsert_drain_cases)
  case (known ids incoming row)
  with ok show ?thesis by simp
next
  case (entered ids incoming)
  let ?d = "drain_text (pd_drain_id drain)"
  let ?new = "map (\<lambda>(artifact, generation, goalpost). ((?d, artifact), generation, goalpost)) (sort incoming)"
  let ?drains = "hm_put ?d \<lparr>dr_provider = provider_text (pd_provider drain), dr_created_at_ms = pd_created_at_ms drain,
    dr_finalized_at_ms = None, dr_completed_by_drain_id = None\<rparr> (db_history_drains db)"
  have d: "?d \<notin> drain_ids db" using entered(2) by (simp add: map_of_eq_None_iff)
  have D: "drain_ids db \<subseteq> set (hm_keys ?drains)" "?d \<in> set (hm_keys ?drains)" by (auto simp: hm_keys_put)
  have "distinct (map fst (sort incoming))"
    using checked_artifacts_distinct [OF entered(1)] by (metis distinct_map distinct_sort set_sort)
  moreover have "map fst ?new = map (Pair ?d) (map fst (sort incoming))" by (simp add: case_prod_beta)
  ultimately have "distinct (map fst ?new)" by (simp only: distinct_map [of "Pair _"]) (simp add: inj_on_def)
  moreover have "\<forall>((d, artifact), generation, goalpost) \<in> set ?new. d = ?d \<and> artifact_checks artifact generation goalpost"
    using entered(5) by auto
  ultimately have "artifacts_ok (set (hm_keys ?drains)) (db_drain_artifacts db @ ?new)"
    by (intro artifacts_entered [OF schema_okI(12) [OF ok] references_mono(8) [OF schema_okI(12) [OF ok] D(1)] d D(2)])
  moreover have "drains_ok ?drains"
    using schema_okI(11) [OF ok] entered(4) by (auto simp: drains_ok_def dest!: hm_put_member)
  ultimately have "artifacts_ok (set (hm_keys ?drains)) (db_drain_artifacts db @ ?new)" "drains_ok ?drains" by -
  with ok topology_frame [of db' db] references_mono(7) [OF schema_okI(10) [OF ok] subset_refl D(1)]
    references_mono(9) [OF schema_okI(13) [OF ok] D(1) subset_refl]
  show ?thesis by (simp add: entered(3) schema_ok_def)
qed

lemma publications_change:
  assumes "schema_ok db" and "publications_ok (run_ids db) pubs"
  shows "schema_ok (db\<lparr>db_publications := pubs\<rparr>)"
  using assms topology_frame [of "db\<lparr>db_publications := pubs\<rparr>" db] by (simp add: schema_ok_def)

lemma drop_publications_ok: "schema_ok db \<Longrightarrow> schema_ok (drop_publications P db)"
  unfolding drop_publications_def by (simp add: publications_change rows_dropped(6) schema_okI(9) del: set_map)

lemma insert_publication_ok:
  assumes "insert_publication env publication db = Inr db'" and ok: "schema_ok db"
  shows "schema_ok db'"
  using assms rows_put(5) [OF schema_okI(9) [OF ok]]
  by (auto simp: insert_publication_def Let_def results run_exists_iff split: if_splits
      intro!: publications_change simp del: set_map)

lemma unready_run_ok: "schema_ok db \<Longrightarrow> schema_ok (unready_run h i db)"
  using row_checks [of db i]
  by (auto simp: unready_run_def split: option.split intro!: update_run_ok)
    (auto simp: same_identity_def task_run_checks_def lifecycle_checks_def)

lemma fold_ok: "(\<And>x db. schema_ok db \<Longrightarrow> schema_ok (f x db)) \<Longrightarrow> schema_ok db \<Longrightarrow> schema_ok (fold f xs db)"
  by (induction xs arbitrary: db) auto

lemma associate_run_ok: "associate_run env h association db = Inr db' \<Longrightarrow> schema_ok db \<Longrightarrow> schema_ok db'"
  by (auto simp: associate_run_def Let_def results split: if_splits intro: unready_run_ok insert_drain_run_ok)

lemma try_fold_ok:
  "try_fold f xs db = Inr db' \<Longrightarrow> schema_ok db \<Longrightarrow>
     (\<And>x db db'. schema_ok db \<Longrightarrow> f x db = Inr db' \<Longrightarrow> schema_ok db') \<Longrightarrow> schema_ok db'"
  by (rule try_fold_invariant [where P = schema_ok])

lemma v6_batch_body_ok:
  assumes "v6_batch_body env batch db = Inr db'" and ok: "schema_ok db" and env: "env_ok env"
  shows "schema_ok db'"
proof -
  let ?h = "vb_history_event_drain batch \<noteq> None"
  let ?live = "if ?h then [] else filter_map (\<lambda>t. if v6_history_ready (p6_state t)
      then Some (tr_run_id (pt_task_run (p6_task_run t))) else None) (vb_task_runs batch)"
  obtain db1 db2 db3 db4 db5 db6 db7
    where 1: "try_fold (seed_missing_run env (vb_operations batch)) (vb_task_runs batch) db = Inr db1"
      and 2: "try_fold upsert_history_drain (vb_history_drains batch) db1 = Inr db2"
      and 3: "try_fold (insert_publication env) (vb_history_publications batch) db2 = Inr db3"
      and 4: "try_fold (apply_store_operation env (vb_history_event_drain batch)) (vb_operations batch) db3 = Inr db4"
      and 5: "try_fold (upsert_task_run_v6 env) (vb_task_runs batch) db4 = Inr db5"
      and 6: "try_fold (\<lambda>(r, totals). upsert_run_rate_totals env r totals) (vb_rate_totals batch)
          (fold (\<lambda>r. drop_publications (\<lambda>c. c = se_run_text env r)) ?live db5) = Inr db6"
      and 7: "try_fold (associate_run env ?h) (vb_history_associations batch) db6 = Inr db7"
      and 8: "unready_blocked_runs ?h db7 = db'"
    using assms(1) unfolding v6_batch_body_def Let_def
    by (simp only: try_then_Inr ensure_Inr sum.inject) (elim exE conjE, rule that; assumption)
  have "schema_ok db1" by (rule try_fold_ok [OF 1 ok])
      (auto simp: seed_missing_run_def split: if_splits intro: upsert_task_run_v6_ok)
  then have "schema_ok db2" by (rule try_fold_ok [OF 2]) (rule upsert_history_drain_ok)
  then have "schema_ok db3" by (rule try_fold_ok [OF 3]) (rule insert_publication_ok)
  then have "schema_ok db4" by (rule try_fold_ok [OF 4]) (rule apply_store_operation_ok [OF _ _ env])
  then have "schema_ok db5" by (rule try_fold_ok [OF 5]) (rule upsert_task_run_v6_ok)
  then have "schema_ok (fold (\<lambda>r. drop_publications (\<lambda>c. c = se_run_text env r)) ?live db5)"
    by (intro fold_ok drop_publications_ok)
  then have "schema_ok db6" by (rule try_fold_ok [OF 6]) (auto intro: upsert_run_rate_totals_ok)
  then have "schema_ok db7" by (rule try_fold_ok [OF 7]) (rule associate_run_ok)
  then show ?thesis unfolding 8 [symmetric] unready_blocked_runs_def by (intro fold_ok unready_run_ok)
qed

lemma apply_v6_batch_ok:
  assumes "schema_ok db" and "env_ok env"
  shows "schema_ok (fst (apply_v6_batch env batch db))"
  using assms v6_batch_body_ok
  by (auto simp: apply_v6_batch_def transact_def results split: sum.splits if_splits)

text \<open>Tables rewritten row by row.\<close>

lemma runs_rewritten:
  assumes ok: "schema_ok db" and "\<And>i row. run_row db i = Some row \<Longrightarrow> same_identity row (f i row)"
  shows "schema_ok (db\<lparr>db_task_runs := map (\<lambda>(i, row). (i, f i row)) (db_task_runs db)\<rparr>)"
proof (rule runs_grown [OF ok])
  have keys: "hm_keys (map (\<lambda>(i, row). (i, f i row)) (db_task_runs db)) = hm_keys (db_task_runs db)"
    by (rule hm_keys_map_row)
  show "run_ids db \<subseteq> set (hm_keys (map (\<lambda>(i, row). (i, f i row)) (db_task_runs db)))"
    by (simp only: keys subset_refl)
  show "runs_ok (set (db_native_sessions db)) (map (\<lambda>(i, row). (i, f i row)) (db_task_runs db))"
    by (rule runs_ok_same [OF schema_okI(1) [OF ok] keys]) (use assms(2) in auto)
qed

lemma drains_rewritten:
  assumes ok: "schema_ok db" and same: "\<And>i row. dr_provider (f i row) = dr_provider row"
  shows "schema_ok (db\<lparr>db_history_drains := map (\<lambda>(i, row). (i, f i row)) (db_history_drains db)\<rparr>)"
proof -
  define drains where "drains = map (\<lambda>(i, row). (i, f i row)) (db_history_drains db)"
  have "hm_keys drains = hm_keys (db_history_drains db)"
    unfolding drains_def by (rule hm_keys_map_row)
  moreover have "drains_ok drains"
    unfolding drains_ok_def
  proof
    show "hm_ok drains" using calculation schema_okI(11) [OF ok] by (simp add: drains_ok_def del: set_map)
    show "\<forall>(i, row) \<in> set drains. drain_checks i row"
      using schema_okI(11) [OF ok] same by (auto simp: drains_ok_def drains_def drain_checks_def)
  qed
  ultimately show ?thesis
    using ok topology_frame [of "db\<lparr>db_history_drains := drains\<rparr>" db]
    unfolding schema_ok_def drains_def [symmetric] by (simp del: set_map)
qed

lemma close_drains_ok: "schema_ok db \<Longrightarrow> schema_ok (close_drains d now closing db)"
  unfolding close_drains_def by (rule drains_rewritten) simp_all

lemma inherit_associations_ok:
  assumes ok: "schema_ok db" and d: "d \<in> drain_ids db"
  shows "schema_ok (inherit_associations d olders db)"
proof -
  have "drain_runs_ok (drain_ids db) (run_ids db) (db_drain_runs (inherit_associations d olders db))"
    using schema_okI(10) [OF ok] d unfolding drain_runs_ok_def inherit_associations_def
    by (auto simp: filter_map_set simp del: set_map split: if_splits)
  with ok topology_frame [of "inherit_associations d olders db" db] show ?thesis
    by (simp add: schema_ok_def) (simp add: inherit_associations_def)
qed

lemma closed_end_checks:
  assumes "run_row db i = Some row" and ok: "schema_ok db"
  shows "same_identity row (row\<lparr>rr_lifecycle := close_unknown now prefix i (rr_lifecycle row)\<rparr>)"
    and "same_identity row (row\<lparr>rr_lifecycle := (rr_lifecycle row)\<lparr>lf_history_ready := i64_from_bool b\<rparr>\<rparr>)"
    and "same_identity row row"
  using row_checks [OF ok assms(1)]
  by (auto simp: same_identity_def task_run_checks_def close_unknown_def lifecycle_checks_def i64_from_bool_def)

lemma close_members_ok: "schema_ok db \<Longrightarrow> schema_ok (close_members d now db)"
  unfolding close_members_def Let_def by (rule runs_rewritten) (auto intro: closed_end_checks)

lemma ready_members_ok: "schema_ok db \<Longrightarrow> schema_ok (ready_members d db)"
  unfolding ready_members_def by (rule runs_rewritten) (auto intro: closed_end_checks)

lemma images_change:
  assumes "schema_ok db"
  shows "schema_ok (db\<lparr>db_before_images := filter P (db_before_images db)\<rparr>)"
  using assms rows_dropped(8) [OF schema_okI(13) [OF assms]]
    topology_frame [of "db\<lparr>db_before_images := filter P (db_before_images db)\<rparr>" db]
  by (simp add: schema_ok_def)

lemma finalize_body_ok:
  assumes body: "finalize_body manifest now db = Inr db'" and ok: "schema_ok db"
  shows "schema_ok db'"
proof (cases rule: finalize_body_cases [OF body])
  case 1
  then show ?thesis using ok upsert_history_drain_ok by blast
next
  case (2 db1 olders)
  have ok1: "schema_ok db1" by (rule upsert_history_drain_ok [OF 2(1) ok])
  have "drain_text (pd_drain_id manifest) \<in> drain_ids db1"
    using upsert_drain_frame(6) [OF 2(1)] by (simp add: map_of_eq_None_iff)
  then show ?thesis
    unfolding 2(3) finalize_steps_def Let_def drop_ready_images_def
    by (intro images_change drop_publications_ok ready_members_ok close_members_ok close_drains_ok
        inherit_associations_ok ok1)
qed

lemma finalize_history_drain_ok:
  "schema_ok db \<Longrightarrow> schema_ok (fst (finalize_history_drain env manifest now db))"
  using finalize_body_ok by (auto simp: finalize_history_drain_def split: sum.split)

section \<open>Retention\<close>

lemma delete_events_ok:
  assumes ok: "schema_ok db"
  shows "schema_ok (delete_events P db)"
proof -
  let ?es = "filter (\<lambda>e. \<not> P e) (db_events db)"
  have "images_ok (drain_ids db) (ep_event_id ` set ?es)
      (filter (\<lambda>((_, i), _). i \<in> set (map ep_event_id ?es)) (db_before_images db))"
    using schema_okI(13) [OF ok] by (auto simp: images_ok_def)
  moreover have "distinct (map ep_event_id ?es)"
    using schema_okI(14) [OF ok] by (simp add: distinct_map_filter)
  ultimately show ?thesis
    using ok topology_frame [of "delete_events P db" db]
    by (simp add: schema_ok_def delete_events_def Let_def)
qed

text \<open>A cascade leaves no reference to the runs that went.\<close>

lemma references_cut:
  "executions_ok R m \<Longrightarrow> executions_ok (R - G) (filter (\<lambda>(_, e). exr_task_run_id e \<notin> G) m)"
  "nodes_ok R S n \<Longrightarrow> nodes_ok (R - G) S (filter (\<lambda>(_, e). anr_task_run_id e \<notin> G) n)"
  "execution_edges_ok R ee \<Longrightarrow> execution_edges_ok (R - G) (filter (\<lambda>((p, c), _). p \<notin> G \<and> c \<notin> G) ee)"
  "dependency_edges_ok R de \<Longrightarrow> dependency_edges_ok (R - G) (filter (\<lambda>((p, d), _). p \<notin> G \<and> d \<notin> G) de)"
  "totals_ok R t \<Longrightarrow> totals_ok (R - G) (filter (\<lambda>(i, _). i \<notin> G) t)"
  "publications_ok R pb \<Longrightarrow> publications_ok (R - G) (filter (\<lambda>(_, canonical, _). canonical \<notin> G) pb)"
  "drain_runs_ok D R dr \<Longrightarrow> drain_runs_ok D (R - G) (filter (\<lambda>(_, i). i \<notin> G) dr)"
  subgoal unfolding executions_ok_def by (intro conjI) (simp, clarsimp)
  subgoal unfolding nodes_ok_def by (intro conjI) (simp, clarsimp)
  subgoal by (auto simp: execution_edges_ok_def distinct_map_filter)
  subgoal by (auto simp: dependency_edges_ok_def)
  subgoal by (auto simp: totals_ok_def)
  subgoal by (auto simp: publications_ok_def)
  subgoal by (auto simp: drain_runs_ok_def)
  done

lemma delete_task_runs_ok:
  assumes ok: "schema_ok db"
  shows "schema_ok (delete_task_runs doomed db)"
proof -
  define gone where "gone = grow (\<lambda>reached i. case run_row db i of None \<Rightarrow> False
      | Some row \<Rightarrow> (case rr_merged_into row of None \<Rightarrow> False | Some t \<Rightarrow> t \<in> set reached))
      (hm_keys (db_task_runs db)) doomed"
  let ?runs = "filter (\<lambda>(i, _). i \<notin> set gone) (db_task_runs db)"
  note runs = schema_okI(1) [OF ok, unfolded runs_ok_def]
  have closed: "i \<in> set gone" if "run_row db i = Some row" "rr_merged_into row = Some t" "t \<in> set gone" for i row t
    unfolding gone_def by (rule grow_closed) (use that hm_member [OF that(1)] in \<open>auto simp: gone_def\<close>)
  have keys: "set (hm_keys ?runs) = run_ids db - set gone" by force
  have "runs_ok (set (db_native_sessions db)) ?runs"
    unfolding runs_ok_def
  proof (intro conjI allI impI)
    show "hm_ok ?runs" using runs by simp
    fix i row
    assume "hm_get ?runs i = Some row"
    then have row: "run_row db i = Some row" "i \<notin> set gone" by (auto split: if_splits)
    then have flat: "flat_target (db_task_runs db) row" using runs by blast
    show "flat_target ?runs row"
      unfolding flat_target_def
    proof (intro allI impI)
      fix t assume t: "rr_merged_into row = Some t"
      then obtain target where "run_row db t = Some target" "rr_merged_into target = None"
        using flat unfolding flat_target_def by blast
      moreover have "t \<notin> set gone" using closed [OF row(1) t] row(2) by blast
      ultimately show "\<exists>target. hm_get ?runs t = Some target \<and> rr_merged_into target = None" by simp
    qed
    show "task_run_checks i row" "bound_in (set (db_native_sessions db)) row" using runs row(1) by blast+
  next
    fix i j a b
    assume "hm_get ?runs i = Some a" "hm_get ?runs j = Some b" and ne: "i \<noteq> j"
    then have "run_row db i = Some a" "run_row db j = Some b" by (auto split: if_splits)
    with ne show "\<not> row_conflict a b" using runs by blast
  qed
  moreover have "topology_ok (delete_task_runs doomed db) = topology_ok db"
    by (rule topology_frame) (simp_all add: delete_task_runs_def Let_def)
  moreover note references_cut(1) [OF schema_okI(4) [OF ok], of "set gone"]
    references_cut(2) [OF schema_okI(5) [OF ok], of "set gone"] references_cut(3) [OF schema_okI(6) [OF ok], of "set gone"]
    references_cut(4) [OF schema_okI(7) [OF ok], of "set gone"] references_cut(5) [OF schema_okI(8) [OF ok], of "set gone"]
    references_cut(6) [OF schema_okI(9) [OF ok], of "set gone"] references_cut(7) [OF schema_okI(10) [OF ok], of "set gone"]
  moreover have "delete_task_runs doomed db = db\<lparr>db_task_runs := ?runs,
      db_agent_nodes := filter (\<lambda>(_, n). anr_task_run_id n \<notin> set gone) (db_agent_nodes db),
      db_executions := filter (\<lambda>(_, e). exr_task_run_id e \<notin> set gone) (db_executions db),
      db_execution_edges := filter (\<lambda>((p, c), _). p \<notin> set gone \<and> c \<notin> set gone) (db_execution_edges db),
      db_dependency_edges := filter (\<lambda>((p, d), _). p \<notin> set gone \<and> d \<notin> set gone) (db_dependency_edges db),
      db_run_rate_totals := filter (\<lambda>(i, _). i \<notin> set gone) (db_run_rate_totals db),
      db_drain_runs := filter (\<lambda>(_, i). i \<notin> set gone) (db_drain_runs db),
      db_publications := filter (\<lambda>(_, canonical, _). canonical \<notin> set gone) (db_publications db)\<rparr>"
    by (simp only: delete_task_runs_def Let_def gone_def)
  ultimately show ?thesis
    using schema_okI [OF ok] unfolding schema_ok_def by (simp add: keys del: set_map)
qed

lemma rows_filtered:
  assumes "schema_ok db"
  shows "schema_ok (db\<lparr>db_execution_edges := filter P1 (db_execution_edges db)\<rparr>)"
    and "schema_ok (db\<lparr>db_dependency_edges := filter P2 (db_dependency_edges db)\<rparr>)"
    and "schema_ok (db\<lparr>db_executions := filter P3 (db_executions db)\<rparr>)"
    and "schema_ok (db\<lparr>db_display_ordinals := filter P4 (db_display_ordinals db)\<rparr>)"
    and "schema_ok (db\<lparr>db_agent_nodes := filter P5 (db_agent_nodes db)\<rparr>)"
    and "schema_ok (db\<lparr>db_event_ledger := filter P6 (db_event_ledger db)\<rparr>)"
  using schema_okI [OF assms] rows_dropped(3) [OF schema_okI(6) [OF assms]] rows_dropped(4) [OF schema_okI(7) [OF assms]]
    rows_dropped(1) [OF schema_okI(4) [OF assms]] rows_dropped(9) [OF schema_okI(3) [OF assms]]
    rows_dropped(2) [OF schema_okI(5) [OF assms]]
  by (simp_all add: schema_ok_def topology_ok_def del: set_map)

lemma prune_doomed_ok: "schema_ok db \<Longrightarrow> schema_ok (prune_doomed doomed db)"
  unfolding prune_doomed_def Let_def by (intro delete_task_runs_ok rows_filtered)

lemma sessions_pruned_ok:
  assumes ok: "schema_ok db"
  shows "schema_ok (db\<lparr>db_native_sessions := filter (session_in_use db) (db_native_sessions db)\<rparr>)"
proof -
  let ?S = "set (filter (session_in_use db) (db_native_sessions db))"
  note runs = schema_okI(1) [OF ok]
  have "bound_in ?S row" if "run_row db i = Some row" for i row
    using runs that hm_get_eq_iff [of "db_task_runs db" i row]
    by (fastforce simp: runs_ok_def bound_in_def session_in_use_def list_ex_iff)
  then have "runs_ok ?S (db_task_runs db)" using runs by (auto simp: runs_ok_def)
  moreover have "nodes_ok (run_ids db) ?S (db_agent_nodes db)"
    using schema_okI(5) [OF ok] by (fastforce simp: nodes_ok_def session_in_use_def list_ex_iff)
  ultimately show ?thesis
    using schema_okI [OF ok] topology_frame [of "db\<lparr>db_native_sessions := filter (session_in_use db) (db_native_sessions db)\<rparr>" db]
    by (simp add: schema_ok_def del: set_map)
qed

lemma cleanup_retention_ok: "schema_ok db \<Longrightarrow> schema_ok (fst (cleanup_retention now db))"
  unfolding cleanup_retention_def Let_def fst_conv
  by (intro sessions_pruned_ok prune_doomed_ok rows_filtered delete_events_ok)

lemma flat_aliases:
  assumes "schema_ok db"
  shows "aliases_flat db"
  unfolding aliases_flat_def
proof (intro conjI allI impI)
  note runs = schema_okI(1) [OF assms, unfolded runs_ok_def]
  show "hm_ok (db_task_runs db)" using runs by blast
  fix i t
  assume "merged_target db i = Some t"
  then obtain row where "run_row db i = Some row" "rr_merged_into row = Some t" by (auto simp: merged_target_iff)
  then obtain target where "run_row db t = Some target" "rr_merged_into target = None"
    using runs unfolding flat_target_def by blast
  then show "run_exists db t" "merged_target db t = None" by (simp_all add: run_exists_def merged_target_def)
qed

lemma owned_artifacts: "schema_ok db \<Longrightarrow> artifacts_owned db"
  using schema_okI(12) [of db] by (force simp: artifacts_ok_def artifacts_owned_def map_of_eq_None_iff)

section \<open>Reachable stores\<close>

text \<open>What the writer thread, the owner election and the retention timer do to a fresh database.\<close>

inductive store_reachable :: "store_env \<Rightarrow> database \<Rightarrow> bool" for env where
  fresh: "store_reachable env empty_database"
| batch: "store_reachable env db \<Longrightarrow> store_reachable env (fst (apply_batch env batch db))"
| versioned: "store_reachable env db \<Longrightarrow> store_reachable env (fst (apply_v6_batch env v6_batch db))"
| finalized: "store_reachable env db \<Longrightarrow>
    store_reachable env (fst (finalize_history_drain env manifest now db))"
| cleaned: "store_reachable env db \<Longrightarrow> store_reachable env (fst (cleanup_retention now db))"
| owned: "store_reachable env db \<Longrightarrow> store_reachable env (replace_owner own db)"
| moved: "store_reachable env db \<Longrightarrow> update_owner_location terminal pane db = Inr db' \<Longrightarrow>
    store_reachable env db'"

lemma store_reachable_ok:
  assumes "store_reachable env db" and "env_ok env"
  shows "schema_ok db"
  using assms
proof (induction rule: store_reachable.induct)
  case fresh
  show ?case by (rule schema_ok_empty)
qed (auto intro: apply_batch_ok apply_v6_batch_ok finalize_history_drain_ok cleanup_retention_ok
    simp: replace_owner_def update_owner_location_def split: option.splits)

end
