(* ===== verification/Replay_Laws.thy ===== *)
theory Replay_Laws
  imports Store_Merge_Laws Drain_Laws
begin

text \<open>
  The event log of the store as an abstract machine: the marks of the recorded events, the
  deduplication ledger and the sequence high-water mark. Every operation of a batch acts on the
  log as \<open>log_step\<close> says, so a batch whose acknowledgement was lost is recognised when it is sent
  again and changes nothing.
\<close>

section \<open>The log\<close>

type_synonym store_log = "(string \<times> i64 option) list \<times> (string, i64) hmap \<times> i64"

definition event_mark :: "event_projection \<Rightarrow> string \<times> i64 option" where
  "event_mark e = (ep_event_id e, ep_ingest_seq e)"

definition log_of :: "database \<Rightarrow> store_log" where
  "log_of db = (map event_mark (db_events db), db_event_ledger db, db_ingest_high_water db)"

definition log_record :: "string \<Rightarrow> i64 option \<Rightarrow> i64 \<Rightarrow> store_log \<Rightarrow> store_log" where
  "log_record i ingest_seq seen_at_ms log =
     (case log of (marks, ledger, high) \<Rightarrow>
        if hm_get ledger i \<noteq> None then log
        else (marks @ [(i, ingest_seq)], hm_put i seen_at_ms ledger, high))"

definition stored_seq :: "normalized_event \<Rightarrow> i64 option" where
  "stored_seq event = Option.bind (md_ingest_seq (fst (store_event_metadata event))) i64_try_from"

definition log_step :: "persist_op \<Rightarrow> store_log \<Rightarrow> store_log" where
  "log_step operation log =
     (case operation of
        RecordEvent event seen_at_ms \<Rightarrow>
          log_record (md_event_id (fst (store_event_metadata event))) (stored_seq event) seen_at_ms log
      | RecordCollectorGap gap \<Rightarrow> log_record (cg_event_id gap) None (cg_seen_at_ms gap) log
      | AdvanceIngestSequence ingest_seq \<Rightarrow>
          (case log of (marks, ledger, high) \<Rightarrow> (marks, ledger, ingest_seq))
      | _ \<Rightarrow> log)"

section \<open>Operations act on the log\<close>

lemma log_of_update_run [simp]: "log_of (update_run i f db) = log_of db"
  by (simp add: log_of_def update_run_shape)

lemma log_task_run: "upsert_task_run env p db = Inr db' \<Longrightarrow> log_of db' = log_of db"
  by (erule task_run_shape) (simp add: log_of_def)

lemma log_task_run_v6: "upsert_task_run_v6 env p db = Inr db' \<Longrightarrow> log_of db' = log_of db"
  by (erule task_run_v6_shape) (simp add: log_of_def)

lemma log_promotion: "promote_task_run_key env p k i db = Inr db' \<Longrightarrow> log_of db' = log_of db"
  by (erule promotion_shape) (simp add: log_of_def)

lemma log_agent_node: "upsert_agent_node env node db = Inr db' \<Longrightarrow> log_of db' = log_of db"
  by (erule agent_node_shape) (simp add: log_of_def)

lemma log_ordinal: "upsert_display_ordinal kind i ordinal db = Inr db' \<Longrightarrow> log_of db' = log_of db"
  by (erule ordinal_shape) (simp add: log_of_def)

lemma log_merge:
  assumes "merge_task_runs env survivor absorbed drain db = Inr db'" and "env_ok env"
  shows "log_of db' = log_of db"
proof -
  obtain s a where frame: "merge_frame db db'" and events: "db_events db' = db_events (repoint_rows s a db)"
    by (rule merge_shape [OF assms]) (rule that; assumption)
  show ?thesis using frame by (simp add: log_of_def events merge_frame_def repoint_rows_def event_mark_def)
qed

lemma log_manifest:
  assumes "upsert_history_drain drain db = Inr db'"
  shows "log_of db' = log_of db"
  using assms
proof (cases rule: upsert_drain_cases)
  case (entered ids incoming)
  show ?thesis unfolding entered(3) by (simp add: log_of_def)
qed simp

lemma log_simple:
  "upsert_execution env execution db = Inr db' \<Longrightarrow> log_of db' = log_of db"
  "upsert_run_rate_totals env r totals db = Inr db' \<Longrightarrow> log_of db' = log_of db"
  "write_tab i tab db = Inr db' \<Longrightarrow> log_of db' = log_of db"
  "write_pane i pane db = Inr db' \<Longrightarrow> log_of db' = log_of db"
  "insert_execution_edge_row p c t db = Inr db' \<Longrightarrow> log_of db' = log_of db"
  "insert_dependency_edge_row p c t db = Inr db' \<Longrightarrow> log_of db' = log_of db"
  subgoal by (simp add: upsert_execution_def write_Inr Let_def log_of_def split: prod.splits)
  subgoal by (simp add: upsert_run_rate_totals_def write_Inr Let_def log_of_def split: prod.splits)
  by (simp_all add: write_Inr log_of_def)

lemma log_publication:
  assumes "insert_publication env publication db = Inr db'"
  shows "log_of db' = log_of db"
  using assms by (auto simp: insert_publication_def Let_def results log_of_def split: if_splits)

lemma projection_mark:
  assumes "relational_event_projection env event seen drain run = Inr e"
  shows "event_mark e = (md_event_id (fst (store_event_metadata event)), stored_seq event)"
proof -
  obtain ingest_seq where "try_option (\<lambda>value. ok_or (IntegerOutOfRange ''event.ingest_seq'') (i64_try_from value))
      (md_ingest_seq (fst (store_event_metadata event))) = Inr ingest_seq"
    and "ep_ingest_seq e = ingest_seq" "ep_event_id e = md_event_id (fst (store_event_metadata event))"
    using assms by (auto simp: relational_event_projection_def Let_def results split: prod.splits)
  then show ?thesis
    by (cases "md_ingest_seq (fst (store_event_metadata event))")
      (auto simp: event_mark_def stored_seq_def results)
qed

lemma log_event:
  assumes "record_event env event seen drain db = Inr db'"
  shows "log_of db' = log_record (md_event_id (fst (store_event_metadata event))) (stored_seq event) seen (log_of db)"
  using assms projection_mark
  by (auto simp: record_event_def insert_ledger_def log_of_def log_record_def results write_Inr
      touch_herdr_session_def Let_def split: if_splits)

lemma log_gap:
  "record_gap gap db = Inr db' \<Longrightarrow>
     log_of db' = log_record (cg_event_id gap) None (cg_seen_at_ms gap) (log_of db)"
  by (auto simp: record_gap_def insert_ledger_def log_of_def log_record_def results write_Inr
      touch_herdr_session_def event_mark_def gap_projection_def Let_def split: if_splits)

lemma log_operation:
  assumes "apply_store_operation env drain operation db = Inr db'" and env: "env_ok env"
  shows "log_of db' = log_step operation (log_of db)"
proof (cases operation)
  case (UpsertWorkspace w ordinal)
  with assms show ?thesis by (auto simp: results log_step_def dest!: log_ordinal) (simp add: log_of_def)
next
  case (UpsertTab tab ordinal)
  with assms show ?thesis by (auto simp: results log_step_def dest!: log_ordinal log_simple(3))
next
  case (UpsertPane pane ordinal)
  with assms show ?thesis by (auto simp: results log_step_def dest!: log_ordinal log_simple(4))
next
  case (UpsertTaskRun p)
  with assms show ?thesis by (simp add: log_task_run log_step_def)
next
  case (PromoteTaskRunKey p k i)
  with assms show ?thesis by (simp add: log_promotion log_step_def)
next
  case (MergeTaskRuns s a)
  with assms log_merge [OF _ env] show ?thesis by (simp add: log_step_def)
next
  case (UpsertExecution e)
  with assms show ?thesis by (simp add: log_simple(1) log_step_def)
next
  case (UpsertAgentNode node)
  with assms show ?thesis by (simp add: log_agent_node log_step_def)
next
  case (UpsertExecutionEdge edge t)
  with assms show ?thesis by (auto simp: log_step_def Let_def dest: log_simple(5) split: if_splits)
next
  case (UpsertDependencyEdge edge t)
  with assms show ?thesis by (auto simp: log_step_def Let_def dest: log_simple(6) split: if_splits)
next
  case (RecordEvent event seen)
  with assms show ?thesis by (simp add: log_event log_step_def)
next
  case (RecordCollectorGap gap)
  with assms show ?thesis by (simp add: log_gap log_step_def)
next
  case (AdvanceIngestSequence q)
  with assms show ?thesis
    by (auto simp: advance_ingest_sequence_def log_of_def log_step_def split: if_splits)
qed (use assms in \<open>auto simp: log_of_def log_step_def delete_display_ordinal_def delete_workspace_def
    delete_tab_def Let_def split: option.splits\<close>)

lemma log_try_fold:
  assumes "try_fold f xs db = Inr db'" and "\<And>x db db'. x \<in> set xs \<Longrightarrow> f x db = Inr db' \<Longrightarrow> log_of db' = g x (log_of db)"
  shows "log_of db' = fold g xs (log_of db)"
  using assms
proof (induction xs arbitrary: db)
  case (Cons x xs)
  then obtain db1 where 1: "f x db = Inr db1" and rest: "try_fold f xs db1 = Inr db'"
    by (auto simp: results)
  have "log_of db1 = g x (log_of db)" by (rule Cons.prems(2) [OF _ 1]) simp
  moreover have "log_of db' = fold g xs (log_of db1)"
    by (rule Cons.IH [OF rest]) (rule Cons.prems(2), simp_all)
  ultimately show ?case by simp
qed simp

lemma log_try_fold_same:
  assumes "try_fold f xs db = Inr db'" and "\<And>x db db'. f x db = Inr db' \<Longrightarrow> log_of db' = log_of db"
  shows "log_of db' = log_of db"
  by (rule try_fold_invariant [OF assms(1), where P = "\<lambda>d. log_of d = log_of db"]) (use assms(2) in auto)

lemma log_unready: "log_of (unready_run h i db) = log_of db"
  by (simp add: unready_run_def split: option.split)

lemma log_fold: "(\<And>x db. log_of (f x db) = log_of db) \<Longrightarrow> log_of (fold f xs db) = log_of db"
  by (induction xs arbitrary: db) auto

lemma log_associate: "associate_run env h association db = Inr db' \<Longrightarrow> log_of db' = log_of db"
  by (auto simp: associate_run_def Let_def results write_Inr log_unready split: if_splits)
    (simp add: log_of_def)

lemma log_seed: "seed_missing_run env ops t db = Inr db' \<Longrightarrow> log_of db' = log_of db"
  by (auto simp: seed_missing_run_def split: if_splits dest: log_task_run_v6)

lemma log_body:
  assumes "v6_batch_body env batch db = Inr db'" and env: "env_ok env"
  shows "log_of db' = fold log_step (vb_operations batch) (log_of db)"
proof -
  let ?h = "vb_history_event_drain batch \<noteq> None"
  let ?live = "if ?h then [] else filter_map (\<lambda>t. if v6_history_ready (p6_state t)
      then Some (tr_run_id (pt_task_run (p6_task_run t))) else None) (vb_task_runs batch)"
  obtain db1 db2 db3 db4 db5 db6 db7
    where 1: "try_fold (seed_missing_run env (vb_operations batch)) (vb_task_runs batch) db = Inr db1"
      and 2: "try_fold upsert_history_drain (vb_history_drains batch) db1 = Inr db2"
      and 3: "try_fold (insert_publication env) (vb_history_publications batch) db2 = Inr db3"
      and 4: "try_fold (apply_store_operation env (vb_history_event_drain batch)) (vb_operations batch) db3 = Inr db4"
      and 5: "try_fold (upsert_task_run_v6 env) (vb_task_runs batch) db4 = Inr db5"
      and 6: "try_fold (\<lambda>(r, totals). upsert_run_rate_totals env r totals) (vb_rate_totals batch)
          (fold (\<lambda>r. drop_publications (\<lambda>c. c = se_run_text env r)) ?live db5) = Inr db6"
      and 7: "try_fold (associate_run env ?h) (vb_history_associations batch) db6 = Inr db7"
      and 8: "unready_blocked_runs ?h db7 = db'"
    using assms(1) unfolding v6_batch_body_def Let_def
    by (simp only: try_then_Inr ensure_Inr sum.inject) (elim exE conjE, rule that; assumption)
  have "log_of db' = log_of db7"
    by (simp only: 8 [symmetric] unready_blocked_runs_def log_fold [OF log_unready])
  also have "\<dots> = log_of db6" by (rule log_try_fold_same [OF 7 log_associate])
  also have "\<dots> = log_of (fold (\<lambda>r. drop_publications (\<lambda>c. c = se_run_text env r)) ?live db5)"
    by (rule log_try_fold_same [OF 6]) (auto dest: log_simple(2))
  also have "\<dots> = log_of db5" by (rule log_fold) (simp add: drop_publications_def log_of_def)
  also have "\<dots> = log_of db4" by (rule log_try_fold_same [OF 5 log_task_run_v6])
  also have "\<dots> = fold log_step (vb_operations batch) (log_of db3)"
    by (rule log_try_fold [OF 4]) (rule log_operation [OF _ env])
  also have "log_of db3 = log_of db2" by (rule log_try_fold_same [OF 3 log_publication])
  also have "log_of db2 = log_of db1" by (rule log_try_fold_same [OF 2 log_manifest])
  also have "log_of db1 = log_of db"
    by (rule log_try_fold_same [OF 1 log_seed])
  finally show ?thesis .
qed

section \<open>A stamped batch leaves exactly its marks\<close>

text \<open>The identifiers a batch enters into the ledger.\<close>

definition ledger_ids :: "persist_op list \<Rightarrow> string list" where
  "ledger_ids operations =
     filter_map (\<lambda>operation. case operation of
         RecordEvent event _ \<Rightarrow> Some (md_event_id (fst (store_event_metadata event)))
       | RecordCollectorGap gap \<Rightarrow> Some (cg_event_id gap)
       | _ \<Rightarrow> None) operations"

definition marked :: "i64 \<Rightarrow> (string \<times> i64 option) list \<Rightarrow> string list" where
  "marked q marks = filter_map (\<lambda>(i, s). if s = Some q then Some i else None) marks"

text \<open>No recorded event carries a sequence number above the high-water mark.\<close>

definition log_bounded :: "database \<Rightarrow> bool" where
  "log_bounded db \<longleftrightarrow>
     (\<forall>e \<in> set (db_events db). \<forall>n. ep_ingest_seq e = Some n \<longrightarrow> n \<le> db_ingest_high_water db)"

lemma stamped_log:
  assumes "stamped_event_ids q operations seen = Some ids"
    and "\<not> list_ex is_advance operations" and "distinct (ledger_ids operations)"
    and "\<forall>i \<in> set (ledger_ids operations). hm_get ledger i = None"
  shows "\<exists>new marks' ledger'. ids = seen @ new \<and> marked q marks' = marked q marks @ new
    \<and> set marks' \<subseteq> set marks \<union> {(i, s) | i s. s \<in> {None, Some q}}
    \<and> fold log_step operations (marks, ledger, q) = (marks', ledger', q)"
  using assms
proof (induction operations arbitrary: seen marks ledger)
  case Nil
  then show ?case by auto
next
  case (Cons operation operations)
  note IH = Cons.IH
  show ?case
  proof (cases operation)
    case (RecordEvent event time)
    let ?i = "md_event_id (fst (store_event_metadata event))"
    have s: "stored_seq event = Some q" "stamped_event_ids q operations (seen @ [?i]) = Some ids"
      using Cons.prems(1) by (auto simp: RecordEvent stored_seq_def Let_def split: option.splits if_splits)
    have fresh: "hm_get ledger ?i = None" "\<forall>j \<in> set (ledger_ids operations). hm_get (hm_put ?i time ledger) j = None"
      "distinct (ledger_ids operations)"
      using Cons.prems(3,4) by (auto simp: RecordEvent ledger_ids_def)
    obtain new marks' ledger' where "ids = (seen @ [?i]) @ new"
      "marked q marks' = marked q (marks @ [(?i, Some q)]) @ new"
      "set marks' \<subseteq> set (marks @ [(?i, Some q)]) \<union> {(i, s) | i s. s \<in> {None, Some q}}"
      "fold log_step operations (marks @ [(?i, Some q)], hm_put ?i time ledger, q) = (marks', ledger', q)"
      using IH [OF s(2) _ fresh(3,2), of "marks @ [(?i, Some q)]"] Cons.prems(2) by (auto simp: list_ex_iff)
    moreover have "log_step operation (marks, ledger, q) = (marks @ [(?i, Some q)], hm_put ?i time ledger, q)"
      using fresh(1) s(1) by (simp add: RecordEvent log_step_def log_record_def)
    ultimately show ?thesis
      by (intro exI [of _ "?i # new"] exI [of _ marks'] exI [of _ ledger']) (auto simp: marked_def)
  next
    case (RecordCollectorGap gap)
    have fresh: "hm_get ledger (cg_event_id gap) = None" "distinct (ledger_ids operations)"
      "\<forall>j \<in> set (ledger_ids operations). hm_get (hm_put (cg_event_id gap) (cg_seen_at_ms gap) ledger) j = None"
      using Cons.prems(3,4) by (auto simp: RecordCollectorGap ledger_ids_def)
    have "stamped_event_ids q operations seen = Some ids" using Cons.prems(1) by (simp add: RecordCollectorGap)
    then obtain new marks' ledger' where "ids = seen @ new"
      "marked q marks' = marked q (marks @ [(cg_event_id gap, None)]) @ new"
      "set marks' \<subseteq> set (marks @ [(cg_event_id gap, None)]) \<union> {(i, s) | i s. s \<in> {None, Some q}}"
      "fold log_step operations (marks @ [(cg_event_id gap, None)],
          hm_put (cg_event_id gap) (cg_seen_at_ms gap) ledger, q) = (marks', ledger', q)"
      using IH [OF _ _ fresh(2,3), of seen "marks @ [(cg_event_id gap, None)]"] Cons.prems(2)
      by (auto simp: list_ex_iff)
    moreover have "log_step operation (marks, ledger, q)
        = (marks @ [(cg_event_id gap, None)], hm_put (cg_event_id gap) (cg_seen_at_ms gap) ledger, q)"
      using fresh(1) by (simp add: RecordCollectorGap log_step_def log_record_def)
    ultimately show ?thesis
      by (intro exI [of _ new] exI [of _ marks'] exI [of _ ledger']) (auto simp: marked_def)
  qed (use Cons in \<open>auto simp: log_step_def ledger_ids_def is_advance_def\<close>)
qed

lemma marked_events:
  "filter_map (\<lambda>e. if ep_ingest_seq e = Some q then Some (ep_event_id e) else None) events
    = marked q (map event_mark events)"
  by (induction events) (auto simp: marked_def event_mark_def)

text \<open>A batch that starts with its sequence number is applied only above the high-water mark.\<close>

lemma body_advances:
  assumes "v6_batch_body env batch db = Inr db'"
    and ops: "vb_operations batch = AdvanceIngestSequence q # later" and env: "env_ok env"
  shows "db_ingest_high_water db < q"
proof -
  obtain db1 db2 db3 db4 where 1: "try_fold (seed_missing_run env (vb_operations batch)) (vb_task_runs batch) db = Inr db1"
      and 2: "try_fold upsert_history_drain (vb_history_drains batch) db1 = Inr db2"
      and 3: "try_fold (insert_publication env) (vb_history_publications batch) db2 = Inr db3"
      and 4: "try_fold (apply_store_operation env (vb_history_event_drain batch)) (vb_operations batch) db3 = Inr db4"
    using assms(1) unfolding v6_batch_body_def Let_def
    by (simp only: try_then_Inr ensure_Inr) (elim exE conjE, rule that; assumption)
  have "log_of db3 = log_of db2" by (rule log_try_fold_same [OF 3 log_publication])
  also have "log_of db2 = log_of db1" by (rule log_try_fold_same [OF 2 log_manifest])
  also have "log_of db1 = log_of db" by (rule log_try_fold_same [OF 1 log_seed])
  finally have "db_ingest_high_water db3 = db_ingest_high_water db" by (simp add: log_of_def)
  moreover have "db_ingest_high_water db3 < q"
    using 4 by (auto simp: ops results advance_ingest_sequence_def split: if_splits)
  ultimately show ?thesis by simp
qed

lemma batch_replayed:
  assumes env: "env_ok env"
    and ops: "vb_operations batch = AdvanceIngestSequence q # later"
    and one: "\<not> list_ex is_advance later"
    and stamped: "stamped_event_ids q later [] = Some ids" and some: "ids \<noteq> []"
    and fresh: "distinct (ledger_ids later)" "\<forall>i \<in> set (ledger_ids later). hm_get (db_event_ledger db) i = None"
    and bounded: "log_bounded db"
    and first: "apply_v6_batch env batch db = (db', Inr ())"
  shows "apply_v6_batch env batch db' = (db', Inr ())" and "log_bounded db'"
proof -
  have stamped': "stamped_event_ids q (vb_operations batch) [] = Some ids" using stamped by (simp add: ops)
  show "apply_v6_batch env batch db' = (db', Inr ())" and "log_bounded db'"
  proof (atomize (full), cases "exact_v6_replay_is_already_durable env batch db = Inr True")
    case True
    with first show "apply_v6_batch env batch db' = (db', Inr ()) \<and> log_bounded db'"
      using bounded by (auto simp: apply_v6_batch_def transact_def)
  next
    case False
    have body: "v6_batch_body env batch db = Inr db'"
      using first False by (auto simp: apply_v6_batch_def transact_def try_then_Inr split: sum.splits if_splits)
    from log_body [OF body env]
    have log: "log_of db' = fold log_step later (map event_mark (db_events db), db_event_ledger db, q)"
      by (simp add: ops log_of_def log_step_def)
    have high: "db_ingest_high_water db < q" by (rule body_advances [OF body ops env])
    then have "marked q (map event_mark (db_events db)) = []"
      using bounded by (force simp: marked_def filter_map_Nil event_mark_def log_bounded_def)
    with log obtain marks' ledger' where m: "marked q marks' = ids"
        "set marks' \<subseteq> set (map event_mark (db_events db)) \<union> {(i, s) | i s. s \<in> {None, Some q}}"
        "log_of db' = (marks', ledger', q)"
      using stamped_log [OF stamped one fresh, of "map event_mark (db_events db)"] by auto
    then have db': "map event_mark (db_events db') = marks'" "db_ingest_high_water db' = q"
      by (simp_all add: log_of_def)
    have "filter_map (\<lambda>e. if ep_ingest_seq e = Some q then Some (ep_event_id e) else None) (db_events db') = ids"
      unfolding m(1) [symmetric] db'(1) [symmetric] by (rule marked_events)
    then have "exact_v6_replay_is_already_durable env batch db' = Inr True"
      using one stamped' some by (simp add: exact_v6_replay_is_already_durable_def ops db'(2)
          same_elements_def list_all_iff)
    then have "apply_v6_batch env batch db' = (db', Inr ())"
      by (simp add: apply_v6_batch_def transact_def)
    moreover have "log_bounded db'"
      unfolding log_bounded_def
    proof (intro ballI allI impI)
      fix e n
      assume e: "e \<in> set (db_events db')" and n: "ep_ingest_seq e = Some n"
      have "(ep_event_id e, Some n) \<in> set marks'"
        using e n unfolding db'(1) [symmetric] by (force simp: event_mark_def)
      with m(2) consider "n = q" | e' where "e' \<in> set (db_events db)" "ep_ingest_seq e' = Some n"
        by (auto simp: event_mark_def)
      then show "n \<le> db_ingest_high_water db'"
        by cases (use high bounded db'(2) in \<open>force simp: log_bounded_def\<close>)+
    qed
    ultimately show "apply_v6_batch env batch db' = (db', Inr ()) \<and> log_bounded db'" ..
  qed
qed

end
