(* ===== verification/Contraction_Laws.thy ===== *)
theory Contraction_Laws
  imports Store_Merge_Laws Merge_Laws
begin

text \<open>
  The merge of two runs is written twice: in memory (\<open>src/identity.rs\<close>) and against the edge tables
  (\<open>src/store/mod.rs\<close>). Contraction commutes with printing the identifiers: a merge the planner
  accepts is not refused by the edge tables, and both end with the same edges.
\<close>

section \<open>Edges of the model and rows of the database\<close>

definition edges_mirrored :: "store_env \<Rightarrow> domain_model \<Rightarrow> database \<Rightarrow> bool" where
  "edges_mirrored env m db \<longleftrightarrow>
     set (hm_keys (db_execution_edges db)) =
       (\<lambda>e. (se_run_text env (ee_parent_run_id e), se_run_text env (ee_child_run_id e)))
         ` set (dm_execution_edges m)
     \<and> set (hm_keys (db_dependency_edges db)) =
       (\<lambda>e. (se_run_text env (de_prerequisite_run_id e), se_run_text env (de_dependent_run_id e)))
         ` set (dm_dependency_edges m)"

lemma substitute_text:
  "env_ok env \<Longrightarrow> substitute_run_id (se_run_text env s) (se_run_text env a) (se_run_text env r)
     = se_run_text env (substitute r s a)"
  using run_text_inject by (auto simp: substitute_run_id_def substitute_def)

definition substituted_ends :: "string \<Rightarrow> string \<Rightarrow> string \<times> string \<Rightarrow> string \<times> string" where
  "substituted_ends s a = map_prod (substitute_run_id s a) (substitute_run_id s a)"

section \<open>The substitution of the store\<close>

text \<open>What the fold over the dispatch edges has collected: each child once, with its one parent.\<close>

definition collected :: "(string, string \<times> i64) hmap \<Rightarrow> (string \<times> string) set" where
  "collected acc = (\<lambda>(child, parent, _). (parent, child)) ` set acc"

lemma collected_put:
  assumes "hm_get acc child = None \<or> (\<exists>t. hm_get acc child = Some (parent, t))" and ok: "hm_ok acc"
  shows "collected (hm_put child (parent, t) acc) = insert (parent, child) (collected acc)"
proof -
  have in_put: "x \<in> set (hm_put child (parent, t) acc) \<longleftrightarrow> x = (child, parent, t) \<or> fst x \<noteq> child \<and> x \<in> set acc" for x
    using hm_get_eq_iff [OF hm_ok_put [OF ok], of child "(parent, t)" "fst x" "snd x"] hm_get_eq_iff [OF ok, of "fst x" "snd x"]
    by (cases x) (auto split: if_splits)
  have "parent' = parent" if pair: "(parent', child) \<in> collected acc" for parent'
  proof -
    obtain t' where "(child, parent', t') \<in> set acc" using pair by (auto simp: collected_def)
    then have "hm_get acc child = Some (parent', t')" using hm_get_eq_iff [OF ok] by simp
    with assms(1) show ?thesis by auto
  qed
  moreover have member: "(p, c) \<in> collected m \<longleftrightarrow> (\<exists>t'. (c, p, t') \<in> set m)" for p c m
    by (force simp: collected_def)
  ultimately have "(p, c) \<in> collected (hm_put child (parent, t) acc) \<longleftrightarrow>
      (p, c) = (parent, child) \<or> (p, c) \<in> collected acc" for p c
    unfolding member in_put by (cases "c = child") auto
  then show ?thesis by (intro set_eqI) (simp add: split_paired_all)
qed

definition one_parent :: "(string \<times> string) set \<Rightarrow> bool" where
  "one_parent E \<longleftrightarrow> (\<forall>(p, c) \<in> E. p \<noteq> c \<and> (\<forall>(q, d) \<in> E. c = d \<longrightarrow> p = q))"

lemma execution_fold:
  assumes "hm_ok acc" and "one_parent (collected acc \<union> substituted_ends s a ` fst ` set rows)"
  shows "\<exists>acc'. try_fold (substitute_execution_edge s a) rows acc = Inr acc' \<and> hm_ok acc'
    \<and> collected acc' = collected acc \<union> substituted_ends s a ` fst ` set rows"
  using assms
proof (induction rows arbitrary: acc)
  case (Cons row rows)
  obtain p c t where row: "row = ((p, c), t)" by (metis surj_pair)
  let ?p = "substitute_run_id s a p" and ?c = "substitute_run_id s a c"
  let ?E = "collected acc \<union> substituted_ends s a ` fst ` set (row # rows)"
  have e: "(?p, ?c) \<in> ?E" by (simp add: row substituted_ends_def)
  have ne: "?p \<noteq> ?c" and one: "\<And>q. (q, ?c) \<in> ?E \<Longrightarrow> q = ?p"
    using Cons.prems(2) e unfolding one_parent_def by blast+
  have known: "hm_get acc ?c = None \<or> (\<exists>t. hm_get acc ?c = Some (?p, t))"
  proof (cases "hm_get acc ?c")
    case (Some v)
    then obtain q u where v: "v = (q, u)" by (cases v)
    then have "(q, ?c) \<in> collected acc"
      using map_of_SomeD [OF Some] by (force simp: collected_def)
    with one have "q = ?p" by blast
    with Some v show ?thesis by blast
  qed simp
  then obtain u where step: "substitute_execution_edge s a row acc = Inr (hm_put ?c (?p, u) acc)"
    using ne by (auto simp: row substitute_execution_edge_def Let_def)
  have E: "collected (hm_put ?c (?p, u) acc) \<union> substituted_ends s a ` fst ` set rows = ?E"
    by (auto simp: collected_put [OF known Cons.prems(1)] row substituted_ends_def)
  obtain acc' where "try_fold (substitute_execution_edge s a) rows (hm_put ?c (?p, u) acc) = Inr acc'"
      "hm_ok acc'" "collected acc' = ?E"
    using Cons.IH [OF hm_ok_put [OF Cons.prems(1)], of ?c "(?p, u)"] Cons.prems(2) unfolding E by blast
  then show ?case using step by simp
qed simp

lemma dependency_fold:
  assumes "\<forall>(p, d) \<in> substituted_ends s a ` fst ` set rows. p \<noteq> d"
  shows "\<exists>acc'. try_fold (substitute_dependency_edge s a) rows acc = Inr acc'
    \<and> set (hm_keys acc') = set (hm_keys acc) \<union> substituted_ends s a ` fst ` set rows"
  using assms
proof (induction rows arbitrary: acc)
  case (Cons row rows)
  obtain p c t where row: "row = ((p, c), t)" by (metis surj_pair)
  let ?e = "substituted_ends s a (p, c)"
  have "fst ?e \<noteq> snd ?e" using Cons.prems by (auto simp: row substituted_ends_def)
  then obtain u where step: "substitute_dependency_edge s a row acc = Inr (hm_put ?e u acc)"
    by (auto simp: row substitute_dependency_edge_def Let_def substituted_ends_def)
  obtain acc' where "try_fold (substitute_dependency_edge s a) rows (hm_put ?e u acc) = Inr acc'"
      "set (hm_keys acc') = set (hm_keys (hm_put ?e u acc)) \<union> substituted_ends s a ` fst ` set rows"
    using Cons.IH [of "hm_put ?e u acc"] Cons.prems by auto
  then show ?case using step by (auto simp: row hm_keys_put simp del: set_map)
qed simp

section \<open>The two contractions agree\<close>

lemma mirrored_substitution:
  assumes env: "env_ok env" and mirror: "edges_mirrored env m db" and pre: "preflight_merge m s a = Inr g"
  defines "S \<equiv> se_run_text env s" and "A \<equiv> se_run_text env a"
  obtains execution_edges dependency_edges
  where "substituted_execution_edges S A db = Inr execution_edges"
    and "(\<lambda>(p, c, _). (p, c)) ` set execution_edges =
      (\<lambda>e. (se_run_text env (ee_parent_run_id e), se_run_text env (ee_child_run_id e)))
        ` set (gr_execution_edges g)"
    and "substituted_dependency_edges S A db = Inr dependency_edges"
    and "(\<lambda>(p, c, _). (p, c)) ` set dependency_edges =
      (\<lambda>e. (se_run_text env (de_prerequisite_run_id e), se_run_text env (de_dependent_run_id e)))
        ` set (gr_dependency_edges g)"
proof -
  note d = preflight_merge_D [OF pre]
  let ?ee = "\<lambda>e. (se_run_text env (ee_parent_run_id e), se_run_text env (ee_child_run_id e))"
  let ?de = "\<lambda>e. (se_run_text env (de_prerequisite_run_id e), se_run_text env (de_dependent_run_id e))"
  have xs: "substituted_ends S A ` fst ` set (db_execution_edges db) = ?ee ` set (gr_execution_edges g)"
    using mirror by (simp add: edges_mirrored_def image_image d(4) substituted_ends_def S_def A_def
        substitute_text [OF env] contract_execution_def)
  have ds: "substituted_ends S A ` fst ` set (db_dependency_edges db) = ?de ` set (gr_dependency_edges g)"
    using mirror by (simp add: edges_mirrored_def image_image d(6) substituted_ends_def S_def A_def
        substitute_text [OF env] contract_dependency_def)
  note x = merged_edges(1) [OF pre]
  have self: "ee_parent_run_id e \<noteq> ee_child_run_id e" if "e \<in> set (gr_execution_edges g)" for e
    using dispatch_graph_no_self [OF x that] .
  have parent: "ee_parent_run_id e = ee_parent_run_id f" if "e \<in> set (gr_execution_edges g)"
      "f \<in> set (gr_execution_edges g)" "ee_child_run_id e = ee_child_run_id f" for e f
    using x that unfolding dispatch_graph_ok_def by blast
  have "one_parent (?ee ` set (gr_execution_edges g))"
    unfolding one_parent_def by (clarsimp simp: run_text_inject [OF env] self) (rule parent)
  then obtain acc where acc: "try_fold (substitute_execution_edge S A) (db_execution_edges db) [] = Inr acc"
      "collected acc = ?ee ` set (gr_execution_edges g)"
    using execution_fold [of "[]" S A "db_execution_edges db"] xs by (auto simp: collected_def)
  have "\<forall>(p, q) \<in> ?de ` set (gr_dependency_edges g). p \<noteq> q"
    using dependency_graph_no_self [OF merged_edges(2) [OF pre]] by (auto simp: run_text_inject [OF env])
  then obtain dacc where dacc: "try_fold (substitute_dependency_edge S A) (db_dependency_edges db) [] = Inr dacc"
      "set (hm_keys dacc) = ?de ` set (gr_dependency_edges g)"
    using dependency_fold [of S A "db_dependency_edges db" "[]"] ds by auto
  show thesis
  proof (rule that)
    show "substituted_execution_edges S A db = Inr (sort_key (\<lambda>(parent, child, _). (parent, child))
          (map (\<lambda>(child, parent, created_at_ms). (parent, child, created_at_ms)) acc))"
      by (simp add: substituted_execution_edges_def acc(1))
    show "substituted_dependency_edges S A db = Inr (sort_key (\<lambda>(prerequisite, dependent, _). (prerequisite, dependent))
          (map (\<lambda>((prerequisite, dependent), created_at_ms). (prerequisite, dependent, created_at_ms)) dacc))"
      by (simp add: substituted_dependency_edges_def dacc(1))
    show "(\<lambda>(p, c, _). (p, c)) ` set (sort_key (\<lambda>(parent, child, _). (parent, child))
          (map (\<lambda>(child, parent, created_at_ms). (parent, child, created_at_ms)) acc)) = ?ee ` set (gr_execution_edges g)"
      unfolding acc(2) [symmetric] collected_def by (simp add: image_image case_prod_beta)
    show "(\<lambda>(p, c, _). (p, c)) ` set (sort_key (\<lambda>(prerequisite, dependent, _). (prerequisite, dependent))
          (map (\<lambda>((prerequisite, dependent), created_at_ms). (prerequisite, dependent, created_at_ms)) dacc))
        = ?de ` set (gr_dependency_edges g)"
      unfolding dacc(2) [symmetric] by (simp add: image_image case_prod_beta)
  qed
qed

lemma merge_mirrored:
  assumes env: "env_ok env" and mirror: "edges_mirrored env m db" and pre: "preflight_merge m s a = Inr g"
    and merge: "merge_task_runs env s a drain db = Inr db'"
  shows "edges_mirrored env (merge_in_memory s a g now m) db'"
proof -
  obtain xs ds
    where x: "substituted_execution_edges (se_run_text env s) (se_run_text env a) db = Inr xs"
      "(\<lambda>(p, c, _). (p, c)) ` set xs = (\<lambda>e. (se_run_text env (ee_parent_run_id e), se_run_text env (ee_child_run_id e)))
        ` set (gr_execution_edges g)"
    and d: "substituted_dependency_edges (se_run_text env s) (se_run_text env a) db = Inr ds"
      "(\<lambda>(p, c, _). (p, c)) ` set ds = (\<lambda>e. (se_run_text env (de_prerequisite_run_id e), se_run_text env (de_dependent_run_id e)))
        ` set (gr_dependency_edges g)"
    by (rule mirrored_substitution [OF env mirror pre]) (rule that; assumption)
  obtain xs' ds' where x': "substituted_execution_edges (se_run_text env s) (se_run_text env a) db = Inr xs'"
      "db_execution_edges db' = map (\<lambda>(p, c, t). ((p, c), t)) xs'"
    and d': "substituted_dependency_edges (se_run_text env s) (se_run_text env a) db = Inr ds'"
      "db_dependency_edges db' = map (\<lambda>(p, c, t). ((p, c), t)) ds'"
    by (rule merge_shape [OF merge env]) (rule that; assumption)
  from x(1) x'(1) d(1) d'(1) have eq: "xs' = xs" "ds' = ds" by simp_all
  have keys: "set (hm_keys (map (\<lambda>(p, c, t). ((p, c), t)) es)) = (\<lambda>(p, c, _). (p, c)) ` set es" for es :: "(string \<times> string \<times> i64) list"
    by (simp add: image_image case_prod_beta)
  show ?thesis
    unfolding edges_mirrored_def merge_tables(5,6) x'(2) d'(2) eq keys x(2) d(2) by simp
qed

end
