(* ===== verification/Activity.thy ===== *)
theory Activity
  imports Publication
begin

text \<open>
  Default visibility of task runs (\<open>src/activity.rs\<close>). The process-wide display timing is a
  record the definitions take as an argument. The closure of the visible set over execution
  ancestors is a loop that repeats until it adds nothing; it is proved to end on every model
  whose runs stand under their own identifiers, with the least closed set as its result.
\<close>

definition default_terminal_visibility_ms :: i64 where "default_terminal_visibility_ms = 60 * 60 * 1000"
definition hook_only_stale_visibility_ms :: i64 where
  "hook_only_stale_visibility_ms = 24 * 60 * 60 * 1000"

record display_timing =
  dt_stall_warn_ms :: i64
  dt_ghost_visibility_ms :: i64
  dt_headless_inactivity_ms :: i64

definition display_timing_default :: display_timing where
  "display_timing_default = \<lparr>dt_stall_warn_ms = 300000, dt_ghost_visibility_ms = 300000,
     dt_headless_inactivity_ms = 600000\<rparr>"

definition configure_display_timing :: "i64 \<Rightarrow> i64 \<Rightarrow> i64 \<Rightarrow> display_timing \<Rightarrow> display_timing" where
  "configure_display_timing stall_warn_ms ghost_visibility_ms headless_inactivity_ms timing =
     timing\<lparr>dt_stall_warn_ms := stall_warn_ms, dt_ghost_visibility_ms := ghost_visibility_ms,
       dt_headless_inactivity_ms := headless_inactivity_ms\<rparr>"

section \<open>Policy of one run\<close>

definition runs_with_executions :: "domain_model \<Rightarrow> run_id list" where
  "runs_with_executions m = remdups (map ex_task_run_id (executions m))"

definition is_hook_only_stale_task_run :: "task_run \<Rightarrow> run_id list \<Rightarrow> i64 \<Rightarrow> bool" where
  "is_hook_only_stale_task_run run with_executions now_ms =
     (let hook_only = is_controller (tr_key run) \<and> tr_run_id run \<notin> set with_executions
      in hook_only \<and> opt_is_some_and
           (\<lambda>updated. i64_saturating_add updated hook_only_stale_visibility_ms \<le> now_ms)
           (tr_updated_at_ms run))"

definition is_default_visibility_policy_eligible ::
  "task_run \<Rightarrow> run_id list \<Rightarrow> i64 option \<Rightarrow> i64 \<Rightarrow> i64 \<Rightarrow> bool" where
  "is_default_visibility_policy_eligible run with_executions lifecycle_end_ms now_ms ghost_ms =
     (if tr_dismissed_at_ms run \<noteq> None then False
      else if lifecycle_end_ms = None \<and> (case tr_key run of
             Provisional _ start_ms _ \<Rightarrow>
               i64_saturating_add
                 (opt_unwrap_or start_ms (opt_or (tr_updated_at_ms run) (tr_created_at_ms run)))
                 ghost_ms \<le> now_ms
           | _ \<Rightarrow> False) then False
      else if is_hook_only_stale_task_run run with_executions now_ms then False
      else True)"

definition is_default_visible_task_run_with_ghost_window ::
  "domain_model \<Rightarrow> task_run \<Rightarrow> run_id list \<Rightarrow> i64 \<Rightarrow> i64 \<Rightarrow> bool" where
  "is_default_visible_task_run_with_ghost_window m run with_executions now_ms ghost_ms =
     (let lifecycle_end_ms = effective_lifecycle_end_ms m run in
      if \<not> is_default_visibility_policy_eligible run with_executions lifecycle_end_ms now_ms ghost_ms
      then False
      else opt_is_none_or
        (\<lambda>end_ms. now_ms < i64_saturating_add end_ms default_terminal_visibility_ms)
        lifecycle_end_ms)"

definition is_default_visible_task_run ::
  "display_timing \<Rightarrow> domain_model \<Rightarrow> task_run \<Rightarrow> run_id list \<Rightarrow> i64 \<Rightarrow> bool" where
  "is_default_visible_task_run timing m run with_executions now_ms =
     is_default_visible_task_run_with_ghost_window m run with_executions now_ms
       (dt_ghost_visibility_ms timing)"

definition is_expired_lifecycle_ancestor ::
  "display_timing \<Rightarrow> domain_model \<Rightarrow> task_run \<Rightarrow> run_id list \<Rightarrow> i64 \<Rightarrow> bool" where
  "is_expired_lifecycle_ancestor timing m run with_executions now_ms =
     (let lifecycle_end_ms = effective_lifecycle_end_ms m run
      in is_default_visibility_policy_eligible run with_executions lifecycle_end_ms now_ms
           (dt_ghost_visibility_ms timing)
         \<and> opt_is_some_and
           (\<lambda>end_ms. i64_saturating_add end_ms default_terminal_visibility_ms \<le> now_ms)
           lifecycle_end_ms)"

section \<open>The closure over execution ancestors\<close>

definition visible_ancestors ::
  "display_timing \<Rightarrow> domain_model \<Rightarrow> i64 \<Rightarrow> run_id list \<Rightarrow> run_id list" where
  "visible_ancestors timing m now_ms visible =
     map tr_run_id
       (filter (\<lambda>run. is_expired_lifecycle_ancestor timing m run (runs_with_executions m) now_ms)
         (filter_map (get_task_run m)
           (filter (\<lambda>r. r \<notin> set visible)
             (map ee_parent_run_id
               (filter (\<lambda>e. ee_child_run_id e \<in> set visible) (dm_execution_edges m))))))"

partial_function (option) visible_closure ::
  "display_timing \<Rightarrow> domain_model \<Rightarrow> i64 \<Rightarrow> run_id list \<Rightarrow> run_id list option" where
  "visible_closure timing m now_ms visible =
     (let ancestors = visible_ancestors timing m now_ms visible in
      if ancestors = [] then Some visible
      else visible_closure timing m now_ms (hs_extend visible ancestors))"

definition initially_visible :: "display_timing \<Rightarrow> domain_model \<Rightarrow> i64 \<Rightarrow> run_id list" where
  "initially_visible timing m now_ms =
     remdups (map tr_run_id
       (filter (\<lambda>run. is_default_visible_task_run timing m run (runs_with_executions m) now_ms)
         (task_runs m)))"

definition default_visible_task_run_ids ::
  "display_timing \<Rightarrow> domain_model \<Rightarrow> i64 \<Rightarrow> run_id list option" where
  "default_visible_task_run_ids timing m now_ms =
     visible_closure timing m now_ms (initially_visible timing m now_ms)"

definition default_visible_task_run_count ::
  "display_timing \<Rightarrow> domain_model \<Rightarrow> i64 \<Rightarrow> nat option" where
  "default_visible_task_run_count timing m now_ms =
     map_option length (default_visible_task_run_ids timing m now_ms)"

section \<open>What the closure computes\<close>

text \<open>The specification: start from the visible runs, add every expired ancestor of a visible run.\<close>

inductive visible_run :: "display_timing \<Rightarrow> domain_model \<Rightarrow> i64 \<Rightarrow> run_id set \<Rightarrow> run_id \<Rightarrow> bool"
  for timing m now_ms base where
  visible_base: "r \<in> base \<Longrightarrow> visible_run timing m now_ms base r"
| visible_ancestor: "visible_run timing m now_ms base (ee_child_run_id e) \<Longrightarrow>
    e \<in> set (dm_execution_edges m) \<Longrightarrow> get_task_run m (ee_parent_run_id e) = Some run \<Longrightarrow>
    is_expired_lifecycle_ancestor timing m run (runs_with_executions m) now_ms \<Longrightarrow>
    visible_run timing m now_ms base (ee_parent_run_id e)"

lemma visible_ancestors_set:
  assumes "runs_keyed m"
  shows "set (visible_ancestors timing m now_ms visible) =
    {r. r \<notin> set visible \<and> (\<exists>e \<in> set (dm_execution_edges m). ee_parent_run_id e = r
        \<and> ee_child_run_id e \<in> set visible)
      \<and> (\<exists>run. get_task_run m r = Some run
          \<and> is_expired_lifecycle_ancestor timing m run (runs_with_executions m) now_ms)}"
  using assms unfolding visible_ancestors_def runs_keyed_def
  by (auto simp: filter_map_set) (force simp: filter_map_set image_iff)+

lemma visible_ancestors_fresh:
  assumes "runs_keyed m"
  shows "set (visible_ancestors timing m now_ms visible) \<subseteq> set (hm_keys (dm_task_runs m)) - set visible"
  unfolding visible_ancestors_set [OF assms]
  by (auto simp: get_task_run_def dest: map_of_SomeD intro: rev_image_eqI)

lemma visible_closure_works:
  assumes keyed: "runs_keyed m" and "distinct visible"
    and "\<And>r. r \<in> base \<Longrightarrow> r \<in> set visible"
    and "\<And>r. r \<in> set visible \<Longrightarrow> visible_run timing m now_ms base r"
  shows "\<exists>v. visible_closure timing m now_ms visible = Some v \<and> distinct v
    \<and> (\<forall>r. r \<in> set v \<longleftrightarrow> visible_run timing m now_ms base r)"
  using assms(2-)
proof (induction "card (set (hm_keys (dm_task_runs m)) - set visible)" arbitrary: visible
    rule: less_induct)
  case less
  let ?a = "visible_ancestors timing m now_ms visible"
  have sub: "set ?a \<subseteq> set (hm_keys (dm_task_runs m)) - set visible"
    by (rule visible_ancestors_fresh [OF keyed])
  show ?case
  proof (cases "?a = []")
    case True
    have "r \<in> set visible" if "visible_run timing m now_ms base r" for r
      using that
    proof induction
      case (visible_base r)
      with less.prems show ?case by blast
    next
      case (visible_ancestor e run)
      have "set ?a = {}" using True by simp
      with visible_ancestor show ?case unfolding visible_ancestors_set [OF keyed] by blast
    qed
    then show ?thesis
      using True less.prems by (subst visible_closure.simps) (auto simp: Let_def)
  next
    case False
    then have "set (hm_keys (dm_task_runs m)) - set (hs_extend visible ?a)
        \<subset> set (hm_keys (dm_task_runs m)) - set visible"
      using sub by (cases ?a) auto
    then have smaller: "card (set (hm_keys (dm_task_runs m)) - set (hs_extend visible ?a))
        < card (set (hm_keys (dm_task_runs m)) - set visible)"
      by (intro psubset_card_mono) auto
    have "visible_run timing m now_ms base r" if "r \<in> set (hs_extend visible ?a)" for r
    proof (cases "r \<in> set visible")
      case True
      with less.prems show ?thesis by blast
    next
      case False
      with that have "r \<in> set ?a" by simp
      then show ?thesis
        using less.prems(3) unfolding visible_ancestors_set [OF keyed]
        by (auto intro: visible_ancestor)
    qed
    with less.hyps [OF smaller] less.prems False show ?thesis
      by (subst visible_closure.simps) (auto simp: Let_def)
  qed
qed

lemma visible_closure_least:
  assumes "runs_keyed m"
  shows "\<exists>v. default_visible_task_run_ids timing m now_ms = Some v \<and> distinct v
    \<and> (\<forall>r. r \<in> set v \<longleftrightarrow>
        visible_run timing m now_ms (set (initially_visible timing m now_ms)) r)"
  unfolding default_visible_task_run_ids_def
  by (rule visible_closure_works [OF assms])
    (auto simp: initially_visible_def intro: visible_base)

end
