(* ===== verification/Status.thy ===== *)
theory Status
  imports Activity
begin

text \<open>
  Run status of \<open>src/status.rs\<close>: the evidence the read model selects from executions and Agent
  nodes, and the precedence of semantic, lifecycle and runtime evidence in one display status.
  The code scans hash maps in an unspecified order; the selection is proved to depend on the
  content of the tables only.
\<close>

section \<open>Display status\<close>

datatype task_display_status =
  ShowQueued | ShowWorking | ShowIdle | ShowBlocked | ShowDone | ShowError | ShowCancelled | ShowUnknown

fun task_display_label :: "task_display_status \<Rightarrow> string" where
  "task_display_label ShowQueued = ''queued''"
| "task_display_label ShowWorking = ''working''"
| "task_display_label ShowIdle = ''idle''"
| "task_display_label ShowBlocked = ''blocked''"
| "task_display_label ShowDone = ''done''"
| "task_display_label ShowError = ''error''"
| "task_display_label ShowCancelled = ''cancelled''"
| "task_display_label ShowUnknown = ''unknown''"

datatype status_source =
  FromTaskState | FromNativeSessionLifecycle | FromPaneAgentStatus | FromExecutionState
| FromAgentNodeState | FromFallback

fun status_source_label :: "status_source \<Rightarrow> string" where
  "status_source_label FromTaskState = ''task_state''"
| "status_source_label FromNativeSessionLifecycle = ''native_session_lifecycle''"
| "status_source_label FromPaneAgentStatus = ''pane_agent_status''"
| "status_source_label FromExecutionState = ''execution_state''"
| "status_source_label FromAgentNodeState = ''agent_node_state''"
| "status_source_label FromFallback = ''fallback''"

record display_status =
  ds_status :: task_display_status
  ds_source :: status_source
  ds_stalled :: bool

definition display_status_new :: "task_display_status \<Rightarrow> status_source \<Rightarrow> display_status" where
  "display_status_new status source = \<lparr>ds_status = status, ds_source = source, ds_stalled = False\<rparr>"

definition with_stalled :: "bool \<Rightarrow> display_status \<Rightarrow> display_status" where
  "with_stalled stalled self =
     (if ds_status self \<notin> {ShowDone, ShowError, ShowCancelled}
      then self\<lparr>ds_stalled := ds_stalled self \<or> stalled\<rparr> else self)"

definition with_source :: "status_source \<Rightarrow> display_status \<Rightarrow> display_status" where
  "with_source source self = self\<lparr>ds_source := source\<rparr>"

datatype run_rate_activity = RateWorking | RatePaused

section \<open>Evidence\<close>

record agent_status_evidence =
  ev_state :: "exec_state option"
  ev_last_activity_at_ms :: "i64 option"
  ev_agent_node_id :: string

record status_read_model =
  sr_pane_executions :: "(run_id, (string, exec_state) hmap) hmap"
  sr_root_agents :: "(run_id, agent_status_evidence) hmap"
  sr_durable_native_agents :: "(run_id, agent_status_evidence) hmap"

text \<open>\<open>entry(key).and_modify(..).or_insert(candidate)\<close> with a replacement test.\<close>

definition select_evidence ::
  "('v \<Rightarrow> 'v \<Rightarrow> bool) \<Rightarrow> 'k \<Rightarrow> 'v \<Rightarrow> ('k, 'v) hmap \<Rightarrow> ('k, 'v) hmap" where
  "select_evidence replaces k candidate selected =
     (case hm_get selected k of
        None \<Rightarrow> hm_put k candidate selected
      | Some current \<Rightarrow> if replaces candidate current then hm_put k candidate selected else selected)"

definition newer_agent :: "agent_status_evidence \<Rightarrow> agent_status_evidence \<Rightarrow> bool" where
  "newer_agent candidate current \<longleftrightarrow>
     (ev_last_activity_at_ms current, ev_agent_node_id current)
       < (ev_last_activity_at_ms candidate, ev_agent_node_id candidate)"

definition insert_newest_agent_evidence ::
  "run_id \<Rightarrow> agent_status_evidence \<Rightarrow> (run_id, agent_status_evidence) hmap
     \<Rightarrow> (run_id, agent_status_evidence) hmap" where
  "insert_newest_agent_evidence = select_evidence newer_agent"

definition preferred_execution :: "bool \<times> string \<times> exec_state \<Rightarrow> bool \<times> string \<times> exec_state \<Rightarrow> bool" where
  "preferred_execution candidate selected \<longleftrightarrow>
     (fst candidate, fst (snd candidate)) < (fst selected, fst (snd selected))"

definition task_run_provider :: "task_run \<Rightarrow> provider option" where
  "task_run_provider run =
     (case tr_key run of Native p _ \<Rightarrow> Some p | NativePath p _ \<Rightarrow> Some p | _ \<Rightarrow> None)"

definition agent_node_is_display_stale :: "display_timing \<Rightarrow> agent_node \<Rightarrow> i64 \<Rightarrow> bool" where
  "agent_node_is_display_stale timing agent now_ms \<longleftrightarrow>
     an_state agent \<in> {None, Some ExecUnknown, Some ExecEnded}
     \<and> opt_is_some_and
          (\<lambda>last. dt_headless_inactivity_ms timing \<le> i64_saturating_sub now_ms last)
          (an_last_activity_at_ms agent)"

definition live_line_event_kind :: string where "live_line_event_kind = ''lane_live_line''"

definition agent_evidence :: "agent_node \<Rightarrow> agent_status_evidence" where
  "agent_evidence agent =
     \<lparr>ev_state = an_state agent, ev_last_activity_at_ms = an_last_activity_at_ms agent,
      ev_agent_node_id = an_agent_node_id agent\<rparr>"

definition is_live_line :: "agent_node \<Rightarrow> bool" where
  "is_live_line agent \<longleftrightarrow> an_last_event_kind agent = Some live_line_event_kind"

section \<open>The read model\<close>

definition execution_candidate :: "execution \<Rightarrow> bool \<times> string \<times> exec_state" where
  "execution_candidate e = (exec_is_terminal (ex_state e), ex_execution_id e, ex_state e)"

definition selected_executions ::
  "run_id option \<Rightarrow> execution list \<Rightarrow> (run_id \<times> string, bool \<times> string \<times> exec_state) hmap" where
  "selected_executions run es =
     fold (\<lambda>e selected.
         if opt_is_some_and (\<lambda>r. ex_task_run_id e \<noteq> r) run then selected
         else select_evidence preferred_execution (ex_task_run_id e, ex_pane_id e)
                (execution_candidate e) selected)
       es []"

definition group_executions ::
  "(run_id \<times> string, bool \<times> string \<times> exec_state) hmap \<Rightarrow> (run_id, (string, exec_state) hmap) hmap" where
  "group_executions selected =
     fold (\<lambda>((r, pane), (_, _, state)) panes.
         hm_put r (hm_put pane state (opt_unwrap_or [] (hm_get panes r))) panes)
       selected []"

definition native_aliases_of :: "domain_model \<Rightarrow> (provider \<times> string, run_id) hmap" where
  "native_aliases_of m =
     fold (\<lambda>(key, r) aliases. case key of Native p sid \<Rightarrow> hm_put (p, sid) r aliases | _ \<Rightarrow> aliases)
       (dm_run_ids_by_key m) []"

definition durable_target ::
  "(provider \<times> string, run_id) hmap option \<Rightarrow> agent_node \<Rightarrow> run_id option" where
  "durable_target aliases agent =
     (case aliases of
        None \<Rightarrow> None
      | Some aliases \<Rightarrow>
          if is_live_line agent then None
          else case opt_filter (\<lambda>sid. sid \<noteq> []) (an_native_session_id agent) of
                 None \<Rightarrow> None
               | Some sid \<Rightarrow> hm_get aliases (an_provider agent, sid))"

definition root_evidence_skipped ::
  "display_timing \<Rightarrow> domain_model \<Rightarrow> i64 \<Rightarrow> run_id option \<Rightarrow> agent_node \<Rightarrow> bool" where
  "root_evidence_skipped timing m now_ms run agent \<longleftrightarrow>
     opt_is_some_and (\<lambda>r. an_task_run_id agent \<noteq> r) run
     \<or> an_parent_agent_node_id agent \<noteq> None
     \<or> is_live_line agent
     \<or> agent_node_is_display_stale timing agent now_ms
     \<or> opt_is_some_and (\<lambda>p. p \<noteq> an_provider agent)
          (case get_task_run m (an_task_run_id agent) of None \<Rightarrow> None | Some t \<Rightarrow> task_run_provider t)"

definition scan_agent ::
  "display_timing \<Rightarrow> domain_model \<Rightarrow> i64 \<Rightarrow> run_id option \<Rightarrow> (provider \<times> string, run_id) hmap option
     \<Rightarrow> agent_node \<Rightarrow> (run_id, agent_status_evidence) hmap \<times> (run_id, agent_status_evidence) hmap
     \<Rightarrow> (run_id, agent_status_evidence) hmap \<times> (run_id, agent_status_evidence) hmap" where
  "scan_agent timing m now_ms run aliases agent st =
     (case st of (root, durable) \<Rightarrow>
        let durable = (case durable_target aliases agent of
              None \<Rightarrow> durable
            | Some target \<Rightarrow> insert_newest_agent_evidence target (agent_evidence agent) durable)
        in if root_evidence_skipped timing m now_ms run agent then (root, durable)
           else (insert_newest_agent_evidence (an_task_run_id agent) (agent_evidence agent) root,
                 durable))"

definition from_model_filtered ::
  "display_timing \<Rightarrow> domain_model \<Rightarrow> i64 \<Rightarrow> run_id option \<Rightarrow> status_read_model" where
  "from_model_filtered timing m now_ms run =
     (let pane_executions = group_executions (selected_executions run (executions m));
          aliases = (if run = None then Some (native_aliases_of m) else None);
          (root, durable) = fold (scan_agent timing m now_ms run aliases) (agent_nodes m) ([], [])
      in \<lparr>sr_pane_executions = pane_executions, sr_root_agents = root,
          sr_durable_native_agents = durable\<rparr>)"

definition from_model :: "display_timing \<Rightarrow> domain_model \<Rightarrow> i64 \<Rightarrow> status_read_model" where
  "from_model timing m now_ms = from_model_filtered timing m now_ms None"

section \<open>Status of one run\<close>

definition durable_ended_status :: "status_read_model \<Rightarrow> run_id \<Rightarrow> bool \<Rightarrow> display_status option" where
  "durable_ended_status self r inactive =
     (case hm_get (sr_durable_native_agents self) r of
        None \<Rightarrow> None
      | Some evidence \<Rightarrow>
          if ev_state evidence = Some ExecEnded
          then Some (with_stalled inactive (display_status_new ShowDone FromAgentNodeState))
          else None)"

definition pane_agent_display_status :: "pane_agent_status \<Rightarrow> display_status" where
  "pane_agent_display_status s =
     display_status_new
       (case s of PaneIdle \<Rightarrow> ShowIdle | PaneWorking \<Rightarrow> ShowWorking | PaneBlocked \<Rightarrow> ShowBlocked
        | PaneDone \<Rightarrow> ShowDone | PaneUnknown \<Rightarrow> ShowUnknown)
       FromPaneAgentStatus"

definition execution_display_status :: "exec_state \<Rightarrow> bool \<Rightarrow> display_status" where
  "execution_display_status state ended_is_done =
     (let (status, stalled) =
        (case state of
           ExecUnknown \<Rightarrow> (ShowUnknown, False)
         | ExecIdle \<Rightarrow> (ShowIdle, False)
         | ExecWorking \<Rightarrow> (ShowWorking, False)
         | ExecBlocked \<Rightarrow> (ShowBlocked, False)
         | ExecStale _ \<Rightarrow> (ShowUnknown, True)
         | ExecEnded \<Rightarrow> if ended_is_done then (ShowDone, False) else (ShowUnknown, False))
      in \<lparr>ds_status = status, ds_source = FromExecutionState, ds_stalled = stalled\<rparr>)"

definition native_agent_display_status :: "agent_node \<Rightarrow> display_status" where
  "native_agent_display_status agent =
     (case an_state agent of
        None \<Rightarrow> display_status_new ShowUnknown FromFallback
      | Some state \<Rightarrow> with_source FromAgentNodeState (execution_display_status state True))"

definition runtime_display_status ::
  "status_read_model \<Rightarrow> domain_model \<Rightarrow> task_run \<Rightarrow> string option \<Rightarrow> bool \<Rightarrow> display_status" where
  "runtime_display_status self m run pane inactive =
     (case (case pane of None \<Rightarrow> None
            | Some p \<Rightarrow> map_option (\<lambda>state. (p, state))
                (case hm_get (sr_pane_executions self) (tr_run_id run) of
                   None \<Rightarrow> None | Some es \<Rightarrow> hm_get es p)) of
        Some (p, state) \<Rightarrow>
          (case (if \<not> exec_is_terminal state then get_pane_agent_status m p else None) of
             Some status \<Rightarrow> with_stalled inactive (pane_agent_display_status status)
           | None \<Rightarrow> with_stalled inactive (execution_display_status state False))
      | None \<Rightarrow>
          (case (case hm_get (sr_root_agents self) (tr_run_id run) of
                   None \<Rightarrow> None | Some evidence \<Rightarrow> ev_state evidence) of
             Some state \<Rightarrow> with_stalled inactive
               (with_source FromAgentNodeState (execution_display_status state False))
           | None \<Rightarrow> with_stalled inactive (display_status_new ShowWorking FromTaskState)))"

definition task_display_status ::
  "status_read_model \<Rightarrow> domain_model \<Rightarrow> task_run \<Rightarrow> string option \<Rightarrow> bool \<Rightarrow> display_status" where
  "task_display_status self m run pane inactive =
     (let durable = durable_ended_status self (tr_run_id run) inactive;
          semantic = (\<lambda>status. with_stalled inactive (display_status_new status FromTaskState));
          native = (\<lambda>status. with_stalled inactive (display_status_new status FromNativeSessionLifecycle))
      in case tr_state run of
           Completed \<Rightarrow> semantic ShowDone
         | Failed \<Rightarrow> semantic ShowError
         | Cancelled \<Rightarrow> semantic ShowCancelled
         | EndedUnknown \<Rightarrow> opt_unwrap_or (semantic ShowUnknown) durable
         | _ \<Rightarrow>
           (case (case get_v6_state m (tr_run_id run) of None \<Rightarrow> None
                  | Some state \<Rightarrow> v6_native_session_end state) of
              Some end \<Rightarrow>
                (case ne_status end of
                   EndDone \<Rightarrow> native ShowDone
                 | EndError \<Rightarrow> native ShowError
                 | EndCancelled \<Rightarrow> native ShowCancelled
                 | EndUnknown \<Rightarrow> opt_unwrap_or (native ShowUnknown) durable)
            | None \<Rightarrow>
                (if tr_state run = Queued then semantic ShowQueued
                 else if tr_state run = Blocked then semantic ShowBlocked
                 else runtime_display_status self m run pane inactive)))"

section \<open>Rate activity\<close>

definition execution_is_working :: "domain_model \<Rightarrow> string \<times> exec_state \<Rightarrow> bool" where
  "execution_is_working m entry =
     (case entry of (pane, state) \<Rightarrow>
        if exec_is_terminal state then False
        else case get_pane_agent_status m pane of
               Some PaneWorking \<Rightarrow> True
             | Some _ \<Rightarrow> False
             | None \<Rightarrow> state = ExecWorking)"

definition run_rate_activity :: "status_read_model \<Rightarrow> domain_model \<Rightarrow> task_run \<Rightarrow> run_rate_activity" where
  "run_rate_activity self m run =
     (if task_is_terminal (tr_state run) \<or> tr_state run = Queued \<or> tr_state run = Blocked
         \<or> opt_is_some_and (\<lambda>s. v6_native_session_end s \<noteq> None) (get_v6_state m (tr_run_id run))
      then RatePaused
      else case hm_get (sr_pane_executions self) (tr_run_id run) of
             Some candidates \<Rightarrow>
               if list_ex (execution_is_working m) candidates then RateWorking else RatePaused
           | None \<Rightarrow>
               (case hm_get (sr_root_agents self) (tr_run_id run) of
                  Some evidence \<Rightarrow> if ev_state evidence = Some ExecWorking then RateWorking else RatePaused
                | None \<Rightarrow> RateWorking))"

definition run_rate_activity_from_model ::
  "display_timing \<Rightarrow> domain_model \<Rightarrow> task_run \<Rightarrow> i64 \<Rightarrow> run_rate_activity" where
  "run_rate_activity_from_model timing m run now_ms =
     run_rate_activity (from_model_filtered timing m now_ms (Some (tr_run_id run))) m run"

section \<open>The selection does not depend on the scan order\<close>

lemma select_evidence_get:
  "hm_get (select_evidence replaces k' v selected) k =
     (if k' = k then (case hm_get selected k of None \<Rightarrow> Some v
        | Some c \<Rightarrow> if replaces v c then Some v else Some c)
      else hm_get selected k)"
  by (auto simp: select_evidence_def split: option.split)

locale evidence_order =
  fixes replaces :: "'v \<Rightarrow> 'v \<Rightarrow> bool"
  assumes replaces_asym: "replaces a b \<Longrightarrow> \<not> replaces b a"
    and replaces_weak: "\<not> replaces a b \<Longrightarrow> \<not> replaces b c \<Longrightarrow> \<not> replaces a c"
begin

definition select_all :: "('k \<times> 'v) list \<Rightarrow> ('k, 'v) hmap \<Rightarrow> ('k, 'v) hmap" where
  "select_all xs selected = fold (\<lambda>(k, v). select_evidence replaces k v) xs selected"

definition best :: "'v set \<Rightarrow> 'v option \<Rightarrow> bool" where
  "best S x \<longleftrightarrow> (case x of None \<Rightarrow> S = {} | Some v \<Rightarrow> v \<in> S \<and> (\<forall>w \<in> S. \<not> replaces w v))"

lemma select_step:
  assumes "best S (hm_get selected k)"
  shows "best (if k' = k then insert v S else S) (hm_get (select_evidence replaces k' v selected) k)"
proof (cases "k' = k \<and> hm_get selected k \<noteq> None")
  case False
  with assms show ?thesis
    by (auto simp: best_def select_evidence_get dest: replaces_asym split: option.splits)
next
  case True
  then obtain c where c: "hm_get selected k = Some c" "k' = k" by auto
  have irrefl: "\<not> replaces x x" for x using replaces_asym by blast
  from assms have min: "c \<in> S" "\<forall>w \<in> S. \<not> replaces w c" by (auto simp: best_def c)
  have "\<forall>w \<in> S. \<not> replaces w v" if "replaces v c"
    using min that replaces_asym replaces_weak by blast
  with min show ?thesis by (auto simp: best_def select_evidence_get c irrefl)
qed

lemma select_all_best:
  assumes "best S (hm_get selected k)"
  shows "best (S \<union> {v. (k, v) \<in> set xs}) (hm_get (select_all xs selected) k)"
  using assms
proof (induction xs arbitrary: S selected)
  case Nil
  then show ?case by (simp add: select_all_def)
next
  case (Cons x xs)
  obtain a b where x: "x = (a, b)" by (cases x)
  have split: "S \<union> {v. (k, v) \<in> set (x # xs)} = (if a = k then insert b S else S) \<union> {v. (k, v) \<in> set xs}"
    by (auto simp: x)
  show ?case
    unfolding split using Cons.IH [OF select_step [OF Cons.prems, of a b]]
    by (simp add: select_all_def x)
qed

lemma select_all_ok: "hm_ok selected \<Longrightarrow> hm_ok (select_all xs selected)"
  unfolding select_all_def
  by (induction xs arbitrary: selected) (auto simp: select_evidence_def split: option.split)

lemma select_order_independent:
  fixes xs ys :: "('k \<times> 'v) list"
  assumes "set xs = set ys"
    and "\<And>k v w. (k, v) \<in> set xs \<Longrightarrow> (k, w) \<in> set xs \<Longrightarrow> \<not> replaces v w \<Longrightarrow> \<not> replaces w v \<Longrightarrow> v = w"
  shows "hm_get (select_all xs []) = hm_get (select_all ys [])"
proof
  fix k :: 'k
  have best: "best {v. (k, v) \<in> set zs} (hm_get (select_all zs []) k)" for zs
    using select_all_best [of "{}" "[]" k zs] by (simp add: best_def)
  show "hm_get (select_all xs []) k = hm_get (select_all ys []) k"
    using best [of xs] best [of ys] assms unfolding best_def by (auto split: option.splits)
qed

end

interpretation newest: evidence_order newer_agent
  by unfold_locales (auto simp: newer_agent_def)

interpretation preferred: evidence_order preferred_execution
  by unfold_locales (auto simp: preferred_execution_def)

text \<open>The folds of the read model are such selections.\<close>

definition execution_entry :: "execution \<Rightarrow> (run_id \<times> string) \<times> bool \<times> string \<times> exec_state" where
  "execution_entry e = ((ex_task_run_id e, ex_pane_id e), execution_candidate e)"

definition root_entry ::
  "display_timing \<Rightarrow> domain_model \<Rightarrow> i64 \<Rightarrow> run_id option \<Rightarrow> agent_node
     \<Rightarrow> (run_id \<times> agent_status_evidence) option" where
  "root_entry timing m now_ms run agent =
     (if root_evidence_skipped timing m now_ms run agent then None
      else Some (an_task_run_id agent, agent_evidence agent))"

definition durable_entry ::
  "(provider \<times> string, run_id) hmap option \<Rightarrow> agent_node \<Rightarrow> (run_id \<times> agent_status_evidence) option" where
  "durable_entry aliases agent =
     map_option (\<lambda>target. (target, agent_evidence agent)) (durable_target aliases agent)"

lemma selected_executions_select:
  "selected_executions run es =
     preferred.select_all (map execution_entry (filter (\<lambda>e. opt_is_none_or (\<lambda>r. ex_task_run_id e = r) run) es)) []"
proof -
  have "fold (\<lambda>e selected. if opt_is_some_and (\<lambda>r. ex_task_run_id e \<noteq> r) run then selected
         else select_evidence preferred_execution (ex_task_run_id e, ex_pane_id e)
                (execution_candidate e) selected) es s =
      preferred.select_all (map execution_entry (filter (\<lambda>e. opt_is_none_or (\<lambda>r. ex_task_run_id e = r) run) es)) s"
    for s
    by (induction es arbitrary: s; cases run) (auto simp: preferred.select_all_def execution_entry_def)
  then show ?thesis by (simp add: selected_executions_def)
qed

lemma scan_agents_select:
  "fold (scan_agent timing m now_ms run aliases) agents (root, durable) =
     (newest.select_all (filter_map (root_entry timing m now_ms run) agents) root,
      newest.select_all (filter_map (durable_entry aliases) agents) durable)"
proof (induction agents arbitrary: root durable)
  case Nil
  then show ?case by (simp add: newest.select_all_def)
next
  case (Cons a agents)
  then show ?case
    by (cases "durable_target aliases a")
      (auto simp: scan_agent_def Let_def newest.select_all_def root_entry_def durable_entry_def
        insert_newest_agent_evidence_def)
qed

text \<open>Two models with the same table contents, in whatever iteration order.\<close>

definition same_content :: "domain_model \<Rightarrow> domain_model \<Rightarrow> bool" where
  "same_content m m' \<longleftrightarrow> hm_get (dm_task_runs m) = hm_get (dm_task_runs m')
     \<and> hm_get (dm_run_ids_by_key m) = hm_get (dm_run_ids_by_key m')
     \<and> hm_get (dm_task_run_v6_state m) = hm_get (dm_task_run_v6_state m')
     \<and> hm_get (dm_executions m) = hm_get (dm_executions m')
     \<and> hm_get (dm_agent_nodes m) = hm_get (dm_agent_nodes m')
     \<and> hm_get (dm_pane_agent_statuses m) = hm_get (dm_pane_agent_statuses m')"

lemma same_values:
  "hm_ok t \<Longrightarrow> hm_ok u \<Longrightarrow> hm_get t = hm_get u \<Longrightarrow> set (hm_values t) = set (hm_values u)"
  using hm_values_iff [of t] hm_values_iff [of u] by (auto simp only:)

lemma group_executions_get:
  assumes "hm_ok selected"
  shows "(case hm_get (group_executions selected) r of None \<Rightarrow> None | Some es \<Rightarrow> hm_get es p)
     = map_option (\<lambda>(_, _, state). state) (hm_get selected (r, p))"
    and "hm_get (group_executions selected) r = None \<longleftrightarrow> (\<forall>p. hm_get selected (r, p) = None)"
    and "hm_get (group_executions selected) r = Some es \<Longrightarrow> hm_ok es"
proof -
  let ?step = "\<lambda>((r, pane), (_, _, state)) panes.
         hm_put r (hm_put pane state (opt_unwrap_or [] (hm_get panes r))) panes"
  define lk where "lk g = (case hm_get g r of None \<Rightarrow> None | Some es \<Rightarrow> hm_get es p)"
    for g :: "(run_id, (string, exec_state) hmap) hmap"
  have get: "lk (fold ?step xs g) = (case hm_get xs (r, p) of None \<Rightarrow> lk g | Some (_, _, st) \<Rightarrow> Some st)"
    if "hm_ok xs" for xs g
    using that
  proof (induction xs arbitrary: g)
    case Nil
    then show ?case by simp
  next
    case (Cons x xs)
    obtain r1 p1 b i st where x: "x = ((r1, p1), (b, i, st))" by (cases x) auto
    have "lk (?step x g) = (if r1 = r \<and> p1 = p then Some st else lk g)"
      by (auto simp: lk_def x split: option.split)
    moreover have "hm_get xs (r, p) = None" if "r1 = r \<and> p1 = p"
      using that Cons.prems by (auto simp: x map_of_eq_None_iff)
    ultimately show ?case using Cons by (auto simp: x split: option.splits)
  qed
  have none: "hm_get (fold ?step xs g) r = None \<longleftrightarrow> hm_get g r = None \<and> (\<forall>p. hm_get xs (r, p) = None)"
    for xs g
    by (induction xs arbitrary: g) (auto split: if_splits)
  have ok: "(\<forall>es. hm_get g r = Some es \<longrightarrow> hm_ok es) \<Longrightarrow>
      hm_get (fold ?step xs g) r = Some es \<Longrightarrow> hm_ok es" for xs g es
  proof (induction xs arbitrary: g)
    case Nil
    then show ?case by simp
  next
    case (Cons x xs)
    have "\<forall>es. hm_get (?step x g) r = Some es \<longrightarrow> hm_ok es"
      using Cons.prems(1) by (cases x; cases "hm_get g r") (auto split: prod.split)
    with Cons show ?case by simp
  qed
  show "(case hm_get (group_executions selected) r of None \<Rightarrow> None | Some es \<Rightarrow> hm_get es p)
     = map_option (\<lambda>(_, _, state). state) (hm_get selected (r, p))"
    using get [OF assms, of "[]"] by (auto simp: lk_def group_executions_def split: option.splits)
  show "hm_get (group_executions selected) r = None \<longleftrightarrow> (\<forall>p. hm_get selected (r, p) = None)"
    by (simp add: group_executions_def none)
  show "hm_get (group_executions selected) r = Some es \<Longrightarrow> hm_ok es"
    unfolding group_executions_def by (rule ok) auto
qed

text \<open>Equal content gives equal evidence, entry by entry.\<close>

definition same_evidence :: "status_read_model \<Rightarrow> status_read_model \<Rightarrow> bool" where
  "same_evidence a b \<longleftrightarrow> hm_get (sr_root_agents a) = hm_get (sr_root_agents b)
     \<and> hm_get (sr_durable_native_agents a) = hm_get (sr_durable_native_agents b)
     \<and> (\<forall>r. rel_option (\<lambda>x y. set x = set y \<and> hm_get x = hm_get y)
           (hm_get (sr_pane_executions a) r) (hm_get (sr_pane_executions b) r))"

definition agents_identified :: "domain_model \<Rightarrow> bool" where
  "agents_identified m \<longleftrightarrow> (\<forall>i n. get_agent_node m i = Some n \<longrightarrow> an_agent_node_id n = i)
     \<and> (\<forall>i e. get_execution m i = Some e \<longrightarrow> ex_execution_id e = i)"

lemma keyed_row:
  "hm_ok t \<Longrightarrow> v \<in> set (hm_values t) \<Longrightarrow> \<forall>i v. hm_get t i = Some v \<longrightarrow> f v = i
     \<Longrightarrow> hm_get t (f v) = Some v"
  unfolding hm_values_iff by blast

lemma selected_executions_same:
  assumes ok: "hm_ok (dm_executions m)" "hm_ok (dm_executions m')"
    and same: "same_content m m'" and ids: "agents_identified m"
  shows "hm_get (selected_executions run (executions m)) = hm_get (selected_executions run (executions m'))"
  unfolding selected_executions_select
proof (rule preferred.select_order_independent)
  have vals: "set (executions m) = set (executions m')"
    using same_values [OF ok] same by (simp add: same_content_def)
  then show "set (map execution_entry (filter (\<lambda>e. opt_is_none_or (\<lambda>r. ex_task_run_id e = r) run) (executions m)))
     = set (map execution_entry (filter (\<lambda>e. opt_is_none_or (\<lambda>r. ex_task_run_id e = r) run) (executions m')))"
    unfolding set_map set_filter by simp
  fix k v w
  let ?L = "map execution_entry (filter (\<lambda>e. opt_is_none_or (\<lambda>r. ex_task_run_id e = r) run) (executions m))"
  assume v: "(k, v) \<in> set ?L" and w: "(k, w) \<in> set ?L"
    and nr: "\<not> preferred_execution v w" "\<not> preferred_execution w v"
  obtain e where e: "e \<in> set (executions m)" "execution_candidate e = v"
    using v by (auto simp: execution_entry_def)
  obtain f where f: "f \<in> set (executions m)" "execution_candidate f = w"
    using w by (auto simp: execution_entry_def)
  have "ex_execution_id e = ex_execution_id f"
    using nr e(2) f(2) by (auto simp: preferred_execution_def execution_candidate_def)
  moreover have "hm_get (dm_executions m) (ex_execution_id x) = Some x" if "x \<in> set (executions m)" for x
    using that ids by (intro keyed_row [OF ok(1)])
      (simp_all add: agents_identified_def get_execution_def get_agent_node_def)
  ultimately have "e = f" using e(1) f(1) by (metis option.inject)
  with e f show "v = w" by simp
qed

lemma agent_entries_unique:
  assumes "hm_ok (dm_agent_nodes m)" and ids: "agents_identified m"
    and "a \<in> set (agent_nodes m)" "b \<in> set (agent_nodes m)"
    and nr: "\<not> newer_agent (agent_evidence a) (agent_evidence b)"
      "\<not> newer_agent (agent_evidence b) (agent_evidence a)"
  shows "a = b"
proof -
  have "an_agent_node_id a = an_agent_node_id b"
    using nr by (auto simp: newer_agent_def agent_evidence_def)
  moreover have "hm_get (dm_agent_nodes m) (an_agent_node_id x) = Some x" if "x \<in> set (agent_nodes m)" for x
    using that ids by (intro keyed_row [OF assms(1)])
      (simp_all add: agents_identified_def get_execution_def get_agent_node_def)
  ultimately show ?thesis using assms(3,4) by (metis option.inject)
qed

lemma native_aliases_get:
  assumes "hm_ok (dm_run_ids_by_key m)"
  shows "hm_get (native_aliases_of m) (p, sid) = hm_get (dm_run_ids_by_key m) (Native p sid)"
proof -
  have "hm_get (fold (\<lambda>(key, r) aliases. case key of Native p sid \<Rightarrow> hm_put (p, sid) r aliases | _ \<Rightarrow> aliases)
      xs aliases) (p, sid) = (case hm_get xs (Native p sid) of None \<Rightarrow> hm_get aliases (p, sid) | Some r \<Rightarrow> Some r)"
    if "hm_ok xs" for xs aliases
    using that
  proof (induction xs arbitrary: aliases)
    case Nil
    then show ?case by simp
  next
    case (Cons x xs)
    obtain a b where x: "x = (a, b)" by (cases x)
    have step: "hm_get (case a of Native p sid \<Rightarrow> hm_put (p, sid) b aliases | _ \<Rightarrow> aliases) (p, sid)
        = (if a = Native p sid then Some b else hm_get aliases (p, sid))" for aliases
      by (cases a) auto
    show ?case
    proof (cases "a = Native p sid")
      case True
      with Cons.prems have "hm_get xs (Native p sid) = None" by (auto simp: x map_of_eq_None_iff)
      with True Cons.IH Cons.prems show ?thesis by (simp add: x)
    next
      case False
      with Cons.IH Cons.prems step show ?thesis by (simp add: x split: option.split)
    qed
  qed
  from this [OF assms] show ?thesis unfolding native_aliases_of_def by (auto split: option.splits)
qed

lemma same_content_root_entry:
  "same_content m m' \<Longrightarrow> root_entry timing m now_ms run = root_entry timing m' now_ms run"
  by (simp add: root_entry_def root_evidence_skipped_def get_task_run_def same_content_def fun_eq_iff)

lemma newest_same:
  fixes f :: "agent_node \<Rightarrow> ('k \<times> agent_status_evidence) option"
  assumes "hm_ok (dm_agent_nodes m)" and "agents_identified m" and same: "set (agent_nodes m) = set ns"
    and f: "\<And>a k v. f a = Some (k, v) \<Longrightarrow> v = agent_evidence a"
  shows "hm_get (newest.select_all (filter_map f (agent_nodes m)) []) =
    hm_get (newest.select_all (filter_map f ns) [])"
proof (rule newest.select_order_independent)
  show "set (filter_map f (agent_nodes m)) = set (filter_map f ns)"
    unfolding filter_map_set same ..
  fix k v w
  assume v: "(k, v) \<in> set (filter_map f (agent_nodes m))" and w: "(k, w) \<in> set (filter_map f (agent_nodes m))"
    and nr: "\<not> newer_agent v w" "\<not> newer_agent w v"
  obtain a where a: "a \<in> set (agent_nodes m)" "v = agent_evidence a"
    using v f unfolding filter_map_set by blast
  obtain b where b: "b \<in> set (agent_nodes m)" "w = agent_evidence b"
    using w f unfolding filter_map_set by blast
  have "a = b" using agent_entries_unique [OF assms(1,2) a(1) b(1)] nr a b by simp
  with a b show "v = w" by simp
qed

lemma from_model_same:
  assumes ok: "tables_ok m" "tables_ok m'" and same: "same_content m m'" and ids: "agents_identified m"
  shows "same_evidence (from_model_filtered timing m now_ms run) (from_model_filtered timing m' now_ms run)"
proof -
  note ok = ok [unfolded tables_ok_def]
  let ?al = "\<lambda>m. if run = None then Some (native_aliases_of m) else None"
  have agents: "set (agent_nodes m) = set (agent_nodes m')"
    using ok same by (intro same_values) (auto simp: same_content_def)
  have target: "durable_entry (?al m) = durable_entry (?al m')"
    using ok same by (auto simp: durable_entry_def durable_target_def native_aliases_get same_content_def
        fun_eq_iff split: option.split)
  have agents_ok: "hm_ok (dm_agent_nodes m)" using ok by simp
  have root: "hm_get (newest.select_all (filter_map (root_entry timing m now_ms run) (agent_nodes m)) []) =
      hm_get (newest.select_all (filter_map (root_entry timing m' now_ms run) (agent_nodes m')) [])"
    unfolding same_content_root_entry [OF same]
    by (rule newest_same [OF agents_ok ids agents]) (simp add: root_entry_def split: if_splits)
  have durable: "hm_get (newest.select_all (filter_map (durable_entry (?al m)) (agent_nodes m)) []) =
      hm_get (newest.select_all (filter_map (durable_entry (?al m')) (agent_nodes m')) [])"
    unfolding target
    by (rule newest_same [OF agents_ok ids agents]) (auto simp: durable_entry_def)
  let ?S = "selected_executions run (executions m)" and ?S' = "selected_executions run (executions m')"
  have sel: "hm_get ?S = hm_get ?S'"
    by (rule selected_executions_same) (use ok same ids in auto)
  have sel_ok: "hm_ok ?S" "hm_ok ?S'"
    by (simp_all add: selected_executions_select preferred.select_all_ok)
  have pane: "rel_option (\<lambda>x y. set x = set y \<and> hm_get x = hm_get y)
      (hm_get (group_executions ?S) r) (hm_get (group_executions ?S') r)" for r
  proof (cases "hm_get (group_executions ?S) r")
    case None
    then have "hm_get (group_executions ?S') r = None"
      using sel by (simp add: group_executions_get(2) sel_ok)
    with None show ?thesis by simp
  next
    case (Some es)
    then have "hm_get (group_executions ?S') r \<noteq> None"
      using sel group_executions_get(2) [OF sel_ok(1), where r = r] group_executions_get(2) [OF sel_ok(2), where r = r] by simp
    then obtain es' where es': "hm_get (group_executions ?S') r = Some es'" by blast
    have get: "hm_get es = hm_get es'"
      using group_executions_get(1) [OF sel_ok(1), where r = r] group_executions_get(1) [OF sel_ok(2), where r = r]
        sel Some es' by (simp add: fun_eq_iff)
    have "hm_ok es" "hm_ok es'"
      using group_executions_get(3) [OF sel_ok(1) Some] group_executions_get(3) [OF sel_ok(2) es'] by auto
    with get have "set es = set es'"
      using hm_get_eq_iff [of es] hm_get_eq_iff [of es'] by (auto simp only: set_eq_iff split_paired_All)
    with get Some es' show ?thesis by simp
  qed
  show ?thesis
    unfolding from_model_filtered_def Let_def scan_agents_select split_beta fst_conv snd_conv
      same_evidence_def
    using root durable pane by simp
qed

text \<open>Equal evidence gives the same status and the same rate activity.\<close>

lemma same_evidence_pane:
  assumes "same_evidence a b"
  shows "(case hm_get (sr_pane_executions a) r of None \<Rightarrow> None | Some es \<Rightarrow> hm_get es p) =
    (case hm_get (sr_pane_executions b) r of None \<Rightarrow> None | Some es \<Rightarrow> hm_get es p)"
  using assms unfolding same_evidence_def
  by (auto elim!: allE [of _ r] split: option.splits)

lemma task_display_status_same:
  assumes "same_evidence a b" and "same_content m m'"
  shows "task_display_status a m run pane inactive = task_display_status b m' run pane inactive"
proof -
  have eq: "hm_get (sr_root_agents a) = hm_get (sr_root_agents b)"
    "hm_get (sr_durable_native_agents a) = hm_get (sr_durable_native_agents b)"
    "get_v6_state m = get_v6_state m'" "get_pane_agent_status m = get_pane_agent_status m'"
    using assms by (auto simp: same_evidence_def same_content_def get_v6_state_def
        get_pane_agent_status_def fun_eq_iff)
  show ?thesis
    unfolding task_display_status_def runtime_display_status_def durable_ended_status_def eq
      same_evidence_pane [OF assms(1)] ..
qed

lemma run_rate_activity_same:
  assumes "same_evidence a b" and "same_content m m'"
  shows "run_rate_activity a m run = run_rate_activity b m' run"
proof -
  have eq: "hm_get (sr_root_agents a) = hm_get (sr_root_agents b)"
    "get_v6_state m = get_v6_state m'" "execution_is_working m = execution_is_working m'"
    using assms by (auto simp: same_evidence_def same_content_def get_v6_state_def
        get_pane_agent_status_def fun_eq_iff execution_is_working_def split: option.split)
  have "rel_option (\<lambda>x y. set x = set y) (hm_get (sr_pane_executions a) (tr_run_id run))
      (hm_get (sr_pane_executions b) (tr_run_id run))"
    using assms(1) by (auto simp: same_evidence_def intro: option.rel_mono_strong)
  then show ?thesis
    unfolding run_rate_activity_def eq
    by (cases rule: option.rel_cases) (auto simp: list_ex_iff)
qed

end
