(* ===== verification/Reducer_State.thy ===== *)
theory Reducer_State
  imports Transitions Status
begin

text \<open>
  The \<open>Reducer\<close> of \<open>src/reducer.rs\<close>: its state, the allocation of display ordinals, the queue
  of telemetry samples whose run is not known yet, the measurement of run rates, and
  publication. The clock, fresh identifiers, the text form of an identifier and the display
  timing come from the environment \<open>env\<close>: the \<open>n\<close>-th call of \<open>unix_now_ms\<close> returns
  \<open>en_clock n\<close> and the \<open>n\<close>-th \<open>RunId::new\<close> is \<open>en_fresh n\<close>, counted in the state.
\<close>

section \<open>State\<close>

record env =
  en_clock :: "nat \<Rightarrow> i64"
  en_fresh :: "nat \<Rightarrow> run_id"
  en_run_text :: "run_id \<Rightarrow> string"
  en_timing :: display_timing

datatype reducer_error = OrdinalExhausted | BindingConflict merge_conflict

datatype apply_outcome = Applied persist_batch | DroppedBindingConflict merge_conflict

record pending_telemetry =
  pq_at_ms :: i64
  pq_output_tokens :: u64
  pq_token_breakdown :: token_breakdown
  pq_attribution :: turn_attr

datatype rate_observation_origin = RateHistorical | RateLive u64

record rate_observation =
  ro_run_id :: run_id
  ro_origin :: rate_observation_origin
  ro_observed_at_ms :: i64

record live_provider_observation_checkpoint =
  lc_model :: domain_model
  lc_next_ordinal :: i64
  lc_next_ingest_seq :: "i64 option"
  lc_terminal_event_sources :: "(run_id, string) hmap"
  lc_non_lane_task_state_runs :: "run_id list"
  lc_pending_telemetry :: "(run_key, pending_telemetry list) hmap"
  lc_pending_telemetry_order :: "run_key list"
  lc_pending_telemetry_count :: nat
  lc_dirty_rate_totals :: "run_id list"
  lc_pending_rate_observation_runs :: "run_id list"

record pending_live_provider_submission =
  pl_submission_id :: u64
  pl_checkpoint :: "live_provider_observation_checkpoint option"
  pl_ready_run_ids :: "run_id list"

record reducer =
  rd_model :: domain_model
  rd_next_ordinal :: i64
  rd_next_ingest_seq :: "i64 option"
  rd_terminal_event_sources :: "(run_id, string) hmap"
  rd_non_lane_task_state_runs :: "run_id list"
  rd_pending_telemetry :: "(run_key, pending_telemetry list) hmap"
  rd_pending_telemetry_order :: "run_key list"
  rd_pending_telemetry_count :: nat
  rd_rate_epoch :: u64
  rd_rate_epoch_active :: bool
  rd_dirty_rate_totals :: "run_id list"
  rd_pending_rate_observation_runs :: "run_id list"
  rd_rate_observation_context :: "(rate_observation_origin \<times> i64) option"
  rd_published :: domain_model
  rd_operator :: operator_projection
  rd_defer_provider_publication :: bool
  rd_defer_provider_model_publication :: bool
  rd_provider_model_publication_pending :: bool
  rd_deferred_provider_drain :: "history_drain_id option"
  rd_provider_observation_private_run_ids :: "run_id list"
  rd_pending_live_provider_submission :: "pending_live_provider_submission option"
  rd_published_history_drains :: "history_drain_id list"
  rd_ticks :: nat
  rd_minted :: nat
  rd_next_submission_token :: u64

definition unix_now_ms :: "env \<Rightarrow> reducer \<Rightarrow> i64 \<times> reducer" where
  "unix_now_ms E r = (en_clock E (rd_ticks r), r\<lparr>rd_ticks := rd_ticks r + 1\<rparr>)"

definition run_id_new :: "env \<Rightarrow> reducer \<Rightarrow> run_id \<times> reducer" where
  "run_id_new E r = (en_fresh E (rd_minted r), r\<lparr>rd_minted := rd_minted r + 1\<rparr>)"

definition with_model :: "(domain_model \<Rightarrow> domain_model) \<Rightarrow> reducer \<Rightarrow> reducer" where
  "with_model f r = r\<lparr>rd_model := f (rd_model r)\<rparr>"

definition capture_checkpoint :: "reducer \<Rightarrow> live_provider_observation_checkpoint" where
  "capture_checkpoint r =
     \<lparr>lc_model = rd_model r, lc_next_ordinal = rd_next_ordinal r,
      lc_next_ingest_seq = rd_next_ingest_seq r,
      lc_terminal_event_sources = rd_terminal_event_sources r,
      lc_non_lane_task_state_runs = rd_non_lane_task_state_runs r,
      lc_pending_telemetry = rd_pending_telemetry r,
      lc_pending_telemetry_order = rd_pending_telemetry_order r,
      lc_pending_telemetry_count = rd_pending_telemetry_count r,
      lc_dirty_rate_totals = rd_dirty_rate_totals r,
      lc_pending_rate_observation_runs = rd_pending_rate_observation_runs r\<rparr>"

definition restore_checkpoint :: "live_provider_observation_checkpoint \<Rightarrow> reducer \<Rightarrow> reducer" where
  "restore_checkpoint c r =
     r\<lparr>rd_model := lc_model c, rd_next_ordinal := lc_next_ordinal c,
       rd_next_ingest_seq := lc_next_ingest_seq c,
       rd_terminal_event_sources := lc_terminal_event_sources c,
       rd_non_lane_task_state_runs := lc_non_lane_task_state_runs c,
       rd_pending_telemetry := lc_pending_telemetry c,
       rd_pending_telemetry_order := lc_pending_telemetry_order c,
       rd_pending_telemetry_count := lc_pending_telemetry_count c,
       rd_dirty_rate_totals := lc_dirty_rate_totals c,
       rd_pending_rate_observation_runs := lc_pending_rate_observation_runs c\<rparr>"

definition reducer_new ::
  "domain_model \<Rightarrow> i64 \<Rightarrow> i64 option \<Rightarrow> activity_item list \<Rightarrow> (run_id, i64) hmap \<Rightarrow> reducer" where
  "reducer_new m next_ordinal next_ingest_seq activity terminal_times =
     (let m = with_diagnostics
            (set_dangling_announcement_components (dangling_announcement_components m)) m;
          (m, deferred) = take_deferred_history_activity m;
          operator1 = restore_deferred_history deferred m (operator_new activity terminal_times)
      in \<lparr>rd_model = m, rd_next_ordinal = next_ordinal, rd_next_ingest_seq = next_ingest_seq,
          rd_terminal_event_sources = [], rd_non_lane_task_state_runs = [],
          rd_pending_telemetry = [], rd_pending_telemetry_order = [],
          rd_pending_telemetry_count = 0, rd_rate_epoch = 0, rd_rate_epoch_active = False,
          rd_dirty_rate_totals = [], rd_pending_rate_observation_runs = [],
          rd_rate_observation_context = None, rd_published = publication_snapshot m,
          rd_operator = operator1, rd_defer_provider_publication = False,
          rd_defer_provider_model_publication = False,
          rd_provider_model_publication_pending = False, rd_deferred_provider_drain = None,
          rd_provider_observation_private_run_ids = [],
          rd_pending_live_provider_submission = None, rd_published_history_drains = [],
          rd_ticks = 0, rd_minted = 0, rd_next_submission_token = 0\<rparr>)"

section \<open>Display ordinals\<close>

definition allocate_ordinal :: "reducer \<Rightarrow> reducer \<times> (reducer_error + display_ordinal)" where
  "allocate_ordinal r =
     (case i64_checked_add (rd_next_ordinal r) 1 of
        None \<Rightarrow> (r, Inl OrdinalExhausted)
      | Some next \<Rightarrow> (r\<lparr>rd_next_ordinal := next\<rparr>, Inr (DisplayOrdinal (rd_next_ordinal r))))"

definition ordinal_or_allocate ::
  "topology_kind \<Rightarrow> string \<Rightarrow> reducer \<Rightarrow> reducer \<times> (reducer_error + display_ordinal)" where
  "ordinal_or_allocate kind i r =
     (case topology_ordinal (rd_model r) kind i of
        Some ordinal \<Rightarrow> (r, Inr ordinal)
      | None \<Rightarrow>
          (case allocate_ordinal r of
             (r, Inl e) \<Rightarrow> (r, Inl e)
           | (r, Inr ordinal) \<Rightarrow> (with_model (set_topology_ordinal kind i ordinal) r, Inr ordinal)))"

section \<open>The queue of early telemetry\<close>

definition pending_telemetry_sample_capacity :: nat where
  "pending_telemetry_sample_capacity = 4096"

text \<open>The three fields of the queue: samples per run key, keys in arrival order, count.\<close>

type_synonym telemetry_queue =
  "(run_key, pending_telemetry list) hmap \<times> run_key list \<times> nat"

definition telemetry_queue_of :: "reducer \<Rightarrow> telemetry_queue" where
  "telemetry_queue_of r =
     (rd_pending_telemetry r, rd_pending_telemetry_order r, rd_pending_telemetry_count r)"

definition set_telemetry_queue :: "telemetry_queue \<Rightarrow> reducer \<Rightarrow> reducer" where
  "set_telemetry_queue q r =
     r\<lparr>rd_pending_telemetry := fst q, rd_pending_telemetry_order := fst (snd q),
       rd_pending_telemetry_count := snd (snd q)\<rparr>"

fun evict_loop ::
  "(run_key, pending_telemetry list) hmap \<Rightarrow> run_key list \<Rightarrow> nat \<Rightarrow> telemetry_queue \<times> bool" where
  "evict_loop pending [] count = ((pending, [], 0), False)"
| "evict_loop pending (key # order) count =
     (case hm_get pending key of
        None \<Rightarrow> evict_loop pending order count
      | Some [] \<Rightarrow> evict_loop pending order count
      | Some (_ # samples) \<Rightarrow>
          ((if samples = [] then hm_del key pending else hm_put key samples pending,
            order, count - 1), True))"

definition evict_oldest_pending_telemetry :: "telemetry_queue \<Rightarrow> telemetry_queue \<times> bool" where
  "evict_oldest_pending_telemetry q =
     (case q of (pending, order, count) \<Rightarrow> evict_loop pending order count)"

lemma evict_loop_order:
  "evict_loop pending order count = ((pending', order', count'), b) \<Longrightarrow> b \<Longrightarrow>
     length order' < length order"
  by (induction pending order count rule: evict_loop.induct)
    (force split: option.splits list.splits)+

function make_room :: "telemetry_queue \<Rightarrow> telemetry_queue" where
  "make_room q =
     (if snd (snd q) < pending_telemetry_sample_capacity then q
      else case evict_oldest_pending_telemetry q of
             (q', evicted) \<Rightarrow> if evicted then make_room q' else q')"
  by pat_completeness auto
termination
  by (relation "measure (\<lambda>(pending, order, count). length order)")
    (auto simp: evict_oldest_pending_telemetry_def intro: evict_loop_order [OF sym]
      split: prod.splits)

declare make_room.simps [simp del]

definition enqueue_pending_telemetry ::
  "run_key \<Rightarrow> pending_telemetry \<Rightarrow> telemetry_queue \<Rightarrow> telemetry_queue" where
  "enqueue_pending_telemetry key sample q =
     (case make_room q of (pending, order, count) \<Rightarrow>
        (hm_put key (opt_unwrap_or [] (hm_get pending key) @ [sample]) pending,
         order @ [key], count + 1))"

definition accumulate_telemetry :: "run_key \<Rightarrow> pending_telemetry \<Rightarrow> reducer \<Rightarrow> reducer \<times> bool" where
  "accumulate_telemetry key sample r =
     (case task_run_by_key (rd_model r) key of
        None \<Rightarrow> (r, False)
      | Some task_run \<Rightarrow>
          let run = tr_run_id task_run;
              retain_turn = (case key of Native Codex _ \<Rightarrow> True | _ \<Rightarrow> False);
              r = with_model (telemetry_entry run (pq_at_ms sample) (\<lambda>telemetry.
                    telemetry_accumulate
                      (telemetry\<lparr>tl_token_breakdown :=
                         token_accumulate (tl_token_breakdown telemetry) (pq_token_breakdown sample)\<rparr>)
                      (pq_output_tokens sample) (ta_model (pq_attribution sample))
                      (ta_effort (pq_attribution sample)) (ta_sandbox (pq_attribution sample))
                      retain_turn)) r
          in (r\<lparr>rd_pending_rate_observation_runs :=
                  hs_insert run (rd_pending_rate_observation_runs r)\<rparr>, True))"

definition apply_ready_samples :: "run_key \<Rightarrow> reducer \<Rightarrow> reducer" where
  "apply_ready_samples key r =
     (case hm_get (rd_pending_telemetry r) key of
        None \<Rightarrow> r
      | Some samples \<Rightarrow>
          fold (\<lambda>sample r. fst (accumulate_telemetry key sample r)) samples
            (r\<lparr>rd_pending_telemetry := hm_del key (rd_pending_telemetry r),
               rd_pending_telemetry_count := rd_pending_telemetry_count r - length samples\<rparr>))"

definition apply_pending_telemetry_for_known_runs :: "reducer \<Rightarrow> reducer" where
  "apply_pending_telemetry_for_known_runs r =
     (let ready = hs_extend [] (filter (\<lambda>key. task_run_by_key (rd_model r) key \<noteq> None)
            (rd_pending_telemetry_order r));
          r = r\<lparr>rd_pending_telemetry_order :=
                  filter (\<lambda>key. key \<notin> set ready) (rd_pending_telemetry_order r)\<rparr>
      in fold apply_ready_samples ready r)"

section \<open>Run rates\<close>

definition observe_run_rates_with_activity :: "rate_observation \<Rightarrow> bool \<Rightarrow> reducer \<Rightarrow> reducer" where
  "observe_run_rates_with_activity obs working r =
     (let run_id = ro_run_id obs; m = rd_model r in
      case get_task_run m run_id of
        None \<Rightarrow> with_model (remove_run_rate_cursor run_id) r
      | Some run \<Rightarrow>
      (let output_tokens = (case get_telemetry m run_id of None \<Rightarrow> 0 | Some t \<Rightarrow> tl_output_tokens t);
           (measurement_epoch, live_baseline) = (case ro_origin obs of
               RateHistorical \<Rightarrow> (rd_rate_epoch r, False)
             | RateLive epoch \<Rightarrow> (epoch, True));
           cursor_at = (\<lambda>at_ms. \<lparr>rc_baseline_output_tokens = output_tokens,
               rc_last_observed_at_ms = at_ms, rc_working = working,
               rc_measurement_epoch = measurement_epoch, rc_identity_basis = tr_key run,
               rc_live_baseline = live_baseline\<rparr>)
       in case get_run_rate_cursor m run_id of
            None \<Rightarrow> with_model (set_run_rate_cursor run_id (cursor_at (ro_observed_at_ms obs))) r
          | Some cursor \<Rightarrow>
              let observed_at_ms = max (rc_last_observed_at_ms cursor) (ro_observed_at_ms obs);
                  trustworthy = (live_baseline \<and> rc_live_baseline cursor
                    \<and> rc_measurement_epoch cursor = measurement_epoch
                    \<and> rc_identity_basis cursor = tr_key run);
                  output_delta = u64_saturating_sub output_tokens (rc_baseline_output_tokens cursor);
                  counter_regressed = (output_tokens < rc_baseline_output_tokens cursor);
                  working_ms = (if rc_working cursor
                    then i64_saturating_sub observed_at_ms (rc_last_observed_at_ms cursor) else 0);
                  r = (if trustworthy \<and> (0 < output_delta \<or> 0 < working_ms)
                       then (with_model (\<lambda>m. fst (accumulate_run_rate_totals run_id
                               \<lparr>rt_output_tokens = (if counter_regressed then 0 else output_delta),
                                rt_working_ms = working_ms\<rparr> m)) r)
                            \<lparr>rd_dirty_rate_totals := hs_insert run_id (rd_dirty_rate_totals r)\<rparr>
                       else r)
              in with_model (set_run_rate_cursor run_id (cursor_at observed_at_ms)) r))"

definition observe_run_rates :: "env \<Rightarrow> rate_observation \<Rightarrow> reducer \<Rightarrow> reducer" where
  "observe_run_rates E obs r =
     (case get_task_run (rd_model r) (ro_run_id obs) of
        None \<Rightarrow> with_model (remove_run_rate_cursor (ro_run_id obs)) r
      | Some run \<Rightarrow>
          observe_run_rates_with_activity obs
            (run_rate_activity_from_model (en_timing E) (rd_model r) run (ro_observed_at_ms obs)
               = RateWorking) r)"

definition begin_rate_epoch :: "reducer \<Rightarrow> reducer" where
  "begin_rate_epoch r =
     (with_model clear_run_rate_cursors r)
       \<lparr>rd_rate_epoch := u64_wrapping_add (rd_rate_epoch r) 1, rd_rate_epoch_active := False,
        rd_pending_rate_observation_runs := []\<rparr>"

definition activate_rate_epoch :: "env \<Rightarrow> i64 \<Rightarrow> reducer \<Rightarrow> reducer" where
  "activate_rate_epoch E observed_at_ms r =
     (let r = r\<lparr>rd_rate_epoch_active := True\<rparr>;
          m = rd_model r;
          statuses = from_model (en_timing E) m observed_at_ms;
          live_execution_runs =
            map ex_task_run_id (filter (\<lambda>e. \<not> exec_is_terminal (ex_state e)) (executions m));
          candidates = filter_map (\<lambda>run.
              let working = (run_rate_activity statuses m run = RateWorking);
                  live_paused_execution = (tr_run_id run \<in> set live_execution_runs
                    \<and> \<not> task_is_terminal (tr_state run)
                    \<and> \<not> opt_is_some_and (\<lambda>s. v6_native_session_end s \<noteq> None)
                          (get_v6_state m (tr_run_id run)))
              in if working \<or> live_paused_execution then Some (tr_run_id run, working) else None)
            (task_runs m)
      in fold (\<lambda>(run_id, working). observe_run_rates_with_activity
             \<lparr>ro_run_id = run_id, ro_origin = RateLive (rd_rate_epoch r),
              ro_observed_at_ms = observed_at_ms\<rparr> working)
           (sort_key fst candidates) r)"

section \<open>Publication\<close>

definition publish_snapshot :: "reducer \<Rightarrow> reducer" where
  "publish_snapshot r =
     (if rd_defer_provider_publication r then r
      else if rd_defer_provider_model_publication r
        then r\<lparr>rd_provider_model_publication_pending := True\<rparr>
      else if opt_is_some_and (\<lambda>p. pl_checkpoint p \<noteq> None) (rd_pending_live_provider_submission r)
        then r
      else r\<lparr>rd_published := publication_snapshot (rd_model r)\<rparr>)"

definition observe_published_run ::
  "status_read_model \<Rightarrow> rate_observation_origin \<Rightarrow> i64 \<Rightarrow> run_id \<Rightarrow> reducer \<Rightarrow> reducer" where
  "observe_published_run statuses origin observed_at_ms run_id r =
     (case get_task_run (rd_model r) run_id of
        None \<Rightarrow> with_model (remove_run_rate_cursor run_id) r
      | Some run \<Rightarrow>
          observe_run_rates_with_activity
            \<lparr>ro_run_id = run_id, ro_origin = origin, ro_observed_at_ms = observed_at_ms\<rparr>
            (run_rate_activity statuses (rd_model r) run = RateWorking) r)"

definition publish :: "env \<Rightarrow> reducer \<Rightarrow> reducer" where
  "publish E r =
     (let r = apply_pending_telemetry_for_known_runs r;
          (now, r) = unix_now_ms E r;
          (origin, observed_at_ms) =
            opt_unwrap_or (RateLive (rd_rate_epoch r), now) (rd_rate_observation_context r);
          run_ids = sort (rd_pending_rate_observation_runs r);
          r = r\<lparr>rd_pending_rate_observation_runs := []\<rparr>;
          r = (if origin = RateHistorical \<or> rd_rate_epoch_active r
               then fold (observe_published_run
                      (from_model (en_timing E) (rd_model r) observed_at_ms) origin observed_at_ms)
                    run_ids r
               else r)
      in publish_snapshot r)"

definition recompute_dangling_announcement_components :: "reducer \<Rightarrow> reducer" where
  "recompute_dangling_announcement_components r =
     with_model (\<lambda>m. with_diagnostics
       (set_dangling_announcement_components (dangling_announcement_components m)) m) r"

definition checkpoint_run_rates :: "i64 \<Rightarrow> reducer \<Rightarrow> reducer \<times> (run_id \<times> run_rate_totals) list" where
  "checkpoint_run_rates observed_at_ms r =
     (let run_ids = sort (filter_map (\<lambda>(run_id, cursor). if rc_working cursor then Some run_id else None)
            (dm_run_rate_cursors (rd_model r)));
          before = map (\<lambda>i. (i, get_run_rate_totals (rd_model r) i)) run_ids;
          r = (if rd_rate_epoch_active r
               then fold (\<lambda>run_id. observe_run_rates_with_activity
                      \<lparr>ro_run_id = run_id, ro_origin = RateLive (rd_rate_epoch r),
                       ro_observed_at_ms = observed_at_ms\<rparr> True) run_ids r
               else r);
          r = (if list_ex (\<lambda>(i, totals). get_run_rate_totals (rd_model r) i \<noteq> totals) before
               then publish_snapshot r else r);
          dirty = sort (rd_dirty_rate_totals r);
          r = r\<lparr>rd_dirty_rate_totals := []\<rparr>
      in (r, filter_map (\<lambda>i. map_option (\<lambda>totals. (i, totals)) (get_run_rate_totals (rd_model r) i))
               dirty))"

definition restore_dirty_rate_totals :: "(run_id \<times> run_rate_totals) list \<Rightarrow> reducer \<Rightarrow> reducer" where
  "restore_dirty_rate_totals totals r =
     r\<lparr>rd_dirty_rate_totals := hs_extend (rd_dirty_rate_totals r) (map fst totals)\<rparr>"

definition has_dirty_rate_totals :: "reducer \<Rightarrow> bool" where
  "has_dirty_rate_totals r \<longleftrightarrow> rd_dirty_rate_totals r \<noteq> []"

section \<open>The operator submission\<close>

definition touched_run :: "persist_op \<Rightarrow> run_id option" where
  "touched_run operation =
     (case operation of
        UpsertTaskRun v \<Rightarrow> Some (tr_run_id (pt_task_run v))
      | PromoteTaskRunKey promoted _ _ \<Rightarrow> Some (tr_run_id (pt_task_run promoted))
      | MergeTaskRuns survivor _ \<Rightarrow> Some survivor
      | UpsertExecution v \<Rightarrow> Some (ex_task_run_id (pe_execution v))
      | UpsertAgentNode n \<Rightarrow> Some (an_task_run_id n)
      | RecordEvent event _ \<Rightarrow> md_task_run_id (event_metadata event)
      | _ \<Rightarrow> None)"

definition note_operation :: "persist_op \<Rightarrow> reducer \<Rightarrow> reducer" where
  "note_operation operation r =
     (let r = (case operation of
            MergeTaskRuns survivor absorbed \<Rightarrow>
              r\<lparr>rd_dirty_rate_totals :=
                  hs_insert survivor (hs_remove absorbed (rd_dirty_rate_totals r))\<rparr>
          | _ \<Rightarrow> r)
      in case touched_run operation of
           None \<Rightarrow> r
         | Some run \<Rightarrow> r\<lparr>rd_pending_rate_observation_runs :=
             hs_insert run (rd_pending_rate_observation_runs r)\<rparr>)"

text \<open>
  \<open>expect("a deferred provider observation must name its history drain")\<close>: a deferring reducer
  always holds its drain (\<open>deferral_ok\<close> below); the empty drain stands for the panic.
\<close>

definition apply_operator_submission :: "persist_batch \<Rightarrow> reducer \<Rightarrow> reducer" where
  "apply_operator_submission batch r =
     (let r = fold note_operation batch r in
      if rd_defer_provider_publication r
      then r\<lparr>rd_operator := apply_submission_without_publishing
               (opt_unwrap_or (HistoryDrainId []) (rd_deferred_provider_drain r)) batch
               (rd_operator r)\<rparr>
      else r\<lparr>rd_operator := apply_submission batch (rd_operator r)\<rparr>)"

definition deferral_ok :: "reducer \<Rightarrow> bool" where
  "deferral_ok r \<longleftrightarrow> (rd_defer_provider_publication r \<longrightarrow> rd_deferred_provider_drain r \<noteq> None)"

end
