(* ===== verification/Reducer_Body.thy ===== *)
theory Reducer_Body
  imports Reducer_State
begin

text \<open>
  The event handlers of \<open>src/reducer.rs\<close>: the runs an event needs, Controller metadata, the
  body of each normalized event, topology closure, execution ends, identity evidence and the
  native lifecycle. A handler works on the reducer and the persistence batch it extends; one
  that may fail returns \<open>Inl\<close> with the state it leaves behind, which the callers roll back.
\<close>

type_synonym work = "reducer \<times> persist_batch"
type_synonym 'a attempt = "work \<times> (reducer_error + 'a)"

definition and_then :: "'a attempt \<Rightarrow> ('a \<Rightarrow> work \<Rightarrow> 'b attempt) \<Rightarrow> 'b attempt" where
  "and_then a f = (case a of (w, Inl e) \<Rightarrow> (w, Inl e) | (w, Inr x) \<Rightarrow> f x w)"

definition done_with :: "'a \<Rightarrow> work \<Rightarrow> 'a attempt" where
  "done_with x w = (w, Inr x)"

definition on_model :: "(domain_model \<Rightarrow> domain_model) \<Rightarrow> work \<Rightarrow> work" where
  "on_model f w = (with_model f (fst w), snd w)"

definition push_op :: "persist_op \<Rightarrow> work \<Rightarrow> work" where
  "push_op op w = (fst w, snd w @ [op])"

abbreviation model_of :: "work \<Rightarrow> domain_model" where
  "model_of w \<equiv> rd_model (fst w)"

definition alloc :: "work \<Rightarrow> display_ordinal attempt" where
  "alloc w = (case allocate_ordinal (fst w) of (r, x) \<Rightarrow> ((r, snd w), x))"

definition topology_alloc :: "topology_kind \<Rightarrow> string \<Rightarrow> work \<Rightarrow> display_ordinal attempt" where
  "topology_alloc kind i w =
     (case ordinal_or_allocate kind i (fst w) of (r, x) \<Rightarrow> ((r, snd w), x))"

text \<open>
  Insert a run and persist it. The argument of \<open>persist_task_run\<close> is read from the model
  after the insertion, as \<open>&self.model\<close> is there.
\<close>

definition store_run :: "task_run \<Rightarrow> i64 \<Rightarrow> work \<Rightarrow> work" where
  "store_run t timestamp_ms w =
     (let w = on_model (insert_task_run t) w
      in push_op (persist_task_run (model_of w) t timestamp_ms) w)"

definition new_task_run :: "run_id \<Rightarrow> run_key \<Rightarrow> display_ordinal \<Rightarrow> task_state \<Rightarrow> bool \<Rightarrow> task_run" where
  "new_task_run run_id key ordinal state has_controller_event =
     \<lparr>tr_run_id = run_id, tr_key = key, tr_display_ordinal = ordinal, tr_state = state,
      tr_has_controller_task_state_event = has_controller_event, tr_created_at_ms = None,
      tr_updated_at_ms = None, tr_finished_at_ms = None, tr_subject = None,
      tr_dismissed_at_ms = None\<rparr>"

section \<open>Native lifecycle\<close>

definition lifecycle_step ::
  "native_session_end_status option \<Rightarrow> native_lifecycle_watermark \<Rightarrow> task_run_v6_state
     \<Rightarrow> task_run_v6_state option" where
  "lifecycle_step end_status watermark state =
     (if opt_is_some_and (\<lambda>stored. watermark \<le> stored) (v6_lifecycle_watermark state) then None
      else Some (state\<lparr>v6_native_session_end := map_option
             (\<lambda>status. \<lparr>ne_status = status, ne_at_ms = wm_source_at_ms watermark\<rparr>) end_status,
           v6_lifecycle_watermark := Some watermark\<rparr>))"

definition persists_run :: "run_id \<Rightarrow> persist_op \<Rightarrow> bool" where
  "persists_run r op =
     (case op of UpsertTaskRun v \<Rightarrow> tr_run_id (pt_task_run v) = r
      | PromoteTaskRunKey promoted _ _ \<Rightarrow> tr_run_id (pt_task_run promoted) = r
      | _ \<Rightarrow> False)"

definition apply_native_lifecycle ::
  "run_id \<Rightarrow> native_session_end_status option \<Rightarrow> native_lifecycle_watermark \<Rightarrow> work \<Rightarrow> work" where
  "apply_native_lifecycle run_id end_status watermark w =
     (let state = opt_unwrap_or v6_default (get_v6_state (model_of w) run_id) in
      case lifecycle_step end_status watermark state of
        None \<Rightarrow> w
      | Some state \<Rightarrow>
          let w = on_model (set_v6_state run_id state) w in
          if list_ex (persists_run run_id) (snd w) then w
          else case get_task_run (model_of w) run_id of
                 None \<Rightarrow> w
               | Some run \<Rightarrow>
                   push_op (persist_task_run (model_of w) run (wm_observed_at_ms watermark)) w)"

section \<open>Closing and activating runs\<close>

definition has_live_execution :: "domain_model \<Rightarrow> run_id \<Rightarrow> bool" where
  "has_live_execution m r \<longleftrightarrow>
     list_ex (\<lambda>e. ex_task_run_id e = r \<and> \<not> exec_is_terminal (ex_state e)) (executions m)"

definition close_run_without_live_execution :: "run_id \<Rightarrow> i64 \<Rightarrow> work \<Rightarrow> work" where
  "close_run_without_live_execution run_id timestamp_ms w =
     (if has_live_execution (model_of w) run_id then w
      else case get_task_run (model_of w) run_id of
        None \<Rightarrow> w
      | Some t \<Rightarrow>
          if tr_has_controller_task_state_event t
             \<or> tr_state t \<in> {Completed, Failed, Cancelled, EndedUnknown} then w
          else store_run (touch_task_run timestamp_ms (t\<lparr>tr_state := EndedUnknown\<rparr>)) timestamp_ms w)"

definition activate_for_live_execution :: "run_id \<Rightarrow> i64 \<Rightarrow> work \<Rightarrow> work" where
  "activate_for_live_execution run_id timestamp_ms w =
     (case get_task_run (model_of w) run_id of
        None \<Rightarrow> w
      | Some t \<Rightarrow>
          let should_activate = (tr_state t = EndedUnknown
                \<or> (tr_state t = Queued \<and> \<not> tr_has_controller_task_state_event t))
          in if \<not> should_activate then w
             else store_run (touch_task_run timestamp_ms (t\<lparr>tr_state := Running\<rparr>)) timestamp_ms w)"

definition reopen_native_lifecycle_for_live_execution ::
  "run_id \<Rightarrow> string \<Rightarrow> i64 \<Rightarrow> work \<Rightarrow> work" where
  "reopen_native_lifecycle_for_live_execution run_id execution_id timestamp_ms w =
     (case get_task_run (model_of w) run_id of
        None \<Rightarrow> w
      | Some t \<Rightarrow>
          if task_is_terminal (tr_state t)
             \<or> opt_is_none_or (\<lambda>s. v6_native_session_end s = None) (get_v6_state (model_of w) run_id)
          then w
          else apply_native_lifecycle run_id None
                 (Watermark timestamp_ms timestamp_ms
                    (''snapshot-live-execution:'' @ execution_id)) w)"

definition close_history_ready_run_without_live_execution ::
  "env \<Rightarrow> run_id \<Rightarrow> i64 \<Rightarrow> work \<Rightarrow> work" where
  "close_history_ready_run_without_live_execution E run_id timestamp_ms w =
     (if has_live_execution (model_of w) run_id then w
      else case get_task_run (model_of w) run_id of
        None \<Rightarrow> w
      | Some t \<Rightarrow>
          if task_is_terminal (tr_state t) then w
          else case (case get_v6_state (model_of w) run_id of
                  None \<Rightarrow> None
                | Some s \<Rightarrow> if v6_history_ready s \<and> v6_native_session_end s = None
                            then v6_latest_provider_at_ms s else None) of
            None \<Rightarrow> w
          | Some latest_provider_at_ms \<Rightarrow>
              apply_native_lifecycle run_id (Some EndUnknown)
                (Watermark latest_provider_at_ms timestamp_ms
                   (''snapshot-history-close:'' @ en_run_text E run_id)) w)"

definition end_execution :: "string \<Rightarrow> i64 \<Rightarrow> work \<Rightarrow> work" where
  "end_execution execution_id timestamp_ms w =
     (case get_execution (model_of w) execution_id of
        None \<Rightarrow> w
      | Some e \<Rightarrow>
          let e = e\<lparr>ex_state := ExecEnded\<rparr>;
              w = on_model (insert_execution e) w;
              w = push_op (persist_execution_op e timestamp_ms) w
          in close_run_without_live_execution (ex_task_run_id e) timestamp_ms w)"

definition apply_execution_state :: "string \<Rightarrow> exec_state \<Rightarrow> event_metadata \<Rightarrow> work \<Rightarrow> work" where
  "apply_execution_state execution_id observed md w =
     (case get_execution (model_of w) execution_id of
        None \<Rightarrow> w
      | Some e \<Rightarrow>
          let e = e\<lparr>ex_state := next_execution_state (ex_state e) observed md\<rparr>;
              w = on_model (insert_execution e) w
          in if exec_is_terminal (ex_state e)
             then close_run_without_live_execution (ex_task_run_id e) (md_receipt_time_ms md) w
             else w)"

section \<open>Topology closure\<close>

definition close_pane :: "string \<Rightarrow> i64 \<Rightarrow> work \<Rightarrow> work" where
  "close_pane pane_id timestamp_ms w =
     (let execution_ids = map ex_execution_id (filter
            (\<lambda>e. ex_pane_id e = pane_id \<and> \<not> exec_is_terminal (ex_state e)) (executions (model_of w)));
          w = fold (\<lambda>i. end_execution i timestamp_ms) execution_ids w;
          (m, removed) = remove_pane pane_id (model_of w);
          w = on_model (\<lambda>_. m) w
      in if removed \<noteq> None
         then push_op (DeletePane pane_id) (on_model (remove_topology_ordinal KindPane pane_id) w)
         else w)"

definition close_tab :: "string \<Rightarrow> i64 \<Rightarrow> work \<Rightarrow> work" where
  "close_tab tab_id timestamp_ms w =
     (let pane_ids = map pn_pane_id (filter (\<lambda>p. pn_tab_id p = tab_id) (hm_values (dm_panes (model_of w))));
          w = fold (\<lambda>i. close_pane i timestamp_ms) pane_ids w;
          (m, removed) = remove_tab tab_id (model_of w);
          w = on_model (\<lambda>_. m) w
      in if removed \<noteq> None
         then push_op (DeleteTab tab_id) (on_model (remove_topology_ordinal KindTab tab_id) w)
         else w)"

fun apply_topology_closure :: "topology_entity_id \<Rightarrow> i64 \<Rightarrow> work \<Rightarrow> work" where
  "apply_topology_closure (WorkspaceId workspace_id) timestamp_ms w =
     (let tab_ids = map tb_tab_id (filter (\<lambda>t. tb_workspace_id t = workspace_id)
            (hm_values (dm_tabs (model_of w))));
          w = fold (\<lambda>i. close_tab i timestamp_ms) tab_ids w;
          (m, removed) = remove_workspace workspace_id (model_of w);
          w = on_model (\<lambda>_. m) w
      in if removed \<noteq> None
         then push_op (DeleteWorkspace workspace_id)
                (on_model (remove_topology_ordinal KindWorkspace workspace_id) w)
         else w)"
| "apply_topology_closure (TabId tab_id) timestamp_ms w = close_tab tab_id timestamp_ms w"
| "apply_topology_closure (PaneId pane_id) timestamp_ms w = close_pane pane_id timestamp_ms w"

section \<open>The runs an event needs\<close>

definition native_key_of :: "event_metadata \<Rightarrow> run_key option" where
  "native_key_of md =
     map_option (\<lambda>(p, sid). Native p sid)
       (opt_filter (\<lambda>(_, sid). sid \<noteq> []) (opt_zip (md_provider md) (md_native_session_id md)))"

definition ensure_execution_run :: "execution \<Rightarrow> event_metadata \<Rightarrow> work \<Rightarrow> unit attempt" where
  "ensure_execution_run e md w =
     (if get_task_run (model_of w) (ex_task_run_id e) \<noteq> None then done_with () w
      else let timestamp_ms = run_bookkeeping_time_ms md in
        and_then (alloc w) (\<lambda>ordinal w.
          let key = (case native_key_of md of
                Some key \<Rightarrow> if task_run_by_key (model_of w) key = None then key
                  else provisional_key (ex_terminal_id e) timestamp_ms ordinal
              | None \<Rightarrow> provisional_key (ex_terminal_id e) timestamp_ms ordinal);
              t = stamp_and_touch timestamp_ms
                (new_task_run (ex_task_run_id e) key ordinal Running False)
          in done_with () (store_run t timestamp_ms w)))"

definition ensure_metadata_run ::
  "env \<Rightarrow> run_id \<Rightarrow> event_metadata \<Rightarrow> bool \<Rightarrow> string option \<Rightarrow> task_state \<Rightarrow> work \<Rightarrow> unit attempt" where
  "ensure_metadata_run E run_id md controller_reference controller_key initial_state w =
     (if get_task_run (model_of w) run_id \<noteq> None then done_with () w
      else let timestamp_ms = run_bookkeeping_time_ms md in
        and_then (alloc w) (\<lambda>ordinal w.
          let provisional = provisional_key
                (opt_unwrap_or ''unknown-terminal'' (md_terminal_id md)) timestamp_ms ordinal;
              key = (if controller_reference
                then Controller (opt_unwrap_or (en_run_text E run_id) controller_key)
                else case native_key_of md of
                    Some key \<Rightarrow> if task_run_by_key (model_of w) key = None then key else provisional
                  | None \<Rightarrow> provisional);
              t = stamp_and_touch timestamp_ms
                (new_task_run run_id key ordinal initial_state (md_task_state md \<noteq> None))
          in done_with () (store_run t timestamp_ms w)))"

definition ensure_controller_placeholder ::
  "env \<Rightarrow> run_id \<Rightarrow> string option \<Rightarrow> i64 \<Rightarrow> work \<Rightarrow> unit attempt" where
  "ensure_controller_placeholder E run_id controller_key timestamp_ms w =
     (if get_task_run (model_of w) run_id \<noteq> None then done_with () w
      else and_then (alloc w) (\<lambda>ordinal w.
        let t = stamp_and_touch timestamp_ms (new_task_run run_id
              (Controller (opt_unwrap_or (en_run_text E run_id) controller_key)) ordinal Queued False)
        in done_with () (store_run t timestamp_ms w)))"

definition ensure_event_runs ::
  "env \<Rightarrow> normalized_event \<Rightarrow> event_metadata \<Rightarrow> work \<Rightarrow> unit attempt" where
  "ensure_event_runs E event md w =
     and_then (case event of ExecutionBegin _ e \<Rightarrow> ensure_execution_run e md w | _ \<Rightarrow> done_with () w)
     (\<lambda>_ w. and_then
       (case md_task_run_id md of
          Some run_id \<Rightarrow>
            if md_source md \<noteq> ''provider''
            then let controller_reference = (md_task_state md \<noteq> None
                      \<or> md_execution_parent md \<noteq> None \<or> md_dependency md \<noteq> None);
                     initial_state = (case md_task_state md of
                         Some state \<Rightarrow> initial_controller_state (md_source_event_type md) state
                       | None \<Rightarrow> if controller_reference then Queued else Running)
                 in ensure_metadata_run E run_id md controller_reference None initial_state w
            else done_with () w
        | None \<Rightarrow> done_with () w)
     (\<lambda>_ w. and_then
       (case md_execution_parent md of
          None \<Rightarrow> done_with () w
        | Some edge \<Rightarrow>
            and_then (ensure_controller_placeholder E (ee_parent_run_id edge) None
                        (run_bookkeeping_time_ms md) w)
              (\<lambda>_. ensure_controller_placeholder E (ee_child_run_id edge) None
                        (run_bookkeeping_time_ms md)))
     (\<lambda>_ w.
        case md_dependency md of
          None \<Rightarrow> done_with () w
        | Some edge \<Rightarrow>
            and_then (ensure_controller_placeholder E (de_prerequisite_run_id edge) None
                        (run_bookkeeping_time_ms md) w)
              (\<lambda>_. ensure_controller_placeholder E (de_dependent_run_id edge) None
                        (run_bookkeeping_time_ms md)))))"

section \<open>Controller metadata\<close>

definition controller_state_update :: "bool \<Rightarrow> event_metadata \<Rightarrow> task_state \<Rightarrow> task_run \<Rightarrow> task_run" where
  "controller_state_update allow_lane_reopen md target t =
     (let t = t\<lparr>tr_has_controller_task_state_event := True\<rparr>;
          t = t\<lparr>tr_state := controller_task_transition (tr_state t) (md_source_event_type md)
                 target allow_lane_reopen\<rparr>;
          lane_claude_root_subject = (md_source md = source_log_lane
            \<and> md_source_event_type md = ''progress'' \<and> md_provider md = Some Claude
            \<and> md_native_session_id md \<noteq> None)
      in if tr_subject t = None \<or> lane_claude_root_subject
         then case opt_filter (\<lambda>label. label \<noteq> []) (md_label md) of
                None \<Rightarrow> t
              | Some label \<Rightarrow> t\<lparr>tr_subject := Some label\<rparr>
         else t)"

definition insert_execution_edge_op :: "execution_edge \<Rightarrow> i64 \<Rightarrow> work \<Rightarrow> work" where
  "insert_execution_edge_op edge created_at_ms w =
     (case insert_execution_edge edge (model_of w) of
        (m, new) \<Rightarrow> (let w = on_model (\<lambda>_. m) w
          in if new then push_op (UpsertExecutionEdge edge created_at_ms) w else w))"

definition insert_dependency_edge_op :: "dependency_edge \<Rightarrow> i64 \<Rightarrow> work \<Rightarrow> work" where
  "insert_dependency_edge_op edge created_at_ms w =
     (case insert_dependency_edge edge (model_of w) of
        (m, new) \<Rightarrow> (let w = on_model (\<lambda>_. m) w
          in if new then push_op (UpsertDependencyEdge edge created_at_ms) w else w))"

definition apply_controller_metadata :: "event_metadata \<Rightarrow> bool \<Rightarrow> work \<Rightarrow> work" where
  "apply_controller_metadata md allow_lane_reopen w =
     (let timestamp_ms = run_bookkeeping_time_ms md;
          w = (case (md_task_run_id md, md_task_state md) of
              (Some run_id, Some target) \<Rightarrow>
                (case get_task_run (model_of w) run_id of
                   None \<Rightarrow> w
                 | Some t \<Rightarrow>
                     let w = (if md_source md \<noteq> source_log_lane
                           then ((fst w)\<lparr>rd_non_lane_task_state_runs :=
                                   hs_insert run_id (rd_non_lane_task_state_runs (fst w))\<rparr>, snd w)
                           else w)
                     in store_run (touch_task_run timestamp_ms
                            (controller_state_update allow_lane_reopen md target t)) timestamp_ms w)
            | _ \<Rightarrow> w);
          w = (case md_execution_parent md of
              None \<Rightarrow> w
            | Some edge \<Rightarrow> insert_execution_edge_op edge (md_receipt_time_ms md) w)
      in case md_dependency md of
           None \<Rightarrow> w
         | Some edge \<Rightarrow> insert_dependency_edge_op edge (md_receipt_time_ms md) w)"

definition update_terminal_event_source :: "normalized_event \<Rightarrow> work \<Rightarrow> work" where
  "update_terminal_event_source event w =
     (case event of
        ControllerEvent md kind \<Rightarrow>
          (case md_task_run_id md of
             None \<Rightarrow> w
           | Some run_id \<Rightarrow>
               if kind \<in> {CtlComplete, CtlFailed, CtlCancelled}
               then ((fst w)\<lparr>rd_terminal_event_sources :=
                       hm_put run_id (md_source md) (rd_terminal_event_sources (fst w))\<rparr>, snd w)
               else if kind = CtlTaskStarted
                 \<and> opt_is_some_and (\<lambda>t. \<not> task_is_terminal (tr_state t))
                     (get_task_run (model_of w) run_id)
               then ((fst w)\<lparr>rd_terminal_event_sources :=
                       hm_del run_id (rd_terminal_event_sources (fst w))\<rparr>, snd w)
               else w)
      | _ \<Rightarrow> w)"

end
