(* ===== verification/Display_Text.thy ===== *)
theory Display_Text
  imports Entities
begin

text \<open>
  What \<open>sanitize_controller_text\<close> guarantees: the text is the longest prefix of the escaped
  characters that fits 256 bytes, so it holds whole UTF-8 characters and no control character,
  and the sanitizer leaves it as it is.
\<close>

definition printable :: "string \<Rightarrow> bool" where
  "printable u \<longleftrightarrow> utf8_char_ok u \<and> \<not> char_is_control u"

text \<open>The text one character of the input contributes.\<close>

definition shown :: "string \<Rightarrow> string" where
  "shown u = (if char_is_control u then control_escape u else u)"

lemma hex_digit_printable: "d < 16 \<Longrightarrow> printable [hex_digit d]"
  by (simp add: printable_def utf8_char_ok_def utf8_width_def byte_of_def hex_digit_def)

lemma control_code_small: "char_is_control u \<Longrightarrow> control_code u < 160"
  by (induction u rule: char_is_control.induct) auto

lemma concat_singles: "concat (map (\<lambda>c. [c]) s) = s"
  by (induction s) auto

lemma control_escape_printable:
  assumes "char_is_control u"
  shows "\<exists>us. control_escape u = concat us \<and> list_all printable us"
proof -
  have hex: "list_all (\<lambda>c. printable [c]) (hex_text (control_code u))"
    using control_code_small [OF assms] by (simp add: hex_text_def hex_digit_printable)
  have rest: "list_all (\<lambda>c. printable [c]) [CHR 0x5C, CHR ''t'', CHR ''r'', CHR ''n'', CHR ''u'',
      CHR ''{'', CHR ''}'']"
    by (simp add: printable_def utf8_char_ok_def byte_of_def utf8_width_def)
  have "list_all (\<lambda>c. printable [c]) (control_escape u)"
    using hex rest by (simp add: control_escape_def Let_def)
  then show ?thesis
    by (intro exI [of _ "map (\<lambda>c. [c]) (control_escape u)"])
      (simp add: concat_singles list.pred_map comp_def)
qed

lemma shown_printable:
  assumes "utf8_char_ok u"
  shows "\<exists>us. shown u = concat us \<and> list_all printable us"
proof (cases "char_is_control u")
  case True
  then show ?thesis using control_escape_printable by (simp add: shown_def)
next
  case False
  with assms show ?thesis
    by (intro exI [of _ "[u]"]) (simp add: shown_def printable_def)
qed

lemma sanitize_loop_Cons:
  "sanitize_loop acc (u # us) =
     (if sanitize_max_bytes < length acc + length (shown u) then acc
      else sanitize_loop (acc @ shown u) us)"
  by (simp add: shown_def Let_def)

lemmas sanitize_steps = sanitize_loop_Cons sanitize_loop.simps(1)

declare sanitize_loop.simps(2) [simp del]

lemma sanitize_loop_longest:
  "length acc \<le> sanitize_max_bytes \<Longrightarrow>
   \<exists>n. sanitize_loop acc us = acc @ concat (map shown (take n us))
     \<and> length (sanitize_loop acc us) \<le> sanitize_max_bytes
     \<and> (length us \<le> n \<or> sanitize_max_bytes < length (acc @ concat (map shown (take (Suc n) us))))"
proof (induction us arbitrary: acc)
  case Nil
  then show ?case by (auto simp: sanitize_steps)
next
  case (Cons u us)
  show ?case
  proof (cases "sanitize_max_bytes < length acc + length (shown u)")
    case True
    with Cons.prems show ?thesis by (intro exI [of _ 0]) (simp add: sanitize_steps)
  next
    case False
    then have "length (acc @ shown u) \<le> sanitize_max_bytes" by simp
    from Cons.IH [OF this] obtain n where
      "sanitize_loop (acc @ shown u) us = (acc @ shown u) @ concat (map shown (take n us))"
      "length (sanitize_loop (acc @ shown u) us) \<le> sanitize_max_bytes"
      "length us \<le> n
         \<or> sanitize_max_bytes < length ((acc @ shown u) @ concat (map shown (take (Suc n) us)))"
      by blast
    with False show ?thesis by (intro exI [of _ "Suc n"]) (simp add: sanitize_steps)
  qed
qed

lemma sanitize_longest:
  "\<exists>n. sanitize_controller_text s = concat (map shown (take n (utf8_chars s)))
     \<and> length (sanitize_controller_text s) \<le> sanitize_max_bytes
     \<and> (length (utf8_chars s) \<le> n
        \<or> sanitize_max_bytes < length (concat (map shown (take (Suc n) (utf8_chars s)))))"
  using sanitize_loop_longest [of "[]" "utf8_chars s"] by (simp add: sanitize_controller_text_def)

lemma concat_shown_printable:
  "list_all utf8_char_ok us \<Longrightarrow> \<exists>vs. concat (map shown us) = concat vs \<and> list_all printable vs"
proof (induction us)
  case Nil
  show ?case by (intro exI [of _ "[]"]) simp
next
  case (Cons u us)
  from Cons obtain vs where "concat (map shown us) = concat vs" "list_all printable vs" by auto
  moreover from Cons.prems obtain ws where "shown u = concat ws" "list_all printable ws"
    using shown_printable by auto
  ultimately show ?case by (intro exI [of _ "ws @ vs"]) simp
qed

lemma sanitize_printable:
  assumes "utf8_wf s"
  shows "list_all printable (utf8_chars (sanitize_controller_text s))"
proof -
  obtain n where n: "sanitize_controller_text s = concat (map shown (take n (utf8_chars s)))"
    using sanitize_longest by blast
  have "list_all utf8_char_ok (take n (utf8_chars s))"
    using assms by (auto simp: utf8_wf_def list_all_iff dest: in_set_takeD)
  from concat_shown_printable [OF this] n obtain vs where
    vs: "sanitize_controller_text s = concat vs" "list_all printable vs" by auto
  then have "list_all utf8_char_ok vs" by (auto simp: list_all_iff printable_def)
  with vs show ?thesis by (simp add: utf8_chars_concat)
qed

lemma sanitize_fixed:
  assumes "list_all printable us" and "length acc + length (concat us) \<le> sanitize_max_bytes"
  shows "sanitize_loop acc us = acc @ concat us"
  using assms
  by (induction us arbitrary: acc) (auto simp: sanitize_steps shown_def printable_def)

lemma sanitize_idempotent:
  assumes "utf8_wf s"
  shows "sanitize_controller_text (sanitize_controller_text s) = sanitize_controller_text s"
  using sanitize_fixed [OF sanitize_printable [OF assms], of "[]"] sanitize_longest [of s]
  by (auto simp: sanitize_controller_text_def concat_utf8_chars)

end
