(* ===== verification/Samples.thy ===== *)
theory Samples
  imports Reducer_Body Display_Text
begin

text \<open>
  Small concrete models on which the properties are instantiated: a Controller run, the native
  run it is merged with, a dispatched child, and a run whose history is still being read.
\<close>

definition sample_run :: "nat \<Rightarrow> run_id" where
  "sample_run n = RunId (word_of_nat n)"

definition controller_run :: task_run where
  "controller_run = new_task_run (sample_run 1) (Controller ''task'') (DisplayOrdinal 1) Running True"

definition native_run :: task_run where
  "native_run = new_task_run (sample_run 2) (Native Codex ''session'') (DisplayOrdinal 2) Running False"

definition child_run :: task_run where
  "child_run = new_task_run (sample_run 3) (Controller ''child'') (DisplayOrdinal 3) Queued False"

definition sample_edge :: execution_edge where
  "sample_edge = \<lparr>ee_parent_run_id = sample_run 2, ee_child_run_id = sample_run 3\<rparr>"

definition sample_model :: domain_model where
  "sample_model = fst (insert_execution_edge sample_edge
     (insert_task_run child_run (insert_task_run native_run
       (insert_task_run controller_run domain_model_default))))"

definition unready_state :: task_run_v6_state where
  "unready_state = v6_default\<lparr>v6_history_ready := False\<rparr>"

text \<open>The same model while the history of the native run is read.\<close>

definition unready_model :: domain_model where
  "unready_model = set_v6_state (sample_run 2) unready_state sample_model"

lemmas sample_defs = sample_model_def unready_model_def unready_state_def controller_run_def
  native_run_def child_run_def sample_edge_def sample_run_def new_task_run_def

lemma sample_tables: "tables_ok sample_model" "hm_ok (dm_run_ids_by_key sample_model)"
  by code_simp+

lemma unready_tables: "tables_ok unready_model"
  by code_simp

lemma sample_keyed: "runs_keyed sample_model"
proof -
  have "\<forall>p \<in> set (dm_task_runs sample_model). tr_run_id (snd p) = fst p" by code_simp
  then show ?thesis by (force simp: runs_keyed_def get_task_run_def dest: map_of_SomeD)
qed

lemma sample_rows: "rows_keyed sample_model"
proof -
  have "dm_executions sample_model = []" "dm_agent_nodes sample_model = []" by code_simp+
  then show ?thesis
    using sample_keyed by (simp add: rows_keyed_def get_execution_def get_agent_node_def)
qed

end
