(* ===== verification/Reducer_Events.thy ===== *)
theory Reducer_Events
  imports Reducer_Body
begin

text \<open>
  The rest of the event handlers of \<open>src/reducer.rs\<close>: provider agent nodes and their parent
  links, the body of each normalized event, identity evidence, and \<open>apply_inner\<close>, which runs
  one event through all of them.
\<close>

section \<open>Agent nodes\<close>

definition agent_node_id_for_native :: "domain_model \<Rightarrow> provider \<Rightarrow> string \<Rightarrow> run_id \<Rightarrow> string option" where
  "agent_node_id_for_native m provider sid run_id =
     min_by_key (\<lambda>i. i) (map an_agent_node_id (filter (\<lambda>n. an_task_run_id n = run_id
        \<and> an_provider n = provider \<and> an_native_session_id n = Some sid) (agent_nodes m)))"

definition resolve_parent_node_id :: "domain_model \<Rightarrow> string \<Rightarrow> provider \<Rightarrow> run_id \<Rightarrow> string" where
  "resolve_parent_node_id m requested_id provider run_id =
     (case first_of (filter (\<lambda>n. an_task_run_id n = run_id \<and> an_provider n = provider
          \<and> opt_is_some_and (\<lambda>sid. deterministic_agent_node_id provider sid = requested_id)
               (an_native_session_id n)) (agent_nodes m)) of
        None \<Rightarrow> requested_id
      | Some n \<Rightarrow> an_agent_node_id n)"

text \<open>The loop of \<open>provider_parent_is_valid\<close>: a self-link or a cycle is invalid.\<close>

function parent_walk :: "domain_model \<Rightarrow> string \<Rightarrow> string list \<Rightarrow> string \<Rightarrow> bool" where
  "parent_walk m child_id visited node_id =
     (if node_id = child_id \<or> node_id \<in> set visited then False
      else case get_agent_node m node_id of
             None \<Rightarrow> True
           | Some node \<Rightarrow>
               (case an_parent_agent_node_id node of
                  None \<Rightarrow> True
                | Some parent \<Rightarrow> parent_walk m child_id (hs_insert node_id visited) parent))"
  by pat_completeness auto
termination
proof (relation "measure (\<lambda>(m, child, visited, node).
      card (set (hm_keys (dm_agent_nodes m)) - set visited))", goal_cases)
  case 1
  show ?case by simp
next
  case (2 m child_id visited node_id node parent)
  have "node_id \<in> set (hm_keys (dm_agent_nodes m)) - set visited"
    using 2(1,2) by (force simp: get_agent_node_def dest: map_of_SomeD)
  then have "set (hm_keys (dm_agent_nodes m)) - set (hs_insert node_id visited)
      \<subset> set (hm_keys (dm_agent_nodes m)) - set visited" by auto
  then show ?case by (simp add: psubset_card_mono)
qed

declare parent_walk.simps [simp del]

definition provider_parent_is_valid :: "domain_model \<Rightarrow> string \<Rightarrow> string \<Rightarrow> bool" where
  "provider_parent_is_valid m child_id parent_id \<longleftrightarrow>
     child_id \<noteq> parent_id \<and> parent_walk m child_id [] parent_id"

definition new_agent_node :: "agent_node_observation \<Rightarrow> display_ordinal \<Rightarrow> agent_node" where
  "new_agent_node observed ordinal =
     \<lparr>an_agent_node_id = (case ao_native_session_id observed of
          None \<Rightarrow> ao_agent_node_id observed
        | Some sid \<Rightarrow> deterministic_agent_node_id (ao_provider observed) sid),
      an_provider = ao_provider observed, an_native_session_id = ao_native_session_id observed,
      an_task_run_id = ao_task_run_id observed, an_display_ordinal = ordinal,
      an_parent_agent_node_id = None, an_state = None, an_model_id = None,
      an_last_event_kind = None, an_last_tool_name = None, an_last_item_count = None,
      an_last_byte_count = None, an_last_activity_at_ms = None, an_session_file = None\<rparr>"

text \<open>The observed fields written over a node, but for its parent.\<close>

definition refresh_agent_node :: "agent_node_observation \<Rightarrow> agent_node \<Rightarrow> agent_node" where
  "refresh_agent_node observed node =
     (let node = (if ao_native_session_id observed \<noteq> None
            then node\<lparr>an_native_session_id := ao_native_session_id observed\<rparr> else node);
          node = (case ao_state observed of
              Some ExecEnded \<Rightarrow> node\<lparr>an_state := Some ExecEnded\<rparr>
            | Some ExecWorking \<Rightarrow>
                if an_state node \<noteq> Some ExecEnded then node\<lparr>an_state := Some ExecWorking\<rparr> else node
            | _ \<Rightarrow> node);
          node = (if ao_model_id observed \<noteq> None
            then node\<lparr>an_model_id := ao_model_id observed\<rparr> else node)
      in if ao_session_file observed \<noteq> None
         then node\<lparr>an_session_file := ao_session_file observed\<rparr> else node)"

definition link_agent_node ::
  "agent_node_observation \<Rightarrow> agent_node \<Rightarrow> domain_model \<Rightarrow> domain_model \<times> agent_node" where
  "link_agent_node observed node m =
     (case ao_parent_agent_node_id observed of
        None \<Rightarrow> (m, node)
      | Some parent_id \<Rightarrow>
          let parent_id = resolve_parent_node_id m parent_id (an_provider node) (an_task_run_id node)
          in if provider_parent_is_valid m (an_agent_node_id node) parent_id
             then (m, node\<lparr>an_parent_agent_node_id := Some parent_id\<rparr>)
             else (with_diagnostics record_provider_parent_conflict m, node))"

definition apply_agent_node_observation :: "agent_node_observation \<Rightarrow> work \<Rightarrow> unit attempt" where
  "apply_agent_node_observation observed w =
     (if get_task_run (model_of w) (ao_task_run_id observed) = None then done_with () w
      else
        let m = model_of w;
            by_session = (case ao_native_session_id observed of
                None \<Rightarrow> None
              | Some sid \<Rightarrow>
                  agent_node_id_for_native m (ao_provider observed) sid (ao_task_run_id observed));
            existing_id = (case by_session of
                Some i \<Rightarrow> Some i
              | None \<Rightarrow> map_option an_agent_node_id (get_agent_node m (ao_agent_node_id observed)))
        in and_then
          (case (case existing_id of None \<Rightarrow> None | Some i \<Rightarrow> get_agent_node m i) of
             Some node \<Rightarrow> done_with node w
           | None \<Rightarrow> and_then (alloc w) (\<lambda>ordinal. done_with (new_agent_node observed ordinal)))
          (\<lambda>node w.
             case link_agent_node observed (refresh_agent_node observed node) (model_of w) of
               (m, node) \<Rightarrow>
                 done_with () (push_op (UpsertAgentNode node)
                   (on_model (insert_agent_node node) (on_model (\<lambda>_. m) w)))))"

definition refresh_activity :: "minimal_provider_metadata \<Rightarrow> i64 \<Rightarrow> agent_node \<Rightarrow> agent_node" where
  "refresh_activity activity timestamp_ms node =
     node\<lparr>an_last_activity_at_ms := Some timestamp_ms,
       an_model_id := opt_or (mp_model_id activity) (an_model_id node),
       an_last_event_kind := opt_or (mp_event_kind activity) (an_last_event_kind node),
       an_last_tool_name := opt_or (mp_tool_name activity) (an_last_tool_name node),
       an_last_item_count := opt_or (mp_item_count activity) (an_last_item_count node),
       an_last_byte_count := opt_or (mp_byte_count activity) (an_last_byte_count node)\<rparr>"

definition apply_agent_activity ::
  "string \<Rightarrow> minimal_provider_metadata \<Rightarrow> event_metadata \<Rightarrow> work \<Rightarrow> work" where
  "apply_agent_activity requested_id activity md w =
     (let m = model_of w;
          resolved_id = (case map_option an_agent_node_id (get_agent_node m requested_id) of
              Some i \<Rightarrow> Some i
            | None \<Rightarrow>
                (case opt_zip (md_provider md) (mp_agent_id activity) of
                   None \<Rightarrow> None
                 | Some (provider, sid) \<Rightarrow>
                     min_by_key (\<lambda>i. i) (map an_agent_node_id (filter (\<lambda>n. an_provider n = provider
                       \<and> an_native_session_id n = Some sid) (agent_nodes m)))))
      in case (case resolved_id of None \<Rightarrow> None | Some i \<Rightarrow> get_agent_node m i) of
           None \<Rightarrow> w
         | Some node \<Rightarrow>
             if opt_is_some_and (\<lambda>observed. md_timestamp_ms md < observed) (an_last_activity_at_ms node)
             then w
             else let node = refresh_activity activity (md_timestamp_ms md) node
                  in push_op (UpsertAgentNode node) (on_model (insert_agent_node node) w))"

section \<open>The body of an event\<close>

text \<open>The label an upsert stores: a partial source keeps the known one, an authoritative one clears it.\<close>

definition upsert_label :: "topology_authority \<Rightarrow> string option \<Rightarrow> string option \<Rightarrow> string option" where
  "upsert_label authority supplied current =
     (case authority of
        Partial \<Rightarrow> opt_or (map_option sanitize_controller_text supplied) current
      | Authoritative \<Rightarrow>
          opt_filter (\<lambda>label. label \<noteq> []) (map_option sanitize_controller_text supplied))"

definition upsert_tab :: "topology_authority \<Rightarrow> tab \<Rightarrow> work \<Rightarrow> unit attempt" where
  "upsert_tab authority t w =
     (if get_workspace (model_of w) (tb_workspace_id t) = None then done_with () w
      else
        let t = t\<lparr>tb_label := upsert_label authority (tb_label t)
              (case get_tab (model_of w) (tb_tab_id t) of None \<Rightarrow> None | Some c \<Rightarrow> tb_label c)\<rparr>
        in and_then (topology_alloc KindTab (tb_tab_id t) w) (\<lambda>ordinal w.
          let w = push_op (UpsertTab t ordinal) (on_model (insert_tab t) w)
          in done_with () (if authority = Authoritative \<and> tb_label t = None
               then push_op (ClearTabLabel (tb_tab_id t)) w else w)))"

definition upsert_pane :: "topology_authority \<Rightarrow> pane \<Rightarrow> work \<Rightarrow> unit attempt" where
  "upsert_pane authority p w =
     (if get_tab (model_of w) (pn_tab_id p) = None then done_with () w
      else
        let p = p\<lparr>pn_display_name := upsert_label authority (pn_display_name p)
              (case get_pane (model_of w) (pn_pane_id p) of None \<Rightarrow> None | Some c \<Rightarrow> pn_display_name c)\<rparr>
        in and_then (topology_alloc KindPane (pn_pane_id p) w) (\<lambda>ordinal w.
          let w = push_op (UpsertPane p ordinal) (on_model (insert_pane p) w)
          in done_with () (if authority = Authoritative \<and> pn_display_name p = None
               then push_op (ClearPaneDisplayName (pn_pane_id p)) w else w)))"

definition apply_topology_upsert :: "topology_authority \<Rightarrow> topology_entity \<Rightarrow> work \<Rightarrow> unit attempt" where
  "apply_topology_upsert authority entity w =
     (case entity of
        EntityWorkspace workspace \<Rightarrow>
          and_then (topology_alloc KindWorkspace (ws_workspace_id workspace) w) (\<lambda>ordinal w.
            done_with () (push_op (UpsertWorkspace workspace ordinal)
              (on_model (insert_workspace workspace) w)))
      | EntityTab t \<Rightarrow> upsert_tab authority t w
      | EntityPane p \<Rightarrow> upsert_pane authority p w)"

definition controller_run_kind ::
  "controller_event_kind \<Rightarrow> event_metadata \<Rightarrow> domain_model \<Rightarrow> domain_model" where
  "controller_run_kind kind md m =
     (if (case kind of CtlDispatch _ \<Rightarrow> True | CtlTaskStarted \<Rightarrow> True | _ \<Rightarrow> False)
      then case (md_task_run_id md, case md_provider_metadata md of None \<Rightarrow> None
                   | Some provider \<Rightarrow> mp_event_kind provider) of
             (Some run_id, Some event_kind) \<Rightarrow> set_run_kind run_id event_kind m
           | _ \<Rightarrow> m
      else m)"

fun apply_event_body :: "normalized_event \<Rightarrow> event_metadata \<Rightarrow> work \<Rightarrow> unit attempt" where
  "apply_event_body (ControllerEvent _ kind) md w = done_with () (on_model (controller_run_kind kind md) w)"
| "apply_event_body (TopologyUpsert _ authority entity) md w = apply_topology_upsert authority entity w"
| "apply_event_body (TopologyClosure _ entity) md w =
     done_with () (apply_topology_closure entity (md_receipt_time_ms md) w)"
| "apply_event_body (AgentStatusChanged _ execution_id state) md w =
     done_with () (apply_execution_state execution_id state md w)"
| "apply_event_body (AgentNodeUpsert _ node) md w = apply_agent_node_observation node w"
| "apply_event_body (AgentActivity _ agent_node_id activity) md w =
     done_with () (apply_agent_activity agent_node_id activity md w)"
| "apply_event_body (ExecutionBegin _ e) md w = done_with () (on_model (insert_execution e) w)"
| "apply_event_body (ExecutionEnd _ execution_id) md w =
     done_with () (end_execution execution_id (md_receipt_time_ms md) w)"

section \<open>Identity evidence\<close>

definition is_promotion :: "persist_op \<Rightarrow> bool" where
  "is_promotion op = (case op of PromoteTaskRunKey _ _ _ \<Rightarrow> True | _ \<Rightarrow> False)"

text \<open>\<open>apply_binding_plan_at\<close> mints an identifier only for a promotion from a native path.\<close>

definition apply_plan_on :: "env \<Rightarrow> binding_plan \<Rightarrow> i64 \<Rightarrow> reducer \<Rightarrow> reducer \<times> (merge_conflict + persist_batch)" where
  "apply_plan_on E plan bookkeeping_time_ms r =
     (case apply_binding_plan_at (en_fresh E (rd_minted r)) plan bookkeeping_time_ms (rd_model r) of
        (m, Inl conflict) \<Rightarrow> (r\<lparr>rd_model := m\<rparr>, Inl conflict)
      | (m, Inr batch) \<Rightarrow>
          (r\<lparr>rd_model := m,
             rd_minted := (if list_ex is_promotion batch then rd_minted r + 1 else rd_minted r)\<rparr>,
           Inr batch))"

definition apply_binding :: "env \<Rightarrow> binding_evidence \<Rightarrow> i64 \<Rightarrow> work \<Rightarrow> unit attempt" where
  "apply_binding E evidence bookkeeping_time_ms w =
     (case apply_plan_on E (plan_binding (model_of w) evidence) bookkeeping_time_ms (fst w) of
        (r, Inl conflict) \<Rightarrow> ((r, snd w), Inl (BindingConflict conflict))
      | (r, Inr batch) \<Rightarrow> ((r, snd w @ batch), Inr ()))"

definition event_run :: "domain_model \<Rightarrow> normalized_event \<Rightarrow> run_id option" where
  "event_run m event =
     (case event of
        ExecutionBegin _ e \<Rightarrow> Some (ex_task_run_id e)
      | AgentNodeUpsert _ node \<Rightarrow> Some (ao_task_run_id node)
      | AgentStatusChanged _ execution_id _ \<Rightarrow> map_option ex_task_run_id (get_execution m execution_id)
      | ExecutionEnd _ execution_id \<Rightarrow> map_option ex_task_run_id (get_execution m execution_id)
      | _ \<Rightarrow> None)"

definition native_evidence :: "event_metadata \<Rightarrow> run_id \<Rightarrow> run_key \<Rightarrow> provider \<Rightarrow> string \<Rightarrow> binding_evidence" where
  "native_evidence md run_id key provider sid =
     (if md_source md = ''provider'' \<and> md_source_event_type md = ''session_resolved'' \<and> is_native_path key
      then NativePathResolved run_id provider sid
      else if is_controller key then ControllerNativeSession run_id provider sid
      else NativeSession run_id provider sid)"

definition apply_identity_metadata ::
  "env \<Rightarrow> normalized_event \<Rightarrow> event_metadata \<Rightarrow> work \<Rightarrow> unit attempt" where
  "apply_identity_metadata E event md w =
     (let timestamp_ms = run_bookkeeping_time_ms md in
      case opt_or (md_task_run_id md) (event_run (model_of w) event) of
        None \<Rightarrow> done_with () w
      | Some run_id \<Rightarrow>
      (case get_task_run (model_of w) run_id of
        None \<Rightarrow> done_with () w
      | Some t \<Rightarrow>
        and_then
          (case opt_filter (\<lambda>(_, sid). sid \<noteq> []) (opt_zip (md_provider md) (md_native_session_id md)) of
             None \<Rightarrow> done_with () w
           | Some (provider, sid) \<Rightarrow>
               apply_binding E (native_evidence md run_id (tr_key t) provider sid) timestamp_ms w)
       (\<lambda>_ w. and_then
          (case (get_task_run (model_of w) run_id, md_terminal_id md) of
             (Some t, Some terminal_id) \<Rightarrow>
               if is_controller (tr_key t) \<and> terminal_id \<noteq> []
               then apply_binding E (ControllerTerminal run_id terminal_id) timestamp_ms w
               else done_with () w
           | _ \<Rightarrow> done_with () w)
       (\<lambda>_ w. done_with ()
          (case event of
             ExecutionBegin _ e \<Rightarrow>
               (case get_execution (model_of w) (ex_execution_id e) of
                  None \<Rightarrow> w
                | Some current \<Rightarrow>
                    if exec_is_terminal (ex_state current) then w
                    else activate_for_live_execution (ex_task_run_id current) timestamp_ms w)
           | _ \<Rightarrow> w)))))"

definition persist_event_execution :: "normalized_event \<Rightarrow> i64 \<Rightarrow> work \<Rightarrow> work" where
  "persist_event_execution event timestamp_ms w =
     (case (case event of
              AgentStatusChanged _ execution_id _ \<Rightarrow> Some execution_id
            | ExecutionBegin _ e \<Rightarrow> Some (ex_execution_id e)
            | _ \<Rightarrow> None) of
        None \<Rightarrow> w
      | Some execution_id \<Rightarrow>
          (case get_execution (model_of w) execution_id of
             None \<Rightarrow> w
           | Some e \<Rightarrow> push_op (persist_execution_op e timestamp_ms) w))"

section \<open>One event\<close>

definition has_session :: "event_metadata \<Rightarrow> bool" where
  "has_session md \<longleftrightarrow> md_provider md \<noteq> None
     \<and> opt_is_some_and (\<lambda>sid. sid \<noteq> []) (md_native_session_id md)"

definition lane_native_terminal :: "normalized_event \<Rightarrow> bool" where
  "lane_native_terminal event =
     (case event of
        ControllerEvent md kind \<Rightarrow>
          kind \<in> {CtlComplete, CtlFailed, CtlCancelled} \<and> md_source md = source_log_lane \<and> has_session md
      | _ \<Rightarrow> False)"

definition lifecycle_end :: "normalized_event \<Rightarrow> native_session_end_status option" where
  "lifecycle_end event =
     (case event of
        ControllerEvent _ CtlComplete \<Rightarrow> Some EndDone
      | ControllerEvent _ CtlFailed \<Rightarrow> Some EndError
      | ControllerEvent _ CtlCancelled \<Rightarrow> Some EndCancelled
      | _ \<Rightarrow> None)"

definition lifecycle_reopen :: "normalized_event \<Rightarrow> event_metadata \<Rightarrow> bool" where
  "lifecycle_reopen event md \<longleftrightarrow>
     (case event of ControllerEvent _ CtlTaskStarted \<Rightarrow> True | _ \<Rightarrow> False) \<and> has_session md"

definition matching_live :: "domain_model \<Rightarrow> normalized_event \<Rightarrow> bool" where
  "matching_live m event =
     (case event of
        ExecutionBegin _ e \<Rightarrow> \<not> exec_is_terminal (ex_state e)
      | AgentStatusChanged _ execution_id _ \<Rightarrow>
          opt_is_some_and (\<lambda>e. \<not> exec_is_terminal (ex_state e)) (get_execution m execution_id)
      | AgentNodeUpsert _ node \<Rightarrow> opt_is_some_and (\<lambda>s. \<not> exec_is_terminal s) (ao_state node)
      | AgentActivity _ _ _ \<Rightarrow> True
      | _ \<Rightarrow> False)"

text \<open>The run the session of the metadata is bound to, and one lifecycle update of it.\<close>

definition session_run :: "domain_model \<Rightarrow> event_metadata \<Rightarrow> run_id option" where
  "session_run m md =
     (case opt_zip (md_provider md) (md_native_session_id md) of
        None \<Rightarrow> None
      | Some (provider, sid) \<Rightarrow> map_option tr_run_id (task_run_by_key m (Native provider sid)))"

definition session_lifecycle ::
  "bool \<Rightarrow> native_session_end_status option \<Rightarrow> event_metadata \<Rightarrow> work \<Rightarrow> work" where
  "session_lifecycle applies end_status md w =
     (case (if applies then session_run (model_of w) md else None) of
        None \<Rightarrow> w
      | Some run_id \<Rightarrow>
          apply_native_lifecycle run_id end_status
            (Watermark (md_timestamp_ms md) (md_receipt_time_ms md) (md_event_id md)) w)"

definition apply_inner :: "env \<Rightarrow> normalized_event \<Rightarrow> reducer \<Rightarrow> persist_batch attempt" where
  "apply_inner E event r =
     (let native_terminal = lane_native_terminal event;
          event = (if native_terminal
            then map_event_metadata (\<lambda>md. md\<lparr>md_task_state := None\<rparr>) event else event);
          md = event_metadata event
      in and_then (ensure_event_runs E event md (r, []))
         (\<lambda>_ w. and_then (apply_event_body event md (apply_controller_metadata md False w))
         (\<lambda>_ w. and_then (apply_identity_metadata E event md w)
         (\<lambda>_ w.
            let ended = (if native_terminal then lifecycle_end event else None);
                w = session_lifecycle (ended \<noteq> None \<or> lifecycle_reopen event md) ended md w;
                w = session_lifecycle (matching_live (model_of w) event) None md w;
                w = persist_event_execution event (md_receipt_time_ms md) w;
                w = (if native_terminal then w else update_terminal_event_source event w);
                w = push_op (RecordEvent event (md_receipt_time_ms md)) w
            in done_with (snd w) w))))"

end
