(* ===== verification/Reducer_Apply.thy ===== *)
theory Reducer_Apply
  imports Reducer_Events Display_Text
begin

text \<open>
  The operations of \<open>src/reducer.rs\<close> that the collector drives outside the Controller socket:
  observations with their rollback, the heuristic binding, run liveness and telemetry of the
  provider logs, the inactivity closures, the stale sweep and the operator command.
\<close>

section \<open>Observations\<close>

definition finish_batch :: "env \<Rightarrow> persist_batch \<Rightarrow> reducer \<Rightarrow> reducer" where
  "finish_batch E batch r = publish E (apply_operator_submission batch r)"

fun apply_events :: "env \<Rightarrow> normalized_event list \<Rightarrow> work \<Rightarrow> unit attempt" where
  "apply_events E [] w = done_with () w"
| "apply_events E (event # events) w =
     (case apply_inner E event (fst w) of
        ((r, _), Inl error) \<Rightarrow> ((r, snd w), Inl error)
      | ((r, _), Inr event_persist) \<Rightarrow> apply_events E events (r, snd w @ event_persist))"

definition pane_agent_status_changed ::
  "domain_model \<Rightarrow> pane_agent_status_observation option \<Rightarrow> bool" where
  "pane_agent_status_changed m observation =
     opt_is_some_and (\<lambda>obs. get_pane m (po_pane_id obs) \<noteq> None
       \<and> get_pane_agent_status m (po_pane_id obs) \<noteq> Some (po_status obs)) observation"

definition observe_pane_agent ::
  "pane_agent_status_observation \<Rightarrow> reducer \<Rightarrow> reducer" where
  "observe_pane_agent obs r =
     (let r = r\<lparr>rd_pending_rate_observation_runs :=
            hs_extend (rd_pending_rate_observation_runs r)
              (map ex_task_run_id (filter (\<lambda>e. ex_pane_id e = po_pane_id obs)
                 (executions (rd_model r))))\<rparr>
      in with_model (set_pane_agent_status (po_pane_id obs) (po_status obs)) r)"

text \<open>The four fields an observation restores when it fails.\<close>

definition roll_back :: "reducer \<Rightarrow> reducer \<Rightarrow> reducer" where
  "roll_back original r =
     r\<lparr>rd_model := rd_model original, rd_next_ordinal := rd_next_ordinal original,
       rd_terminal_event_sources := rd_terminal_event_sources original,
       rd_non_lane_task_state_runs := rd_non_lane_task_state_runs original\<rparr>"

definition observe_first :: "pane_agent_status_observation option \<Rightarrow> reducer \<Rightarrow> reducer" where
  "observe_first observation r =
     (if pane_agent_status_changed (rd_model r) observation
      then (case observation of None \<Rightarrow> r | Some obs \<Rightarrow> observe_pane_agent obs r) else r)"

definition conclude_observation ::
  "env \<Rightarrow> reducer \<Rightarrow> unit attempt \<Rightarrow> reducer \<times> (reducer_error + apply_outcome)" where
  "conclude_observation E original applied =
     (case applied of
        ((r, _), Inl (BindingConflict conflict)) \<Rightarrow>
          (roll_back original r, Inr (DroppedBindingConflict conflict))
      | ((r, _), Inl OrdinalExhausted) \<Rightarrow> (roll_back original r, Inl OrdinalExhausted)
      | ((r, batch), Inr _) \<Rightarrow>
          let r = recompute_dangling_announcement_components r;
              batch = normalize_persist_batch_lineage batch
          in (finish_batch E batch r, Inr (Applied batch)))"

definition apply_observation_inner ::
  "env \<Rightarrow> normalized_event list \<Rightarrow> pane_agent_status_observation option \<Rightarrow> reducer
     \<Rightarrow> reducer \<times> (reducer_error + apply_outcome)" where
  "apply_observation_inner E events observation r =
     (if events = [] \<and> \<not> pane_agent_status_changed (rd_model r) observation
      then (r, Inr (Applied []))
      else conclude_observation E r (apply_events E events (observe_first observation r, [])))"

definition apply_observation ::
  "env \<Rightarrow> normalized_event list \<Rightarrow> reducer \<Rightarrow> reducer \<times> (reducer_error + apply_outcome)" where
  "apply_observation E events r = apply_observation_inner E events None r"

definition apply_pane_agent_observation ::
  "env \<Rightarrow> normalized_event list \<Rightarrow> pane_agent_status_observation \<Rightarrow> reducer
     \<Rightarrow> reducer \<times> (reducer_error + apply_outcome)" where
  "apply_pane_agent_observation E events obs r = apply_observation_inner E events (Some obs) r"

definition apply_event :: "env \<Rightarrow> normalized_event \<Rightarrow> reducer \<Rightarrow> reducer \<times> (reducer_error + apply_outcome)" where
  "apply_event E event r = apply_observation E [event] r"

definition apply_heuristic_binding ::
  "env \<Rightarrow> run_id \<Rightarrow> string \<Rightarrow> i64 \<Rightarrow> reducer \<Rightarrow> reducer \<times> apply_outcome" where
  "apply_heuristic_binding E run sid bookkeeping_time_ms r =
     (case apply_plan_on E (plan_binding (rd_model r) (HeuristicNativeSession run sid))
             bookkeeping_time_ms r of
        (r, Inl conflict) \<Rightarrow> (r, DroppedBindingConflict conflict)
      | (r, Inr batch) \<Rightarrow>
          let r = recompute_dangling_announcement_components r;
              batch = normalize_persist_batch_lineage batch
          in (finish_batch E batch r, Applied batch))"

section \<open>Diagnostics and restored transients\<close>

definition reducer_record_binding_conflict :: "env \<Rightarrow> reducer \<Rightarrow> reducer" where
  "reducer_record_binding_conflict E r =
     publish E (with_model (with_diagnostics record_binding_conflict) r)"

definition reducer_record_provider_identity_disagreement :: "env \<Rightarrow> reducer \<Rightarrow> reducer" where
  "reducer_record_provider_identity_disagreement E r =
     publish E (with_model (with_diagnostics record_provider_identity_disagreement) r)"

definition resolve_controller_run :: "domain_model \<Rightarrow> string \<Rightarrow> run_id option" where
  "resolve_controller_run m raw =
     (case task_run_by_key m (Controller raw) of
        Some run \<Rightarrow> Some (tr_run_id run)
      | None \<Rightarrow>
          (case strip_prefix ''hook:codex:'' raw of
             None \<Rightarrow> None
           | Some sid \<Rightarrow>
               if sid = [] \<or> CHR '':'' \<in> set sid then None
               else map_option tr_run_id
                 (opt_filter (\<lambda>owner. tr_key owner = Controller sid)
                   (task_run_by_key m (Native Codex sid)))))"

definition restore_replayed_controller_transients :: "env \<Rightarrow> controller_event \<Rightarrow> reducer \<Rightarrow> reducer" where
  "restore_replayed_controller_transients E event r =
     (if md_source (ce_metadata event) \<noteq> source_log_lane then r
      else case resolve_controller_run (rd_model r) (ce_task_run_id event) of
        None \<Rightarrow> r
      | Some run_id \<Rightarrow>
          let observed_kind = (case md_provider_metadata (ce_metadata event) of
                  None \<Rightarrow> None | Some provider \<Rightarrow> mp_event_kind provider);
              set_kind = (case observed_kind of
                  None \<Rightarrow> r
                | Some kind \<Rightarrow>
                    if get_run_kind (rd_model r) run_id = None \<and> kind \<noteq> []
                    then publish E (with_model (set_run_kind run_id kind) r) else r);
              claim_terminal = r\<lparr>rd_terminal_event_sources :=
                  (case hm_get (rd_terminal_event_sources r) run_id of
                     None \<Rightarrow> hm_put run_id source_log_lane (rd_terminal_event_sources r)
                   | Some _ \<Rightarrow> rd_terminal_event_sources r)\<rparr>
          in case ce_event event of
               CtlDispatch _ \<Rightarrow> set_kind
             | CtlTaskStarted \<Rightarrow> set_kind
             | CtlComplete \<Rightarrow> claim_terminal
             | CtlFailed \<Rightarrow> claim_terminal
             | CtlCancelled \<Rightarrow> claim_terminal
             | _ \<Rightarrow> r)"

definition restore_terminal_event_sources :: "(run_id, string) hmap \<Rightarrow> reducer \<Rightarrow> reducer" where
  "restore_terminal_event_sources sources r =
     r\<lparr>rd_terminal_event_sources :=
         hm_retain (\<lambda>run_id _. get_task_run (rd_model r) run_id \<noteq> None) sources\<rparr>"

definition restore_non_lane_task_state_runs :: "run_id list \<Rightarrow> reducer \<Rightarrow> reducer" where
  "restore_non_lane_task_state_runs runs r =
     r\<lparr>rd_non_lane_task_state_runs :=
         filter (\<lambda>run_id. get_task_run (rd_model r) run_id \<noteq> None) runs\<rparr>"

section \<open>Provider liveness, telemetry and lane closure\<close>

definition touch_run_liveness_observed ::
  "env \<Rightarrow> run_key \<Rightarrow> i64 \<Rightarrow> i64 \<Rightarrow> reducer \<Rightarrow> reducer \<times> persist_batch" where
  "touch_run_liveness_observed E key at_ms observed_at_ms r =
     (case task_run_by_key (rd_model r) key of
        None \<Rightarrow> (r, [])
      | Some t \<Rightarrow>
      let watermark = Watermark at_ms observed_at_ms
            (''provider-liveness:'' @ stable_provider_lifecycle_run_key_identity key)
      in
      if tr_dismissed_at_ms t \<noteq> None then (r, [])
      else if task_is_terminal (tr_state t)
      then (case apply_native_lifecycle (tr_run_id t) None watermark (r, []) of
              (r, batch) \<Rightarrow> if batch = [] then (r, []) else (finish_batch E batch r, batch))
      else if opt_is_some_and (\<lambda>updated_at_ms. at_ms \<le> updated_at_ms
                \<and> opt_is_none_or (\<lambda>s. v6_native_session_end s = None)
                    (get_v6_state (rd_model r) (tr_run_id t))) (tr_updated_at_ms t)
      then (r, [])
      else
        let t = touch_task_run at_ms t;
            r = with_model (insert_task_run t) r;
            (r, batch) = apply_native_lifecycle (tr_run_id t) None watermark
              (r, [persist_task_run (rd_model r) t at_ms])
        in (finish_batch E batch r, batch))"

definition touch_run_liveness :: "env \<Rightarrow> run_key \<Rightarrow> i64 \<Rightarrow> reducer \<Rightarrow> reducer \<times> persist_batch" where
  "touch_run_liveness E key at_ms r = touch_run_liveness_observed E key at_ms at_ms r"

definition apply_telemetry_with_breakdown ::
  "env \<Rightarrow> run_key \<Rightarrow> pending_telemetry \<Rightarrow> reducer \<Rightarrow> reducer" where
  "apply_telemetry_with_breakdown E key sample r =
     (if task_run_by_key (rd_model r) key \<noteq> None
      then publish E (fst (accumulate_telemetry key sample r))
      else set_telemetry_queue (enqueue_pending_telemetry key sample (telemetry_queue_of r)) r)"

definition apply_lane_close_observed ::
  "env \<Rightarrow> run_key \<Rightarrow> i64 \<Rightarrow> i64 \<Rightarrow> reducer \<Rightarrow> reducer \<times> persist_batch" where
  "apply_lane_close_observed E key at_ms observed_at_ms r =
     (case task_run_by_key (rd_model r) key of
        None \<Rightarrow> (r, [])
      | Some t \<Rightarrow>
          if tr_dismissed_at_ms t \<noteq> None \<or> task_is_terminal (tr_state t)
             \<or> has_live_execution (rd_model r) (tr_run_id t)
             \<or> tr_run_id t \<in> set (rd_non_lane_task_state_runs r)
          then (r, [])
          else if native_binding (rd_model r) (tr_run_id t) \<noteq> None
          then (case apply_native_lifecycle (tr_run_id t) (Some EndUnknown)
                  (Watermark at_ms observed_at_ms
                    (''provider-lane-close:'' @ stable_provider_lifecycle_run_key_identity key))
                  (r, []) of
                  (r, batch) \<Rightarrow> (finish_batch E batch r, batch))
          else
            let t = touch_task_run at_ms (t\<lparr>tr_state := EndedUnknown\<rparr>);
                r = with_model (insert_task_run t) r;
                batch = [persist_task_run (rd_model r) t at_ms]
            in (finish_batch E batch r, batch))"

definition apply_lane_close :: "env \<Rightarrow> run_key \<Rightarrow> i64 \<Rightarrow> reducer \<Rightarrow> reducer \<times> persist_batch" where
  "apply_lane_close E key at_ms r = apply_lane_close_observed E key at_ms at_ms r"

section \<open>The stale sweep\<close>

text \<open>\<open>updated_at_ms.or(created_at_ms)\<close>, and the closure of one inactive run.\<close>

definition activity_anchor :: "task_run \<Rightarrow> i64 option" where
  "activity_anchor t = opt_or (tr_updated_at_ms t) (tr_created_at_ms t)"

definition end_inactive_run :: "run_id \<Rightarrow> i64 \<Rightarrow> work \<Rightarrow> work" where
  "end_inactive_run run_id timestamp_ms w =
     (case get_task_run (model_of w) run_id of
        None \<Rightarrow> w
      | Some t \<Rightarrow> store_run (touch_task_run timestamp_ms (t\<lparr>tr_state := EndedUnknown\<rparr>)) timestamp_ms w)"

definition inactive_dispatch_only_runs :: "env \<Rightarrow> i64 \<Rightarrow> domain_model \<Rightarrow> run_id list" where
  "inactive_dispatch_only_runs E now_ms m =
     sort (map tr_run_id (filter (\<lambda>run. is_controller (tr_key run)
         \<and> tr_run_id run \<notin> set (runs_with_executions m)
         \<and> tr_state run = Queued
         \<and> tr_dismissed_at_ms run = None
         \<and> opt_is_some_and (\<lambda>anchor_ms.
             dt_headless_inactivity_ms (en_timing E) \<le> i64_saturating_sub now_ms anchor_ms)
             (activity_anchor run)) (task_runs m)))"

definition close_inactive_dispatch_only_runs :: "env \<Rightarrow> i64 \<Rightarrow> work \<Rightarrow> work" where
  "close_inactive_dispatch_only_runs E now_ms w =
     fold (\<lambda>run_id. end_inactive_run run_id now_ms)
       (inactive_dispatch_only_runs E now_ms (model_of w)) w"

definition inactive_fact_timed_runs :: "env \<Rightarrow> i64 \<Rightarrow> reducer \<Rightarrow> (run_id \<times> i64) list" where
  "inactive_fact_timed_runs E now_ms r =
     sort_key fst (filter_map (\<lambda>run.
         if (is_controller (tr_key run) \<or> is_provisional (tr_key run)) \<and> tr_state run = Running
            \<and> tr_dismissed_at_ms run = None
            \<and> tr_run_id run \<notin> set (rd_non_lane_task_state_runs r)
            \<and> \<not> has_live_execution (rd_model r) (tr_run_id run)
         then (case activity_anchor run of
                 None \<Rightarrow> None
               | Some anchor_ms \<Rightarrow>
                   if dt_headless_inactivity_ms (en_timing E) \<le> i64_saturating_sub now_ms anchor_ms
                   then Some (tr_run_id run, anchor_ms) else None)
         else None) (task_runs (rd_model r)))"

definition close_inactive_fact_timed_runs :: "env \<Rightarrow> i64 \<Rightarrow> work \<Rightarrow> work" where
  "close_inactive_fact_timed_runs E now_ms w =
     fold (\<lambda>(run_id, anchor_ms). end_inactive_run run_id anchor_ms)
       (inactive_fact_timed_runs E now_ms (fst w)) w"

definition stale_executions :: "i64 \<Rightarrow> domain_model \<Rightarrow> string list" where
  "stale_executions now_ms m =
     filter_map (\<lambda>e. case ex_state e of
         ExecStale since_ms \<Rightarrow>
           if stale_grace_ms \<le> i64_saturating_sub now_ms since_ms then Some (ex_execution_id e) else None
       | _ \<Rightarrow> None) (executions m)"

definition sweep_stale :: "env \<Rightarrow> i64 \<Rightarrow> reducer \<Rightarrow> reducer \<times> persist_batch" where
  "sweep_stale E now_ms r =
     (let w = fold (\<lambda>i. end_execution i now_ms) (stale_executions now_ms (rd_model r)) (r, []);
          w = close_inactive_dispatch_only_runs E now_ms w;
          (r, batch) = close_inactive_fact_timed_runs E now_ms w
      in if batch = [] then (r, [])
         else (finish_batch E batch (recompute_dangling_announcement_components r), batch))"

section \<open>The operator command\<close>

definition clearable_runs :: "operator_command \<Rightarrow> i64 \<Rightarrow> domain_model \<Rightarrow> run_id list" where
  "clearable_runs command now_ms m =
     map tr_run_id (filter (\<lambda>run. tr_dismissed_at_ms run = None
        \<and> (case command of DismissClearable \<Rightarrow> task_is_terminal (tr_state run)
             \<or> is_hook_only_stale_task_run run (runs_with_executions m) now_ms)) (task_runs m))"

definition dismiss_run :: "run_id \<Rightarrow> i64 \<Rightarrow> work \<Rightarrow> work" where
  "dismiss_run run_id now_ms w =
     (case get_task_run (model_of w) run_id of
        None \<Rightarrow> w
      | Some t \<Rightarrow> store_run (t\<lparr>tr_dismissed_at_ms := Some now_ms\<rparr>) now_ms w)"

definition apply_operator_command ::
  "env \<Rightarrow> operator_command \<Rightarrow> i64 \<Rightarrow> reducer \<Rightarrow> reducer \<times> persist_batch" where
  "apply_operator_command E command now_ms r =
     (let run_ids = clearable_runs command now_ms (rd_model r) in
      if run_ids = [] then (r, [])
      else case fold (\<lambda>i. dismiss_run i now_ms) run_ids (r, []) of
             (r, batch) \<Rightarrow> (finish_batch E batch r, batch))"

end
