(* ===== verification/Reducer_Controller.thy ===== *)
theory Reducer_Controller
  imports Reducer_Apply
begin

text \<open>
  The Controller input of \<open>src/reducer.rs\<close>: validation of one Controller event on a throwaway
  copy of the reducer, the commit of its staged result, and the decoration of batches for the
  writer. The identifiers a validation mints are consumed when its result is committed.
\<close>

record controller_diagnostic_deltas =
  dd_terminal_blocked_progress_noops :: u64
  dd_terminal_forward_reference_creations :: u64
  dd_unknown_lane_terminal_drops :: u64
  dd_post_dangling_announcement_components :: u64

definition diagnostic_deltas_default :: controller_diagnostic_deltas where
  "diagnostic_deltas_default =
     \<lparr>dd_terminal_blocked_progress_noops = 0, dd_terminal_forward_reference_creations = 0,
      dd_unknown_lane_terminal_drops = 0, dd_post_dangling_announcement_components = 0\<rparr>"

text \<open>\<open>dl_minted\<close> carries the number of identifiers drawn from the environment.\<close>

record materialized_delta =
  dl_post_model :: domain_model
  dl_post_next_ordinal :: i64
  dl_post_terminal_event_sources :: "(run_id, string) hmap"
  dl_post_non_lane_task_state_runs :: "run_id list"
  dl_diagnostic_deltas :: controller_diagnostic_deltas
  dl_batch :: persist_batch
  dl_minted :: nat

datatype commit_staged_error = IngestSequenceExhausted

section \<open>Validation\<close>

definition controller_event_invalid :: "controller_event \<Rightarrow> bool" where
  "controller_event_invalid event \<longleftrightarrow>
     ce_schema_version event \<noteq> 1
     \<or> md_event_id (ce_metadata event) = []
     \<or> starts_with (md_event_id (ce_metadata event)) ''prov:''
     \<or> md_source (ce_metadata event) = []
     \<or> ce_task_run_id event = []
     \<or> md_native_session_id (ce_metadata event) \<noteq> None \<and> md_provider (ce_metadata event) = None
     \<or> md_source (ce_metadata event) = source_log_lane \<and> md_timestamp_ms (ce_metadata event) \<le> 0
     \<or> opt_is_some_and (\<lambda>progress. 10000 < progress) (md_progress (ce_metadata event))"

definition is_terminal_kind :: "controller_event_kind \<Rightarrow> bool" where
  "is_terminal_kind kind \<longleftrightarrow> kind = CtlComplete \<or> kind = CtlFailed \<or> kind = CtlCancelled"

text \<open>\<open>resolve_controller_run(..).unwrap_or_default()\<close>: an unknown key draws a fresh identifier.\<close>

definition resolve_or_mint :: "env \<Rightarrow> domain_model \<Rightarrow> nat \<Rightarrow> string \<Rightarrow> run_id \<times> nat" where
  "resolve_or_mint E m minted raw =
     (case resolve_controller_run m raw of
        Some run \<Rightarrow> (run, minted)
      | None \<Rightarrow> (en_fresh E minted, minted + 1))"

definition lane_native_end :: "event_metadata \<Rightarrow> controller_event_kind \<Rightarrow> bool" where
  "lane_native_end md kind \<longleftrightarrow> md_source md = source_log_lane \<and> has_session md \<and> is_terminal_kind kind"

definition controller_metadata :: "controller_event \<Rightarrow> run_id \<Rightarrow> event_metadata" where
  "controller_metadata event subject =
     (let md = ce_metadata event;
          md = md\<lparr>md_label := map_option sanitize_controller_text (md_label md),
                  md_reason := map_option sanitize_controller_text (md_reason md),
                  md_task_run_id := Some subject,
                  md_source_event_type := controller_kind_name (ce_event event),
                  md_task_state := controller_target_state (ce_event event),
                  md_execution_parent := None, md_dependency := None, md_ingest_seq := None\<rparr>
      in if lane_native_end md (ce_event event) then md\<lparr>md_task_state := None\<rparr> else md)"

text \<open>The edge a dispatch or a dependency names; \<open>None\<close> is the rejection of an empty key.\<close>

definition controller_edges ::
  "env \<Rightarrow> domain_model \<Rightarrow> nat \<Rightarrow> controller_event \<Rightarrow> run_id \<Rightarrow> event_metadata
     \<Rightarrow> (event_metadata \<times> nat) option" where
  "controller_edges E m minted event subject md =
     (let other = (\<lambda>raw. if raw = ce_task_run_id event then (subject, minted)
            else resolve_or_mint E m minted raw)
      in case ce_event event of
           CtlDispatch parent_task_run_id \<Rightarrow>
             if parent_task_run_id = [] then None
             else (case other parent_task_run_id of (parent, minted) \<Rightarrow>
               Some (md\<lparr>md_execution_parent := Some
                 \<lparr>ee_parent_run_id = parent, ee_child_run_id = subject\<rparr>\<rparr>, minted))
         | CtlDependsOn depends_on_id \<Rightarrow>
             if depends_on_id = [] then None
             else (case other depends_on_id of (prerequisite, minted) \<Rightarrow>
               Some (md\<lparr>md_dependency := Some
                 \<lparr>de_prerequisite_run_id = prerequisite, de_dependent_run_id = subject\<rparr>\<rparr>, minted))
         | _ \<Rightarrow> Some (md, minted))"

definition validate_controller_transition ::
  "domain_model \<Rightarrow> controller_event_kind \<Rightarrow> run_id \<Rightarrow> bool \<Rightarrow> execution_edge option
     \<Rightarrow> dependency_edge option \<Rightarrow> bool \<Rightarrow> reject_reason + controller_diagnostic_deltas" where
  "validate_controller_transition m kind subject subject_was_unknown edge dependency native_terminal =
     (case get_task_run m subject of
        None \<Rightarrow> Inl Invalid
      | Some t \<Rightarrow>
      let state = tr_state t; deltas = diagnostic_deltas_default;
          semantic_end = (state \<in> {Completed, Failed, Cancelled});
          terminal = (\<lambda>target.
            if native_terminal then Inr deltas
            else if semantic_end \<and> state \<noteq> target then Inl Rejected_Conflict
            else Inr (if subject_was_unknown
                then deltas\<lparr>dd_terminal_forward_reference_creations := 1\<rparr> else deltas));
          noop = (if semantic_end then deltas\<lparr>dd_terminal_blocked_progress_noops := 1\<rparr> else deltas)
      in case kind of
           CtlDispatch _ \<Rightarrow>
             (case edge of
                None \<Rightarrow> Inl Invalid
              | Some e \<Rightarrow>
                  (case preflight_execution_edge m e of
                     Inl conflict \<Rightarrow> Inl (reject_merge_conflict conflict)
                   | Inr _ \<Rightarrow> Inr deltas))
         | CtlDependsOn _ \<Rightarrow>
             (case dependency of
                None \<Rightarrow> Inl Invalid
              | Some e \<Rightarrow>
                  if task_is_terminal state \<and> e \<notin> set (dm_dependency_edges m) then Inl StaleEvent
                  else (case preflight_dependency_edge m e of
                     Inl conflict \<Rightarrow> Inl (reject_merge_conflict conflict)
                   | Inr _ \<Rightarrow> Inr deltas))
         | CtlTaskStarted \<Rightarrow>
             if semantic_end \<and> native_binding m subject = None then Inl StaleEvent else Inr deltas
         | CtlBlocked \<Rightarrow> Inr noop
         | CtlProgress \<Rightarrow> Inr noop
         | CtlDismiss \<Rightarrow> Inr deltas
         | CtlSessionEnded \<Rightarrow> Inr deltas
         | CtlComplete \<Rightarrow> terminal Completed
         | CtlFailed \<Rightarrow> terminal Failed
         | CtlCancelled \<Rightarrow> terminal Cancelled)"

text \<open>The throwaway reducer of a validation, and the result it materializes.\<close>

definition scratch_reducer :: "reducer \<Rightarrow> nat \<Rightarrow> reducer" where
  "scratch_reducer r minted =
     (reducer_new (rd_model r) (rd_next_ordinal r) (rd_next_ingest_seq r) [] [])
       \<lparr>rd_terminal_event_sources := rd_terminal_event_sources r,
        rd_non_lane_task_state_runs := rd_non_lane_task_state_runs r, rd_minted := minted\<rparr>"

definition materialize ::
  "reducer \<Rightarrow> controller_diagnostic_deltas \<Rightarrow> domain_model \<Rightarrow> persist_batch \<Rightarrow> materialized_delta" where
  "materialize scratch deltas counted batch =
     \<lparr>dl_post_model = rd_model scratch, dl_post_next_ordinal = rd_next_ordinal scratch,
      dl_post_terminal_event_sources = rd_terminal_event_sources scratch,
      dl_post_non_lane_task_state_runs = rd_non_lane_task_state_runs scratch,
      dl_diagnostic_deltas = deltas\<lparr>dd_post_dangling_announcement_components :=
          dangling_announcement_components counted\<rparr>,
      dl_batch = batch, dl_minted = rd_minted scratch\<rparr>"

definition session_end_bound :: "domain_model \<Rightarrow> controller_event \<Rightarrow> event_metadata \<Rightarrow> bool" where
  "session_end_bound m event md \<longleftrightarrow>
     opt_is_some_and (\<lambda>b. md_provider md = Some (nb_provider b)
         \<and> md_native_session_id md = Some (nb_native_session_id b))
       (case resolve_controller_run m (ce_task_run_id event) of
          None \<Rightarrow> None | Some run_id \<Rightarrow> native_binding m run_id)"

definition controller_placeholders ::
  "env \<Rightarrow> controller_event_kind \<Rightarrow> event_metadata \<Rightarrow> work \<Rightarrow> (work \<times> (reject_reason + unit))" where
  "controller_placeholders E kind md w =
     (case (kind, md_execution_parent md, md_dependency md) of
        (CtlDispatch parent, Some edge, None) \<Rightarrow>
          (case ensure_controller_placeholder E (ee_parent_run_id edge) (Some parent)
                  (run_bookkeeping_time_ms md) w of
             (w, Inl _) \<Rightarrow> (w, Inl Rejected_Conflict) | (w, Inr _) \<Rightarrow> (w, Inr ()))
      | (CtlDependsOn prerequisite, None, Some edge) \<Rightarrow>
          (case ensure_controller_placeholder E (de_prerequisite_run_id edge) (Some prerequisite)
                  (run_bookkeeping_time_ms md) w of
             (w, Inl _) \<Rightarrow> (w, Inl Rejected_Conflict) | (w, Inr _) \<Rightarrow> (w, Inr ()))
      | (CtlDispatch _, _, _) \<Rightarrow> (w, Inl Invalid)
      | (CtlDependsOn _, _, _) \<Rightarrow> (w, Inl Invalid)
      | _ \<Rightarrow> (w, Inr ()))"

definition controller_end_status ::
  "controller_event_kind \<Rightarrow> bool \<Rightarrow> native_session_end_status option" where
  "controller_end_status kind native_end =
     (if kind = CtlSessionEnded then Some EndDone
      else if native_end
      then (case kind of CtlComplete \<Rightarrow> Some EndDone | CtlFailed \<Rightarrow> Some EndError
            | CtlCancelled \<Rightarrow> Some EndCancelled | _ \<Rightarrow> None)
      else None)"

definition controller_lifecycle ::
  "controller_event \<Rightarrow> event_metadata \<Rightarrow> bool \<Rightarrow> work \<Rightarrow> work" where
  "controller_lifecycle event md native_end w =
     (case opt_or (session_run (model_of w) md)
             (resolve_controller_run (model_of w) (ce_task_run_id event)) of
        None \<Rightarrow> w
      | Some run_id \<Rightarrow>
          let end_status = controller_end_status (ce_event event) native_end
          in if end_status \<noteq> None \<or> ce_event event = CtlTaskStarted
             then apply_native_lifecycle run_id end_status
               (Watermark (md_timestamp_ms md) (md_receipt_time_ms md) (md_event_id md)) w
             else w)"

text \<open>The mutation sequence of an event whose subject is kept.\<close>

definition mutate_controller ::
  "env \<Rightarrow> controller_event \<Rightarrow> run_id \<Rightarrow> bool \<Rightarrow> event_metadata \<Rightarrow> reducer
     \<Rightarrow> reject_reason + materialized_delta" where
  "mutate_controller E event subject subject_was_unknown md scratch =
     (let kind = ce_event event;
          native_end = lane_native_end md kind;
          normalized = ControllerEvent md kind;
          initial_state = (case md_task_state md of None \<Rightarrow> Queued
            | Some state \<Rightarrow> initial_controller_state (md_source_event_type md) state)
      in case ensure_metadata_run E subject md True (Some (ce_task_run_id event)) initial_state
                (scratch, []) of
           (_, Inl _) \<Rightarrow> Inl Rejected_Conflict
         | (w, Inr _) \<Rightarrow>
      (case controller_placeholders E kind md w of
           (_, Inl reason) \<Rightarrow> Inl reason
         | (w, Inr _) \<Rightarrow>
      (case validate_controller_transition (model_of w) kind subject subject_was_unknown
              (md_execution_parent md) (md_dependency md) native_end of
           Inl reason \<Rightarrow> Inl reason
         | Inr deltas \<Rightarrow>
      (case apply_event_body normalized md (apply_controller_metadata md False w) of
           (_, Inl _) \<Rightarrow> Inl Rejected_Conflict
         | (w, Inr _) \<Rightarrow>
      (case apply_identity_metadata E normalized md w of
           (_, Inl (BindingConflict conflict)) \<Rightarrow> Inl (reject_merge_conflict conflict)
         | (_, Inl OrdinalExhausted) \<Rightarrow> Inl Rejected_Conflict
         | (w, Inr _) \<Rightarrow>
             let w = controller_lifecycle event md native_end w;
                 w = persist_event_execution normalized (md_receipt_time_ms md) w;
                 w = (if native_end then w else update_terminal_event_source normalized w);
                 w = push_op (RecordEvent normalized (md_receipt_time_ms md)) w
             in Inr (materialize (fst w) deltas (model_of w) (snd w)))))))"

definition dismiss_subject ::
  "controller_event \<Rightarrow> run_id \<Rightarrow> event_metadata \<Rightarrow> reducer \<Rightarrow> materialized_delta" where
  "dismiss_subject event subject md scratch =
     (let w = dismiss_run subject (md_receipt_time_ms md) (scratch, []);
          w = push_op (RecordEvent (ControllerEvent md (ce_event event)) (md_receipt_time_ms md)) w
      in materialize (fst w) diagnostic_deltas_default (model_of w) (snd w))"

definition validate_controller_event ::
  "env \<Rightarrow> controller_event \<Rightarrow> reducer \<Rightarrow> reject_reason + materialized_delta" where
  "validate_controller_event E event r =
     (if 1 < ce_schema_version event then Inl UnsupportedVersion
      else if controller_event_invalid event then Inl Invalid
      else
      let m = rd_model r;
          kind = ce_event event;
          subject_was_unknown = (resolve_controller_run m (ce_task_run_id event) = None);
          (subject, minted) = resolve_or_mint E m (rd_minted r) (ce_task_run_id event);
          md = controller_metadata event subject
      in case controller_edges E m minted event subject md of
           None \<Rightarrow> Inl Invalid
         | Some (md, minted) \<Rightarrow>
      let scratch = scratch_reducer r minted;
          anonymous = md\<lparr>md_task_run_id := None\<rparr>;
          drops_unknown_lane_terminal =
            (subject_was_unknown \<and> md_source md = source_log_lane \<and> is_terminal_kind kind)
      in if kind = CtlSessionEnded \<and> \<not> session_end_bound m event md
         then Inr (materialize scratch diagnostic_deltas_default m
                [RecordEvent (ControllerEvent anonymous kind) (md_receipt_time_ms md)])
         else if drops_unknown_lane_terminal
         then Inr (materialize scratch
                (diagnostic_deltas_default\<lparr>dd_unknown_lane_terminal_drops := 1\<rparr>) (rd_model scratch) [])
         else if kind = CtlDismiss
         then Inr (dismiss_subject event subject (if subject_was_unknown then anonymous else md) scratch)
         else mutate_controller E event subject subject_was_unknown md scratch)"

section \<open>Decoration\<close>

definition touched_runs :: "persist_batch \<Rightarrow> run_id list" where
  "touched_runs operations =
     hs_extend [] (filter_map (\<lambda>operation. case operation of
         UpsertTaskRun v \<Rightarrow> Some (tr_run_id (pt_task_run v))
       | PromoteTaskRunKey promoted _ _ \<Rightarrow> Some (tr_run_id (pt_task_run promoted))
       | _ \<Rightarrow> None) operations)"

definition persist_task_run_v6_of :: "domain_model \<Rightarrow> run_id \<Rightarrow> persist_task_run_v6 option" where
  "persist_task_run_v6_of m run_id =
     (case (get_task_run m run_id, get_v6_state m run_id) of
        (Some run, Some state) \<Rightarrow>
          (case persist_task_run m run (case v6_lifecycle_watermark state of
                 None \<Rightarrow> 0 | Some watermark \<Rightarrow> wm_observed_at_ms watermark) of
             UpsertTaskRun v \<Rightarrow> Some \<lparr>p6_task_run = v, p6_state = state\<rparr>
           | _ \<Rightarrow> None)
      | _ \<Rightarrow> None)"

definition decorate_v6_batch :: "persist_batch \<Rightarrow> reducer \<Rightarrow> persist_v6_batch" where
  "decorate_v6_batch operations r =
     persist_v6_batch_default\<lparr>vb_operations := operations,
       vb_task_runs := filter_map (persist_task_run_v6_of (rd_model r)) (touched_runs operations)\<rparr>"

text \<open>Append the state of each run that is not in the batch yet.\<close>

definition batch_runs :: "persist_v6_batch \<Rightarrow> run_id list" where
  "batch_runs batch = map (\<lambda>v. tr_run_id (pt_task_run (p6_task_run v))) (vb_task_runs batch)"

fun seed_runs :: "domain_model \<Rightarrow> run_id list \<Rightarrow> run_id list \<Rightarrow> persist_task_run_v6 list
    \<Rightarrow> persist_task_run_v6 list" where
  "seed_runs m seeded [] rows = rows"
| "seed_runs m seeded (run_id # rest) rows =
     (if run_id \<in> set seeded then seed_runs m seeded rest rows
      else seed_runs m (hs_insert run_id seeded) rest
        (case persist_task_run_v6_of m run_id of
           None \<Rightarrow> rows | Some v \<Rightarrow> rows @ [v]))"

definition decorate_reconciliation_batch :: "persist_batch \<Rightarrow> reducer \<Rightarrow> persist_v6_batch" where
  "decorate_reconciliation_batch operations r =
     (let referenced_runs = hs_extend [] (filter_map (\<lambda>operation. case operation of
            UpsertExecution v \<Rightarrow> Some (ex_task_run_id (pe_execution v))
          | UpsertAgentNode node \<Rightarrow> Some (an_task_run_id node)
          | _ \<Rightarrow> None) operations);
          batch = decorate_v6_batch operations r
      in batch\<lparr>vb_task_runs :=
           seed_runs (rd_model r) (batch_runs batch) referenced_runs (vb_task_runs batch)\<rparr>)"

definition decorate_rate_checkpoint ::
  "persist_batch \<Rightarrow> (run_id \<times> run_rate_totals) list \<Rightarrow> reducer \<Rightarrow> persist_v6_batch" where
  "decorate_rate_checkpoint operations rate_totals r =
     (let batch = decorate_v6_batch operations r
      in batch\<lparr>vb_task_runs :=
           seed_runs (rd_model r) (batch_runs batch) (map fst rate_totals) (vb_task_runs batch),
         vb_rate_totals := rate_totals\<rparr>)"

section \<open>Commit\<close>

definition apply_controller_diagnostic_deltas :: "controller_diagnostic_deltas \<Rightarrow> reducer \<Rightarrow> reducer" where
  "apply_controller_diagnostic_deltas deltas r =
     with_model (with_diagnostics (\<lambda>d.
       set_dangling_announcement_components (dd_post_dangling_announcement_components deltas)
         (record_unknown_lane_terminal_drops (dd_unknown_lane_terminal_drops deltas)
           (record_terminal_forward_reference_creations
              (dd_terminal_forward_reference_creations deltas)
             (record_terminal_blocked_progress_noops
                (dd_terminal_blocked_progress_noops deltas) d))))) r"

definition stamp_ingest_seq :: "u64 \<Rightarrow> persist_op \<Rightarrow> persist_op" where
  "stamp_ingest_seq ingest_seq operation =
     (case operation of
        RecordEvent event seen_at_ms \<Rightarrow>
          RecordEvent (map_event_metadata (\<lambda>md. md\<lparr>md_ingest_seq := Some ingest_seq\<rparr>) event) seen_at_ms
      | _ \<Rightarrow> operation)"

definition commit_staged_unqueued ::
  "env \<Rightarrow> materialized_delta \<Rightarrow> reducer \<Rightarrow> reducer \<times> (commit_staged_error + persist_batch)" where
  "commit_staged_unqueued E delta r =
     (case (case opt_filter (\<lambda>value. 0 < value) (rd_next_ingest_seq r) of
              None \<Rightarrow> None
            | Some ingest_seq \<Rightarrow> map_option (\<lambda>n. (ingest_seq, n)) (u64_try_from ingest_seq)) of
        None \<Rightarrow>
          (publish E (with_model (with_diagnostics record_ingest_sequence_exhaustion) r),
           Inl IngestSequenceExhausted)
      | Some (ingest_seq, ingest_seq_u64) \<Rightarrow>
          let batch = normalize_persist_batch_lineage
                (AdvanceIngestSequence ingest_seq # map (stamp_ingest_seq ingest_seq_u64) (dl_batch delta));
              r = r\<lparr>rd_model := dl_post_model delta, rd_next_ordinal := dl_post_next_ordinal delta,
                    rd_terminal_event_sources := dl_post_terminal_event_sources delta,
                    rd_non_lane_task_state_runs := dl_post_non_lane_task_state_runs delta,
                    rd_next_ingest_seq := i64_checked_add ingest_seq 1, rd_minted := dl_minted delta\<rparr>;
              r = apply_controller_diagnostic_deltas (dl_diagnostic_deltas delta) r
          in (finish_batch E batch r, Inr batch))"

text \<open>\<open>commit_staged\<close> hands the decorated batch to the writer through its permit.\<close>

definition commit_staged ::
  "env \<Rightarrow> materialized_delta \<Rightarrow> reducer \<Rightarrow> reducer \<times> (commit_staged_error + persist_v6_batch)" where
  "commit_staged E delta r =
     (case commit_staged_unqueued E delta r of
        (r, Inl e) \<Rightarrow> (r, Inl e)
      | (r, Inr batch) \<Rightarrow> (r, Inr (decorate_v6_batch batch r)))"

end
