(* ===== verification/Reducer_Reconcile.thy ===== *)
theory Reducer_Reconcile
  imports Reducer_Apply
begin

text \<open>
  Reconciliation with an authoritative topology snapshot (\<open>reconcile_snapshot\<close> of
  \<open>src/reducer.rs\<close>): every execution is ended, the physical topology is replaced keeping the
  ordinals of what remains, live panes get their runs, executions and agent nodes back, and runs
  left without a live execution are closed. It is one all-or-nothing batch.
\<close>

section \<open>Topology\<close>

definition retained_ordinals ::
  "domain_model \<Rightarrow> topology_kind \<Rightarrow> string list \<Rightarrow> (string \<times> display_ordinal) list" where
  "retained_ordinals m kind ids =
     filter_map (\<lambda>i. map_option (\<lambda>ordinal. (i, ordinal)) (topology_ordinal m kind i)) ids"

definition drop_tab :: "string \<Rightarrow> work \<Rightarrow> work" where
  "drop_tab tab_id w =
     (let (m, removed) = remove_tab tab_id (model_of w);
          w = on_model (\<lambda>_. m) w
      in if removed \<noteq> None
         then push_op (DeleteTab tab_id) (on_model (remove_topology_ordinal KindTab tab_id) w) else w)"

definition drop_workspace :: "string \<Rightarrow> work \<Rightarrow> work" where
  "drop_workspace workspace_id w =
     (let (m, removed) = remove_workspace workspace_id (model_of w);
          w = on_model (\<lambda>_. m) w
      in if removed \<noteq> None
         then push_op (DeleteWorkspace workspace_id)
                (on_model (remove_topology_ordinal KindWorkspace workspace_id) w)
         else w)"

definition close_pane_now :: "env \<Rightarrow> string \<Rightarrow> work \<Rightarrow> work" where
  "close_pane_now E pane_id w =
     (case unix_now_ms E (fst w) of (now, r) \<Rightarrow> close_pane pane_id now (r, snd w))"

definition clear_topology :: "env \<Rightarrow> work \<Rightarrow> work" where
  "clear_topology E w =
     (let m = model_of w;
          workspace_ids = map ws_workspace_id (hm_values (dm_workspaces m));
          tab_ids = map tb_tab_id (hm_values (dm_tabs m));
          pane_ids = map pn_pane_id (hm_values (dm_panes m));
          w = fold (close_pane_now E) pane_ids w;
          w = fold drop_tab tab_ids w
      in fold drop_workspace workspace_ids w)"

definition restore_ordinals ::
  "topology_kind \<Rightarrow> (string \<times> display_ordinal) list \<Rightarrow> domain_model \<Rightarrow> domain_model" where
  "restore_ordinals kind ordinals m = fold (\<lambda>(i, ordinal). set_topology_ordinal kind i ordinal) ordinals m"

definition snapshot_pane :: "pane_snapshot \<Rightarrow> pane" where
  "snapshot_pane p =
     \<lparr>pn_pane_id = ps_pane_id p, pn_workspace_id = ps_workspace_id p, pn_tab_id = ps_tab_id p,
      pn_terminal_id = ps_terminal_id p,
      pn_display_name = upsert_label Authoritative (ps_display_name p) None\<rparr>"

definition place_workspace :: "workspace \<Rightarrow> work \<Rightarrow> unit attempt" where
  "place_workspace workspace w =
     and_then (topology_alloc KindWorkspace (ws_workspace_id workspace) w) (\<lambda>ordinal w.
       done_with () (push_op (UpsertWorkspace workspace ordinal)
         (on_model (insert_workspace workspace) w)))"

definition place_tab :: "tab \<Rightarrow> work \<Rightarrow> unit attempt" where
  "place_tab t w =
     (let t = t\<lparr>tb_label := upsert_label Authoritative (tb_label t) None\<rparr>
      in and_then (topology_alloc KindTab (tb_tab_id t) w) (\<lambda>ordinal w.
        let w = push_op (UpsertTab t ordinal) (on_model (insert_tab t) w)
        in done_with () (if tb_label t = None then push_op (ClearTabLabel (tb_tab_id t)) w else w)))"

definition place_pane :: "pane \<Rightarrow> work \<Rightarrow> unit attempt" where
  "place_pane p w =
     and_then (topology_alloc KindPane (pn_pane_id p) w) (\<lambda>ordinal w.
       let w = push_op (UpsertPane p ordinal) (on_model (insert_pane p) w)
       in done_with () (if pn_display_name p = None
            then push_op (ClearPaneDisplayName (pn_pane_id p)) w else w))"

text \<open>A \<open>for\<close> loop whose body may return early with an error.\<close>

fun each :: "('a \<Rightarrow> work \<Rightarrow> unit attempt) \<Rightarrow> 'a list \<Rightarrow> work \<Rightarrow> unit attempt" where
  "each f [] w = done_with () w"
| "each f (x # xs) w = and_then (f x w) (\<lambda>_. each f xs)"

definition replace_topology :: "env \<Rightarrow> topology_snapshot \<Rightarrow> work \<Rightarrow> unit attempt" where
  "replace_topology E topology w =
     (let m = model_of w;
          workspaces = retained_ordinals m KindWorkspace (map ws_workspace_id (tp_workspaces topology));
          tabs = retained_ordinals m KindTab (map tb_tab_id (tp_tabs topology));
          panes = retained_ordinals m KindPane (map ps_pane_id (tp_panes topology));
          w = clear_topology E w;
          w = on_model (\<lambda>m. restore_ordinals KindPane panes
                (restore_ordinals KindTab tabs (restore_ordinals KindWorkspace workspaces m))) w
      in and_then (each place_workspace (tp_workspaces topology) w)
           (\<lambda>_ w. and_then (each place_tab (tp_tabs topology) w)
           (\<lambda>_. each place_pane (map snapshot_pane (tp_panes topology)))))"

section \<open>Runs of a snapshot\<close>

definition run_for_native_session :: "domain_model \<Rightarrow> provider \<Rightarrow> string \<Rightarrow> run_id option" where
  "run_for_native_session m provider sid =
     (case task_run_by_key m (Native provider sid) of
        Some run \<Rightarrow> Some (tr_run_id run)
      | None \<Rightarrow>
          (case map an_task_run_id (filter (\<lambda>n. an_provider n = provider
                 \<and> an_native_session_id n = Some sid
                 \<and> opt_is_some_and (\<lambda>run. is_controller (tr_key run) \<or> is_native (tr_key run)
                      \<or> is_native_path (tr_key run)) (get_task_run m (an_task_run_id n)))
                 (agent_nodes m)) of
             [] \<Rightarrow> None
           | first # runs \<Rightarrow> if list_all (\<lambda>run_id. run_id = first) runs then Some first else None))"

definition mint :: "env \<Rightarrow> work \<Rightarrow> run_id \<times> work" where
  "mint E w = (case run_id_new E (fst w) of (i, r) \<Rightarrow> (i, (r, snd w)))"

definition insert_snapshot_run ::
  "env \<Rightarrow> provider option \<Rightarrow> string option \<Rightarrow> string option \<Rightarrow> string \<Rightarrow> i64 \<Rightarrow> work
     \<Rightarrow> run_id attempt" where
  "insert_snapshot_run E provider native_sid native_path terminal_id timestamp_ms w =
     (case mint E w of (run_id, w) \<Rightarrow>
        and_then (alloc w) (\<lambda>ordinal w.
          let key = (case (provider, native_sid, native_path) of
                (Some p, Some sid, _) \<Rightarrow> Native p sid
              | (Some p, None, Some path) \<Rightarrow> NativePath p path
              | _ \<Rightarrow> provisional_key terminal_id timestamp_ms ordinal);
              t = stamp_and_touch timestamp_ms (new_task_run run_id key ordinal Running False)
          in done_with run_id (store_run t timestamp_ms w)))"

definition reference_value :: "agent_session_reference_kind \<Rightarrow> pane_snapshot \<Rightarrow> string option" where
  "reference_value kind p =
     (case ps_agent_session p of
        None \<Rightarrow> None
      | Some reference \<Rightarrow>
          if ar_kind reference = kind \<and> ar_value reference \<noteq> [] then Some (ar_value reference) else None)"

definition snapshot_owner ::
  "domain_model \<Rightarrow> provider option \<Rightarrow> string option \<Rightarrow> string option \<Rightarrow> run_id option" where
  "snapshot_owner m provider native_sid native_path =
     (case (provider, native_sid, native_path) of
        (Some p, Some sid, _) \<Rightarrow> run_for_native_session m p sid
      | (Some p, None, Some path) \<Rightarrow> map_option tr_run_id (task_run_by_key m (NativePath p path))
      | _ \<Rightarrow> None)"

definition snapshot_execution_id :: "domain_model \<Rightarrow> pane_snapshot \<Rightarrow> run_id \<Rightarrow> string option" where
  "snapshot_execution_id m p run_id =
     map_option ex_execution_id (min_by_key ex_execution_id
       (filter (\<lambda>e. ex_pane_id e = ps_pane_id p \<and> ex_terminal_id e = ps_terminal_id p
          \<and> ex_task_run_id e = run_id) (executions m)))"

definition snapshot_agent_node ::
  "domain_model \<Rightarrow> provider \<Rightarrow> string option \<Rightarrow> run_id \<Rightarrow> agent_node option" where
  "snapshot_agent_node m provider native_sid run_id =
     (case opt_filter (\<lambda>sid. sid \<noteq> []) native_sid of
        Some sid \<Rightarrow> min_by_key an_agent_node_id (filter (\<lambda>n. an_task_run_id n = run_id
            \<and> an_provider n = provider \<and> an_native_session_id n = Some sid) (agent_nodes m))
      | None \<Rightarrow> min_by_key (\<lambda>n. (an_native_session_id n = None, an_agent_node_id n))
          (filter (\<lambda>n. an_task_run_id n = run_id \<and> an_provider n = provider) (agent_nodes m)))"

definition gap_agent_node ::
  "string \<Rightarrow> provider \<Rightarrow> string option \<Rightarrow> run_id \<Rightarrow> display_ordinal \<Rightarrow> agent_node" where
  "gap_agent_node token provider native_sid run_id ordinal =
     \<lparr>an_agent_node_id = ''gap-agent-'' @ token, an_provider = provider,
      an_native_session_id = native_sid, an_task_run_id = run_id, an_display_ordinal = ordinal,
      an_parent_agent_node_id = None, an_state = None, an_model_id = None,
      an_last_event_kind = None, an_last_tool_name = None, an_last_item_count = None,
      an_last_byte_count = None, an_last_activity_at_ms = None, an_session_file = None\<rparr>"

definition place_agent_node ::
  "string \<Rightarrow> provider option \<Rightarrow> string option \<Rightarrow> run_id \<Rightarrow> work \<Rightarrow> unit attempt" where
  "place_agent_node token provider native_sid run_id w =
     (case provider of
        None \<Rightarrow> done_with () w
      | Some p \<Rightarrow>
          and_then
            (case snapshot_agent_node (model_of w) p native_sid run_id of
               Some node \<Rightarrow> done_with node w
             | None \<Rightarrow> and_then (alloc w) (\<lambda>ordinal.
                 done_with (gap_agent_node token p native_sid run_id ordinal)))
            (\<lambda>node w. done_with () (push_op (UpsertAgentNode node) (on_model (insert_agent_node node) w))))"

text \<open>One pane of the snapshot that shows an agent.\<close>

definition place_agent ::
  "env \<Rightarrow> i64 \<Rightarrow> pane_snapshot \<Rightarrow> snapshot_agent \<Rightarrow> work \<Rightarrow> unit attempt" where
  "place_agent E now_ms p agent w =
     (let provider = snapshot_provider (sa_agent_name agent) (map_option ar_agent (ps_agent_session p));
          native_sid = reference_value RefId p;
          native_path = reference_value RefPath p;
          existing_run = snapshot_owner (model_of w) provider native_sid native_path;
          resolved_native_session_owner =
            (provider \<noteq> None \<and> native_sid \<noteq> None \<and> existing_run \<noteq> None)
      in and_then
        (case existing_run of
           Some run_id \<Rightarrow> done_with run_id w
         | None \<Rightarrow> insert_snapshot_run E provider native_sid native_path (ps_terminal_id p) now_ms w)
        (\<lambda>run_id w.
          let existing_execution_id = snapshot_execution_id (model_of w) p run_id;
              (token_id, w) = mint E w;
              token = en_run_text E token_id;
              execution_id = opt_unwrap_or (''gap-execution-'' @ token) existing_execution_id;
              e = \<lparr>ex_execution_id = execution_id, ex_pane_id = ps_pane_id p,
                   ex_terminal_id = ps_terminal_id p, ex_task_run_id = run_id,
                   ex_state = pane_execution_state (sa_status agent)\<rparr>;
              w = push_op (persist_execution_op e now_ms) (on_model (insert_execution e) w);
              w = (if exec_is_terminal (ex_state e) then w
                   else
                     let w = activate_for_live_execution run_id now_ms w
                     in if resolved_native_session_owner
                        then reopen_native_lifecycle_for_live_execution run_id execution_id now_ms w
                        else w)
          in place_agent_node token provider native_sid run_id w))"

definition place_snapshot_pane :: "env \<Rightarrow> i64 \<Rightarrow> pane_snapshot \<Rightarrow> work \<Rightarrow> unit attempt" where
  "place_snapshot_pane E now_ms p w =
     (case ps_agent p of None \<Rightarrow> done_with () w | Some agent \<Rightarrow> place_agent E now_ms p agent w)"

section \<open>The whole reconciliation\<close>

definition end_pre_gap_execution :: "i64 \<Rightarrow> execution \<Rightarrow> work \<Rightarrow> work" where
  "end_pre_gap_execution now_ms e w =
     (if exec_is_terminal (ex_state e) then w
      else let e = e\<lparr>ex_state := ExecEnded\<rparr>
           in push_op (persist_execution_op e now_ms) (on_model (insert_execution e) w))"

definition snapshot_statuses ::
  "domain_model \<Rightarrow> topology_snapshot \<Rightarrow> (string, pane_agent_status) hmap" where
  "snapshot_statuses m topology =
     fold (\<lambda>(i, status). hm_put i status)
       (filter_map (\<lambda>p. if get_pane m (ps_pane_id p) = None then None
            else map_option (\<lambda>agent. (ps_pane_id p, sa_status agent)) (ps_agent p))
          (tp_panes topology)) []"

definition close_pre_gap_run :: "env \<Rightarrow> i64 \<Rightarrow> run_id \<Rightarrow> work \<Rightarrow> work" where
  "close_pre_gap_run E now_ms run_id w =
     close_history_ready_run_without_live_execution E run_id now_ms
       (close_run_without_live_execution run_id now_ms w)"

definition reconcile_snapshot_inner :: "env \<Rightarrow> topology_snapshot \<Rightarrow> reducer \<Rightarrow> persist_batch attempt" where
  "reconcile_snapshot_inner E topology r =
     (case unix_now_ms E r of (now_ms, r) \<Rightarrow>
        let pre_gap_executions = sort_key ex_execution_id (executions (rd_model r));
            pre_gap_runs = dedup (sort (map ex_task_run_id pre_gap_executions));
            w = fold (end_pre_gap_execution now_ms) pre_gap_executions (r, [])
        in and_then (replace_topology E topology w)
             (\<lambda>_ w.
                let w = on_model (\<lambda>m. replace_pane_agent_statuses (snapshot_statuses m topology) m) w
                in and_then (each (place_snapshot_pane E now_ms) (tp_panes topology) w)
             (\<lambda>_ w.
                let w = fold (close_pre_gap_run E now_ms) pre_gap_runs w
                in done_with (snd w) w)))"

definition reconcile_snapshot ::
  "env \<Rightarrow> topology_snapshot \<Rightarrow> reducer \<Rightarrow> reducer \<times> (reducer_error + persist_batch)" where
  "reconcile_snapshot E topology r =
     (case reconcile_snapshot_inner E topology r of
        ((r', _), Inl error) \<Rightarrow>
          (r'\<lparr>rd_model := rd_model r, rd_next_ordinal := rd_next_ordinal r\<rparr>, Inl error)
      | ((r', _), Inr batch) \<Rightarrow>
          let batch = normalize_persist_batch_lineage batch;
              r' = recompute_dangling_announcement_components r';
              r' = apply_operator_submission batch r';
              r' = apply_pending_telemetry_for_known_runs r';
              r' = begin_rate_epoch r';
              (now, r') = unix_now_ms E r';
              r' = activate_rate_epoch E now r'
          in (publish E r', Inr batch))"

definition reconcile_gap ::
  "env \<Rightarrow> topology_snapshot \<Rightarrow> reducer \<Rightarrow> reducer \<times> (reducer_error + persist_batch)" where
  "reconcile_gap E topology r = reconcile_snapshot E topology r"

end
