(* ===== verification/Reducer_Provider.thy ===== *)
theory Reducer_Provider
  imports Reducer_Controller Reducer_Reconcile
begin

text \<open>
  Provider observations of \<open>src/reducer.rs\<close>: a bracket that suppresses publication while a
  provider record is applied, the batch that carries its readiness to the store, and what the
  store's acknowledgement releases or takes back. A failed \<open>assert!\<close> or \<open>expect\<close> is \<open>None\<close>.
\<close>

datatype provider_observation_prior =
    PriorHistorical domain_model
  | PriorLive live_provider_observation_checkpoint

datatype provider_submission_receipt = ReceiptHistorical | ReceiptLive "u64 option"

record staged_history_finalization =
  sf_manifest :: persist_history_drain
  sf_observed_at_ms :: i64

text \<open>\<open>stage_history_finalization\<close>: the barrier is given by its manifest and its time.\<close>

definition stage_history_finalization :: "persist_history_drain \<Rightarrow> i64 \<Rightarrow> staged_history_finalization" where
  "stage_history_finalization manifest observed_at_ms =
     \<lparr>sf_manifest = manifest, sf_observed_at_ms = observed_at_ms\<rparr>"

definition provider_v6_batch_is_empty :: "persist_v6_batch \<Rightarrow> bool" where
  "provider_v6_batch_is_empty batch \<longleftrightarrow> vb_operations batch = [] \<and> vb_task_runs batch = []
     \<and> vb_rate_totals batch = [] \<and> vb_history_drains batch = []
     \<and> vb_history_associations batch = [] \<and> vb_history_publications batch = []
     \<and> vb_history_event_drain batch = None"

section \<open>Finalization of a history drain\<close>

definition finalize_run :: "finalized_history_run \<Rightarrow> reducer \<Rightarrow> reducer" where
  "finalize_run finalized r =
     (if get_task_run (rd_model r) (fr_run_id finalized) = None then r
      else
        let r = (if get_v6_state (rd_model r) (fr_run_id finalized) \<noteq> Some (fr_state finalized)
                 then with_model (set_v6_state (fr_run_id finalized) (fr_state finalized)) r else r);
            r = (if v6_history_ready (fr_state finalized)
                 then with_model (\<lambda>m. fst (release_history_publications (fr_run_id finalized) m)) r else r)
        in r\<lparr>rd_pending_rate_observation_runs :=
               hs_insert (fr_run_id finalized) (rd_pending_rate_observation_runs r)\<rparr>)"

definition apply_history_finalization ::
  "env \<Rightarrow> history_drain_finalization \<Rightarrow> reducer \<Rightarrow> reducer \<times> bool" where
  "apply_history_finalization E finalization r =
     (if hf_drain_id finalization \<in> set (rd_published_history_drains r) then (r, False)
      else
        let r = r\<lparr>rd_published_history_drains :=
              hs_extend (hs_insert (hf_drain_id finalization) (rd_published_history_drains r))
                (hf_completed_drains finalization)\<rparr>;
            r = fold finalize_run (hf_runs finalization) r;
            published_model = publication_snapshot (rd_model r);
            r = r\<lparr>rd_operator := publish_accumulated (hf_completed_drains finalization)
                    (hf_runs finalization) published_model (rd_operator r)\<rparr>;
            prior_rate_context = rd_rate_observation_context r;
            r = publish E (r\<lparr>rd_rate_observation_context :=
                  Some (RateHistorical, hf_finalized_at_ms finalization)\<rparr>)
        in (r\<lparr>rd_rate_observation_context := prior_rate_context\<rparr>, True))"

section \<open>Begin and cancel\<close>

definition unready_runs :: "domain_model \<Rightarrow> run_id list" where
  "unready_runs m =
     hs_extend [] (filter_map (\<lambda>run.
       if opt_is_some_and (\<lambda>s. \<not> v6_history_ready s) (get_v6_state m (tr_run_id run))
       then Some (tr_run_id run) else None) (task_runs m))"

definition begin_provider_observation ::
  "observation_origin \<Rightarrow> i64 \<Rightarrow> reducer \<Rightarrow> (reducer \<times> provider_observation_prior option) option" where
  "begin_provider_observation origin observed_at_ms r =
     (if rd_pending_live_provider_submission r \<noteq> None then None
      else Some (case origin of
          Historical drain_id _ \<Rightarrow>
            (r\<lparr>rd_rate_observation_context := Some (RateHistorical, observed_at_ms),
               rd_defer_provider_publication := True,
               rd_defer_provider_model_publication := False,
               rd_provider_model_publication_pending := False,
               rd_deferred_provider_drain := Some drain_id,
               rd_provider_observation_private_run_ids := []\<rparr>,
             Some (PriorHistorical (rd_model r)))
        | Live \<Rightarrow>
            let r = r\<lparr>rd_rate_observation_context := Some (RateLive (rd_rate_epoch r), observed_at_ms),
                  rd_defer_provider_model_publication := True,
                  rd_provider_model_publication_pending := False,
                  rd_provider_observation_private_run_ids := unready_runs (rd_model r)\<rparr>
            in (r, if rd_provider_observation_private_run_ids r = [] then None
                   else Some (PriorLive (capture_checkpoint r)))))"

definition cancel_provider_observation :: "env \<Rightarrow> reducer \<Rightarrow> reducer" where
  "cancel_provider_observation E r =
     (let pending = rd_provider_model_publication_pending r;
          r = r\<lparr>rd_defer_provider_publication := False,
                rd_defer_provider_model_publication := False,
                rd_provider_model_publication_pending := False,
                rd_deferred_provider_drain := None,
                rd_provider_observation_private_run_ids := [],
                rd_rate_observation_context := None\<rparr>
      in if pending then publish E r else r)"

section \<open>Finish\<close>

definition operation_runs :: "persist_op \<Rightarrow> run_id list" where
  "operation_runs operation =
     (case operation of
        UpsertTaskRun v \<Rightarrow> [tr_run_id (pt_task_run v)]
      | PromoteTaskRunKey promoted _ _ \<Rightarrow> [tr_run_id (pt_task_run promoted)]
      | MergeTaskRuns survivor absorbed \<Rightarrow> [survivor, absorbed]
      | UpsertExecution v \<Rightarrow> [ex_task_run_id (pe_execution v)]
      | UpsertAgentNode node \<Rightarrow> [an_task_run_id node]
      | UpsertExecutionEdge edge _ \<Rightarrow> [ee_parent_run_id edge, ee_child_run_id edge]
      | UpsertDependencyEdge edge _ \<Rightarrow> [de_prerequisite_run_id edge, de_dependent_run_id edge]
      | RecordEvent event _ \<Rightarrow>
          (case md_task_run_id (event_metadata event) of None \<Rightarrow> [] | Some run_id \<Rightarrow> [run_id])
      | _ \<Rightarrow> [])"

definition observation_touched ::
  "provider_observation_prior option \<Rightarrow> persist_batch \<Rightarrow> domain_model \<Rightarrow> run_id list" where
  "observation_touched prior operations m =
     (let changed = (case prior of
            None \<Rightarrow> []
          | Some (PriorHistorical before) \<Rightarrow> changed_task_run_ids_since m before
          | Some (PriorLive before) \<Rightarrow> changed_task_run_ids_since m (lc_model before))
      in dedup (sort (concat (map operation_runs operations) @ changed)))"

definition capture_publication ::
  "domain_model \<Rightarrow> persist_batch \<Rightarrow> run_id \<Rightarrow> domain_model \<times> history_run_publication list
     \<Rightarrow> domain_model \<times> history_run_publication list" where
  "capture_publication before operations run_id acc =
     (case (if opt_is_some_and v6_history_ready (get_v6_state before run_id)
            then capture_history_publication before run_id else None) of
        None \<Rightarrow> acc
      | Some publication \<Rightarrow>
          let publication = publication\<lparr>hp_canonical_run_id := canonical_run_after_batch run_id operations\<rparr>
          in case install_history_publication publication (fst acc) of
               (m, installed) \<Rightarrow> (m, if installed then snd acc @ [publication] else snd acc))"

definition last_persisted :: "run_id \<Rightarrow> persist_batch \<Rightarrow> persist_task_run option" where
  "last_persisted run_id operations =
     last_of (filter_map (\<lambda>operation. case operation of
         UpsertTaskRun v \<Rightarrow> if tr_run_id (pt_task_run v) = run_id then Some v else None
       | PromoteTaskRunKey promoted _ _ \<Rightarrow>
           if tr_run_id (pt_task_run promoted) = run_id then Some promoted else None
       | _ \<Rightarrow> None) operations)"

definition persisted_row ::
  "domain_model \<Rightarrow> persist_batch \<Rightarrow> task_run \<Rightarrow> i64 \<Rightarrow> persist_task_run" where
  "persisted_row m operations current provider_at_ms =
     (let persisted = (case last_persisted (tr_run_id current) operations of
            Some v \<Rightarrow> v
          | None \<Rightarrow> (case persist_task_run m current provider_at_ms of UpsertTaskRun v \<Rightarrow> v))
      in persisted\<lparr>pt_task_run := current,
           pt_created_at_ms := opt_unwrap_or (pt_created_at_ms persisted) (tr_created_at_ms current),
           pt_updated_at_ms := opt_unwrap_or (pt_updated_at_ms persisted) (tr_updated_at_ms current),
           pt_finished_at_ms := tr_finished_at_ms current\<rparr>)"

text \<open>One touched run: its readiness in the model and in the row that is persisted.\<close>

definition finish_run ::
  "bool \<Rightarrow> persist_batch \<Rightarrow> i64 \<Rightarrow> run_id \<Rightarrow> domain_model \<times> persist_task_run_v6 list
     \<Rightarrow> domain_model \<times> persist_task_run_v6 list" where
  "finish_run historical operations provider_at_ms run_id acc =
     (let m = fst acc; canonical_run_id = canonical_run_after_batch run_id operations in
      case get_task_run m canonical_run_id of
        None \<Rightarrow> acc
      | Some current \<Rightarrow>
          let state = opt_unwrap_or v6_default (get_v6_state m canonical_run_id);
              latest = Some (case v6_latest_provider_at_ms state of
                  None \<Rightarrow> provider_at_ms | Some stored \<Rightarrow> max stored provider_at_ms);
              model_state = (if historical then state\<lparr>v6_history_ready := False\<rparr> else state)
                \<lparr>v6_latest_provider_at_ms := latest\<rparr>;
              persisted_state = state\<lparr>v6_history_ready := \<not> historical,
                v6_latest_provider_at_ms := latest\<rparr>;
              m = set_v6_state canonical_run_id model_state (insert_task_run current m)
          in (m, snd acc @ [\<lparr>p6_task_run = persisted_row m operations current provider_at_ms,
                p6_state = persisted_state\<rparr>]))"

definition finished_runs :: "domain_model \<Rightarrow> persist_batch \<Rightarrow> run_id list \<Rightarrow> run_id list" where
  "finished_runs m operations touched =
     filter (\<lambda>run_id. get_task_run m run_id \<noteq> None)
       (map (\<lambda>run_id. canonical_run_after_batch run_id operations) touched)"

text \<open>\<open>Vec::dedup_by_key\<close>.\<close>

fun dedup_by :: "('a \<Rightarrow> 'k) \<Rightarrow> 'a list \<Rightarrow> 'a list" where
  "dedup_by key (x # y # xs) =
     (if key x = key y then dedup_by key (x # xs) else x # dedup_by key (y # xs))"
| "dedup_by key xs = xs"

definition row_run :: "persist_task_run_v6 \<Rightarrow> run_id" where
  "row_run v = tr_run_id (pt_task_run (p6_task_run v))"

text \<open>The receipt of a live observation; \<open>None\<close> where the code panics.\<close>

definition live_receipt ::
  "provider_observation_prior option \<Rightarrow> bool \<Rightarrow> run_id list \<Rightarrow> reducer
     \<Rightarrow> (reducer \<times> provider_submission_receipt) option" where
  "live_receipt prior requires_completion ready r =
     (if \<not> requires_completion then Some (r, ReceiptLive None)
      else case prior of
        Some (PriorHistorical _) \<Rightarrow> None
      | _ \<Rightarrow>
          let checkpoint = (case prior of
                  Some (PriorLive checkpoint) \<Rightarrow> if ready \<noteq> [] then Some checkpoint else None
                | _ \<Rightarrow> None);
              submission_id = rd_next_submission_token r
          in if ready \<noteq> [] \<and> checkpoint = None
                \<or> u64_checked_add submission_id 1 = None
                \<or> rd_pending_live_provider_submission r \<noteq> None
             then None
             else Some (r\<lparr>rd_next_submission_token := submission_id + 1,
                rd_pending_live_provider_submission := Some \<lparr>pl_submission_id = submission_id,
                  pl_checkpoint = checkpoint, pl_ready_run_ids = ready\<rparr>\<rparr>,
               ReceiptLive (Some submission_id)))"

definition finish_provider_observation ::
  "env \<Rightarrow> provider_observation_prior option \<Rightarrow> persist_batch \<Rightarrow> observation_origin
     \<Rightarrow> persist_history_drain option \<Rightarrow> i64 \<Rightarrow> reducer
     \<Rightarrow> (reducer \<times> persist_v6_batch \<times> provider_submission_receipt) option" where
  "finish_provider_observation E prior operations origin history_manifest provider_at_ms r =
     (let drain = (case origin of Historical drain_id _ \<Rightarrow> Some drain_id | Live \<Rightarrow> None);
          historical = (drain \<noteq> None);
          touched = observation_touched prior operations (rd_model r);
          private_live_run_ids = map (\<lambda>run_id. canonical_run_after_batch run_id operations)
            (rd_provider_observation_private_run_ids r);
          (m, publications) = (case prior of
              Some (PriorHistorical before) \<Rightarrow>
                if historical
                then fold (capture_publication before operations) touched (rd_model r, [])
                else (rd_model r, [])
            | _ \<Rightarrow> (rd_model r, []));
          finished = finished_runs m operations touched;
          (m, rows) = fold (finish_run historical operations provider_at_ms) touched (m, []);
          rows = dedup_by row_run (sort_key row_run rows);
          associations = (case drain of
              None \<Rightarrow> []
            | Some drain_id \<Rightarrow> map (\<lambda>run_id. \<lparr>pr_drain_id = drain_id, pr_run_id = run_id\<rparr>)
                (dedup (sort finished)));
          ready = (if historical then []
            else dedup (sort (filter (\<lambda>run_id. run_id \<in> set private_live_run_ids) finished)));
          r = r\<lparr>rd_model := m, rd_provider_observation_private_run_ids := [],
                rd_defer_provider_publication := False,
                rd_defer_provider_model_publication := False,
                rd_provider_model_publication_pending := False,
                rd_deferred_provider_drain := None,
                rd_rate_observation_context := None\<rparr>;
          batch = persist_v6_batch_default\<lparr>vb_operations := operations, vb_task_runs := rows,
            vb_history_drains := (if historical
              then (case history_manifest of None \<Rightarrow> [] | Some manifest \<Rightarrow> [manifest]) else []),
            vb_history_associations := associations, vb_history_publications := publications,
            vb_history_event_drain := drain\<rparr>
      in if historical then Some (r, batch, ReceiptHistorical)
         else case live_receipt prior (\<not> provider_v6_batch_is_empty batch) ready r of
                None \<Rightarrow> None
              | Some (r, receipt) \<Rightarrow> Some (if ready = [] then publish E r else r, batch, receipt))"

section \<open>Acknowledgement\<close>

definition committed :: "runtime_write_outcome \<Rightarrow> bool" where
  "committed outcome =
     (case outcome of WriteDurable \<Rightarrow> True | CommittedButDegraded _ \<Rightarrow> True | _ \<Rightarrow> False)"

definition complete_operator_submission :: "runtime_write_outcome \<Rightarrow> reducer \<Rightarrow> reducer" where
  "complete_operator_submission outcome r =
     r\<lparr>rd_operator := complete_submission outcome (rd_operator r)\<rparr>"

definition complete_deferred_operator_submission :: "runtime_write_outcome \<Rightarrow> reducer \<Rightarrow> reducer" where
  "complete_deferred_operator_submission outcome r =
     r\<lparr>rd_operator := complete_submission_without_publishing outcome (rd_operator r)\<rparr>"

definition release_ready_run :: "run_id \<Rightarrow> domain_model \<times> bool \<Rightarrow> domain_model \<times> bool" where
  "release_ready_run run_id acc =
     (case get_v6_state (fst acc) run_id of
        None \<Rightarrow> acc
      | Some state \<Rightarrow>
          let m = (if v6_history_ready state then fst acc
                   else set_v6_state run_id (state\<lparr>v6_history_ready := True\<rparr>) (fst acc));
              (m, released) = release_history_publications run_id m
          in (m, snd acc \<or> \<not> v6_history_ready state \<or> released))"

definition complete_provider_submission ::
  "env \<Rightarrow> provider_submission_receipt \<Rightarrow> runtime_write_outcome \<Rightarrow> reducer \<Rightarrow> reducer" where
  "complete_provider_submission E receipt outcome r =
     (case receipt of
        ReceiptHistorical \<Rightarrow> complete_deferred_operator_submission outcome r
      | ReceiptLive None \<Rightarrow> r
      | ReceiptLive (Some submission_id) \<Rightarrow>
      (case rd_pending_live_provider_submission r of
        None \<Rightarrow> r
      | Some pending \<Rightarrow>
          if pl_submission_id pending \<noteq> submission_id then r
          else
            let r = complete_operator_submission outcome
                  (r\<lparr>rd_pending_live_provider_submission := None\<rparr>)
            in if \<not> committed outcome
               then (case pl_checkpoint pending of
                       None \<Rightarrow> r | Some checkpoint \<Rightarrow> restore_checkpoint checkpoint r)
               else case fold release_ready_run (pl_ready_run_ids pending)
                           (rd_model r, pl_checkpoint pending \<noteq> None) of
                      (m, changed) \<Rightarrow>
                        (let r = r\<lparr>rd_model := m\<rparr> in if changed then publish E r else r)))"

end
