(* ===== verification/Node_Links.thy ===== *)
theory Node_Links
  imports Reducer_Events
begin

text \<open>
  The parent links between provider agent nodes. \<open>provider_parent_is_valid\<close> accepts exactly the
  links that close no cycle, and a node the handlers store links only along such a link.
\<close>

section \<open>Parent links\<close>

definition node_parents :: "(string, agent_node) hmap \<Rightarrow> (string \<times> string) set" where
  "node_parents t = {(i, p). \<exists>n. hm_get t i = Some n \<and> an_parent_agent_node_id n = Some p}"

definition parents_ok :: "(string, agent_node) hmap \<Rightarrow> bool" where
  "parents_ok t \<longleftrightarrow> acyclic (node_parents t)"

lemma node_parents_fun: "(i, p) \<in> node_parents t \<Longrightarrow> (i, q) \<in> node_parents t \<Longrightarrow> p = q"
  by (auto simp: node_parents_def)

lemma parents_next:
  assumes "(i, p) \<in> node_parents t"
  shows "(i, c) \<in> (node_parents t)\<^sup>* \<longleftrightarrow> c = i \<or> (p, c) \<in> (node_parents t)\<^sup>*"
proof
  assume "(i, c) \<in> (node_parents t)\<^sup>*"
  then show "c = i \<or> (p, c) \<in> (node_parents t)\<^sup>*"
    by (cases rule: converse_rtranclE) (auto dest: node_parents_fun [OF assms])
next
  assume "c = i \<or> (p, c) \<in> (node_parents t)\<^sup>*"
  then show "(i, c) \<in> (node_parents t)\<^sup>*"
    using assms by (auto intro: converse_rtrancl_into_rtrancl)
qed

lemma parents_end:
  assumes "\<And>p. (i, p) \<notin> node_parents t"
  shows "(i, c) \<in> (node_parents t)\<^sup>* \<longleftrightarrow> c = i"
  using assms by (blast elim: converse_rtranclE)

text \<open>The walk along the parents finds the child exactly when it is an ancestor.\<close>

lemma parent_walk_iff:
  assumes "parents_ok (dm_agent_nodes m)"
    and "\<And>v. v \<in> set visited \<Longrightarrow> (v, node_id) \<in> (node_parents (dm_agent_nodes m))\<^sup>+"
  shows "parent_walk m child_id visited node_id \<longleftrightarrow>
    (node_id, child_id) \<notin> (node_parents (dm_agent_nodes m))\<^sup>*"
  using assms
proof (induction m child_id visited node_id rule: parent_walk.induct)
  case (1 m child_id visited node_id)
  let ?R = "node_parents (dm_agent_nodes m)"
  have new: "node_id \<notin> set visited"
    using 1(2,3) by (auto simp: parents_ok_def acyclic_def)
  show ?case
  proof (cases "\<exists>p. (node_id, p) \<in> ?R")
    case True
    then obtain node p where n: "get_agent_node m node_id = Some node" "an_parent_agent_node_id node = Some p"
      and e: "(node_id, p) \<in> ?R" by (auto simp: node_parents_def get_agent_node_def)
    have below: "(v, p) \<in> ?R\<^sup>+" if "v \<in> set (hs_insert node_id visited)" for v
      using that e 1(3) [of v] by (auto intro: trancl_into_trancl)
    have walk: "parent_walk m child_id visited node_id \<longleftrightarrow>
        node_id \<noteq> child_id \<and> parent_walk m child_id (hs_insert node_id visited) p"
      by (rule trans [OF parent_walk.simps]) (simp add: n new)
    show ?thesis
    proof (cases "node_id = child_id")
      case True
      with walk show ?thesis by simp
    next
      case False
      with 1(1) [OF _ n(1,2) 1(2) below] new show ?thesis
        by (simp add: walk parents_next [OF e])
    qed
  next
    case False
    then have "get_agent_node m node_id = Some node \<Longrightarrow> an_parent_agent_node_id node = None" for node
      by (auto simp: node_parents_def get_agent_node_def)
    then have "parent_walk m child_id visited node_id \<longleftrightarrow> node_id \<noteq> child_id"
      using new parent_walk.simps [of m child_id visited node_id] by (auto split: option.split)
    then show ?thesis using False by (auto simp: parents_end)
  qed
qed

lemma parent_valid_iff:
  assumes "parents_ok (dm_agent_nodes m)"
  shows "provider_parent_is_valid m child_id parent_id \<longleftrightarrow>
    (parent_id, child_id) \<notin> (node_parents (dm_agent_nodes m))\<^sup>*"
  using parent_walk_iff [OF assms, of "[]" parent_id child_id]
  by (auto simp: provider_parent_is_valid_def)

section \<open>Nodes the handlers store\<close>

text \<open>
  A node may be stored when the link it carries is the one already stored for it or closes no
  cycle. The claim is about tables whose rows stand under their own identifiers.
\<close>

definition nodes_ok :: "(string, agent_node) hmap \<Rightarrow> bool" where
  "nodes_ok t \<longleftrightarrow> hm_ok t \<and> (\<forall>i n. hm_get t i = Some n \<longrightarrow> an_agent_node_id n = i) \<and> parents_ok t"

definition link_ok :: "domain_model \<Rightarrow> agent_node \<Rightarrow> bool" where
  "link_ok m n \<longleftrightarrow> (nodes_ok (dm_agent_nodes m) \<longrightarrow>
     (\<forall>p. an_parent_agent_node_id n = Some p \<longrightarrow>
        (an_agent_node_id n, p) \<in> node_parents (dm_agent_nodes m)
        \<or> (p, an_agent_node_id n) \<notin> (node_parents (dm_agent_nodes m))\<^sup>*))"

lemma link_ok_root: "an_parent_agent_node_id n = None \<Longrightarrow> link_ok m n"
  by (simp add: link_ok_def)

lemma link_ok_kept:
  assumes "get_agent_node m i = Some old" and "an_agent_node_id n = an_agent_node_id old"
    and "an_parent_agent_node_id n = an_parent_agent_node_id old"
  shows "link_ok m n"
  using assms by (auto simp: link_ok_def nodes_ok_def get_agent_node_def node_parents_def)

lemma link_agent_node_table:
  "dm_agent_nodes (fst (link_agent_node obs n m)) = dm_agent_nodes m"
  by (simp add: link_agent_node_def Let_def with_diagnostics_def split: option.split)

lemma link_ok_linked:
  assumes "link_ok m n"
  shows "link_ok (fst (link_agent_node obs n m)) (snd (link_agent_node obs n m))"
proof -
  have "link_ok m (snd (link_agent_node obs n m))"
    using assms
    by (auto simp: link_agent_node_def Let_def link_ok_def nodes_ok_def parent_valid_iff split: option.split)
  then show ?thesis by (simp add: link_ok_def link_agent_node_table)
qed

lemma parents_insert:
  assumes "nodes_ok (dm_agent_nodes m)" and "link_ok m n"
  shows "parents_ok (dm_agent_nodes (insert_agent_node n m))"
proof -
  let ?R = "node_parents (dm_agent_nodes m)" and ?i = "an_agent_node_id n"
  have t: "node_parents (dm_agent_nodes (insert_agent_node n m))
      = {(i, p) \<in> ?R. i \<noteq> ?i} \<union> {(?i, p) |p. an_parent_agent_node_id n = Some p}"
    by (auto simp: node_parents_def insert_agent_node_def split: if_splits)
  show ?thesis
  proof (cases "an_parent_agent_node_id n")
    case None
    then have "node_parents (dm_agent_nodes (insert_agent_node n m)) \<subseteq> ?R" unfolding t by auto
    then show ?thesis using assms(1) unfolding nodes_ok_def parents_ok_def by (blast intro: acyclic_subset)
  next
    case (Some p)
    have "acyclic (insert (?i, p) ?R)"
    proof (cases "(?i, p) \<in> ?R")
      case True
      then show ?thesis using assms(1) by (simp add: nodes_ok_def parents_ok_def insert_absorb)
    next
      case False
      then have "(p, ?i) \<notin> ?R\<^sup>*" using assms Some by (auto simp: link_ok_def)
      then show ?thesis using assms(1) by (simp add: acyclic_insert nodes_ok_def parents_ok_def)
    qed
    moreover have "node_parents (dm_agent_nodes (insert_agent_node n m)) \<subseteq> insert (?i, p) ?R"
      unfolding t using Some by auto
    ultimately show ?thesis unfolding parents_ok_def by (rule acyclic_subset)
  qed
qed

lemma nodes_insert:
  "nodes_ok (dm_agent_nodes m) \<Longrightarrow> link_ok m n \<Longrightarrow> nodes_ok (dm_agent_nodes (insert_agent_node n m))"
  using parents_insert [of m n] by (auto simp: nodes_ok_def insert_agent_node_def split: if_splits)

lemma nodes_map:
  assumes "nodes_ok t" and "\<And>n. an_agent_node_id (f n) = an_agent_node_id n"
    and "\<And>n. an_parent_agent_node_id (f n) = an_parent_agent_node_id n"
  shows "nodes_ok (hm_map_values f t)"
proof -
  have "node_parents (hm_map_values f t) = node_parents t"
    by (auto simp: node_parents_def assms(3))
  then show ?thesis using assms by (auto simp: nodes_ok_def parents_ok_def)
qed

end
