(* ===== verification/Handler_Laws.thy ===== *)
theory Handler_Laws
  imports Reducer_Provider Node_Links
begin

text \<open>
  What every event handler of the reducer preserves. The handlers reach the model only through
  a few primitive updates, so the locale \<open>handler_base\<close> asks an invariant for these updates and
  gives it for every handler; \<open>handler_invariant\<close> adds the insertion of relationship edges.
  The theory \<open>Reducer_Laws\<close> interprets them on the well-formedness of the tables, on the
  relationship graphs and on the part of the reducer no handler touches.
\<close>

locale handler_base =
  fixes I :: "reducer \<Rightarrow> bool"
  assumes I_run: "I r \<Longrightarrow> I (with_model (insert_task_run t) r)"
    and I_execution: "I r \<Longrightarrow> I (with_model (insert_execution e) r)"
    and I_node: "I r \<Longrightarrow> link_ok (rd_model r) n \<Longrightarrow> I (with_model (insert_agent_node n) r)"
    and I_v6: "I r \<Longrightarrow> I (with_model (set_v6_state i s) r)"
    and I_kind: "I r \<Longrightarrow> I (with_model (set_run_kind i kind) r)"
    and I_physical: "I r \<Longrightarrow> I (with_model (\<lambda>m. m\<lparr>dm_workspaces := ws, dm_tabs := ts,
          dm_panes := ps, dm_pane_agent_statuses := ss, dm_topology_ordinals := os\<rparr>) r)"
    and I_diagnostics: "I r \<Longrightarrow> I (with_model (with_diagnostics f) r)"
    and I_bookkeeping: "I r \<Longrightarrow> I (r\<lparr>rd_next_ordinal := ord, rd_terminal_event_sources := sources,
          rd_non_lane_task_state_runs := runs, rd_minted := minted, rd_ticks := ticks\<rparr>)"
    and I_plan: "I r \<Longrightarrow> I (r\<lparr>rd_model := fst (apply_binding_plan_at fresh plan now (rd_model r))\<rparr>)"
begin

text \<open>Single bookkeeping fields.\<close>

lemma I_fields:
  assumes "I r"
  shows "I (r\<lparr>rd_next_ordinal := ord\<rparr>)" and "I (r\<lparr>rd_terminal_event_sources := sources\<rparr>)"
    and "I (r\<lparr>rd_non_lane_task_state_runs := runs\<rparr>)" and "I (r\<lparr>rd_minted := minted\<rparr>)"
    and "I (r\<lparr>rd_ticks := ticks\<rparr>)"
proof -
  note b = I_bookkeeping [OF assms]
  show "I (r\<lparr>rd_next_ordinal := ord\<rparr>)"
    using b [where ord = ord and sources = "rd_terminal_event_sources r" and runs = "rd_non_lane_task_state_runs r" and minted = "rd_minted r" and ticks = "rd_ticks r"]
    by simp
  show "I (r\<lparr>rd_terminal_event_sources := sources\<rparr>)"
    using b [where ord = "rd_next_ordinal r" and sources = sources and runs = "rd_non_lane_task_state_runs r" and minted = "rd_minted r" and ticks = "rd_ticks r"]
    by simp
  show "I (r\<lparr>rd_non_lane_task_state_runs := runs\<rparr>)"
    using b [where ord = "rd_next_ordinal r" and sources = "rd_terminal_event_sources r" and runs = runs and minted = "rd_minted r" and ticks = "rd_ticks r"]
    by simp
  show "I (r\<lparr>rd_minted := minted\<rparr>)"
    using b [where ord = "rd_next_ordinal r" and sources = "rd_terminal_event_sources r" and runs = "rd_non_lane_task_state_runs r" and minted = minted and ticks = "rd_ticks r"]
    by simp
  show "I (r\<lparr>rd_ticks := ticks\<rparr>)"
    using b [where ord = "rd_next_ordinal r" and sources = "rd_terminal_event_sources r" and runs = "rd_non_lane_task_state_runs r" and minted = "rd_minted r" and ticks = ticks]
    by simp
qed

text \<open>The updates of the physical topology.\<close>

lemma I_topology:
  assumes "I r"
  shows "I (with_model (insert_workspace w) r)" and "I (with_model (insert_tab t) r)"
    and "I (with_model (insert_pane p) r)" and "I (with_model (\<lambda>_. fst (remove_workspace i (rd_model r))) r)"
    and "I (with_model (\<lambda>_. fst (remove_tab i (rd_model r))) r)"
    and "I (with_model (\<lambda>_. fst (remove_pane i (rd_model r))) r)"
    and "I (with_model (set_topology_ordinal k i ordinal) r)"
    and "I (with_model (remove_topology_ordinal k i) r)"
    and "I (with_model (set_pane_agent_status i s) r)"
    and "I (with_model (replace_pane_agent_statuses ss) r)"
proof -
  have upd: "I (r\<lparr>rd_model := m\<rparr>)"
    if "m = (rd_model r)\<lparr>dm_workspaces := dm_workspaces m, dm_tabs := dm_tabs m, dm_panes := dm_panes m,
        dm_pane_agent_statuses := dm_pane_agent_statuses m,
        dm_topology_ordinals := dm_topology_ordinals m\<rparr>" for m
    using I_physical [OF assms, where ws = "dm_workspaces m" and ts = "dm_tabs m"
        and ps = "dm_panes m" and ss = "dm_pane_agent_statuses m" and os = "dm_topology_ordinals m"] that by (simp add: with_model_def)
  show "I (with_model (insert_workspace w) r)" "I (with_model (insert_tab t) r)"
    "I (with_model (insert_pane p) r)" "I (with_model (\<lambda>_. fst (remove_workspace i (rd_model r))) r)"
    "I (with_model (\<lambda>_. fst (remove_tab i (rd_model r))) r)"
    "I (with_model (\<lambda>_. fst (remove_pane i (rd_model r))) r)"
    "I (with_model (set_topology_ordinal k i ordinal) r)"
    "I (with_model (remove_topology_ordinal k i) r)"
    "I (with_model (set_pane_agent_status i s) r)"
    "I (with_model (replace_pane_agent_statuses ss) r)"
    unfolding with_model_def
    by (rule upd, simp add: insert_workspace_def insert_tab_def insert_pane_def remove_workspace_def
        remove_tab_def remove_pane_def Let_def set_topology_ordinal_def remove_topology_ordinal_def
        set_pane_agent_status_def replace_pane_agent_statuses_def)+
qed

lemma and_then_I:
  assumes "I (fst (fst a))" and "\<And>x w. I (fst w) \<Longrightarrow> I (fst (fst (f x w)))"
  shows "I (fst (fst (and_then a f)))"
  using assms by (cases a) (auto simp: and_then_def split: sum.split)

lemma done_I [simp]: "fst (fst (done_with x w)) = fst w"
  by (simp add: done_with_def)

lemma push_I [simp]: "fst (push_op op w) = fst w"
  by (simp add: push_op_def)

lemma fold_I:
  assumes "I (fst w)" and "\<And>x w. I (fst w) \<Longrightarrow> I (fst (f x w))"
  shows "I (fst (fold f xs w))"
  using assms(1) by (induction xs arbitrary: w) (simp_all only: fold_simps assms(2))

lemma on_model_fst [simp]: "fst (on_model f w) = with_model f (fst w)"
  by (simp add: on_model_def)

lemma ordinal_I: "I r \<Longrightarrow> I (fst (allocate_ordinal r))"
  by (auto simp: allocate_ordinal_def intro: I_fields split: option.split)

lemma alloc_I: "I (fst w) \<Longrightarrow> I (fst (fst (alloc w)))"
  using ordinal_I [of "fst w"] by (auto simp: alloc_def split: prod.splits)

lemma topology_alloc_I: "I (fst w) \<Longrightarrow> I (fst (fst (topology_alloc k i w)))"
  using ordinal_I [of "fst w"]
  by (auto simp: topology_alloc_def ordinal_or_allocate_def intro: I_topology
      split: prod.splits option.splits sum.splits)

lemma store_run_I: "I (fst w) \<Longrightarrow> I (fst (store_run t n w))"
  by (simp add: store_run_def Let_def I_run)

section \<open>Lifecycle, executions and closures\<close>

lemma lifecycle_I: "I (fst w) \<Longrightarrow> I (fst (apply_native_lifecycle i s wm w))"
  by (auto simp: apply_native_lifecycle_def Let_def intro: I_v6 split: option.split)

lemma close_run_I: "I (fst w) \<Longrightarrow> I (fst (close_run_without_live_execution i n w))"
  by (auto simp: close_run_without_live_execution_def intro: store_run_I split: option.split)

lemma activate_I: "I (fst w) \<Longrightarrow> I (fst (activate_for_live_execution i n w))"
  by (auto simp: activate_for_live_execution_def Let_def intro: store_run_I split: option.split)

lemma reopen_I: "I (fst w) \<Longrightarrow> I (fst (reopen_native_lifecycle_for_live_execution i x n w))"
  by (auto simp: reopen_native_lifecycle_for_live_execution_def intro: lifecycle_I split: option.split)

lemma close_history_I:
  "I (fst w) \<Longrightarrow> I (fst (close_history_ready_run_without_live_execution E i n w))"
  by (auto simp: close_history_ready_run_without_live_execution_def intro: lifecycle_I split: option.split)

lemma end_execution_I: "I (fst w) \<Longrightarrow> I (fst (end_execution i n w))"
  by (auto simp: end_execution_def Let_def intro!: close_run_I I_execution split: option.split)

lemma execution_state_I: "I (fst w) \<Longrightarrow> I (fst (apply_execution_state i s md w))"
  by (auto simp: apply_execution_state_def Let_def intro!: close_run_I I_execution split: option.split)

lemma end_inactive_I: "I (fst w) \<Longrightarrow> I (fst (end_inactive_run i n w))"
  by (auto simp: end_inactive_run_def intro: store_run_I split: option.split)

lemma dismiss_I: "I (fst w) \<Longrightarrow> I (fst (dismiss_run i n w))"
  by (auto simp: dismiss_run_def intro: store_run_I split: option.split)

lemma close_pane_I: "I (fst w) \<Longrightarrow> I (fst (close_pane i n w))"
  by (auto simp: close_pane_def Let_def case_prod_beta intro!: I_topology fold_I end_execution_I)

lemma close_tab_I: "I (fst w) \<Longrightarrow> I (fst (close_tab i n w))"
  by (auto simp: close_tab_def Let_def case_prod_beta intro!: I_topology fold_I close_pane_I)

lemma topology_closure_I: "I (fst w) \<Longrightarrow> I (fst (apply_topology_closure x n w))"
  by (cases x) (auto simp: Let_def case_prod_beta intro!: I_topology fold_I close_pane_I close_tab_I)

section \<open>The runs an event needs\<close>

lemma ensure_execution_I: "I (fst w) \<Longrightarrow> I (fst (fst (ensure_execution_run e md w)))"
  by (auto simp: ensure_execution_run_def Let_def intro!: and_then_I alloc_I store_run_I)

lemma ensure_metadata_I: "I (fst w) \<Longrightarrow> I (fst (fst (ensure_metadata_run E i md c k st w)))"
  by (auto simp: ensure_metadata_run_def Let_def intro!: and_then_I alloc_I store_run_I)

lemma placeholder_I: "I (fst w) \<Longrightarrow> I (fst (fst (ensure_controller_placeholder E i k n w)))"
  by (auto simp: ensure_controller_placeholder_def Let_def intro!: and_then_I alloc_I store_run_I)

lemma ensure_event_I: "I (fst w) \<Longrightarrow> I (fst (fst (ensure_event_runs E event md w)))"
  unfolding ensure_event_runs_def Let_def
  by (intro and_then_I)
    (auto intro!: and_then_I ensure_execution_I ensure_metadata_I placeholder_I
      split: normalized_event.split option.split)

section \<open>Bodies\<close>

lemma link_node_I:
  assumes "I r" shows "I (with_model (\<lambda>_. fst (link_agent_node obs n (rd_model r))) r)"
proof -
  have "with_model (\<lambda>_. rd_model r) r = r" by (simp add: with_model_def)
  moreover have "with_model (\<lambda>_. with_diagnostics f (rd_model r)) r = with_model (with_diagnostics f) r" for f
    by (simp add: with_model_def)
  ultimately show ?thesis
    using assms I_diagnostics [OF assms]
    by (auto simp: link_agent_node_def Let_def split: option.split)
qed

text \<open>A node that is fetched or created carries a permitted link into its continuation.\<close>

lemma fetch_node_I:
  assumes "I (fst w)"
    and "\<And>n. fetched = Some n \<Longrightarrow> I (fst (fst (f n w)))"
    and "\<And>ordinal w'. model_of w' = model_of w \<Longrightarrow> I (fst w') \<Longrightarrow> I (fst (fst (f (new ordinal) w')))"
  shows "I (fst (fst (and_then (case fetched of Some n \<Rightarrow> done_with n w
      | None \<Rightarrow> and_then (alloc w) (\<lambda>ordinal. done_with (new ordinal))) f)))"
proof (cases fetched)
  case None
  have "model_of (fst (alloc w)) = model_of w"
    by (auto simp: alloc_def allocate_ordinal_def split: option.split)
  with None assms(3) alloc_I [OF assms(1)] show ?thesis
    by (auto simp: and_then_def done_with_def split: prod.splits sum.splits)
next
  case (Some n)
  with assms(2) show ?thesis by (simp add: and_then_def done_with_def)
qed

lemma link_store_I:
  assumes "I (fst w)" and "link_ok (model_of w) n"
  shows "I (fst (fst (case link_agent_node obs n (model_of w) of (m, node) \<Rightarrow>
      done_with () (push_op (UpsertAgentNode node) (on_model (insert_agent_node node) (on_model (\<lambda>_. m) w))))))"
  using link_node_I [OF assms(1)] link_ok_linked [OF assms(2)]
  by (auto simp: case_prod_beta intro!: I_node) (simp add: with_model_def)

lemma refresh_agent_node_link [simp]:
  "an_agent_node_id (refresh_agent_node obs n) = an_agent_node_id n"
  "an_parent_agent_node_id (refresh_agent_node obs n) = an_parent_agent_node_id n"
  by (simp_all add: refresh_agent_node_def Let_def split: option.split exec_state.split)

lemma agent_node_I: "I (fst w) \<Longrightarrow> I (fst (fst (apply_agent_node_observation obs w)))"
proof (cases "get_task_run (model_of w) (ao_task_run_id obs) = None")
  case True
  then show "I (fst w) \<Longrightarrow> ?thesis" by (simp add: apply_agent_node_observation_def)
next
  case False
  assume w: "I (fst w)"
  have new: "link_ok m (refresh_agent_node obs (new_agent_node obs n))" for m n
    by (rule link_ok_root) (simp add: new_agent_node_def)
  have kept: "(case i of None \<Rightarrow> None | Some j \<Rightarrow> get_agent_node (model_of w) j) = Some n \<Longrightarrow>
      link_ok (model_of w) (refresh_agent_node obs n)" for i n
    by (cases i) (auto intro: link_ok_kept)
  show ?thesis
    unfolding apply_agent_node_observation_def Let_def if_not_P [OF False]
    by (rule fetch_node_I [OF w]) (intro link_store_I w kept new | assumption)+
qed

lemma agent_activity_I: "I (fst w) \<Longrightarrow> I (fst (apply_agent_activity i a md w))"
  by (auto simp: apply_agent_activity_def Let_def refresh_activity_def intro!: I_node
      intro: link_ok_kept split: option.splits)

lemma topology_upsert_I: "I (fst w) \<Longrightarrow> I (fst (fst (apply_topology_upsert a x w)))"
  by (auto simp: apply_topology_upsert_def upsert_tab_def upsert_pane_def Let_def
      intro!: and_then_I topology_alloc_I I_topology split: topology_entity.split)

lemma run_kind_I: "I r \<Longrightarrow> I (with_model (controller_run_kind kind md) r)"
proof -
  assume r: "I r"
  have same: "with_model (\<lambda>m. m) r = r" by (simp add: with_model_def)
  show "I (with_model (controller_run_kind kind md) r)"
    unfolding controller_run_kind_def
    using r same I_kind [OF r]
    by (auto simp: with_model_def split: controller_event_kind.split option.split)
qed

lemma event_body_I: "I (fst w) \<Longrightarrow> I (fst (fst (apply_event_body event md w)))"
  by (cases event) (simp_all add: run_kind_I topology_upsert_I topology_closure_I execution_state_I
      agent_node_I agent_activity_I I_execution end_execution_I)

section \<open>Identity and lifecycle\<close>

lemma plan_on_I: "I r \<Longrightarrow> I (fst (apply_plan_on E plan now r))"
proof -
  assume r: "I r"
  from I_plan [OF r, of "en_fresh E (rd_minted r)" plan now] show ?thesis
    by (auto simp: apply_plan_on_def intro: I_fields(4) split: prod.splits sum.split)
qed

lemma binding_I: "I (fst w) \<Longrightarrow> I (fst (fst (apply_binding E ev now w)))"
  using plan_on_I [of "fst w" E "plan_binding (model_of w) ev" now]
  by (auto simp: apply_binding_def split: prod.splits sum.split)

lemma identity_I: "I (fst w) \<Longrightarrow> I (fst (fst (apply_identity_metadata E event md w)))"
  unfolding apply_identity_metadata_def Let_def
  by (auto intro!: and_then_I binding_I activate_I split: option.split normalized_event.split)

lemma session_lifecycle_I: "I (fst w) \<Longrightarrow> I (fst (session_lifecycle b s md w))"
  by (auto simp: session_lifecycle_def intro: lifecycle_I split: option.split)

lemma persist_execution_I: "I (fst w) \<Longrightarrow> I (fst (persist_event_execution event n w))"
  by (auto simp: persist_event_execution_def split: option.split normalized_event.split)

lemma terminal_source_I: "I (fst w) \<Longrightarrow> I (fst (update_terminal_event_source event w))"
  by (auto simp: update_terminal_event_source_def intro: I_fields split: option.split normalized_event.split)

section \<open>Validation of a Controller event\<close>

lemma placeholders_I: "I (fst w) \<Longrightarrow> I (fst (fst (controller_placeholders E kind md w)))"
proof -
  assume w: "I (fst w)"
  have step: "ensure_controller_placeholder E i k n w = ((a, b), x) \<Longrightarrow> I a" for i k n a b x
    using placeholder_I [OF w, of E i k n] by simp
  show ?thesis
    using w by (auto simp: controller_placeholders_def split: controller_event_kind.split option.split
        prod.splits sum.splits dest: step)
qed

lemma controller_lifecycle_I: "I (fst w) \<Longrightarrow> I (fst (controller_lifecycle event md b w))"
  by (auto simp: controller_lifecycle_def Let_def intro: lifecycle_I split: option.split)

text \<open>The accepted edges of the event are the only update the invariant has to be checked for.\<close>

lemma mutate_I:
  assumes "mutate_controller E event subject unknown md scratch = Inr d" and "I scratch"
    and edges: "\<And>w deltas. I (fst w) \<Longrightarrow>
      validate_controller_transition (model_of w) (ce_event event) subject unknown
        (md_execution_parent md) (md_dependency md) (lane_native_end md (ce_event event)) = Inr deltas \<Longrightarrow>
      I (fst (apply_controller_metadata md False w))"
  shows "\<exists>s. I s \<and> dl_post_model d = rd_model s \<and> dl_post_next_ordinal d = rd_next_ordinal s"
proof -
  let ?md = "ensure_metadata_run E subject md True (Some (ce_task_run_id event))
    (case md_task_state md of None \<Rightarrow> Queued
       | Some state \<Rightarrow> initial_controller_state (md_source_event_type md) state) (scratch, [])"
  obtain w1 x1 where e1: "?md = (w1, Inr x1)"
    using assms(1) by (auto simp: mutate_controller_def Let_def split: prod.splits sum.splits)
  obtain w2 x2 where e2: "controller_placeholders E (ce_event event) md w1 = (w2, Inr x2)"
    using assms(1) e1 by (auto simp: mutate_controller_def Let_def split: prod.splits sum.splits)
  obtain deltas where e3: "validate_controller_transition (model_of w2) (ce_event event) subject unknown
      (md_execution_parent md) (md_dependency md) (lane_native_end md (ce_event event)) = Inr deltas"
    using assms(1) e1 e2 by (auto simp: mutate_controller_def Let_def split: prod.splits sum.splits)
  obtain w4 x4 where e4: "apply_event_body (ControllerEvent md (ce_event event)) md
      (apply_controller_metadata md False w2) = (w4, Inr x4)"
    using assms(1) e1 e2 e3
    by (auto simp: mutate_controller_def Let_def simp del: apply_event_body.simps
        split: prod.splits sum.splits)
  obtain w5 x5 where e5: "apply_identity_metadata E (ControllerEvent md (ce_event event)) md w4 = (w5, Inr x5)"
    using assms(1) e1 e2 e3 e4
    by (auto simp: mutate_controller_def Let_def simp del: apply_event_body.simps
        split: prod.splits sum.splits reducer_error.splits)
  have "I (fst w1)" using ensure_metadata_I [of "(scratch, [])"] assms(2) e1 by (metis fst_conv)
  then have "I (fst w2)" using placeholders_I [of w1] e2 by (metis fst_conv)
  then have "I (fst (apply_controller_metadata md False w2))" by (rule edges [OF _ e3])
  then have "I (fst w4)" using event_body_I e4 by (metis fst_conv)
  then have w5: "I (fst w5)" using identity_I e5 by (metis fst_conv)
  define w6 where "w6 = persist_event_execution (ControllerEvent md (ce_event event)) (md_receipt_time_ms md)
      (controller_lifecycle event md (lane_native_end md (ce_event event)) w5)"
  define w7 where "w7 = (if lane_native_end md (ce_event event) then w6
      else update_terminal_event_source (ControllerEvent md (ce_event event)) w6)"
  have "I (fst w7)"
    using w5 by (simp add: w7_def w6_def terminal_source_I persist_execution_I controller_lifecycle_I)
  moreover have "d = materialize (fst w7) deltas (model_of w7)
      (snd (push_op (RecordEvent (ControllerEvent md (ce_event event)) (md_receipt_time_ms md)) w7))"
    using assms(1) e1 e2 e3 e4 e5
    by (cases "lane_native_end md (ce_event event)")
      (simp_all add: mutate_controller_def Let_def w7_def w6_def del: apply_event_body.simps)
  ultimately show ?thesis by (auto simp: materialize_def)
qed

text \<open>Every other outcome leaves the copy as it was, but for the dismissed run.\<close>

lemma validate_I:
  assumes "validate_controller_event E event r = Inr d" and "\<And>n. I (scratch_reducer r n)"
    and edges: "\<And>w deltas subject unknown md m n n'. I (fst w) \<Longrightarrow>
      controller_edges E m n event subject (controller_metadata event subject) = Some (md, n') \<Longrightarrow>
      validate_controller_transition (model_of w) (ce_event event) subject unknown
        (md_execution_parent md) (md_dependency md) (lane_native_end md (ce_event event)) = Inr deltas \<Longrightarrow>
      I (fst (apply_controller_metadata md False w))"
  shows "\<exists>s. I s \<and> dl_post_model d = rd_model s \<and> dl_post_next_ordinal d = rd_next_ordinal s"
proof -
  obtain subject minted where sub: "resolve_or_mint E (rd_model r) (rd_minted r) (ce_task_run_id event)
      = (subject, minted)" by (cases "resolve_or_mint E (rd_model r) (rd_minted r) (ce_task_run_id event)")
  obtain md minted' where md: "controller_edges E (rd_model r) minted event subject
      (controller_metadata event subject) = Some (md, minted')"
    using assms(1) sub
    by (auto simp: validate_controller_event_def Let_def split: if_splits option.splits prod.splits)
  have mat: "\<exists>s. I s \<and> dl_post_model (materialize s0 dl c b) = rd_model s
      \<and> dl_post_next_ordinal (materialize s0 dl c b) = rd_next_ordinal s" if "I s0" for s0 dl c b
    using that by (auto simp: materialize_def)
  have dismiss: "I (fst (dismiss_run subject n (scratch_reducer r k, [])))" for n k
    by (rule dismiss_I) (simp add: assms(2))
  consider unknown where "mutate_controller E event subject unknown md (scratch_reducer r minted') = Inr d"
    | dl c b where "d = materialize (scratch_reducer r minted') dl c b"
    | md' where "d = dismiss_subject event subject md' (scratch_reducer r minted')"
    using assms(1) sub md
    by (auto simp: validate_controller_event_def Let_def split: if_splits)
  then show ?thesis
  proof cases
    case 1
    show ?thesis by (rule mutate_I [OF 1 assms(2)]) (rule edges [OF _ md])
  next
    case 2
    then show ?thesis using mat assms(2) by simp
  next
    case 3
    then show ?thesis using mat [OF dismiss] by (simp add: dismiss_subject_def Let_def)
  qed
qed

section \<open>Reconciliation\<close>

lemma ticks_I: "I r \<Longrightarrow> I (snd (unix_now_ms E r))"
  by (simp add: unix_now_ms_def I_fields)

lemma mint_I: "I (fst w) \<Longrightarrow> I (fst (snd (mint E w)))"
  by (simp add: mint_def run_id_new_def I_fields)

lemma close_pane_now_I: "I (fst w) \<Longrightarrow> I (fst (close_pane_now E i w))"
  by (auto simp: close_pane_now_def case_prod_beta intro!: close_pane_I ticks_I)

lemma clear_topology_I: "I (fst w) \<Longrightarrow> I (fst (clear_topology E w))"
  by (auto simp: clear_topology_def Let_def drop_tab_def drop_workspace_def case_prod_beta
      intro!: fold_I close_pane_now_I I_topology)

lemma restore_ordinals_I: "I r \<Longrightarrow> I (with_model (restore_ordinals k os) r)"
proof (induction os arbitrary: r)
  case Nil
  then show ?case by (simp add: restore_ordinals_def with_model_def)
next
  case (Cons x os)
  have "with_model (restore_ordinals k (x # os)) r =
      with_model (restore_ordinals k os) (with_model (set_topology_ordinal k (fst x) (snd x)) r)"
    by (simp add: restore_ordinals_def with_model_def case_prod_beta)
  with Cons show ?case by (simp add: I_topology)
qed

lemma restore_all_I:
  "I r \<Longrightarrow> I (with_model (\<lambda>m. restore_ordinals k os (restore_ordinals k' os' (restore_ordinals k'' os'' m))) r)"
proof -
  assume "I r"
  from restore_ordinals_I [OF restore_ordinals_I [OF restore_ordinals_I [OF this]]]
  show ?thesis by (simp add: with_model_def)
qed

lemma statuses_I: "I r \<Longrightarrow> I (with_model (\<lambda>m. replace_pane_agent_statuses (ss m) m) r)"
  using I_topology(10) [of r "ss (rd_model r)"] by (simp add: with_model_def)

lemma each_I:
  assumes "I (fst w)" and "\<And>x w. I (fst w) \<Longrightarrow> I (fst (fst (f x w)))"
  shows "I (fst (fst (each f xs w)))"
  using assms(1) by (induction xs arbitrary: w) (simp_all add: and_then_I assms(2))

lemma place_I:
  "I (fst w) \<Longrightarrow> I (fst (fst (place_workspace x w)))"
  "I (fst w) \<Longrightarrow> I (fst (fst (place_tab t w)))"
  "I (fst w) \<Longrightarrow> I (fst (fst (place_pane p w)))"
  by (auto simp: place_workspace_def place_tab_def place_pane_def Let_def
      intro!: and_then_I topology_alloc_I I_topology)

lemma replace_topology_I: "I (fst w) \<Longrightarrow> I (fst (fst (replace_topology E tp w)))"
  unfolding replace_topology_def Let_def
  by (auto intro!: and_then_I each_I place_I restore_all_I clear_topology_I)

lemma snapshot_run_I: "I (fst w) \<Longrightarrow> I (fst (fst (insert_snapshot_run E p s x t n w)))"
  using mint_I [of w E]
  by (auto simp: insert_snapshot_run_def Let_def intro!: and_then_I alloc_I store_run_I split: prod.split)

lemma snapshot_agent_node_link:
  assumes "snapshot_agent_node m p s i = Some n" shows "link_ok m n"
proof -
  have "n \<in> set (agent_nodes m)"
    using assms by (auto simp: snapshot_agent_node_def split: option.splits dest!: min_by_key_Some)
  then have "nodes_ok (dm_agent_nodes m) \<Longrightarrow> get_agent_node m (an_agent_node_id n) = Some n"
    by (auto simp: nodes_ok_def get_agent_node_def hm_values_iff)
  then show ?thesis by (auto simp: link_ok_def node_parents_def get_agent_node_def)
qed

lemma place_node_I: "I (fst w) \<Longrightarrow> I (fst (fst (place_agent_node t p s i w)))"
proof -
  assume w: "I (fst w)"
  have new: "link_ok m (gap_agent_node t q s i n)" for m n q
    by (rule link_ok_root) (simp add: gap_agent_node_def)
  show ?thesis
  proof (cases p)
    case (Some q)
    show ?thesis
      unfolding place_agent_node_def Some option.case
      by (rule fetch_node_I [OF w]) (simp_all add: I_node w snapshot_agent_node_link new)
  qed (simp add: place_agent_node_def w)
qed

lemma place_agent_I: "I (fst w) \<Longrightarrow> I (fst (fst (place_agent E n p a w)))"
  unfolding place_agent_def Let_def
  by (auto simp: case_prod_beta intro!: and_then_I snapshot_run_I place_node_I reopen_I activate_I
      I_execution mint_I split: option.split)

lemma reconcile_inner_I: "I r \<Longrightarrow> I (fst (fst (reconcile_snapshot_inner E tp r)))"
proof -
  assume r: "I r"
  have gap: "I (fst (end_pre_gap_execution n e w))" if "I (fst w)" for n e w
    using that by (auto simp: end_pre_gap_execution_def Let_def intro: I_execution)
  have pane: "I (fst (fst (place_snapshot_pane E n p w)))" if "I (fst w)" for n p w
    using that by (auto simp: place_snapshot_pane_def intro: place_agent_I split: option.split)
  have close: "I (fst (close_pre_gap_run E n i w))" if "I (fst w)" for n i w
    using that by (simp add: close_pre_gap_run_def close_history_I close_run_I)
  show ?thesis
    unfolding reconcile_snapshot_inner_def Let_def case_prod_beta
    using ticks_I [OF r, of E]
    by (auto intro!: and_then_I replace_topology_I each_I fold_I statuses_I gap pane close)
qed

end

text \<open>An invariant that relationship edges keep holds after every event.\<close>

locale handler_invariant = handler_base +
  assumes I_execution_edge: "I r \<Longrightarrow> I (with_model (\<lambda>m. fst (insert_execution_edge edge m)) r)"
    and I_dependency_edge: "I r \<Longrightarrow> I (with_model (\<lambda>m. fst (insert_dependency_edge dep m)) r)"
begin

lemma edge_op_I:
  "I (fst w) \<Longrightarrow> I (fst (insert_execution_edge_op edge n w))"
  "I (fst w) \<Longrightarrow> I (fst (insert_dependency_edge_op dep n w))"
  using I_execution_edge [of "fst w" edge] I_dependency_edge [of "fst w" dep]
  by (auto simp: insert_execution_edge_op_def insert_dependency_edge_op_def with_model_def Let_def
      split: prod.split)

lemma controller_metadata_I: "I (fst w) \<Longrightarrow> I (fst (apply_controller_metadata md b w))"
  unfolding apply_controller_metadata_def Let_def
  by (auto intro!: edge_op_I store_run_I I_fields split: option.split)

lemma apply_inner_I: "I r \<Longrightarrow> I (fst (fst (apply_inner E event r)))"
  unfolding apply_inner_def Let_def
  by (intro and_then_I)
    (simp_all add: ensure_event_I event_body_I controller_metadata_I identity_I session_lifecycle_I
      persist_execution_I terminal_source_I)

lemma apply_events_I: "I (fst w) \<Longrightarrow> I (fst (fst (apply_events E events w)))"
proof (induction events arbitrary: w)
  case Nil
  then show ?case by simp
next
  case (Cons event events)
  from apply_inner_I [OF Cons.prems, of E event] Cons.IH show ?case
    by (auto split: prod.splits sum.split)
qed

end

end
