(* ===== verification/Reducer_Laws.thy ===== *)
theory Reducer_Laws
  imports Handler_Laws
begin

text \<open>
  The invariants of the reducer: the tables of its model are maps whose rows stand under their
  own identifiers, an observation that fails changes nothing a reader could see, and a validated
  Controller event keeps the relationship graphs well formed.
\<close>

section \<open>Well-formed tables\<close>

definition model_ok :: "domain_model \<Rightarrow> bool" where
  "model_ok m \<longleftrightarrow> tables_ok m \<and> rows_keyed m \<and> parents_ok (dm_agent_nodes m)"

definition rows_under :: "('v \<Rightarrow> 'k) \<Rightarrow> ('k, 'v) hmap \<Rightarrow> bool" where
  "rows_under key t \<longleftrightarrow> (\<forall>k v. hm_get t k = Some v \<longrightarrow> key v = k)"

lemma rows_under_ops [simp]:
  "rows_under key t \<Longrightarrow> rows_under key (hm_put (key v) v t)"
  "rows_under key t \<Longrightarrow> rows_under key (hm_del k t)"
  "rows_under key t \<Longrightarrow> (\<And>v. key (f v) = key v) \<Longrightarrow> rows_under key (hm_map_values f t)"
  by (auto simp: rows_under_def split: if_splits)

lemma model_ok_alt:
  "model_ok m \<longleftrightarrow> (hm_ok (dm_task_runs m) \<and> rows_under tr_run_id (dm_task_runs m))
     \<and> (hm_ok (dm_executions m) \<and> rows_under ex_execution_id (dm_executions m))
     \<and> nodes_ok (dm_agent_nodes m)
     \<and> hm_ok (dm_run_ids_by_key m) \<and> hm_ok (dm_task_run_v6_state m) \<and> hm_ok (dm_run_rate_totals m)
     \<and> hm_ok (dm_run_rate_cursors m) \<and> hm_ok (dm_telemetry m) \<and> hm_ok (dm_run_kinds m)"
  by (auto simp: model_ok_def tables_ok_def rows_keyed_def runs_keyed_def rows_under_def
      get_task_run_def get_execution_def get_agent_node_def nodes_ok_def)

lemma model_okD:
  assumes "model_ok m"
  shows "tables_ok m" and "rows_keyed m" and "runs_keyed m" and "parents_ok (dm_agent_nodes m)" and "hm_ok (dm_run_ids_by_key m)"
  using assms by (auto simp: model_ok_def rows_keyed_def tables_ok_def)

lemma ok_insert_run: "model_ok m \<Longrightarrow> model_ok (insert_task_run t m)"
  by (auto simp: model_ok_alt insert_task_run_def Let_def ensure_v6_state_def set_v6_state_def
      split: option.split)

lemma ok_alias: "model_ok m \<Longrightarrow> model_ok (insert_task_run_alias k r m)"
  by (simp add: model_ok_alt insert_task_run_alias_def)

lemma ok_rows:
  "model_ok m \<Longrightarrow> model_ok (insert_execution e m)"
  "model_ok m \<Longrightarrow> link_ok m n \<Longrightarrow> model_ok (insert_agent_node n m)"
  "model_ok m \<Longrightarrow> model_ok (set_v6_state i s m)"
  "model_ok m \<Longrightarrow> model_ok (set_run_kind i k m)"
  "model_ok m \<Longrightarrow> model_ok (with_diagnostics f m)"
  using nodes_insert [of m n]
  by (simp_all add: model_ok_alt insert_execution_def insert_agent_node_def set_v6_state_def
      set_run_kind_def with_diagnostics_def)

lemma ok_rates:
  "model_ok m \<Longrightarrow> model_ok (set_run_rate_cursor i c m)"
  "model_ok m \<Longrightarrow> model_ok (remove_run_rate_cursor i m)"
  "model_ok m \<Longrightarrow> model_ok (clear_run_rate_cursors m)"
  "model_ok m \<Longrightarrow> model_ok (fst (accumulate_run_rate_totals i d m))"
  "model_ok m \<Longrightarrow> model_ok (telemetry_entry i at f m)"
  by (auto simp: model_ok_alt set_run_rate_cursor_def remove_run_rate_cursor_def
      clear_run_rate_cursors_def accumulate_run_rate_totals_def Let_def case_prod_beta
      with_diagnostics_def telemetry_entry_def)

lemma ok_folds:
  "model_ok m \<Longrightarrow> model_ok (fold_telemetry s a m)"
  "model_ok m \<Longrightarrow> model_ok (fold_run_kind s a m)"
  "model_ok m \<Longrightarrow> model_ok (fold_task_run_v6_state s a m)"
  "model_ok m \<Longrightarrow> model_ok (fold_run_rate_totals s a m)"
  by (auto simp: model_ok_alt fold_telemetry_def fold_run_kind_def fold_task_run_v6_state_def
      fold_run_rate_totals_def accumulate_run_rate_totals_def Let_def case_prod_beta
      with_diagnostics_def split: option.split)

lemma ok_remove_record: "model_ok m \<Longrightarrow> model_ok (remove_task_run_record r m)"
  by (simp add: model_ok_alt remove_task_run_record_def)

lemma ok_inherit: "model_ok m \<Longrightarrow> model_ok (inherit_controller_evidence s a n m)"
  by (auto simp: inherit_controller_evidence_def ok_insert_run split: option.split)

lemma ok_reown:
  "model_ok m \<Longrightarrow> model_ok (m\<lparr>dm_executions := reown_executions s a (dm_executions m)\<rparr>)"
  "model_ok m \<Longrightarrow> model_ok (m\<lparr>dm_agent_nodes := reown_agent_nodes s a (dm_agent_nodes m)\<rparr>)"
  by (simp_all add: model_ok_alt reown_executions_def reown_agent_nodes_def nodes_map)

lemma ok_edges: "model_ok m \<Longrightarrow> model_ok (m\<lparr>dm_execution_edges := es, dm_dependency_edges := ds\<rparr>)"
  by (simp add: model_ok_alt)

lemma ok_fold: "P m \<Longrightarrow> (\<And>x m. P m \<Longrightarrow> P (f x m)) \<Longrightarrow> P (fold f xs m)"
  by (induction xs arbitrary: m) auto

lemma ok_merge: "model_ok m \<Longrightarrow> model_ok (merge_in_memory s a g n m)"
  unfolding merge_in_memory_def Let_def
  by (intro ok_fold [where P = model_ok] ok_alias ok_edges ok_reown ok_remove_record ok_rates ok_folds
      ok_inherit)

lemma ok_plan: "model_ok m \<Longrightarrow> model_ok (fst (apply_binding_plan_at fresh plan n m))"
proof (induction fresh plan n m rule: apply_binding_plan_at.induct)
  case (3 fresh run key n m)
  then show ?case
    by (auto simp: apply_bind_def bind_run_def Let_def ok_insert_run ok_alias
        split: option.split sum.split prod.split run_key.split)
next
  case (4 fresh s a n m)
  then show ?case
    by (auto simp: Let_def ok_insert_run ok_merge split: sum.split option.split)
qed auto

interpretation tables: handler_invariant "\<lambda>r. model_ok (rd_model r)"
  by unfold_locales (simp_all add: with_model_def ok_insert_run ok_rows ok_plan,
    simp_all add: model_ok_alt insert_execution_edge_def insert_dependency_edge_def)

section \<open>What no event touches\<close>

definition outside_of :: "reducer \<Rightarrow> reducer" where
  "outside_of r = r\<lparr>rd_model := domain_model_default, rd_next_ordinal := 0,
     rd_terminal_event_sources := [], rd_non_lane_task_state_runs := [], rd_minted := 0, rd_ticks := 0\<rparr>"

interpretation outside: handler_invariant "\<lambda>r. outside_of r = outside_of r0" for r0
  by unfold_locales (simp_all add: outside_of_def with_model_def)

lemma outside_eq:
  "outside_of a = outside_of b \<Longrightarrow>
     a = b\<lparr>rd_model := rd_model a, rd_next_ordinal := rd_next_ordinal a,
       rd_terminal_event_sources := rd_terminal_event_sources a,
       rd_non_lane_task_state_runs := rd_non_lane_task_state_runs a,
       rd_minted := rd_minted a, rd_ticks := rd_ticks a\<rparr>"
  by (cases a; cases b) (simp add: outside_of_def)

lemma roll_back_events:
  assumes "apply_events E events (r, batch) = ((r', batch'), result)"
  shows "roll_back original r' = (roll_back original r)\<lparr>rd_minted := rd_minted r', rd_ticks := rd_ticks r'\<rparr>"
proof -
  have "outside_of r' = outside_of r"
    using outside.apply_events_I [of "(r, batch)" r E events] assms by simp
  from outside_eq [OF this] obtain m n s l k t where
    r': "r' = r\<lparr>rd_model := m, rd_next_ordinal := n, rd_terminal_event_sources := s,
      rd_non_lane_task_state_runs := l, rd_minted := k, rd_ticks := t\<rparr>" by blast
  show ?thesis unfolding r' by (simp add: roll_back_def)
qed

section \<open>Relationship graphs\<close>

definition graphs_ok :: "domain_model \<Rightarrow> bool" where
  "graphs_ok m \<longleftrightarrow> dispatch_graph_ok (dm_execution_edges m) \<and> dependency_graph_ok (dm_dependency_edges m)"

lemma graphs_frame:
  "graphs_ok (insert_task_run t m) = graphs_ok m"
  "graphs_ok (insert_execution e m) = graphs_ok m"
  "graphs_ok (insert_agent_node n m) = graphs_ok m"
  "graphs_ok (set_v6_state i s m) = graphs_ok m"
  "graphs_ok (set_run_kind i kind m) = graphs_ok m"
  "graphs_ok (with_diagnostics f m) = graphs_ok m"
  "graphs_ok (insert_task_run_alias k r m) = graphs_ok m"
  by (simp_all add: graphs_ok_def insert_execution_def insert_agent_node_def set_v6_state_def
      set_run_kind_def with_diagnostics_def insert_task_run_alias_def)

lemma graphs_merge:
  "preflight_merge m s a = Inr g \<Longrightarrow> graphs_ok (merge_in_memory s a g n m)"
  using merged_edges(1,2) by (simp add: graphs_ok_def merge_tables)

lemma graphs_plan: "graphs_ok m \<Longrightarrow> graphs_ok (fst (apply_binding_plan_at fresh plan n m))"
proof (induction fresh plan n m rule: apply_binding_plan_at.induct)
  case (3 fresh run key n m)
  then show ?case
    by (auto simp: apply_bind_def bind_run_def Let_def graphs_frame
        split: option.split sum.split prod.split run_key.split)
next
  case (4 fresh s a n m)
  then show ?case
    by (auto simp: Let_def graphs_frame graphs_merge split: sum.split option.split)
qed auto

interpretation graphs: handler_base "\<lambda>r. graphs_ok (rd_model r)"
  by unfold_locales (simp_all add: with_model_def graphs_frame graphs_plan, simp_all add: graphs_ok_def)

lemma store_run_edges:
  "dm_execution_edges (model_of (store_run t n w)) = dm_execution_edges (model_of w)"
  "dm_dependency_edges (model_of (store_run t n w)) = dm_dependency_edges (model_of w)"
  by (simp_all add: store_run_def Let_def on_model_def push_op_def with_model_def)

text \<open>The edges of the model after the Controller metadata of an event is applied.\<close>

lemma controller_metadata_edges:
  "dm_execution_edges (model_of (apply_controller_metadata md b w)) =
     (case md_execution_parent md of None \<Rightarrow> dm_execution_edges (model_of w)
      | Some e \<Rightarrow> hs_insert e (dm_execution_edges (model_of w)))"
  "dm_dependency_edges (model_of (apply_controller_metadata md b w)) =
     (case md_dependency md of None \<Rightarrow> dm_dependency_edges (model_of w)
      | Some e \<Rightarrow> hs_insert e (dm_dependency_edges (model_of w)))"
  by (auto simp: apply_controller_metadata_def Let_def insert_execution_edge_op_def
      insert_dependency_edge_op_def insert_execution_edge_def insert_dependency_edge_def
      store_run_edges on_model_def with_model_def push_op_def split: option.split)

lemma controller_edges_kind:
  assumes "controller_edges E m n event subject (controller_metadata event subject) = Some (md, n')"
  shows "md_execution_parent md = Some e \<Longrightarrow> \<exists>parent. ce_event event = CtlDispatch parent"
    and "md_dependency md = Some d \<Longrightarrow> \<exists>prerequisite. ce_event event = CtlDependsOn prerequisite"
  using assms
  by (auto simp: controller_edges_def controller_metadata_def Let_def
      split: controller_event_kind.splits if_splits prod.splits)

lemma accepted_edges:
  assumes "graphs_ok (model_of w)"
    and "controller_edges E m n event subject (controller_metadata event subject) = Some (md, n')"
    and "validate_controller_transition (model_of w) (ce_event event) subject unknown
        (md_execution_parent md) (md_dependency md) native = Inr deltas"
  shows "graphs_ok (model_of (apply_controller_metadata md False w))"
proof -
  note kind = controller_edges_kind [OF assms(2)]
  have ex: "preflight_execution_edge (model_of w) e = Inr ()" if "md_execution_parent md = Some e" for e
    using kind(1) [OF that] assms(3) that
    by (auto simp: validate_controller_transition_def Let_def split: option.splits sum.splits)
  have dep: "preflight_dependency_edge (model_of w) e = Inr ()" if "md_dependency md = Some e" for e
    using kind(2) [OF that] assms(3) that
    by (auto simp: validate_controller_transition_def Let_def split: option.splits sum.splits if_splits)
  show ?thesis
    using assms(1) ex dep dispatch.guarded_insert_keeps [of "model_of w"]
      dependency.guarded_insert_keeps [of "model_of w"]
    by (auto simp: graphs_ok_def controller_metadata_edges insert_execution_edge_def
        insert_dependency_edge_def split: option.split)
qed

lemma scratch_model:
  "graphs_ok (rd_model (scratch_reducer r n)) = graphs_ok (rd_model r)"
  "model_ok (rd_model (scratch_reducer r n)) = model_ok (rd_model r)"
  by (simp_all add: scratch_reducer_def reducer_new_def Let_def take_deferred_history_activity_def
      with_diagnostics_def graphs_ok_def model_ok_alt)

lemma validated_graphs:
  assumes "validate_controller_event E event r = Inr d" and "graphs_ok (rd_model r)"
  shows "graphs_ok (dl_post_model d)"
proof -
  have "\<exists>s::reducer. graphs_ok (rd_model s) \<and> dl_post_model d = rd_model s
      \<and> dl_post_next_ordinal d = rd_next_ordinal s"
    by (rule graphs.validate_I [OF assms(1)]) (simp_all add: scratch_model assms(2) accepted_edges)
  then show ?thesis by auto
qed

lemma validated_tables:
  assumes "validate_controller_event E event r = Inr d" and "model_ok (rd_model r)"
  shows "model_ok (dl_post_model d)"
proof -
  have "\<exists>s::reducer. model_ok (rd_model s) \<and> dl_post_model d = rd_model s
      \<and> dl_post_next_ordinal d = rd_next_ordinal s"
    by (rule tables.validate_I [OF assms(1)])
      (simp_all add: scratch_model assms(2) tables.controller_metadata_I)
  then show ?thesis by auto
qed

end
