(* ===== verification/Telemetry_Queue.thy ===== *)
theory Telemetry_Queue
  imports Reducer_State
begin

text \<open>
  The queue of telemetry samples that arrive before their run is known. The reducer keeps it as a
  table of samples per run key, the keys in arrival order and a counter; it implements one queue
  of samples in arrival order that keeps the newest samples of its capacity.
\<close>

section \<open>Bounded queues\<close>

locale bounded_queue =
  fixes invar :: "'q \<Rightarrow> bool" and items :: "'q \<Rightarrow> 'a list"
    and enq :: "'a \<Rightarrow> 'q \<Rightarrow> 'q" and capacity :: nat
  assumes capacity_pos: "0 < capacity"
    and invar_enq: "invar q \<Longrightarrow> invar (enq x q)"
    and items_enq: "invar q \<Longrightarrow>
      items (enq x q) = (if length (items q) < capacity then items q else tl (items q)) @ [x]"
    and items_bound: "invar q \<Longrightarrow> length (items q) \<le> capacity"
begin

definition newest :: "'a list \<Rightarrow> 'a list" where
  "newest xs = drop (length xs - capacity) xs"

lemma newest_snoc: "newest (newest xs @ [x]) = newest (xs @ [x])"
  by (cases "capacity \<le> length xs") (simp_all add: newest_def Suc_diff_le)

lemma items_enq_newest: "invar q \<Longrightarrow> items (enq x q) = newest (items q @ [x])"
  using items_bound [of q] capacity_pos
  by (cases "items q") (auto simp: items_enq newest_def Suc_diff_le)

lemma enq_all:
  "invar q \<Longrightarrow> invar (fold enq xs q) \<and> items (fold enq xs q) = newest (items q @ xs)"
proof (induction xs rule: rev_induct)
  case Nil
  then show ?case using items_bound [of q] by (simp add: newest_def)
next
  case (snoc x xs)
  then have "invar (fold enq xs q)" "items (fold enq xs q) = newest (items q @ xs)" by auto
  then show ?case by (simp add: invar_enq items_enq_newest newest_snoc del: append_assoc add: append_assoc [symmetric])
qed

end

section \<open>Samples in arrival order\<close>

definition popped :: "'k \<Rightarrow> ('k \<Rightarrow> 'v list) \<Rightarrow> 'k \<Rightarrow> 'v list" where
  "popped k p = p(k := tl (p k))"

definition pushed :: "'k \<Rightarrow> 'v \<Rightarrow> ('k \<Rightarrow> 'v list) \<Rightarrow> 'k \<Rightarrow> 'v list" where
  "pushed k s p = p(k := p k @ [s])"

fun arrivals :: "('k \<Rightarrow> 'v list) \<Rightarrow> 'k list \<Rightarrow> ('k \<times> 'v) list" where
  "arrivals p [] = []"
| "arrivals p (k # ks) =
     (case p k of [] \<Rightarrow> arrivals p ks | s # ss \<Rightarrow> (k, s) # arrivals (popped k p) ks)"

text \<open>Every key stands in the order once per sample.\<close>

definition matched :: "('k \<Rightarrow> 'v list) \<Rightarrow> 'k list \<Rightarrow> bool" where
  "matched p ks \<longleftrightarrow> (\<forall>k. length (p k) = count_list ks k)"

lemma matched_Cons: "matched p (k # ks) \<Longrightarrow> p k \<noteq> [] \<and> matched (popped k p) ks"
proof -
  assume m: "matched p (k # ks)"
  have len: "length (p j) = (if k = j then Suc (count_list ks j) else count_list ks j)" for j
    using m by (simp add: matched_def)
  from len [of k] have "p k \<noteq> []" by auto
  with len show ?thesis by (simp add: matched_def popped_def)
qed

lemma matched_snoc: "matched p ks \<Longrightarrow> matched (pushed k s p) (ks @ [k])"
  by (auto simp: matched_def pushed_def)

lemma popped_pushed: "p j \<noteq> [] \<Longrightarrow> popped j (pushed k s p) = pushed k s (popped j p)"
  by (auto simp: popped_def pushed_def)

lemma matched_None: "matched p [] \<Longrightarrow> p k = []"
  by (auto simp: matched_def)

lemma arrivals_snoc: "matched p ks \<Longrightarrow> arrivals (pushed k s p) (ks @ [k]) = arrivals p ks @ [(k, s)]"
proof (induction ks arbitrary: p)
  case Nil
  then show ?case by (simp add: matched_None pushed_def)
next
  case (Cons j ks)
  from matched_Cons [OF this(2)] obtain t ts where j: "p j = t # ts" and m: "matched (popped j p) ks"
    by (auto simp: neq_Nil_conv)
  have "\<exists>ts. pushed k s p j = t # ts" using j by (auto simp: pushed_def)
  with Cons.IH [OF m] j popped_pushed [of p j k s] show ?case by auto
qed

lemma arrivals_length: "matched p ks \<Longrightarrow> length (arrivals p ks) = length ks"
proof (induction ks arbitrary: p)
  case (Cons j ks)
  from matched_Cons [OF this(2)] obtain t ts where "p j = t # ts" and "matched (popped j p) ks"
    by (auto simp: neq_Nil_conv)
  with Cons.IH show ?case by simp
qed simp

definition without :: "'k set \<Rightarrow> ('k \<Rightarrow> 'v list) \<Rightarrow> 'k \<Rightarrow> 'v list" where
  "without R p = (\<lambda>k. if k \<in> R then [] else p k)"

lemma without_popped:
  "k \<in> R \<Longrightarrow> without R (popped k p) = without R p"
  "k \<notin> R \<Longrightarrow> without R (popped k p) = popped k (without R p)"
  by (auto simp: without_def popped_def)

lemma arrivals_without:
  "arrivals (without R p) (filter (\<lambda>k. k \<notin> R) ks) = filter (\<lambda>x. fst x \<notin> R) (arrivals p ks)"
proof (induction p ks rule: arrivals.induct)
  case (2 p j ks)
  have j: "j \<notin> R \<Longrightarrow> without R p j = p j" by (simp add: without_def)
  show ?case
  proof (cases "p j")
    case Nil
    then show ?thesis using 2(1) j by simp
  next
    case (Cons s ss)
    then show ?thesis
      using 2(2) [OF Cons] without_popped [of j R p] j by (cases "j \<in> R") simp_all
  qed
qed simp

lemma matched_without: "matched p ks \<Longrightarrow> matched (without R p) (filter (\<lambda>k. k \<notin> R) ks)"
proof -
  have "count_list (filter (\<lambda>k. k \<notin> R) ks) k = (if k \<in> R then 0 else count_list ks k)" for k
    by (induction ks) auto
  then show "matched p ks \<Longrightarrow> ?thesis" by (simp add: matched_def without_def)
qed

abbreviation samples_of :: "(run_key, pending_telemetry list) hmap \<Rightarrow> run_key \<Rightarrow> pending_telemetry list" where
  "samples_of pending k \<equiv> opt_unwrap_or [] (hm_get pending k)"

definition queued :: "telemetry_queue \<Rightarrow> (run_key \<times> pending_telemetry) list" where
  "queued q = (case q of (pending, order, count) \<Rightarrow> arrivals (samples_of pending) order)"

definition queue_ok :: "telemetry_queue \<Rightarrow> bool" where
  "queue_ok q \<longleftrightarrow> (case q of (pending, order, count) \<Rightarrow>
     hm_ok pending \<and> (\<forall>k. hm_get pending k \<noteq> Some [])
     \<and> matched (samples_of pending) order
     \<and> count = length order \<and> count \<le> pending_telemetry_sample_capacity)"

section \<open>The queue of the reducer\<close>

lemma evict_oldest_ok:
  assumes "queue_ok q" and "queued q \<noteq> []"
  shows "\<exists>q'. evict_oldest_pending_telemetry q = (q', True) \<and> queue_ok q' \<and> queued q' = tl (queued q)
    \<and> Suc (snd (snd q')) = snd (snd q)"
proof -
  obtain pending order count where q: "q = (pending, order, count)" by (cases q)
  then obtain k ks where o: "order = k # ks" using assms(2) by (cases order) (auto simp: queued_def)
  have m: "matched (samples_of pending) (k # ks)" using assms(1) by (simp add: q o queue_ok_def)
  obtain s ss where k: "hm_get pending k = Some (s # ss)"
    using matched_Cons [OF m] by (cases "hm_get pending k"; cases "samples_of pending k") auto
  define p' where "p' = (if ss = [] then hm_del k pending else hm_put k ss pending)"
  have ok: "hm_ok pending" using assms(1) by (simp add: q queue_ok_def)
  have get: "samples_of p' = popped k (samples_of pending)"
    using k by (auto simp: p'_def fun_eq_iff popped_def simp del: map_of_eq_Some_iff)
  have "hm_ok p'" "\<forall>j. hm_get p' j \<noteq> Some []"
    using ok assms(1) by (auto simp: p'_def q queue_ok_def simp del: map_of_eq_Some_iff)
  moreover have "length ks < pending_telemetry_sample_capacity" "count - 1 = length ks"
    using assms(1) by (auto simp: q o queue_ok_def)
  ultimately have "queue_ok (p', ks, count - 1)"
    using matched_Cons [OF m] unfolding queue_ok_def prod.case get by simp
  moreover have "queued (p', ks, count - 1) = tl (queued q)"
    using k by (simp add: queued_def q o get)
  ultimately show ?thesis
    using assms(1) k by (auto simp: q o evict_oldest_pending_telemetry_def p'_def queue_ok_def)
qed

lemma queued_length: "queue_ok q \<Longrightarrow> length (queued q) = snd (snd q)"
  by (auto simp: queue_ok_def queued_def arrivals_length)

lemma make_room_ok:
  assumes "queue_ok q"
  shows "queue_ok (make_room q) \<and> snd (snd (make_room q)) < pending_telemetry_sample_capacity
    \<and> queued (make_room q) = (if length (queued q) < pending_telemetry_sample_capacity
         then queued q else tl (queued q))"
proof (cases "snd (snd q) < pending_telemetry_sample_capacity")
  case True
  then show ?thesis using assms by (simp add: make_room.simps queued_length)
next
  case False
  then have full: "snd (snd q) = pending_telemetry_sample_capacity"
    using assms by (auto simp: queue_ok_def)
  then have "queued q \<noteq> []"
    using queued_length [OF assms] by (auto simp: pending_telemetry_sample_capacity_def)
  from evict_oldest_ok [OF assms this] obtain q' where q': "evict_oldest_pending_telemetry q = (q', True)"
    "queue_ok q'" "queued q' = tl (queued q)" "Suc (snd (snd q')) = snd (snd q)" by blast
  then have "make_room q = q'" using full by (simp add: make_room.simps)
  with q' full assms show ?thesis by (simp add: queued_length)
qed

lemma enqueue_ok:
  assumes "queue_ok q"
  shows "queue_ok (enqueue_pending_telemetry k s q) \<and> queued (enqueue_pending_telemetry k s q) =
    (if length (queued q) < pending_telemetry_sample_capacity then queued q else tl (queued q)) @ [(k, s)]"
proof -
  obtain pending order count where m: "make_room q = (pending, order, count)" by (cases "make_room q")
  note room = make_room_ok [OF assms, unfolded m]
  have get: "samples_of (hm_put k (samples_of pending k @ [s]) pending) = pushed k s (samples_of pending)"
    by (auto simp: pushed_def)
  have "queue_ok (enqueue_pending_telemetry k s q)"
    using room unfolding enqueue_pending_telemetry_def m prod.case queue_ok_def get
    by (auto simp: matched_snoc)
  moreover have "queued (enqueue_pending_telemetry k s q) = queued (pending, order, count) @ [(k, s)]"
    using room unfolding enqueue_pending_telemetry_def m prod.case queued_def get
    by (intro arrivals_snoc) (simp add: queue_ok_def)
  ultimately show ?thesis using room by simp
qed

interpretation early_telemetry: bounded_queue queue_ok queued
  "\<lambda>(k, s). enqueue_pending_telemetry k s" pending_telemetry_sample_capacity
  by unfold_locales
    (auto simp: enqueue_ok queued_length pending_telemetry_sample_capacity_def, auto simp: queue_ok_def
      pending_telemetry_sample_capacity_def)

section \<open>Handing over the samples of known runs\<close>

definition drop_samples :: "run_key \<Rightarrow> telemetry_queue \<Rightarrow> telemetry_queue" where
  "drop_samples k q = (case q of (pending, order, count) \<Rightarrow>
     (hm_del k pending, order, count - length (samples_of pending k)))"

definition drop_key :: "run_key \<Rightarrow> telemetry_queue \<Rightarrow> telemetry_queue" where
  "drop_key k q = (case q of (pending, order, count) \<Rightarrow>
     (hm_del k pending, filter (\<lambda>j. j \<noteq> k) order, count - length (samples_of pending k)))"

lemma length_without: "length (filter (\<lambda>j. j \<noteq> k) xs) = length xs - count_list xs k"
proof -
  have "length (filter (\<lambda>j. j \<noteq> k) xs) + count_list xs k = length xs"
    by (induction xs) auto
  then show ?thesis by simp
qed

lemma drop_key_ok:
  assumes "queue_ok q"
  shows "queue_ok (drop_key k q) \<and> queued (drop_key k q) = filter (\<lambda>x. fst x \<noteq> k) (queued q)"
proof -
  obtain pending order count where q: "q = (pending, order, count)" by (cases q)
  have ok: "hm_ok pending" "\<forall>j. hm_get pending j \<noteq> Some []" "matched (samples_of pending) order"
    "count = length order" "count \<le> pending_telemetry_sample_capacity"
    using assms by (simp_all add: q queue_ok_def)
  have get: "samples_of (hm_del k pending) = without {k} (samples_of pending)"
    by (auto simp: without_def)
  have "matched (samples_of (hm_del k pending)) (filter (\<lambda>j. j \<noteq> k) order)"
    using matched_without [OF ok(3), of "{k}"] unfolding get by simp
  moreover have "count - length (samples_of pending k) = length (filter (\<lambda>j. j \<noteq> k) order)"
    using ok(3,4) by (simp add: matched_def length_without)
  moreover have "\<forall>j. hm_get (hm_del k pending) j \<noteq> Some []"
    using ok(2) by (simp del: map_of_eq_Some_iff)
  ultimately have "queue_ok (drop_key k q)"
    using ok(1,4,5) by (simp add: q drop_key_def queue_ok_def)
  moreover have "queued (drop_key k q) = filter (\<lambda>x. fst x \<noteq> k) (queued q)"
    using arrivals_without [of "{k}" "samples_of pending" order]
    unfolding q drop_key_def prod.case queued_def get by simp
  ultimately show ?thesis ..
qed

lemma drain_ok:
  "queue_ok q \<Longrightarrow> queue_ok (fold drop_key ks q)
     \<and> queued (fold drop_key ks q) = filter (\<lambda>x. fst x \<notin> set ks) (queued q)"
proof (induction ks arbitrary: q)
  case (Cons k ks)
  from drop_key_ok [OF Cons.prems, of k] Cons.IH [of "drop_key k q"] show ?case
    by (auto intro: filter_cong)
qed simp

lemma drop_key_samples:
  "fold drop_key ks (p, order, n) = fold drop_samples ks (p, filter (\<lambda>j. j \<notin> set ks) order, n)"
proof (induction ks arbitrary: p order n)
  case (Cons k ks)
  have "filter (\<lambda>j. j \<notin> set ks) (filter (\<lambda>j. j \<noteq> k) order) = filter (\<lambda>j. j \<notin> set (k # ks)) order"
    by (auto intro: filter_cong)
  with Cons show ?case by (simp add: drop_key_def drop_samples_def)
qed simp

definition handed_over ::
  "(run_key, pending_telemetry list) hmap \<Rightarrow> run_key list \<Rightarrow> (run_key \<times> pending_telemetry) list" where
  "handed_over pending ks = concat (map (\<lambda>k. map (Pair k) (samples_of pending k)) ks)"

abbreviation accumulate_all :: "(run_key \<times> pending_telemetry) list \<Rightarrow> reducer \<Rightarrow> reducer" where
  "accumulate_all xs r \<equiv> fold (\<lambda>(k, s) r. fst (accumulate_telemetry k s r)) xs r"

lemma accumulate_queue [simp]:
  "fst (accumulate_telemetry k s (set_telemetry_queue q r)) = set_telemetry_queue q (fst (accumulate_telemetry k s r))"
  by (simp add: accumulate_telemetry_def set_telemetry_queue_def Let_def with_model_def split: option.split)

lemma accumulate_all_queue:
  "accumulate_all xs (set_telemetry_queue q r) = set_telemetry_queue q (accumulate_all xs r)"
  by (induction xs arbitrary: r) auto

lemma accumulate_all_keeps_queue: "telemetry_queue_of (accumulate_all xs r) = telemetry_queue_of r"
proof (induction xs arbitrary: r)
  case (Cons x xs)
  have "telemetry_queue_of (fst (accumulate_telemetry (fst x) (snd x) r)) = telemetry_queue_of r"
    by (simp add: accumulate_telemetry_def telemetry_queue_of_def Let_def with_model_def split: option.split)
  with Cons show ?case by (simp add: case_prod_beta)
qed simp

lemma set_queue [simp]:
  "telemetry_queue_of (set_telemetry_queue q r) = q"
  "set_telemetry_queue q (set_telemetry_queue q' r) = set_telemetry_queue q r"
  "set_telemetry_queue (telemetry_queue_of r) r = r"
  by (simp_all add: telemetry_queue_of_def set_telemetry_queue_def)

text \<open>The queue and the other fields of the reducer are independent.\<close>

lemma queue_frame [simp]:
  "telemetry_queue_of (r\<lparr>rd_model := x_model\<rparr>) = telemetry_queue_of r"
  "telemetry_queue_of (r\<lparr>rd_next_ordinal := x_next_ordinal\<rparr>) = telemetry_queue_of r"
  "telemetry_queue_of (r\<lparr>rd_next_ingest_seq := x_next_ingest_seq\<rparr>) = telemetry_queue_of r"
  "telemetry_queue_of (r\<lparr>rd_terminal_event_sources := x_terminal_event_sources\<rparr>) = telemetry_queue_of r"
  "telemetry_queue_of (r\<lparr>rd_non_lane_task_state_runs := x_non_lane_task_state_runs\<rparr>) = telemetry_queue_of r"
  "telemetry_queue_of (r\<lparr>rd_rate_epoch := x_rate_epoch\<rparr>) = telemetry_queue_of r"
  "telemetry_queue_of (r\<lparr>rd_rate_epoch_active := x_rate_epoch_active\<rparr>) = telemetry_queue_of r"
  "telemetry_queue_of (r\<lparr>rd_dirty_rate_totals := x_dirty_rate_totals\<rparr>) = telemetry_queue_of r"
  "telemetry_queue_of (r\<lparr>rd_pending_rate_observation_runs := x_pending_rate_observation_runs\<rparr>) = telemetry_queue_of r"
  "telemetry_queue_of (r\<lparr>rd_rate_observation_context := x_rate_observation_context\<rparr>) = telemetry_queue_of r"
  "telemetry_queue_of (r\<lparr>rd_published := x_published\<rparr>) = telemetry_queue_of r"
  "telemetry_queue_of (r\<lparr>rd_operator := x_operator\<rparr>) = telemetry_queue_of r"
  "telemetry_queue_of (r\<lparr>rd_defer_provider_publication := x_defer_provider_publication\<rparr>) = telemetry_queue_of r"
  "telemetry_queue_of (r\<lparr>rd_defer_provider_model_publication := x_defer_provider_model_publication\<rparr>) = telemetry_queue_of r"
  "telemetry_queue_of (r\<lparr>rd_provider_model_publication_pending := x_provider_model_publication_pending\<rparr>) = telemetry_queue_of r"
  "telemetry_queue_of (r\<lparr>rd_deferred_provider_drain := x_deferred_provider_drain\<rparr>) = telemetry_queue_of r"
  "telemetry_queue_of (r\<lparr>rd_provider_observation_private_run_ids := x_provider_observation_private_run_ids\<rparr>) = telemetry_queue_of r"
  "telemetry_queue_of (r\<lparr>rd_pending_live_provider_submission := x_pending_live_provider_submission\<rparr>) = telemetry_queue_of r"
  "telemetry_queue_of (r\<lparr>rd_published_history_drains := x_published_history_drains\<rparr>) = telemetry_queue_of r"
  "telemetry_queue_of (r\<lparr>rd_ticks := x_ticks\<rparr>) = telemetry_queue_of r"
  "telemetry_queue_of (r\<lparr>rd_minted := x_minted\<rparr>) = telemetry_queue_of r"
  "telemetry_queue_of (r\<lparr>rd_next_submission_token := x_next_submission_token\<rparr>) = telemetry_queue_of r"
  by (simp_all add: telemetry_queue_of_def)

lemma set_queue_frame [simp]:
  "rd_model (set_telemetry_queue q r) = rd_model r"
  "rd_next_ordinal (set_telemetry_queue q r) = rd_next_ordinal r"
  "rd_next_ingest_seq (set_telemetry_queue q r) = rd_next_ingest_seq r"
  "rd_terminal_event_sources (set_telemetry_queue q r) = rd_terminal_event_sources r"
  "rd_non_lane_task_state_runs (set_telemetry_queue q r) = rd_non_lane_task_state_runs r"
  "rd_rate_epoch (set_telemetry_queue q r) = rd_rate_epoch r"
  "rd_rate_epoch_active (set_telemetry_queue q r) = rd_rate_epoch_active r"
  "rd_dirty_rate_totals (set_telemetry_queue q r) = rd_dirty_rate_totals r"
  "rd_pending_rate_observation_runs (set_telemetry_queue q r) = rd_pending_rate_observation_runs r"
  "rd_rate_observation_context (set_telemetry_queue q r) = rd_rate_observation_context r"
  "rd_published (set_telemetry_queue q r) = rd_published r"
  "rd_operator (set_telemetry_queue q r) = rd_operator r"
  "rd_defer_provider_publication (set_telemetry_queue q r) = rd_defer_provider_publication r"
  "rd_defer_provider_model_publication (set_telemetry_queue q r) = rd_defer_provider_model_publication r"
  "rd_provider_model_publication_pending (set_telemetry_queue q r) = rd_provider_model_publication_pending r"
  "rd_deferred_provider_drain (set_telemetry_queue q r) = rd_deferred_provider_drain r"
  "rd_provider_observation_private_run_ids (set_telemetry_queue q r) = rd_provider_observation_private_run_ids r"
  "rd_pending_live_provider_submission (set_telemetry_queue q r) = rd_pending_live_provider_submission r"
  "rd_published_history_drains (set_telemetry_queue q r) = rd_published_history_drains r"
  "rd_ticks (set_telemetry_queue q r) = rd_ticks r"
  "rd_minted (set_telemetry_queue q r) = rd_minted r"
  "rd_next_submission_token (set_telemetry_queue q r) = rd_next_submission_token r"
  by (simp_all add: set_telemetry_queue_def)

lemma ready_samples:
  "apply_ready_samples k (set_telemetry_queue q r) =
     set_telemetry_queue (drop_samples k q) (accumulate_all (map (Pair k) (samples_of (fst q) k)) r)"
proof -
  obtain p ord n where q: "q = (p, ord, n)" by (cases q)
  have all: "fold (\<lambda>s r. fst (accumulate_telemetry k s r)) xs r = accumulate_all (map (Pair k) xs) r" for xs r
    by (induction xs arbitrary: r) auto
  show ?thesis
  proof (cases "hm_get p k")
    case None
    then have "hm_del k p = p" by (auto intro!: AList.delete_idem simp: map_of_eq_None_iff)
    with None show ?thesis
      by (simp add: apply_ready_samples_def drop_samples_def q set_telemetry_queue_def)
  next
    case (Some xs)
    have "(set_telemetry_queue q r)\<lparr>rd_pending_telemetry := hm_del k p,
        rd_pending_telemetry_count := n - length xs\<rparr> = set_telemetry_queue (drop_samples k q) r"
      using Some by (cases r) (simp add: drop_samples_def q set_telemetry_queue_def)
    with Some have "apply_ready_samples k (set_telemetry_queue q r)
        = accumulate_all (map (Pair k) xs) (set_telemetry_queue (drop_samples k q) r)"
      by (simp add: apply_ready_samples_def q) (simp add: set_telemetry_queue_def all)
    then show ?thesis using Some by (simp add: accumulate_all_queue q)
  qed
qed

lemma ready_all:
  "distinct ks \<Longrightarrow> fold apply_ready_samples ks (set_telemetry_queue q r) =
     set_telemetry_queue (fold drop_samples ks q) (accumulate_all (handed_over (fst q) ks) r)"
proof (induction ks arbitrary: q r)
  case (Cons k ks)
  have "handed_over (fst (drop_samples k q)) ks = handed_over (fst q) ks"
    using Cons.prems
    by (auto simp: handed_over_def drop_samples_def split: prod.split intro!: arg_cong [where f = concat])
  with Cons show ?case by (simp add: ready_samples handed_over_def)
qed (simp add: handed_over_def)

lemma pending_handed_over:
  "\<exists>ks. set ks = {k \<in> set (rd_pending_telemetry_order r). task_run_by_key (rd_model r) k \<noteq> None}
     \<and> apply_pending_telemetry_for_known_runs r =
       set_telemetry_queue (fold drop_key ks (telemetry_queue_of r))
         (accumulate_all (handed_over (rd_pending_telemetry r) ks) r)"
proof -
  define ks where "ks = hs_extend [] (filter (\<lambda>key. task_run_by_key (rd_model r) key \<noteq> None)
      (rd_pending_telemetry_order r))"
  define q where "q = (rd_pending_telemetry r, filter (\<lambda>key. key \<notin> set ks) (rd_pending_telemetry_order r),
      rd_pending_telemetry_count r)"
  have d: "distinct ks" by (simp add: ks_def)
  have "apply_pending_telemetry_for_known_runs r = fold apply_ready_samples ks (set_telemetry_queue q r)"
    by (simp add: apply_pending_telemetry_for_known_runs_def Let_def ks_def q_def set_telemetry_queue_def)
  also have "\<dots> = set_telemetry_queue (fold drop_samples ks q)
      (accumulate_all (handed_over (rd_pending_telemetry r) ks) r)"
    by (simp add: ready_all [OF d]) (simp add: q_def)
  also have "fold drop_samples ks q = fold drop_key ks (telemetry_queue_of r)"
    by (simp add: q_def telemetry_queue_of_def drop_key_samples)
  finally show ?thesis by (intro exI [of _ ks]) (auto simp: ks_def)
qed

end
