(* ===== verification/Operation_Laws.thy ===== *)
theory Operation_Laws
  imports Reducer_Laws Telemetry_Queue
begin

text \<open>
  Invariants of whole reducer operations. \<open>operation_invariant\<close> extends the locale of the event
  handlers by the bookkeeping an operation does around them and gives the invariant for every
  operation the collector calls; \<open>Reducer_Steps\<close> interprets it on the invariant of the reducer
  and on what stays hidden while a history drain is read.
\<close>

section \<open>Invariants of the operations\<close>

text \<open>
  An invariant of the handlers that survives the bookkeeping of an operation - rates,
  telemetry, submission, publication, the two kinds of roll-back and the commit of a validated
  delta - survives every operation.
\<close>

locale operation_invariant = handler_invariant +
  assumes I_other: "I r \<Longrightarrow> I (r\<lparr>rd_rate_epoch := e, rd_rate_epoch_active := f,
        rd_dirty_rate_totals := g, rd_pending_rate_observation_runs := h,
        rd_rate_observation_context := i, rd_provider_model_publication_pending := k,
        rd_published_history_drains := n\<rparr>)"
    and I_queue: "I r \<Longrightarrow> I (set_telemetry_queue (enqueue_pending_telemetry key sample (telemetry_queue_of r)) r)"
      "I r \<Longrightarrow> I (set_telemetry_queue (fold drop_key keys (telemetry_queue_of r)) r)"
    and I_rates: "I r \<Longrightarrow> I (with_model (set_run_rate_cursor run cursor) r)"
      "I r \<Longrightarrow> I (with_model (remove_run_rate_cursor run) r)"
      "I r \<Longrightarrow> I (with_model clear_run_rate_cursors r)"
      "I r \<Longrightarrow> I (with_model (\<lambda>m. fst (accumulate_run_rate_totals run totals m)) r)"
      "I r \<Longrightarrow> I (with_model (telemetry_entry run at_ms update) r)"
    and I_history: "I r \<Longrightarrow> I (with_model (\<lambda>m. fst (release_history_publications run m)) r)"
    and I_publish_snapshot: "I r \<Longrightarrow> I (publish_snapshot r)"
    and I_submission: "I r \<Longrightarrow> I (r\<lparr>rd_operator := apply_submission batch (rd_operator r)\<rparr>)"
      "I r \<Longrightarrow> I (r\<lparr>rd_operator := apply_submission_without_publishing drain batch (rd_operator r)\<rparr>)"
      "I r \<Longrightarrow> I (r\<lparr>rd_operator := publish_accumulated drains finalized published (rd_operator r)\<rparr>)"
    and I_roll_back: "I original \<Longrightarrow> I r \<Longrightarrow> I (roll_back original r)"
      "I original \<Longrightarrow> I r \<Longrightarrow> I (r\<lparr>rd_model := rd_model original, rd_next_ordinal := rd_next_ordinal original\<rparr>)"
    and I_commit: "I r \<Longrightarrow> validate_controller_event E event r = Inr d \<Longrightarrow>
        rd_next_ingest_seq r = Some q \<Longrightarrow> 0 < q \<Longrightarrow>
        I (r\<lparr>rd_model := dl_post_model d, rd_next_ordinal := dl_post_next_ordinal d,
          rd_terminal_event_sources := dl_post_terminal_event_sources d,
          rd_non_lane_task_state_runs := dl_post_non_lane_task_state_runs d,
          rd_next_ingest_seq := i64_checked_add q 1, rd_minted := dl_minted d\<rparr>)"
begin

lemma I_plain:
  assumes "I r"
  shows "I (r\<lparr>rd_rate_epoch := e\<rparr>)"
    and "I (r\<lparr>rd_rate_epoch_active := f\<rparr>)"
    and "I (r\<lparr>rd_dirty_rate_totals := g\<rparr>)"
    and "I (r\<lparr>rd_pending_rate_observation_runs := h\<rparr>)"
    and "I (r\<lparr>rd_rate_observation_context := i\<rparr>)"
    and "I (r\<lparr>rd_provider_model_publication_pending := k\<rparr>)"
    and "I (r\<lparr>rd_published_history_drains := n\<rparr>)"
proof -
  note o = I_other [OF assms]
  show "I (r\<lparr>rd_rate_epoch := e\<rparr>)"
    using o [where e = e and f = "rd_rate_epoch_active r" and g = "rd_dirty_rate_totals r" and h = "rd_pending_rate_observation_runs r" and i = "rd_rate_observation_context r" and k = "rd_provider_model_publication_pending r" and n = "rd_published_history_drains r"]
    by simp
  show "I (r\<lparr>rd_rate_epoch_active := f\<rparr>)"
    using o [where e = "rd_rate_epoch r" and f = f and g = "rd_dirty_rate_totals r" and h = "rd_pending_rate_observation_runs r" and i = "rd_rate_observation_context r" and k = "rd_provider_model_publication_pending r" and n = "rd_published_history_drains r"]
    by simp
  show "I (r\<lparr>rd_dirty_rate_totals := g\<rparr>)"
    using o [where e = "rd_rate_epoch r" and f = "rd_rate_epoch_active r" and g = g and h = "rd_pending_rate_observation_runs r" and i = "rd_rate_observation_context r" and k = "rd_provider_model_publication_pending r" and n = "rd_published_history_drains r"]
    by simp
  show "I (r\<lparr>rd_pending_rate_observation_runs := h\<rparr>)"
    using o [where e = "rd_rate_epoch r" and f = "rd_rate_epoch_active r" and g = "rd_dirty_rate_totals r" and h = h and i = "rd_rate_observation_context r" and k = "rd_provider_model_publication_pending r" and n = "rd_published_history_drains r"]
    by simp
  show "I (r\<lparr>rd_rate_observation_context := i\<rparr>)"
    using o [where e = "rd_rate_epoch r" and f = "rd_rate_epoch_active r" and g = "rd_dirty_rate_totals r" and h = "rd_pending_rate_observation_runs r" and i = i and k = "rd_provider_model_publication_pending r" and n = "rd_published_history_drains r"]
    by simp
  show "I (r\<lparr>rd_provider_model_publication_pending := k\<rparr>)"
    using o [where e = "rd_rate_epoch r" and f = "rd_rate_epoch_active r" and g = "rd_dirty_rate_totals r" and h = "rd_pending_rate_observation_runs r" and i = "rd_rate_observation_context r" and k = k and n = "rd_published_history_drains r"]
    by simp
  show "I (r\<lparr>rd_published_history_drains := n\<rparr>)"
    using o [where e = "rd_rate_epoch r" and f = "rd_rate_epoch_active r" and g = "rd_dirty_rate_totals r" and h = "rd_pending_rate_observation_runs r" and i = "rd_rate_observation_context r" and k = "rd_provider_model_publication_pending r" and n = n]
    by simp
qed

section \<open>Telemetry, rates and publication\<close>

lemma accumulate_I: "I r \<Longrightarrow> I (fst (accumulate_telemetry key sample r))"
  by (auto simp: accumulate_telemetry_def Let_def intro!: I_plain I_rates
      split: option.split)

lemma pending_telemetry_I: "I r \<Longrightarrow> I (apply_pending_telemetry_for_known_runs r)"
proof -
  assume r: "I r"
  have all: "I (accumulate_all xs r)" for xs
    by (rule ok_fold [where P = I, OF r]) (auto simp: accumulate_I)
  obtain ks where "apply_pending_telemetry_for_known_runs r =
      set_telemetry_queue (fold drop_key ks (telemetry_queue_of r))
        (accumulate_all (handed_over (rd_pending_telemetry r) ks) r)"
    using pending_handed_over by blast
  with I_queue(2) [OF all] show ?thesis by (metis accumulate_all_keeps_queue)
qed

lemma observe_I: "I r \<Longrightarrow> I (observe_run_rates_with_activity obs working r)"
  unfolding observe_run_rates_with_activity_def Let_def
  by (auto intro!: I_rates I_plain split: option.split prod.split
      rate_observation_origin.split)

lemma observe_published_I: "I r \<Longrightarrow> I (observe_published_run st og n i r)"
  by (auto simp: observe_published_run_def intro!: observe_I I_rates
      split: option.split)

lemma publish_I: "I r \<Longrightarrow> I (publish E r)"
  unfolding publish_def Let_def case_prod_beta unix_now_ms_def
  by (auto intro!: I_publish_snapshot ok_fold [where P = I] observe_published_I I_plain
      I_fields pending_telemetry_I)

lemma begin_epoch_I: "I r \<Longrightarrow> I (begin_rate_epoch r)"
  by (auto simp: begin_rate_epoch_def intro!: I_plain I_rates)

lemma activate_epoch_I: "I r \<Longrightarrow> I (activate_rate_epoch E n r)"
  unfolding activate_rate_epoch_def Let_def
  by (auto intro!: ok_fold [where P = I] observe_I I_plain)

lemma recompute_I: "I r \<Longrightarrow> I (recompute_dangling_announcement_components r)"
  using I_diagnostics [of r "set_dangling_announcement_components (dangling_announcement_components (rd_model r))"]
  by (simp add: recompute_dangling_announcement_components_def with_model_def)

lemma note_I: "I r \<Longrightarrow> I (note_operation op r)"
  by (auto simp: note_operation_def Let_def intro!: I_plain split: option.split persist_op.split)

lemma submission_I: "I r \<Longrightarrow> I (apply_operator_submission batch r)"
proof -
  assume "I r"
  then have "I (fold note_operation batch r)"
    by (rule ok_fold [where P = I]) (rule note_I)
  then show ?thesis
    by (auto simp: apply_operator_submission_def Let_def
        intro!: I_submission)
qed

lemma finish_I: "I r \<Longrightarrow> I (finish_batch E batch r)"
  by (simp add: finish_batch_def publish_I submission_I)

section \<open>Operations\<close>

lemma conclude_I:
  assumes o: "I original" and a: "I (fst (fst applied))"
  shows "I (fst (conclude_observation E original applied))"
proof -
  obtain r b x where e: "applied = ((r, b), x)" by (metis surj_pair)
  note r = a [unfolded e fst_conv]
  show ?thesis
  proof (cases x)
    case (Inl error)
    then show ?thesis
      using I_roll_back(1) [OF o r] by (cases error) (simp_all add: conclude_observation_def e)
  next
    case (Inr u)
    then show ?thesis
      using finish_I [OF recompute_I [OF r]] by (simp add: conclude_observation_def e Let_def)
  qed
qed

lemma observation_I: "I r \<Longrightarrow> I (fst (apply_observation_inner E events obs r))"
proof -
  assume r: "I r"
  have pane: "I (observe_pane_agent o1 r)" for o1
    using r by (simp add: observe_pane_agent_def Let_def I_topology I_plain)
  have r1: "I (observe_first obs r)"
    using r pane by (auto simp: observe_first_def split: option.split)
  from apply_events_I [of "(observe_first obs r, [])" E events] r1 r show ?thesis
    by (simp add: apply_observation_inner_def conclude_I)
qed

lemma heuristic_I: "I r \<Longrightarrow> I (fst (apply_heuristic_binding E run sid n r))"
proof -
  assume r: "I r"
  obtain r1 x where e: "apply_plan_on E (plan_binding (rd_model r) (HeuristicNativeSession run sid)) n r
      = (r1, x)" by fastforce
  have "I r1" using plan_on_I [OF r] e by (metis fst_conv)
  then show ?thesis
    using e by (auto simp: apply_heuristic_binding_def Let_def intro!: finish_I recompute_I
        split: sum.split)
qed

lemma diagnostics_I:
  "I r \<Longrightarrow> I (reducer_record_binding_conflict E r)"
  "I r \<Longrightarrow> I (reducer_record_provider_identity_disagreement E r)"
  by (simp_all add: reducer_record_binding_conflict_def reducer_record_provider_identity_disagreement_def
      publish_I I_diagnostics)

lemma replayed_I: "I r \<Longrightarrow> I (restore_replayed_controller_transients E event r)"
  unfolding restore_replayed_controller_transients_def Let_def
  by (auto intro!: publish_I I_kind I_fields split: option.split controller_event_kind.split)

lemma restored_I:
  "I r \<Longrightarrow> I (restore_terminal_event_sources sources r)"
  "I r \<Longrightarrow> I (restore_non_lane_task_state_runs runs r)"
  by (simp_all add: restore_terminal_event_sources_def restore_non_lane_task_state_runs_def I_fields)

lemma liveness_I: "I r \<Longrightarrow> I (fst (touch_run_liveness_observed E key n k r))"
proof -
  assume r: "I r"
  have life: "I (fst (apply_native_lifecycle i s wm (r', b)))" if "I r'" for i s wm r' b
    using lifecycle_I [of "(r', b)"] that by simp
  show ?thesis
    using r by (auto simp: touch_run_liveness_observed_def Let_def case_prod_beta
        intro!: finish_I life I_run split: option.split)
qed

lemma telemetry_I: "I r \<Longrightarrow> I (apply_telemetry_with_breakdown E key sample r)"
  by (auto simp: apply_telemetry_with_breakdown_def intro!: publish_I accumulate_I I_queue)

lemma lane_close_I: "I r \<Longrightarrow> I (fst (apply_lane_close_observed E key n k r))"
proof -
  assume r: "I r"
  have life: "I (fst (apply_native_lifecycle i s wm (r', b)))" if "I r'" for i s wm r' b
    using lifecycle_I [of "(r', b)"] that by simp
  show ?thesis
    using r by (auto simp: apply_lane_close_observed_def Let_def case_prod_beta
        intro!: finish_I life I_run split: option.split)
qed

lemma sweep_I: "I r \<Longrightarrow> I (fst (sweep_stale E n r))"
  unfolding sweep_stale_def Let_def close_inactive_dispatch_only_runs_def
    close_inactive_fact_timed_runs_def case_prod_beta
  by (auto intro!: finish_I recompute_I fold_I end_execution_I end_inactive_I)

lemma command_I: "I r \<Longrightarrow> I (fst (apply_operator_command E c n r))"
  unfolding apply_operator_command_def Let_def case_prod_beta
  by (auto intro!: finish_I fold_I dismiss_I)

lemma commit_I:
  assumes "I r" and "validate_controller_event E event r = Inr d"
  shows "I (fst (commit_staged_unqueued E d r))"
  using assms I_commit [OF assms]
  by (auto simp: commit_staged_unqueued_def Let_def apply_controller_diagnostic_deltas_def opt_filter_def
      intro!: finish_I publish_I I_diagnostics split: option.split if_splits)

lemma reconcile_I: "I r \<Longrightarrow> I (fst (reconcile_snapshot E topology r))"
proof -
  assume r: "I r"
  obtain r1 b x where e: "reconcile_snapshot_inner E topology r = ((r1, b), x)" by (metis surj_pair)
  have r1: "I r1" using reconcile_inner_I [OF r, of E topology] e by simp
  have "I (r1\<lparr>rd_model := rd_model r, rd_next_ordinal := rd_next_ordinal r\<rparr>)"
    by (rule I_roll_back(2) [OF r r1])
  with r1 e show ?thesis
    unfolding reconcile_snapshot_def Let_def case_prod_beta unix_now_ms_def
    by (auto intro!: publish_I activate_epoch_I begin_epoch_I pending_telemetry_I submission_I
        recompute_I I_fields split: sum.split)
qed

lemma checkpoint_rates_I: "I r \<Longrightarrow> I (fst (checkpoint_run_rates n r))"
  unfolding checkpoint_run_rates_def Let_def
  by (auto intro!: I_plain I_publish_snapshot ok_fold [where P = I] observe_I)

lemma observe_run_I: "I r \<Longrightarrow> I (observe_run_rates E obs r)"
  by (auto simp: observe_run_rates_def intro!: observe_I I_rates
      split: option.split)

lemma restore_dirty_I: "I r \<Longrightarrow> I (restore_dirty_rate_totals totals r)"
  by (simp add: restore_dirty_rate_totals_def I_plain)

lemma finalize_run_I: "I r \<Longrightarrow> I (finalize_run f r)"
  by (auto simp: finalize_run_def Let_def intro!: I_plain I_history I_v6)

lemma finalization_I: "I r \<Longrightarrow> I (fst (apply_history_finalization E f r))"
  unfolding apply_history_finalization_def Let_def
  by (auto intro!: I_plain publish_I I_submission ok_fold [where P = I] finalize_run_I)

end

end
