(* ===== verification/Reducer_Steps.thy ===== *)
theory Reducer_Steps
  imports Operation_Laws
begin

text \<open>
  The reducer as a state machine: one step for each operation the collector can call, together
  with the provider observation that is open. The invariant says that the tables of the model
  are well formed, the operator page is normal, what is published is the snapshot of a
  well-formed model, a deferring reducer holds its drain, and so do the states a pending
  submission or an open observation may restore.
\<close>

section \<open>The invariant\<close>

definition checkpoint_ok :: "live_provider_observation_checkpoint \<Rightarrow> bool" where
  "checkpoint_ok c \<longleftrightarrow> model_ok (lc_model c)
     \<and> queue_ok (lc_pending_telemetry c, lc_pending_telemetry_order c, lc_pending_telemetry_count c)"

definition core_ok :: "reducer \<Rightarrow> bool" where
  "core_ok r \<longleftrightarrow> model_ok (rd_model r) \<and> operator_ok (rd_operator r) \<and> deferral_ok r
     \<and> queue_ok (telemetry_queue_of r)
     \<and> (\<exists>m. model_ok m \<and> rd_published r = publication_snapshot m)
     \<and> opt_is_none_or (\<lambda>p. opt_is_none_or (\<lambda>c. checkpoint_ok c) (pl_checkpoint p))
         (rd_pending_live_provider_submission r)"

lemma core_okD:
  assumes "core_ok r"
  shows "model_ok (rd_model r)" and "operator_ok (rd_operator r)" and "deferral_ok r"
    and "queue_ok (telemetry_queue_of r)"
  using assms by (simp_all add: core_ok_def)

lemma core_model:
  "core_ok r \<Longrightarrow> model_ok m \<Longrightarrow> core_ok (r\<lparr>rd_model := m\<rparr>)"
  by (simp add: core_ok_def deferral_ok_def)

lemma core_with_model:
  "core_ok r \<Longrightarrow> model_ok (f (rd_model r)) \<Longrightarrow> core_ok (with_model f r)"
  by (simp add: with_model_def core_model)

text \<open>Fields the invariant does not read.\<close>

lemma core_fields:
  assumes "core_ok r"
  shows "core_ok (r\<lparr>rd_rate_epoch := e\<rparr>)"
    and "core_ok (r\<lparr>rd_rate_epoch_active := f\<rparr>)" and "core_ok (r\<lparr>rd_dirty_rate_totals := g\<rparr>)"
    and "core_ok (r\<lparr>rd_pending_rate_observation_runs := h\<rparr>)"
    and "core_ok (r\<lparr>rd_rate_observation_context := i\<rparr>)"
    and "core_ok (r\<lparr>rd_defer_provider_model_publication := j\<rparr>)"
    and "core_ok (r\<lparr>rd_provider_model_publication_pending := k\<rparr>)"
    and "core_ok (r\<lparr>rd_provider_observation_private_run_ids := l\<rparr>)"
    and "core_ok (r\<lparr>rd_published_history_drains := n\<rparr>)"
    and "core_ok (r\<lparr>rd_next_ingest_seq := s\<rparr>)"
    and "core_ok (r\<lparr>rd_next_submission_token := t\<rparr>)"
  using assms by (simp_all add: core_ok_def deferral_ok_def)

lemma core_publish_snapshot: "core_ok r \<Longrightarrow> core_ok (publish_snapshot r)"
  by (auto simp: publish_snapshot_def core_ok_def deferral_ok_def)

lemma core_operator: "core_ok r \<Longrightarrow> operator_ok o1 \<Longrightarrow> core_ok (r\<lparr>rd_operator := o1\<rparr>)"
  by (simp add: core_ok_def deferral_ok_def)

lemma core_commit:
  assumes "core_ok r" and "validate_controller_event E event r = Inr d"
  shows "core_ok (r\<lparr>rd_model := dl_post_model d, rd_next_ordinal := dl_post_next_ordinal d,
      rd_terminal_event_sources := dl_post_terminal_event_sources d,
      rd_non_lane_task_state_runs := dl_post_non_lane_task_state_runs d,
      rd_next_ingest_seq := q, rd_minted := dl_minted d\<rparr>)"
  using assms(1) validated_tables [OF assms(2)] by (simp add: core_ok_def deferral_ok_def)

lemma ok_publications: "model_ok m \<Longrightarrow> model_ok (m\<lparr>dm_history_run_publications := ps\<rparr>)"
  by (simp add: model_ok_alt)

lemma ok_release: "model_ok m \<Longrightarrow> model_ok (fst (release_history_publications i m))"
  by (simp add: release_history_publications_def Let_def ok_publications)

interpretation core: operation_invariant core_ok
proof unfold_locales
  show "core_ok (r\<lparr>rd_operator := apply_submission batch (rd_operator r)\<rparr>)" if "core_ok r" for r batch
    by (intro core_operator apply_submission_ok core_okD that)
  show "core_ok (r\<lparr>rd_operator := apply_submission_without_publishing drain batch (rd_operator r)\<rparr>)"
    if "core_ok r" for r drain batch
    by (intro core_operator apply_private_ok core_okD that)
  show "core_ok (r\<lparr>rd_operator := publish_accumulated drains finalized published (rd_operator r)\<rparr>)"
    if "core_ok r" for r drains finalized published
    by (intro core_operator publish_accumulated_ok core_okD that)
qed (auto intro!: core_with_model core_model core_publish_snapshot core_commit
      simp: ok_insert_run ok_rows ok_rates ok_plan ok_release core_okD,
     auto simp: enqueue_ok drain_ok core_ok_def deferral_ok_def roll_back_def model_ok_alt insert_execution_edge_def
       insert_dependency_edge_def)

section \<open>Provider observations\<close>

definition prior_ok :: "provider_observation_prior option \<Rightarrow> bool" where
  "prior_ok prior = (case prior of
     Some (PriorLive c) \<Rightarrow> checkpoint_ok c | _ \<Rightarrow> True)"

lemma capture_checkpoint_ok: "core_ok r \<Longrightarrow> checkpoint_ok (capture_checkpoint r)"
  using core_okD(1,4) [of r] by (simp add: checkpoint_ok_def capture_checkpoint_def telemetry_queue_of_def)

lemma core_restore: "core_ok r \<Longrightarrow> checkpoint_ok c \<Longrightarrow> core_ok (restore_checkpoint c r)"
  by (simp add: core_ok_def checkpoint_ok_def restore_checkpoint_def deferral_ok_def telemetry_queue_of_def)

lemma core_begin:
  assumes "core_ok r" and "begin_provider_observation origin n r = Some (r', prior)"
  shows "core_ok r'" and "prior_ok prior"
proof -
  show "core_ok r'"
  proof (cases origin)
    case Live
    then show ?thesis
      using assms by (auto simp: begin_provider_observation_def Let_def intro!: core_fields split: if_splits)
  next
    case (Historical drain provider_text)
    then show ?thesis
      using assms by (auto simp: begin_provider_observation_def core_ok_def deferral_ok_def split: if_splits)
  qed
  show "prior_ok prior"
    using assms
    by (auto simp: begin_provider_observation_def Let_def prior_ok_def
        intro!: capture_checkpoint_ok core_fields
        split: if_splits observation_origin.splits)
qed

lemma core_close:
  "core_ok r \<Longrightarrow> core_ok (r\<lparr>rd_defer_provider_publication := False, rd_defer_provider_model_publication := False,
     rd_provider_model_publication_pending := False, rd_deferred_provider_drain := None,
     rd_provider_observation_private_run_ids := [], rd_rate_observation_context := None\<rparr>)"
  by (simp add: core_ok_def deferral_ok_def)

lemma core_cancel: "core_ok r \<Longrightarrow> core_ok (cancel_provider_observation E r)"
  by (simp add: cancel_provider_observation_def Let_def core.publish_I core_close)

lemma ok_finish_runs:
  "model_ok m \<Longrightarrow> model_ok (fst (fold (finish_run h ops n) touched (m, rows)))"
proof (induction touched arbitrary: m rows)
  case Nil
  then show ?case by simp
next
  case (Cons i touched)
  obtain m' rows' where e: "finish_run h ops n i (m, rows) = (m', rows')" by fastforce
  have "model_ok m'"
    using e Cons.prems by (auto simp: finish_run_def Let_def ok_insert_run ok_rows split: option.splits)
  with Cons.IH e show ?case by simp
qed

lemma ok_captures:
  "model_ok m \<Longrightarrow> model_ok (fst (fold (capture_publication before ops) touched (m, ps)))"
proof (induction touched arbitrary: m ps)
  case Nil
  then show ?case by simp
next
  case (Cons i touched)
  obtain m' ps' where e: "capture_publication before ops i (m, ps) = (m', ps')" by fastforce
  have "model_ok m'"
    using e Cons.prems
    by (auto simp: capture_publication_def install_history_publication_def Let_def ok_publications
        split: option.splits if_splits prod.splits)
  with Cons.IH e show ?case by simp
qed

lemma core_pending:
  assumes "core_ok r" and "opt_is_none_or (\<lambda>c. checkpoint_ok c) c"
  shows "core_ok (r\<lparr>rd_next_submission_token := n,
    rd_pending_live_provider_submission := Some \<lparr>pl_submission_id = i, pl_checkpoint = c,
      pl_ready_run_ids = ready\<rparr>\<rparr>)"
  using assms by (simp add: core_ok_def deferral_ok_def)

lemma core_receipt:
  assumes "core_ok r" and "prior_ok prior" and "live_receipt prior b ready r = Some (r', receipt)"
  shows "core_ok r'"
  using assms
  by (auto simp: live_receipt_def Let_def prior_ok_def intro!: core_pending
      split: if_splits option.splits provider_observation_prior.splits)

definition finished_model ::
  "provider_observation_prior option \<Rightarrow> persist_batch \<Rightarrow> bool \<Rightarrow> i64 \<Rightarrow> domain_model \<Rightarrow> domain_model" where
  "finished_model prior ops historical n m =
     (let touched = observation_touched prior ops m;
          m' = (case prior of
              Some (PriorHistorical before) \<Rightarrow>
                if historical then fst (fold (capture_publication before ops) touched (m, [])) else m
            | _ \<Rightarrow> m)
      in fst (fold (finish_run historical ops n) touched (m', [])))"

lemma ok_finished: "model_ok m \<Longrightarrow> model_ok (finished_model prior ops h n m)"
  by (auto simp: finished_model_def Let_def intro!: ok_finish_runs ok_captures
      split: option.split provider_observation_prior.split)

definition finished_reducer ::
  "provider_observation_prior option \<Rightarrow> persist_batch \<Rightarrow> bool \<Rightarrow> i64 \<Rightarrow> reducer \<Rightarrow> reducer" where
  "finished_reducer prior ops historical n r =
     r\<lparr>rd_model := finished_model prior ops historical n (rd_model r),
       rd_provider_observation_private_run_ids := [], rd_defer_provider_publication := False,
       rd_defer_provider_model_publication := False, rd_provider_model_publication_pending := False,
       rd_deferred_provider_drain := None, rd_rate_observation_context := None\<rparr>"

text \<open>The reducer a finished observation leaves, seen through its two outcomes.\<close>

lemma finish_shape:
  "\<exists>batch ready. finish_provider_observation E prior ops origin manifest n r =
     (if origin \<noteq> Live then Some (finished_reducer prior ops True n r, batch, ReceiptHistorical)
      else case live_receipt prior (\<not> provider_v6_batch_is_empty batch) ready
          (finished_reducer prior ops False n r) of
        None \<Rightarrow> None
      | Some (r1, receipt) \<Rightarrow> Some (if ready = [] then publish E r1 else r1, batch, receipt))"
proof -
  have prior: "fst (case prior of Some (PriorHistorical before) \<Rightarrow>
        if h then fold (capture_publication before ops) touched (m, []) else (m, []) | _ \<Rightarrow> (m, []))
      = (case prior of Some (PriorHistorical before) \<Rightarrow>
        if h then fst (fold (capture_publication before ops) touched (m, [])) else m | _ \<Rightarrow> m)" for h touched m
    by (auto split: option.split provider_observation_prior.split)
  show ?thesis
    unfolding finish_provider_observation_def finished_reducer_def finished_model_def Let_def
      case_prod_beta prior
    by (cases origin; simp only: observation_origin.case option.case simp_thms if_True if_False
      option.distinct observation_origin.distinct; intro exI; rule refl)
qed

lemma finish_cases:
  assumes "finish_provider_observation E prior ops origin manifest n r = Some (r', batch, receipt)"
  obtains "r' = finished_reducer prior ops True n r" and "receipt = ReceiptHistorical"
  | b ready r1 where "live_receipt prior b ready (finished_reducer prior ops False n r) = Some (r1, receipt)"
    and "r' = (if ready = [] then publish E r1 else r1)"
proof -
  obtain b ready where "finish_provider_observation E prior ops origin manifest n r =
     (if origin \<noteq> Live then Some (finished_reducer prior ops True n r, b, ReceiptHistorical)
      else case live_receipt prior (\<not> provider_v6_batch_is_empty b) ready
          (finished_reducer prior ops False n r) of
        None \<Rightarrow> None
      | Some (r1, receipt) \<Rightarrow> Some (if ready = [] then publish E r1 else r1, b, receipt))"
    using finish_shape by blast
  with assms that show ?thesis by (auto split: if_splits option.splits)
qed

lemma core_finished: "core_ok r \<Longrightarrow> core_ok (finished_reducer prior ops h n r)"
  by (simp add: finished_reducer_def core_ok_def deferral_ok_def ok_finished)

lemma core_finish_observation:
  assumes "core_ok r" and "prior_ok prior"
    and "finish_provider_observation E prior ops origin manifest n r = Some (r', batch, receipt)"
  shows "core_ok r'"
  using assms(3)
proof (cases rule: finish_cases)
  case 1
  then show ?thesis using assms(1) by (simp add: core_finished)
next
  case (2 b ready r1)
  then show ?thesis
    using core_receipt [OF core_finished [OF assms(1)] assms(2)] by (simp add: core.publish_I)
qed

lemma ok_ready_runs:
  "model_ok m \<Longrightarrow> model_ok (fst (fold release_ready_run runs (m, changed)))"
proof (induction runs arbitrary: m changed)
  case Nil
  then show ?case by simp
next
  case (Cons i runs)
  obtain m' c' where e: "release_ready_run i (m, changed) = (m', c')" by fastforce
  have "model_ok m'"
    using e Cons.prems ok_release [of _ i]
    by (auto simp: release_ready_run_def Let_def case_prod_beta ok_rows split: option.splits)
  with Cons.IH e show ?case by simp
qed

lemma core_operator_submission: "core_ok r \<Longrightarrow> core_ok (complete_operator_submission outcome r)"
  by (simp add: complete_operator_submission_def core_ok_def deferral_ok_def complete_submission_ok)

lemma core_complete: "core_ok r \<Longrightarrow> core_ok (complete_provider_submission E receipt outcome r)"
proof -
  assume r: "core_ok r"
  have op: "core_ok (complete_operator_submission outcome (r\<lparr>rd_pending_live_provider_submission := None\<rparr>))"
    using r by (simp add: complete_operator_submission_def core_ok_def deferral_ok_def complete_submission_ok)
  have deferred: "core_ok (complete_deferred_operator_submission outcome r)"
    using r by (simp add: complete_deferred_operator_submission_def core_operator complete_private_ok core_okD)
  have restored: "core_ok (restore_checkpoint c
      (complete_operator_submission outcome (r\<lparr>rd_pending_live_provider_submission := None\<rparr>)))"
    if "rd_pending_live_provider_submission r = Some p" "pl_checkpoint p = Some c" for p c
    by (rule core_restore [OF op]) (use r that in \<open>simp add: core_ok_def\<close>)
  have released: "core_ok ((complete_operator_submission outcome
      (r\<lparr>rd_pending_live_provider_submission := None\<rparr>))\<lparr>rd_model := fst (fold release_ready_run runs
        (rd_model (complete_operator_submission outcome (r\<lparr>rd_pending_live_provider_submission := None\<rparr>)), b))\<rparr>)"
    for runs b
    by (rule core_model [OF op ok_ready_runs [OF core_okD(1) [OF op]]])
  show ?thesis
    using r op deferred restored core.publish_I [OF released] released
    by (auto simp: complete_provider_submission_def Let_def case_prod_beta
        split: provider_submission_receipt.split option.split)
qed

end
