(* ===== verification/Reducer_Machine.thy ===== *)
theory Reducer_Machine
  imports Reducer_Steps
begin

text \<open>
  The reducer as the collector drives it. A state pairs the reducer with the provider
  observation that is open; a step is one operation. Every reachable state satisfies the
  invariant of \<open>Reducer_Steps\<close>, and while a historical observation is open no step changes what
  the readers see.
\<close>

type_synonym driven = "reducer \<times> provider_observation_prior option"

inductive reducer_step :: "env \<Rightarrow> driven \<Rightarrow> driven \<Rightarrow> bool" for E where
  step_observation:
    "reducer_step E (r, p) (fst (apply_observation_inner E events observation r), p)"
| step_heuristic: "reducer_step E (r, p) (fst (apply_heuristic_binding E run sid at_ms r), p)"
| step_controller: "validate_controller_event E event r = Inr delta \<Longrightarrow>
    reducer_step E (r, p) (fst (commit_staged_unqueued E delta r), p)"
| step_reconcile: "reducer_step E (r, p) (fst (reconcile_snapshot E topology r), p)"
| step_sweep: "reducer_step E (r, p) (fst (sweep_stale E at_ms r), p)"
| step_command: "reducer_step E (r, p) (fst (apply_operator_command E command at_ms r), p)"
| step_liveness: "reducer_step E (r, p) (fst (touch_run_liveness_observed E key at_ms seen_ms r), p)"
| step_lane_close: "reducer_step E (r, p) (fst (apply_lane_close_observed E key at_ms seen_ms r), p)"
| step_telemetry: "reducer_step E (r, p) (apply_telemetry_with_breakdown E key sample r, p)"
| step_conflict: "reducer_step E (r, p) (reducer_record_binding_conflict E r, p)"
| step_disagreement: "reducer_step E (r, p) (reducer_record_provider_identity_disagreement E r, p)"
| step_replayed: "reducer_step E (r, p) (restore_replayed_controller_transients E event r, p)"
| step_terminal_sources: "reducer_step E (r, p) (restore_terminal_event_sources sources r, p)"
| step_task_state_runs: "reducer_step E (r, p) (restore_non_lane_task_state_runs runs r, p)"
| step_begin_epoch: "reducer_step E (r, p) (begin_rate_epoch r, p)"
| step_activate_epoch: "reducer_step E (r, p) (activate_rate_epoch E at_ms r, p)"
| step_observe_rates: "reducer_step E (r, p) (observe_run_rates E observed r, p)"
| step_checkpoint_rates: "reducer_step E (r, p) (fst (checkpoint_run_rates at_ms r), p)"
| step_restore_rates: "reducer_step E (r, p) (restore_dirty_rate_totals totals r, p)"
| step_begin: "begin_provider_observation origin at_ms r = Some (r', prior) \<Longrightarrow>
    reducer_step E (r, None) (r', prior)"
| step_finish:
    "finish_provider_observation E p operations origin manifest at_ms r = Some (r', batch, receipt) \<Longrightarrow>
     reducer_step E (r, p) (r', None)"
| step_cancel: "reducer_step E (r, p) (cancel_provider_observation E r, None)"
| step_operator: "reducer_step E (r, p) (complete_operator_submission outcome r, p)"
| step_complete: "reducer_step E (r, p) (complete_provider_submission E receipt outcome r, p)"
| step_finalization: "reducer_step E (r, p) (fst (apply_history_finalization E finalization r), p)"

inductive reachable :: "env \<Rightarrow> driven \<Rightarrow> bool" for E where
  reach_new: "model_ok m \<Longrightarrow>
    reachable E (reducer_new m next_ordinal next_ingest_seq activity terminal_times, None)"
| reach_step: "reachable E s \<Longrightarrow> reducer_step E s s' \<Longrightarrow> reachable E s'"

inductive_cases reducer_stepE: "reducer_step E (r, p) (r', p')"

definition driven_ok :: "driven \<Rightarrow> bool" where
  "driven_ok s \<longleftrightarrow> core_ok (fst s) \<and> prior_ok (snd s)"

section \<open>The invariant holds\<close>

lemma core_new:
  assumes "model_ok m"
  shows "core_ok (reducer_new m n q activity terminal_times)"
proof -
  define m0 where "m0 = m\<lparr>dm_controller_diagnostics := set_dangling_announcement_components
      (dangling_announcement_components m) (dm_controller_diagnostics m), dm_deferred_history_activity := []\<rparr>"
  have m0: "model_ok m0" using assms by (simp add: m0_def model_ok_alt)
  have "rd_model (reducer_new m n q activity terminal_times) = m0"
    "rd_published (reducer_new m n q activity terminal_times) = publication_snapshot m0"
    "\<not> rd_defer_provider_publication (reducer_new m n q activity terminal_times)"
    "rd_pending_live_provider_submission (reducer_new m n q activity terminal_times) = None"
    "operator_ok (rd_operator (reducer_new m n q activity terminal_times))"
    "queue_ok (telemetry_queue_of (reducer_new m n q activity terminal_times))"
    by (simp_all add: reducer_new_def m0_def Let_def take_deferred_history_activity_def with_diagnostics_def
        operator_new_ok restore_deferred_ok telemetry_queue_of_def queue_ok_def matched_def)
  with m0 show ?thesis by (auto simp: core_ok_def deferral_ok_def)
qed

lemmas core_operations = core.observation_I core.heuristic_I core.reconcile_I core.sweep_I core.command_I
  core.liveness_I core.lane_close_I core.telemetry_I core.diagnostics_I core.replayed_I core.restored_I
  core.begin_epoch_I core.activate_epoch_I core.observe_run_I core.checkpoint_rates_I core.restore_dirty_I
  core.finalization_I core.commit_I core_cancel core_complete
  core_operator_submission

lemma prior_ok_None [simp]: "prior_ok None"
  by (simp add: prior_ok_def)

lemma step_keeps:
  assumes "reducer_step E s s'" and "driven_ok s"
  shows "driven_ok s'"
  using assms
  by (induction rule: reducer_step.induct)
    (auto simp: driven_ok_def intro: core_operations core_begin core_finish_observation)

lemma reachable_ok: "reachable E s \<Longrightarrow> driven_ok s"
proof (induction rule: reachable.induct)
  case (reach_new m next_ordinal next_ingest_seq activity terminal_times)
  then show ?case by (simp add: driven_ok_def core_new)
next
  case (reach_step s s')
  then show ?case by (blast intro: step_keeps)
qed

lemma reachable_tables:
  assumes "reachable E (r, p)"
  shows "model_ok (rd_model r)"
  using reachable_ok [OF assms] by (simp add: driven_ok_def core_okD)

lemma reachable_queue:
  assumes "reachable E (r, p)"
  shows "queue_ok (telemetry_queue_of r)"
  using reachable_ok [OF assms] by (simp add: driven_ok_def core_okD)

section \<open>The ingest sequence\<close>

text \<open>The next sequence number is at least \<open>n\<close>, or the numbers have run out.\<close>

definition seq_from :: "i64 \<Rightarrow> i64 option \<Rightarrow> bool" where
  "seq_from n s = opt_is_none_or (\<lambda>k. n \<le> k) s"

lemma seq_next: "seq_from n (Some q) \<Longrightarrow> seq_from n (i64_checked_add q 1)"
  by (auto simp: seq_from_def i64_checked_add_def)

interpretation ingest: operation_invariant "\<lambda>r. seq_from n (rd_next_ingest_seq r)" for n
  by unfold_locales (auto simp: with_model_def publish_snapshot_def roll_back_def seq_next)

lemmas ingest_operations = ingest.observation_I ingest.heuristic_I ingest.reconcile_I ingest.sweep_I
  ingest.command_I ingest.liveness_I ingest.lane_close_I ingest.telemetry_I ingest.diagnostics_I
  ingest.replayed_I ingest.restored_I ingest.begin_epoch_I ingest.activate_epoch_I ingest.observe_run_I
  ingest.checkpoint_rates_I ingest.restore_dirty_I ingest.finalization_I ingest.commit_I

lemma ingest_begin:
  "begin_provider_observation origin at_ms r = Some (r', prior) \<Longrightarrow>
     rd_next_ingest_seq r' = rd_next_ingest_seq r"
  by (auto simp: begin_provider_observation_def Let_def split: if_splits observation_origin.splits)

lemma ingest_finish:
  assumes "finish_provider_observation E p operations origin manifest at_ms r = Some (r', batch, receipt)"
    and "seq_from n (rd_next_ingest_seq r)"
  shows "seq_from n (rd_next_ingest_seq r')"
  using assms(1)
proof (cases rule: finish_cases)
  case 1
  then show ?thesis using assms(2) by (simp add: finished_reducer_def)
next
  case (2 b ready r1)
  then have "seq_from n (rd_next_ingest_seq r1)"
    using assms(2) by (auto simp: live_receipt_def finished_reducer_def Let_def
        split: if_splits option.splits provider_observation_prior.splits)
  then show ?thesis using ingest.publish_I [of n r1 E] by (simp add: 2(2))
qed

lemma ingest_cancel:
  "seq_from n (rd_next_ingest_seq r) \<Longrightarrow> seq_from n (rd_next_ingest_seq (cancel_provider_observation E r))"
  by (simp add: cancel_provider_observation_def Let_def ingest.publish_I)

text \<open>Completing a submission keeps the sequence or rolls it back to the checkpoint.\<close>

lemma ingest_complete:
  assumes "seq_from n (rd_next_ingest_seq r)"
  shows "seq_from n (rd_next_ingest_seq (complete_provider_submission E receipt outcome r))
    \<or> (\<exists>pending c. rd_pending_live_provider_submission r = Some pending \<and> pl_checkpoint pending = Some c
        \<and> rd_next_ingest_seq (complete_provider_submission E receipt outcome r) = lc_next_ingest_seq c)"
proof -
  have pub: "seq_from n (rd_next_ingest_seq (publish E r'))" if "seq_from n (rd_next_ingest_seq r')" for r'
    using ingest.publish_I that .
  show ?thesis
    using assms pub
    by (auto simp: complete_provider_submission_def complete_operator_submission_def Let_def
        complete_deferred_operator_submission_def case_prod_beta restore_checkpoint_def
        split: provider_submission_receipt.split option.split)
qed

lemma ingest_operator:
  "seq_from n (rd_next_ingest_seq r) \<Longrightarrow> seq_from n (rd_next_ingest_seq (complete_operator_submission outcome r))"
  by (simp add: complete_operator_submission_def)

lemma step_sequence:
  assumes "reducer_step E (r, p) (r', p')" and "seq_from n (rd_next_ingest_seq r)"
  shows "seq_from n (rd_next_ingest_seq r')
    \<or> (\<exists>pending c. rd_pending_live_provider_submission r = Some pending \<and> pl_checkpoint pending = Some c
        \<and> rd_next_ingest_seq r' = lc_next_ingest_seq c)"
  using assms(1)
  by (cases rule: reducer_stepE)
    (use ingest_complete [OF assms(2)] in \<open>auto intro: ingest_operations [OF assms(2)]
      ingest_cancel [OF assms(2)] ingest_operator [OF assms(2)] ingest_finish [OF _ assms(2)] dest: ingest_begin simp: assms(2)\<close>)

section \<open>What stays hidden\<close>

definition hidden :: "domain_model \<Rightarrow> reducer \<Rightarrow> bool" where
  "hidden seen r \<longleftrightarrow> rd_defer_provider_publication r \<and> rd_published r = seen"

interpretation hidden: operation_invariant "hidden seen" for seen
  by unfold_locales (auto simp: hidden_def with_model_def publish_snapshot_def roll_back_def)

lemmas hidden_operations = hidden.observation_I hidden.heuristic_I hidden.reconcile_I hidden.sweep_I
  hidden.command_I hidden.liveness_I hidden.lane_close_I hidden.telemetry_I hidden.diagnostics_I
  hidden.replayed_I hidden.restored_I hidden.begin_epoch_I hidden.activate_epoch_I hidden.observe_run_I
  hidden.checkpoint_rates_I hidden.restore_dirty_I hidden.finalization_I hidden.commit_I

lemma hidden_begin:
  "hidden seen r \<Longrightarrow> begin_provider_observation origin n r = Some (r', prior) \<Longrightarrow> hidden seen r'"
  by (auto simp: begin_provider_observation_def hidden_def Let_def split: if_splits observation_origin.splits)

lemma hidden_complete: "hidden seen r \<Longrightarrow> hidden seen (complete_provider_submission E receipt outcome r)"
proof -
  assume r: "hidden seen r"
  have upd: "hidden seen (r\<lparr>rd_pending_live_provider_submission := None, rd_operator := o1\<rparr>)"
    "hidden seen (r\<lparr>rd_operator := o1\<rparr>)"
    "hidden seen (r\<lparr>rd_pending_live_provider_submission := None, rd_operator := o1, rd_model := m\<rparr>)" for o1 m
    using r by (simp_all add: hidden_def)
  show ?thesis
    using r upd hidden.publish_I [OF upd(3)]
    by (auto simp: complete_provider_submission_def complete_operator_submission_def Let_def
        complete_deferred_operator_submission_def case_prod_beta hidden_def restore_checkpoint_def
        split: provider_submission_receipt.split option.split)
qed

lemma hidden_operator: "hidden seen r \<Longrightarrow> hidden seen (complete_operator_submission outcome r)"
  by (simp add: complete_operator_submission_def hidden_def)

interpretation deferral: operation_invariant "\<lambda>r. rd_defer_provider_publication r = b" for b
  by unfold_locales (auto simp: with_model_def publish_snapshot_def roll_back_def)

lemma finish_opens:
  assumes "finish_provider_observation E p operations origin manifest n r = Some (r', batch, receipt)"
  shows "\<not> rd_defer_provider_publication r'"
  using assms
proof (cases rule: finish_cases)
  case 1
  then show ?thesis by (simp add: finished_reducer_def)
next
  case (2 b ready r1)
  have "\<not> rd_defer_provider_publication r1"
    using 2(1) by (auto simp: live_receipt_def finished_reducer_def Let_def
        split: if_splits option.splits provider_observation_prior.splits)
  then show ?thesis using deferral.publish_I [of r1 False E] by (simp add: 2(2))
qed

lemma cancel_opens: "\<not> rd_defer_provider_publication (cancel_provider_observation E r)"
  using deferral.publish_I [of _ False E] by (simp add: cancel_provider_observation_def Let_def)

lemma step_hides:
  assumes "reducer_step E (r, p) (r', p')"
    and "rd_defer_provider_publication r" and "rd_defer_provider_publication r'"
  shows "rd_published r' = rd_published r"
proof -
  have r: "hidden (rd_published r) r" using assms(2) by (simp add: hidden_def)
  from assms(1) have "hidden (rd_published r) r' \<or> \<not> rd_defer_provider_publication r'"
    by (cases rule: reducer_stepE)
      (auto simp: cancel_opens intro: r hidden_operations [OF r] hidden_complete [OF r] hidden_operator [OF r]
        dest: finish_opens hidden_begin [OF r])
  with assms(3) show ?thesis by (simp add: hidden_def)
qed

end
