(* ===== verification/Effect_Laws.thy ===== *)
theory Effect_Laws
  imports Reducer_Machine
begin

text \<open>
  What the operations of the reducer do to the rows of its model: publication and the operator
  page leave them alone, a sweep ends the stale executions and the inactive runs, an operator
  command dismisses the runs it names, a commit takes over the validated rows and stamps its
  batch, and a failed operation restores them.
\<close>

section \<open>Rows and measurements\<close>

text \<open>The model without what the telemetry and the rate ledger measure, and without the counters.\<close>

definition rows_of :: "domain_model \<Rightarrow> domain_model" where
  "rows_of m = m\<lparr>dm_run_rate_totals := [], dm_run_rate_cursors := [], dm_telemetry := [],
     dm_controller_diagnostics := controller_diagnostics_default\<rparr>"

lemma rows_of_updates [simp]:
  "rows_of (set_run_rate_cursor i c m) = rows_of m"
  "rows_of (remove_run_rate_cursor i m) = rows_of m"
  "rows_of (clear_run_rate_cursors m) = rows_of m"
  "rows_of (fst (accumulate_run_rate_totals i d m)) = rows_of m"
  "rows_of (telemetry_entry i at f m) = rows_of m"
  "rows_of (with_diagnostics g m) = rows_of m"
  by (simp_all add: rows_of_def set_run_rate_cursor_def remove_run_rate_cursor_def
      clear_run_rate_cursors_def accumulate_run_rate_totals_def telemetry_entry_def Let_def
      with_diagnostics_def case_prod_beta)

abbreviation rows :: "reducer \<Rightarrow> domain_model" where
  "rows r \<equiv> rows_of (rd_model r)"

lemma rows_fold: "(\<And>x r. rows (f x r) = rows r) \<Longrightarrow> rows (fold f xs r) = rows r"
  by (induction xs arbitrary: r) auto

lemma rows_accumulate: "rows (fst (accumulate_telemetry key sample r)) = rows r"
  by (simp add: accumulate_telemetry_def Let_def with_model_def split: option.split)

lemma rows_pending: "rows (apply_pending_telemetry_for_known_runs r) = rows r"
proof -
  obtain ks where "apply_pending_telemetry_for_known_runs r = set_telemetry_queue
      (fold drop_key ks (telemetry_queue_of r)) (accumulate_all (handed_over (rd_pending_telemetry r) ks) r)"
    using pending_handed_over by blast
  moreover have "rows (accumulate_all xs r) = rows r" for xs
    by (rule rows_fold) (auto simp: rows_accumulate)
  ultimately show ?thesis by simp
qed

lemma rows_observe: "rows (observe_run_rates_with_activity obs working r) = rows r"
  by (simp add: observe_run_rates_with_activity_def Let_def with_model_def case_prod_beta split: option.split)

lemma rows_published: "rows (observe_published_run st og n i r) = rows r"
  by (simp add: observe_published_run_def rows_observe with_model_def split: option.split)

lemma rows_publish [simp]: "rows (publish E r) = rows r"
proof -
  have "rows (publish_snapshot s) = rows s" for s by (simp add: publish_snapshot_def)
  moreover have "rows (fold (observe_published_run st og n) ids s) = rows s" for st og n ids s
    by (rule rows_fold) (rule rows_published)
  ultimately show ?thesis
    by (simp add: publish_def Let_def case_prod_beta unix_now_ms_def rows_pending if_distrib [of rows])
qed

lemma note_model [simp]: "rd_model (note_operation op r) = rd_model r"
  by (simp add: note_operation_def Let_def split: option.split persist_op.split)

lemma submission_model [simp]: "rd_model (apply_operator_submission batch r) = rd_model r"
proof -
  have "rd_model (fold note_operation batch r) = rd_model r" by (induction batch arbitrary: r) auto
  then show ?thesis by (simp add: apply_operator_submission_def Let_def)
qed

lemma rows_finish [simp]: "rows (finish_batch E batch r) = rows r"
  by (simp add: finish_batch_def)

lemma rows_recompute [simp]: "rows (recompute_dangling_announcement_components r) = rows r"
  by (simp add: recompute_dangling_announcement_components_def with_model_def)

text \<open>Rows determine what the tables look up.\<close>

lemma rows_lookup:
  assumes "rows_of m = rows_of m'"
  shows "get_task_run m = get_task_run m'" and "get_execution m = get_execution m'"
    and "get_agent_node m = get_agent_node m'" and "get_v6_state m = get_v6_state m'"
    and "dm_execution_edges m = dm_execution_edges m'" and "dm_dependency_edges m = dm_dependency_edges m'"
    and "dm_task_runs m = dm_task_runs m'" and "dm_executions m = dm_executions m'"
proof -
  have f: "dm_task_runs m = dm_task_runs m'" "dm_executions m = dm_executions m'"
    "dm_agent_nodes m = dm_agent_nodes m'" "dm_task_run_v6_state m = dm_task_run_v6_state m'"
    "dm_execution_edges m = dm_execution_edges m'" "dm_dependency_edges m = dm_dependency_edges m'"
    using assms by (auto simp: rows_of_def dest: arg_cong [where f = dm_task_runs] arg_cong [where f = dm_executions]
        arg_cong [where f = dm_agent_nodes] arg_cong [where f = dm_task_run_v6_state]
        arg_cong [where f = dm_execution_edges] arg_cong [where f = dm_dependency_edges])
  then show "get_task_run m = get_task_run m'" and "get_execution m = get_execution m'"
    and "get_agent_node m = get_agent_node m'" and "get_v6_state m = get_v6_state m'"
    and "dm_execution_edges m = dm_execution_edges m'" and "dm_dependency_edges m = dm_dependency_edges m'"
    and "dm_task_runs m = dm_task_runs m'" and "dm_executions m = dm_executions m'"
    by (simp_all add: fun_eq_iff get_task_run_def get_execution_def get_agent_node_def get_v6_state_def)
qed

lemma row_values:
  assumes "hm_ok t" and "\<And>k v. hm_get t k = Some v \<Longrightarrow> key v = k"
  shows "v \<in> set (hm_values t) \<longleftrightarrow> hm_get t (key v) = Some v"
  unfolding hm_values_iff [OF assms(1)] using assms(2) by blast

section \<open>Changing runs one by one\<close>

text \<open>A sequence of updates, each of one run, that do not disturb one another.\<close>

lemma store_lookup [simp]:
  "get_task_run (model_of (store_run t n w)) j = (if j = tr_run_id t then Some t else get_task_run (model_of w) j)"
  by (simp add: store_run_def Let_def on_model_def push_op_def with_model_def run_table.get_insert)

lemma fold_lookup:
  assumes each: "\<And>i w j. P w \<Longrightarrow> get_task_run (model_of (f i w)) j =
      (if j = i then map_option g (get_task_run (model_of w) i) else get_task_run (model_of w) j)"
    and keep: "\<And>i w. P w \<Longrightarrow> P (f i w)" and w: "P w" and once: "distinct ids"
  shows "get_task_run (model_of (fold f ids w)) j =
    (if j \<in> set ids then map_option g (get_task_run (model_of w) j) else get_task_run (model_of w) j)"
  using w once
proof (induction ids arbitrary: w)
  case (Cons i ids)
  then show ?case using each [OF Cons.prems(1)] keep [OF Cons.prems(1)] by auto
qed simp

section \<open>The operator command\<close>

definition dismissed_at :: "i64 \<Rightarrow> task_run \<Rightarrow> task_run" where
  "dismissed_at n t = t\<lparr>tr_dismissed_at_ms := Some n\<rparr>"

lemma dismiss_lookup:
  assumes "runs_keyed (model_of w)"
  shows "get_task_run (model_of (dismiss_run i n w)) j =
     (if j = i then map_option (dismissed_at n) (get_task_run (model_of w) i)
      else get_task_run (model_of w) j)"
  using assms by (auto simp: dismiss_run_def dismissed_at_def runs_keyed_def split: option.split)

lemma keyed_store: "runs_keyed (model_of w) \<Longrightarrow> runs_keyed (model_of (store_run t n w))"
  by (simp add: runs_keyed_def)

lemma keyed_dismiss: "runs_keyed (model_of w) \<Longrightarrow> runs_keyed (model_of (dismiss_run i n w))"
  by (auto simp: dismiss_run_def keyed_store split: option.split)

lemma rows_ids_distinct:
  assumes "model_ok m"
  shows "distinct (map tr_run_id (filter P (task_runs m)))"
proof -
  have k: "(i, t) \<in> set (dm_task_runs m) \<Longrightarrow> tr_run_id t = i" for i t
    using assms by (auto simp: model_ok_alt rows_under_def)
  have "map tr_run_id (filter P (task_runs m)) = map fst (filter (\<lambda>x. P (snd x)) (dm_task_runs m))"
    by (auto simp: filter_map comp_def k intro: map_cong)
  moreover have "distinct (map fst (filter (\<lambda>x. P (snd x)) (dm_task_runs m)))"
    using assms by (simp add: model_ok_alt distinct_map_filter)
  ultimately show ?thesis by simp
qed

lemma ids_of_runs:
  assumes "model_ok m"
  shows "i \<in> set (map tr_run_id (filter P (task_runs m))) \<longleftrightarrow> (\<exists>t. get_task_run m i = Some t \<and> P t)"
proof -
  have "hm_ok (dm_task_runs m)" and k: "\<And>i t. get_task_run m i = Some t \<Longrightarrow> tr_run_id t = i"
    using assms by (auto simp: model_ok_alt rows_under_def get_task_run_def)
  then have v: "t \<in> set (task_runs m) \<longleftrightarrow> get_task_run m (tr_run_id t) = Some t" for t
    unfolding get_task_run_def by (rule row_values)
  have "i \<in> set (map tr_run_id (filter P (task_runs m))) \<longleftrightarrow> (\<exists>t. t \<in> set (task_runs m) \<and> P t \<and> tr_run_id t = i)"
    by auto
  then show ?thesis unfolding v using k by blast
qed

text \<open>The command sets the dismissal time of exactly the runs it clears.\<close>

lemma command_runs:
  assumes "model_ok (rd_model r)"
  shows "get_task_run (rd_model (fst (apply_operator_command E c n r))) i =
    (case get_task_run (rd_model r) i of
       None \<Rightarrow> None
     | Some t \<Rightarrow> Some (if i \<in> set (clearable_runs c n (rd_model r)) then dismissed_at n t else t))"
proof -
  let ?ids = "clearable_runs c n (rd_model r)"
  let ?w = "fold (\<lambda>i. dismiss_run i n) ?ids (r, [])"
  have keyed: "runs_keyed (model_of (r, []))" using assms by (simp add: model_okD)
  have once: "distinct ?ids" unfolding clearable_runs_def by (rule rows_ids_distinct [OF assms])
  note runs = fold_lookup [where P = "\<lambda>w. runs_keyed (model_of w)" and f = "\<lambda>i. dismiss_run i n"
      and w = "(r, [])", OF dismiss_lookup keyed_dismiss keyed once]
  have "rows (fst (apply_operator_command E c n r)) = rows (fst ?w)"
    by (auto simp: apply_operator_command_def Let_def case_prod_beta)
  from rows_lookup(1) [OF this] runs [of i] show ?thesis by (simp split: option.split)
qed

lemma clearable_iff:
  assumes "model_ok m"
  shows "i \<in> set (clearable_runs DismissClearable n m) \<longleftrightarrow>
    (\<exists>t. get_task_run m i = Some t \<and> tr_dismissed_at_ms t = None
      \<and> (task_is_terminal (tr_state t) \<or> is_hook_only_stale_task_run t (runs_with_executions m) n))"
  unfolding clearable_runs_def by (subst ids_of_runs [OF assms]) simp

section \<open>The stale sweep\<close>

definition ended_execution :: "execution \<Rightarrow> execution" where
  "ended_execution e = e\<lparr>ex_state := ExecEnded\<rparr>"

definition grace_over :: "i64 \<Rightarrow> execution \<Rightarrow> bool" where
  "grace_over n e \<longleftrightarrow> (\<exists>since. ex_state e = ExecStale since \<and> stale_grace_ms \<le> i64_saturating_sub n since)"

lemma executions_store [simp]: "get_execution (model_of (store_run t n w)) j = get_execution (model_of w) j"
  by (simp add: store_run_def Let_def on_model_def push_op_def with_model_def get_execution_def)

lemma executions_close [simp]:
  "get_execution (model_of (close_run_without_live_execution i n w)) j = get_execution (model_of w) j"
  by (simp add: close_run_without_live_execution_def split: option.split)

lemma executions_inactive [simp]: "get_execution (model_of (end_inactive_run i n w)) j = get_execution (model_of w) j"
  by (simp add: end_inactive_run_def split: option.split)

definition executions_keyed :: "domain_model \<Rightarrow> bool" where
  "executions_keyed m \<longleftrightarrow> (\<forall>i e. get_execution m i = Some e \<longrightarrow> ex_execution_id e = i)"

lemma end_execution_lookup:
  assumes "executions_keyed (model_of w)"
  shows "get_execution (model_of (end_execution i n w)) j =
    (if j = i then map_option ended_execution (get_execution (model_of w) i) else get_execution (model_of w) j)"
  using assms
  by (auto simp: end_execution_def Let_def ended_execution_def executions_keyed_def on_model_def push_op_def
      with_model_def execution_table.get_insert split: option.split)

lemma ended_keyed:
  "executions_keyed (model_of w) \<Longrightarrow> executions_keyed (model_of (end_execution i n w))"
  by (auto simp: executions_keyed_def end_execution_lookup ended_execution_def split: if_splits)

lemma end_all_lookup:
  assumes "executions_keyed (model_of w)"
  shows "executions_keyed (model_of (fold (\<lambda>i. end_execution i n) ids w))
    \<and> get_execution (model_of (fold (\<lambda>i. end_execution i n) ids w)) j =
      (if j \<in> set ids then map_option ended_execution (get_execution (model_of w) j)
       else get_execution (model_of w) j)"
  using assms
proof (induction ids arbitrary: w)
  case (Cons i ids)
  have twice: "ended_execution (ended_execution e) = ended_execution e" for e by (simp add: ended_execution_def)
  from Cons.IH [OF ended_keyed [OF Cons.prems]] end_execution_lookup [OF Cons.prems] show ?case
    by (auto simp: option.map_comp comp_def twice)
qed simp

lemma executions_inactive_all [simp]:
  "get_execution (model_of (close_inactive_dispatch_only_runs E n w)) j = get_execution (model_of w) j"
  "get_execution (model_of (close_inactive_fact_timed_runs E n w)) j = get_execution (model_of w) j"
proof -
  have a: "get_execution (model_of (fold (\<lambda>i. end_inactive_run i n) ids w)) j = get_execution (model_of w) j" for ids w
    by (induction ids arbitrary: w) auto
  have b: "get_execution (model_of (fold (\<lambda>(i, at). end_inactive_run i at) ids w)) j = get_execution (model_of w) j" for ids w
    by (induction ids arbitrary: w) auto
  show "get_execution (model_of (close_inactive_dispatch_only_runs E n w)) j = get_execution (model_of w) j"
    "get_execution (model_of (close_inactive_fact_timed_runs E n w)) j = get_execution (model_of w) j"
    by (simp_all add: close_inactive_dispatch_only_runs_def close_inactive_fact_timed_runs_def a b)
qed

lemma stale_executions_iff:
  assumes "model_ok m"
  shows "i \<in> set (stale_executions n m) \<longleftrightarrow> (\<exists>e. get_execution m i = Some e \<and> grace_over n e)"
proof -
  have "hm_ok (dm_executions m)" and k: "\<And>i e. get_execution m i = Some e \<Longrightarrow> ex_execution_id e = i"
    using assms by (auto simp: model_ok_alt rows_under_def get_execution_def)
  then have v: "e \<in> set (executions m) \<longleftrightarrow> get_execution m (ex_execution_id e) = Some e" for e
    unfolding get_execution_def by (rule row_values)
  have each: "i \<in> set (stale_executions n m) \<longleftrightarrow>
      (\<exists>e. e \<in> set (executions m) \<and> grace_over n e \<and> ex_execution_id e = i)"
  proof -
    have one: "(case ex_state e of ExecStale since_ms \<Rightarrow>
        if stale_grace_ms \<le> i64_saturating_sub n since_ms then Some (ex_execution_id e) else None
      | _ \<Rightarrow> None) = Some i \<longleftrightarrow> grace_over n e \<and> ex_execution_id e = i" for e
      by (cases "ex_state e") (auto simp: grace_over_def)
    show ?thesis unfolding stale_executions_def filter_map_set mem_Collect_eq one by blast
  qed
  show ?thesis unfolding each v using k by blast
qed

text \<open>A sweep ends exactly the executions whose grace period is over.\<close>

lemma sweep_executions:
  assumes "model_ok (rd_model r)"
  shows "get_execution (rd_model (fst (sweep_stale E n r))) i =
    map_option (\<lambda>e. if grace_over n e then ended_execution e else e) (get_execution (rd_model r) i)"
proof -
  let ?w = "fold (\<lambda>i. end_execution i n) (stale_executions n (rd_model r)) (r, [])"
  let ?w' = "close_inactive_fact_timed_runs E n (close_inactive_dispatch_only_runs E n ?w)"
  have keyed: "executions_keyed (model_of (r, []))"
    using assms by (auto simp: executions_keyed_def model_ok_alt rows_under_def get_execution_def)
  have same: "rows (fst (sweep_stale E n r)) = rows (fst ?w')"
    by (auto simp: sweep_stale_def Let_def case_prod_beta)
  show ?thesis
    unfolding rows_lookup(2) [OF same]
    using end_all_lookup [OF keyed, of n "stale_executions n (rd_model r)" i]
      stale_executions_iff [OF assms, of i n] by (cases "get_execution (rd_model r) i") auto
qed

section \<open>Commits\<close>

text \<open>Every recorded event of a committed batch carries the sequence number of the commit.\<close>

definition recorded :: "persist_batch \<Rightarrow> normalized_event list" where
  "recorded batch = filter_map (\<lambda>op. case op of RecordEvent event _ \<Rightarrow> Some event | _ \<Rightarrow> None) batch"

lemma metadata_map [simp]: "event_metadata (map_event_metadata f e) = f (event_metadata e)"
  by (cases e) simp_all

lemma recorded_simps [simp]:
  "recorded [] = []" "recorded (RecordEvent e n # ops) = e # recorded ops"
  by (simp_all add: recorded_def)

lemma recorded_other: "\<forall>e n. op \<noteq> RecordEvent e n \<Longrightarrow> recorded (op # ops) = recorded ops"
  by (cases op) (simp_all add: recorded_def)

lemma lineage_sequence:
  "map (\<lambda>e. md_ingest_seq (event_metadata e)) (recorded (normalize_lineage mp ops)) =
     map (\<lambda>e. md_ingest_seq (event_metadata e)) (recorded ops)"
  by (induction mp ops rule: normalize_lineage.induct) (auto simp: recorded_other split: option.split)

lemma stamped_sequence:
  "e \<in> set (recorded (map (stamp_ingest_seq q) ops)) \<Longrightarrow> md_ingest_seq (event_metadata e) = Some q"
proof (induction ops)
  case (Cons op ops)
  then show ?case by (cases op) (auto simp: stamp_ingest_seq_def recorded_other)
qed simp

lemma commit_batch_sequence:
  assumes "e \<in> set (recorded (normalize_persist_batch_lineage
      (AdvanceIngestSequence q # map (stamp_ingest_seq n) ops)))"
  shows "md_ingest_seq (event_metadata e) = Some n"
proof -
  let ?seq = "\<lambda>e. md_ingest_seq (event_metadata e)"
  have "?seq ` set (recorded (normalize_lineage [] (map (stamp_ingest_seq n) ops)))
      = ?seq ` set (recorded (map (stamp_ingest_seq n) ops))"
    using lineage_sequence [of "[]" "map (stamp_ingest_seq n) ops"] by (metis list.set_map)
  moreover have "e \<in> set (recorded (normalize_lineage [] (map (stamp_ingest_seq n) ops)))"
    using assms by (simp add: normalize_persist_batch_lineage_def recorded_other)
  ultimately show ?thesis using stamped_sequence by (metis (no_types, lifting) image_iff)
qed

lemma commit_taken:
  assumes "rd_next_ingest_seq r = Some q" and "0 < q"
  shows "\<exists>r' batch. commit_staged_unqueued E d r = (r', Inr (AdvanceIngestSequence q # batch))
    \<and> rows r' = rows_of (dl_post_model d)
    \<and> (\<forall>e \<in> set (recorded batch). md_ingest_seq (event_metadata e) = Some (nat q))"
proof -
  have head: "normalize_persist_batch_lineage (AdvanceIngestSequence q # ops)
      = AdvanceIngestSequence q # normalize_lineage [] ops" for ops
    by (simp add: normalize_persist_batch_lineage_def)
  have seq: "\<forall>e \<in> set (recorded (normalize_lineage [] (map (stamp_ingest_seq (nat q)) ops))).
      md_ingest_seq (event_metadata e) = Some (nat q)" for ops
    using commit_batch_sequence [of _ q "nat q" ops] by (simp add: head recorded_other)
  show ?thesis
    using assms seq
    by (simp add: commit_staged_unqueued_def opt_filter_def u64_try_from_def Let_def head
        apply_controller_diagnostic_deltas_def with_model_def)
qed

lemma commit_exhausted:
  assumes "rd_next_ingest_seq r = None \<or> (\<exists>q. rd_next_ingest_seq r = Some q \<and> q \<le> 0)"
  shows "\<exists>r'. commit_staged_unqueued E d r = (r', Inl IngestSequenceExhausted) \<and> rows r' = rows r"
  using assms by (auto simp: commit_staged_unqueued_def opt_filter_def with_model_def)

section \<open>Failed observations\<close>

text \<open>
  A failed observation leaves the reducer as it was, but for what it drew and, if a changed agent
  status of a pane came with it, the runs of the pane that it noted for the rates.
\<close>

lemma failed_observation:
  assumes "apply_observation_inner E events observation r = (r', Inr (DroppedBindingConflict conflict))
    \<or> apply_observation_inner E events observation r = (r', Inl OrdinalExhausted)"
  shows "r' = r\<lparr>rd_minted := rd_minted r', rd_ticks := rd_ticks r',
    rd_pending_rate_observation_runs := rd_pending_rate_observation_runs (observe_first observation r)\<rparr>"
proof -
  obtain r1 batch result where e: "apply_events E events (observe_first observation r, []) = ((r1, batch), result)"
    by (metis surj_pair)
  have "r' = roll_back r r1"
    using assms e
    by (auto simp: apply_observation_inner_def conclude_observation_def Let_def
        split: if_splits sum.splits reducer_error.splits)
  moreover have "roll_back r (observe_first observation r)
      = r\<lparr>rd_pending_rate_observation_runs := rd_pending_rate_observation_runs (observe_first observation r)\<rparr>"
    by (simp add: roll_back_def observe_first_def observe_pane_agent_def with_model_def Let_def split: option.split)
  ultimately show ?thesis using roll_back_events [OF e, of r] by (cases r) (simp add: roll_back_def)
qed

end
