(* ===== verification/Reader_Laws.thy ===== *)
theory Reader_Laws
  imports Effect_Laws
begin

text \<open>
  What the readers of the published model can see: never a run whose history is still being
  read, except as it was captured before; nothing of a live observation before the writer has
  acknowledged it; and nothing of it at all when the writer rejects it.
\<close>

section \<open>The published snapshot\<close>

lemma removed_runs:
  "get_task_run (fold remove_task_run_projection ids m) i = (if i \<in> set ids then None else get_task_run m i)"
  by (induction ids arbitrary: m) (auto simp: remove_task_run_projection_def get_task_run_def)

lemma removed_publications:
  "dm_history_run_publications (fold remove_task_run_projection ids m) = dm_history_run_publications m"
  by (induction ids arbitrary: m) (auto simp: remove_task_run_projection_def)

lemma alias_fold_runs [simp]:
  "dm_task_runs (fold (\<lambda>alias. insert_task_run_alias alias r) ks m) = dm_task_runs m"
  by (induction ks arbitrary: m) (auto simp: insert_task_run_alias_def)

lemma rows_fold_runs [simp]:
  "dm_task_runs (fold insert_execution es m) = dm_task_runs m"
  "dm_task_runs (fold insert_agent_node ns m) = dm_task_runs m"
  by (induction es arbitrary: m, auto simp: insert_execution_def)
    (induction ns arbitrary: m, auto simp: insert_agent_node_def)

lemma totals_runs [simp]: "dm_task_runs (set_run_rate_totals i t m) = dm_task_runs m"
  by (simp add: set_run_rate_totals_def with_diagnostics_def split: prod.split)

lemma restored_run:
  "get_task_run (restore_history_publication p m) i =
     (if i = tr_run_id (hp_task_run p) then Some (hp_task_run p) else get_task_run m i)"
proof -
  have "dm_task_runs (restore_history_publication p m) = dm_task_runs (insert_task_run (hp_task_run p) m)"
    by (simp add: restore_history_publication_def Let_def set_v6_state_def
        set_run_rate_cursor_def split: option.split)
  then show ?thesis using run_table.get_insert [of "hp_task_run p" m i] by (simp add: get_task_run_def)
qed

lemma restored_runs:
  "get_task_run (fold restore_history_publication ps m) i = Some t \<Longrightarrow>
     get_task_run m i = Some t \<or> (\<exists>p \<in> set ps. hp_task_run p = t \<and> tr_run_id t = i)"
proof (induction ps arbitrary: m)
  case (Cons p ps)
  then have "get_task_run (fold restore_history_publication ps (restore_history_publication p m)) i = Some t"
    by simp
  from Cons.IH [OF this] show ?case by (auto simp: restored_run split: if_splits)
qed simp

lemma snapshot_runs:
  assumes "get_task_run (publication_snapshot m) i = Some t"
  shows "i \<notin> set (history_blocked m) \<and> get_task_run m i = Some t
    \<or> (\<exists>p \<in> set (hm_values (dm_history_run_publications m)).
        hp_canonical_run_id p \<in> set (history_blocked m) \<and> hp_task_run p = t \<and> tr_run_id t = i)"
proof (cases "history_blocked m = []")
  case True
  then show ?thesis using assms by (simp add: publication_snapshot_def get_task_run_def)
next
  case False
  let ?ps = "filter (\<lambda>p. hp_canonical_run_id p \<in> set (history_blocked m))
    (hm_values (dm_history_run_publications m))"
  have "get_task_run (fold restore_history_publication ?ps
      (fold remove_task_run_projection (history_blocked m) m)) i = Some t"
    using assms False by (simp add: publication_snapshot_def Let_def removed_publications get_task_run_def
        with_diagnostics_def)
  from restored_runs [OF this] show ?thesis by (auto simp: removed_runs split: if_splits)
qed

section \<open>Waiting for the acknowledgement\<close>

definition awaiting :: "reducer \<Rightarrow> bool" where
  "awaiting r \<longleftrightarrow> opt_is_some_and (\<lambda>p. pl_checkpoint p \<noteq> None) (rd_pending_live_provider_submission r)"

definition held_back :: "domain_model \<Rightarrow> reducer \<Rightarrow> bool" where
  "held_back seen r \<longleftrightarrow> awaiting r \<and> rd_published r = seen"

interpretation held: operation_invariant "held_back seen" for seen
  by unfold_locales
    (auto simp: held_back_def awaiting_def with_model_def publish_snapshot_def roll_back_def)

lemmas held_operations = held.observation_I held.heuristic_I held.reconcile_I held.sweep_I
  held.command_I held.liveness_I held.lane_close_I held.telemetry_I held.diagnostics_I
  held.replayed_I held.restored_I held.begin_epoch_I held.activate_epoch_I held.observe_run_I
  held.checkpoint_rates_I held.restore_dirty_I held.finalization_I held.commit_I

lemma held_begin: "held_back seen r \<Longrightarrow> begin_provider_observation origin n r \<noteq> Some (r', prior)"
  by (auto simp: begin_provider_observation_def held_back_def awaiting_def opt_is_some_and_def split: option.splits)

lemma held_finish:
  assumes "held_back seen r"
    and "finish_provider_observation E p operations origin manifest n r = Some (r', batch, receipt)"
  shows "held_back seen r'"
  using assms(2)
proof (cases rule: finish_cases)
  case 1
  then show ?thesis using assms(1) by (simp add: finished_reducer_def held_back_def awaiting_def)
next
  case (2 b ready r1)
  have "held_back seen r1"
    using 2(1) assms(1) by (auto simp: live_receipt_def finished_reducer_def held_back_def awaiting_def Let_def
        split: if_splits option.splits provider_observation_prior.splits)
  then show ?thesis using held.publish_I [of seen r1 E] by (simp add: 2(2))
qed

lemma held_cancel: "held_back seen r \<Longrightarrow> held_back seen (cancel_provider_observation E r)"
proof -
  assume "held_back seen r"
  then have "held_back seen (r\<lparr>rd_defer_provider_publication := False, rd_defer_provider_model_publication := False,
     rd_provider_model_publication_pending := False, rd_deferred_provider_drain := None,
     rd_provider_observation_private_run_ids := [], rd_rate_observation_context := None\<rparr>)"
    by (simp add: held_back_def awaiting_def)
  then show ?thesis by (simp add: cancel_provider_observation_def Let_def held.publish_I)
qed

interpretation pending: operation_invariant "\<lambda>r. rd_pending_live_provider_submission r = x" for x
  by unfold_locales (auto simp: with_model_def publish_snapshot_def roll_back_def)

lemma publish_pending [simp]:
  "rd_pending_live_provider_submission (publish E r) = rd_pending_live_provider_submission r"
  by (rule pending.publish_I) simp

lemma held_complete:
  assumes "held_back seen r" and "awaiting (complete_provider_submission E receipt outcome r)"
  shows "held_back seen (complete_provider_submission E receipt outcome r)"
  using assms
  by (auto simp: complete_provider_submission_def complete_operator_submission_def Let_def
      complete_deferred_operator_submission_def case_prod_beta held_back_def awaiting_def restore_checkpoint_def
      split: provider_submission_receipt.splits option.splits if_splits)

lemma held_operator: "held_back seen r \<Longrightarrow> held_back seen (complete_operator_submission outcome r)"
  by (simp add: complete_operator_submission_def held_back_def awaiting_def)

lemma step_held:
  assumes "reducer_step E (r, p) (r', p')" and "awaiting r" and "awaiting r'"
  shows "rd_published r' = rd_published r"
proof -
  have r: "held_back (rd_published r) r" using assms(2) by (simp add: held_back_def)
  from assms(1) have "held_back (rd_published r) r'"
    using assms(3)
    by (cases rule: reducer_stepE)
      (auto intro: r held_operations [OF r] held_complete [OF r] held_operator [OF r] held_cancel [OF r] held_finish [OF r]
        simp: held_begin [OF r])
  then show ?thesis by (simp add: held_back_def)
qed

section \<open>Rejected observations\<close>

text \<open>
  A live observation keeps a checkpoint exactly when it touches a run whose history was not ready
  when it began. When the writer does not commit it, the reducer's ten rolled-back fields go back
  to that checkpoint, whatever happened in between; without a checkpoint they stay.
\<close>

definition ready_runs :: "provider_observation_prior option \<Rightarrow> persist_batch \<Rightarrow> reducer \<Rightarrow> run_id list" where
  "ready_runs prior operations r =
     dedup (sort (filter (\<lambda>run_id. run_id \<in> set (map (\<lambda>run_id. canonical_run_after_batch run_id operations)
         (rd_provider_observation_private_run_ids r)))
       (finished_runs (rd_model r) operations (observation_touched prior operations (rd_model r)))))"

definition touches_unready :: "provider_observation_prior option \<Rightarrow> persist_batch \<Rightarrow> reducer \<Rightarrow> bool" where
  "touches_unready prior operations r \<longleftrightarrow>
     (\<exists>i \<in> set (rd_provider_observation_private_run_ids r). canonical_run_after_batch i operations
        \<in> set (finished_runs (rd_model r) operations (observation_touched prior operations (rd_model r))))"

lemma ready_runs_iff: "ready_runs prior operations r \<noteq> [] \<longleftrightarrow> touches_unready prior operations r"
proof -
  have "set (ready_runs prior operations r) \<noteq> {} \<longleftrightarrow> touches_unready prior operations r"
    by (auto simp: ready_runs_def touches_unready_def)
  then show ?thesis by simp
qed

lemma finish_live:
  assumes "finish_provider_observation E prior operations Live manifest n r = Some (r', batch, receipt)"
    and "\<And>before. prior \<noteq> Some (PriorHistorical before)"
  obtains b r1 where "live_receipt prior b (ready_runs prior operations r)
      (finished_reducer prior operations False n r) = Some (r1, receipt)"
    and "r' = (if ready_runs prior operations r = [] then publish E r1 else r1)"
proof -
  have same: "(case prior of Some (PriorHistorical before) \<Rightarrow> f before | _ \<Rightarrow> x) = x" for f and x :: 'b
    using assms(2) by (auto split: option.split provider_observation_prior.split)
  from assms(1) show thesis
    unfolding finish_provider_observation_def Let_def case_prod_beta same fst_conv snd_conv
      finished_reducer_def finished_model_def ready_runs_def
    using that
    by (auto simp: finished_reducer_def finished_model_def ready_runs_def Let_def same
        split: option.splits prod.splits)
qed

lemma live_undone:
  assumes b: "begin_provider_observation Live n r = Some (r1, prior)"
    and f: "finish_provider_observation E prior operations Live manifest m r2 = Some (r3, batch, ReceiptLive (Some i))"
    and nc: "\<not> committed outcome"
  shows "awaiting r3 = touches_unready prior operations r2"
    and "capture_checkpoint (complete_provider_submission E (ReceiptLive (Some i)) outcome r3)
      = capture_checkpoint (if touches_unready prior operations r2 then r else r3)"
proof -
  have prior: "prior = None \<or> prior = Some (PriorLive (capture_checkpoint r))"
    using b by (auto simp: begin_provider_observation_def capture_checkpoint_def Let_def split: if_splits)
  obtain b' r4 where
    lr: "live_receipt prior b' (ready_runs prior operations r2) (finished_reducer prior operations False m r2)
        = Some (r4, ReceiptLive (Some i))"
    and r3: "r3 = (if ready_runs prior operations r2 = [] then publish E r4 else r4)"
    by (rule finish_live [OF f]) (use prior in auto)
  have pending: "rd_pending_live_provider_submission r3 = Some \<lparr>pl_submission_id = i,
      pl_checkpoint = (if touches_unready prior operations r2 then Some (capture_checkpoint r) else None),
      pl_ready_run_ids = ready_runs prior operations r2\<rparr>"
    using lr prior unfolding r3 ready_runs_iff [symmetric]
    by (auto simp: live_receipt_def Let_def split: if_splits)
  then show "awaiting r3 = touches_unready prior operations r2" by (simp add: awaiting_def)
  show "capture_checkpoint (complete_provider_submission E (ReceiptLive (Some i)) outcome r3)
      = capture_checkpoint (if touches_unready prior operations r2 then r else r3)"
    using nc pending
    by (simp add: complete_provider_submission_def complete_operator_submission_def Let_def
        restore_checkpoint_def capture_checkpoint_def)
qed

end
