(* ===== verification/Reducer_Samples.thy ===== *)
theory Reducer_Samples
  imports Samples Reader_Laws
begin

text \<open>
  A concrete environment, reducers restored from the models of \<open>Samples\<close>, and events to drive
  them with.
\<close>

text \<open>Evaluation of the page limit through binary integers.\<close>

lemma normalize_activity_code [code]:
  "normalize_activity xs = (let ys = retain_new [] (sort_activity xs)
     in if int (length ys) \<le> 10000 then ys else take activity_limit ys)"
  by (simp add: normalize_activity_def activity_limit_def Let_def)

definition sample_env :: env where
  "sample_env = \<lparr>en_clock = (\<lambda>_. 1000), en_fresh = (\<lambda>i. sample_run (100 + i)),
     en_run_text = (\<lambda>_. ''01J''), en_timing = display_timing_default\<rparr>"

definition sample_reducer :: reducer where
  "sample_reducer = reducer_new sample_model 10 (Some 1) [] []"

definition sample_metadata :: event_metadata where
  "sample_metadata = \<lparr>md_event_id = ''event'', md_timestamp_ms = 500, md_receipt_time_ms = 600,
     md_source = ''hook'', md_source_event_type = [], md_herdr_session = ''main'',
     md_workspace_id = None, md_tab_id = None, md_pane_id = None, md_terminal_id = None,
     md_provider = None, md_native_session_id = None, md_task_run_id = None,
     md_agent_node_id = None, md_task_state = None, md_execution_parent = None,
     md_dependency = None, md_source_coverage = [], md_provider_metadata = None, md_label = None,
     md_reason = None, md_progress = None, md_ingest_seq = None\<rparr>"

text \<open>A Controller announces that \<open>child\<close> was dispatched by a task not yet known.\<close>

definition sample_dispatch :: controller_event where
  "sample_dispatch = \<lparr>ce_schema_version = 1, ce_task_run_id = ''worker'', ce_metadata = sample_metadata,
     ce_event = CtlDispatch ''task''\<rparr>"

lemma inr_when: "\<not> isl x \<Longrightarrow> \<exists>y. x = Inr y"
  by (cases x) simp_all

text \<open>The dispatched run is created; it is queued and no Controller has spoken of its state.\<close>

lemma dispatch_announces:
  "case validate_controller_event sample_env sample_dispatch sample_reducer of
     Inl _ \<Rightarrow> False
   | Inr delta \<Rightarrow> list_ex (\<lambda>t. tr_state t = Queued \<and> \<not> tr_has_controller_task_state_event t
       \<and> tr_key t = Controller ''worker'') (task_runs (dl_post_model delta))"
  by code_simp

lemma sample_dispatch_accepted:
  "\<exists>delta. validate_controller_event sample_env sample_dispatch sample_reducer = Inr delta"
  using dispatch_announces by (auto split: sum.splits)

lemma reducer_new_model:
  "rd_model (reducer_new m ordinal seq activity ended) = (with_diagnostics
     (set_dangling_announcement_components (dangling_announcement_components m)) m)\<lparr>dm_deferred_history_activity := []\<rparr>"
  by (simp add: reducer_new_def take_deferred_history_activity_def Let_def)

lemma sample_graphs: "graphs_ok (rd_model sample_reducer)"
proof -
  have "dm_execution_edges sample_model = [sample_edge]" "dm_dependency_edges sample_model = []" by code_simp+
  then have e: "dm_execution_edges (rd_model sample_reducer) = [sample_edge]"
    "dm_dependency_edges (rd_model sample_reducer) = []"
    by (simp_all add: sample_reducer_def reducer_new_model with_diagnostics_def)
  have "\<not> graph_has_cycle (execution_pairs [sample_edge])" by code_simp
  then show ?thesis
    by (simp add: graphs_ok_def e dispatch_graph_ok_def dependency_graph_ok_def graph_has_cycle_acyclic
        acyclic_def)
qed

lemma sample_model_ok: "model_ok sample_model"
proof -
  have "dm_agent_nodes sample_model = []" by code_simp
  then show ?thesis
    using sample_tables(1) sample_rows by (simp add: model_ok_def parents_ok_def node_parents_def acyclic_def)
qed

lemma sample_reachable: "reachable sample_env (sample_reducer, None)"
  unfolding sample_reducer_def by (rule reach_new [OF sample_model_ok])

text \<open>The model while the history of the native run is read, and the same run with an agent.\<close>

lemma unready_model_ok: "model_ok unready_model"
  using ok_rows(3) [OF sample_model_ok] by (simp add: unready_model_def)

definition unready_reducer :: reducer where
  "unready_reducer = reducer_new unready_model 10 (Some 1) [] []"

lemma unready_reachable: "reachable sample_env (unready_reducer, None)"
  unfolding unready_reducer_def by (rule reach_new [OF unready_model_ok])

definition sample_execution :: execution where
  "sample_execution = \<lparr>ex_execution_id = ''exec'', ex_pane_id = ''pane'', ex_terminal_id = ''term'',
     ex_task_run_id = sample_run 2, ex_state = ExecStale 100\<rparr>"

definition sample_sample :: pending_telemetry where
  "sample_sample = \<lparr>pq_at_ms = 5, pq_output_tokens = 7, pq_token_breakdown = token_breakdown_default,
     pq_attribution = \<lparr>ta_model = None, ta_effort = None, ta_sandbox = None\<rparr>\<rparr>"

lemma some_and_iff: "opt_is_some_and P x \<longleftrightarrow> (\<exists>y. x = Some y \<and> P y)"
  by (cases x) (simp_all add: opt_is_some_and_def)

text \<open>A live observation that reads on the history of the native run.\<close>

definition sample_operations :: persist_batch where
  "sample_operations = [persist_task_run unready_model native_run 5]"

lemma sample_live_observation:
  obtains r1 prior r3 batch where "begin_provider_observation Live 5 unready_reducer = Some (r1, prior)"
    and "finish_provider_observation sample_env prior sample_operations Live None 5 r1
        = Some (r3, batch, ReceiptLive (Some 0))" and "awaiting r3"
proof -
  have "opt_is_some_and (\<lambda>(r1, prior). opt_is_some_and (\<lambda>(r3, batch, receipt).
      receipt = ReceiptLive (Some 0) \<and> awaiting r3)
      (finish_provider_observation sample_env prior sample_operations Live None 5 r1))
      (begin_provider_observation Live 5 unready_reducer)"
    by code_simp
  then show ?thesis using that by (auto simp: some_and_iff)
qed

text \<open>A reducer whose ordinals are used up, and an event that needs one.\<close>

definition full_reducer :: reducer where
  "full_reducer = reducer_new domain_model_default i64_max (Some 1) [] []"

definition unknown_event :: normalized_event where
  "unknown_event = ControllerEvent (sample_metadata\<lparr>md_task_run_id := Some (sample_run 50),
     md_task_state := Some Running\<rparr>) CtlTaskStarted"

text \<open>A reducer with an execution that went stale.\<close>

definition stale_reducer :: reducer where
  "stale_reducer = reducer_new (insert_execution sample_execution sample_model) 10 (Some 1) [] []"

lemma stale_reachable: "reachable sample_env (stale_reducer, None)"
  unfolding stale_reducer_def by (rule reach_new [OF ok_rows(1) [OF sample_model_ok]])

definition sample_item :: "i64 \<Rightarrow> activity_item" where
  "sample_item n = \<lparr>ai_event_id = int_text n, ai_event_timestamp_ms = n, ai_seen_at_ms = n, ai_ingest_seq = None,
     ai_source = ''hook'', ai_normalized_kind = [], ai_source_event_type = [], ai_workspace_id = None,
     ai_tab_id = None, ai_pane_id = None, ai_terminal_id = None, ai_provider = None,
     ai_native_session_id = None, ai_task_run_id = None, ai_agent_node_id = None, ai_task_state = None,
     ai_model_id = None, ai_provider_event_kind = None, ai_tool_name = None, ai_item_count = None,
     ai_byte_count = None, ai_provider_agent_id = None, ai_provider_parent_agent_id = None,
     ai_controller_label = None, ai_controller_reason = None, ai_durability = Durable\<rparr>"

text \<open>A run that a Controller announced long ago and that nothing has been heard of since.\<close>

definition announced_run :: task_run where
  "announced_run = touch_task_run 0
     (new_task_run (sample_run 7) (Controller ''worker'') (DisplayOrdinal 1) Queued False)"

definition announced_reducer :: reducer where
  "announced_reducer = reducer_new (insert_task_run announced_run domain_model_default) 2 (Some 1) [] []"

lemma default_model_ok: "model_ok domain_model_default"
  by (simp add: model_ok_alt domain_model_default_def rows_under_def nodes_ok_def parents_ok_def
      node_parents_def acyclic_def)

lemma announced_reachable: "reachable sample_env (announced_reducer, None)"
  unfolding announced_reducer_def by (rule reach_new [OF ok_insert_run [OF default_model_ok]])

end
