(* ===== verification/Store_Samples.thy ===== *)
theory Store_Samples
  imports Schema_Steps Replay_Laws Contraction_Laws Reducer_Samples
begin

text \<open>
  A concrete environment of the store and a small database filled by one batch, on which the
  properties of the store are instantiated: the three runs of the sample model with their dispatch
  edge, a fourth that has ended, a history drain that is still open, and one recorded event.
\<close>

definition sample_codecs :: store_env where
  "sample_codecs = \<lparr>se_run_text = (\<lambda>r. nat_text (unat (ulid r))),
     se_parse_run = (\<lambda>text. Some (RunId (word_of_nat (nat_value text)))),
     se_publication_json = (\<lambda>_. None), se_parse_publication = (\<lambda>_. None),
     se_coverage_json = (\<lambda>_. Some ''[]'')\<rparr>"

lemma sample_codecs_ok: "env_ok sample_codecs"
  by (simp add: env_ok_def sample_codecs_def nat_value_text)

definition sample_persist :: "task_run \<Rightarrow> native_session_binding option \<Rightarrow> persist_task_run" where
  "sample_persist t binding = \<lparr>pt_task_run = t, pt_native_session = binding, pt_created_at_ms = 1,
     pt_updated_at_ms = 2, pt_finished_at_ms = None\<rparr>"

definition ended_run :: task_run where
  "ended_run = new_task_run (sample_run 4) (Controller ''ended'') (DisplayOrdinal 4) Completed True"

definition sample_manifest :: persist_history_drain where
  "sample_manifest = \<lparr>pd_drain_id = HistoryDrainId ''drain'', pd_provider = Codex, pd_created_at_ms = 5,
     pd_artifacts = [\<lparr>pa_artifact_id = ''log'', pa_generation = ''g1'', pa_goalpost = 7\<rparr>]\<rparr>"

definition sample_event :: normalized_event where
  "sample_event = ControllerEvent (sample_metadata\<lparr>md_ingest_seq := Some 1\<rparr>) (CtlDispatch ''task'')"

definition sample_later :: "persist_op list" where
  "sample_later = [UpsertExecutionEdge sample_edge 3, RecordEvent sample_event 600]"

definition sample_batch :: persist_v6_batch where
  "sample_batch = persist_v6_batch_default\<lparr>
     vb_operations := AdvanceIngestSequence 1 # sample_later,
     vb_task_runs := map (\<lambda>(t, state). \<lparr>p6_task_run = sample_persist t None, p6_state = state\<rparr>)
       [(controller_run, v6_default), (native_run, unready_state), (child_run, v6_default),
        (ended_run, v6_default)],
     vb_history_drains := [sample_manifest],
     vb_history_associations := [\<lparr>pr_drain_id = HistoryDrainId ''drain'', pr_run_id = sample_run 2\<rparr>]\<rparr>"

text \<open>The rows this batch leaves behind.\<close>

definition controller_columns :: "string \<Rightarrow> encoded_run_key" where
  "controller_columns i = \<lparr>ek_kind = ''controller'', ek_controller_id = Some i, ek_provider = None,
     ek_native_sid = None, ek_native_path = None, ek_terminal_id = None, ek_start_ms = None, ek_seq = None\<rparr>"

definition native_columns :: encoded_run_key where
  "native_columns = \<lparr>ek_kind = ''native'', ek_controller_id = None, ek_provider = Some ''codex'',
     ek_native_sid = Some ''session'', ek_native_path = None, ek_terminal_id = None, ek_start_ms = None,
     ek_seq = None\<rparr>"

definition stored_row :: "encoded_run_key \<Rightarrow> i64 \<Rightarrow> string \<Rightarrow> i64 \<Rightarrow> i64 option \<Rightarrow> i64 \<Rightarrow> task_run_row" where
  "stored_row key ordinal state evidence finished ready = \<lparr>rr_key = key, rr_display_ordinal = ordinal,
     rr_task_state = state, rr_has_controller_event = evidence, rr_native_provider = None,
     rr_native_session_id = None, rr_merged_into = None, rr_created_at_ms = 1, rr_updated_at_ms = 2,
     rr_finished_at_ms = finished, rr_subject = None, rr_dismissed_at_ms = None,
     rr_lifecycle = lifecycle_default\<lparr>lf_history_ready := ready\<rparr>\<rparr>"

definition stored_event :: event_projection where
  "stored_event = \<lparr>ep_event_id = ''event'', ep_seen_at_ms = 600, ep_event_timestamp_ms = 500,
     ep_herdr_session = ''main'', ep_source = ''hook'', ep_normalized_kind = ''controller_event'',
     ep_source_event_type = [], ep_workspace_id = None, ep_tab_id = None, ep_pane_id = None,
     ep_terminal_id = None, ep_provider = None, ep_native_session_id = None, ep_task_run_id = None,
     ep_agent_node_id = None, ep_task_state = None, ep_model_id = None, ep_provider_event_kind = None,
     ep_tool_name = None, ep_item_count = None, ep_byte_count = None, ep_gap_kind = None,
     ep_ingest_seq = Some 1, ep_provider_agent_id = None, ep_provider_parent_agent_id = None,
     ep_source_coverage = None, ep_history_drain_id = None\<rparr>"

definition sample_store :: database where
  "sample_store = empty_database\<lparr>
     db_herdr_sessions := [(''main'', 600)],
     db_task_runs :=
       [(''1'', stored_row (controller_columns ''task'') 1 ''running'' 1 None 1),
        (''2'', stored_row native_columns 2 ''running'' 0 None 0),
        (''3'', stored_row (controller_columns ''child'') 3 ''queued'' 0 None 1),
        (''4'', stored_row (controller_columns ''ended'') 4 ''completed'' 1 (Some 2) 1)],
     db_execution_edges := [((''2'', ''3''), 3)],
     db_events := [stored_event],
     db_event_ledger := [(''event'', 600)],
     db_display_ordinals := [((''task_run'', ''1''), 1), ((''task_run'', ''2''), 2),
       ((''task_run'', ''3''), 3), ((''task_run'', ''4''), 4)],
     db_ingest_high_water := 1,
     db_history_drains := [(''drain'', \<lparr>dr_provider = ''codex'', dr_created_at_ms = 5,
       dr_finalized_at_ms = None, dr_completed_by_drain_id = None\<rparr>)],
     db_drain_artifacts := [((''drain'', ''log''), ''g1'', 7)],
     db_drain_runs := [(''drain'', ''2'')]\<rparr>"

lemma sample_store_accepted: "apply_v6_batch sample_codecs sample_batch empty_database = (sample_store, Inr ())"
  by code_simp

lemma sample_store_reachable: "store_reachable sample_codecs sample_store"
  using store_reachable.versioned [OF store_reachable.fresh, of sample_codecs sample_batch]
  by (simp add: sample_store_accepted)

end
