(* ===== verification/Store_Properties.thy ===== *)
theory Store_Properties
  imports Store_Samples
begin

text \<open>
  The properties of the store: what its database looks like after any sequence of its operations,
  what a merge, a finalization, a retention pass and a repeated batch do to it, and that what was
  written is read back.
\<close>

section \<open>Reading back\<close>

lemma lifecycle_reads_back: "decode_lifecycle (encode_lifecycle s) = Inr s"
  by (cases s; cases "v6_native_session_end s"; cases "v6_lifecycle_watermark s")
    (auto simp: decode_lifecycle_def encode_lifecycle_def decode_session_end_def decode_watermark_def
      decode_history_ready_def i64_from_bool_def)

definition restored_run :: "persist_task_run_v6 \<Rightarrow> stored_task_run" where
  "restored_run p =
     (let persisted = p6_task_run p
      in \<lparr>sr_task_run = (pt_task_run persisted)\<lparr>tr_created_at_ms := Some (pt_created_at_ms persisted),
            tr_updated_at_ms := Some (pt_updated_at_ms persisted), tr_finished_at_ms := persisted_finish persisted\<rparr>,
          sr_v6_state = p6_state p, sr_merged_into = None,
          sr_native_binding = map_option (\<lambda>b. (nb_provider b, nb_native_session_id b)) (pt_native_session persisted)\<rparr>)"

lemma upserted_row_reads_back:
  assumes env: "env_ok env" and key: "run_key_in_range (tr_key (pt_task_run (p6_task_run p)))"
  shows "decode_stored_run env (se_run_text env (tr_run_id (pt_task_run (p6_task_run p))),
      (upserted_task_run_row (p6_task_run p) None)\<lparr>rr_lifecycle := encode_lifecycle (p6_state p)\<rparr>)
    = Inr (restored_run p)"
  using key_codec.reads_back [OF key]
  by (auto simp: decode_stored_run_def upserted_task_run_row_def Let_def env lifecycle_reads_back
      decode_binding_def restored_run_def i64_from_bool_def split: option.split)

lemma first_upsert:
  assumes "upsert_task_run_v6 env p db = Inr db'"
    and new: "run_row db (se_run_text env (tr_run_id (pt_task_run (p6_task_run p)))) = None"
  shows "run_row db' (se_run_text env (tr_run_id (pt_task_run (p6_task_run p)))) =
    Some ((upserted_task_run_row (p6_task_run p) None)\<lparr>rr_lifecycle := encode_lifecycle (p6_state p)\<rparr>)"
proof -
  let ?i = "se_run_text env (tr_run_id (pt_task_run (p6_task_run p)))"
  let ?db = "case pt_native_session (p6_task_run p) of None \<Rightarrow> db
      | Some b \<Rightarrow> insert_native_session (provider_text (nb_provider b)) (nb_native_session_id b) db"
  obtain db1 where up: "upsert_task_run env (p6_task_run p) db = Inr db1"
    and db': "db' = update_run ?i (\<lambda>row. row\<lparr>rr_lifecycle := encode_lifecycle (p6_state p)\<rparr>) db1"
    using assms by (auto simp: upsert_task_run_v6_def Let_def results split: if_splits)
  obtain db2 where ord: "upsert_display_ordinal ''task_run'' ?i (tr_display_ordinal (pt_task_run (p6_task_run p))) ?db = Inr db2"
    and w: "write_task_run ?i (upserted_task_run_row (p6_task_run p) (run_row db2 ?i)) db2 = Inr db1"
    using up new by (auto simp: upsert_task_run_def Let_def results)
  have rows: "run_row ?db = run_row db" by (simp add: insert_native_session_def split: option.split)
  have "run_row db2 ?i = None" by (rule ordinal_shape [OF ord]) (simp add: rows new)
  then show ?thesis using w by (simp add: db' update_run_row write_Inr(1))
qed

text \<open>C16. A task run that is written for the first time is restored at the next start exactly as
  it was written: its key, state, times, binding and lifecycle.\<close>

theorem written_run_restored:
  assumes "env_ok env" and "run_key_in_range (tr_key (pt_task_run (p6_task_run p)))"
    and "run_row db (se_run_text env (tr_run_id (pt_task_run (p6_task_run p)))) = None"
    and "upsert_task_run_v6 env p db = Inr db'"
  shows "\<exists>row. run_row db' (se_run_text env (tr_run_id (pt_task_run (p6_task_run p)))) = Some row
    \<and> decode_stored_run env (se_run_text env (tr_run_id (pt_task_run (p6_task_run p))), row)
      = Inr (restored_run p)"
  using first_upsert [OF assms(4,3)] upserted_row_reads_back [OF assms(1,2)] by blast

definition sample_write :: persist_task_run_v6 where
  "sample_write = \<lparr>p6_task_run = sample_persist (new_task_run (sample_run 7) (Provisional ''t1'' 3 12)
     (DisplayOrdinal 9) Running True) (Some \<lparr>nb_provider = Claude, nb_native_session_id = ''s''\<rparr>),
     p6_state = unready_state\<rparr>"

theorem written_run_restored_witness:
  "\<exists>db' row. upsert_task_run_v6 sample_codecs sample_write sample_store = Inr db'
    \<and> run_row db' ''7'' = Some row \<and> decode_stored_run sample_codecs (''7'', row) = Inr (restored_run sample_write)"
proof -
  have i: "se_run_text sample_codecs (tr_run_id (pt_task_run (p6_task_run sample_write))) = ''7''"
    and key: "run_key_in_range (tr_key (pt_task_run (p6_task_run sample_write)))"
    and none: "run_row sample_store ''7'' = None"
    and "\<not> isl (upsert_task_run_v6 sample_codecs sample_write sample_store)" by code_simp+
  from inr_when [OF this(4)] obtain db' where "upsert_task_run_v6 sample_codecs sample_write sample_store = Inr db'" ..
  with written_run_restored [OF sample_codecs_ok key _ this] none show ?thesis by (auto simp: i)
qed

section \<open>The constraints of the schema\<close>

text \<open>C11. No sequence of operations violates a constraint the schema declares: primary keys, UNIQUE
  indexes, CHECKs and foreign keys hold in every database the store can reach, and every alias
  points at a canonical run.\<close>

theorem store_constraints_hold:
  assumes "store_reachable env db" and "env_ok env"
  shows "schema_ok db"
  by (rule store_reachable_ok [OF assms])

theorem store_constraints_hold_witness: "schema_ok sample_store"
  by (rule store_constraints_hold [OF sample_store_reachable sample_codecs_ok])

section \<open>Merging\<close>

text \<open>C12. The merge in the database refines the merge in memory: edge tables that mirror the
  relationship graphs mirror the contracted graphs afterwards.\<close>

theorem store_merge_refines:
  assumes "env_ok env" and "edges_mirrored env m db" and "preflight_merge m s a = Inr g"
    and "merge_task_runs env s a drain db = Inr db'"
  shows "edges_mirrored env (merge_in_memory s a g now m) db'"
  by (rule merge_mirrored [OF assms])

theorem store_merge_refines_witness:
  "\<exists>g db'. preflight_merge sample_model (sample_run 1) (sample_run 2) = Inr g
    \<and> merge_task_runs sample_codecs (sample_run 1) (sample_run 2) None sample_store = Inr db'
    \<and> edges_mirrored sample_codecs (merge_in_memory (sample_run 1) (sample_run 2) g 5 sample_model) db'"
proof -
  have "\<not> isl (preflight_merge sample_model (sample_run 1) (sample_run 2))" by code_simp
  from inr_when [OF this] obtain g where g: "preflight_merge sample_model (sample_run 1) (sample_run 2) = Inr g" ..
  have "\<not> isl (merge_task_runs sample_codecs (sample_run 1) (sample_run 2) None sample_store)" by code_simp
  from inr_when [OF this] obtain db'
    where db': "merge_task_runs sample_codecs (sample_run 1) (sample_run 2) None sample_store = Inr db'" ..
  have "edges_mirrored sample_codecs sample_model sample_store"
    unfolding edges_mirrored_def by code_simp
  from store_merge_refines [OF sample_codecs_ok this g db'] g db' show ?thesis by blast
qed

section \<open>Histories\<close>

text \<open>C14. When a history drain is finalized, every run it covers becomes ready unless an open
  drain still covers it.\<close>

theorem finalized_runs_ready:
  assumes "finalize_history_drain env manifest now db = (db', Inr result)"
    and "\<not> drain_finalized db (drain_text (pd_drain_id manifest))"
    and "run_row db' i = Some row" and "rr_merged_into row = None"
    and "(drain_text (pd_drain_id manifest), i) \<in> set (db_drain_runs db')"
    and "\<not> blocked_by_drain db' i"
  shows "lf_history_ready (rr_lifecycle row) = 1"
  by (rule finalize_drain_members [OF assms])

theorem finalized_runs_ready_witness:
  "\<exists>db' result row. finalize_history_drain sample_codecs sample_manifest 50 sample_store = (db', Inr result)
    \<and> run_row db' ''2'' = Some row \<and> lf_history_ready (rr_lifecycle row) = 1"
proof -
  let ?f = "finalize_history_drain sample_codecs sample_manifest 50 sample_store"
  have "\<not> isl (snd ?f)" by code_simp
  from inr_when [OF this] obtain result where "snd ?f = Inr result" ..
  then have fin: "?f = (fst ?f, Inr result)" by (simp add: prod_eq_iff)
  have drain: "drain_text (pd_drain_id sample_manifest) = ''drain''" by (simp add: sample_manifest_def)
  have fresh: "\<not> drain_finalized sample_store (drain_text (pd_drain_id sample_manifest))" by code_simp
  have "case ?f of (db', _) \<Rightarrow> run_row db' ''2'' \<noteq> None \<and> merged_target db' ''2'' = None
      \<and> (''drain'', ''2'') \<in> set (db_drain_runs db') \<and> \<not> blocked_by_drain db' ''2''" by code_simp
  then have "run_row (fst ?f) ''2'' \<noteq> None" and c: "merged_target (fst ?f) ''2'' = None"
    and m: "(drain_text (pd_drain_id sample_manifest), ''2'') \<in> set (db_drain_runs (fst ?f))"
    and b: "\<not> blocked_by_drain (fst ?f) ''2''"
    unfolding case_prod_beta drain by blast+
  from this(1) obtain row where row: "run_row (fst ?f) ''2'' = Some row" by blast
  with c have "rr_merged_into row = None" by (simp add: merged_target_def)
  from finalized_runs_ready [OF fin fresh row this m b] fin row show ?thesis by blast
qed

text \<open>A finalization that is requested again, after a lost acknowledgement, reports the same
  result and changes nothing.\<close>

lemma finalization_repeatable:
  assumes "store_reachable env db" and "env_ok env"
    and "finalize_history_drain env manifest now db = (db', Inr result)"
  shows "finalize_history_drain env manifest later db' = (db', Inr result)"
  by (rule finalize_again [OF assms(3) owned_artifacts [OF store_reachable_ok [OF assms(1,2)]]])

section \<open>Repeated batches\<close>

text \<open>C13. A Controller batch whose acknowledgement was lost is recognised when it is sent again: the
  store reports success and the database stays as it is.\<close>

theorem repeated_batch_absorbed:
  assumes "env_ok env" and "vb_operations batch = AdvanceIngestSequence q # later"
    and "\<not> list_ex is_advance later"
    and "stamped_event_ids q later [] = Some ids" and "ids \<noteq> []"
    and "distinct (ledger_ids later)" and "\<forall>i \<in> set (ledger_ids later). hm_get (db_event_ledger db) i = None"
    and "log_bounded db" and "apply_v6_batch env batch db = (db', Inr ())"
  shows "apply_v6_batch env batch db' = (db', Inr ())"
  by (rule batch_replayed(1) [OF assms])

theorem repeated_batch_absorbed_witness:
  "apply_v6_batch sample_codecs sample_batch sample_store = (sample_store, Inr ())"
proof (rule repeated_batch_absorbed [OF sample_codecs_ok _ _ _ _ _ _ _ sample_store_accepted])
  show "vb_operations sample_batch = AdvanceIngestSequence 1 # sample_later" by (simp add: sample_batch_def)
  show "\<not> list_ex is_advance sample_later" "distinct (ledger_ids sample_later)"
    "stamped_event_ids 1 sample_later [] = Some [''event'']" "[''event''] \<noteq> []"
    "\<forall>i \<in> set (ledger_ids sample_later). hm_get (db_event_ledger empty_database) i = None" by code_simp+
  show "log_bounded empty_database" by (simp add: log_bounded_def empty_database_def)
qed

section \<open>Retention\<close>

text \<open>C15. The retention pass removes a run exactly when the canonical run behind it has been over for
  longer than the retention time, nothing that still runs depends on it, and no open drain claims
  it or one of its aliases; every other run keeps its row.\<close>

theorem cleanup_removes_expired:
  assumes "store_reachable env db" and "env_ok env" and "cleanup_retention now_ms db = (db', stats)"
  shows "run_row db' i =
    (if removable db (i64_saturating_sub now_ms run_retention_ms) (canonical_root db i) then None
     else run_row db i)"
  by (rule cleanup_runs [OF flat_aliases [OF store_reachable_ok [OF assms(1,2)]] assms(3)])

theorem cleanup_removes_expired_witness:
  "run_row (fst (cleanup_retention 9000000000 sample_store)) ''4'' = None
    \<and> run_row (fst (cleanup_retention 9000000000 sample_store)) ''1'' \<noteq> None"
proof -
  let ?c = "cleanup_retention 9000000000 sample_store"
  have c: "?c = (fst ?c, snd ?c)" by simp
  have "let db = sample_store in canonical_root db ''4'' = ''4'' \<and> canonical_root db ''1'' = ''1''
      \<and> run_row db ''4'' \<noteq> None \<and> run_row db ''1'' \<noteq> None
      \<and> opt_is_some_and (\<lambda>row. sql_less (run_end_ms row) (i64_saturating_sub 9000000000 run_retention_ms))
            (run_row db ''4'')
      \<and> \<not> opt_is_some_and (\<lambda>row. sql_less (run_end_ms row) (i64_saturating_sub 9000000000 run_retention_ms))
            (run_row db ''1'')
      \<and> \<not> list_ex (\<lambda>((p, _), _). p = ''4'') (db_execution_edges db) \<and> db_dependency_edges db = []
      \<and> map snd (db_drain_runs db) = [''2''] \<and> canonical_root db ''2'' = ''2''" by code_simp
  then have root: "canonical_root sample_store ''4'' = ''4''" "canonical_root sample_store ''1'' = ''1''"
    and rows: "run_row sample_store ''4'' \<noteq> None" "run_row sample_store ''1'' \<noteq> None"
    and over: "opt_is_some_and (\<lambda>row. sql_less (run_end_ms row) (i64_saturating_sub 9000000000 run_retention_ms))
        (run_row sample_store ''4'')"
    and running: "\<not> opt_is_some_and (\<lambda>row. sql_less (run_end_ms row) (i64_saturating_sub 9000000000 run_retention_ms))
        (run_row sample_store ''1'')"
    and edges: "\<not> list_ex (\<lambda>((p, _), _). p = ''4'') (db_execution_edges sample_store)"
      "db_dependency_edges sample_store = []"
    and drains: "map snd (db_drain_runs sample_store) = [''2'']"
    and two: "canonical_root sample_store ''2'' = ''2''" by (simp_all only: Let_def not_False_eq_True)
  have "\<not> depended_on sample_store ''4''"
    using edges by (auto simp: depended_on_def list_ex_iff)
  moreover have "\<not> held_by_drain sample_store ''4''"
  proof
    assume "held_by_drain sample_store ''4''"
    then obtain i where i: "canonical_root sample_store i = ''4''" "blocked_by_drain sample_store i"
      by (auto simp: held_by_drain_def)
    then have "i \<in> set (map snd (db_drain_runs sample_store))"
      by (force simp: blocked_by_drain_def list_ex_iff)
    then show False using i(1) two drains by simp
  qed
  ultimately have "removable sample_store (i64_saturating_sub 9000000000 run_retention_ms) ''4''"
    using over by (simp add: removable_def)
  moreover have "\<not> removable sample_store (i64_saturating_sub 9000000000 run_retention_ms) ''1''"
    using running by (simp add: removable_def)
  ultimately show ?thesis
    using cleanup_removes_expired [OF sample_store_reachable sample_codecs_ok c, of "''4''"]
      cleanup_removes_expired [OF sample_store_reachable sample_codecs_ok c, of "''1''"] root rows by simp
qed

end
