(* ===== verification/Sweep_Laws.thy ===== *)
theory Sweep_Laws
  imports Effect_Laws
begin

text \<open>
  The closure of dispatch-only runs in the stale sweep: a run that a Controller only announced is
  closed after the inactivity period. The state it is closed to contradicts the assertion of the
  relationship graph that a run without state event and without execution is still queued.
\<close>

definition unbound :: "run_id \<Rightarrow> domain_model \<Rightarrow> bool" where
  "unbound i m \<longleftrightarrow> (\<forall>j e. get_execution m j = Some e \<longrightarrow> ex_task_run_id e \<noteq> i)"

lemma unbound_iff:
  assumes "hm_ok (dm_executions m)"
  shows "unbound i m \<longleftrightarrow> i \<notin> set (map ex_task_run_id (executions m))"
proof -
  have "e \<in> set (executions m) \<longleftrightarrow> (\<exists>j. get_execution m j = Some e)" for e
    unfolding get_execution_def by (rule hm_values_iff [OF assms])
  then show ?thesis unfolding unbound_def set_map image_iff by blast
qed

lemma close_other_run:
  "j \<noteq> i \<Longrightarrow> runs_keyed (model_of w) \<Longrightarrow>
     get_task_run (model_of (close_run_without_live_execution j n w)) i = get_task_run (model_of w) i"
  by (auto simp: close_run_without_live_execution_def runs_keyed_def split: option.split)

lemma keyed_close:
  "runs_keyed (model_of w) \<Longrightarrow> runs_keyed (model_of (close_run_without_live_execution j n w))"
  by (auto simp: close_run_without_live_execution_def keyed_store split: option.split)

lemma execution_runs [simp]:
  "get_task_run (rd_model (with_model (insert_execution e) r)) j = get_task_run (rd_model r) j"
  by (simp add: with_model_def get_task_run_def insert_execution_def)

lemma end_execution_other:
  assumes "unbound i (model_of w)" and "runs_keyed (model_of w)" and "executions_keyed (model_of w)"
  shows "get_task_run (model_of (end_execution x n w)) i = get_task_run (model_of w) i"
    and "unbound i (model_of (end_execution x n w))" and "runs_keyed (model_of (end_execution x n w))"
proof -
  let ?w = "\<lambda>e. push_op (persist_execution_op (ended_execution e) n) (on_model (insert_execution (ended_execution e)) w)"
  have keyed: "runs_keyed (model_of (?w e))" for e using assms(2) by (simp add: runs_keyed_def)
  have step: "end_execution x n w = (case get_execution (model_of w) x of None \<Rightarrow> w
      | Some e \<Rightarrow> close_run_without_live_execution (ex_task_run_id e) n (?w e))"
    by (auto simp: end_execution_def Let_def ended_execution_def split: option.split)
  show "get_task_run (model_of (end_execution x n w)) i = get_task_run (model_of w) i"
  proof (cases "get_execution (model_of w) x")
    case (Some e)
    then have "ex_task_run_id e \<noteq> i" using assms(1) unfolding unbound_def by blast
    from close_other_run [OF this keyed] Some show ?thesis by (simp add: step)
  qed (simp add: step)
  show "runs_keyed (model_of (end_execution x n w))"
    using assms(2) keyed_close [OF keyed] by (auto simp: step split: option.split)
  show "unbound i (model_of (end_execution x n w))"
    unfolding unbound_def
  proof (intro allI impI)
    fix j e assume "get_execution (model_of (end_execution x n w)) j = Some e"
    then obtain e' where "get_execution (model_of w) j = Some e'" "ex_task_run_id e = ex_task_run_id e'"
      unfolding end_execution_lookup [OF assms(3)] by (auto simp: ended_execution_def split: if_splits)
    then show "ex_task_run_id e \<noteq> i" using assms(1) unfolding unbound_def by metis
  qed
qed

lemma end_all_other:
  assumes "unbound i (model_of w)" and "runs_keyed (model_of w)" and "executions_keyed (model_of w)"
  shows "get_task_run (model_of (fold (\<lambda>x. end_execution x n) xs w)) i = get_task_run (model_of w) i
    \<and> runs_keyed (model_of (fold (\<lambda>x. end_execution x n) xs w))
    \<and> unbound i (model_of (fold (\<lambda>x. end_execution x n) xs w))"
  using assms
proof (induction xs arbitrary: w)
  case (Cons x xs)
  show ?case
    using Cons.IH [OF end_execution_other(2,3) [OF Cons.prems] ended_keyed [OF Cons.prems(3)]]
      end_execution_other(1) [OF Cons.prems] by simp
qed simp

definition closed_run :: "i64 \<Rightarrow> task_run \<Rightarrow> task_run" where
  "closed_run n t = touch_task_run n (t\<lparr>tr_state := EndedUnknown\<rparr>)"

lemma closed_fields [simp]:
  "tr_run_id (closed_run n t) = tr_run_id t" "tr_state (closed_run n t) = EndedUnknown"
  "tr_has_controller_task_state_event (closed_run n t) = tr_has_controller_task_state_event t"
  by (simp_all add: closed_run_def touch_task_run_def)

lemma inactive_lookup:
  assumes "runs_keyed (model_of w)"
  shows "get_task_run (model_of (end_inactive_run i n w)) j =
      (if j = i then map_option (closed_run n) (get_task_run (model_of w) i) else get_task_run (model_of w) j)"
  using assms by (auto simp: end_inactive_run_def closed_run_def [symmetric] runs_keyed_def split: option.split)

lemma keyed_inactive: "runs_keyed (model_of w) \<Longrightarrow> runs_keyed (model_of (end_inactive_run i n w))"
  by (auto simp: end_inactive_run_def keyed_store split: option.split)

lemma unbound_inactive:
  "unbound i (model_of (fold (\<lambda>(j, at). end_inactive_run j at) ids w)) = unbound i (model_of w)"
  "unbound i (model_of (fold (\<lambda>j. end_inactive_run j n) js w)) = unbound i (model_of w)"
  by (induction ids arbitrary: w, simp_all add: unbound_def case_prod_beta)
    (induction js arbitrary: w, simp_all add: unbound_def)

lemma inactive_all_other:
  assumes "runs_keyed (model_of w)" and "i \<notin> fst ` set ids"
  shows "get_task_run (model_of (fold (\<lambda>(j, at). end_inactive_run j at) ids w)) i = get_task_run (model_of w) i"
  using assms
proof (induction ids arbitrary: w)
  case (Cons x ids)
  then show ?case by (cases x) (auto simp: inactive_lookup keyed_inactive)
qed simp

lemma fact_timed_running:
  assumes "(i, at) \<in> set (inactive_fact_timed_runs E n r)"
  shows "\<exists>run. run \<in> set (task_runs (rd_model r)) \<and> tr_run_id run = i \<and> tr_state run = Running"
proof -
  have one: "(if c1 then (case a of None \<Rightarrow> None | Some at \<Rightarrow> if c2 at then Some (k, at) else None)
      else None) = Some (i, at) \<Longrightarrow> c1 \<and> k = i" for c1 c2 k and a :: "i64 option"
    by (auto split: if_split_asm option.split_asm)
  from assms obtain run where run: "run \<in> set (task_runs (rd_model r))"
    and "(if (is_controller (tr_key run) \<or> is_provisional (tr_key run)) \<and> tr_state run = Running
            \<and> tr_dismissed_at_ms run = None
            \<and> tr_run_id run \<notin> set (rd_non_lane_task_state_runs r)
            \<and> \<not> has_live_execution (rd_model r) (tr_run_id run)
         then (case activity_anchor run of
                 None \<Rightarrow> None
               | Some anchor_ms \<Rightarrow>
                   if dt_headless_inactivity_ms (en_timing E) \<le> i64_saturating_sub n anchor_ms
                   then Some (tr_run_id run, anchor_ms) else None)
         else None) = Some (i, at)"
    unfolding inactive_fact_timed_runs_def set_sort filter_map_set by blast
  from run one [OF this(2)] show ?thesis by blast
qed

lemma inactive_ids:
  assumes "model_ok m"
  shows "i \<in> set (inactive_dispatch_only_runs E n m) \<Longrightarrow> \<exists>t. get_task_run m i = Some t \<and> unbound i m"
    and "distinct (inactive_dispatch_only_runs E n m)"
proof -
  have b: "set (runs_with_executions m) = set (map ex_task_run_id (executions m))"
    by (simp add: runs_with_executions_def)
  have u: "unbound i m \<longleftrightarrow> i \<notin> set (runs_with_executions m)" for i
    unfolding b by (rule unbound_iff) (use assms in \<open>simp add: model_ok_alt\<close>)
  show "i \<in> set (inactive_dispatch_only_runs E n m) \<Longrightarrow> \<exists>t. get_task_run m i = Some t \<and> unbound i m"
    unfolding inactive_dispatch_only_runs_def set_sort ids_of_runs [OF assms] u
    using assms by (auto simp: model_ok_alt rows_under_def get_task_run_def)
  show "distinct (inactive_dispatch_only_runs E n m)"
    unfolding inactive_dispatch_only_runs_def distinct_sort by (rule rows_ids_distinct [OF assms])
qed

text \<open>The run a sweep closes for inactivity, as the sweep leaves it.\<close>

lemma sweep_closes_announced:
  assumes ok: "model_ok (rd_model r)"
    and i: "i \<in> set (inactive_dispatch_only_runs E n (model_of (fold (\<lambda>x. end_execution x n)
      (stale_executions n (rd_model r)) (r, []))))"
    and t: "get_task_run (rd_model r) i = Some t" and u: "unbound i (rd_model r)"
  shows "get_task_run (rd_model (fst (sweep_stale E n r))) i = Some (closed_run n t)
    \<and> i \<notin> set (execution_bound_runs (rd_model (fst (sweep_stale E n r))))"
proof -
  define w1 where "w1 = fold (\<lambda>x. end_execution x n) (stale_executions n (rd_model r)) (r, [])"
  define w2 where "w2 = close_inactive_dispatch_only_runs E n w1"
  define w3 where "w3 = close_inactive_fact_timed_runs E n w2"
  have keyed: "runs_keyed (model_of (r, []))" "executions_keyed (model_of (r, []))"
    using ok by (auto simp: model_okD executions_keyed_def model_ok_alt rows_under_def get_execution_def)
  have w1: "get_task_run (model_of w1) i = Some t" "runs_keyed (model_of w1)" "unbound i (model_of w1)"
    using end_all_other [OF _ keyed, of i n] t u unfolding w1_def by simp_all
  have ok1: "model_ok (model_of w1)" unfolding w1_def
    by (rule tables.fold_I) (simp_all add: ok tables.end_execution_I)
  have w2: "get_task_run (model_of w2) i = Some (closed_run n t)" "runs_keyed (model_of w2)"
    using fold_lookup [where P = "\<lambda>w. runs_keyed (model_of w)" and f = "\<lambda>j. end_inactive_run j n",
        OF inactive_lookup keyed_inactive w1(2) inactive_ids(2) [OF ok1], of E n i] i w1(1)
      ok_fold [where P = "\<lambda>w. runs_keyed (model_of w)", OF w1(2) keyed_inactive]
    by (simp_all add: w2_def close_inactive_dispatch_only_runs_def w1_def)
  have "i \<notin> fst ` set (inactive_fact_timed_runs E n (fst w2))"
  proof
    assume "i \<in> fst ` set (inactive_fact_timed_runs E n (fst w2))"
    then obtain run where "run \<in> set (task_runs (model_of w2))" "tr_run_id run = i" "tr_state run = Running"
      using fact_timed_running by fastforce
    moreover have "model_ok (model_of w2)"
      unfolding w2_def close_inactive_dispatch_only_runs_def
      by (rule tables.fold_I) (simp_all add: ok1 tables.end_inactive_I)
    then have "run \<in> set (task_runs (model_of w2)) \<longleftrightarrow> get_task_run (model_of w2) (tr_run_id run) = Some run" for run
      unfolding get_task_run_def by (intro row_values) (simp_all add: model_ok_alt rows_under_def)
    ultimately show False using w2(1) by auto
  qed
  then have w3: "get_task_run (model_of w3) i = Some (closed_run n t)" "unbound i (model_of w3)"
    using inactive_all_other [OF w2(2)] w2(1) w1(3)
    by (simp_all add: w3_def w2_def close_inactive_fact_timed_runs_def close_inactive_dispatch_only_runs_def
        unbound_inactive)
  have ok3: "hm_ok (dm_executions (model_of w3))"
  proof -
    have "model_ok (model_of w3)"
      unfolding w3_def w2_def close_inactive_dispatch_only_runs_def close_inactive_fact_timed_runs_def
      by (intro tables.fold_I) (auto simp: ok1 tables.end_inactive_I)
    then show ?thesis by (simp add: model_ok_alt)
  qed
  have same: "rows (fst (sweep_stale E n r)) = rows (fst w3)"
    by (auto simp: sweep_stale_def Let_def case_prod_beta w3_def w2_def w1_def)
  show ?thesis
    using w3 unbound_iff [OF ok3] rows_lookup(1,8) [OF same] by (simp add: execution_bound_runs_def)
qed

lemma sweep_violates:
  assumes "model_ok (rd_model r)" and "stale_executions n (rd_model r) = []"
    and "i \<in> set (inactive_dispatch_only_runs E n (rd_model r))"
    and "get_task_run (rd_model r) i = Some t" and "\<not> tr_has_controller_task_state_event t"
  shows "\<exists>t'. get_task_run (rd_model (fst (sweep_stale E n r))) i = Some t'
    \<and> \<not> relationship_assertion t' (execution_bound_runs (rd_model (fst (sweep_stale E n r))))"
proof -
  have "unbound i (rd_model r)" using inactive_ids(1) [OF assms(1,3)] by blast
  from sweep_closes_announced [OF assms(1) _ assms(4) this, of E n] assms(2,3,5) have
    "get_task_run (rd_model (fst (sweep_stale E n r))) i = Some (closed_run n t)"
    "i \<notin> set (execution_bound_runs (rd_model (fst (sweep_stale E n r))))" by simp_all
  moreover have "tr_run_id t = i" using assms(1,4) by (auto simp: model_ok_alt rows_under_def get_task_run_def)
  ultimately show ?thesis
    using assms(5) by (auto simp: relationship_assertion_def relationship_only_with_bindings_def)
qed

end
