(* ===== verification/Lifecycle_Laws.thy ===== *)
theory Lifecycle_Laws
  imports Reducer_Body
begin

text \<open>
  The native lifecycle of a run is a register in which the newest watermark wins. The locale
  states the contract of such a register; its interpretation on \<open>lifecycle_step\<close> shows that the
  order in which the provider logs, the Controller socket and the snapshots are read does not
  matter.
\<close>

section \<open>Registers in which the newest write wins\<close>

locale newest_wins =
  fixes stamp :: "'s \<Rightarrow> 't::linorder option"
    and put :: "'t \<Rightarrow> 'v \<Rightarrow> 's \<Rightarrow> 's"
    and step :: "'v \<Rightarrow> 't \<Rightarrow> 's \<Rightarrow> 's"
  assumes stamp_put: "stamp (put t v s) = Some t"
    and put_put: "put t v (put u x s) = put t v s"
    and step_newer: "stamp s = None \<or> (\<exists>u. stamp s = Some u \<and> u < t) \<Longrightarrow> step v t s = put t v s"
    and step_late: "stamp s = Some u \<Longrightarrow> t \<le> u \<Longrightarrow> step v t s = s"
begin

abbreviation steps :: "('v \<times> 't) list \<Rightarrow> 's \<Rightarrow> 's" where
  "steps es s \<equiv> fold (\<lambda>(v, t). step v t) es s"

definition late :: "'t \<Rightarrow> 's \<Rightarrow> bool" where
  "late t s \<longleftrightarrow> (\<exists>u. stamp s = Some u \<and> t \<le> u)"

lemma step_cases: "step v t s = (if late t s then s else put t v s)"
  by (cases "stamp s") (auto simp: late_def not_le step_newer step_late)

lemma late_put [simp]: "late t (put u v s) \<longleftrightarrow> t \<le> u"
  by (simp add: late_def stamp_put)

lemma steps_snoc:
  "steps (es @ [(v, t)]) s = (if late t (steps es s) then steps es s else put t v (steps es s))"
  by (simp add: step_cases [symmetric])

text \<open>What a sequence of writes leaves: the state, or its newest write.\<close>

definition outcome :: "('v \<times> 't) list \<Rightarrow> 's \<Rightarrow> 's \<Rightarrow> bool" where
  "outcome es s s' \<longleftrightarrow> (s' = s \<and> (\<forall>v t. (v, t) \<in> set es \<longrightarrow> late t s))
     \<or> (\<exists>v t. (v, t) \<in> set es \<and> \<not> late t s \<and> s' = put t v s \<and> (\<forall>x u. (x, u) \<in> set es \<longrightarrow> u \<le> t))"

lemma outcome_snoc:
  assumes "outcome es s s'"
  shows "outcome (es @ [(v, t)]) s (if late t s' then s' else put t v s')"
proof -
  consider (kept) "s' = s" "\<And>v t. (v, t) \<in> set es \<Longrightarrow> late t s"
    | (put) x u where "(x, u) \<in> set es" "\<not> late u s" "s' = put u x s" "\<And>y q. (y, q) \<in> set es \<Longrightarrow> q \<le> u"
    using assms unfolding outcome_def by blast
  then show ?thesis
  proof cases
    case kept
    have "(y, u) \<in> set es \<Longrightarrow> u \<le> t" if "\<not> late t s" for y u
      using kept(2) [of y u] that by (force simp: late_def)
    with kept show ?thesis
      unfolding outcome_def by (cases "late t s") (force, intro disjI2 exI [of _ v] exI [of _ t], auto)
  next
    case w: put
  show ?thesis
  proof (cases "t \<le> u")
    case True
    with w show ?thesis
      unfolding outcome_def by (intro disjI2 exI [of _ x] exI [of _ u]) auto
  next
    case False
    then have "\<not> late t s" "\<And>y q. (y, q) \<in> set es \<Longrightarrow> q \<le> t" using w(2,4) by (force simp: late_def)+
    with False w(3) show ?thesis
      unfolding outcome_def by (intro disjI2 exI [of _ v] exI [of _ t]) (auto simp: put_put)
  qed
  qed
qed

lemma steps_outcome: "outcome es s (steps es s)"
proof (induction es rule: rev_induct)
  case Nil
  then show ?case by (simp add: outcome_def)
next
  case (snoc e es)
  then show ?case by (cases e) (simp only: steps_snoc outcome_snoc)
qed

text \<open>Writes whose stamps are distinct commute.\<close>

lemma steps_late: "(\<And>v t. (v, t) \<in> set es \<Longrightarrow> late t s) \<Longrightarrow> steps es s = s"
  using steps_outcome [of es s] unfolding outcome_def by blast

lemma steps_written:
  assumes "(v, t) \<in> set es" and "\<not> late t s" and "\<And>x u. (x, u) \<in> set es \<Longrightarrow> u \<le> t"
    and "\<And>x. (x, t) \<in> set es \<Longrightarrow> x = v"
  shows "steps es s = put t v s"
proof -
  from steps_outcome [of es s] assms(1,2)
  obtain x u where w: "(x, u) \<in> set es" "steps es s = put u x s" "\<forall>y q. (y, q) \<in> set es \<longrightarrow> q \<le> u"
    unfolding outcome_def by blast
  have "u = t" using w(1,3) assms(1,3) by (blast intro: order_antisym)
  with w(1,2) assms(4) show ?thesis by blast
qed

lemma steps_same:
  assumes same: "set es = set es'"
    and fn: "\<And>v t x. (v, t) \<in> set es \<Longrightarrow> (x, t) \<in> set es \<Longrightarrow> v = x"
  shows "steps es s = steps es' s"
  using steps_outcome [of es s] unfolding outcome_def
proof (elim disjE exE conjE)
  assume "steps es s = s" "\<forall>v t. (v, t) \<in> set es \<longrightarrow> late t s"
  then show ?thesis using steps_late [of es' s] same by simp
next
  fix v t assume w: "(v, t) \<in> set es" "\<not> late t s" "steps es s = put t v s"
    "\<forall>x u. (x, u) \<in> set es \<longrightarrow> u \<le> t"
  have "steps es' s = put t v s"
    by (rule steps_written) (use w same fn in auto)
  with w(3) show ?thesis by simp
qed

lemma steps_repeated: "steps (es @ es) s = steps es s"
  using steps_outcome [of es s] unfolding outcome_def
proof (elim disjE exE conjE)
  assume "steps es s = s"
  then show ?thesis by simp
next
  fix v t assume w: "steps es s = put t v s" "\<forall>x u. (x, u) \<in> set es \<longrightarrow> u \<le> t"
  have "steps es (put t v s) = put t v s" by (rule steps_late) (use w(2) in auto)
  with w(1) show ?thesis by simp
qed

end

section \<open>The lifecycle of a run\<close>

definition lifecycle_write ::
  "native_lifecycle_watermark \<Rightarrow> native_session_end_status option \<Rightarrow> task_run_v6_state \<Rightarrow> task_run_v6_state" where
  "lifecycle_write wm s v = v\<lparr>v6_native_session_end := map_option
     (\<lambda>status. \<lparr>ne_status = status, ne_at_ms = wm_source_at_ms wm\<rparr>) s, v6_lifecycle_watermark := Some wm\<rparr>"

definition lifecycle_after ::
  "native_session_end_status option \<Rightarrow> native_lifecycle_watermark \<Rightarrow> task_run_v6_state \<Rightarrow> task_run_v6_state" where
  "lifecycle_after s wm v = opt_unwrap_or v (lifecycle_step s wm v)"

interpretation lifecycle: newest_wins v6_lifecycle_watermark lifecycle_write lifecycle_after
  by unfold_locales (auto simp: lifecycle_write_def lifecycle_after_def lifecycle_step_def not_le)

lemma lifecycle_lookup:
  "opt_unwrap_or v6_default (get_v6_state (model_of (apply_native_lifecycle i s wm w)) j) =
     (if j = i then lifecycle_after s wm (opt_unwrap_or v6_default (get_v6_state (model_of w) i))
      else opt_unwrap_or v6_default (get_v6_state (model_of w) j))"
  by (auto simp: apply_native_lifecycle_def Let_def lifecycle_after_def on_model_def with_model_def
      push_op_def get_v6_state_def set_v6_state_def split: option.split)

lemma lifecycle_lookups:
  "opt_unwrap_or v6_default (get_v6_state (model_of (fold (\<lambda>(s, wm). apply_native_lifecycle i s wm) es w)) i) =
     lifecycle.steps es (opt_unwrap_or v6_default (get_v6_state (model_of w) i))"
  by (induction es arbitrary: w) (auto simp: lifecycle_lookup)

text \<open>The newest event decides; the other events only have to be older or to agree with it.\<close>

lemma newest_lifecycle:
  assumes "(s, wm) \<in> set es" and "\<And>x u. (x, u) \<in> set es \<Longrightarrow> u \<le> wm" and "\<And>x. (x, wm) \<in> set es \<Longrightarrow> x = s"
  shows "lifecycle.steps es v = (if opt_is_some_and (\<lambda>old. wm \<le> old) (v6_lifecycle_watermark v) then v
    else v\<lparr>v6_native_session_end := map_option (\<lambda>status.
             \<lparr>ne_status = status, ne_at_ms = wm_source_at_ms wm\<rparr>) s, v6_lifecycle_watermark := Some wm\<rparr>)"
proof (cases "lifecycle.late wm v")
  case True
  have "lifecycle.late t v" if "(x, t) \<in> set es" for x t
    using assms(2) [OF that] True by (auto simp: lifecycle.late_def intro: order_trans)
  from lifecycle.steps_late [OF this] have "lifecycle.steps es v = v" .
  with True show ?thesis by (auto simp: lifecycle.late_def opt_is_some_and_def)
next
  case False
  from lifecycle.steps_written [OF assms(1) False assms(2,3)] False show ?thesis
    by (auto simp: lifecycle.late_def opt_is_some_and_def lifecycle_write_def split: option.split)
qed

end
