(* ===== verification/Worklist.thy ===== *)
theory Worklist
  imports Prelude
begin

text \<open>
  Adjacency maps and the loop that several parts of the terminal interface share: a stack of
  entries whose neighbours are added to a set, and pushed when they are new. The loop ends, and
  the set it returns is everything that can be reached from where it started.
\<close>

definition listed :: "('a, 'a list) hmap \<Rightarrow> 'a \<Rightarrow> 'a list" where
  "listed adj a = opt_unwrap_or [] (hm_get adj a)"

text \<open>\<open>entry(a).or_default().push(b)\<close>.\<close>

definition list_push :: "'a \<Rightarrow> 'a \<Rightarrow> ('a, 'a list) hmap \<Rightarrow> ('a, 'a list) hmap" where
  "list_push a b adj = hm_put a (listed adj a @ [b]) adj"

definition retain_new_entry :: "'a \<Rightarrow> 'a list \<times> 'a list \<Rightarrow> 'a list \<times> 'a list" where
  "retain_new_entry n st =
     (case st of (retained, pending) \<Rightarrow>
        if n \<in> set retained then (retained, pending) else (hs_insert n retained, n # pending))"

definition entries_of :: "('a, 'a list) hmap \<Rightarrow> 'a set" where
  "entries_of adj = (\<Union>ns \<in> set (hm_values adj). set ns)"

lemma listed_entries: "set (listed adj a) \<subseteq> entries_of adj"
  by (cases "hm_get adj a") (auto simp: listed_def entries_of_def dest!: map_of_SomeD)

lemma finite_entries [simp]: "finite (entries_of adj)"
  by (simp add: entries_of_def)

lemma retain_new_measure:
  assumes "set ns \<subseteq> S" and "finite S" and "fold retain_new_entry ns (retained, pending) = (retained', pending')"
  shows "card (S - set retained') + length pending' \<le> card (S - set retained) + length pending"
  using assms(1,3)
proof (induction ns arbitrary: retained pending)
  case (Cons n ns)
  show ?case
  proof (cases "n \<in> set retained")
    case True
    with Cons show ?thesis by (simp add: retain_new_entry_def)
  next
    case False
    have "card (S - insert n (set retained)) < card (S - set retained)"
      using Cons.prems(1) False assms(2) by (intro psubset_card_mono) auto
    moreover have "card (S - set retained') + length pending'
        \<le> card (S - set (hs_insert n retained)) + length (n # pending)"
      using Cons.prems False by (intro Cons.IH) (auto simp: retain_new_entry_def)
    ultimately show ?thesis by simp
  qed
qed simp

function retain_loop :: "('a, 'a list) hmap \<Rightarrow> 'a list \<Rightarrow> 'a list \<Rightarrow> 'a list" where
  "retain_loop adj retained [] = retained"
| "retain_loop adj retained (a # pending) =
     (case fold retain_new_entry (listed adj a) (retained, pending) of
        (retained', pending') \<Rightarrow> retain_loop adj retained' pending')"
  by pat_completeness auto
termination
  by (relation "measure (\<lambda>(adj, retained, pending). card (entries_of adj - set retained) + length pending)")
    (auto simp: less_Suc_eq_le intro!: retain_new_measure [OF listed_entries finite_entries] split: prod.split)

section \<open>What the loop computes\<close>

definition listed_pairs :: "('a, 'a list) hmap \<Rightarrow> ('a \<times> 'a) set" where
  "listed_pairs adj = {(a, b). b \<in> set (listed adj a)}"

lemma listed_push [simp]:
  "listed (list_push a b adj) c = (if c = a then listed adj a @ [b] else listed adj c)"
  by (simp add: listed_def list_push_def)

lemma listed_empty [simp]: "listed [] a = []"
  by (simp add: listed_def)

lemma listed_fold:
  "listed (fold (\<lambda>e adj. if P e then list_push (f e) (g e) adj else adj) es adj) a
    = listed adj a @ map g (filter (\<lambda>e. P e \<and> f e = a) es)"
  by (induction es arbitrary: adj) auto

lemma retain_new_sets:
  assumes "fold retain_new_entry ns (retained, pending) = (retained', pending')"
  shows "set retained' = set retained \<union> set ns \<and> set pending \<subseteq> set pending'
    \<and> set pending' \<subseteq> set pending \<union> set ns \<and> set ns - set retained \<subseteq> set pending'"
  using assms
proof (induction ns arbitrary: retained pending)
  case (Cons n ns)
  obtain r p where st: "retain_new_entry n (retained, pending) = (r, p)"
    by (cases "retain_new_entry n (retained, pending)")
  have "fold retain_new_entry ns (r, p) = (retained', pending')" using Cons.prems st by simp
  from Cons.IH [OF this] st show ?case by (auto simp: retain_new_entry_def split: if_splits)
qed simp

text \<open>The entries whose neighbours are all retained, but for those still pending.\<close>

lemma retain_loop_set:
  assumes "set pending \<subseteq> set retained"
    and "\<And>a b. a \<in> set retained \<Longrightarrow> a \<notin> set pending \<Longrightarrow> b \<in> set (listed adj a) \<Longrightarrow> b \<in> set retained"
  shows "set (retain_loop adj retained pending) = (listed_pairs adj)\<^sup>* `` set retained"
  using assms
proof (induction adj retained pending rule: retain_loop.induct)
  case (1 adj retained)
  then have "(listed_pairs adj) `` set retained \<subseteq> set retained"
    by (auto simp: listed_pairs_def)
  from Image_closed_trancl [OF this] show ?case by simp
next
  case (2 adj retained a pending)
  obtain r p where st: "fold retain_new_entry (listed adj a) (retained, pending) = (r, p)"
    by (cases "fold retain_new_entry (listed adj a) (retained, pending)")
  note sets = retain_new_sets [OF st]
  have "set (retain_loop adj r p) = (listed_pairs adj)\<^sup>* `` set r"
  proof (rule "2.IH" [OF st [symmetric]])
    show "set p \<subseteq> set r" using sets "2.prems"(1) by auto
    show "c \<in> set r" if "b \<in> set r" "b \<notin> set p" "c \<in> set (listed adj b)" for b c
      using that sets "2.prems"(1) "2.prems"(2) [of b c] by (cases "b = a"; cases "b \<in> set retained") auto
  qed
  also have "\<dots> = (listed_pairs adj)\<^sup>* `` set retained"
  proof
    have "set r \<subseteq> (listed_pairs adj)\<^sup>* `` set retained"
      using sets "2.prems"(1) by (auto simp: listed_pairs_def)
    then show "(listed_pairs adj)\<^sup>* `` set r \<subseteq> (listed_pairs adj)\<^sup>* `` set retained"
      by (auto intro: rtrancl_trans)
    show "(listed_pairs adj)\<^sup>* `` set retained \<subseteq> (listed_pairs adj)\<^sup>* `` set r"
      using sets by auto
  qed
  finally show ?case using st by simp
qed

lemma retain_loop_reaches:
  "set (retain_loop adj retained retained) = (listed_pairs adj)\<^sup>* `` set retained"
  by (rule retain_loop_set) auto

end
