(* ===== verification/Row_Labels.thy ===== *)
theory Row_Labels
  imports Status Worklist
begin

text \<open>
  The rows of the terminal interface and the text on them: node keys (\<open>src/tui/app.rs\<close>), rows and
  labels (\<open>src/tui/view.rs\<close>), and the functions of \<open>src/tui/projection.rs\<close> that name a run. A label
  is a byte string; the glyphs and separators are their UTF-8 bytes. The text of a run identifier
  is the parameter \<open>run_text\<close>.
\<close>

section \<open>Rows\<close>

datatype view_mode = ExecutionTree | DependencyDag

definition view_mode_toggled :: "view_mode \<Rightarrow> view_mode" where
  "view_mode_toggled mode = (case mode of ExecutionTree \<Rightarrow> DependencyDag | DependencyDag \<Rightarrow> ExecutionTree)"

datatype node_key =
    SessionKey
  | WorkspaceKey string
  | TabKey string
  | PaneKey string
  | RunRowKey run_id "string option"
  | AgentRowKey string "string option"
  | UnattachedGroup

definition key_run_id :: "node_key \<Rightarrow> run_id option" where
  "key_run_id key = (case key of RunRowKey r _ \<Rightarrow> Some r | _ \<Rightarrow> None)"

definition collapse_key :: "node_key \<Rightarrow> node_key" where
  "collapse_key key = (case key of RunRowKey r _ \<Rightarrow> RunRowKey r None | _ \<Rightarrow> key)"

record tree_row =
  rw_key :: node_key
  rw_depth :: nat
  rw_label :: string
  rw_label_without_duration_suffix :: "string option"
  rw_display_status :: "display_status option"
  rw_prerequisites :: "string list"
  rw_dependents :: "string list"

section \<open>Text\<close>

definition escape_controls :: "string \<Rightarrow> string" where
  "escape_controls value =
     concat (map (\<lambda>u. if char_is_control u then control_escape u else u) (utf8_chars value))"

definition safe_text :: "string \<Rightarrow> string" where "safe_text value = escape_controls value"

definition provider_name :: "provider \<Rightarrow> string" where
  "provider_name p = (case p of Claude \<Rightarrow> ''Claude'' | Codex \<Rightarrow> ''Codex'')"

definition provider_label :: "provider \<Rightarrow> string" where
  "provider_label p = (case p of Claude \<Rightarrow> ''Claude'' | Codex \<Rightarrow> ''Codex'')"

definition task_state_name :: "task_state \<Rightarrow> string" where
  "task_state_name s = (case s of Queued \<Rightarrow> ''queued'' | Running \<Rightarrow> ''running'' | Blocked \<Rightarrow> ''blocked''
     | Completed \<Rightarrow> ''completed'' | Failed \<Rightarrow> ''failed'' | Cancelled \<Rightarrow> ''cancelled''
     | EndedUnknown \<Rightarrow> ''ended_unknown'')"

text \<open>The glyphs, in UTF-8.\<close>

definition status_glyph :: "display_status \<Rightarrow> string" where
  "status_glyph s =
     (if ds_stalled s then [CHR 0xE2, CHR 0x9A, CHR 0xA0]
      else case ds_status s of
             ShowQueued \<Rightarrow> [CHR 0xE2, CHR 0x97, CHR 0x8C]
           | ShowWorking \<Rightarrow> [CHR 0xE2, CHR 0x97, CHR 0x8F]
           | ShowBlocked \<Rightarrow> [CHR 0xE2, CHR 0x97, CHR 0x8F]
           | ShowIdle \<Rightarrow> [CHR 0xE2, CHR 0x97, CHR 0x8B]
           | ShowDone \<Rightarrow> [CHR 0xE2, CHR 0x9C, CHR 0x93]
           | ShowError \<Rightarrow> [CHR 0xE2, CHR 0x9C, CHR 0x97]
           | ShowCancelled \<Rightarrow> [CHR 0xE2, CHR 0x8A, CHR 0x98]
           | ShowUnknown \<Rightarrow> ''?'')"

definition em_dash :: string where "em_dash = [CHR 0xE2, CHR 0x80, CHR 0x94]"
definition middle_dot :: string where "middle_dot = [CHR 0xC2, CHR 0xB7]"

text \<open>\<open>str::split_once\<close> at one byte.\<close>

fun split_once :: "char \<Rightarrow> string \<Rightarrow> (string \<times> string) option" where
  "split_once c [] = None"
| "split_once c (x # xs) =
     (if x = c then Some ([], xs) else map_option (\<lambda>(a, b). (x # a, b)) (split_once c xs))"

text \<open>\<open>{:02}\<close> of a number that is not negative.\<close>

definition two_digits :: "int \<Rightarrow> string" where
  "two_digits i = (let t = int_text i in if length t < 2 then CHR ''0'' # t else t)"

definition format_duration :: "i64 \<Rightarrow> string" where
  "format_duration elapsed_ms =
     (let total_seconds = elapsed_ms div 1000 in
      if 3600 \<le> total_seconds
      then int_text (total_seconds div 3600) @ ''h'' @ two_digits (total_seconds mod 3600 div 60) @ ''m''
      else if 60 \<le> total_seconds
      then two_digits (total_seconds div 60) @ ''m'' @ two_digits (total_seconds mod 60) @ ''s''
      else two_digits total_seconds @ ''s'')"

definition i64_checked_sub :: "i64 \<Rightarrow> i64 \<Rightarrow> i64 option" where
  "i64_checked_sub a b = (if is_i64 (a - b) then Some (a - b) else None)"

section \<open>Naming runs\<close>

definition key_provider :: "run_key \<Rightarrow> provider option" where
  "key_provider key = (case key of Native p _ \<Rightarrow> Some p | NativePath p _ \<Rightarrow> Some p | _ \<Rightarrow> None)"

definition provider_from_key :: "run_key \<Rightarrow> provider option" where
  "provider_from_key key = (case key of Native p _ \<Rightarrow> Some p | NativePath p _ \<Rightarrow> Some p | _ \<Rightarrow> None)"

text \<open>The selector of a hook-backed Controller key: \<open>hook:<selector>:..\<close>.\<close>

definition hook_selector :: "string \<Rightarrow> string option" where
  "hook_selector name =
     (case strip_prefix name ''hook:'' of None \<Rightarrow> None | Some suffix \<Rightarrow> map_option fst (split_once CHR '':'' suffix))"

definition hook_selector_provider :: "run_key \<Rightarrow> provider option" where
  "hook_selector_provider key =
     (case key of
        Controller name \<Rightarrow>
          (case hook_selector name of
             None \<Rightarrow> None
           | Some selector \<Rightarrow>
               if selector = ''claude-code'' then Some Claude
               else if selector = ''codex'' then Some Codex else None)
      | _ \<Rightarrow> None)"

definition provider_backed_provider :: "domain_model \<Rightarrow> task_run \<Rightarrow> provider option" where
  "provider_backed_provider m run =
     opt_or (key_provider (tr_key run))
       (opt_or (hook_selector_provider (tr_key run))
          (first_of (filter_map (\<lambda>(key, r). key_provider key)
             (filter (\<lambda>(key, r). r = tr_run_id run) (dm_run_ids_by_key m)))))"

definition is_codex_child :: "domain_model \<Rightarrow> task_run \<Rightarrow> bool" where
  "is_codex_child m run \<longleftrightarrow> provider_backed_provider m run = Some Codex
     \<and> list_ex (\<lambda>e. ee_child_run_id e = tr_run_id run) (dm_execution_edges m)"

definition worker_kind_label :: "task_run \<Rightarrow> string" where
  "worker_kind_label run =
     (case tr_key run of
        Native p _ \<Rightarrow> provider_name p
      | NativePath p _ \<Rightarrow> provider_name p
      | Controller name \<Rightarrow>
          (case hook_selector name of None \<Rightarrow> escape_controls name
           | Some selector \<Rightarrow> escape_controls selector)
      | Provisional _ _ _ \<Rightarrow> ''provisional'')"

definition stable_run_kind :: "domain_model \<Rightarrow> run_id \<Rightarrow> string option" where
  "stable_run_kind m r =
     map_option escape_controls (opt_filter (\<lambda>kind. kind \<noteq> []) (get_run_kind m r))"

definition run_kind_label :: "domain_model \<Rightarrow> task_run \<Rightarrow> string" where
  "run_kind_label m run = opt_unwrap_or (worker_kind_label run) (stable_run_kind m (tr_run_id run))"

text \<open>\<open>NativeAliasIndex\<close>: the runs by native session, and the runs with a native binding.\<close>

record native_alias_index =
  ni_runs_by_session :: "(provider \<times> string, run_id) hmap"
  ni_natively_bound_runs :: "run_id list"

definition native_alias_index_from_model :: "domain_model \<Rightarrow> native_alias_index" where
  "native_alias_index_from_model m =
     fold (\<lambda>(key, r) index.
         case key of
           Native p sid \<Rightarrow>
             index\<lparr>ni_runs_by_session := hm_put (p, sid) r (ni_runs_by_session index),
                   ni_natively_bound_runs := hs_insert r (ni_natively_bound_runs index)\<rparr>
         | NativePath _ _ \<Rightarrow>
             index\<lparr>ni_natively_bound_runs := hs_insert r (ni_natively_bound_runs index)\<rparr>
         | _ \<Rightarrow> index)
       (dm_run_ids_by_key m) \<lparr>ni_runs_by_session = [], ni_natively_bound_runs = []\<rparr>"

definition agent_kind_run :: "native_alias_index \<Rightarrow> agent_node \<Rightarrow> run_id option" where
  "agent_kind_run index agent =
     opt_or (case opt_filter (\<lambda>sid. sid \<noteq> []) (an_native_session_id agent) of
               None \<Rightarrow> None
             | Some sid \<Rightarrow> hm_get (ni_runs_by_session index) (an_provider agent, sid))
       (if an_task_run_id agent \<notin> set (ni_natively_bound_runs index)
        then Some (an_task_run_id agent) else None)"

definition agent_role_label :: "domain_model \<Rightarrow> native_alias_index \<Rightarrow> agent_node \<Rightarrow> string option" where
  "agent_role_label m index agent =
     (case agent_kind_run index agent of
        None \<Rightarrow> None
      | Some r \<Rightarrow> (case get_task_run m r of None \<Rightarrow> None | Some _ \<Rightarrow> stable_run_kind m r))"

definition short_run_name :: "(run_id \<Rightarrow> string) \<Rightarrow> task_run \<Rightarrow> string" where
  "short_run_name run_text run =
     (case tr_key run of
        Controller name \<Rightarrow> safe_text name
      | Native _ sid \<Rightarrow> safe_text sid
      | NativePath p _ \<Rightarrow> provider_label p @ '' '' @ run_text (tr_run_id run)
      | Provisional terminal _ _ \<Rightarrow> safe_text terminal)"

definition run_subject_fallback :: "task_run \<Rightarrow> string" where
  "run_subject_fallback run =
     (case tr_key run of
        Controller name \<Rightarrow> safe_text name
      | Native _ _ \<Rightarrow> []
      | NativePath _ _ \<Rightarrow> []
      | Provisional terminal start_ms seq \<Rightarrow>
          safe_text terminal @ '':'' @ int_text start_ms @ '':'' @ nat_text seq)"

section \<open>Labels\<close>

definition run_row_head :: "domain_model \<Rightarrow> task_run \<Rightarrow> display_status \<Rightarrow> string" where
  "run_row_head m run status =
     (let label = status_glyph status @ '' '' @ task_display_label (ds_status status) @ '' ''
                  @ run_kind_label m run;
          subject =
            (if is_codex_child m run then []
             else case tr_subject run of
                    Some subject \<Rightarrow> safe_text subject
                  | None \<Rightarrow> if provider_backed_provider m run \<noteq> None then []
                            else run_subject_fallback run)
      in if subject \<noteq> [] then label @ '' '' @ subject else label)"

definition run_elapsed_ms :: "domain_model \<Rightarrow> task_run \<Rightarrow> i64 \<Rightarrow> i64 option" where
  "run_elapsed_ms m run now_ms =
     (case tr_created_at_ms run of
        None \<Rightarrow> None
      | Some created \<Rightarrow>
          opt_filter (\<lambda>elapsed. 0 \<le> elapsed)
            (i64_checked_sub (opt_unwrap_or now_ms (effective_lifecycle_end_ms m run)) created))"

definition append_run_duration :: "domain_model \<Rightarrow> task_run \<Rightarrow> i64 \<Rightarrow> string \<Rightarrow> string" where
  "append_run_duration m run now_ms label =
     (case run_elapsed_ms m run now_ms of
        None \<Rightarrow> label
      | Some elapsed \<Rightarrow> label @ '' '' @ middle_dot @ '' '' @ format_duration elapsed)"

definition run_uses_claude_tool_line :: "task_run \<Rightarrow> agent_node \<Rightarrow> bool" where
  "run_uses_claude_tool_line run agent =
     (case tr_key run of
        Controller name \<Rightarrow> starts_with name ''hook:claude-code:''
      | Native p _ \<Rightarrow> p = Claude
      | NativePath p _ \<Rightarrow> p = Claude
      | Provisional _ _ _ \<Rightarrow> an_provider agent = Claude)"

text \<open>
  \<open>LiveLineReadModel\<close>: per run the newest agent node that carries a live line. The comparison is
  the derived order of pairs of an optional time and a text.
\<close>

definition live_line_candidate :: "agent_node \<Rightarrow> i64 option \<times> string \<times> string" where
  "live_line_candidate agent =
     (an_last_activity_at_ms agent, an_agent_node_id agent, opt_unwrap_or [] (an_last_tool_name agent))"

definition live_lines_from_model :: "domain_model \<Rightarrow> (run_id, string) hmap" where
  "live_lines_from_model m =
     (let selected = fold (\<lambda>agent.
            select_evidence (\<lambda>candidate current.
                (fst current, fst (snd current)) < (fst candidate, fst (snd candidate)))
              (an_task_run_id agent) (live_line_candidate agent))
          (filter is_live_line (agent_nodes m)) []
      in filter_map (\<lambda>(r, _, _, line). if line \<noteq> [] then Some (r, line) else None) selected)"

definition newest_agent_nodes :: "display_timing \<Rightarrow> domain_model \<Rightarrow> i64 \<Rightarrow> (run_id, agent_node) hmap" where
  "newest_agent_nodes timing m now_ms =
     fold (\<lambda>agent.
         select_evidence (\<lambda>candidate current.
             (an_last_activity_at_ms current, an_agent_node_id current)
               < (an_last_activity_at_ms candidate, an_agent_node_id candidate))
           (an_task_run_id agent) agent)
       (filter (\<lambda>agent. \<not> is_live_line agent \<and> \<not> agent_node_is_display_stale timing agent now_ms)
         (agent_nodes m)) []"

definition run_live_line ::
  "task_run \<Rightarrow> agent_node option \<Rightarrow> (run_id, string) hmap \<Rightarrow> string option" where
  "run_live_line run newest_agent live_lines =
     opt_or (hm_get live_lines (tr_run_id run))
       (case opt_filter (run_uses_claude_tool_line run) newest_agent of
          None \<Rightarrow> None
        | Some agent \<Rightarrow>
            (case an_last_event_kind agent of
               None \<Rightarrow> None
             | Some event_kind \<Rightarrow>
                 Some (safe_text event_kind @
                   (case an_last_tool_name agent of None \<Rightarrow> []
                    | Some tool_name \<Rightarrow> '': '' @ safe_text tool_name))))"

definition run_row_label_with_agent ::
  "domain_model \<Rightarrow> task_run \<Rightarrow> agent_node option \<Rightarrow> i64 \<Rightarrow> (run_id, string) hmap \<Rightarrow> display_status
     \<Rightarrow> bool \<Rightarrow> string" where
  "run_row_label_with_agent m run newest_agent now_ms live_lines status show_duration_suffix =
     (let label = run_row_head m run status;
          label = (case run_live_line run newest_agent live_lines of
              Some line \<Rightarrow> if effective_lifecycle_end_ms m run = None
                then label @ '' '' @ em_dash @ '' '' @ line else label
            | None \<Rightarrow> label)
      in if show_duration_suffix then append_run_duration m run now_ms label else label)"

definition dispatch_parent_run :: "domain_model \<Rightarrow> run_id \<Rightarrow> task_run option" where
  "dispatch_parent_run m child =
     first_of (sort_key (\<lambda>p. (ordinal_get (tr_display_ordinal p), tr_run_id p))
       (filter_map (\<lambda>e. get_task_run m (ee_parent_run_id e))
         (filter (\<lambda>e. ee_child_run_id e = child) (dm_execution_edges m))))"

definition dispatch_parent_label :: "domain_model \<Rightarrow> task_run \<Rightarrow> string" where
  "dispatch_parent_label m parent =
     opt_unwrap_or (worker_kind_label parent)
       (opt_or (stable_run_kind m (tr_run_id parent)) (map_option safe_text (tr_subject parent)))"

definition append_task_run_annotations ::
  "domain_model \<Rightarrow> task_run \<Rightarrow> string \<Rightarrow> bool \<Rightarrow> bool \<Rightarrow> string" where
  "append_task_run_annotations m run label shared show_dispatch_parent =
     (let label = (if shared then label @ '' [shared]'' else label)
      in case dispatch_parent_run m (tr_run_id run) of
           Some parent \<Rightarrow> if show_dispatch_parent
             then label @ '' [dispatched by: '' @ dispatch_parent_label m parent @ '']'' else label
         | None \<Rightarrow> label)"

definition task_run_label ::
  "domain_model \<Rightarrow> task_run \<Rightarrow> display_status \<Rightarrow> bool \<Rightarrow> i64 \<Rightarrow> bool \<Rightarrow> string" where
  "task_run_label m run status shared now_ms show_duration_suffix =
     (let label = run_row_head m run status;
          label = (if show_duration_suffix then append_run_duration m run now_ms label else label)
      in append_task_run_annotations m run label shared True)"

definition task_run_label_for_placement ::
  "domain_model \<Rightarrow> task_run \<Rightarrow> bool \<Rightarrow> i64 \<Rightarrow> agent_node option \<Rightarrow> bool \<Rightarrow> (run_id, string) hmap
     \<Rightarrow> display_status \<Rightarrow> bool \<Rightarrow> string" where
  "task_run_label_for_placement m run shared now_ms newest_agent show_dispatch_parent live_lines status
      show_duration_suffix =
     append_task_run_annotations m run
       (run_row_label_with_agent m run newest_agent now_ms live_lines status show_duration_suffix)
       shared show_dispatch_parent"

definition agent_node_label ::
  "domain_model \<Rightarrow> native_alias_index \<Rightarrow> agent_node \<Rightarrow> display_status \<Rightarrow> string" where
  "agent_node_label m aliases agent status =
     status_glyph status @ '' '' @ task_display_label (ds_status status) @ '' ''
     @ provider_label (an_provider agent) @ '' native agent''
     @ (case agent_role_label m aliases agent of None \<Rightarrow> [] | Some role \<Rightarrow> '': '' @ role)
     @ (case an_model_id agent of None \<Rightarrow> [] | Some model \<Rightarrow> '' [model:'' @ safe_text model @ '']'')
     @ (case an_last_activity_at_ms agent of None \<Rightarrow> []
        | Some activity \<Rightarrow> '' [last:'' @ int_text activity @ ''ms]'')"

definition topology_row_label :: "string \<Rightarrow> string \<Rightarrow> string option \<Rightarrow> string" where
  "topology_row_label kind i name =
     (case opt_filter (\<lambda>name. name \<noteq> []) name of
        Some name \<Rightarrow> kind @ '': '' @ safe_text i @ '' ('' @ safe_text name @ '')''
      | None \<Rightarrow> kind @ '': '' @ safe_text i)"

end
