(* ===== verification/Tree_Rows.thy ===== *)
theory Tree_Rows
  imports Row_Labels Activity
begin

text \<open>
  The execution tree of \<open>src/tui/view.rs\<close>: where each visible run is placed - under the panes in
  which it executes, under the run that dispatched it, or in the unattached group - and the rows
  of workspaces, tabs, panes, runs and agent nodes in display order.
\<close>

section \<open>Placement\<close>

text \<open>\<open>StableOrder\<close> of \<open>src/tui/app.rs\<close>: the order in which executions were first seen.\<close>

record stable_order =
  so_by_id :: "(string, u64) hmap"
  so_next :: u64

definition stable_order_new :: stable_order where
  "stable_order_new = \<lparr>so_by_id = [], so_next = 0\<rparr>"

definition stable_order_adopt :: "string list \<Rightarrow> stable_order \<Rightarrow> stable_order" where
  "stable_order_adopt ids order =
     fold (\<lambda>i order. order\<lparr>so_by_id := hm_put i (so_next order) (so_by_id order),
             so_next := u64_saturating_add (so_next order) 1\<rparr>)
       (remdups_adj (sort (filter (\<lambda>i. hm_get (so_by_id order) i = None) ids))) order"

definition stable_order_get :: "stable_order \<Rightarrow> string \<Rightarrow> u64" where
  "stable_order_get order i = opt_unwrap_or u64_max (hm_get (so_by_id order) i)"

definition pane_is_renderable :: "domain_model \<Rightarrow> string \<Rightarrow> bool" where
  "pane_is_renderable m i =
     (case get_pane m i of
        None \<Rightarrow> False
      | Some pane \<Rightarrow> get_workspace m (pn_workspace_id pane) \<noteq> None
          \<and> opt_is_some_and (\<lambda>tab. tb_workspace_id tab = pn_workspace_id pane) (get_tab m (pn_tab_id pane)))"

text \<open>The loop of \<open>parent_chain_has_cycle\<close>: \<open>seen\<close> holds the runs the chain has passed.\<close>

function chain_returns :: "(run_id, run_id) hmap \<Rightarrow> run_id list \<Rightarrow> run_id \<Rightarrow> bool" where
  "chain_returns parents seen current =
     (if current \<in> set seen then True
      else case hm_get parents current of
             None \<Rightarrow> False
           | Some parent \<Rightarrow> chain_returns parents (current # seen) parent)"
  by pat_completeness auto
termination
proof (relation "measure (\<lambda>(parents, seen, current). card (set (hm_keys parents) - set seen))")
  fix parents :: "(run_id, run_id) hmap" and seen current parent
  assume "current \<notin> set seen" and "hm_get parents current = Some parent"
  then have "current \<in> set (hm_keys parents) - set seen" by (force dest: map_of_SomeD)
  then have "card (set (hm_keys parents) - set (current # seen)) < card (set (hm_keys parents) - set seen)"
    by (intro psubset_card_mono) auto
  then show "((parents, current # seen, parent), parents, seen, current)
      \<in> measure (\<lambda>(parents, seen, current). card (set (hm_keys parents) - set seen))" by simp
qed simp

definition parent_chain_has_cycle :: "run_id \<Rightarrow> (run_id, run_id) hmap \<Rightarrow> bool" where
  "parent_chain_has_cycle r parents = chain_returns parents [] r"

text \<open>\<open>entry(key).or_default().push(value)\<close>.\<close>

definition entry_push :: "'k \<Rightarrow> 'v \<Rightarrow> ('k, 'v list) hmap \<Rightarrow> ('k, 'v list) hmap" where
  "entry_push k v m = hm_put k (opt_unwrap_or [] (hm_get m k) @ [v]) m"

record run_placements =
  pl_pane_runs :: "(string, (run_id \<times> bool) list) hmap"
  pl_unplaced :: "run_id list"
  pl_candidate_parents :: "(run_id, run_id) hmap"

definition execution_rank :: "stable_order \<Rightarrow> execution \<Rightarrow> u64 \<times> string" where
  "execution_rank order e = (stable_order_get order (ex_execution_id e), ex_execution_id e)"

definition pane_push :: "string \<Rightarrow> run_id \<times> bool \<Rightarrow> run_placements \<Rightarrow> run_placements" where
  "pane_push pane placement p =
     p\<lparr>pl_pane_runs := entry_push pane placement (pl_pane_runs p)\<rparr>"

definition place_run ::
  "domain_model \<Rightarrow> stable_order \<Rightarrow> run_id list \<Rightarrow> task_run \<Rightarrow> run_placements \<Rightarrow> run_placements" where
  "place_run m order visible run p =
     (let r = tr_run_id run;
          all_executions = filter (\<lambda>e. ex_task_run_id e = r) (executions m);
          shown = sort_key (execution_rank order)
            (filter (\<lambda>e. pane_is_renderable m (ex_pane_id e)) all_executions);
          live_panes = hs_extend [] (map ex_pane_id (filter (\<lambda>e. \<not> exec_is_terminal (ex_state e)) shown))
      in if live_panes \<noteq> []
         then fold (\<lambda>pane. pane_push pane (r, 1 < length live_panes)) live_panes p
         else case last_of shown of
                Some e \<Rightarrow> pane_push (ex_pane_id e) (r, False) p
              | None \<Rightarrow>
                  let p = p\<lparr>pl_unplaced := pl_unplaced p @ [r]\<rparr>
                  in (case dispatch_parent_run m r of
                        Some parent \<Rightarrow>
                          if all_executions = [] \<and> tr_run_id parent \<in> set visible
                          then p\<lparr>pl_candidate_parents := hm_put r (tr_run_id parent) (pl_candidate_parents p)\<rparr>
                          else p
                      | None \<Rightarrow> p))"

text \<open>\<open>dedup_by_key\<close>: of neighbours with the same key the first stays.\<close>

fun dedup_by :: "('a \<Rightarrow> 'k) \<Rightarrow> 'a list \<Rightarrow> 'a list" where
  "dedup_by key [] = []"
| "dedup_by key [x] = [x]"
| "dedup_by key (x # y # xs) =
     (if key x = key y then dedup_by key (x # xs) else x # dedup_by key (y # xs))"

definition run_rank :: "domain_model \<Rightarrow> run_id \<Rightarrow> i64 \<times> run_id" where
  "run_rank m r =
     (case get_task_run m r of
        Some run \<Rightarrow> (ordinal_get (tr_display_ordinal run), tr_run_id run)
      | None \<Rightarrow> (i64_max, r))"

definition nest_or_leave ::
  "(run_id, run_id) hmap \<Rightarrow> run_id \<Rightarrow> run_id list \<times> (run_id, run_id list) hmap
     \<Rightarrow> run_id list \<times> (run_id, run_id list) hmap" where
  "nest_or_leave parents r st =
     (case st of (unattached, nested) \<Rightarrow>
        case hm_get parents r of
          Some parent \<Rightarrow>
            if \<not> parent_chain_has_cycle r parents then (unattached, list_push parent r nested)
            else (unattached @ [r], nested)
        | None \<Rightarrow> (unattached @ [r], nested))"

definition place_runs ::
  "domain_model \<Rightarrow> stable_order \<Rightarrow> run_id list
     \<Rightarrow> (string, (run_id \<times> bool) list) hmap \<times> run_id list \<times> (run_id, run_id list) hmap" where
  "place_runs m order visible =
     (let runs = sort_key tr_run_id (filter (\<lambda>run. tr_run_id run \<in> set visible) (task_runs m));
          p = fold (place_run m order visible) runs
                \<lparr>pl_pane_runs = [], pl_unplaced = [], pl_candidate_parents = []\<rparr>;
          (unattached, nested) = fold (nest_or_leave (pl_candidate_parents p)) (pl_unplaced p) ([], [])
      in (hm_map_values (\<lambda>runs. dedup_by fst (sort_key (\<lambda>(r, _). run_rank m r) runs)) (pl_pane_runs p),
          dedup_by id (sort_key (run_rank m) unattached),
          hm_map_values (\<lambda>runs. dedup_by id (sort_key (run_rank m) runs)) nested))"

section \<open>Agent rows\<close>

record run_row_context =
  rx_model :: domain_model
  rx_nested_runs :: "(run_id, run_id list) hmap"
  rx_newest_agents :: "(run_id, agent_node) hmap"
  rx_live_lines :: "(run_id, string) hmap"
  rx_stalled_runs :: "run_id list"
  rx_statuses :: status_read_model
  rx_native_aliases :: native_alias_index
  rx_now_ms :: i64

definition agent_row :: "run_row_context \<Rightarrow> string option \<Rightarrow> nat \<Rightarrow> agent_node \<Rightarrow> tree_row" where
  "agent_row cx pane depth agent =
     (let status = native_agent_display_status agent
      in \<lparr>rw_key = AgentRowKey (an_agent_node_id agent) pane, rw_depth = depth,
          rw_label = agent_node_label (rx_model cx) (rx_native_aliases cx) agent status,
          rw_label_without_duration_suffix = None, rw_display_status = Some status,
          rw_prerequisites = [], rw_dependents = []\<rparr>)"

text \<open>
  \<open>append_agent_subtree\<close> for each agent of a list: its row, then its children, then the rest of the
  list. The set of visited agents is threaded through, so the recursion ends even where the
  parent links form a cycle.
\<close>

function append_agents ::
  "run_row_context \<Rightarrow> (string, agent_node list) hmap \<Rightarrow> string option \<Rightarrow> nat \<Rightarrow> string list
     \<Rightarrow> agent_node list \<Rightarrow> tree_row list \<times> string list" where
  "append_agents cx children pane depth visited [] = ([], visited)"
| "append_agents cx children pane depth visited (agent # agents) =
     (if an_agent_node_id agent \<in> set visited then append_agents cx children pane depth visited agents
      else case append_agents cx children pane (depth + 1) (hs_insert (an_agent_node_id agent) visited)
             (opt_unwrap_or [] (hm_get children (an_agent_node_id agent))) of
             (below, visited') \<Rightarrow>
               (case append_agents cx children pane depth visited' agents of
                  (later, visited'') \<Rightarrow> (agent_row cx pane depth agent # below @ later, visited'')))"
  by pat_completeness auto

lemma append_agents_visited:
  "append_agents_dom (cx, children, pane, depth, visited, agents) \<Longrightarrow>
     set visited \<subseteq> set (snd (append_agents cx children pane depth visited agents))"
proof (induction rule: append_agents.pinduct)
  case (1 cx children pane depth visited)
  then show ?case by (simp add: append_agents.psimps)
next
  case (2 cx children pane depth visited agent agents)
  then show ?case
    by (cases "an_agent_node_id agent \<in> set visited")
      (fastforce simp: append_agents.psimps split: prod.splits)+
qed

definition agent_ids :: "(string, agent_node list) hmap \<Rightarrow> string set" where
  "agent_ids children = (\<Union>as \<in> set (hm_values children). an_agent_node_id ` set as)"

termination append_agents
proof (relation "(\<lambda>(cx, children, pane, depth, visited, agents).
      card ((agent_ids children \<union> an_agent_node_id ` set agents) - set visited)) <*mlex*>
    measure (\<lambda>(cx, children, pane, depth, visited, agents). length agents)")
  show "wf ((\<lambda>(cx, children, pane, depth, visited, agents).
      card ((agent_ids children \<union> an_agent_node_id ` set agents) - set visited)) <*mlex*>
    measure (\<lambda>(cx, children, pane, depth, visited, agents). length agents))"
    by (intro wf_mlex wf_measure)
next
  fix cx :: run_row_context and children :: "(string, agent_node list) hmap" and pane :: "string option" and depth :: nat
    and visited :: "string list" and agent :: agent_node and agents
  have fin: "finite (agent_ids children)" by (simp add: agent_ids_def)
  show "((cx, children, pane, depth, visited, agents), (cx, children, pane, depth, visited, agent # agents))
      \<in> (\<lambda>(cx, children, pane, depth, visited, agents).
        card ((agent_ids children \<union> an_agent_node_id ` set agents) - set visited)) <*mlex*>
      measure (\<lambda>(cx, children, pane, depth, visited, agents). length agents)"
    using fin by (intro mlex_leq) (auto intro!: card_mono)
  assume new: "an_agent_node_id agent \<notin> set visited"
  let ?kids = "opt_unwrap_or [] (hm_get children (an_agent_node_id agent))"
  have kids: "an_agent_node_id ` set ?kids \<subseteq> agent_ids children"
    by (cases "hm_get children (an_agent_node_id agent)") (force simp: agent_ids_def dest: map_of_SomeD)+
  have "card ((agent_ids children \<union> an_agent_node_id ` set ?kids) - set (hs_insert (an_agent_node_id agent) visited))
      < card ((agent_ids children \<union> an_agent_node_id ` set (agent # agents)) - set visited)"
    using fin kids new by (intro psubset_card_mono) auto
  then show "((cx, children, pane, depth + 1, hs_insert (an_agent_node_id agent) visited, ?kids),
        (cx, children, pane, depth, visited, agent # agents))
      \<in> (\<lambda>(cx, children, pane, depth, visited, agents).
        card ((agent_ids children \<union> an_agent_node_id ` set agents) - set visited)) <*mlex*>
      measure (\<lambda>(cx, children, pane, depth, visited, agents). length agents)"
    by (intro mlex_less) simp
  fix below visited'
  assume "(below, visited') = append_agents cx children pane (depth + 1)
      (hs_insert (an_agent_node_id agent) visited) ?kids"
    and "append_agents_dom (cx, children, pane, depth + 1, hs_insert (an_agent_node_id agent) visited, ?kids)"
  then have "set visited \<subseteq> set visited'"
    using append_agents_visited [of cx children pane "depth + 1" "hs_insert (an_agent_node_id agent) visited" ?kids]
    by (metis (no_types, lifting) dual_order.trans hs_insert_set snd_conv subset_insertI)
  then show "((cx, children, pane, depth, visited', agents), (cx, children, pane, depth, visited, agent # agents))
      \<in> (\<lambda>(cx, children, pane, depth, visited, agents).
        card ((agent_ids children \<union> an_agent_node_id ` set agents) - set visited)) <*mlex*>
      measure (\<lambda>(cx, children, pane, depth, visited, agents). length agents)"
    using fin by (intro mlex_leq) (auto intro!: card_mono)
qed

text \<open>
  The agents of a run: a child whose parent is not shown is a root. Only the keys of \<open>by_id\<close> are
  used.
\<close>

definition sort_agents :: "agent_node list \<Rightarrow> agent_node list" where
  "sort_agents agents =
     sort_key (\<lambda>a. (ordinal_get (an_display_ordinal a), an_agent_node_id a)) agents"

definition append_agent_rows ::
  "run_row_context \<Rightarrow> agent_node list \<Rightarrow> string option \<Rightarrow> nat \<Rightarrow> tree_row list" where
  "append_agent_rows cx agents pane depth =
     (let ids = map an_agent_node_id agents;
          (children, roots) = fold (\<lambda>agent (children, roots).
              case an_parent_agent_node_id agent of
                Some parent \<Rightarrow> if parent \<in> set ids then (entry_push parent agent children, roots)
                  else (children, roots @ [agent])
              | None \<Rightarrow> (children, roots @ [agent])) agents ([], [])
      in fst (append_agents cx (hm_map_values sort_agents children) pane depth [] (sort_agents roots)))"

section \<open>Stalled runs\<close>

text \<open>\<open>has_active_descendant\<close>: a stack of descendants; the set holds what was popped before.\<close>

function active_below ::
  "(run_id, run_id list) hmap \<Rightarrow> run_id list \<Rightarrow> run_id list \<Rightarrow> run_id list \<Rightarrow> bool" where
  "active_below children active visited [] = False"
| "active_below children active visited (descendant # pending) =
     (if descendant \<in> set visited then active_below children active visited pending
      else if descendant \<in> set active then True
      else active_below children active (hs_insert descendant visited)
             (rev (listed children descendant) @ pending))"
  by pat_completeness auto
termination
proof (relation "(\<lambda>(children, active, visited, pending).
      card ((entries_of children \<union> set pending) - set visited)) <*mlex*>
    measure (\<lambda>(children, active, visited, pending). length pending)")
  show "wf ((\<lambda>(children, active, visited, pending).
      card ((entries_of children \<union> set pending) - set visited)) <*mlex*>
    measure (\<lambda>(children, active, visited, pending). length pending))"
    by (intro wf_mlex wf_measure)
next
  fix children :: "(run_id, run_id list) hmap" and active visited descendant pending
  show "((children, active, visited, pending), (children, active, visited, descendant # pending))
      \<in> (\<lambda>(children, active, visited, pending).
        card ((entries_of children \<union> set pending) - set visited)) <*mlex*>
      measure (\<lambda>(children, active, visited, pending). length pending)"
    by (intro mlex_leq) (auto intro!: card_mono)
  assume new: "descendant \<notin> set visited"
  have "card ((entries_of children \<union> set (rev (listed children descendant) @ pending))
        - set (hs_insert descendant visited))
      < card ((entries_of children \<union> set (descendant # pending)) - set visited)"
    using listed_entries [of children descendant] new by (intro psubset_card_mono) auto
  then show "((children, active, hs_insert descendant visited, rev (listed children descendant) @ pending),
        (children, active, visited, descendant # pending))
      \<in> (\<lambda>(children, active, visited, pending).
        card ((entries_of children \<union> set pending) - set visited)) <*mlex*>
      measure (\<lambda>(children, active, visited, pending). length pending)"
    by (intro mlex_less) simp
qed

definition has_active_descendant ::
  "run_id \<Rightarrow> (run_id, run_id list) hmap \<Rightarrow> run_id list \<Rightarrow> bool" where
  "has_active_descendant r children active = active_below children active [r] (rev (listed children r))"

definition last_activity_ms :: "task_run \<Rightarrow> i64 option" where
  "last_activity_ms run = opt_or (tr_updated_at_ms run) (tr_created_at_ms run)"

definition execution_children :: "domain_model \<Rightarrow> (run_id, run_id list) hmap" where
  "execution_children m =
     fold (\<lambda>e children.
         if get_task_run m (ee_parent_run_id e) \<noteq> None \<and> get_task_run m (ee_child_run_id e) \<noteq> None
         then list_push (ee_parent_run_id e) (ee_child_run_id e) children else children)
       (dm_execution_edges m) []"

definition stalled_run_ids :: "domain_model \<Rightarrow> i64 \<Rightarrow> i64 \<Rightarrow> run_id list" where
  "stalled_run_ids m now_ms stall_warn_ms =
     (let live = filter (\<lambda>run. effective_lifecycle_end_ms m run = None) (task_runs m);
          active = map tr_run_id (filter (\<lambda>run. opt_is_some_and
            (\<lambda>last. now_ms < i64_saturating_add last stall_warn_ms) (last_activity_ms run)) live);
          children = execution_children m
      in map tr_run_id (filter (\<lambda>run. \<not> has_active_descendant (tr_run_id run) children active)
           (filter (\<lambda>run. opt_is_some_and
             (\<lambda>last. i64_saturating_add last stall_warn_ms \<le> now_ms) (last_activity_ms run)) live)))"

section \<open>Run rows\<close>

definition run_row ::
  "run_row_context \<Rightarrow> run_id \<Rightarrow> task_run \<Rightarrow> bool \<Rightarrow> string option \<Rightarrow> nat \<Rightarrow> bool \<Rightarrow> tree_row" where
  "run_row cx r run shared pane depth show_dispatch_parent =
     (let status = task_display_status (rx_statuses cx) (rx_model cx) run pane (r \<in> set (rx_stalled_runs cx));
          label = task_run_label_for_placement (rx_model cx) run shared (rx_now_ms cx)
            (hm_get (rx_newest_agents cx) r) show_dispatch_parent (rx_live_lines cx) status
      in \<lparr>rw_key = RunRowKey r pane, rw_depth = depth, rw_label = label True,
          rw_label_without_duration_suffix = Some (label False), rw_display_status = Some status,
          rw_prerequisites = [], rw_dependents = []\<rparr>)"

definition shown_agents :: "display_timing \<Rightarrow> run_row_context \<Rightarrow> run_id \<Rightarrow> task_run \<Rightarrow> agent_node list" where
  "shown_agents timing cx r run =
     filter (\<lambda>agent. opt_is_none_or (\<lambda>p. p = an_provider agent) (provider_from_key (tr_key run)))
       (filter (\<lambda>agent. \<not> agent_node_is_display_stale timing agent (rx_now_ms cx))
         (filter (\<lambda>agent. \<not> is_live_line agent)
           (filter (\<lambda>agent. an_parent_agent_node_id agent \<noteq> None)
             (filter (\<lambda>agent. an_task_run_id agent = r) (agent_nodes (rx_model cx))))))"

text \<open>
  \<open>append_run_subtree\<close> and the loop over its nested runs. \<open>ancestors\<close> is the set the code inserts a run
  into on entry and removes it from on exit; \<open>expanded\<close> is threaded through.
\<close>

function append_run_subtree ::
  "display_timing \<Rightarrow> run_row_context \<Rightarrow> run_id list \<Rightarrow> run_id \<times> bool \<Rightarrow> string option \<Rightarrow> nat \<Rightarrow> bool
     \<Rightarrow> run_id list \<Rightarrow> tree_row list \<times> run_id list"
and append_nested_runs ::
  "display_timing \<Rightarrow> run_row_context \<Rightarrow> run_id list \<Rightarrow> run_id list \<Rightarrow> nat \<Rightarrow> run_id list
     \<Rightarrow> tree_row list \<times> run_id list" where
  "append_run_subtree timing cx ancestors (r, shared) pane depth show_dispatch_parent expanded =
     (if r \<in> set ancestors then ([], expanded)
      else case get_task_run (rx_model cx) r of
             None \<Rightarrow> ([], expanded)
           | Some run \<Rightarrow>
               let rows = run_row cx r run shared pane depth show_dispatch_parent
                     # append_agent_rows cx (shown_agents timing cx r run) pane (depth + 1);
                   expand = (\<not> shared \<or> r \<notin> set expanded);
                   expanded = (if shared then hs_insert r expanded else expanded)
               in case (if expand then hm_get (rx_nested_runs cx) r else None) of
                    None \<Rightarrow> (rows, expanded)
                  | Some children \<Rightarrow>
                      (case append_nested_runs timing cx (r # ancestors) children (depth + 1) expanded of
                         (below, expanded) \<Rightarrow> (rows @ below, expanded)))"
| "append_nested_runs timing cx ancestors [] depth expanded = ([], expanded)"
| "append_nested_runs timing cx ancestors (child # children) depth expanded =
     (case append_run_subtree timing cx ancestors (child, False) None depth False expanded of
        (rows, expanded) \<Rightarrow>
          (case append_nested_runs timing cx ancestors children depth expanded of
             (later, expanded) \<Rightarrow> (rows @ later, expanded)))"
  by pat_completeness auto
termination
proof (relation "(\<lambda>x. case x of
        Inl (timing, cx, ancestors, placement, pane, depth, show_dispatch_parent, expanded) \<Rightarrow>
          card (set (hm_keys (dm_task_runs (rx_model cx))) - set ancestors)
      | Inr (timing, cx, ancestors, children, depth, expanded) \<Rightarrow>
          card (set (hm_keys (dm_task_runs (rx_model cx))) - set ancestors)) <*mlex*>
    measure (\<lambda>x. case x of Inl _ \<Rightarrow> 0
      | Inr (timing, cx, ancestors, children, depth, expanded) \<Rightarrow> Suc (length children))", goal_cases)
  case 1
  show ?case by (intro wf_mlex wf_measure)
next
  case (2 timing cx ancestors r shared pane depth show_dispatch_parent expanded run)
  then have "r \<in> set (hm_keys (dm_task_runs (rx_model cx))) - set ancestors"
    by (force simp: get_task_run_def dest: map_of_SomeD)
  then have "card (set (hm_keys (dm_task_runs (rx_model cx))) - set (r # ancestors))
      < card (set (hm_keys (dm_task_runs (rx_model cx))) - set ancestors)"
    by (intro psubset_card_mono) auto
  then show ?case by (intro mlex_less) simp
qed (auto intro: mlex_leq)

definition append_run_rows ::
  "display_timing \<Rightarrow> run_row_context \<Rightarrow> (run_id \<times> bool) list \<Rightarrow> string option \<Rightarrow> nat
     \<Rightarrow> tree_row list \<times> run_id list \<Rightarrow> tree_row list \<times> run_id list" where
  "append_run_rows timing cx runs pane depth st =
     fold (\<lambda>placement (rows, expanded).
         case append_run_subtree timing cx [] placement pane depth (pane \<noteq> None) expanded of
           (new, expanded) \<Rightarrow> (rows @ new, expanded)) runs st"

section \<open>The whole tree\<close>

definition plain_row :: "node_key \<Rightarrow> nat \<Rightarrow> string \<Rightarrow> tree_row" where
  "plain_row key depth label =
     \<lparr>rw_key = key, rw_depth = depth, rw_label = label, rw_label_without_duration_suffix = None,
      rw_display_status = None, rw_prerequisites = [], rw_dependents = []\<rparr>"

definition topology_rank :: "domain_model \<Rightarrow> topology_kind \<Rightarrow> string \<Rightarrow> i64 \<times> string" where
  "topology_rank m kind i =
     (opt_unwrap_or i64_max (map_option ordinal_get (topology_ordinal m kind i)), i)"

record tree_state =
  ts_rows :: "tree_row list"
  ts_pane_runs :: "(string, (run_id \<times> bool) list) hmap"
  ts_expanded :: "run_id list"

definition append_pane :: "display_timing \<Rightarrow> run_row_context \<Rightarrow> pane \<Rightarrow> tree_state \<Rightarrow> tree_state" where
  "append_pane timing cx pane ts =
     (let i = pn_pane_id pane;
          rows = ts_rows ts @ [plain_row (PaneKey i) 3 (topology_row_label ''Pane'' i (pn_display_name pane))]
      in case hm_get (ts_pane_runs ts) i of
           None \<Rightarrow> ts\<lparr>ts_rows := rows\<rparr>
         | Some runs \<Rightarrow>
             (case append_run_rows timing cx runs (Some i) 4 (rows, ts_expanded ts) of
                (rows, expanded) \<Rightarrow>
                  \<lparr>ts_rows = rows, ts_pane_runs = hm_del i (ts_pane_runs ts), ts_expanded = expanded\<rparr>))"

definition append_tab :: "display_timing \<Rightarrow> run_row_context \<Rightarrow> string \<Rightarrow> tab \<Rightarrow> tree_state \<Rightarrow> tree_state" where
  "append_tab timing cx workspace tab ts =
     (let m = rx_model cx; i = tb_tab_id tab;
          ts = ts\<lparr>ts_rows := ts_rows ts @ [plain_row (TabKey i) 2 (topology_row_label ''Tab'' i (tb_label tab))]\<rparr>
      in fold (append_pane timing cx)
           (sort_key (\<lambda>p. topology_rank m KindPane (pn_pane_id p))
             (filter (\<lambda>p. pn_workspace_id p = workspace \<and> pn_tab_id p = i) (hm_values (dm_panes m)))) ts)"

definition append_workspace ::
  "display_timing \<Rightarrow> run_row_context \<Rightarrow> workspace \<Rightarrow> tree_state \<Rightarrow> tree_state" where
  "append_workspace timing cx workspace ts =
     (let m = rx_model cx; i = ws_workspace_id workspace;
          ts = ts\<lparr>ts_rows := ts_rows ts @ [plain_row (WorkspaceKey i) 1 (''Workspace: '' @ safe_text i)]\<rparr>
      in fold (append_tab timing cx i)
           (sort_key (\<lambda>t. topology_rank m KindTab (tb_tab_id t))
             (filter (\<lambda>t. tb_workspace_id t = i) (hm_values (dm_tabs m)))) ts)"

definition append_execution_tree_rows ::
  "display_timing \<Rightarrow> domain_model \<Rightarrow> stable_order \<Rightarrow> i64 \<Rightarrow> (run_id, agent_node) hmap
     \<Rightarrow> status_read_model \<Rightarrow> run_id list \<Rightarrow> tree_row list \<Rightarrow> tree_row list" where
  "append_execution_tree_rows timing m order now_ms newest_agents statuses visible rows =
     (case place_runs m order visible of
        (pane_runs, unattached, nested) \<Rightarrow>
          let cx = \<lparr>rx_model = m, rx_nested_runs = nested, rx_newest_agents = newest_agents,
                rx_live_lines = live_lines_from_model m,
                rx_stalled_runs = stalled_run_ids m now_ms (dt_stall_warn_ms timing),
                rx_statuses = statuses, rx_native_aliases = native_alias_index_from_model m,
                rx_now_ms = now_ms\<rparr>;
              ts = fold (append_workspace timing cx)
                (sort_key (\<lambda>w. topology_rank m KindWorkspace (ws_workspace_id w)) (hm_values (dm_workspaces m)))
                \<lparr>ts_rows = rows, ts_pane_runs = pane_runs, ts_expanded = []\<rparr>
          in if unattached = [] then ts_rows ts
             else fst (append_run_rows timing cx (map (\<lambda>r. (r, False)) unattached) None 2
                    (ts_rows ts @ [plain_row UnattachedGroup 1 ''Unattached Task Runs''], ts_expanded ts)))"

definition build_tree_rows_with_statuses ::
  "display_timing \<Rightarrow> domain_model \<Rightarrow> stable_order \<Rightarrow> string \<Rightarrow> i64 \<Rightarrow> (run_id, agent_node) hmap
     \<Rightarrow> status_read_model \<Rightarrow> run_id list \<Rightarrow> tree_row list" where
  "build_tree_rows_with_statuses timing m order session_name now_ms newest_agents statuses visible =
     append_execution_tree_rows timing m order now_ms newest_agents statuses visible
       [plain_row SessionKey 0 (''Session: '' @ session_name)]"

end
