(* ===== verification/Dag_Order.thy ===== *)
theory Dag_Order
  imports Cycles Worklist
begin

text \<open>
  The dependency order of \<open>src/tui/dag.rs\<close>. \<open>recompute\<close> sorts the task runs topologically along the
  dependency edges; among the runs that are ready it prefers the position a run had in the order
  displayed before, then the display ordinal. A run that is new inherits the earliest position of
  the runs that depend on it, so that a new prerequisite appears where it is needed. Runs on a
  cycle and behind one are appended.
\<close>

section \<open>The order\<close>

record dag_order =
  do_run_ids :: "run_id list"
  do_previous_positions :: "(run_id, nat) hmap"
  do_cycle_fallbacks :: u64

definition dag_order_new :: dag_order where
  "dag_order_new = \<lparr>do_run_ids = [], do_previous_positions = [], do_cycle_fallbacks = 0\<rparr>"

text \<open>\<open>usize::MAX\<close> on the 64-bit targets of the program.\<close>

definition usize_max :: nat where "usize_max = u64_max"

definition run_ordinals :: "domain_model \<Rightarrow> (run_id, i64) hmap" where
  "run_ordinals m =
     fold (\<lambda>run. hm_put (tr_run_id run) (ordinal_get (tr_display_ordinal run))) (task_runs m) []"

record dag_graph =
  dg_outgoing :: "(run_id, run_id list) hmap"
  dg_reverse :: "(run_id, run_id list) hmap"
  dg_indegree :: "(run_id, nat) hmap"

definition link_dependency :: "run_id list \<Rightarrow> dependency_edge \<Rightarrow> dag_graph \<Rightarrow> dag_graph" where
  "link_dependency nodes e g =
     (if de_prerequisite_run_id e \<notin> set nodes \<or> de_dependent_run_id e \<notin> set nodes then g
      else g\<lparr>dg_outgoing := list_push (de_prerequisite_run_id e) (de_dependent_run_id e) (dg_outgoing g),
             dg_reverse := list_push (de_dependent_run_id e) (de_prerequisite_run_id e) (dg_reverse g),
             dg_indegree := hm_put (de_dependent_run_id e)
               (opt_unwrap_or 0 (hm_get (dg_indegree g) (de_dependent_run_id e)) + 1) (dg_indegree g)\<rparr>)"

definition dag_graph_of :: "run_id list \<Rightarrow> dependency_edge list \<Rightarrow> dag_graph" where
  "dag_graph_of nodes edges =
     fold (link_dependency nodes) edges
       \<lparr>dg_outgoing = map (\<lambda>r. (r, [])) nodes, dg_reverse = map (\<lambda>r. (r, [])) nodes,
        dg_indegree = map (\<lambda>r. (r, 0)) nodes\<rparr>"

text \<open>The runs that had a position, in the order they are visited.\<close>

definition seed_positions ::
  "(run_id, nat) hmap \<Rightarrow> run_id list \<Rightarrow> (run_id, nat) hmap \<times> run_id list" where
  "seed_positions previous nodes =
     fold (\<lambda>r (inherited, queue).
         case hm_get previous r of
           None \<Rightarrow> (inherited, queue)
         | Some position \<Rightarrow> (hm_put r position inherited, queue @ [r])) nodes ([], [])"

definition lift_prerequisite ::
  "nat \<Rightarrow> run_id \<Rightarrow> (run_id, nat) hmap \<times> run_id list \<Rightarrow> (run_id, nat) hmap \<times> run_id list" where
  "lift_prerequisite position prerequisite st =
     (case st of (inherited, queue) \<Rightarrow>
        if position < opt_unwrap_or usize_max (hm_get inherited prerequisite)
        then (hm_put prerequisite position inherited, queue @ [prerequisite])
        else (inherited, queue))"

text \<open>What a run has inherited so far; the sum of it bounds the propagation.\<close>

definition position_in :: "(run_id, nat) hmap \<Rightarrow> run_id \<Rightarrow> nat" where
  "position_in inherited r = opt_unwrap_or usize_max (hm_get inherited r)"

lemma position_in_put [simp]:
  "position_in (hm_put r p inherited) r' = (if r' = r then p else position_in inherited r')"
  by (simp add: position_in_def)

lemma lift_measure:
  assumes "finite S" and "set ns \<subseteq> S"
    and "fold (lift_prerequisite p) ns (inherited, queue) = (inherited', queue')"
  shows "sum (position_in inherited') S + length queue' \<le> sum (position_in inherited) S + length queue"
  using assms(2,3)
proof (induction ns arbitrary: inherited queue)
  case (Cons n ns)
  show ?case
  proof (cases "p < position_in inherited n")
    case True
    have "sum (position_in (hm_put n p inherited)) S < sum (position_in inherited) S"
      using Cons.prems(1) True assms(1) by (intro sum_strict_mono_ex1) auto
    moreover have "sum (position_in inherited') S + length queue'
        \<le> sum (position_in (hm_put n p inherited)) S + length (queue @ [n])"
      using Cons.prems True by (intro Cons.IH) (simp_all add: lift_prerequisite_def position_in_def)
    ultimately show ?thesis by simp
  next
    case False
    with Cons show ?thesis by (simp add: lift_prerequisite_def position_in_def)
  qed
qed simp

function propagate_positions ::
  "(run_id, run_id list) hmap \<Rightarrow> (run_id, nat) hmap \<Rightarrow> run_id list \<Rightarrow> (run_id, nat) hmap" where
  "propagate_positions reverse inherited [] = inherited"
| "propagate_positions reverse inherited (dependent # queue) =
     (case fold (lift_prerequisite (opt_unwrap_or usize_max (hm_get inherited dependent)))
          (listed reverse dependent) (inherited, queue) of
        (inherited', queue') \<Rightarrow> propagate_positions reverse inherited' queue')"
  by pat_completeness auto
termination
  by (relation "measure (\<lambda>(reverse, inherited, queue).
        sum (position_in inherited) (entries_of reverse) + length queue)")
    (auto simp: less_Suc_eq_le intro!: lift_measure [OF finite_entries listed_entries] split: prod.split)

definition effective_positions ::
  "(run_id, nat) hmap \<Rightarrow> (run_id, nat) hmap \<Rightarrow> run_id list \<Rightarrow> (run_id, nat) hmap" where
  "effective_positions previous inherited nodes =
     map (\<lambda>r. (r, case hm_get previous r of Some position \<Rightarrow> position
                   | None \<Rightarrow> opt_unwrap_or usize_max (hm_get inherited r))) nodes"

type_synonym dag_key = "nat \<times> i64 \<times> run_id"

definition order_key :: "(run_id, nat) hmap \<Rightarrow> (run_id, i64) hmap \<Rightarrow> run_id \<Rightarrow> dag_key" where
  "order_key positions ordinals r =
     (opt_unwrap_or usize_max (hm_get positions r), opt_unwrap_or 0 (hm_get ordinals r), r)"

text \<open>
  The heap of ready runs is the sorted list of them: \<open>push\<close> inserts by key and \<open>pop\<close> takes the
  first.
\<close>

definition release_dependent ::
  "(run_id \<Rightarrow> dag_key) \<Rightarrow> run_id \<Rightarrow> (run_id, nat) hmap \<times> run_id list
     \<Rightarrow> (run_id, nat) hmap \<times> run_id list" where
  "release_dependent key dependent st =
     (case st of (indegree, ready) \<Rightarrow>
        let remaining = opt_unwrap_or 0 (hm_get indegree dependent) - 1
        in (hm_put dependent remaining indegree,
            if remaining = 0 then insort_key key dependent ready else ready))"

partial_function (option) emit_ready ::
  "(run_id \<Rightarrow> dag_key) \<Rightarrow> (run_id, run_id list) hmap \<Rightarrow> (run_id, nat) hmap \<Rightarrow> run_id list
     \<Rightarrow> run_id list \<Rightarrow> run_id list option" where
  "emit_ready key outgoing indegree ready ordered =
     (case ready of
        [] \<Rightarrow> Some ordered
      | r # rest \<Rightarrow>
          (case fold (release_dependent key) (listed outgoing r) (indegree, rest) of
             (indegree', ready') \<Rightarrow> emit_ready key outgoing indegree' ready' (ordered @ [r])))"

definition dag_key_of :: "domain_model \<Rightarrow> dag_order \<Rightarrow> run_id \<Rightarrow> dag_key" where
  "dag_key_of m order =
     (let ordinals = run_ordinals m;
          nodes = hm_keys ordinals;
          g = dag_graph_of nodes (dm_dependency_edges m);
          (seeded, queue) = seed_positions (do_previous_positions order) nodes;
          inherited = propagate_positions (dg_reverse g) seeded queue
      in order_key (effective_positions (do_previous_positions order) inherited nodes) ordinals)"

definition recompute :: "domain_model \<Rightarrow> dag_order \<Rightarrow> dag_order option" where
  "recompute m order =
     (let nodes = hm_keys (run_ordinals m);
          g = dag_graph_of nodes (dm_dependency_edges m);
          key = dag_key_of m order;
          ready = fold (insort_key key)
            (filter (\<lambda>r. hm_get (dg_indegree g) r = Some 0) nodes) []
      in case emit_ready key (dg_outgoing g) (dg_indegree g) ready [] of
           None \<Rightarrow> None
         | Some emitted \<Rightarrow>
             let ordered = (if length emitted \<noteq> length nodes
                   then emitted @ sort_key key (filter (\<lambda>r. r \<notin> set emitted) nodes) else emitted);
                 fallbacks = (if length emitted \<noteq> length nodes
                   then u64_saturating_add (do_cycle_fallbacks order) 1 else do_cycle_fallbacks order)
             in Some \<lparr>do_run_ids = ordered,
                      do_previous_positions = zip ordered [0..<length ordered],
                      do_cycle_fallbacks = fallbacks\<rparr>)"

section \<open>Matches and their prerequisites\<close>

definition known_prerequisites ::
  "(run_id \<Rightarrow> bool) \<Rightarrow> domain_model \<Rightarrow> (run_id, run_id list) hmap" where
  "known_prerequisites shown m =
     fold (\<lambda>e reverse.
         if shown (de_prerequisite_run_id e) \<and> shown (de_dependent_run_id e)
            \<and> get_task_run m (de_prerequisite_run_id e) \<noteq> None
            \<and> get_task_run m (de_dependent_run_id e) \<noteq> None
         then list_push (de_dependent_run_id e) (de_prerequisite_run_id e) reverse
         else reverse) (dm_dependency_edges m) []"

definition retain_matches_with_prerequisites ::
  "domain_model \<Rightarrow> run_id list \<Rightarrow> run_id list \<Rightarrow> run_id list" where
  "retain_matches_with_prerequisites m stable_order direct_matches =
     (let retained = retain_loop (known_prerequisites (\<lambda>_. True) m) direct_matches direct_matches
      in filter (\<lambda>r. r \<in> set retained) stable_order)"

end
