(* ===== verification/Projection.thy ===== *)
theory Projection
  imports Tree_Rows Dag_Order
begin

text \<open>
  The rows that are displayed (\<open>src/tui/projection.rs\<close> and the rows of \<open>src/tui/dag.rs\<close>): search,
  collapsing, and the deadline at which the projection has to be made again. The text of a run
  identifier and the lower-casing of Unicode text belong to other libraries; they are the fields
  of \<open>text_env\<close>.
\<close>

record text_env =
  te_run_text :: "run_id \<Rightarrow> string"
  te_lowercase :: "string \<Rightarrow> string"

section \<open>Rows of the dependency view\<close>

text \<open>\<open>build_rows_with_statuses_visible\<close>: the neighbours of each run along the dependency edges.\<close>

definition note_dependency ::
  "domain_model \<Rightarrow> dependency_edge
     \<Rightarrow> (run_id, run_id list) hmap \<times> (run_id, run_id list) hmap
     \<Rightarrow> (run_id, run_id list) hmap \<times> (run_id, run_id list) hmap" where
  "note_dependency m e st =
     (case st of (prerequisites, dependents) \<Rightarrow>
        if get_task_run m (de_prerequisite_run_id e) = None \<or> get_task_run m (de_dependent_run_id e) = None
        then (prerequisites, dependents)
        else (list_push (de_dependent_run_id e) (de_prerequisite_run_id e) prerequisites,
              list_push (de_prerequisite_run_id e) (de_dependent_run_id e) dependents))"

definition neighbor_names ::
  "text_env \<Rightarrow> domain_model \<Rightarrow> run_id list \<Rightarrow> run_id list option \<Rightarrow> string list" where
  "neighbor_names te m visible run_ids =
     map (short_run_name (te_run_text te))
       (sort_key (\<lambda>run. (ordinal_get (tr_display_ordinal run), tr_run_id run))
         (filter_map (get_task_run m)
           (filter (\<lambda>r. r \<in> set visible) (opt_unwrap_or [] run_ids))))"

definition dag_row ::
  "text_env \<Rightarrow> domain_model \<Rightarrow> i64 \<Rightarrow> status_read_model \<Rightarrow> run_id list \<Rightarrow> run_id list
     \<Rightarrow> (run_id, run_id list) hmap \<Rightarrow> (run_id, run_id list) hmap \<Rightarrow> task_run \<Rightarrow> tree_row" where
  "dag_row te m now_ms statuses visible stalled prerequisites dependents run =
     (let status = task_display_status statuses m run None (tr_run_id run \<in> set stalled)
      in \<lparr>rw_key = RunRowKey (tr_run_id run) None, rw_depth = 0,
          rw_label = task_run_label m run status False now_ms True,
          rw_label_without_duration_suffix = None, rw_display_status = Some status,
          rw_prerequisites = neighbor_names te m visible (hm_get prerequisites (tr_run_id run)),
          rw_dependents = neighbor_names te m visible (hm_get dependents (tr_run_id run))\<rparr>)"

definition build_rows_with_statuses_visible ::
  "text_env \<Rightarrow> display_timing \<Rightarrow> domain_model \<Rightarrow> dag_order \<Rightarrow> i64 \<Rightarrow> status_read_model \<Rightarrow> run_id list
     \<Rightarrow> tree_row list" where
  "build_rows_with_statuses_visible te timing m order now_ms statuses visible =
     (let stalled = stalled_run_ids m now_ms (dt_stall_warn_ms timing);
          (prerequisites, dependents) = fold (note_dependency m) (dm_dependency_edges m) ([], [])
      in filter (\<lambda>row. case rw_key row of
             AgentRowKey i _ \<Rightarrow> opt_is_none_or
               (\<lambda>agent. \<not> agent_node_is_display_stale timing agent now_ms) (get_agent_node m i)
           | _ \<Rightarrow> True)
         (map (dag_row te m now_ms statuses visible stalled prerequisites dependents)
           (filter_map (get_task_run m) (filter (\<lambda>r. r \<in> set visible) (do_run_ids order)))))"

section \<open>Deadlines\<close>

definition min_expiry :: "i64 option \<Rightarrow> i64 option \<Rightarrow> i64 option" where
  "min_expiry left right =
     (case (left, right) of
        (Some left, Some right) \<Rightarrow> Some (min left right)
      | (Some expiry, None) \<Rightarrow> Some expiry
      | (None, Some expiry) \<Rightarrow> Some expiry
      | (None, None) \<Rightarrow> None)"

text \<open>\<open>Iterator::min\<close>.\<close>

definition least_of :: "i64 list \<Rightarrow> i64 option" where
  "least_of xs = (case xs of [] \<Rightarrow> None | x # xs \<Rightarrow> Some (fold min xs x))"

definition next_agent_visibility_expiry_ms :: "display_timing \<Rightarrow> domain_model \<Rightarrow> i64 \<Rightarrow> i64 option" where
  "next_agent_visibility_expiry_ms timing m now_ms =
     least_of (map (\<lambda>last. i64_saturating_add last (dt_headless_inactivity_ms timing))
       (filter_map an_last_activity_at_ms
         (filter (\<lambda>agent. \<not> agent_node_is_display_stale timing agent now_ms)
           (filter (\<lambda>agent. an_state agent \<in> {None, Some ExecUnknown, Some ExecEnded}) (agent_nodes m)))))"

definition row_task_runs :: "domain_model \<Rightarrow> tree_row list \<Rightarrow> task_run list" where
  "row_task_runs m rows = filter_map (get_task_run m) (filter_map (\<lambda>row. key_run_id (rw_key row)) rows)"

definition lifecycle_expiry_ms ::
  "display_timing \<Rightarrow> domain_model \<Rightarrow> run_id list \<Rightarrow> i64 \<Rightarrow> task_run \<Rightarrow> i64 option" where
  "lifecycle_expiry_ms timing m with_executions now_ms run =
     (case effective_lifecycle_end_ms m run of
        None \<Rightarrow>
          (case tr_key run of
             Provisional _ start_ms _ \<Rightarrow>
               Some (i64_saturating_add
                 (opt_unwrap_or start_ms (opt_or (tr_updated_at_ms run) (tr_created_at_ms run)))
                 (dt_ghost_visibility_ms timing))
           | _ \<Rightarrow> None)
      | Some first_terminal_ms \<Rightarrow>
          if is_default_visible_task_run timing m run with_executions now_ms
          then Some (i64_saturating_add first_terminal_ms default_terminal_visibility_ms) else None)"

definition hook_only_expiry_ms :: "run_id list \<Rightarrow> task_run \<Rightarrow> i64 option" where
  "hook_only_expiry_ms with_executions run =
     (if is_controller (tr_key run) \<and> tr_run_id run \<notin> set with_executions
      then map_option (\<lambda>updated. i64_saturating_add updated hook_only_stale_visibility_ms)
             (tr_updated_at_ms run)
      else None)"

definition next_run_visibility_expiry_ms ::
  "display_timing \<Rightarrow> domain_model \<Rightarrow> tree_row list \<Rightarrow> i64 \<Rightarrow> i64 option" where
  "next_run_visibility_expiry_ms timing m rows now_ms =
     (let with_executions = runs_with_executions m
      in least_of (filter_map (\<lambda>run.
           min_expiry (lifecycle_expiry_ms timing m with_executions now_ms run)
             (hook_only_expiry_ms with_executions run)) (row_task_runs m rows)))"

definition next_live_duration_expiry_ms :: "domain_model \<Rightarrow> tree_row list \<Rightarrow> i64 \<Rightarrow> i64 option" where
  "next_live_duration_expiry_ms m rows now_ms =
     (let renders = list_ex (\<lambda>elapsed. 0 \<le> elapsed)
            (filter_map (i64_checked_sub now_ms)
              (filter_map tr_created_at_ms
                (filter (\<lambda>run. effective_lifecycle_end_ms m run = None) (row_task_runs m rows))))
      in if \<not> renders then None
         else case i64_checked_sub now_ms (now_ms mod 1000) of
                None \<Rightarrow> None
              | Some second \<Rightarrow> i64_checked_add second 1000)"

section \<open>Search\<close>

definition exec_state_name :: "exec_state \<Rightarrow> string" where
  "exec_state_name s = (case s of ExecUnknown \<Rightarrow> ''unknown'' | ExecIdle \<Rightarrow> ''idle''
     | ExecWorking \<Rightarrow> ''working'' | ExecBlocked \<Rightarrow> ''blocked'' | ExecStale _ \<Rightarrow> ''stale''
     | ExecEnded \<Rightarrow> ''ended'')"

definition opt_list :: "'a option \<Rightarrow> 'a list" where
  "opt_list x = (case x of None \<Rightarrow> [] | Some a \<Rightarrow> [a])"

definition run_search_fields :: "text_env \<Rightarrow> domain_model \<Rightarrow> tree_row \<Rightarrow> run_id \<Rightarrow> task_run \<Rightarrow> string list" where
  "run_search_fields te m row r run =
     [task_state_name (tr_state run)]
     @ (case tr_key run of
          Native p sid \<Rightarrow> [provider_name p, sid]
        | Provisional terminal _ _ \<Rightarrow> [''provisional'', terminal]
        | _ \<Rightarrow> [])
     @ concat (map (\<lambda>agent. provider_name (an_provider agent) # opt_list (an_model_id agent))
         (filter (\<lambda>agent. an_task_run_id agent = r) (agent_nodes m)))
     @ (if list_ex (\<lambda>e. ee_child_run_id e = r) (dm_execution_edges m) then [''dispatched by''] else [])
     @ (if rw_prerequisites row \<noteq> [] \<or> list_ex (\<lambda>e. de_dependent_run_id e = r) (dm_dependency_edges m)
        then [''prerequisite'', ''prereqs''] else [])
     @ (if rw_dependents row \<noteq> [] \<or> list_ex (\<lambda>e. de_prerequisite_run_id e = r) (dm_dependency_edges m)
        then [''dependents''] else [])
     @ (if \<not> (list_ex (\<lambda>e. ee_parent_run_id e = r \<or> ee_child_run_id e = r) (dm_execution_edges m)
            \<or> list_ex (\<lambda>e. de_prerequisite_run_id e = r \<or> de_dependent_run_id e = r) (dm_dependency_edges m))
        then [''unlinked''] else [])
     @ (if str_contains (rw_label row) ''[shared]'' then [''shared''] else [])"

definition status_field :: "tree_row \<Rightarrow> string list" where
  "status_field row = map (\<lambda>s. task_display_label (ds_status s)) (opt_list (rw_display_status row))"

definition searchable_fields :: "text_env \<Rightarrow> domain_model \<Rightarrow> tree_row \<Rightarrow> string list" where
  "searchable_fields te m row =
     (case rw_key row of
        SessionKey \<Rightarrow> [rw_label row]
      | WorkspaceKey i \<Rightarrow> [''workspace'', i]
      | TabKey i \<Rightarrow> [''tab'', i] @ (case get_tab m i of None \<Rightarrow> [] | Some tab \<Rightarrow> [tb_workspace_id tab])
      | PaneKey i \<Rightarrow> [''pane'', i] @
          (case get_pane m i of None \<Rightarrow> []
           | Some pane \<Rightarrow> [pn_workspace_id pane, pn_tab_id pane, pn_terminal_id pane])
      | RunRowKey r _ \<Rightarrow> [''task run'', te_run_text te r] @ status_field row @
          (case get_task_run m r of None \<Rightarrow> [] | Some run \<Rightarrow> run_search_fields te m row r run)
      | AgentRowKey i _ \<Rightarrow> [''native agent'', ''parent'', ''child'', i] @ status_field row @
          (case get_agent_node m i of
             None \<Rightarrow> [rw_label row]
           | Some agent \<Rightarrow> [provider_name (an_provider agent), te_run_text te (an_task_run_id agent)]
               @ opt_list (an_native_session_id agent) @ opt_list (an_model_id agent)
               @ opt_list (an_parent_agent_node_id agent)
               @ map exec_state_name (opt_list (an_state agent)))
      | UnattachedGroup \<Rightarrow> [''unattached task runs''])"

definition row_matches :: "text_env \<Rightarrow> domain_model \<Rightarrow> tree_row \<Rightarrow> string \<Rightarrow> bool" where
  "row_matches te m row query =
     (let query = te_lowercase te query
      in if query = [] then True
         else list_ex (\<lambda>field. str_contains (te_lowercase te field) query) (searchable_fields te m row))"

definition row_is_filter_eligible :: "domain_model \<Rightarrow> tree_row \<Rightarrow> run_id list \<Rightarrow> bool" where
  "row_is_filter_eligible m row visible =
     (case rw_key row of
        RunRowKey r _ \<Rightarrow> r \<in> set visible
      | AgentRowKey i _ \<Rightarrow>
          opt_is_none_or (\<lambda>agent. an_task_run_id agent \<in> set visible) (get_agent_node m i)
      | _ \<Rightarrow> True)"

text \<open>
  The walk from a match to its ancestors: \<open>before\<close> lists the rows before it, the last first, each
  with its index.
\<close>

fun retain_ancestors ::
  "(tree_row \<Rightarrow> bool) \<Rightarrow> nat \<Rightarrow> (nat \<times> tree_row) list \<Rightarrow> nat list \<Rightarrow> nat list" where
  "retain_ancestors eligible target [] retained = retained"
| "retain_ancestors eligible target ((i, row) # before) retained =
     (if rw_depth row < target
      then let retained = (if eligible row then hs_insert i retained else retained)
           in if rw_depth row = 0 then retained
              else retain_ancestors eligible (rw_depth row) before retained
      else retain_ancestors eligible target before retained)"

definition retain_tree_matches ::
  "domain_model \<Rightarrow> tree_row list \<Rightarrow> nat list \<Rightarrow> run_id list \<Rightarrow> tree_row list" where
  "retain_tree_matches m rows direct visible =
     (let retained = fold (\<lambda>index retained.
            retain_ancestors (\<lambda>row. row_is_filter_eligible m row visible) (rw_depth (rows ! index))
              (rev (take index (enumerate 0 rows))) (hs_insert index retained)) direct []
      in map snd (filter (\<lambda>(index, _). index \<in> set retained) (enumerate 0 rows)))"

definition retain_visible_dag_matches_with_prerequisites ::
  "domain_model \<Rightarrow> run_id list \<Rightarrow> run_id list \<Rightarrow> run_id list \<Rightarrow> run_id list" where
  "retain_visible_dag_matches_with_prerequisites m stable_order direct_matches visible =
     (if list_all (\<lambda>run. tr_run_id run \<in> set visible) (task_runs m)
      then retain_matches_with_prerequisites m stable_order direct_matches
      else
        let retained = retain_loop (known_prerequisites (\<lambda>r. r \<in> set visible) m) direct_matches direct_matches
        in filter (\<lambda>r. r \<in> set visible \<and> r \<in> set retained) stable_order)"

section \<open>Collapsing\<close>

fun collapse_rows :: "node_key list \<Rightarrow> nat option \<Rightarrow> tree_row list \<Rightarrow> tree_row list" where
  "collapse_rows collapsed hidden_below [] = []"
| "collapse_rows collapsed hidden_below (row # rows) =
     (if opt_is_some_and (\<lambda>depth. depth < rw_depth row) hidden_below
      then collapse_rows collapsed hidden_below rows
      else row # collapse_rows collapsed
        (if collapse_key (rw_key row) \<in> set collapsed then Some (rw_depth row) else None) rows)"

definition apply_collapse :: "tree_row list \<Rightarrow> node_key list \<Rightarrow> tree_row list" where
  "apply_collapse rows collapsed = collapse_rows collapsed None rows"

section \<open>The projection\<close>

record row_projection =
  rp_rows :: "tree_row list"
  rp_next_expiry_ms :: "i64 option"

definition direct_matches ::
  "text_env \<Rightarrow> domain_model \<Rightarrow> tree_row list \<Rightarrow> run_id list \<Rightarrow> string \<Rightarrow> nat list" where
  "direct_matches te m rows visible query =
     map fst (filter (\<lambda>(index, row). row_is_filter_eligible m row visible \<and> row_matches te m row query)
       (enumerate 0 rows))"

definition matching_rows ::
  "text_env \<Rightarrow> domain_model \<Rightarrow> tree_row list \<Rightarrow> run_id list \<Rightarrow> string \<Rightarrow> view_mode \<Rightarrow> tree_row list" where
  "matching_rows te m full_rows visible query mode =
     (let direct = direct_matches te m full_rows visible query
      in case mode of
           ExecutionTree \<Rightarrow> retain_tree_matches m full_rows direct visible
         | DependencyDag \<Rightarrow>
             let matches = hs_extend [] (filter_map (\<lambda>index. key_run_id (rw_key (full_rows ! index))) direct);
                 order = filter (\<lambda>r. r \<in> set visible) (filter_map (\<lambda>row. key_run_id (rw_key row)) full_rows);
                 retained = retain_visible_dag_matches_with_prerequisites m order matches visible
             in filter (\<lambda>row. opt_is_some_and (\<lambda>r. r \<in> set visible \<and> r \<in> set retained)
                    (key_run_id (rw_key row))) full_rows)"

definition visible_rows :: "domain_model \<Rightarrow> run_id list \<Rightarrow> tree_row list \<Rightarrow> tree_row list" where
  "visible_rows m visible rows =
     filter (\<lambda>row. case key_run_id (rw_key row) of None \<Rightarrow> True
       | Some r \<Rightarrow> get_task_run m r \<noteq> None \<and> r \<in> set visible) rows"

definition project_rows_with_visible ::
  "text_env \<Rightarrow> display_timing \<Rightarrow> domain_model \<Rightarrow> tree_row list \<Rightarrow> run_id list \<Rightarrow> string \<Rightarrow> node_key list
     \<Rightarrow> view_mode \<Rightarrow> i64 \<Rightarrow> row_projection" where
  "project_rows_with_visible te timing m full_rows visible query collapsed mode now_ms =
     (let agent_expiry_ms = next_agent_visibility_expiry_ms timing m now_ms
      in if query \<noteq> []
         then let rows = matching_rows te m full_rows visible query mode
              in \<lparr>rp_rows = rows, rp_next_expiry_ms =
                   min_expiry (min_expiry agent_expiry_ms (next_run_visibility_expiry_ms timing m rows now_ms))
                     (next_live_duration_expiry_ms m rows now_ms)\<rparr>
         else let shown = visible_rows m visible full_rows;
                  next_expiry_ms = min_expiry agent_expiry_ms (next_run_visibility_expiry_ms timing m shown now_ms);
                  rows = (if mode = ExecutionTree then apply_collapse shown collapsed else shown)
              in \<lparr>rp_rows = rows, rp_next_expiry_ms =
                   (case next_live_duration_expiry_ms m rows now_ms of
                      None \<Rightarrow> next_expiry_ms
                    | Some duration_expiry_ms \<Rightarrow>
                        Some (case next_expiry_ms of None \<Rightarrow> duration_expiry_ms
                              | Some current \<Rightarrow> min current duration_expiry_ms))\<rparr>)"

end
