(* ===== verification/App.thy ===== *)
theory App
  imports Projection "HOL-Library.Monad_Syntax"
begin

text \<open>
  The state of the terminal interface and its keyboard handlers (\<open>src/tui/app.rs\<close>), over the rows
  of \<open>Tree_Rows\<close> and \<open>Projection\<close>. The wall clock is a function from the number of the reading to
  the time; what the watch channels deliver is an argument of the refresh. A result \<open>None\<close> means
  that a loop below does not end; \<open>App_Laws\<close> shows that it cannot happen.
\<close>

section \<open>State\<close>

datatype overlay = OverlayNotice | OverlayHelp | OverlayDetail | OverlaySummary

datatype selection_reason = SelMerged | SelClosed | SelFiltered | SelCollapsed | SelAgedOut

definition selection_reason_message :: "selection_reason \<Rightarrow> string" where
  "selection_reason_message reason = (case reason of
       SelMerged \<Rightarrow> ''Selection merged into the visible canonical identity''
     | SelClosed \<Rightarrow> ''Selection moved: closed''
     | SelFiltered \<Rightarrow> ''Selection moved: filtered''
     | SelCollapsed \<Rightarrow> ''Selection moved: collapsed''
     | SelAgedOut \<Rightarrow> ''Selection moved: aged_out'')"

record app_state =
  as_selected :: "node_key option"
  as_selected_run_key :: "run_key option"
  as_follow :: bool
  as_selection_reason :: "selection_reason option"
  as_execution_order :: stable_order
  as_view_mode :: view_mode
  as_dag_order :: dag_order
  as_collapsed :: "node_key list"
  as_filter_query :: string
  as_filter_draft :: "string option"
  as_overlay :: "overlay option"
  as_summary_session_wide :: bool
  as_overlay_scroll :: nat
  as_overlay_scroll_max :: nat
  as_safe_warning :: "string option"
  as_operator_activity :: "activity_item list"
  as_terminal_times :: "(run_id, i64) hmap"
  as_now_ms :: i64
  as_session_display_name :: string

text \<open>
  The application: its model, its rows and the two deadlines. \<open>ap_clock\<close> and \<open>ap_reading\<close> are the
  clock, \<open>ap_commands\<close> is the bounded queue to the collector.
\<close>

record app =
  ap_model :: domain_model
  ap_state :: app_state
  ap_rows :: "tree_row list"
  ap_app_started_at_ms :: i64
  ap_next_expiry_ms :: "i64 option"
  ap_next_paint_ms :: i64
  ap_notice_state_base :: bool
  ap_clock :: "nat \<Rightarrow> i64"
  ap_reading :: nat
  ap_commands :: "operator_command list"
  ap_command_capacity :: nat
  ap_commands_closed :: bool

record app_env =
  ae_text :: text_env
  ae_timing :: display_timing

text \<open>The effects of a handler: not returning is \<open>None\<close>.\<close>

type_synonym 'a app_step = "app \<Rightarrow> ('a \<times> app) option"

definition read_clock :: "app \<Rightarrow> i64 \<times> app" where
  "read_clock app = (ap_clock app (ap_reading app), app\<lparr>ap_reading := Suc (ap_reading app)\<rparr>)"

definition map_state :: "(app_state \<Rightarrow> app_state) \<Rightarrow> app \<Rightarrow> app" where
  "map_state f app = app\<lparr>ap_state := f (ap_state app)\<rparr>"

definition next_wall_second_ms :: "i64 \<Rightarrow> i64" where
  "next_wall_second_ms now_ms =
     opt_unwrap_or i64_max (i64_checked_add now_ms (i64_saturating_sub 1000 (now_ms mod 1000)))"

definition adopt_model :: "domain_model \<Rightarrow> app_state \<Rightarrow> app_state option" where
  "adopt_model m s =
     (case recompute m (as_dag_order s) of
        None \<Rightarrow> None
      | Some order \<Rightarrow> Some (s\<lparr>as_execution_order := stable_order_adopt (map ex_execution_id (executions m)) (as_execution_order s),
          as_dag_order := order\<rparr>))"

section \<open>Building the rows\<close>

definition build_full_rows ::
  "app_env \<Rightarrow> domain_model \<Rightarrow> app_state \<Rightarrow> run_id list \<Rightarrow> tree_row list" where
  "build_full_rows env m s visible =
     (let statuses = from_model (ae_timing env) m (as_now_ms s)
      in case as_view_mode s of
           ExecutionTree \<Rightarrow>
             build_tree_rows_with_statuses (ae_timing env) m (as_execution_order s) (as_session_display_name s)
               (as_now_ms s) (newest_agent_nodes (ae_timing env) m (as_now_ms s)) statuses visible
         | DependencyDag \<Rightarrow>
             build_rows_with_statuses_visible (ae_text env) (ae_timing env) m (as_dag_order s) (as_now_ms s)
               statuses visible)"

definition project_state ::
  "app_env \<Rightarrow> domain_model \<Rightarrow> app_state \<Rightarrow> node_key list \<Rightarrow> row_projection option" where
  "project_state env m s collapsed =
     (case default_visible_task_run_ids (ae_timing env) m (as_now_ms s) of
        None \<Rightarrow> None
      | Some visible \<Rightarrow> Some (project_rows_with_visible (ae_text env) (ae_timing env) m
          (build_full_rows env m s visible) visible (as_filter_query s) collapsed (as_view_mode s) (as_now_ms s)))"

definition build_projection :: "app_env \<Rightarrow> domain_model \<Rightarrow> app_state \<Rightarrow> row_projection option" where
  "build_projection env m s = project_state env m s (as_collapsed s)"

definition build_rows :: "app_env \<Rightarrow> domain_model \<Rightarrow> app_state \<Rightarrow> tree_row list option" where
  "build_rows env m s = map_option rp_rows (build_projection env m s)"

definition build_uncollapsed_rows :: "app_env \<Rightarrow> domain_model \<Rightarrow> app_state \<Rightarrow> tree_row list option" where
  "build_uncollapsed_rows env m s = map_option rp_rows (project_state env m s [])"

definition rebuild_rows :: "app_env \<Rightarrow> tree_row list app_step" where
  "rebuild_rows env app =
     (let (now_ms, app) = read_clock app;
          app = map_state (\<lambda>s. s\<lparr>as_now_ms := now_ms\<rparr>) app
      in case build_projection env (ap_model app) (ap_state app) of
           None \<Rightarrow> None
         | Some projection \<Rightarrow> Some (rp_rows projection,
             app\<lparr>ap_next_expiry_ms := rp_next_expiry_ms projection, ap_rows := rp_rows projection\<rparr>))"

section \<open>Selection\<close>

definition has_key :: "tree_row list \<Rightarrow> node_key \<Rightarrow> bool" where
  "has_key rows key = list_ex (\<lambda>row. rw_key row = key) rows"

definition row_position :: "tree_row list \<Rightarrow> node_key \<Rightarrow> nat option" where
  "row_position rows key = first_of (map fst (filter (\<lambda>(_, row). rw_key row = key) (enumerate 0 rows)))"

definition nth_row :: "tree_row list \<Rightarrow> nat \<Rightarrow> tree_row option" where
  "nth_row rows i = (if i < length rows then Some (rows ! i) else None)"

definition set_selection :: "node_key option \<Rightarrow> app \<Rightarrow> app" where
  "set_selection selected app =
     map_state (\<lambda>s. s\<lparr>as_selected_run_key :=
         map_option tr_key (Option.bind (Option.bind selected key_run_id) (get_task_run (ap_model app))),
       as_selected := selected\<rparr>) app"

definition preferred_run_row :: "tree_row list \<Rightarrow> run_id \<Rightarrow> node_key \<Rightarrow> tree_row option" where
  "preferred_run_row rows r previous =
     (let previous_pane = (case previous of RunRowKey _ pane \<Rightarrow> pane | _ \<Rightarrow> None)
      in opt_or (first_of (filter (\<lambda>row. rw_key row = RunRowKey r previous_pane) rows))
           (first_of (filter (\<lambda>row. key_run_id (rw_key row) = Some r) rows)))"

definition neighbor_candidates :: "tree_row list \<Rightarrow> nat \<Rightarrow> tree_row list" where
  "neighbor_candidates old_rows old_index =
     concat (map (\<lambda>distance. opt_list (nth_row old_rows (old_index + distance))
         @ (if distance \<le> old_index then opt_list (nth_row old_rows (old_index - distance)) else []))
       [1..<length old_rows])"

definition surviving_neighbor :: "tree_row list \<Rightarrow> tree_row list \<Rightarrow> node_key \<Rightarrow> node_key option" where
  "surviving_neighbor old_rows new_rows selected =
     (case row_position old_rows selected of
        None \<Rightarrow> None
      | Some old_index \<Rightarrow>
          let depth = rw_depth (old_rows ! old_index);
              surviving = filter (\<lambda>row. has_key new_rows (rw_key row)) (neighbor_candidates old_rows old_index)
          in map_option rw_key
               (opt_or (first_of (filter (\<lambda>row. rw_depth row = depth) surviving)) (first_of surviving)))"

text \<open>The walk to the ancestors: \<open>before\<close> lists the rows before the selected one, the last first.\<close>

fun visible_above :: "tree_row list \<Rightarrow> nat \<Rightarrow> tree_row list \<Rightarrow> node_key option" where
  "visible_above new_rows depth [] = None"
| "visible_above new_rows depth (row # before) =
     (if rw_depth row < depth
      then if has_key new_rows (rw_key row) then Some (rw_key row)
           else visible_above new_rows (rw_depth row) before
      else visible_above new_rows depth before)"

definition nearest_visible_ancestor :: "tree_row list \<Rightarrow> tree_row list \<Rightarrow> node_key \<Rightarrow> node_key option" where
  "nearest_visible_ancestor old_rows new_rows selected =
     (case row_position old_rows selected of
        None \<Rightarrow> None
      | Some index \<Rightarrow> visible_above new_rows (rw_depth (old_rows ! index)) (rev (take index old_rows)))"

definition fallback_selection :: "tree_row list \<Rightarrow> tree_row list \<Rightarrow> node_key \<Rightarrow> node_key option" where
  "fallback_selection old_rows new_rows selected =
     opt_or (opt_or (nearest_visible_ancestor old_rows new_rows selected)
         (surviving_neighbor old_rows new_rows selected))
       (map_option rw_key (first_of new_rows))"

definition disappearance_reason :: "tree_row list \<Rightarrow> tree_row list \<Rightarrow> app \<Rightarrow> selection_reason option" where
  "disappearance_reason old_rows new_rows app =
     (let m = ap_model app; s = ap_state app
      in case as_selected s of
           None \<Rightarrow> None
         | Some selected \<Rightarrow>
             if \<not> has_key old_rows selected \<or> has_key new_rows selected then None
             else if (case (key_run_id selected, as_selected_run_key s) of
                 (Some old_run_id, Some selected_key) \<Rightarrow>
                   opt_is_some_and (\<lambda>run. tr_run_id run \<noteq> old_run_id) (task_run_by_key m selected_key)
               | _ \<Rightarrow> False) then Some SelMerged
             else if opt_is_some_and (\<lambda>end_ms. i64_saturating_add end_ms default_terminal_visibility_ms \<le> as_now_ms s)
                 (Option.bind (Option.bind (key_run_id selected) (get_task_run m)) (effective_lifecycle_end_ms m))
             then Some SelAgedOut
             else Some SelClosed)"

text \<open>The row of the run the selected run was merged into, and the row of a run that moved.\<close>

definition merged_row :: "tree_row list \<Rightarrow> node_key \<Rightarrow> app \<Rightarrow> tree_row option" where
  "merged_row new_rows selected app =
     (case (key_run_id selected, as_selected_run_key (ap_state app)) of
        (Some old_run_id, Some selected_key) \<Rightarrow>
          (case task_run_by_key (ap_model app) selected_key of
             Some survivor \<Rightarrow>
               if tr_run_id survivor \<noteq> old_run_id
               then preferred_run_row new_rows (tr_run_id survivor) selected else None
           | None \<Rightarrow> None)
      | _ \<Rightarrow> None)"

definition moved_row :: "tree_row list \<Rightarrow> tree_row list \<Rightarrow> node_key \<Rightarrow> tree_row option" where
  "moved_row old_rows new_rows selected =
     (case key_run_id selected of
        None \<Rightarrow> None
      | Some r \<Rightarrow> opt_filter (\<lambda>row. \<not> has_key old_rows (rw_key row)) (preferred_run_row new_rows r selected))"

definition recover_selection ::
  "tree_row list \<Rightarrow> tree_row list \<Rightarrow> selection_reason option \<Rightarrow> app \<Rightarrow> app" where
  "recover_selection old_rows new_rows reason_hint app =
     (let reason = (\<lambda>r. map_state (\<lambda>s. s\<lparr>as_selection_reason := r\<rparr>))
      in case as_selected (ap_state app) of
           None \<Rightarrow> set_selection (map_option rw_key (last_of new_rows)) app
         | Some selected \<Rightarrow>
             if has_key new_rows selected then reason None app
             else case merged_row new_rows selected app of
                    Some row \<Rightarrow> reason (Some SelMerged) (set_selection (Some (rw_key row)) app)
                  | None \<Rightarrow>
                      (case moved_row old_rows new_rows selected of
                         Some row \<Rightarrow> reason None (set_selection (Some (rw_key row)) app)
                       | None \<Rightarrow> reason (opt_or reason_hint (Some SelClosed))
                           (set_selection (fallback_selection old_rows new_rows selected) app)))"

section \<open>Refresh\<close>

text \<open>What the watch channels hold: a changed flag each, \<open>None\<close> where the sender is gone.\<close>

record watch_inputs =
  wi_model :: domain_model
  wi_activity :: "activity_item list"
  wi_terminal_times :: "(run_id, i64) hmap"
  wi_model_changed :: "bool option"
  wi_performance_changed :: "bool option"
  wi_coverage_changed :: "bool option"
  wi_diagnostics_changed :: "bool option"
  wi_operator_changed :: "bool option"

datatype app_error = ModelWatchClosed | PerformanceWatchClosed

definition follow_last :: "tree_row list \<Rightarrow> app \<Rightarrow> app" where
  "follow_last rows app = set_selection (map_option rw_key (last_of rows)) app"

definition refresh_cached :: "app_env \<Rightarrow> bool \<Rightarrow> watch_inputs \<Rightarrow> app \<Rightarrow> app option" where
  "refresh_cached env recompute_projection inputs app =
     do {
       old_rows \<leftarrow> (if recompute_projection \<and> \<not> as_follow (ap_state app)
                    then build_rows env (ap_model app) (ap_state app) else Some []);
       if \<not> recompute_projection then Some app
       else do {
         let state = (ap_state app)\<lparr>as_operator_activity := wi_activity inputs,
                        as_terminal_times := wi_terminal_times inputs\<rparr>;
         adopted \<leftarrow> adopt_model (wi_model inputs) state;
         let app = app\<lparr>ap_state := adopted, ap_model := wi_model inputs\<rparr>;
         (new_rows, app) \<leftarrow> rebuild_rows env app;
         if as_follow (ap_state app)
         then Some (follow_last new_rows (map_state (\<lambda>s. s\<lparr>as_selection_reason := None\<rparr>) app))
         else Some (recover_selection old_rows new_rows (disappearance_reason old_rows new_rows app) app)
       }
     }"

definition app_refresh :: "app_env \<Rightarrow> watch_inputs \<Rightarrow> app \<Rightarrow> app option" where
  "app_refresh env inputs app = refresh_cached env True inputs app"

definition refresh_if_changed ::
  "app_env \<Rightarrow> watch_inputs \<Rightarrow> app \<Rightarrow> ((app_error + bool) \<times> app) option" where
  "refresh_if_changed env inputs app =
     (case wi_model_changed inputs of
        None \<Rightarrow> Some (Inl ModelWatchClosed, app)
      | Some model_changed \<Rightarrow>
          (case wi_performance_changed inputs of
             None \<Rightarrow> Some (Inl PerformanceWatchClosed, app)
           | Some performance_changed \<Rightarrow>
               let coverage_changed = opt_unwrap_or False (wi_coverage_changed inputs);
                   diagnostics_changed = opt_unwrap_or False (wi_diagnostics_changed inputs);
                   operator_changed = opt_unwrap_or False (wi_operator_changed inputs);
                   (deadline_due, app) = (case ap_next_expiry_ms app of
                       None \<Rightarrow> (False, app)
                     | Some deadline \<Rightarrow> (case read_clock app of (now_ms, app) \<Rightarrow> (deadline \<le> now_ms, app)))
               in if model_changed \<or> performance_changed \<or> coverage_changed \<or> diagnostics_changed
                     \<or> operator_changed \<or> deadline_due
                  then map_option (Pair (Inr True))
                         (refresh_cached env (model_changed \<or> operator_changed \<or> deadline_due) inputs app)
                  else Some (Inr False, app)))"

text \<open>\<open>with_operator_commands_and_inputs\<close>; the queue of commands is part of the arguments.\<close>

definition app_state_default :: app_state where
  "app_state_default = \<lparr>as_selected = None, as_selected_run_key = None, as_follow = False,
     as_selection_reason = None, as_execution_order = stable_order_new, as_view_mode = ExecutionTree,
     as_dag_order = dag_order_new, as_collapsed = [], as_filter_query = [], as_filter_draft = None,
     as_overlay = None, as_summary_session_wide = False, as_overlay_scroll = 0, as_overlay_scroll_max = 0,
     as_safe_warning = None, as_operator_activity = [], as_terminal_times = [], as_now_ms = 0,
     as_session_display_name = []\<rparr>"

definition app_new ::
  "app_env \<Rightarrow> watch_inputs \<Rightarrow> string \<Rightarrow> bool \<Rightarrow> bool \<Rightarrow> nat \<Rightarrow> bool \<Rightarrow> (nat \<Rightarrow> i64) \<Rightarrow> app option" where
  "app_new env inputs session notice_visible notice_state_base capacity closed clock =
     do {
       let now_ms = clock 0;
       let state = app_state_default\<lparr>as_follow := True,
             as_overlay := (if notice_visible then Some OverlayNotice else None),
             as_operator_activity := wi_activity inputs, as_terminal_times := wi_terminal_times inputs,
             as_now_ms := now_ms, as_session_display_name := escape_controls session\<rparr>;
       adopted \<leftarrow> adopt_model (wi_model inputs) state;
       (rows, app) \<leftarrow> rebuild_rows env
         \<lparr>ap_model = wi_model inputs, ap_state = adopted, ap_rows = [], ap_app_started_at_ms = now_ms,
          ap_next_expiry_ms = None, ap_next_paint_ms = next_wall_second_ms now_ms,
          ap_notice_state_base = notice_state_base, ap_clock = clock, ap_reading = 1,
          ap_commands = [], ap_command_capacity = capacity, ap_commands_closed = closed\<rparr>;
       Some (follow_last rows app)
     }"

section \<open>Navigation\<close>

definition collapse_available :: "app_state \<Rightarrow> bool" where
  "collapse_available s \<longleftrightarrow> as_view_mode s = ExecutionTree \<and> as_filter_query s = []"

definition stop_following :: "app \<Rightarrow> app" where
  "stop_following = map_state (\<lambda>s. s\<lparr>as_follow := False, as_selection_reason := None\<rparr>)"

definition opens_branch :: "tree_row list \<Rightarrow> nat \<Rightarrow> bool" where
  "opens_branch rows index =
     opt_is_some_and (\<lambda>next. rw_depth (rows ! index) < rw_depth next) (nth_row rows (index + 1))"

definition toggle_branch :: "app_env \<Rightarrow> tree_row list \<Rightarrow> node_key \<Rightarrow> app \<Rightarrow> app option" where
  "toggle_branch env old_rows key app =
     do {
       let app = stop_following app;
       let collapse = collapse_key key;
       let collapsed = collapse \<notin> set (as_collapsed (ap_state app));
       let app = map_state (\<lambda>s. s\<lparr>as_collapsed :=
             (if collapsed then hs_insert collapse (as_collapsed s) else removeAll collapse (as_collapsed s))\<rparr>) app;
       (new_rows, app) \<leftarrow> rebuild_rows env app;
       Some (if collapsed then recover_selection old_rows new_rows (Some SelCollapsed) app else app)
     }"

definition toggle_collapse :: "app_env \<Rightarrow> node_key \<Rightarrow> app \<Rightarrow> app option" where
  "toggle_collapse env key app =
     (if \<not> collapse_available (ap_state app) then Some app
      else do {
        (old_rows, app) \<leftarrow> rebuild_rows env app;
        full_rows \<leftarrow> build_uncollapsed_rows env (ap_model app) (ap_state app);
        case row_position full_rows key of
          None \<Rightarrow> Some app
        | Some index \<Rightarrow>
            if opens_branch full_rows index then toggle_branch env old_rows key app else Some app
      })"

definition navigate_right :: "app_env \<Rightarrow> app \<Rightarrow> app option" where
  "navigate_right env app =
     (if \<not> collapse_available (ap_state app) then Some app
      else case as_selected (ap_state app) of
             None \<Rightarrow> Some app
           | Some selected \<Rightarrow>
               if collapse_key selected \<in> set (as_collapsed (ap_state app)) then toggle_collapse env selected app
               else do {
                 (rows, app) \<leftarrow> rebuild_rows env app;
                 case row_position rows selected of
                   None \<Rightarrow> Some app
                 | Some index \<Rightarrow>
                     (case opt_filter (\<lambda>row. rw_depth (rows ! index) < rw_depth row) (nth_row rows (index + 1)) of
                        None \<Rightarrow> Some app
                      | Some child \<Rightarrow> Some (set_selection (Some (rw_key child)) (stop_following app)))
               })"

definition navigate_left :: "app_env \<Rightarrow> app \<Rightarrow> app option" where
  "navigate_left env app =
     (if \<not> collapse_available (ap_state app) then Some app
      else case as_selected (ap_state app) of
             None \<Rightarrow> Some app
           | Some selected \<Rightarrow> do {
               (rows, app) \<leftarrow> rebuild_rows env app;
               case row_position rows selected of
                 None \<Rightarrow> Some app
               | Some index \<Rightarrow>
                   if collapse_key selected \<notin> set (as_collapsed (ap_state app)) \<and> opens_branch rows index
                   then toggle_collapse env selected app
                   else case first_of (filter (\<lambda>row. rw_depth row < rw_depth (rows ! index)) (rev (take index rows))) of
                          None \<Rightarrow> Some app
                        | Some parent \<Rightarrow> Some (set_selection (Some (rw_key parent)) (stop_following app))
             })"

definition move_selection :: "app_env \<Rightarrow> bool \<Rightarrow> app \<Rightarrow> app option" where
  "move_selection env down app =
     do {
       (rows, app) \<leftarrow> rebuild_rows env (stop_following app);
       if rows = [] then Some (set_selection None app)
       else do {
         let current = opt_unwrap_or (length rows - 1)
               (Option.bind (as_selected (ap_state app)) (row_position rows));
         let next = (if down then min (current + 1) (length rows - 1) else current - 1);
         Some (set_selection (map_option rw_key (nth_row rows next)) app)
       }
     }"

definition resume_follow :: "app_env \<Rightarrow> app \<Rightarrow> app option" where
  "resume_follow env app =
     do {
       (rows, app) \<leftarrow> rebuild_rows env
         (map_state (\<lambda>s. s\<lparr>as_follow := True, as_selection_reason := None\<rparr>) app);
       Some (follow_last rows app)
     }"

text \<open>The run a key is about: its own, or the run of its agent.\<close>

definition semantic_run_id :: "domain_model \<Rightarrow> node_key \<Rightarrow> run_id option" where
  "semantic_run_id m key =
     opt_or (key_run_id key)
       (case key of AgentRowKey i _ \<Rightarrow> map_option an_task_run_id (get_agent_node m i) | _ \<Rightarrow> None)"

definition same_run_row :: "view_mode \<Rightarrow> tree_row list \<Rightarrow> run_id \<Rightarrow> node_key \<Rightarrow> node_key option" where
  "same_run_row mode rows r selected =
     map_option rw_key
       (if mode = ExecutionTree then preferred_run_row rows r selected
        else first_of (filter (\<lambda>row. key_run_id (rw_key row) = Some r) rows))"

definition toggle_view :: "app_env \<Rightarrow> app \<Rightarrow> app option" where
  "toggle_view env app =
     do {
       let previous = as_selected (ap_state app);
       (old_rows, app) \<leftarrow> rebuild_rows env app;
       let was_following = as_follow (ap_state app);
       let semantic_run = Option.bind previous (semantic_run_id (ap_model app));
       (rows, app) \<leftarrow> rebuild_rows env
         (map_state (\<lambda>s. s\<lparr>as_view_mode := view_mode_toggled (as_view_mode s), as_selection_reason := None\<rparr>) app);
       if was_following then Some (follow_last rows app)
       else do {
         let replacement = Option.bind previous (\<lambda>selected. Option.bind semantic_run
               (\<lambda>r. same_run_row (as_view_mode (ap_state app)) rows r selected));
         Some (set_selection
           (case replacement of
              Some key \<Rightarrow> Some key
            | None \<Rightarrow> opt_or (opt_or (Option.bind previous (nearest_visible_ancestor old_rows rows))
                  (Option.bind previous (surviving_neighbor old_rows rows)))
                (map_option rw_key (first_of rows))) app)
       }
     }"

section \<open>Filter\<close>

text \<open>\<open>str::trim\<close>: the code points of \<open>White_Space\<close>, in UTF-8.\<close>

definition char_is_whitespace :: "string \<Rightarrow> bool" where
  "char_is_whitespace u \<longleftrightarrow>
     (case map byte_of u of
        [b] \<Rightarrow> 9 \<le> b \<and> b \<le> 13 \<or> b = 32
      | [b, c] \<Rightarrow> b = 0xC2 \<and> (c = 0x85 \<or> c = 0xA0)
      | [b, c, d] \<Rightarrow> b = 0xE1 \<and> c = 0x9A \<and> d = 0x80
          \<or> b = 0xE2 \<and> c = 0x80 \<and> (0x80 \<le> d \<and> d \<le> 0x8A \<or> d = 0xA8 \<or> d = 0xA9 \<or> d = 0xAF)
          \<or> b = 0xE2 \<and> c = 0x81 \<and> d = 0x9F
          \<or> b = 0xE3 \<and> c = 0x80 \<and> d = 0x80
      | _ \<Rightarrow> False)"

definition str_trim :: "string \<Rightarrow> string" where
  "str_trim s =
     concat (rev (dropWhile char_is_whitespace (rev (dropWhile char_is_whitespace (utf8_chars s)))))"

definition commit_filter :: "app_env \<Rightarrow> app \<Rightarrow> app option" where
  "commit_filter env app =
     do {
       (old_rows, app) \<leftarrow> rebuild_rows env app;
       let query = str_trim (opt_unwrap_or [] (as_filter_draft (ap_state app)));
       (new_rows, app) \<leftarrow> rebuild_rows env
         (map_state (\<lambda>s. s\<lparr>as_filter_draft := None, as_filter_query := query, as_follow := False\<rparr>) app);
       Some (recover_selection old_rows new_rows (Some SelFiltered) app)
     }"

section \<open>Keys\<close>

text \<open>A key code; \<open>KeyChar\<close> carries the UTF-8 encoding of the character.\<close>

datatype key_code =
    KeyChar string | KeyUp | KeyDown | KeyEnd | KeyTab | KeyLeft | KeyRight | KeyEnter | KeyEsc
  | KeyBackspace | KeyOther

record key_event =
  ke_code :: key_code
  ke_release :: bool
  ke_modifiers_empty :: bool

datatype loop_control = LoopContinue | LoopExit

text \<open>What the publication of the notice marker answers.\<close>

record notice_boundary =
  nb_publish_ok :: bool
  nb_marker_current :: bool

definition reset_overlay_scroll :: "app_state \<Rightarrow> app_state" where
  "reset_overlay_scroll s = s\<lparr>as_overlay_scroll := 0, as_overlay_scroll_max := usize_max\<rparr>"

definition scroll_overlay_up :: "app_state \<Rightarrow> app_state" where
  "scroll_overlay_up s = s\<lparr>as_overlay_scroll := as_overlay_scroll s - 1\<rparr>"

definition scroll_overlay_down :: "app_state \<Rightarrow> app_state" where
  "scroll_overlay_down s =
     s\<lparr>as_overlay_scroll := min (min (as_overlay_scroll s + 1) usize_max) (as_overlay_scroll_max s)\<rparr>"

definition normalize_overlay_scroll :: "nat \<Rightarrow> app_state \<Rightarrow> nat \<times> app_state" where
  "normalize_overlay_scroll maximum s =
     (let normalized = min (as_overlay_scroll s) maximum
      in (normalized, s\<lparr>as_overlay_scroll_max := maximum, as_overlay_scroll := normalized\<rparr>))"

definition open_overlay :: "overlay \<Rightarrow> app_state \<Rightarrow> app_state" where
  "open_overlay overlay s = reset_overlay_scroll (s\<lparr>as_overlay := Some overlay\<rparr>)"

definition acknowledge_notice :: "notice_boundary \<Rightarrow> app \<Rightarrow> app" where
  "acknowledge_notice notice app =
     (let app = map_state (\<lambda>s. s\<lparr>as_overlay := None\<rparr>) app
      in if \<not> ap_notice_state_base app then app
         else let (_, app) = read_clock app
              in if nb_publish_ok notice then app
                 else map_state (\<lambda>s. s\<lparr>as_safe_warning := Some
                        (if nb_marker_current notice then ''notice_marker_sync_unconfirmed''
                         else ''notice_marker_write_failed'')\<rparr>) app)"

definition scroll_key :: "key_code \<Rightarrow> app \<Rightarrow> app" where
  "scroll_key code = (case code of KeyUp \<Rightarrow> map_state scroll_overlay_up
     | KeyDown \<Rightarrow> map_state scroll_overlay_down | _ \<Rightarrow> id)"

definition handle_overlay_key :: "notice_boundary \<Rightarrow> overlay \<Rightarrow> key_code \<Rightarrow> app \<Rightarrow> app" where
  "handle_overlay_key notice overlay code app =
     (let close = map_state (\<lambda>s. s\<lparr>as_overlay := None\<rparr>) app
      in case overlay of
           OverlayNotice \<Rightarrow> if code = KeyEnter \<or> code = KeyEsc then acknowledge_notice notice app else app
         | OverlayHelp \<Rightarrow> if code = KeyEsc \<or> code = KeyChar ''?'' then close else scroll_key code app
         | OverlayDetail \<Rightarrow> if code = KeyEsc \<or> code = KeyChar ''i'' then close else scroll_key code app
         | OverlaySummary \<Rightarrow>
             if code = KeyEsc \<or> code = KeyChar ''s'' then close
             else if code = KeyChar ''w''
             then map_state (\<lambda>s. reset_overlay_scroll
                    (s\<lparr>as_summary_session_wide := \<not> as_summary_session_wide s\<rparr>)) app
             else scroll_key code app)"

definition handle_filter_key :: "app_env \<Rightarrow> key_code \<Rightarrow> app \<Rightarrow> app option" where
  "handle_filter_key env code app =
     (let edit = (\<lambda>f. map_state (\<lambda>s. s\<lparr>as_filter_draft := map_option f (as_filter_draft s)\<rparr>) app)
      in case code of
           KeyEsc \<Rightarrow> Some (map_state (\<lambda>s. s\<lparr>as_filter_draft := None\<rparr>) app)
         | KeyEnter \<Rightarrow> commit_filter env app
         | KeyBackspace \<Rightarrow> Some (edit (\<lambda>draft. concat (butlast (utf8_chars draft))))
         | KeyChar character \<Rightarrow> Some (edit (\<lambda>draft. draft @ character))
         | _ \<Rightarrow> Some app)"

definition try_send :: "operator_command \<Rightarrow> app \<Rightarrow> app" where
  "try_send command app =
     (if ap_commands_closed app \<or> ap_command_capacity app \<le> length (ap_commands app) then app
      else app\<lparr>ap_commands := ap_commands app @ [command]\<rparr>)"

definition handle_key ::
  "app_env \<Rightarrow> notice_boundary \<Rightarrow> key_event \<Rightarrow> app \<Rightarrow> (loop_control \<times> app) option" where
  "handle_key env notice key app =
     (let s = ap_state app; code = ke_code key; continue = map_option (Pair LoopContinue)
      in if ke_release key then Some (LoopContinue, app)
         else case as_overlay s of
                Some overlay \<Rightarrow> Some (LoopContinue, handle_overlay_key notice overlay code app)
              | None \<Rightarrow>
                  if as_filter_draft s \<noteq> None then continue (handle_filter_key env code app)
                  else if code = KeyChar ''q'' then Some (LoopExit, app)
                  else if code = KeyChar ''/''
                  then continue (Some (map_state (\<lambda>s. s\<lparr>as_filter_draft := Some (as_filter_query s)\<rparr>) app))
                  else if code = KeyChar ''c'' \<and> ke_modifiers_empty key
                  then continue (Some (try_send DismissClearable app))
                  else if code = KeyChar ''i'' then continue (Some (map_state (open_overlay OverlayDetail) app))
                  else if code = KeyChar ''s'' \<and> ke_modifiers_empty key
                  then continue (Some (map_state (\<lambda>s. open_overlay OverlaySummary (s\<lparr>as_summary_session_wide := False\<rparr>)) app))
                  else if code = KeyChar ''?'' then continue (Some (map_state (open_overlay OverlayHelp) app))
                  else if code = KeyUp then continue (move_selection env False app)
                  else if code = KeyDown then continue (move_selection env True app)
                  else if code = KeyChar ''f'' \<or> code = KeyEnd then continue (resume_follow env app)
                  else if code = KeyTab then continue (toggle_view env app)
                  else if code = KeyLeft then continue (navigate_left env app)
                  else if code = KeyRight then continue (navigate_right env app)
                  else if code = KeyEnter
                  then continue (case as_selected s of None \<Rightarrow> Some app | Some selected \<Rightarrow> toggle_collapse env selected app)
                  else Some (LoopContinue, app))"

section \<open>Pacing\<close>

text \<open>Durations are nanoseconds.\<close>

definition frame_interval :: nat where "frame_interval = 100000000"
definition watch_poll_interval :: nat where "watch_poll_interval = 10000000"
definition millis :: "i64 \<Rightarrow> nat" where "millis ms = nat ms * 1000000"

record frame_limiter =
  fl_last_draw :: "nat option"

definition limiter_ready :: "frame_limiter \<Rightarrow> bool \<Rightarrow> nat \<Rightarrow> bool" where
  "limiter_ready limiter dirty now \<longleftrightarrow>
     dirty \<and> opt_is_none_or (\<lambda>drawn. frame_interval \<le> now - drawn) (fl_last_draw limiter)"

definition limiter_record :: "nat \<Rightarrow> frame_limiter \<Rightarrow> frame_limiter" where
  "limiter_record now limiter = limiter\<lparr>fl_last_draw := Some now\<rparr>"

definition limiter_poll_duration :: "frame_limiter \<Rightarrow> bool \<Rightarrow> nat \<Rightarrow> nat" where
  "limiter_poll_duration limiter dirty now =
     (if \<not> dirty then watch_poll_interval
      else case fl_last_draw limiter of
             None \<Rightarrow> 0
           | Some drawn \<Rightarrow> min (frame_interval - (now - drawn)) watch_poll_interval)"

definition paint_tick_due :: "app \<Rightarrow> bool \<times> app" where
  "paint_tick_due app =
     (case read_clock app of (now_ms, app) \<Rightarrow>
        if now_ms < ap_next_paint_ms app then (False, app)
        else (True, app\<lparr>ap_next_paint_ms := next_wall_second_ms now_ms\<rparr>))"

definition app_poll_duration :: "frame_limiter \<Rightarrow> bool \<Rightarrow> nat \<Rightarrow> app \<Rightarrow> nat \<times> app" where
  "app_poll_duration limiter dirty elapsed app =
     (let base = limiter_poll_duration limiter dirty elapsed;
          (now_ms, app) = read_clock app;
          until_expiry = map_option (\<lambda>deadline. millis (max (i64_saturating_sub deadline now_ms) 0)) (ap_next_expiry_ms app);
          until_paint = millis (max (i64_saturating_sub (next_wall_second_ms now_ms) now_ms) 0)
      in (min (case until_expiry of None \<Rightarrow> base | Some expiry \<Rightarrow> min base expiry) until_paint, app))"

definition session_start_ms :: "app \<Rightarrow> i64" where
  "session_start_ms app =
     opt_unwrap_or (ap_app_started_at_ms app) (least_of (filter_map tr_created_at_ms (task_runs (ap_model app))))"

end
