(* ===== verification/Dag_Laws.thy ===== *)
theory Dag_Laws
  imports Dag_Order
begin

text \<open>
  What the dependency order guarantees: it lists every run once and is topological exactly when the
  dependencies have no cycle; it is determined by the runs, the edges and the earlier positions,
  not by any hash order; and it does not move when the same runs and edges are displayed again.
\<close>

section \<open>The graph\<close>

definition known_runs :: "domain_model \<Rightarrow> run_id set" where
  "known_runs m = tr_run_id ` set (task_runs m)"

definition known_dependencies :: "domain_model \<Rightarrow> (run_id \<times> run_id) set" where
  "known_dependencies m = {(p, d). p \<in> known_runs m \<and> d \<in> known_runs m
     \<and> (\<exists>e \<in> set (dm_dependency_edges m). de_prerequisite_run_id e = p \<and> de_dependent_run_id e = d)}"

definition known_edges :: "run_id list \<Rightarrow> dependency_edge list \<Rightarrow> (run_id \<times> run_id) list" where
  "known_edges nodes edges = map (\<lambda>e. (de_prerequisite_run_id e, de_dependent_run_id e))
     (filter (\<lambda>e. de_prerequisite_run_id e \<in> set nodes \<and> de_dependent_run_id e \<in> set nodes) edges)"

lemma run_ordinals_keys: "set (hm_keys (run_ordinals m)) = known_runs m" "hm_ok (run_ordinals m)"
proof -
  have "set (hm_keys (fold (\<lambda>run. hm_put (tr_run_id run) (ordinal_get (tr_display_ordinal run))) xs o'))
      = set (hm_keys o') \<union> tr_run_id ` set xs
    \<and> (hm_ok o' \<longrightarrow> hm_ok (fold (\<lambda>run. hm_put (tr_run_id run) (ordinal_get (tr_display_ordinal run))) xs o'))"
    for xs :: "task_run list" and o'
    by (induction xs arbitrary: o') auto
  then show "set (hm_keys (run_ordinals m)) = known_runs m" "hm_ok (run_ordinals m)"
    unfolding run_ordinals_def known_runs_def by auto
qed

lemma known_edges_set: "set (known_edges (hm_keys (run_ordinals m)) (dm_dependency_edges m)) = known_dependencies m"
  unfolding known_edges_def known_dependencies_def run_ordinals_keys(1) [symmetric] by auto

lemma known_dependencies_sub: "known_dependencies m \<subseteq> known_runs m \<times> known_runs m"
  by (auto simp: known_dependencies_def)

lemma link_one:
  shows "listed (dg_outgoing (link_dependency nodes e g)) r
      = listed (dg_outgoing g) r @ children_of (known_edges nodes [e]) r"
    and "set (listed (dg_reverse (link_dependency nodes e g)) d)
      = set (listed (dg_reverse g) d) \<union> {p. (p, d) \<in> set (known_edges nodes [e])}"
    and "opt_unwrap_or 0 (hm_get (dg_indegree (link_dependency nodes e g)) n)
      = opt_unwrap_or 0 (hm_get (dg_indegree g) n) + indeg (known_edges nodes [e]) {} n"
    and "set (hm_keys (dg_indegree g)) \<subseteq> set (hm_keys (dg_indegree (link_dependency nodes e g)))"
  by (auto simp: link_dependency_def known_edges_def children_of_def indeg_def)

lemma known_edges_Cons: "known_edges nodes (e # edges) = known_edges nodes [e] @ known_edges nodes edges"
  by (simp add: known_edges_def)

lemma link_all:
  shows "listed (dg_outgoing (fold (link_dependency nodes) edges g)) r
      = listed (dg_outgoing g) r @ children_of (known_edges nodes edges) r"
    and "set (listed (dg_reverse (fold (link_dependency nodes) edges g)) d)
      = set (listed (dg_reverse g) d) \<union> {p. (p, d) \<in> set (known_edges nodes edges)}"
    and "opt_unwrap_or 0 (hm_get (dg_indegree (fold (link_dependency nodes) edges g)) n)
      = opt_unwrap_or 0 (hm_get (dg_indegree g) n) + indeg (known_edges nodes edges) {} n"
    and "set (hm_keys (dg_indegree g)) \<subseteq> set (hm_keys (dg_indegree (fold (link_dependency nodes) edges g)))"
proof (induction edges arbitrary: g)
  case Nil
  { case 1 then show ?case by (simp add: known_edges_def children_of_def) }
  { case 2 then show ?case by (simp add: known_edges_def) }
  { case 3 then show ?case by (simp add: known_edges_def indeg_def) }
  { case 4 then show ?case by simp }
next
  case (Cons e edges)
  note here = known_edges_Cons [of nodes e edges]
  { case (1 g) then show ?case by (simp add: Cons.IH(1) link_one(1) children_of_def here del: set_map) }
  { case (2 g) then show ?case by (auto simp: Cons.IH(2) link_one(2) here simp del: set_map) }
  { case (3 g) then show ?case by (simp add: Cons.IH(3) link_one(3) indeg_def here) }
  { case (4 g) then show ?case using Cons.IH(4) link_one(4) by (metis fold_simps(2) subset_trans) }
qed

lemma dag_graph:
  shows "listed (dg_outgoing (dag_graph_of nodes edges)) r = children_of (known_edges nodes edges) r"
    and "set (listed (dg_reverse (dag_graph_of nodes edges)) d) = {p. (p, d) \<in> set (known_edges nodes edges)}"
    and "n \<in> set nodes \<Longrightarrow> hm_get (dg_indegree (dag_graph_of nodes edges)) n
      = Some (indeg (known_edges nodes edges) {} n)"
proof -
  have none: "listed (map (\<lambda>r. (r, [])) xs) r = []" for xs :: "run_id list" and r
    by (induction xs) (auto simp: listed_def)
  have zero: "opt_unwrap_or 0 (hm_get (map (\<lambda>r. (r, 0::nat)) xs) r) = 0" for xs :: "run_id list" and r
    by (induction xs) auto
  show "listed (dg_outgoing (dag_graph_of nodes edges)) r = children_of (known_edges nodes edges) r"
    unfolding dag_graph_of_def by (subst link_all(1)) (simp add: none)
  show "set (listed (dg_reverse (dag_graph_of nodes edges)) d) = {p. (p, d) \<in> set (known_edges nodes edges)}"
    unfolding dag_graph_of_def by (subst link_all(2)) (simp add: none)
  assume n: "n \<in> set nodes"
  have "opt_unwrap_or 0 (hm_get (dg_indegree (dag_graph_of nodes edges)) n) = indeg (known_edges nodes edges) {} n"
    unfolding dag_graph_of_def by (subst link_all(3)) (simp add: zero)
  moreover have "set nodes \<subseteq> set (hm_keys (dg_indegree (dag_graph_of nodes edges)))"
    unfolding dag_graph_of_def by (rule subset_trans [OF _ link_all(4)]) auto
  with n have "hm_get (dg_indegree (dag_graph_of nodes edges)) n \<noteq> None"
    by (metis map_of_eq_None_iff list.set_map subsetD)
  ultimately show "hm_get (dg_indegree (dag_graph_of nodes edges)) n
      = Some (indeg (known_edges nodes edges) {} n)" by auto
qed

section \<open>Which run comes next\<close>

text \<open>The specification: while a run is ready, the ready run with the least key comes next.\<close>

definition ready_runs :: "run_id set \<Rightarrow> (run_id \<times> run_id) set \<Rightarrow> run_id set \<Rightarrow> run_id set" where
  "ready_runs N E X = {n \<in> N. n \<notin> X \<and> (\<forall>p. (p, n) \<in> E \<longrightarrow> p \<in> X)}"

inductive emits ::
  "run_id set \<Rightarrow> (run_id \<times> run_id) set \<Rightarrow> (run_id \<Rightarrow> dag_key) \<Rightarrow> run_id set \<Rightarrow> run_id list \<Rightarrow> bool"
  for N E key where
  emits_none: "ready_runs N E X = {} \<Longrightarrow> emits N E key X []"
| emits_next: "r \<in> ready_runs N E X \<Longrightarrow> (\<And>s. s \<in> ready_runs N E X \<Longrightarrow> key r \<le> key s) \<Longrightarrow>
    emits N E key (insert r X) rs \<Longrightarrow> emits N E key X (r # rs)"

inductive_cases emits_nil_cases: "emits N E key X []"
inductive_cases emits_cons_cases: "emits N E key X (r # rs)"

definition displayed_order ::
  "run_id set \<Rightarrow> (run_id \<times> run_id) set \<Rightarrow> (run_id \<Rightarrow> dag_key) \<Rightarrow> run_id list \<Rightarrow> bool" where
  "displayed_order N E key ids \<longleftrightarrow> (\<exists>xs ys. ids = xs @ ys \<and> emits N E key {} xs
     \<and> set ys = N - set xs \<and> distinct ys \<and> sorted (map key ys))"

lemma emits_unique:
  assumes "emits N E key X rs" and "emits N E key X rs'" and "inj_on key N"
  shows "rs = rs'"
  using assms
proof (induction arbitrary: rs' rule: emits.induct)
  case (emits_none X)
  from emits_none(2) show ?case
    by (cases rule: emits.cases) (use emits_none(1) in auto)
next
  case (emits_next r X rs)
  from emits_next(5) show ?case
  proof (cases rule: emits.cases)
    case emits_none
    with emits_next(1) show ?thesis by simp
  next
    case (emits_next s ss)
    then have "key r = key s" using emits_next.hyps(1,2) by (meson order.antisym)
    then have "r = s" using emits_next(2) emits_next.hyps(1) emits_next.prems(2)
      by (auto simp: ready_runs_def dest: inj_onD)
    with emits_next emits_next.IH emits_next.prems(2) show ?thesis by blast
  qed
qed

lemma emits_facts:
  assumes "emits N E key X rs"
  shows "distinct rs" and "set rs \<subseteq> N - X" and "ready_runs N E (X \<union> set rs) = {}"
    and "\<And>i p. i < length rs \<Longrightarrow> (p, rs ! i) \<in> E \<Longrightarrow> p \<in> X \<union> set (take i rs)"
  using assms
proof (induction rule: emits.induct)
  case (emits_none X)
  { case 1 then show ?case by simp }
  { case 2 then show ?case by simp }
  { case 3 then show ?case using emits_none by simp }
  { case 4 then show ?case by simp }
next
  case (emits_next r X rs)
  { case 1 then show ?case using emits_next by auto }
  { case 2 then show ?case using emits_next by (auto simp: ready_runs_def) }
  { case 3 then show ?case using emits_next(6) by simp }
  { case (4 i p) then show ?case using emits_next(1) emits_next(7)
      by (cases i) (auto simp: ready_runs_def) }
qed

text \<open>Two keys that agree on which of two runs comes first select the same runs.\<close>

lemma sorted_key_unique:
  assumes "inj_on key N" and "set ys = N" and "set zs = N" and "distinct ys" and "distinct zs"
    and "sorted (map key ys)" and "sorted (map key (zs :: run_id list) :: dag_key list)"
  shows "ys = zs"
proof -
  have "map key ys = map key zs"
    using assms by (intro sorted_distinct_set_unique) (auto simp: distinct_map)
  then show ?thesis using assms by (intro map_inj_on [of key]) auto
qed

lemma displayed_order_unique:
  assumes "displayed_order N E key ids" and "displayed_order N E key ids'" and "inj_on key N"
  shows "ids = ids'"
proof -
  obtain xs ys where ids: "ids = xs @ ys" "emits N E key {} xs" "set ys = N - set xs" "distinct ys"
      "sorted (map key ys)"
    using assms(1) by (auto simp: displayed_order_def)
  obtain xs' ys' where ids': "ids' = xs' @ ys'" "emits N E key {} xs'" "set ys' = N - set xs'"
      "distinct ys'" "sorted (map key ys')"
    using assms(2) by (auto simp: displayed_order_def)
  have xs: "xs = xs'" by (rule emits_unique [OF ids(2) ids'(2) assms(3)])
  have "inj_on key (N - set xs)" using assms(3) by (rule inj_on_diff)
  from sorted_key_unique [OF this ids(3) ids'(3) [folded xs] ids(4) ids'(4) ids(5) ids'(5)] xs
  show ?thesis by (simp add: ids(1) ids'(1))
qed

lemma displayed_order_members:
  assumes "displayed_order N E key ids"
  shows "distinct ids" and "set ids = N"
proof -
  obtain xs ys where ids: "ids = xs @ ys" "emits N E key {} xs" "set ys = N - set xs" "distinct ys"
    using assms by (auto simp: displayed_order_def)
  from emits_facts(1,2) [OF ids(2)] ids show "distinct ids" "set ids = N" by auto
qed

section \<open>The loop emits the ready runs\<close>

definition emit_state ::
  "run_id set \<Rightarrow> (run_id \<times> run_id) list \<Rightarrow> (run_id \<Rightarrow> dag_key) \<Rightarrow> run_id set \<Rightarrow> run_id list
     \<Rightarrow> (run_id, nat) hmap \<Rightarrow> run_id list \<Rightarrow> bool" where
  "emit_state N E key X ns ind ready \<longleftrightarrow> X \<subseteq> N \<and> set ns \<subseteq> N
     \<and> (\<forall>n \<in> N. opt_unwrap_or 0 (hm_get ind n) = indeg E X n + count_list ns n)
     \<and> (\<forall>n \<in> X. indeg E X n + count_list ns n = 0)
     \<and> distinct ready \<and> sorted (map key ready)
     \<and> set ready = {n \<in> N. n \<notin> X \<and> indeg E X n + count_list ns n = 0}"

lemma release_state:
  assumes "emit_state N E key X (n # ns) ind ready"
    and "release_dependent key n (ind, ready) = (ind', ready')"
  shows "emit_state N E key X ns ind' ready'"
proof -
  note st = assms(1) [unfolded emit_state_def]
  have n: "n \<in> N" "n \<notin> X" "n \<notin> set ready" using st by force+
  define k where "k = indeg E X n + count_list ns n"
  have "opt_unwrap_or 0 (hm_get ind n) = Suc k" using st n(1) by (simp add: k_def)
  then have eq: "ind' = hm_put n k ind" "ready' = (if k = 0 then insort_key key n ready else ready)"
    using assms(2) by (auto simp: release_dependent_def Let_def)
  have counts: "count_list (n # ns) x = (if x = n then Suc (count_list ns n) else count_list ns x)" for x
    by simp
  have "set ready' = {x \<in> N. x \<notin> X \<and> indeg E X x + count_list ns x = 0}"
    using st n unfolding eq counts by (auto simp: k_def set_insort_key)
  moreover have "distinct ready'" "sorted (map key ready')"
    using st n(3) by (auto simp: eq distinct_insort sorted_insort_key)
  ultimately show ?thesis
    using st n unfolding emit_state_def eq counts by (auto simp: k_def split: if_splits)
qed

lemma release_all_state:
  "emit_state N E key X ns ind ready \<Longrightarrow> fold (release_dependent key) ns (ind, ready) = (ind', ready')
     \<Longrightarrow> emit_state N E key X [] ind' ready'"
proof (induction ns arbitrary: ind ready)
  case (Cons n ns)
  obtain i q where "release_dependent key n (ind, ready) = (i, q)"
    by (cases "release_dependent key n (ind, ready)")
  with Cons release_state show ?case by fastforce
qed simp

lemma emit_ready_works:
  assumes "emit_state N E key X [] ind ready" and "finite N" and "set E \<subseteq> N \<times> N"
    and "\<And>r. listed outgoing r = children_of E r"
  shows "\<exists>rs. emit_ready key outgoing ind ready ordered = Some (ordered @ rs) \<and> emits N (set E) key X rs"
  using assms(1)
proof (induction "card (N - X)" arbitrary: X ind ready ordered rule: less_induct)
  case less
  note st = less.prems [unfolded emit_state_def]
  have here: "set ready = ready_runs N (set E) X"
    using st by (auto simp: ready_runs_def indeg_zero)
  show ?case
  proof (cases ready)
    case Nil
    with here show ?thesis by (subst emit_ready.simps) (auto intro: emits_none)
  next
    case (Cons r rest)
    have r: "r \<in> N" "r \<notin> X" "indeg E X r = 0" using st Cons by auto
    obtain ind' ready' where step: "fold (release_dependent key) (children_of E r) (ind, rest) = (ind', ready')"
      by (cases "fold (release_dependent key) (children_of E r) (ind, rest)")
    have kids: "set (children_of E r) \<subseteq> N" using assms(3) by (auto simp: children_of_def)
    have mem: "set rest = set ready - {r}" "distinct rest" "sorted (map key rest)"
      "\<And>s. s \<in> set ready \<Longrightarrow> key r \<le> key s"
      using st Cons by auto
    have pre: "emit_state N E key (insert r X) (children_of E r) ind rest"
      using st r kids mem unfolding emit_state_def indeg_insert [OF r(2), symmetric] by auto
    have post: "emit_state N E key (insert r X) [] ind' ready'" by (rule release_all_state [OF pre step])
    have smaller: "card (N - insert r X) < card (N - X)"
      using r assms(2) by (intro psubset_card_mono) auto
    from less.hyps [OF smaller post, of "ordered @ [r]"] obtain rs
      where rs: "emit_ready key outgoing ind' ready' (ordered @ [r]) = Some ((ordered @ [r]) @ rs)"
        "emits N (set E) key (insert r X) rs" by blast
    have "emits N (set E) key X (r # rs)"
      using mem(4) here Cons rs(2) by (intro emits_next) auto
    with rs(1) step show ?thesis
      by (subst emit_ready.simps) (auto simp: Cons assms(4))
  qed
qed

lemma emit_initial:
  assumes "distinct nodes" and "set E \<subseteq> set nodes \<times> set nodes"
    and "\<And>n. n \<in> set nodes \<Longrightarrow> hm_get ind n = Some (indeg E {} n)"
  shows "emit_state (set nodes) E key {} [] ind
    (fold (insort_key key) (filter (\<lambda>r. hm_get ind r = Some 0) nodes) [])"
proof -
  have fold: "distinct (xs @ q) \<Longrightarrow> sorted (map key q) \<Longrightarrow> distinct (fold (insort_key key) xs q)
      \<and> sorted (map key (fold (insort_key key) xs q)) \<and> set (fold (insort_key key) xs q) = set xs \<union> set q"
    for xs q :: "run_id list"
  proof (induction xs arbitrary: q)
    case (Cons x xs)
    then have "distinct (xs @ insort_key key x q)" "sorted (map key (insort_key key x q))"
      by (auto simp: distinct_insort sorted_insort_key set_insort_key)
    from Cons.IH [OF this] show ?case by (auto simp: set_insort_key)
  qed simp
  have "set (filter (\<lambda>r. hm_get ind r = Some 0) nodes) = {n \<in> set nodes. indeg E {} n = 0}"
    using assms(3) by auto
  with fold [of "filter (\<lambda>r. hm_get ind r = Some 0) nodes" "[]"] assms show ?thesis
    by (auto simp: emit_state_def)
qed

section \<open>Inherited positions\<close>

text \<open>The specification: the earliest previous position among the runs that depend on this one.\<close>

definition inherited_position ::
  "run_id set \<Rightarrow> (run_id \<times> run_id) set \<Rightarrow> (run_id, nat) hmap \<Rightarrow> run_id \<Rightarrow> nat" where
  "inherited_position N E previous r =
     (case hm_get previous r of
        Some position \<Rightarrow> position
      | None \<Rightarrow> Min (insert usize_max {p. \<exists>d \<in> N. (r, d) \<in> E\<^sup>* \<and> hm_get previous d = Some p}))"

lemma seed_positions_works:
  "position_in (fst (seed_positions previous nodes)) r
     = (if r \<in> set nodes then opt_unwrap_or usize_max (hm_get previous r) else usize_max)"
  "set (snd (seed_positions previous nodes)) = {r \<in> set nodes. hm_get previous r \<noteq> None}"
proof -
  let ?f = "\<lambda>r (inherited, queue). case hm_get previous r of None \<Rightarrow> (inherited, queue)
      | Some position \<Rightarrow> (hm_put r position inherited, queue @ [r])"
  have "position_in (fst (fold ?f xs st)) r
      = (if r \<in> set xs \<and> hm_get previous r \<noteq> None then the (hm_get previous r) else position_in (fst st) r)
    \<and> set (snd (fold ?f xs st)) = set (snd st) \<union> {r \<in> set xs. hm_get previous r \<noteq> None}" for xs st
    by (induction xs arbitrary: st) (auto split: option.splits prod.splits)
  from this [of nodes "([], [])"]
  show "position_in (fst (seed_positions previous nodes)) r
     = (if r \<in> set nodes then opt_unwrap_or usize_max (hm_get previous r) else usize_max)"
    "set (snd (seed_positions previous nodes)) = {r \<in> set nodes. hm_get previous r \<noteq> None}"
    unfolding seed_positions_def by (cases "hm_get previous r"; auto simp: position_in_def)+
qed

lemma lift_all:
  assumes "fold (lift_prerequisite p) ns (inh, queue) = (inh', queue')"
  shows "set queue \<subseteq> set queue'" and "position_in inh' r \<le> position_in inh r"
    and "r \<in> set ns \<Longrightarrow> position_in inh' r \<le> p"
    and "position_in inh' r \<noteq> position_in inh r \<Longrightarrow>
      r \<in> set queue' \<and> r \<in> set ns \<and> position_in inh' r = p"
proof -
  have "set queue \<subseteq> set queue' \<and> position_in inh' r \<le> position_in inh r
    \<and> (r \<in> set ns \<longrightarrow> position_in inh' r \<le> p)
    \<and> (position_in inh' r \<noteq> position_in inh r \<longrightarrow>
        r \<in> set queue' \<and> r \<in> set ns \<and> position_in inh' r = p)"
    using assms
  proof (induction ns arbitrary: inh queue)
    case (Cons n ns)
    obtain i q where st: "lift_prerequisite p n (inh, queue) = (i, q)"
      by (cases "lift_prerequisite p n (inh, queue)")
    have iq: "i = (if p < position_in inh n then hm_put n p inh else inh)"
      "q = (if p < position_in inh n then queue @ [n] else queue)"
      using st by (auto simp: lift_prerequisite_def position_in_def split: if_splits)
    have "fold (lift_prerequisite p) ns (i, q) = (inh', queue')" using Cons.prems st by simp
    from Cons.IH [OF this] show ?case by (auto simp: iq split: if_splits)
  qed simp
  then show "set queue \<subseteq> set queue'" "position_in inh' r \<le> position_in inh r"
    "r \<in> set ns \<Longrightarrow> position_in inh' r \<le> p"
    "position_in inh' r \<noteq> position_in inh r \<Longrightarrow>
      r \<in> set queue' \<and> r \<in> set ns \<and> position_in inh' r = p" by blast+
qed

text \<open>The loop: what a position stands for, and which edges are already settled.\<close>

definition settled ::
  "run_id set \<Rightarrow> (run_id \<times> run_id) set \<Rightarrow> (run_id, nat) hmap \<Rightarrow> (run_id, nat) hmap \<Rightarrow> run_id set \<Rightarrow> bool" where
  "settled N E previous inh open_runs \<longleftrightarrow>
     (\<forall>r. position_in inh r = usize_max
        \<or> (\<exists>d \<in> N. (r, d) \<in> E\<^sup>* \<and> hm_get previous d = Some (position_in inh r)))
     \<and> (\<forall>d p. d \<in> N \<longrightarrow> hm_get previous d = Some p \<longrightarrow> position_in inh d \<le> p)
     \<and> (\<forall>r. hm_get previous r = None \<longrightarrow> position_in inh r \<le> usize_max)
     \<and> (\<forall>r d. (r, d) \<in> E \<longrightarrow> d \<notin> open_runs \<longrightarrow>
          min usize_max (position_in inh r) \<le> min usize_max (position_in inh d))"

lemma settled_step:
  assumes "settled N E previous inh (set (dependent # queue))"
    and rev: "set ns = {p. (p, dependent) \<in> E}"
    and run: "fold (lift_prerequisite (position_in inh dependent)) ns (inh, queue) = (inh', queue')"
  shows "settled N E previous inh' (set queue')"
proof -
  note st = assms(1) [unfolded settled_def]
  let ?p = "position_in inh dependent"
  note lift = lift_all [OF run]
  have source: "position_in inh' r = usize_max
      \<or> (\<exists>d \<in> N. (r, d) \<in> E\<^sup>* \<and> hm_get previous d = Some (position_in inh' r))" for r
  proof (cases "position_in inh' r = position_in inh r")
    case True
    then show ?thesis using st by metis
  next
    case False
    then have "(r, dependent) \<in> E" "position_in inh' r = ?p" using lift(4) rev by auto
    then show ?thesis using st by (metis converse_rtrancl_into_rtrancl)
  qed
  have edge: "min usize_max (position_in inh' r) \<le> min usize_max (position_in inh' d)"
    if e: "(r, d) \<in> E" "d \<notin> set queue'" for r d
  proof -
    have d: "position_in inh' d = position_in inh d" "d \<notin> set queue" using lift(1,4) e(2) by blast+
    show ?thesis
    proof (cases "d = dependent")
      case True
      then have "position_in inh' r \<le> ?p" using lift(3) e(1) rev by auto
      then show ?thesis using d(1) True by simp
    next
      case False
      then have "min usize_max (position_in inh r) \<le> min usize_max (position_in inh d)"
        using st e(1) d(2) by auto
      then show ?thesis using lift(2) [of r] d(1) by linarith
    qed
  qed
  show ?thesis
    unfolding settled_def
  proof (intro conjI allI impI)
    show "position_in inh' r = usize_max
      \<or> (\<exists>d \<in> N. (r, d) \<in> E\<^sup>* \<and> hm_get previous d = Some (position_in inh' r))" for r by (rule source)
    show "position_in inh' d \<le> p" if "d \<in> N" "hm_get previous d = Some p" for d p
      using st that lift(2) [of d] by (meson le_trans)
    show "position_in inh' r \<le> usize_max" if "hm_get previous r = None" for r
      using st that lift(2) [of r] by (meson le_trans)
    show "min usize_max (position_in inh' r) \<le> min usize_max (position_in inh' d)"
      if "(r, d) \<in> E" "d \<notin> set queue'" for r d by (rule edge [OF that])
  qed
qed

lemma propagate_settles:
  assumes "settled N E previous inh (set queue)"
    and "\<And>d. set (listed adj d) = {p. (p, d) \<in> E}"
  shows "settled N E previous (propagate_positions adj inh queue) {}"
  using assms
proof (induction adj inh queue rule: propagate_positions.induct)
  case (1 adj inh)
  then show ?case by simp
next
  case (2 adj inh dependent queue)
  let ?run = "fold (lift_prerequisite (opt_unwrap_or usize_max (hm_get inh dependent)))
      (listed adj dependent) (inh, queue)"
  obtain i q where st: "?run = (i, q)" by (cases ?run)
  have "settled N E previous i (set q)"
    by (rule settled_step [OF "2.prems" st [folded position_in_def]])
  from "2.IH" [OF st [symmetric] this "2.prems"(2)]
  show ?case by (simp only: propagate_positions.simps st prod.case)
qed

lemma propagated_position:
  assumes "finite N" and "settled N E previous inh {}" and "hm_get previous r = None"
  shows "position_in inh r = inherited_position N E previous r"
proof -
  note st = assms(2) [unfolded settled_def]
  have le: "min usize_max (position_in inh r) \<le> min usize_max (position_in inh d)" if "(r, d) \<in> E\<^sup>*" for d
    using that
  proof (induction rule: rtrancl_induct)
    case (step d e)
    then have "min usize_max (position_in inh d) \<le> min usize_max (position_in inh e)" using st by blast
    with step.IH show ?case by simp
  qed simp
  have max: "position_in inh r \<le> usize_max" using st assms(3) by blast
  have "Min (insert usize_max {p. \<exists>d \<in> N. (r, d) \<in> E\<^sup>* \<and> hm_get previous d = Some p}) = position_in inh r"
  proof (rule Min_eqI)
    have "{p. \<exists>d \<in> N. (r, d) \<in> E\<^sup>* \<and> hm_get previous d = Some p} \<subseteq> the ` hm_get previous ` N" by force
    then show "finite (insert usize_max {p. \<exists>d \<in> N. (r, d) \<in> E\<^sup>* \<and> hm_get previous d = Some p})"
      using assms(1) by (simp add: finite_subset)
    show "position_in inh r \<in> insert usize_max {p. \<exists>d \<in> N. (r, d) \<in> E\<^sup>* \<and> hm_get previous d = Some p}"
      using st by blast
    fix q assume "q \<in> insert usize_max {p. \<exists>d \<in> N. (r, d) \<in> E\<^sup>* \<and> hm_get previous d = Some p}"
    then consider "q = usize_max" | d where "d \<in> N" "(r, d) \<in> E\<^sup>*" "hm_get previous d = Some q" by blast
    then show "position_in inh r \<le> q"
    proof cases
      case 2
      then have "position_in inh d \<le> q" using st by blast
      with le [OF 2(2)] max show ?thesis by linarith
    qed (use max in simp)
  qed
  then show ?thesis by (simp add: inherited_position_def assms(3))
qed

section \<open>The whole recomputation\<close>

definition displayed_key :: "domain_model \<Rightarrow> dag_order \<Rightarrow> run_id \<Rightarrow> dag_key" where
  "displayed_key m order r =
     (inherited_position (known_runs m) (known_dependencies m) (do_previous_positions order) r,
      opt_unwrap_or 0 (hm_get (run_ordinals m) r), r)"

lemma displayed_key_inj: "inj_on (displayed_key m order) N"
  by (rule inj_onI) (simp add: displayed_key_def)

lemma finite_known_runs [simp]: "finite (known_runs m)"
  by (simp add: known_runs_def)

lemma effective_positions_get:
  "r \<in> set nodes \<Longrightarrow> hm_get (effective_positions previous inherited nodes) r
    = Some (case hm_get previous r of Some position \<Rightarrow> position | None \<Rightarrow> position_in inherited r)"
  by (cases "hm_get previous r"; induction nodes) (auto simp: effective_positions_def position_in_def)

lemma dag_key_displayed:
  assumes "r \<in> known_runs m"
  shows "dag_key_of m order r = displayed_key m order r"
proof -
  let ?nodes = "hm_keys (run_ordinals m)" and ?prev = "do_previous_positions order"
  let ?g = "dag_graph_of ?nodes (dm_dependency_edges m)"
  obtain seeded queue where seed: "seed_positions ?prev ?nodes = (seeded, queue)"
    by (cases "seed_positions ?prev ?nodes")
  note seeds = seed_positions_works [of ?prev ?nodes, unfolded seed fst_conv snd_conv run_ordinals_keys]
  let ?inh = "propagate_positions (dg_reverse ?g) seeded queue"
  have "settled (known_runs m) (known_dependencies m) ?prev seeded (set queue)"
    unfolding settled_def seeds(2)
  proof (intro conjI allI impI)
    show "position_in seeded r = usize_max
      \<or> (\<exists>d \<in> known_runs m. (r, d) \<in> (known_dependencies m)\<^sup>* \<and> hm_get ?prev d = Some (position_in seeded r))" for r
      unfolding seeds(1) by (cases "hm_get ?prev r") (simp_all, blast)
    show "position_in seeded d \<le> p" if "d \<in> known_runs m" "hm_get ?prev d = Some p" for d p
      using that unfolding seeds(1) by simp
    show "position_in seeded r \<le> usize_max" if "hm_get ?prev r = None" for r
      using that unfolding seeds(1) by simp
    show "min usize_max (position_in seeded r) \<le> min usize_max (position_in seeded d)"
      if e: "(r, d) \<in> known_dependencies m" "d \<notin> {r \<in> known_runs m. hm_get ?prev r \<noteq> None}" for r d
    proof -
      have "hm_get ?prev d = None" using e known_dependencies_sub [of m] by blast
      then show ?thesis unfolding seeds(1) by simp
    qed
  qed
  then have "settled (known_runs m) (known_dependencies m) ?prev ?inh {}"
    by (rule propagate_settles) (simp add: dag_graph(2) known_edges_set)
  from propagated_position [OF finite_known_runs this]
  have inh: "hm_get ?prev r = None \<Longrightarrow>
      position_in ?inh r = inherited_position (known_runs m) (known_dependencies m) ?prev r" .
  have "r \<in> set ?nodes" using assms by (simp only: run_ordinals_keys)
  then have "hm_get (effective_positions ?prev ?inh ?nodes) r = Some (case hm_get ?prev r of
      Some position \<Rightarrow> position | None \<Rightarrow> position_in ?inh r)"
    by (rule effective_positions_get)
  then show ?thesis
    using inh
    by (auto simp: dag_key_of_def Let_def seed order_key_def displayed_key_def inherited_position_def
        split: option.splits)
qed

lemma emits_resorted:
  assumes "emits N E key X rs" and "sorted (map key' rs)"
  shows "emits N E key' X rs"
  using assms
proof (induction rule: emits.induct)
  case (emits_none X)
  then show ?case by (intro emits.emits_none)
next
  case (emits_next r X rs)
  have later: "s \<in> set (r # rs)" if "s \<in> ready_runs N E X" for s
    using emits_facts(3) [OF emits_next.hyps(3)] that by (auto simp: ready_runs_def)
  show ?case
  proof (rule emits.emits_next)
    show "r \<in> ready_runs N E X" by (rule emits_next.hyps(1))
    show "key' r \<le> key' s" if "s \<in> ready_runs N E X" for s
      using later [OF that] emits_next.prems by auto
    show "emits N E key' (insert r X) rs" using emits_next.IH emits_next.prems by simp
  qed
qed

lemma displayed_order_resorted:
  assumes "displayed_order N E key ids" and "sorted (map key' ids)"
  shows "displayed_order N E key' ids"
proof -
  obtain xs ys where ids: "ids = xs @ ys" "emits N E key {} xs" "set ys = N - set xs" "distinct ys"
    using assms(1) by (auto simp: displayed_order_def)
  with assms(2) emits_resorted [OF ids(2)] show ?thesis
    unfolding displayed_order_def by (intro exI [of _ xs] exI [of _ ys]) (auto simp: sorted_append)
qed

lemma emits_cong:
  assumes "emits N E key X rs" and "\<And>r. r \<in> N \<Longrightarrow> key r = key' r"
  shows "emits N E key' X rs"
  using assms
proof (induction rule: emits.induct)
  case (emits_next r X rs)
  then have "r \<in> N" "\<And>s. s \<in> ready_runs N E X \<Longrightarrow> s \<in> N" by (auto simp: ready_runs_def)
  with emits_next show ?case by (intro emits.emits_next) metis+
qed (intro emits.emits_none)

lemma displayed_order_cong:
  assumes "displayed_order N E key ids" and eq: "\<And>r. r \<in> N \<Longrightarrow> key r = key' r"
  shows "displayed_order N E key' ids"
proof -
  obtain xs ys where ids: "ids = xs @ ys" "emits N E key {} xs" "set ys = N - set xs" "distinct ys"
      "sorted (map key ys)"
    using assms(1) by (auto simp: displayed_order_def)
  have "map key ys = map key' ys" using eq ids(3) by auto
  with emits_cong [OF ids(2) eq] ids show ?thesis unfolding displayed_order_def by metis
qed

definition topological :: "(run_id \<times> run_id) set \<Rightarrow> run_id list \<Rightarrow> bool" where
  "topological E ids \<longleftrightarrow> (\<forall>i < length ids. \<forall>p. (p, ids ! i) \<in> E \<longrightarrow> p \<in> set (take i ids))"

lemma emits_all_iff:
  assumes "emits N E key {} xs" and "finite N" and "E \<subseteq> N \<times> N"
  shows "set xs = N \<longleftrightarrow> acyclic E"
proof
  assume "acyclic E"
  have fin: "finite E" using assms(2,3) by (meson finite_SigmaI finite_subset)
  have wf: "wf E" by (rule finite_acyclic_wf [OF fin \<open>acyclic E\<close>])
  show "set xs = N"
  proof (rule ccontr)
    assume "set xs \<noteq> N"
    then obtain n where "n \<in> N - set xs" using emits_facts(2) [OF assms(1)] by auto
    then obtain z where z: "z \<in> N - set xs" "\<And>y. (y, z) \<in> E \<Longrightarrow> y \<notin> N - set xs" using wf by (metis wfE_min)
    then have "z \<in> ready_runs N E ({} \<union> set xs)" using assms(3) by (auto simp: ready_runs_def)
    with emits_facts(3) [OF assms(1)] show False by simp
  qed
next
  assume all: "set xs = N"
  let ?at = "inv_into {..<length xs} ((!) xs)"
  have at: "?at (xs ! i) = i" if "i < length xs" for i
    using that emits_facts(1) [OF assms(1)] by (intro inv_into_f_f inj_on_nth) auto
  have "?at p < ?at n" if e: "(p, n) \<in> E" for p n
  proof -
    have "n \<in> set xs" using e assms(3) all by auto
    then obtain i where i: "i < length xs" "xs ! i = n" by (auto simp: in_set_conv_nth)
    then have "p \<in> set (take i xs)" using emits_facts(4) [OF assms(1) i(1)] e by auto
    then obtain j where "j < i" "xs ! j = p" using i(1) by (auto simp: in_set_conv_nth)
    then show ?thesis using i at by auto
  qed
  then have "E \<subseteq> measure ?at" by auto
  then show "acyclic E" by (meson wf_measure wf_subset wf_acyclic)
qed

lemma displayed_topological_iff:
  assumes "displayed_order N E key ids" and "finite N" and "E \<subseteq> N \<times> N"
  shows "topological E ids \<longleftrightarrow> acyclic E"
proof -
  obtain xs ys where ids: "ids = xs @ ys" "emits N E key {} xs" "set ys = N - set xs" "distinct ys"
    using assms(1) by (auto simp: displayed_order_def)
  note all = emits_all_iff [OF ids(2) assms(2,3)]
  show ?thesis
  proof
    assume "acyclic E"
    then have "ys = []" using all ids(3) by auto
    with emits_facts(4) [OF ids(2)] show "topological E ids" by (simp add: topological_def ids(1))
  next
    assume top: "topological E ids"
    have "ys = []"
    proof (rule ccontr)
      assume ne: "ys \<noteq> []"
      have "hd ys \<in> ready_runs N E ({} \<union> set xs)"
        using top [unfolded topological_def ids(1), rule_format, of "length xs"] ne ids(3)
        by (cases ys) (auto simp: ready_runs_def)
      with emits_facts(3) [OF ids(2)] show False by simp
    qed
    with ids(3) emits_facts(2) [OF ids(2)] all show "acyclic E" by auto
  qed
qed

lemma recompute_works:
  obtains order' where "recompute m order = Some order'"
    and "displayed_order (known_runs m) (known_dependencies m) (displayed_key m order) (do_run_ids order')"
    and "do_previous_positions order' = zip (do_run_ids order') [0..<length (do_run_ids order')]"
    and "do_cycle_fallbacks order' = (if acyclic (known_dependencies m) then do_cycle_fallbacks order
      else u64_saturating_add (do_cycle_fallbacks order) 1)"
proof -
  let ?nodes = "hm_keys (run_ordinals m)" and ?key = "dag_key_of m order"
  let ?E = "known_edges ?nodes (dm_dependency_edges m)"
  let ?g = "dag_graph_of ?nodes (dm_dependency_edges m)"
  let ?ready = "fold (insort_key ?key) (filter (\<lambda>r. hm_get (dg_indegree ?g) r = Some 0) ?nodes) []"
  have sub: "set ?E \<subseteq> set ?nodes \<times> set ?nodes"
    using known_dependencies_sub [of m] by (simp only: known_edges_set run_ordinals_keys)
  have "emit_state (set ?nodes) ?E ?key {} [] (dg_indegree ?g) ?ready"
    by (rule emit_initial [OF run_ordinals_keys(2) sub dag_graph(3)])
  from emit_ready_works [OF this _ sub dag_graph(1), of "[]"] obtain xs
    where run: "emit_ready ?key (dg_outgoing ?g) (dg_indegree ?g) ?ready [] = Some xs"
      and "emits (set ?nodes) (set ?E) ?key {} xs" by auto
  then have xs: "emits (known_runs m) (known_dependencies m) ?key {} xs"
    by (simp only: known_edges_set run_ordinals_keys)
  let ?ys = "sort_key ?key (filter (\<lambda>r. r \<notin> set xs) ?nodes)"
  have ys: "set ?ys = known_runs m - set xs" "distinct ?ys"
    using run_ordinals_keys [of m] by (auto simp del: set_map)
  have len: "length xs = length ?nodes \<longleftrightarrow> set xs = known_runs m"
  proof -
    have "length xs = card (set xs)" "length ?nodes = card (known_runs m)"
      using emits_facts(1) [OF xs] run_ordinals_keys [of m] by (metis distinct_card)+
    then show ?thesis
      using card_subset_eq [OF finite_known_runs, of "set xs" m] emits_facts(2) [OF xs] by auto
  qed
  let ?ids = "if length xs \<noteq> length ?nodes then xs @ ?ys else xs"
  have "displayed_order (known_runs m) (known_dependencies m) ?key ?ids"
  proof (cases "length xs = length ?nodes")
    case True
    then have "set [] = known_runs m - set xs" using len by simp
    with xs True show ?thesis unfolding displayed_order_def
      by (intro exI [of _ xs] exI [of _ "[]"]) simp
  next
    case False
    with xs ys show ?thesis unfolding displayed_order_def
      by (intro exI [of _ xs] exI [of _ ?ys]) simp
  qed
  from displayed_order_cong [OF this dag_key_displayed]
  have order: "displayed_order (known_runs m) (known_dependencies m) (displayed_key m order) ?ids" .
  have fallbacks: "acyclic (known_dependencies m) \<longleftrightarrow> length xs = length ?nodes"
    using emits_all_iff [OF xs finite_known_runs known_dependencies_sub] len by simp
  show ?thesis
    by (rule that [of "\<lparr>do_run_ids = ?ids, do_previous_positions = zip ?ids [0..<length ?ids],
        do_cycle_fallbacks = if length xs \<noteq> length ?nodes
          then u64_saturating_add (do_cycle_fallbacks order) 1 else do_cycle_fallbacks order\<rparr>"])
      (use order fallbacks run in \<open>simp_all add: recompute_def Let_def\<close>)
qed

end
