(* ===== verification/Tree_Laws.thy ===== *)
theory Tree_Laws
  imports Tree_Rows
begin

text \<open>
  The execution tree shows exactly the visible runs. A run is placed under a pane, under the run
  that dispatched it, or in the unattached group; the check for cyclic parent chains is what keeps
  a nested run reachable from a row of its own.
\<close>

declare chain_returns.simps [simp del]
declare append_run_subtree.simps [simp del]

section \<open>Runs of rows\<close>

definition row_runs :: "tree_row list \<Rightarrow> run_id set" where
  "row_runs rows = {r. \<exists>row \<in> set rows. key_run_id (rw_key row) = Some r}"

lemma row_runs_simps [simp]:
  "row_runs [] = {}"
  "row_runs (xs @ ys) = row_runs xs \<union> row_runs ys"
  "row_runs (row # rows) = (case key_run_id (rw_key row) of None \<Rightarrow> {} | Some r \<Rightarrow> {r}) \<union> row_runs rows"
  by (auto simp: row_runs_def split: option.splits)

lemma key_run_id_simps [simp]:
  "key_run_id SessionKey = None" "key_run_id (WorkspaceKey i) = None" "key_run_id (TabKey i) = None"
  "key_run_id (PaneKey i) = None" "key_run_id UnattachedGroup = None"
  "key_run_id (AgentRowKey i pane) = None" "key_run_id (RunRowKey r pane) = Some r"
  by (simp_all add: key_run_id_def)

lemma plain_row_key [simp]: "rw_key (plain_row key depth label) = key"
  by (simp add: plain_row_def)

lemma append_agents_runs: "row_runs (fst (append_agents cx children pane depth visited agents)) = {}"
proof (induction cx children pane depth visited agents rule: append_agents.induct)
  case (2 cx children pane depth visited agent agents)
  then show ?case by (auto simp: agent_row_def Let_def split: prod.splits)
qed simp

lemma append_agent_rows_runs [simp]: "row_runs (append_agent_rows cx agents pane depth) = {}"
  by (simp add: append_agent_rows_def Let_def append_agents_runs split: prod.splits)

lemma run_row_key [simp]: "rw_key (run_row cx r run shared pane depth show) = RunRowKey r pane"
  by (simp add: run_row_def Let_def)

section \<open>Nested runs\<close>

text \<open>The nesting relation of a context, and all that is shown below a run.\<close>

definition nesting :: "(run_id, run_id list) hmap \<Rightarrow> (run_id \<times> run_id) set" where
  "nesting nested = {(q, d). \<exists>children. hm_get nested q = Some children \<and> d \<in> set children}"

definition below :: "(run_id, run_id list) hmap \<Rightarrow> run_id \<Rightarrow> run_id set" where
  "below nested q = {d. (q, d) \<in> (nesting nested)\<^sup>*}"

definition known :: "domain_model \<Rightarrow> run_id set" where
  "known m = {r. get_task_run m r \<noteq> None}"

lemma below_unfold: "below nested q = insert q (\<Union>d \<in> {d. (q, d) \<in> nesting nested}. below nested d)"
  by (auto simp: below_def elim: converse_rtranclE intro: converse_rtrancl_into_rtrancl)

lemma below_trans: "d \<in> below nested q \<Longrightarrow> below nested d \<subseteq> below nested q"
  by (auto simp: below_def intro: rtrancl_trans)

lemma nested_not_below:
  assumes "acyclic (nesting nested)" and "hm_get nested r = Some children" and "c \<in> set children"
  shows "r \<notin> below nested c"
proof
  assume "r \<in> below nested c"
  then have "(c, r) \<in> (nesting nested)\<^sup>*" by (simp add: below_def)
  moreover have "(r, c) \<in> nesting nested" using assms(2,3) by (auto simp: nesting_def)
  ultimately have "(r, r) \<in> (nesting nested)\<^sup>+" by (simp add: rtrancl_into_trancl2)
  with assms(1) show False by (simp add: acyclic_def)
qed

text \<open>A subtree that is not shared shows its run and everything nested below it, and nothing else.\<close>

lemma subtree_shows:
  assumes "runs_keyed (rx_model cx)" and "acyclic (nesting (rx_nested_runs cx))"
    and "snd ` nesting (rx_nested_runs cx) \<subseteq> known (rx_model cx)"
  shows "fst placement \<in> known (rx_model cx) \<Longrightarrow> below (rx_nested_runs cx) (fst placement) \<inter> set ancestors = {} \<Longrightarrow>
      \<not> snd placement \<Longrightarrow>
      row_runs (fst (append_run_subtree timing cx ancestors placement pane depth disp expanded))
        = below (rx_nested_runs cx) (fst placement)
      \<and> snd (append_run_subtree timing cx ancestors placement pane depth disp expanded) = expanded"
    and "set children \<subseteq> known (rx_model cx) \<Longrightarrow>
      (\<Union>c \<in> set children. below (rx_nested_runs cx) c) \<inter> set ancestors = {} \<Longrightarrow>
      row_runs (fst (append_nested_runs timing cx ancestors children depth' expanded'))
        = (\<Union>c \<in> set children. below (rx_nested_runs cx) c)
      \<and> snd (append_nested_runs timing cx ancestors children depth' expanded') = expanded'"
  using assms
proof (induction timing cx ancestors placement pane depth disp expanded
    and timing cx ancestors children depth' expanded' rule: append_run_subtree_append_nested_runs.induct)
  case (1 timing cx ancestors r shared pane depth disp expanded)
  let ?below = "below (rx_nested_runs cx)"
  obtain run where run: "get_task_run (rx_model cx) r = Some run" using "1.prems" by (auto simp: known_def)
  then have rid: "tr_run_id run = r" using "1.prems" by (auto simp: runs_keyed_def)
  have fresh: "r \<notin> set ancestors" using "1.prems"(2) below_unfold [of "rx_nested_runs cx" r] by auto
  show ?case
  proof (cases "hm_get (rx_nested_runs cx) r")
    case None
    then have "?below r = {r}" by (subst below_unfold) (auto simp: nesting_def)
    then show ?thesis using None run fresh "1.prems"(3) rid by (simp add: append_run_subtree.simps Let_def)
  next
    case (Some children)
    have kids: "{d. (r, d) \<in> nesting (rx_nested_runs cx)} = set children"
      using Some by (auto simp: nesting_def)
    have sub: "?below c \<subseteq> ?below r" if "c \<in> set children" for c
      using kids that by (intro below_trans) (auto simp: below_def)
    have apart: "(\<Union>c \<in> set children. ?below c) \<inter> set (r # ancestors) = {}"
    proof -
      have "r \<notin> ?below c" if "c \<in> set children" for c
        by (rule nested_not_below [OF "1.prems"(5) Some that])
      with sub "1.prems"(2) show ?thesis by (force simp: disjoint_iff)
    qed
    have known: "set children \<subseteq> known (rx_model cx)"
      using "1.prems"(6) kids by (force simp: image_iff)
    from "1.IH" [OF fresh run refl refl refl, of children] Some "1.prems" known apart
    have ih: "row_runs (fst (append_nested_runs timing cx (r # ancestors) children (depth + 1) expanded))
        = (\<Union>c \<in> set children. ?below c)
      \<and> snd (append_nested_runs timing cx (r # ancestors) children (depth + 1) expanded) = expanded"
      by simp
    have "?below r = insert r (\<Union>c \<in> set children. ?below c)" by (subst below_unfold) (simp add: kids)
    with ih run fresh Some "1.prems"(3) rid show ?thesis
      by (auto simp: append_run_subtree.simps Let_def split: prod.splits)
  qed
next
  case (2 timing cx ancestors depth expanded)
  then show ?case by simp
next
  case (3 timing cx ancestors child children depth expanded)
  have one: "row_runs (fst (append_run_subtree timing cx ancestors (child, False) None depth False expanded))
        = below (rx_nested_runs cx) child
      \<and> snd (append_run_subtree timing cx ancestors (child, False) None depth False expanded) = expanded"
    using "3.IH"(1) "3.prems" by auto
  have "row_runs (fst (append_nested_runs timing cx ancestors children depth expanded))
        = (\<Union>c \<in> set children. below (rx_nested_runs cx) c)
      \<and> snd (append_nested_runs timing cx ancestors children depth expanded) = expanded"
    using "3.IH"(2) [OF prod.collapse] "3.prems" one by auto
  with one show ?case by (auto split: prod.splits)
qed

text \<open>A context whose nested runs are visible, known and not nested in a cycle.\<close>

definition context_ok :: "run_row_context \<Rightarrow> bool" where
  "context_ok cx \<longleftrightarrow> runs_keyed (rx_model cx) \<and> acyclic (nesting (rx_nested_runs cx))
     \<and> snd ` nesting (rx_nested_runs cx) \<subseteq> known (rx_model cx)"

lemma placement_shows:
  assumes "context_ok cx" and "r \<in> known (rx_model cx)"
  shows "row_runs (fst (append_run_subtree timing cx [] (r, shared) pane depth disp expanded))
      = (if shared \<and> r \<in> set expanded then {r} else below (rx_nested_runs cx) r)"
    and "set (snd (append_run_subtree timing cx [] (r, shared) pane depth disp expanded))
      = (if shared then insert r (set expanded) else set expanded)"
proof -
  let ?below = "below (rx_nested_runs cx)"
  note ok = assms(1) [unfolded context_ok_def]
  obtain run where run: "get_task_run (rx_model cx) r = Some run" using assms(2) by (auto simp: known_def)
  then have rid: "tr_run_id run = r" using ok by (auto simp: runs_keyed_def)
  have "row_runs (fst (append_run_subtree timing cx [] (r, shared) pane depth disp expanded))
      = (if shared \<and> r \<in> set expanded then {r} else ?below r)
    \<and> set (snd (append_run_subtree timing cx [] (r, shared) pane depth disp expanded))
      = (if shared then insert r (set expanded) else set expanded)"
  proof (cases "hm_get (rx_nested_runs cx) r")
    case None
    then have "?below r = {r}" by (subst below_unfold) (auto simp: nesting_def)
    then show ?thesis using None run rid by (simp add: append_run_subtree.simps Let_def)
  next
    case (Some children)
    have kids: "{d. (r, d) \<in> nesting (rx_nested_runs cx)} = set children"
      using Some by (auto simp: nesting_def)
    have all: "?below r = insert r (\<Union>c \<in> set children. ?below c)" by (subst below_unfold) (simp add: kids)
    have "(\<Union>c \<in> set children. ?below c) \<inter> set [r] = {}"
      using nested_not_below [OF _ Some] ok by simp
    moreover have "set children \<subseteq> known (rx_model cx)" using ok kids by (force simp: image_iff)
    ultimately have nested: "row_runs (fst (append_nested_runs timing cx [r] children (depth + 1) e))
        = (\<Union>c \<in> set children. ?below c)
      \<and> snd (append_nested_runs timing cx [r] children (depth + 1) e) = e" for e
      using ok by (intro subtree_shows(2)) auto
    show ?thesis
      using Some run rid nested [of expanded] nested [of "hs_insert r expanded"]
      by (auto simp: append_run_subtree.simps Let_def all split: prod.splits)
  qed
  then show "row_runs (fst (append_run_subtree timing cx [] (r, shared) pane depth disp expanded))
      = (if shared \<and> r \<in> set expanded then {r} else ?below r)"
    "set (snd (append_run_subtree timing cx [] (r, shared) pane depth disp expanded))
      = (if shared then insert r (set expanded) else set expanded)" by simp_all
qed

section \<open>The loops of the tree\<close>

text \<open>
  \<open>vis\<close> is what may be shown; what has been expanded is shown in full.
\<close>

definition shows_state :: "run_row_context \<Rightarrow> run_id set \<Rightarrow> tree_row list \<Rightarrow> run_id list \<Rightarrow> bool" where
  "shows_state cx vis rows expanded \<longleftrightarrow> row_runs rows \<subseteq> vis
     \<and> (\<forall>q \<in> set expanded. below (rx_nested_runs cx) q \<subseteq> row_runs rows)"

lemma append_run_rows_shows:
  assumes "context_ok cx" and "shows_state cx vis rows expanded"
    and "\<And>r shared. (r, shared) \<in> set runs \<Longrightarrow> r \<in> known (rx_model cx) \<and> below (rx_nested_runs cx) r \<subseteq> vis"
    and "append_run_rows timing cx runs pane depth (rows, expanded) = (rows', expanded')"
  shows "shows_state cx vis rows' expanded' \<and> row_runs rows \<subseteq> row_runs rows'
    \<and> (\<forall>r shared. (r, shared) \<in> set runs \<longrightarrow> below (rx_nested_runs cx) r \<subseteq> row_runs rows')"
  using assms(2-4)
proof (induction runs arbitrary: rows expanded)
  case Nil
  then show ?case by (simp add: append_run_rows_def)
next
  case (Cons placement runs)
  obtain r shared where pl: "placement = (r, shared)" by (cases placement)
  obtain new e where sub: "append_run_subtree timing cx [] (r, shared) pane depth (pane \<noteq> None) expanded = (new, e)"
    by fastforce
  have known: "r \<in> known (rx_model cx)" and vis: "below (rx_nested_runs cx) r \<subseteq> vis"
    using Cons.prems(2) [of r shared] by (auto simp: pl)
  note facts = placement_shows [OF assms(1) known, of timing shared pane depth "pane \<noteq> None" expanded,
      unfolded sub fst_conv snd_conv]
  have self: "r \<in> below (rx_nested_runs cx) r" by (simp add: below_def)
  have st: "shows_state cx vis (rows @ new) e"
    using Cons.prems(1) facts vis self by (auto simp: shows_state_def split: if_splits)
  have now: "below (rx_nested_runs cx) r \<subseteq> row_runs (rows @ new)"
    using Cons.prems(1) facts by (auto simp: shows_state_def split: if_splits)
  have rest: "append_run_rows timing cx runs pane depth (rows @ new, e) = (rows', expanded')"
    using Cons.prems(3) unfolding append_run_rows_def pl fold_simps prod.case sub .
  have sub': "q \<in> known (rx_model cx) \<and> below (rx_nested_runs cx) q \<subseteq> vis" if "(q, sh) \<in> set runs" for q sh
    by (rule Cons.prems(2) [OF list.set_intros(2) [OF that]])
  have ih: "shows_state cx vis rows' expanded' \<and> row_runs (rows @ new) \<subseteq> row_runs rows'
      \<and> (\<forall>q sh. (q, sh) \<in> set runs \<longrightarrow> below (rx_nested_runs cx) q \<subseteq> row_runs rows')"
    by (rule Cons.IH [OF st _ rest]) (rule sub')
  show ?case
  proof (intro conjI allI impI)
    show "shows_state cx vis rows' expanded'" "row_runs rows \<subseteq> row_runs rows'" using ih by auto
    show "below (rx_nested_runs cx) q \<subseteq> row_runs rows'" if "(q, sh) \<in> set (placement # runs)" for q sh
      using that ih now by (auto simp: pl)
  qed
qed

lemma append_run_rows_grows:
  "append_run_rows timing cx runs pane depth (rows, expanded) = (rows', expanded') \<Longrightarrow>
     row_runs rows \<subseteq> row_runs rows'"
proof (induction runs arbitrary: rows expanded)
  case Nil
  then show ?case by (simp add: append_run_rows_def)
next
  case (Cons placement runs)
  obtain new e where sub: "append_run_subtree timing cx [] placement pane depth (pane \<noteq> None) expanded = (new, e)"
    by fastforce
  have "append_run_rows timing cx runs pane depth (rows @ new, e) = (rows', expanded')"
    using Cons.prems unfolding append_run_rows_def fold_simps prod.case sub .
  from Cons.IH [OF this] show ?case by simp
qed

text \<open>A pane is settled when its runs are all shown, with what is nested below them.\<close>

definition pane_settled ::
  "run_row_context \<Rightarrow> (string, (run_id \<times> bool) list) hmap \<Rightarrow> string \<Rightarrow> tree_state \<Rightarrow> bool" where
  "pane_settled cx pane_runs i ts \<longleftrightarrow>
     (\<forall>runs r shared. hm_get pane_runs i = Some runs \<longrightarrow> (r, shared) \<in> set runs \<longrightarrow>
        below (rx_nested_runs cx) r \<subseteq> row_runs (ts_rows ts))"

definition tree_inv ::
  "run_row_context \<Rightarrow> (string, (run_id \<times> bool) list) hmap \<Rightarrow> run_id set \<Rightarrow> tree_state \<Rightarrow> bool" where
  "tree_inv cx pane_runs vis ts \<longleftrightarrow> shows_state cx vis (ts_rows ts) (ts_expanded ts)
     \<and> (\<forall>i. hm_get (ts_pane_runs ts) i = hm_get pane_runs i
          \<or> hm_get (ts_pane_runs ts) i = None \<and> pane_settled cx pane_runs i ts)"

definition tree_step ::
  "run_row_context \<Rightarrow> (string, (run_id \<times> bool) list) hmap \<Rightarrow> run_id set \<Rightarrow> tree_state \<Rightarrow> tree_state \<Rightarrow> bool" where
  "tree_step cx pane_runs vis ts ts' \<longleftrightarrow>
     (tree_inv cx pane_runs vis ts \<longrightarrow> tree_inv cx pane_runs vis ts')
     \<and> row_runs (ts_rows ts) \<subseteq> row_runs (ts_rows ts')"

lemma settled_mono:
  "pane_settled cx pane_runs i ts \<Longrightarrow> row_runs (ts_rows ts) \<subseteq> row_runs (ts_rows ts') \<Longrightarrow>
     pane_settled cx pane_runs i ts'"
  by (fastforce simp: pane_settled_def)

lemma plain_step:
  "key_run_id key = None \<Longrightarrow>
     tree_step cx pane_runs vis ts (ts\<lparr>ts_rows := ts_rows ts @ [plain_row key depth label]\<rparr>)"
  by (auto simp: tree_step_def tree_inv_def shows_state_def pane_settled_def)

lemma tree_step_trans:
  "tree_step cx pane_runs vis ts ts' \<Longrightarrow> tree_step cx pane_runs vis ts' ts'' \<Longrightarrow>
     tree_step cx pane_runs vis ts ts''"
  by (auto simp: tree_step_def)

text \<open>A loop whose body settles what each entry is responsible for.\<close>

lemma tree_steps:
  assumes "\<And>x ts. x \<in> set xs \<Longrightarrow> tree_step cx pane_runs vis ts (f x ts)"
  shows "tree_step cx pane_runs vis ts (fold f xs ts)"
  using assms
proof (induction xs arbitrary: ts)
  case Nil
  then show ?case by (simp add: tree_step_def)
next
  case (Cons x xs)
  then show ?case using tree_step_trans by (metis fold_simps(2) list.set_intros)
qed

lemma tree_fold:
  assumes "\<And>x ts. x \<in> set xs \<Longrightarrow> tree_step cx pane_runs vis ts (f x ts)"
    and "\<And>x ts i. x \<in> set xs \<Longrightarrow> i \<in> panes_of x \<Longrightarrow> tree_inv cx pane_runs vis ts \<Longrightarrow>
      pane_settled cx pane_runs i (f x ts)"
  shows "tree_step cx pane_runs vis ts (fold f xs ts)"
    and "x \<in> set xs \<Longrightarrow> i \<in> panes_of x \<Longrightarrow> tree_inv cx pane_runs vis ts \<Longrightarrow>
      pane_settled cx pane_runs i (fold f xs ts)"
proof -
  show "tree_step cx pane_runs vis ts (fold f xs ts)" by (rule tree_steps [OF assms(1)])
  show "pane_settled cx pane_runs i (fold f xs ts)"
    if "x \<in> set xs" "i \<in> panes_of x" "tree_inv cx pane_runs vis ts"
    using assms that
  proof (induction xs arbitrary: ts)
    case (Cons y xs)
    have later: "tree_step cx pane_runs vis t (fold f xs t)" for t
      by (rule tree_steps) (simp add: Cons.prems(1))
    have inv: "tree_inv cx pane_runs vis (f y ts)" using Cons.prems by (auto simp: tree_step_def)
    show ?case
    proof (cases "x = y")
      case True
      then have "pane_settled cx pane_runs i (f y ts)" using Cons.prems by auto
      then show ?thesis using later [of "f y ts"] by (auto simp: tree_step_def intro: settled_mono)
    next
      case False
      with Cons inv show ?thesis by simp
    qed
  qed simp
qed

text \<open>What the placement must guarantee of the panes.\<close>

definition panes_ok ::
  "run_row_context \<Rightarrow> (string, (run_id \<times> bool) list) hmap \<Rightarrow> run_id set \<Rightarrow> bool" where
  "panes_ok cx pane_runs vis \<longleftrightarrow> (\<forall>i runs r shared. hm_get pane_runs i = Some runs \<longrightarrow>
     (r, shared) \<in> set runs \<longrightarrow> r \<in> known (rx_model cx) \<and> below (rx_nested_runs cx) r \<subseteq> vis)"

lemma append_pane_step:
  assumes "context_ok cx" and "panes_ok cx pane_runs vis"
  shows "tree_step cx pane_runs vis ts (append_pane timing cx pane ts)"
    and "tree_inv cx pane_runs vis ts \<Longrightarrow> pane_settled cx pane_runs (pn_pane_id pane) (append_pane timing cx pane ts)"
proof -
  let ?i = "pn_pane_id pane"
  let ?row = "plain_row (PaneKey ?i) 3 (topology_row_label ''Pane'' ?i (pn_display_name pane))"
  let ?ts = "ts\<lparr>ts_rows := ts_rows ts @ [?row]\<rparr>"
  have plain: "tree_step cx pane_runs vis ts ?ts" by (rule plain_step) simp
  have "tree_step cx pane_runs vis ts (append_pane timing cx pane ts)
    \<and> (tree_inv cx pane_runs vis ts \<longrightarrow> pane_settled cx pane_runs ?i (append_pane timing cx pane ts))"
  proof (cases "hm_get (ts_pane_runs ts) ?i")
    case None
    then have eq: "append_pane timing cx pane ts = ?ts" by (simp add: append_pane_def Let_def)
    have "pane_settled cx pane_runs ?i ts" if "tree_inv cx pane_runs vis ts"
    proof -
      have "hm_get pane_runs ?i = None \<or> pane_settled cx pane_runs ?i ts"
        using that None unfolding tree_inv_def by metis
      then show ?thesis by (auto simp: pane_settled_def)
    qed
    then show ?thesis unfolding eq using plain by (auto simp: tree_step_def intro: settled_mono)
  next
    case (Some runs)
    obtain rows e where run: "append_run_rows timing cx runs (Some ?i) 4 (ts_rows ?ts, ts_expanded ts) = (rows, e)"
      by fastforce
    have eq: "append_pane timing cx pane ts
        = \<lparr>ts_rows = rows, ts_pane_runs = hm_del ?i (ts_pane_runs ts), ts_expanded = e\<rparr>"
      using Some run by (simp add: append_pane_def Let_def)
    have grow: "row_runs (ts_rows ts) \<subseteq> row_runs rows"
      using append_run_rows_grows [OF run] by simp
    have inv: "tree_inv cx pane_runs vis (append_pane timing cx pane ts)
        \<and> pane_settled cx pane_runs ?i (append_pane timing cx pane ts)" if t: "tree_inv cx pane_runs vis ts"
    proof -
      have orig: "hm_get pane_runs ?i = Some runs" using t Some unfolding tree_inv_def by (metis option.discI)
      have st: "shows_state cx vis (ts_rows ?ts) (ts_expanded ts)"
        using t by (auto simp: tree_inv_def shows_state_def)
      have ok: "r \<in> known (rx_model cx) \<and> below (rx_nested_runs cx) r \<subseteq> vis" if "(r, shared) \<in> set runs" for r shared
        using assms(2) orig that by (auto simp: panes_ok_def)
      note shown = append_run_rows_shows [OF assms(1) st ok run]
      from shown have done_: "shows_state cx vis rows e"
          "\<forall>r shared. (r, shared) \<in> set runs \<longrightarrow> below (rx_nested_runs cx) r \<subseteq> row_runs rows" by simp_all
      have settled: "pane_settled cx pane_runs ?i (append_pane timing cx pane ts)"
        unfolding pane_settled_def eq using done_(2) orig by simp
      have "hm_get (ts_pane_runs (append_pane timing cx pane ts)) i = hm_get pane_runs i
          \<or> hm_get (ts_pane_runs (append_pane timing cx pane ts)) i = None
            \<and> pane_settled cx pane_runs i (append_pane timing cx pane ts)" for i
      proof (cases "i = ?i")
        case False
        from t have "hm_get (ts_pane_runs ts) i = hm_get pane_runs i
            \<or> hm_get (ts_pane_runs ts) i = None \<and> pane_settled cx pane_runs i ts" unfolding tree_inv_def by blast
        moreover have "pane_settled cx pane_runs i ts \<Longrightarrow> pane_settled cx pane_runs i (append_pane timing cx pane ts)"
          by (erule settled_mono) (use grow in \<open>simp add: eq\<close>)
        ultimately show ?thesis using False by (auto simp: eq)
      qed (use settled in \<open>simp add: eq\<close>)
      then have "tree_inv cx pane_runs vis (append_pane timing cx pane ts)"
        unfolding tree_inv_def using done_(1) by (simp add: eq)
      with settled show ?thesis by blast
    qed
    then show ?thesis using grow by (simp add: tree_step_def eq)
  qed
  then show "tree_step cx pane_runs vis ts (append_pane timing cx pane ts)"
    "tree_inv cx pane_runs vis ts \<Longrightarrow> pane_settled cx pane_runs ?i (append_pane timing cx pane ts)" by blast+
qed

definition tab_panes :: "domain_model \<Rightarrow> string \<Rightarrow> tab \<Rightarrow> string set" where
  "tab_panes m w tab = {pn_pane_id p |p. p \<in> set (hm_values (dm_panes m))
     \<and> pn_workspace_id p = w \<and> pn_tab_id p = tb_tab_id tab}"

lemma append_tab_step:
  assumes "context_ok cx" and "panes_ok cx pane_runs vis"
  shows "tree_step cx pane_runs vis ts (append_tab timing cx w tab ts)"
    and "i \<in> tab_panes (rx_model cx) w tab \<Longrightarrow> tree_inv cx pane_runs vis ts \<Longrightarrow>
      pane_settled cx pane_runs i (append_tab timing cx w tab ts)"
proof -
  let ?i = "tb_tab_id tab"
  let ?ts = "ts\<lparr>ts_rows := ts_rows ts @ [plain_row (TabKey ?i) 2 (topology_row_label ''Tab'' ?i (tb_label tab))]\<rparr>"
  let ?panes = "sort_key (\<lambda>p. topology_rank (rx_model cx) KindPane (pn_pane_id p))
    (filter (\<lambda>p. pn_workspace_id p = w \<and> pn_tab_id p = ?i) (hm_values (dm_panes (rx_model cx))))"
  have eq: "append_tab timing cx w tab ts = fold (append_pane timing cx) ?panes ?ts"
    by (simp add: append_tab_def Let_def)
  have plain: "tree_step cx pane_runs vis ts ?ts" by (rule plain_step) simp
  note step = append_pane_step [OF assms]
  have settle: "pane_settled cx pane_runs i (append_pane timing cx p t)"
    if "i \<in> {pn_pane_id p}" "tree_inv cx pane_runs vis t" for p t i
    using step(2) [OF that(2)] that(1) by simp
  show "tree_step cx pane_runs vis ts (append_tab timing cx w tab ts)"
    unfolding eq by (rule tree_step_trans [OF plain tree_steps]) (rule step(1))
  show "pane_settled cx pane_runs i (append_tab timing cx w tab ts)"
    if "i \<in> tab_panes (rx_model cx) w tab" "tree_inv cx pane_runs vis ts"
  proof -
    from that(1) obtain p where "p \<in> set (hm_values (dm_panes (rx_model cx)))"
        "pn_workspace_id p = w" "pn_tab_id p = ?i" "i = pn_pane_id p"
      unfolding tab_panes_def by blast
    then have p: "p \<in> set ?panes" "i \<in> {pn_pane_id p}" by simp_all
    have "tree_inv cx pane_runs vis ?ts" using plain that(2) by (simp add: tree_step_def)
    then show ?thesis unfolding eq
      using tree_fold(2) [where f = "append_pane timing cx" and panes_of = "\<lambda>p. {pn_pane_id p}",
          OF step(1) settle p] by blast
  qed
qed

definition workspace_panes :: "domain_model \<Rightarrow> workspace \<Rightarrow> string set" where
  "workspace_panes m w = (\<Union>tab \<in> {t \<in> set (hm_values (dm_tabs m)). tb_workspace_id t = ws_workspace_id w}.
     tab_panes m (ws_workspace_id w) tab)"

lemma append_workspace_step:
  assumes "context_ok cx" and "panes_ok cx pane_runs vis"
  shows "tree_step cx pane_runs vis ts (append_workspace timing cx w ts)"
    and "i \<in> workspace_panes (rx_model cx) w \<Longrightarrow> tree_inv cx pane_runs vis ts \<Longrightarrow>
      pane_settled cx pane_runs i (append_workspace timing cx w ts)"
proof -
  let ?i = "ws_workspace_id w"
  let ?ts = "ts\<lparr>ts_rows := ts_rows ts @ [plain_row (WorkspaceKey ?i) 1 (''Workspace: '' @ safe_text ?i)]\<rparr>"
  let ?tabs = "sort_key (\<lambda>t. topology_rank (rx_model cx) KindTab (tb_tab_id t))
    (filter (\<lambda>t. tb_workspace_id t = ?i) (hm_values (dm_tabs (rx_model cx))))"
  have eq: "append_workspace timing cx w ts = fold (append_tab timing cx ?i) ?tabs ?ts"
    by (simp add: append_workspace_def Let_def)
  have plain: "tree_step cx pane_runs vis ts ?ts" by (rule plain_step) simp
  note step = append_tab_step [OF assms]
  show "tree_step cx pane_runs vis ts (append_workspace timing cx w ts)"
    unfolding eq by (rule tree_step_trans [OF plain tree_steps]) (rule step(1))
  show "pane_settled cx pane_runs i (append_workspace timing cx w ts)"
    if "i \<in> workspace_panes (rx_model cx) w" "tree_inv cx pane_runs vis ts"
  proof -
    from that(1) obtain tab where tab: "tab \<in> set ?tabs" "i \<in> tab_panes (rx_model cx) ?i tab"
      by (auto simp: workspace_panes_def)
    have "tree_inv cx pane_runs vis ?ts" using plain that(2) by (simp add: tree_step_def)
    then show ?thesis unfolding eq
      using tree_fold(2) [where f = "append_tab timing cx ?i" and panes_of = "tab_panes (rx_model cx) ?i",
          OF step(1) step(2) tab] by blast
  qed
qed

end
