(* ===== verification/Tree_Placement.thy ===== *)
theory Tree_Placement
  imports Tree_Laws Cycles
begin

text \<open>
  What the placement of runs guarantees: each visible run stands in a pane that will be drawn, in
  the unattached group, or below another visible run, and the runs that are nested in one
  another form no cycle. With the loops of \<open>Tree_Laws\<close> this gives the completeness of the tree.
\<close>

section \<open>The loop that places the runs\<close>

definition in_pane :: "(string, (run_id \<times> bool) list) hmap \<Rightarrow> string \<Rightarrow> run_id \<Rightarrow> bool" where
  "in_pane pane_runs i r \<longleftrightarrow> (\<exists>runs. hm_get pane_runs i = Some runs \<and> r \<in> fst ` set runs)"

lemma in_pane_push [simp]:
  "in_pane (pl_pane_runs (pane_push j (q, shared) p)) i r \<longleftrightarrow>
     in_pane (pl_pane_runs p) i r \<or> i = j \<and> r = q"
  by (cases "hm_get (pl_pane_runs p) j") (auto simp: in_pane_def pane_push_def entry_push_def)

lemma pane_push_other [simp]:
  "pl_unplaced (pane_push j x p) = pl_unplaced p"
  "pl_candidate_parents (pane_push j x p) = pl_candidate_parents p"
  by (simp_all add: pane_push_def)

lemma pane_pushes:
  "in_pane (pl_pane_runs (fold (\<lambda>j. pane_push j (q, shared)) js p)) i r \<longleftrightarrow>
     in_pane (pl_pane_runs p) i r \<or> i \<in> set js \<and> r = q"
  "pl_unplaced (fold (\<lambda>j. pane_push j (q, shared)) js p) = pl_unplaced p"
  "pl_candidate_parents (fold (\<lambda>j. pane_push j (q, shared)) js p) = pl_candidate_parents p"
  by (induction js arbitrary: p) auto

text \<open>
  \<open>V\<close> are the runs to be shown and \<open>D\<close> those the loop has passed.
\<close>

definition placed_ok :: "domain_model \<Rightarrow> run_id set \<Rightarrow> run_id set \<Rightarrow> run_placements \<Rightarrow> bool" where
  "placed_ok m V D p \<longleftrightarrow>
     (\<forall>i r. in_pane (pl_pane_runs p) i r \<longrightarrow> r \<in> V \<and> pane_is_renderable m i)
   \<and> set (pl_unplaced p) \<subseteq> V
   \<and> (\<forall>r q. hm_get (pl_candidate_parents p) r = Some q \<longrightarrow> q \<in> V)
   \<and> (\<forall>r \<in> D. r \<in> set (pl_unplaced p) \<or> (\<exists>i. in_pane (pl_pane_runs p) i r))"

lemma dispatch_parent_known:
  assumes "runs_keyed m" and "dispatch_parent_run m r = Some parent"
  shows "tr_run_id parent \<in> known m"
proof -
  from assms(2) obtain q where "get_task_run m q = Some parent"
    by (auto simp: dispatch_parent_run_def filter_map_set dest!: first_of_SomeD)
  with assms(1) show ?thesis by (auto simp: known_def runs_keyed_def)
qed

lemma last_of_SomeD: "last_of xs = Some x \<Longrightarrow> x \<in> set xs"
  by (auto simp: last_of_def split: if_splits)

lemma place_run_ok:
  assumes "runs_keyed m" and "placed_ok m (set visible \<inter> known m) D p"
    and "tr_run_id run \<in> set visible \<inter> known m"
  shows "placed_ok m (set visible \<inter> known m) (insert (tr_run_id run) D) (place_run m order visible run p)"
proof -
  let ?V = "set visible \<inter> known m"
  let ?r = "tr_run_id run"
  let ?all = "filter (\<lambda>e. ex_task_run_id e = ?r) (executions m)"
  let ?shown = "sort_key (execution_rank order) (filter (\<lambda>e. pane_is_renderable m (ex_pane_id e)) ?all)"
  let ?live = "hs_extend [] (map ex_pane_id (filter (\<lambda>e. \<not> exec_is_terminal (ex_state e)) ?shown))"
  have live: "pane_is_renderable m i" if "i \<in> set ?live" for i using that by auto
  show ?thesis
  proof (cases "?live = []")
    case False
    then have eq: "place_run m order visible run p
        = fold (\<lambda>pane. pane_push pane (?r, 1 < length ?live)) ?live p"
      by (simp add: place_run_def Let_def)
    obtain i where "i \<in> set ?live" using False by (metis list.set_intros(1) neq_Nil_conv)
    with assms live show ?thesis unfolding placed_ok_def eq pane_pushes by blast
  next
    case none: True
    show ?thesis
    proof (cases "last_of ?shown")
      case (Some e)
      then have eq: "place_run m order visible run p = pane_push (ex_pane_id e) (?r, False) p"
        using none by (simp add: place_run_def Let_def)
      have "pane_is_renderable m (ex_pane_id e)" using last_of_SomeD [OF Some] by simp
      with assms show ?thesis unfolding placed_ok_def eq by auto
    next
      case None
      then have eq: "place_run m order visible run p =
         (let p = p\<lparr>pl_unplaced := pl_unplaced p @ [?r]\<rparr>
          in (case dispatch_parent_run m ?r of
                Some parent \<Rightarrow>
                  if ?all = [] \<and> tr_run_id parent \<in> set visible
                  then p\<lparr>pl_candidate_parents := hm_put ?r (tr_run_id parent) (pl_candidate_parents p)\<rparr>
                  else p
              | None \<Rightarrow> p))"
        using none by (simp add: place_run_def Let_def)
      show ?thesis
        using assms dispatch_parent_known [OF assms(1)] unfolding eq Let_def
        by (cases "dispatch_parent_run m ?r") (auto simp: placed_ok_def)
    qed
  qed
qed

lemma place_run_fold_ok:
  assumes "runs_keyed m" and "placed_ok m (set visible \<inter> known m) D p"
    and "tr_run_id ` set runs \<subseteq> set visible \<inter> known m"
  shows "placed_ok m (set visible \<inter> known m) (tr_run_id ` set runs \<union> D) (fold (place_run m order visible) runs p)"
  using assms(2,3)
proof (induction runs arbitrary: p D)
  case (Cons run runs)
  have "placed_ok m (set visible \<inter> known m) (insert (tr_run_id run) D) (place_run m order visible run p)"
    using Cons.prems by (intro place_run_ok [OF assms(1)]) auto
  from Cons.IH [OF this] Cons.prems(2) show ?case by simp
qed simp

section \<open>Nesting or leaving\<close>

definition parents_of :: "(run_id, run_id) hmap \<Rightarrow> (run_id \<times> run_id) set" where
  "parents_of parents = {(q, d). hm_get parents d = Some q}"

text \<open>A chain that does not return is well founded: it ends in a run without a parent.\<close>

lemma chain_ends:
  "\<not> chain_returns parents seen current \<Longrightarrow> current \<in> Wellfounded.acc (parents_of parents)"
proof (induction parents seen current rule: chain_returns.induct)
  case (1 parents seen current)
  from "1.prems" have new: "current \<notin> set seen" by (subst (asm) chain_returns.simps) (simp split: if_splits)
  show ?case
  proof (rule accI)
    fix q
    assume "(q, current) \<in> parents_of parents"
    then have q: "hm_get parents current = Some q" by (simp add: parents_of_def)
    from "1.prems" new q have "\<not> chain_returns parents (current # seen) q"
      by (subst (asm) chain_returns.simps) simp
    from "1.IH" [OF new q this] show "q \<in> Wellfounded.acc (parents_of parents)" .
  qed
qed

definition nest_ok :: "(run_id, run_id) hmap \<Rightarrow> run_id set \<Rightarrow> run_id list \<times> (run_id, run_id list) hmap \<Rightarrow> bool" where
  "nest_ok parents D st \<longleftrightarrow>
     (\<forall>q d. d \<in> set (listed (snd st) q) \<longrightarrow> d \<in> D \<and> hm_get parents d = Some q \<and> \<not> parent_chain_has_cycle d parents)
   \<and> set (fst st) \<subseteq> D
   \<and> (\<forall>d \<in> D. d \<in> set (fst st) \<or> (\<exists>q. d \<in> set (listed (snd st) q)))"

lemma nest_or_leave_ok:
  assumes "nest_ok parents D st"
  shows "nest_ok parents (insert r D) (nest_or_leave parents r st)"
proof -
  obtain u n where st: "st = (u, n)" by (cases st)
  show ?thesis
  proof (cases "\<exists>q. hm_get parents r = Some q \<and> \<not> parent_chain_has_cycle r parents")
    case True
    then obtain q where "nest_or_leave parents r st = (u, list_push q r n)" "hm_get parents r = Some q"
      "\<not> parent_chain_has_cycle r parents" by (auto simp: nest_or_leave_def st)
    with assms show ?thesis unfolding nest_ok_def st by (auto split: if_splits)
  next
    case False
    then have "nest_or_leave parents r st = (u @ [r], n)"
      by (auto simp: nest_or_leave_def st split: option.splits)
    with assms show ?thesis unfolding nest_ok_def st by auto
  qed
qed

lemma nest_or_leave_fold_ok:
  "nest_ok parents D st \<Longrightarrow> nest_ok parents (set rs \<union> D) (fold (nest_or_leave parents) rs st)"
proof (induction rs arbitrary: st D)
  case (Cons r rs)
  from Cons.IH [OF nest_or_leave_ok [OF Cons.prems, of r]] show ?case by simp
qed simp

section \<open>Sorting and deduplicating\<close>

lemma dedup_by_keys: "key ` set (dedup_by key xs) = key ` set xs"
  by (induction key xs rule: dedup_by.induct) auto

lemma dedup_by_subset: "set (dedup_by key xs) \<subseteq> set xs"
  by (induction key xs rule: dedup_by.induct) auto

lemma dedup_by_id [simp]: "set (dedup_by id xs) = set xs"
  using dedup_by_keys [of id xs] by simp

definition sorted_placements :: "domain_model \<Rightarrow> (run_id \<times> bool) list \<Rightarrow> (run_id \<times> bool) list" where
  "sorted_placements m runs = dedup_by fst (sort_key (\<lambda>(r, _). run_rank m r) runs)"

lemma in_pane_sorted [simp]:
  "in_pane (hm_map_values (sorted_placements m) t) i r \<longleftrightarrow> in_pane t i r"
proof -
  have "fst ` set (sorted_placements m runs) = fst ` set runs" for runs
    by (simp add: sorted_placements_def dedup_by_keys)
  then show ?thesis by (cases "hm_get t i") (simp_all add: in_pane_def)
qed

lemma listed_sorted [simp]:
  "set (listed (hm_map_values (\<lambda>runs. dedup_by id (sort_key (run_rank m) runs)) t) q) = set (listed t q)"
  by (cases "hm_get t q") (simp_all add: listed_def)

lemma nesting_listed: "nesting nested = {(q, d). d \<in> set (listed nested q)}"
  unfolding nesting_def listed_def
proof (intro Collect_cong, clarify)
  fix q d
  show "(\<exists>children. hm_get nested q = Some children \<and> d \<in> set children)
      = (d \<in> set (opt_unwrap_or [] (hm_get nested q)))" by (cases "hm_get nested q") auto
qed

section \<open>The placement as a whole\<close>

text \<open>Rows of the tables that the tree walks stand under their own identifiers.\<close>

definition tree_keyed :: "domain_model \<Rightarrow> bool" where
  "tree_keyed m \<longleftrightarrow> hm_ok (dm_task_runs m) \<and> runs_keyed m
     \<and> (\<forall>i p. get_pane m i = Some p \<longrightarrow> pn_pane_id p = i)
     \<and> (\<forall>i t. get_tab m i = Some t \<longrightarrow> tb_tab_id t = i)
     \<and> (\<forall>i w. get_workspace m i = Some w \<longrightarrow> ws_workspace_id w = i)"

lemma visible_runs:
  assumes "tree_keyed m"
  shows "tr_run_id ` set (filter (\<lambda>run. tr_run_id run \<in> set visible) (task_runs m)) = set visible \<inter> known m"
proof -
  have ok: "hm_ok (dm_task_runs m)" and keyed: "\<And>r t. hm_get (dm_task_runs m) r = Some t \<Longrightarrow> tr_run_id t = r"
    using assms by (auto simp: tree_keyed_def runs_keyed_def get_task_run_def)
  show ?thesis
    using keyed hm_values_iff [OF ok] by (fastforce simp: known_def get_task_run_def image_iff)
qed

lemma place_runs_ok:
  assumes "tree_keyed m" and "place_runs m order visible = (pane_runs, unattached, nested)"
  shows "in_pane pane_runs i r \<Longrightarrow> r \<in> set visible \<inter> known m \<and> pane_is_renderable m i"
    and "set unattached \<subseteq> set visible \<inter> known m"
    and "snd ` nesting nested \<subseteq> set visible \<inter> known m"
    and "acyclic (nesting nested)"
    and "set visible \<inter> known m
      = (\<Union>q \<in> {q. (\<exists>i. in_pane pane_runs i q) \<or> q \<in> set unattached}. below nested q)"
proof -
  let ?V = "set visible \<inter> known m"
  let ?p0 = "\<lparr>pl_pane_runs = [], pl_unplaced = [], pl_candidate_parents = []\<rparr>"
  define runs where "runs = sort_key tr_run_id (filter (\<lambda>run. tr_run_id run \<in> set visible) (task_runs m))"
  define p where "p = fold (place_run m order visible) runs ?p0"
  define cp where "cp = pl_candidate_parents p"
  obtain u n where un: "fold (nest_or_leave cp) (pl_unplaced p) ([], []) = (u, n)" by fastforce
  have runs: "tr_run_id ` set runs = ?V" using visible_runs [OF assms(1)] by (simp add: runs_def)
  have eqs: "pane_runs = hm_map_values (sorted_placements m) (pl_pane_runs p)"
      "unattached = dedup_by id (sort_key (run_rank m) u)"
      "nested = hm_map_values (\<lambda>runs. dedup_by id (sort_key (run_rank m) runs)) n"
    using assms(2) un unfolding place_runs_def Let_def runs_def [symmetric] p_def [symmetric] cp_def [symmetric]
      sorted_placements_def by auto
  have keyed: "runs_keyed m" using assms(1) by (simp add: tree_keyed_def)
  have "placed_ok m ?V {} ?p0" by (simp add: placed_ok_def in_pane_def)
  from place_run_fold_ok [OF keyed this, of runs order, folded p_def] runs
  have placed: "placed_ok m ?V ?V p" by simp
  have "nest_ok cp {} ([], [])" by (simp add: nest_ok_def)
  from nest_or_leave_fold_ok [OF this, of "pl_unplaced p", unfolded un]
  have nest: "nest_ok cp (set (pl_unplaced p)) (u, n)" by simp
  have nesting: "nesting nested = {(q, d). d \<in> set (listed n q)}" by (simp add: nesting_listed eqs(3))
  have sub: "nesting nested \<subseteq> parents_of cp" using nest by (auto simp: nesting nest_ok_def parents_of_def)
  have ends: "d \<in> Wellfounded.acc (parents_of cp)" if "(q, d) \<in> nesting nested" for q d
    by (rule chain_ends [where seen = "[]"])
      (use nest that in \<open>auto simp: nesting nest_ok_def parent_chain_has_cycle_def\<close>)
  show panes: "in_pane pane_runs i r \<Longrightarrow> r \<in> ?V \<and> pane_is_renderable m i" for i r
    using placed unfolding eqs in_pane_sorted placed_ok_def by blast
  have unplaced: "set (pl_unplaced p) \<subseteq> ?V" using placed by (simp add: placed_ok_def)
  have u: "set unattached = set u" by (simp add: eqs)
  show left: "set unattached \<subseteq> ?V" using nest unplaced unfolding u nest_ok_def by auto
  show nested_vis: "snd ` nesting nested \<subseteq> ?V"
    using nest unplaced unfolding nesting nest_ok_def by auto
  show "acyclic (nesting nested)"
  proof (rule acyclicI, rule allI, rule notI)
    fix x
    assume loop: "(x, x) \<in> (nesting nested)\<^sup>+"
    then obtain q where "(q, x) \<in> nesting nested" by (meson tranclD2)
    then have "x \<in> Wellfounded.acc (parents_of cp)" by (rule ends)
    moreover have "(x, x) \<in> (parents_of cp)\<^sup>+" using loop sub by (meson trancl_mono)
    ultimately show False using not_acc_loop by metis
  qed
  let ?top = "{q. (\<exists>i. in_pane pane_runs i q) \<or> q \<in> set unattached}"
  let ?shown = "\<Union>q \<in> ?top. below nested q"
  have top: "?top \<subseteq> ?shown" by (auto simp: below_def)
  have closed: "d \<in> ?shown" if "(q, d) \<in> nesting nested" "q \<in> ?shown" for q d
    using that by (auto simp: below_def intro: rtrancl_into_rtrancl)
  have cover: "r \<in> ?top \<or> (\<exists>q. (q, r) \<in> nesting nested)" if "r \<in> ?V" for r
  proof -
    have "r \<in> set (pl_unplaced p) \<or> (\<exists>i. in_pane pane_runs i r)"
      using placed that unfolding placed_ok_def eqs(1) in_pane_sorted by blast
    moreover have "r \<in> set u \<or> (\<exists>q. (q, r) \<in> nesting nested)" if "r \<in> set (pl_unplaced p)"
      using nest that unfolding nest_ok_def nesting by simp
    ultimately show ?thesis unfolding u by blast
  qed
  have "r \<in> ?V \<longrightarrow> r \<in> ?shown" if "r \<in> Wellfounded.acc (parents_of cp)" for r
    using that
  proof (induction rule: acc.induct)
    case (accI d)
    show ?case
    proof
      assume d: "d \<in> ?V"
      show "d \<in> ?shown"
      proof (cases "d \<in> ?top")
        case False
        with cover [OF d] obtain q where q: "(q, d) \<in> nesting nested" by blast
        then have par: "(q, d) \<in> parents_of cp" using sub by blast
        then have "q \<in> ?V" using placed by (simp add: placed_ok_def parents_of_def cp_def)
        then have "q \<in> ?shown" using accI.IH [OF par] by blast
        with q show ?thesis by (rule closed)
      qed (use top in blast)
    qed
  qed
  then have "r \<in> ?shown" if "r \<in> ?V" for r
    using that cover [OF that] ends top by (metis (no_types, lifting) subsetD)
  moreover have "below nested q \<subseteq> ?V" if "q \<in> ?V" for q
  proof
    fix d
    assume "d \<in> below nested q"
    then have "(q, d) \<in> (nesting nested)\<^sup>*" by (simp add: below_def)
    then show "d \<in> ?V" using that nested_vis by cases force+
  qed
  ultimately show "?V = ?shown" using panes left by blast
qed

section \<open>Completeness of the tree\<close>

lemma renderable_workspace:
  assumes "tree_keyed m" and "pane_is_renderable m i"
  shows "\<exists>w \<in> set (hm_values (dm_workspaces m)). i \<in> workspace_panes m w"
proof -
  from assms(2) obtain p t w where
    rows: "get_pane m i = Some p" "get_tab m (pn_tab_id p) = Some t" "get_workspace m (pn_workspace_id p) = Some w"
    and tab: "tb_workspace_id t = pn_workspace_id p"
    by (cases "get_tab m (pn_tab_id (the (get_pane m i)))")
      (auto simp: pane_is_renderable_def split: option.splits)
  then have keys: "pn_pane_id p = i" "tb_tab_id t = pn_tab_id p" "ws_workspace_id w = pn_workspace_id p"
    using assms(1) by (auto simp: tree_keyed_def)
  have stored: "p \<in> set (hm_values (dm_panes m))" "t \<in> set (hm_values (dm_tabs m))"
      "w \<in> set (hm_values (dm_workspaces m))"
    using rows by (force simp: get_pane_def get_tab_def get_workspace_def dest: map_of_SomeD)+
  have "i \<in> tab_panes m (ws_workspace_id w) t" using keys stored(1) unfolding tab_panes_def by auto
  then have "i \<in> workspace_panes m w" using keys tab stored(2) unfolding workspace_panes_def by auto
  with stored(3) show ?thesis by blast
qed

lemma tree_rows_visible:
  assumes "tree_keyed m"
  shows "row_runs (build_tree_rows_with_statuses timing m order session_name now_ms newest_agents statuses visible)
      = set visible \<inter> known m"
proof -
  let ?V = "set visible \<inter> known m"
  obtain pane_runs unattached nested where place: "place_runs m order visible = (pane_runs, unattached, nested)"
    by (metis prod_cases3)
  note facts = place_runs_ok [OF assms place]
  define cx where "cx = \<lparr>rx_model = m, rx_nested_runs = nested, rx_newest_agents = newest_agents,
      rx_live_lines = live_lines_from_model m, rx_stalled_runs = stalled_run_ids m now_ms (dt_stall_warn_ms timing),
      rx_statuses = statuses, rx_native_aliases = native_alias_index_from_model m, rx_now_ms = now_ms\<rparr>"
  define ws where "ws = sort_key (\<lambda>w. topology_rank m KindWorkspace (ws_workspace_id w)) (hm_values (dm_workspaces m))"
  define ts0 where "ts0 = \<lparr>ts_rows = [plain_row SessionKey 0 (''Session: '' @ session_name)],
      ts_pane_runs = pane_runs, ts_expanded = []\<rparr>"
  define ts where "ts = fold (append_workspace timing cx) ws ts0"
  have cx: "rx_model cx = m" "rx_nested_runs cx = nested" by (simp_all add: cx_def)
  have ok: "context_ok cx" using assms facts(3,4) by (simp add: context_ok_def cx tree_keyed_def)
  have below: "below nested r \<subseteq> ?V" if "(\<exists>i. in_pane pane_runs i r) \<or> r \<in> set unattached" for r
    using that facts(5) by blast
  have in_pane: "in_pane pane_runs i r" if "hm_get pane_runs i = Some runs" "(r, shared) \<in> set runs" for i runs r shared
    using that by (force simp: in_pane_def)
  have panes: "panes_ok cx pane_runs ?V"
    unfolding panes_ok_def cx using in_pane facts(1) below by blast
  have inv0: "tree_inv cx pane_runs ?V ts0" by (simp add: tree_inv_def shows_state_def ts0_def)
  note step = append_workspace_step [OF ok panes]
  have "tree_step cx pane_runs ?V ts0 ts"
    unfolding ts_def by (rule tree_steps) (rule step(1))
  with inv0 have st: "shows_state cx ?V (ts_rows ts) (ts_expanded ts)" by (simp add: tree_step_def tree_inv_def)
  have drawn: "below nested r \<subseteq> row_runs (ts_rows ts)" if r: "in_pane pane_runs i r" for i r
  proof -
    from r obtain runs shared where runs: "hm_get pane_runs i = Some runs" "(r, shared) \<in> set runs"
      by (auto simp: in_pane_def)
    have "pane_is_renderable m i" using facts(1) [OF r] by blast
    from renderable_workspace [OF assms this] have "\<exists>w \<in> set ws. i \<in> workspace_panes (rx_model cx) w"
      unfolding ws_def cx by simp
    then obtain w where w: "w \<in> set ws" "i \<in> workspace_panes (rx_model cx) w" by blast
    have "pane_settled cx pane_runs i ts"
      using tree_fold(2) [where f = "append_workspace timing cx" and panes_of = "workspace_panes (rx_model cx)",
          OF step(1) step(2) w inv0] unfolding ts_def by blast
    with runs show ?thesis unfolding pane_settled_def cx by blast
  qed
  have eq: "build_tree_rows_with_statuses timing m order session_name now_ms newest_agents statuses visible
     = (if unattached = [] then ts_rows ts
        else fst (append_run_rows timing cx (map (\<lambda>r. (r, False)) unattached) None 2
               (ts_rows ts @ [plain_row UnattachedGroup 1 ''Unattached Task Runs''], ts_expanded ts)))"
    unfolding build_tree_rows_with_statuses_def append_execution_tree_rows_def place Let_def prod.case
      cx_def [symmetric] ws_def [symmetric] ts0_def [symmetric] ts_def [symmetric] ..
  show ?thesis
  proof (cases "unattached = []")
    case True
    then have "?V \<subseteq> row_runs (ts_rows ts)" unfolding facts(5) using drawn by auto
    with st True show ?thesis unfolding eq by (auto simp: shows_state_def)
  next
    case False
    obtain rows e where run: "append_run_rows timing cx (map (\<lambda>r. (r, False)) unattached) None 2
        (ts_rows ts @ [plain_row UnattachedGroup 1 ''Unattached Task Runs''], ts_expanded ts) = (rows, e)"
      by fastforce
    have st': "shows_state cx ?V (ts_rows ts @ [plain_row UnattachedGroup 1 ''Unattached Task Runs'']) (ts_expanded ts)"
      using st by (simp add: shows_state_def)
    have left: "r \<in> known (rx_model cx) \<and> below (rx_nested_runs cx) r \<subseteq> ?V"
      if "(r, shared) \<in> set (map (\<lambda>r. (r, False)) unattached)" for r shared
      using that facts(2) below unfolding cx by auto
    have shows_all: "shows_state cx ?V rows e
        \<and> row_runs (ts_rows ts @ [plain_row UnattachedGroup 1 ''Unattached Task Runs'']) \<subseteq> row_runs rows
        \<and> (\<forall>r shared. (r, shared) \<in> set (map (\<lambda>r. (r, False)) unattached) \<longrightarrow>
              below (rx_nested_runs cx) r \<subseteq> row_runs rows)"
      by (rule append_run_rows_shows [OF ok st' _ run]) (rule left)
    from shows_all have shown: "row_runs rows \<subseteq> ?V" "row_runs (ts_rows ts) \<subseteq> row_runs rows"
      unfolding shows_state_def by simp_all
    from shows_all have "\<forall>r shared. (r, shared) \<in> set (map (\<lambda>r. (r, False)) unattached) \<longrightarrow>
        below nested r \<subseteq> row_runs rows" unfolding cx by blast
    then have rest: "below nested r \<subseteq> row_runs rows" if "r \<in> set unattached" for r
      using that by auto
    have "?V \<subseteq> row_runs rows" unfolding facts(5) using drawn shown(2) rest by blast
    with shown(1) have "row_runs rows = ?V" by blast
    then show ?thesis unfolding eq using False run by simp
  qed
qed

end
