(* ===== verification/App_Laws.thy ===== *)
theory App_Laws
  imports App Dag_Laws Tree_Placement
begin

text \<open>
  Laws of the displayed rows and of the application: which rows collapsing and searching keep, in
  terms of the ancestors that the depths of the rows define; that every handler returns; that the
  rows of the application are always the projection of its model; and that the selection ends on
  a displayed row.
\<close>

section \<open>Ancestors\<close>

definition row_ancestor :: "tree_row list \<Rightarrow> nat \<Rightarrow> nat \<Rightarrow> bool" where
  "row_ancestor rows j i \<longleftrightarrow> j < i \<and> i < length rows
     \<and> (\<forall>k. j < k \<longrightarrow> k \<le> i \<longrightarrow> rw_depth (rows ! j) < rw_depth (rows ! k))"

definition in_collapsed :: "node_key list \<Rightarrow> tree_row \<Rightarrow> bool" where
  "in_collapsed collapsed row \<longleftrightarrow> collapse_key (rw_key row) \<in> set collapsed"

lemma all_upto_Suc: "(\<forall>k \<le> Suc i. P k) \<longleftrightarrow> P 0 \<and> (\<forall>k \<le> i. P (Suc k))"
  by (metis Suc_le_mono le_0_eq not0_implies_Suc zero_le)

lemma all_above_Suc: "(\<forall>k. Suc j < k \<longrightarrow> P k) \<longleftrightarrow> (\<forall>k. j < k \<longrightarrow> P (Suc k))"
proof (intro iffI allI impI)
  fix k assume "\<forall>k. j < k \<longrightarrow> P (Suc k)" and "Suc j < k"
  then show "P k" by (cases k) simp_all
qed simp

lemma row_ancestor_Cons:
  "row_ancestor (row # rows) j (Suc i) \<longleftrightarrow>
     (case j of 0 \<Rightarrow> i < length rows \<and> (\<forall>k \<le> i. rw_depth row < rw_depth (rows ! k))
      | Suc j' \<Rightarrow> row_ancestor rows j' i)"
proof (cases j)
  case 0
  have "(\<forall>k. 0 < k \<longrightarrow> k \<le> Suc i \<longrightarrow> rw_depth row < rw_depth ((row # rows) ! k))
      \<longleftrightarrow> (\<forall>k \<le> i. rw_depth row < rw_depth (rows ! k))"
    by (metis Suc_le_mono Suc_pred nth_Cons_Suc zero_less_Suc)
  with 0 show ?thesis by (simp add: row_ancestor_def)
next
  case (Suc j')
  have "(\<forall>k. Suc j' < k \<longrightarrow> k \<le> Suc i \<longrightarrow> rw_depth (rows ! j') < rw_depth ((row # rows) ! k))
      \<longleftrightarrow> (\<forall>k. j' < k \<longrightarrow> k \<le> i \<longrightarrow> rw_depth (rows ! j') < rw_depth (rows ! k))"
    using all_above_Suc [of j' "\<lambda>k. k \<le> Suc i \<longrightarrow> rw_depth (rows ! j') < rw_depth ((row # rows) ! k)"] by simp
  with Suc show ?thesis by (simp add: row_ancestor_def)
qed

lemma row_ancestor_0 [simp]: "\<not> row_ancestor rows j 0"
  by (simp add: row_ancestor_def)

definition hidden_at :: "node_key list \<Rightarrow> nat option \<Rightarrow> tree_row list \<Rightarrow> nat \<Rightarrow> bool" where
  "hidden_at collapsed h rows i \<longleftrightarrow> (\<exists>d. h = Some d \<and> (\<forall>k \<le> i. d < rw_depth (rows ! k)))
     \<or> (\<exists>j. row_ancestor rows j i \<and> in_collapsed collapsed (rows ! j))"

lemma hidden_at_Suc:
  assumes "i < length rows"
  shows "hidden_at collapsed h (row # rows) (Suc i) \<longleftrightarrow>
     (\<exists>d. h = Some d \<and> d < rw_depth row \<and> (\<forall>k \<le> i. d < rw_depth (rows ! k)))
     \<or> ((\<forall>k \<le> i. rw_depth row < rw_depth (rows ! k)) \<and> in_collapsed collapsed row)
     \<or> (\<exists>j. row_ancestor rows j i \<and> in_collapsed collapsed (rows ! j))"
proof -
  have "(\<exists>j. row_ancestor (row # rows) j (Suc i) \<and> in_collapsed collapsed ((row # rows) ! j))
      \<longleftrightarrow> (\<forall>k \<le> i. rw_depth row < rw_depth (rows ! k)) \<and> in_collapsed collapsed row
        \<or> (\<exists>j. row_ancestor rows j i \<and> in_collapsed collapsed (rows ! j))" (is "(\<exists>j. ?P j) = ?R")
  proof
    assume "\<exists>j. ?P j"
    then obtain j where "?P j" ..
    then show ?R using assms by (cases j) (auto simp: row_ancestor_Cons)
  next
    assume ?R
    then show "\<exists>j. ?P j"
    proof (elim disjE exE)
      assume "(\<forall>k \<le> i. rw_depth row < rw_depth (rows ! k)) \<and> in_collapsed collapsed row"
      then have "?P 0" using assms by (simp add: row_ancestor_Cons)
      then show ?thesis ..
    next
      fix j
      assume "row_ancestor rows j i \<and> in_collapsed collapsed (rows ! j)"
      then have "?P (Suc j)" by (simp add: row_ancestor_Cons)
      then show ?thesis ..
    qed
  qed
  then show ?thesis unfolding hidden_at_def all_upto_Suc by auto
qed

lemma hidden_at_0 [simp]: "hidden_at collapsed h (row # rows) 0 \<longleftrightarrow> (\<exists>d. h = Some d \<and> d < rw_depth row)"
  by (simp add: hidden_at_def)

lemma nths_cong: "(\<And>i. i < length xs \<Longrightarrow> i \<in> A \<longleftrightarrow> i \<in> B) \<Longrightarrow> nths xs A = nths xs B"
  by (induction xs arbitrary: A B) (auto simp: nths_Cons)

lemma collapse_rows_nths: "collapse_rows collapsed h rows = nths rows {i. \<not> hidden_at collapsed h rows i}"
proof (induction rows arbitrary: h)
  case Nil
  then show ?case by simp
next
  case (Cons row rows)
  show ?case
  proof (cases "\<exists>d. h = Some d \<and> d < rw_depth row")
    case True
    then obtain d where d: "h = Some d" "d < rw_depth row" by blast
    have "hidden_at collapsed h (row # rows) (Suc i) = hidden_at collapsed h rows i" if "i < length rows" for i
      unfolding hidden_at_Suc [OF that] unfolding hidden_at_def using d less_trans by fastforce
    then have "nths rows {i. \<not> hidden_at collapsed h rows i} = nths rows {i. Suc i \<in> {i. \<not> hidden_at collapsed h (row # rows) i}}"
      by (intro nths_cong) simp
    with d Cons.IH [of h] show ?thesis by (simp add: nths_Cons)
  next
    case False
    let ?h = "if in_collapsed collapsed row then Some (rw_depth row) else None"
    have "hidden_at collapsed h (row # rows) (Suc i) = hidden_at collapsed ?h rows i" if "i < length rows" for i
      unfolding hidden_at_Suc [OF that] unfolding hidden_at_def using False by auto
    then have "nths rows {i. \<not> hidden_at collapsed ?h rows i} = nths rows {i. Suc i \<in> {i. \<not> hidden_at collapsed h (row # rows) i}}"
      by (intro nths_cong) simp
    moreover have "\<not> opt_is_some_and (\<lambda>depth. depth < rw_depth row) h" using False by (cases h) auto
    ultimately show ?thesis using False Cons.IH [of ?h] by (simp add: nths_Cons in_collapsed_def)
  qed
qed

lemma apply_collapse_nths:
  "apply_collapse rows collapsed
     = nths rows {i. \<forall>j. row_ancestor rows j i \<longrightarrow> \<not> in_collapsed collapsed (rows ! j)}"
  unfolding apply_collapse_def collapse_rows_nths by (simp add: hidden_at_def)

section \<open>Matches and their ancestors\<close>

lemma take_Suc_enumerate:
  "n < length rows \<Longrightarrow> rev (take (Suc n) (enumerate 0 rows)) = (n, rows ! n) # rev (take n (enumerate 0 rows))"
  by (simp add: take_Suc_conv_app_nth nth_enumerate_eq)

lemma retain_ancestors_set:
  "n \<le> length rows \<Longrightarrow> set (retain_ancestors eligible target (rev (take n (enumerate 0 rows))) retained)
     = set retained \<union> {j. j < n \<and> eligible (rows ! j) \<and> rw_depth (rows ! j) < target
         \<and> (\<forall>k. j < k \<longrightarrow> k < n \<longrightarrow> rw_depth (rows ! j) < rw_depth (rows ! k))}"
proof (induction n arbitrary: target retained)
  case 0
  then show ?case by simp
next
  case (Suc n)
  let ?Q = "\<lambda>t j. j < n \<and> eligible (rows ! j) \<and> rw_depth (rows ! j) < t
      \<and> (\<forall>k. j < k \<longrightarrow> k < n \<longrightarrow> rw_depth (rows ! j) < rw_depth (rows ! k))"
  have split: "{j. j < Suc n \<and> eligible (rows ! j) \<and> rw_depth (rows ! j) < target
         \<and> (\<forall>k. j < k \<longrightarrow> k < Suc n \<longrightarrow> rw_depth (rows ! j) < rw_depth (rows ! k))}
      = {j. j = n \<and> eligible (rows ! n) \<and> rw_depth (rows ! n) < target} \<union> {j. ?Q (min target (rw_depth (rows ! n))) j}"
    by (auto simp: less_Suc_eq)
  note enum = take_Suc_enumerate [of n rows]
  show ?case
  proof (cases "rw_depth (rows ! n) < target")
    case True
    then have m: "min target (rw_depth (rows ! n)) = rw_depth (rows ! n)" by simp
    show ?thesis unfolding split m using Suc enum True by (auto simp: Let_def)
  next
    case False
    then have m: "min target (rw_depth (rows ! n)) = target" by simp
    show ?thesis unfolding split m using Suc enum False by simp
  qed
qed

lemma retain_tree_matches_nths:
  assumes "\<forall>i \<in> set direct. i < length rows"
  shows "retain_tree_matches m rows direct visible = nths rows {i. i \<in> set direct
     \<or> row_is_filter_eligible m (rows ! i) visible \<and> (\<exists>d \<in> set direct. row_ancestor rows i d)}"
proof -
  let ?e = "\<lambda>row. row_is_filter_eligible m row visible"
  let ?step = "\<lambda>index retained. retain_ancestors ?e (rw_depth (rows ! index))
      (rev (take index (enumerate 0 rows))) (hs_insert index retained)"
  have step: "set (?step d retained) = set retained \<union> {d} \<union> {j. ?e (rows ! j) \<and> row_ancestor rows j d}"
    if "d < length rows" for d retained
    unfolding retain_ancestors_set [OF less_imp_le [OF that]] using that
    by (auto simp: row_ancestor_def le_less)
  have "set (fold ?step direct retained) = set retained \<union> set direct
      \<union> {j. ?e (rows ! j) \<and> (\<exists>d \<in> set direct. row_ancestor rows j d)}" for retained
    using assms by (induction direct arbitrary: retained) (auto simp: step)
  then have all: "set (fold ?step direct []) = {i. i \<in> set direct
     \<or> ?e (rows ! i) \<and> (\<exists>d \<in> set direct. row_ancestor rows i d)}" by auto
  have enum: "map snd (filter (\<lambda>(i, _). i \<in> A) (enumerate n rows)) = nths rows {i. n + i \<in> A}" for A n
    by (induction rows arbitrary: n) (auto simp: nths_Cons)
  show ?thesis unfolding retain_tree_matches_def Let_def enum by (simp add: all)
qed

section \<open>The rows are the projection of the model\<close>

text \<open>The parts of the state that the rows depend on.\<close>

definition same_inputs :: "app_state \<Rightarrow> app_state \<Rightarrow> bool" where
  "same_inputs s s' \<longleftrightarrow> as_execution_order s = as_execution_order s' \<and> as_view_mode s = as_view_mode s'
     \<and> as_dag_order s = as_dag_order s' \<and> as_collapsed s = as_collapsed s'
     \<and> as_filter_query s = as_filter_query s' \<and> as_now_ms s = as_now_ms s'
     \<and> as_session_display_name s = as_session_display_name s'"

lemma same_inputs_projection:
  "same_inputs s s' \<Longrightarrow> build_projection env m s = build_projection env m s'"
proof -
  assume "same_inputs s s'"
  then have eqs: "as_execution_order s = as_execution_order s'" "as_view_mode s = as_view_mode s'"
      "as_dag_order s = as_dag_order s'" "as_collapsed s = as_collapsed s'"
      "as_filter_query s = as_filter_query s'" "as_now_ms s = as_now_ms s'"
      "as_session_display_name s = as_session_display_name s'" by (simp_all add: same_inputs_def)
  show ?thesis unfolding build_projection_def project_state_def build_full_rows_def eqs ..
qed

definition rows_current :: "app_env \<Rightarrow> app \<Rightarrow> bool" where
  "rows_current env app \<longleftrightarrow> build_projection env (ap_model app) (ap_state app)
     = Some \<lparr>rp_rows = ap_rows app, rp_next_expiry_ms = ap_next_expiry_ms app\<rparr>"

text \<open>A step that leaves the model, the rows and what they depend on as they are.\<close>

definition frames :: "app \<Rightarrow> app \<Rightarrow> bool" where
  "frames app app' \<longleftrightarrow> ap_model app' = ap_model app \<and> ap_rows app' = ap_rows app
     \<and> ap_next_expiry_ms app' = ap_next_expiry_ms app \<and> same_inputs (ap_state app) (ap_state app')"

lemma frames_current: "frames app app' \<Longrightarrow> rows_current env app \<Longrightarrow> rows_current env app'"
  unfolding frames_def rows_current_def using same_inputs_projection by metis

lemma frames_refl [simp]: "frames app app"
  by (simp add: frames_def same_inputs_def)

lemma frames_trans: "frames a b \<Longrightarrow> frames b c \<Longrightarrow> frames a c"
  by (simp add: frames_def same_inputs_def)

lemma frames_map: "(\<And>s. same_inputs s (f s)) \<Longrightarrow> frames app (map_state f app)"
  by (simp add: frames_def map_state_def)

lemma frames_selection [simp]: "frames app (set_selection selected app)"
  unfolding set_selection_def by (rule frames_map) (simp add: same_inputs_def)

lemma frames_clock [simp]: "frames app (snd (read_clock app))"
  by (simp add: read_clock_def frames_def same_inputs_def)

lemma frames_recover [simp]: "frames app (recover_selection old_rows new_rows hint app)"
proof -
  have reason: "frames a (map_state (\<lambda>s. s\<lparr>as_selection_reason := r\<rparr>) a)" for r a
    by (rule frames_map) (simp add: same_inputs_def)
  show ?thesis
    unfolding recover_selection_def Let_def
    by (auto split: option.split intro: reason frames_trans [OF frames_selection reason])
qed

lemma rebuild_current:
  assumes "rebuild_rows env app = Some (rows, app')"
  shows "rows_current env app'" and "rows = ap_rows app'" and "ap_model app' = ap_model app"
    and "\<exists>now. ap_state app' = (ap_state app)\<lparr>as_now_ms := now\<rparr>"
  using assms by (auto simp: rebuild_rows_def read_clock_def map_state_def rows_current_def
      split: option.splits)

lemma default_visible_some:
  assumes "runs_keyed m"
  shows "\<exists>v. default_visible_task_run_ids timing m now_ms = Some v"
  using visible_closure_least [OF assms] by blast

lemma build_projection_some:
  assumes "runs_keyed m"
  shows "\<exists>p. build_projection env m s = Some p"
  using default_visible_some [OF assms, of "ae_timing env" "as_now_ms s"]
  by (auto simp: build_projection_def project_state_def)

lemma rebuild_some:
  assumes "runs_keyed (ap_model app)"
  shows "\<exists>rows app'. rebuild_rows env app = Some (rows, app')"
proof -
  let ?app = "map_state (\<lambda>s. s\<lparr>as_now_ms := fst (read_clock app)\<rparr>) (snd (read_clock app))"
  have "ap_model ?app = ap_model app" by (simp add: map_state_def read_clock_def)
  then obtain p where "build_projection env (ap_model ?app) (ap_state ?app) = Some p"
    using build_projection_some [OF assms] by metis
  then show ?thesis by (simp add: rebuild_rows_def split_beta)
qed

lemma adopt_some: "\<exists>s'. adopt_model m s = Some s'"
proof -
  obtain order where "recompute m (as_dag_order s) = Some order" using recompute_works by blast
  then show ?thesis by (simp add: adopt_model_def)
qed

text \<open>The outcome of a handler: it returns, keeps the model and its order and leaves the rows current.\<close>

definition same_model :: "app \<Rightarrow> app \<Rightarrow> bool" where
  "same_model app app' \<longleftrightarrow> ap_model app' = ap_model app
     \<and> as_dag_order (ap_state app') = as_dag_order (ap_state app)"

definition good_step :: "app_env \<Rightarrow> app \<Rightarrow> app option \<Rightarrow> bool" where
  "good_step env app r \<longleftrightarrow> (\<exists>app'. r = Some app' \<and> rows_current env app' \<and> same_model app app')"

lemma good_step_Some: "good_step env app (Some app') \<longleftrightarrow> rows_current env app' \<and> same_model app app'"
  by (simp add: good_step_def)

lemma same_model_refl [simp]: "same_model app app"
  by (simp add: same_model_def)

lemma same_model_trans: "same_model a b \<Longrightarrow> same_model b c \<Longrightarrow> same_model a c"
  by (simp add: same_model_def)

lemma frames_model: "frames app app' \<Longrightarrow> same_model app app'"
  by (simp add: frames_def same_model_def same_inputs_def)

lemma good_frame: "rows_current env app' \<Longrightarrow> same_model app app' \<Longrightarrow> frames app' app'' \<Longrightarrow> good_step env app (Some app'')"
  unfolding good_step_Some using frames_current frames_model same_model_trans by blast

lemma good_step_trans: "same_model app app' \<Longrightarrow> good_step env app' r \<Longrightarrow> good_step env app r"
  unfolding good_step_def using same_model_trans by blast

lemma good_rebuild:
  assumes "runs_keyed (ap_model app)"
    and "\<And>rows app'. rows_current env app' \<Longrightarrow> rows = ap_rows app' \<Longrightarrow> same_model app app' \<Longrightarrow>
      good_step env app' (k (rows, app'))"
  shows "good_step env app (Option.bind (rebuild_rows env app) k)"
proof -
  obtain rows app' where r: "rebuild_rows env app = Some (rows, app')"
    using rebuild_some [OF assms(1), of env] by blast
  note cur = rebuild_current [OF r]
  have same: "same_model app app'" using cur(3,4) by (auto simp: same_model_def)
  show ?thesis using good_step_trans [OF same assms(2) [OF cur(1,2) same]] by (simp add: r)
qed

lemma good_rebuild_of:
  assumes "runs_keyed (ap_model app)" and "same_model app app'"
    and "\<And>rows app''. rows_current env app'' \<Longrightarrow> rows = ap_rows app'' \<Longrightarrow> same_model app' app'' \<Longrightarrow>
      good_step env app'' (k (rows, app''))"
  shows "good_step env app (Option.bind (rebuild_rows env app') k)"
  by (rule good_step_trans [OF assms(2) good_rebuild]) (use assms in \<open>auto simp: same_model_def\<close>)

lemma same_model_keyed: "same_model app app' \<Longrightarrow> runs_keyed (ap_model app) \<Longrightarrow> runs_keyed (ap_model app')"
  by (simp add: same_model_def)

lemma map_state_model [simp]: "ap_model (map_state f app) = ap_model app"
  by (simp add: map_state_def)

lemma set_selection_model [simp]: "ap_model (set_selection selected app) = ap_model app"
  by (simp add: set_selection_def)

lemma stop_following_model [simp]: "ap_model (stop_following app) = ap_model app"
  by (simp add: stop_following_def)

lemma frames_stop [simp]: "frames app (stop_following app)"
  unfolding stop_following_def by (rule frames_map) (simp add: same_inputs_def)

lemma frames_select_stop [simp]: "frames app (set_selection selected (stop_following app))"
  by (rule frames_trans [OF frames_stop frames_selection])

lemma good_select: "rows_current env app \<Longrightarrow> good_step env app (Some (set_selection selected app))"
  by (rule good_frame [OF _ same_model_refl]) simp_all

lemma good_select_stop: "rows_current env app \<Longrightarrow> good_step env app (Some (set_selection selected (stop_following app)))"
  by (rule good_frame [OF _ same_model_refl]) simp_all

lemma good_recover: "rows_current env app \<Longrightarrow> good_step env app (Some (recover_selection old_rows new_rows hint app))"
  by (rule good_frame [OF _ same_model_refl]) simp_all

lemma good_same: "rows_current env app \<Longrightarrow> good_step env app (Some app)"
  by (simp add: good_step_Some)

lemma same_model_map: "(\<And>s. as_dag_order (f s) = as_dag_order s) \<Longrightarrow> same_model app (map_state f app)"
  by (simp add: same_model_def map_state_def)

lemma toggle_branch_good:
  assumes "runs_keyed (ap_model app)"
  shows "good_step env app (toggle_branch env old_rows key app)"
  unfolding toggle_branch_def Let_def
proof (rule good_rebuild_of [OF assms], goal_cases)
  case 1
  show ?case by (rule same_model_trans [OF frames_model [OF frames_stop] same_model_map]) simp
next
  case (2 rows app')
  then show ?case by (auto intro: good_recover good_same)
qed

lemma build_uncollapsed_some:
  assumes "runs_keyed m"
  obtains rows where "build_uncollapsed_rows env m s = Some rows"
  using default_visible_some [OF assms, of "ae_timing env" "as_now_ms s"]
  by (auto simp: build_uncollapsed_rows_def project_state_def)

lemma toggle_collapse_good:
  assumes "runs_keyed (ap_model app)" and "rows_current env app"
  shows "good_step env app (toggle_collapse env key app)"
proof (cases "collapse_available (ap_state app)")
  case False
  then show ?thesis using assms by (simp add: toggle_collapse_def good_same)
next
  case True
  then have eq: "toggle_collapse env key app = do {
        (old_rows, app) \<leftarrow> rebuild_rows env app;
        full_rows \<leftarrow> build_uncollapsed_rows env (ap_model app) (ap_state app);
        case row_position full_rows key of
          None \<Rightarrow> Some app
        | Some index \<Rightarrow>
            if opens_branch full_rows index then toggle_branch env old_rows key app else Some app
      }" by (simp add: toggle_collapse_def)
  show ?thesis
    unfolding eq
  proof (rule good_rebuild [OF assms(1)], goal_cases)
    case (1 rows app')
    have keyed: "runs_keyed (ap_model app')" by (rule same_model_keyed [OF 1(3) assms(1)])
    obtain full where full: "build_uncollapsed_rows env (ap_model app') (ap_state app') = Some full"
      by (rule build_uncollapsed_some [OF keyed])
    show ?case
      unfolding prod.case full using good_same [OF 1(1)] toggle_branch_good [OF keyed]
      by (auto split: option.split)
  qed
qed

lemma navigate_right_good:
  assumes "runs_keyed (ap_model app)" and "rows_current env app"
  shows "good_step env app (navigate_right env app)"
proof -
  have step: "good_step env app (do {
        (rows, app) \<leftarrow> rebuild_rows env app;
        case row_position rows selected of
          None \<Rightarrow> Some app
        | Some index \<Rightarrow>
            (case opt_filter (\<lambda>row. rw_depth (rows ! index) < rw_depth row) (nth_row rows (index + 1)) of
               None \<Rightarrow> Some app
             | Some child \<Rightarrow> Some (set_selection (Some (rw_key child)) (stop_following app)))
      })" for selected
  proof (rule good_rebuild [OF assms(1)], goal_cases)
    case (1 rows app')
    then show ?case by (auto split: option.split intro: good_same good_select_stop)
  qed
  show ?thesis
    using assms step toggle_collapse_good [OF assms]
    by (auto simp: navigate_right_def good_same simp del: bind_split split: option.split)
qed

lemma navigate_left_good:
  assumes "runs_keyed (ap_model app)" and "rows_current env app"
  shows "good_step env app (navigate_left env app)"
proof -
  have step: "good_step env app (do {
        (rows, app) \<leftarrow> rebuild_rows env app;
        case row_position rows selected of
          None \<Rightarrow> Some app
        | Some index \<Rightarrow>
            if collapse_key selected \<notin> set (as_collapsed (ap_state app)) \<and> opens_branch rows index
            then toggle_collapse env selected app
            else case first_of (filter (\<lambda>row. rw_depth row < rw_depth (rows ! index)) (rev (take index rows))) of
                   None \<Rightarrow> Some app
                 | Some parent \<Rightarrow> Some (set_selection (Some (rw_key parent)) (stop_following app))
      })" for selected
  proof (rule good_rebuild [OF assms(1)], goal_cases)
    case (1 rows app')
    have keyed: "runs_keyed (ap_model app')" by (rule same_model_keyed [OF 1(3) assms(1)])
    show ?case
      using 1 toggle_collapse_good [OF keyed 1(1), of selected]
      by (auto split: option.split intro: good_same good_select_stop)
  qed
  show ?thesis
    using assms step by (auto simp: navigate_left_def good_same split: option.split)
qed

lemma move_selection_good:
  assumes "runs_keyed (ap_model app)"
  shows "good_step env app (move_selection env down app)"
  unfolding move_selection_def
  by (rule good_rebuild_of [OF assms frames_model [OF frames_stop]])
    (auto simp: Let_def intro: good_select)

lemma resume_follow_good:
  assumes "runs_keyed (ap_model app)"
  shows "good_step env app (resume_follow env app)"
  unfolding resume_follow_def
  by (rule good_rebuild_of [OF assms same_model_map]) (auto simp: follow_last_def intro: good_select)

lemma commit_filter_good:
  assumes "runs_keyed (ap_model app)"
  shows "good_step env app (commit_filter env app)"
  unfolding commit_filter_def
proof (rule good_rebuild [OF assms], goal_cases)
  case (1 rows app')
  show ?case unfolding prod.case Let_def
    by (rule good_rebuild_of [OF same_model_keyed [OF 1(3) assms] same_model_map])
      (auto intro: good_recover)
qed

lemma toggle_view_good:
  assumes "runs_keyed (ap_model app)"
  shows "good_step env app (toggle_view env app)"
  unfolding toggle_view_def Let_def
proof (rule good_rebuild [OF assms], goal_cases)
  case (1 rows app')
  show ?case unfolding prod.case
    by (rule good_rebuild_of [OF same_model_keyed [OF 1(3) assms] same_model_map])
      (auto simp: follow_last_def intro: good_select)
qed

section \<open>Reachable applications\<close>

lemma handle_filter_key_good:
  assumes "runs_keyed (ap_model app)" and "rows_current env app"
  shows "good_step env app (handle_filter_key env code app)"
proof -
  have edit: "good_step env app (Some (map_state (\<lambda>s. s\<lparr>as_filter_draft := f s\<rparr>) app))" for f
    by (rule good_frame [OF assms(2) same_model_refl frames_map]) (simp add: same_inputs_def)
  have same: "good_step env app (Some app)" by (rule good_same [OF assms(2)])
  show ?thesis
    using commit_filter_good [OF assms(1)] same edit [of "\<lambda>_. None"]
      edit [of "\<lambda>s. map_option (\<lambda>draft. concat (butlast (utf8_chars draft))) (as_filter_draft s)"]
      edit [of "\<lambda>s. map_option (\<lambda>draft. draft @ c) (as_filter_draft s)" for c]
    unfolding handle_filter_key_def Let_def by (cases code) simp_all
qed

lemma frames_overlay: "frames app (handle_overlay_key notice overlay code app)"
proof -
  have close: "frames a (map_state (\<lambda>s. s\<lparr>as_overlay := x\<rparr>) a)" for a x
    by (rule frames_map) (simp add: same_inputs_def)
  have warn: "frames a (map_state (\<lambda>s. s\<lparr>as_safe_warning := x\<rparr>) a)" for a x
    by (rule frames_map) (simp add: same_inputs_def)
  have scroll: "frames app (scroll_key code app)"
    by (auto simp: scroll_key_def scroll_overlay_up_def scroll_overlay_down_def same_inputs_def
        intro!: frames_map split: key_code.split)
  have wide: "frames app (map_state (\<lambda>s. reset_overlay_scroll
      (s\<lparr>as_summary_session_wide := \<not> as_summary_session_wide s\<rparr>)) app)"
    by (rule frames_map) (simp add: same_inputs_def reset_overlay_scroll_def)
  have ack: "frames app (acknowledge_notice notice app)"
    unfolding acknowledge_notice_def Let_def
    using close [of app None] frames_trans [OF close frames_clock]
      frames_trans [OF frames_trans [OF close frames_clock] warn]
    by (auto simp: split_beta)
  show ?thesis
    using close [of app None] scroll wide ack by (auto simp: handle_overlay_key_def Let_def split: overlay.split)
qed

definition good_key :: "app_env \<Rightarrow> app \<Rightarrow> (loop_control \<times> app) option \<Rightarrow> bool" where
  "good_key env app r \<longleftrightarrow> (\<exists>c app'. r = Some (c, app') \<and> rows_current env app' \<and> same_model app app')"

lemma good_key_if:
  "(P \<Longrightarrow> good_key env m a) \<Longrightarrow> (\<not> P \<Longrightarrow> good_key env m b) \<Longrightarrow> good_key env m (if P then a else b)"
  by simp

lemma good_key_continue: "good_step env m r \<Longrightarrow> good_key env m (map_option (Pair LoopContinue) r)"
  by (auto simp: good_key_def good_step_def)

lemma good_key_frame: "good_step env m (Some app) \<Longrightarrow> good_key env m (Some (c, app))"
  by (simp add: good_key_def good_step_Some)

lemma handle_key_good:
  assumes "runs_keyed (ap_model app)" and "rows_current env app"
  shows "good_key env app (handle_key env notice key app)"
proof -
  have open_: "frames app (map_state (open_overlay overlay) app)" for overlay
    by (rule frames_map) (simp add: open_overlay_def reset_overlay_scroll_def same_inputs_def)
  have summary: "frames app (map_state (\<lambda>s. open_overlay OverlaySummary (s\<lparr>as_summary_session_wide := False\<rparr>)) app)"
    by (rule frames_map) (simp add: open_overlay_def reset_overlay_scroll_def same_inputs_def)
  have draft: "frames app (map_state (\<lambda>s. s\<lparr>as_filter_draft := Some (as_filter_query s)\<rparr>) app)"
    by (rule frames_map) (simp add: same_inputs_def)
  have send: "frames app (try_send command app)" for command
    by (simp add: try_send_def frames_def same_inputs_def)
  note steps = move_selection_good [OF assms(1)] resume_follow_good [OF assms(1)] toggle_view_good [OF assms(1)]
    navigate_left_good [OF assms] navigate_right_good [OF assms] toggle_collapse_good [OF assms]
    handle_filter_key_good [OF assms]
  have frame: "good_step env app (Some app')" if "frames app app'" for app'
    by (rule good_frame [OF assms(2) same_model_refl that])
  have enter: "good_step env app
      (case as_selected (ap_state app) of None \<Rightarrow> Some app | Some selected \<Rightarrow> toggle_collapse env selected app)"
    using steps(6) frame by (auto split: option.split)
  show ?thesis
  proof (cases "as_overlay (ap_state app)")
    case None
    then show ?thesis
      unfolding handle_key_def Let_def None option.case
      by (intro good_key_if good_key_continue good_key_frame steps enter frame open_ summary draft send frames_refl)
  next
    case (Some overlay)
    then show ?thesis
      unfolding handle_key_def Let_def Some option.case
      by (intro good_key_if good_key_frame frame frames_overlay frames_refl)
  qed
qed

text \<open>Every state the application can be in, whatever the channels deliver and the keys are.\<close>

inductive app_reachable :: "app_env \<Rightarrow> app \<Rightarrow> bool" for env where
  app_started: "tree_keyed (wi_model inputs) \<Longrightarrow>
    app_new env inputs session notice_visible notice_state_base capacity closed clock = Some app \<Longrightarrow>
    app_reachable env app"
| app_refreshed: "app_reachable env app \<Longrightarrow> tree_keyed (wi_model inputs) \<Longrightarrow>
    refresh_if_changed env inputs app = Some (r, app') \<Longrightarrow> app_reachable env app'"
| app_forced: "app_reachable env app \<Longrightarrow> tree_keyed (wi_model inputs) \<Longrightarrow>
    app_refresh env inputs app = Some app' \<Longrightarrow> app_reachable env app'"
| app_pressed: "app_reachable env app \<Longrightarrow> handle_key env notice key app = Some (c, app') \<Longrightarrow>
    app_reachable env app'"
| app_painted: "app_reachable env app \<Longrightarrow> paint_tick_due app = (due, app') \<Longrightarrow> app_reachable env app'"
| app_polled: "app_reachable env app \<Longrightarrow> app_poll_duration limiter dirty elapsed app = (d, app') \<Longrightarrow>
    app_reachable env app'"
| app_scrolled: "app_reachable env app \<Longrightarrow> app_reachable env (map_state (\<lambda>s. snd (normalize_overlay_scroll maximum s)) app)"
| app_served: "app_reachable env app \<Longrightarrow> app_reachable env (app\<lparr>ap_commands := drop n (ap_commands app)\<rparr>)"

text \<open>What a refresh does to the model it installs and to the selection.\<close>

definition selection_on_row :: "app \<Rightarrow> bool" where
  "selection_on_row app \<longleftrightarrow> (case as_selected (ap_state app) of
     None \<Rightarrow> ap_rows app = [] | Some key \<Rightarrow> has_key (ap_rows app) key)"

lemma has_key_iff: "has_key rows key \<longleftrightarrow> key \<in> rw_key ` set rows"
  by (auto simp: has_key_def list_ex_iff)

lemma set_selection_state [simp]:
  "as_selected (ap_state (set_selection selected app)) = selected"
  "ap_rows (set_selection selected app) = ap_rows app"
  "as_follow (ap_state (set_selection selected app)) = as_follow (ap_state app)"
  by (simp_all add: set_selection_def map_state_def)

lemma reason_state [simp]:
  "as_selected (ap_state (map_state (\<lambda>s. s\<lparr>as_selection_reason := r\<rparr>) app)) = as_selected (ap_state app)"
  "ap_rows (map_state f app) = ap_rows app"
  "as_follow (ap_state (map_state (\<lambda>s. s\<lparr>as_selection_reason := r\<rparr>) app)) = as_follow (ap_state app)"
  by (simp_all add: map_state_def)

lemma select_last: "selection_on_row (follow_last (ap_rows app) app)"
  by (cases "ap_rows app") (auto simp: follow_last_def selection_on_row_def last_of_def has_key_iff)

lemma preferred_run_row_in: "preferred_run_row rows r previous = Some row \<Longrightarrow> row \<in> set rows"
  by (auto simp: preferred_run_row_def Let_def opt_or_def split: option.splits dest!: first_of_SomeD)

lemma visible_above_has: "visible_above new_rows depth rows = Some key \<Longrightarrow> has_key new_rows key"
  by (induction new_rows depth rows rule: visible_above.induct) (auto split: if_splits)

lemma fallback_on_row:
  "case fallback_selection old_rows new_rows selected of
     None \<Rightarrow> new_rows = [] | Some key \<Rightarrow> has_key new_rows key"
proof -
  have "has_key new_rows key" if "nearest_visible_ancestor old_rows new_rows selected = Some key" for key
    using that visible_above_has by (auto simp: nearest_visible_ancestor_def split: option.splits)
  moreover have "has_key new_rows key" if "surviving_neighbor old_rows new_rows selected = Some key" for key
    using that by (auto simp: surviving_neighbor_def Let_def opt_or_def split: option.splits dest!: first_of_SomeD)
  moreover have "case map_option rw_key (first_of new_rows) of None \<Rightarrow> new_rows = [] | Some key \<Rightarrow> has_key new_rows key"
    by (cases new_rows) (auto simp: has_key_iff)
  ultimately show ?thesis
    unfolding fallback_selection_def opt_or_def by (auto split: option.splits)
qed

lemma recover_on_row:
  "selection_on_row (recover_selection old_rows (ap_rows app) hint app)"
proof (cases "as_selected (ap_state app)")
  case None
  then show ?thesis using select_last [of app] by (simp add: recover_selection_def follow_last_def)
next
  case (Some selected)
  show ?thesis
  proof (cases "has_key (ap_rows app) selected")
    case True
    then show ?thesis using Some by (simp add: recover_selection_def Let_def selection_on_row_def)
  next
    case False
    have row: "has_key (ap_rows app) (rw_key row)" if "row \<in> set (ap_rows app)" for row
      using that by (auto simp: has_key_iff)
    show ?thesis
    proof (cases "merged_row (ap_rows app) selected app")
      case merged: (Some row)
      then have "row \<in> set (ap_rows app)"
        by (auto simp: merged_row_def split: option.splits if_splits dest: preferred_run_row_in)
      then show ?thesis using Some False merged row by (simp add: recover_selection_def Let_def selection_on_row_def)
    next
      case unmerged: None
      show ?thesis
      proof (cases "moved_row old_rows (ap_rows app) selected")
        case moved: (Some row)
        then have "row \<in> set (ap_rows app)"
          by (auto simp: moved_row_def opt_filter_def split: option.splits if_splits dest: preferred_run_row_in)
        then show ?thesis using Some False unmerged moved row
          by (simp add: recover_selection_def Let_def selection_on_row_def)
      next
        case None
        then show ?thesis
          using Some False unmerged fallback_on_row [where old_rows = old_rows and new_rows = "ap_rows app" and selected = selected]
          by (simp add: recover_selection_def Let_def selection_on_row_def split: option.splits)
      qed
    qed
  qed
qed

text \<open>The dependency order of the application is one of its model.\<close>

definition dag_adopted :: "app \<Rightarrow> bool" where
  "dag_adopted app \<longleftrightarrow> set (do_run_ids (as_dag_order (ap_state app))) = known_runs (ap_model app)"

lemma dag_adopted_same: "same_model app app' \<Longrightarrow> dag_adopted app \<Longrightarrow> dag_adopted app'"
  by (simp add: same_model_def dag_adopted_def)

lemma adopt_model_order:
  assumes "adopt_model m s = Some s'"
  shows "set (do_run_ids (as_dag_order s')) = known_runs m"
proof -
  obtain order' where rec: "recompute m (as_dag_order s) = Some order'"
    and ord: "displayed_order (known_runs m) (known_dependencies m) (displayed_key m (as_dag_order s)) (do_run_ids order')"
    by (rule recompute_works [of m "as_dag_order s"])
  have "Some (s\<lparr>as_execution_order := stable_order_adopt (map ex_execution_id (executions m)) (as_execution_order s),
      as_dag_order := order'\<rparr>) = Some s'" using assms by (simp only: adopt_model_def rec option.case)
  then have "as_dag_order s' = order'" by (metis app_state.select_convs(7) app_state.surjective app_state.update_convs(7) option.inject)
  then show ?thesis using displayed_order_members(2) [OF ord] by simp
qed

lemma frames_rows: "frames app app' \<Longrightarrow> ap_rows app' = ap_rows app"
  by (simp add: frames_def)

lemma refresh_cached_good:
  assumes "runs_keyed (ap_model app)" and "runs_keyed (wi_model inputs)"
  shows "\<exists>app'. refresh_cached env True inputs app = Some app' \<and> rows_current env app'
    \<and> ap_model app' = wi_model inputs \<and> dag_adopted app' \<and> selection_on_row app'
    \<and> as_follow (ap_state app') = as_follow (ap_state app)
    \<and> (as_follow (ap_state app) \<longrightarrow>
         as_selected (ap_state app') = map_option rw_key (last_of (ap_rows app')))"
proof -
  obtain old_rows where old: "(if True \<and> \<not> as_follow (ap_state app)
      then build_rows env (ap_model app) (ap_state app) else Some []) = Some old_rows"
    using build_projection_some [OF assms(1), of env "ap_state app"]
    by (cases "as_follow (ap_state app)") (auto simp: build_rows_def)
  let ?s = "(ap_state app)\<lparr>as_operator_activity := wi_activity inputs, as_terminal_times := wi_terminal_times inputs\<rparr>"
  obtain adopted where adopted: "adopt_model (wi_model inputs) ?s = Some adopted" using adopt_some by metis
  have follow: "as_follow adopted = as_follow (ap_state app)"
    using adopted by (auto simp: adopt_model_def split: option.splits)
  let ?app = "app\<lparr>ap_state := adopted, ap_model := wi_model inputs\<rparr>"
  have "runs_keyed (ap_model ?app)" using assms(2) by simp
  from rebuild_some [OF this, of env] obtain rows app' where re: "rebuild_rows env ?app = Some (rows, app')" by blast
  note cur = rebuild_current [OF re]
  have dag: "dag_adopted app'"
  proof -
    have "as_dag_order (ap_state app') = as_dag_order adopted" using cur(4) by auto
    then show ?thesis using adopt_model_order [OF adopted] cur(3) by (simp only: dag_adopted_def) simp
  qed
  have follow': "as_follow (ap_state app') = as_follow (ap_state app)" using cur(4) follow by auto
  have eq: "refresh_cached env True inputs app =
      Some (if as_follow (ap_state app')
        then follow_last rows (map_state (\<lambda>s. s\<lparr>as_selection_reason := None\<rparr>) app')
        else recover_selection old_rows rows (disappearance_reason old_rows rows app') app')"
    unfolding refresh_cached_def Let_def old using re adopted by simp
  have reason: "frames app' (map_state (\<lambda>s. s\<lparr>as_selection_reason := None\<rparr>) app')"
    by (rule frames_map) (simp add: same_inputs_def)
  show ?thesis
  proof (cases "as_follow (ap_state app')")
    case True
    let ?r = "follow_last rows (map_state (\<lambda>s. s\<lparr>as_selection_reason := None\<rparr>) app')"
    have fr: "frames app' ?r" unfolding follow_last_def by (rule frames_trans [OF reason frames_selection])
    have "selection_on_row ?r"
      using select_last [of "map_state (\<lambda>s. s\<lparr>as_selection_reason := None\<rparr>) app'"] cur(2) by simp
    moreover have "as_follow (ap_state ?r) = as_follow (ap_state app)"
      using follow' by (simp add: follow_last_def)
    moreover have "as_selected (ap_state ?r) = map_option rw_key (last_of (ap_rows ?r))"
      using fr cur(2) by (simp add: follow_last_def set_selection_def Let_def frames_def map_state_def)
    ultimately show ?thesis
      using eq True frames_current [OF fr cur(1)] fr cur(3) dag_adopted_same [OF frames_model [OF fr] dag]
      by (simp add: frames_def)
  next
    case False
    let ?r = "recover_selection old_rows rows (disappearance_reason old_rows rows app') app'"
    have fr: "frames app' ?r" by simp
    have "selection_on_row ?r" unfolding cur(2) by (rule recover_on_row)
    moreover have "as_follow (ap_state ?r) = as_follow (ap_state app)"
      using follow' by (auto simp: recover_selection_def Let_def split: option.split)
    ultimately show ?thesis
      using eq False follow' frames_current [OF fr cur(1)] fr cur(3) dag_adopted_same [OF frames_model [OF fr] dag]
      by (simp add: frames_def)
  qed
qed

definition app_ok :: "app_env \<Rightarrow> app \<Rightarrow> bool" where
  "app_ok env app \<longleftrightarrow> rows_current env app \<and> tree_keyed (ap_model app) \<and> dag_adopted app"

lemma tree_keyed_runs: "tree_keyed m \<Longrightarrow> runs_keyed m"
  by (simp add: tree_keyed_def)

lemma app_ok_same: "app_ok env app \<Longrightarrow> same_model app app' \<Longrightarrow> rows_current env app' \<Longrightarrow> app_ok env app'"
  using dag_adopted_same by (auto simp: app_ok_def same_model_def)

lemma app_ok_frames: "app_ok env app \<Longrightarrow> frames app app' \<Longrightarrow> app_ok env app'"
  by (rule app_ok_same) (auto simp: app_ok_def frames_model intro: frames_current)

lemma refresh_cached_ok:
  assumes "app_ok env app" and "tree_keyed (wi_model inputs)"
  shows "\<exists>app'. refresh_cached env b inputs app = Some app' \<and> app_ok env app'"
proof (cases b)
  case True
  then show ?thesis
    using refresh_cached_good [of app inputs env] assms by (auto simp: app_ok_def tree_keyed_runs)
next
  case False
  then show ?thesis using assms(1) by (simp add: refresh_cached_def)
qed

lemma refresh_if_changed_good:
  assumes "app_ok env app" and "tree_keyed (wi_model inputs)"
  shows "\<exists>r app'. refresh_if_changed env inputs app = Some (r, app') \<and> app_ok env app'"
proof -
  define deadline where "deadline = (case ap_next_expiry_ms app of None \<Rightarrow> (False, app)
      | Some deadline \<Rightarrow> (case read_clock app of (now_ms, app) \<Rightarrow> (deadline \<le> now_ms, app)))"
  obtain due app1 where due: "deadline = (due, app1)" by fastforce
  have fr: "frames app app1"
    using due unfolding deadline_def
    by (auto simp: read_clock_def frames_def same_inputs_def split: option.splits)
  note ok = app_ok_frames [OF assms(1) fr]
  show ?thesis
    unfolding refresh_if_changed_def Let_def deadline_def [symmetric] due
    using assms ok refresh_cached_ok [OF ok assms(2)]
    by (auto split: option.split simp del: split_paired_Ex)
qed

lemma app_new_good:
  assumes "tree_keyed (wi_model inputs)"
    and "app_new env inputs session notice_visible notice_state_base capacity closed clock = Some app"
  shows "app_ok env app"
proof -
  from assms(2) obtain rows app0 app1 state where re: "rebuild_rows env app0 = Some (rows, app1)"
    "app = follow_last rows app1" "ap_model app0 = wi_model inputs"
    "adopt_model (wi_model inputs) state = Some (ap_state app0)"
    by (auto simp: app_new_def Let_def bind_eq_Some_conv)
  note cur = rebuild_current [OF re(1)]
  have "as_dag_order (ap_state app1) = as_dag_order (ap_state app0)" using cur(4) by auto
  then have "dag_adopted app1"
    using adopt_model_order [OF re(4)] cur(3) re(3) by (simp only: dag_adopted_def)
  then have "app_ok env app1" using cur(1,3) re(3) assms(1) by (simp add: app_ok_def)
  then show ?thesis using re(2) app_ok_frames by (simp add: follow_last_def)
qed

lemma app_reachable_ok: "app_reachable env app \<Longrightarrow> app_ok env app"
proof (induction rule: app_reachable.induct)
  case (app_started inputs session notice_visible notice_state_base capacity closed clock app)
  then show ?case using app_new_good by blast
next
  case (app_refreshed app inputs r app')
  then show ?case using refresh_if_changed_good [of env app inputs] by auto
next
  case (app_forced app inputs app')
  then show ?case using refresh_cached_ok [of env app inputs True] by (auto simp: app_refresh_def)
next
  case (app_pressed app notice key c app')
  then have "runs_keyed (ap_model app)" "rows_current env app" by (auto simp: app_ok_def tree_keyed_runs)
  from handle_key_good [OF this, of notice key] app_pressed.hyps have "rows_current env app'" "same_model app app'"
    by (auto simp: good_key_def)
  then show ?case using app_ok_same [OF app_pressed.IH] by blast
next
  case (app_painted app due app')
  then have "frames app app'"
    by (auto simp: paint_tick_due_def read_clock_def frames_def same_inputs_def split: if_splits)
  with app_painted show ?case using app_ok_frames by blast
next
  case (app_polled app limiter dirty elapsed d app')
  then have "frames app app'"
    by (auto simp: app_poll_duration_def read_clock_def frames_def same_inputs_def Let_def)
  with app_polled show ?case using app_ok_frames by blast
next
  case (app_scrolled app maximum)
  have "frames app (map_state (\<lambda>s. snd (normalize_overlay_scroll maximum s)) app)"
    by (rule frames_map) (simp add: normalize_overlay_scroll_def same_inputs_def Let_def)
  with app_scrolled show ?case using app_ok_frames by blast
next
  case (app_served app n)
  have "frames app (app\<lparr>ap_commands := drop n (ap_commands app)\<rparr>)" by (simp add: frames_def same_inputs_def)
  with app_served show ?case using app_ok_frames by blast
qed

lemma app_new_some:
  assumes "tree_keyed (wi_model inputs)"
  obtains app where "app_new env inputs session notice_visible notice_state_base capacity closed clock = Some app"
    and "ap_model app = wi_model inputs" and "as_filter_query (ap_state app) = []"
    and "as_follow (ap_state app)" and "as_now_ms (ap_state app) = clock 1"
proof -
  let ?state = "app_state_default\<lparr>as_follow := True,
      as_overlay := (if notice_visible then Some OverlayNotice else None),
      as_operator_activity := wi_activity inputs, as_terminal_times := wi_terminal_times inputs,
      as_now_ms := clock 0, as_session_display_name := escape_controls session\<rparr>"
  obtain adopted where adopted: "adopt_model (wi_model inputs) ?state = Some adopted" using adopt_some by metis
  have kept: "as_filter_query adopted = [] \<and> as_follow adopted"
    using adopted by (auto simp: adopt_model_def app_state_default_def split: option.splits)
  let ?app = "\<lparr>ap_model = wi_model inputs, ap_state = adopted, ap_rows = [], ap_app_started_at_ms = clock 0,
      ap_next_expiry_ms = None, ap_next_paint_ms = next_wall_second_ms (clock 0),
      ap_notice_state_base = notice_state_base, ap_clock = clock, ap_reading = 1,
      ap_commands = [], ap_command_capacity = capacity, ap_commands_closed = closed\<rparr>"
  have "runs_keyed (ap_model ?app)" using assms by (simp add: tree_keyed_def)
  from rebuild_some [OF this, of env] obtain rows app' where re: "rebuild_rows env ?app = Some (rows, app')" by blast
  have now: "as_now_ms (ap_state app') = clock 1"
    using re by (auto simp: rebuild_rows_def read_clock_def map_state_def split: option.splits)
  show thesis
  proof (rule that)
    show "app_new env inputs session notice_visible notice_state_base capacity closed clock
        = Some (follow_last rows app')"
      using adopted re by (simp add: app_new_def Let_def)
    show "ap_model (follow_last rows app') = wi_model inputs"
      using rebuild_current(3) [OF re] by (simp add: follow_last_def)
    show "as_filter_query (ap_state (follow_last rows app')) = []" "as_follow (ap_state (follow_last rows app'))"
      using rebuild_current(4) [OF re] kept by (auto simp: follow_last_def set_selection_def map_state_def)
    show "as_now_ms (ap_state (follow_last rows app')) = clock 1"
      using now by (simp add: follow_last_def set_selection_def map_state_def)
  qed
qed

end
