(* ===== verification/Deadline_Laws.thy ===== *)
theory Deadline_Laws
  imports App_Laws Tree_Placement
begin

text \<open>
  The deadline of a projection is sound: until it is reached, time alone does not change which runs
  and agents are shown. Visibility of one run can only be lost as time passes; a run that is lost
  was shown by the projection, and its deadline is one of those the projection takes the least of.
\<close>

section \<open>The least deadline\<close>

lemma fold_min: "fold min xs (x :: i64) \<le> x \<and> (\<forall>y \<in> set xs. fold min xs x \<le> y)"
proof (induction xs arbitrary: x)
  case (Cons y xs)
  from Cons [of "min y x"] show ?case by auto
qed simp

lemma least_of_le: "y \<in> set xs \<Longrightarrow> \<exists>l. least_of xs = Some l \<and> l \<le> y"
  using fold_min by (cases xs) (auto simp: least_of_def)

text \<open>\<open>before_expiry expiry t\<close>: the deadline, if there is one, is not reached.\<close>

definition before_expiry :: "i64 option \<Rightarrow> i64 \<Rightarrow> bool" where
  "before_expiry expiry t \<longleftrightarrow> (\<forall>e. expiry = Some e \<longrightarrow> t < e)"

lemma before_min: "before_expiry (min_expiry a b) t \<longleftrightarrow> before_expiry a t \<and> before_expiry b t"
  by (auto simp: before_expiry_def min_expiry_def split: option.splits)

lemma before_least: "before_expiry (least_of xs) t \<Longrightarrow> x \<in> set xs \<Longrightarrow> t < x"
  using least_of_le by (force simp: before_expiry_def)

section \<open>Visibility as time passes\<close>

lemma eligible_antitone:
  "is_default_visibility_policy_eligible run es end t ghost \<Longrightarrow> now \<le> t \<Longrightarrow>
     is_default_visibility_policy_eligible run es end now ghost"
  by (cases "tr_updated_at_ms run"; cases "tr_key run")
    (auto simp: is_default_visibility_policy_eligible_def is_hook_only_stale_task_run_def Let_def split: if_splits)

lemma visible_antitone:
  "is_default_visible_task_run timing m run es t \<Longrightarrow> now \<le> t \<Longrightarrow> is_default_visible_task_run timing m run es now"
  using eligible_antitone
  by (cases "effective_lifecycle_end_ms m run")
    (auto simp: is_default_visible_task_run_def is_default_visible_task_run_with_ghost_window_def Let_def
      split: if_splits)

text \<open>A run that is eligible stays so until the deadlines of its row.\<close>

lemma eligible_until:
  assumes "is_default_visibility_policy_eligible run es (effective_lifecycle_end_ms m run) now (dt_ghost_visibility_ms timing)"
    and "before_expiry (min_expiry (lifecycle_expiry_ms timing m es now run) (hook_only_expiry_ms es run)) t"
  shows "is_default_visibility_policy_eligible run es (effective_lifecycle_end_ms m run) t (dt_ghost_visibility_ms timing)"
  using assms unfolding before_min
  by (cases "tr_updated_at_ms run"; cases "tr_key run"; cases "effective_lifecycle_end_ms m run")
    (auto simp: is_default_visibility_policy_eligible_def is_hook_only_stale_task_run_def Let_def
      lifecycle_expiry_ms_def hook_only_expiry_ms_def before_expiry_def split: if_splits)

lemma visible_until:
  assumes "is_default_visible_task_run timing m run es now"
    and "before_expiry (min_expiry (lifecycle_expiry_ms timing m es now run) (hook_only_expiry_ms es run)) t"
  shows "is_default_visible_task_run timing m run es t"
proof -
  have "is_default_visibility_policy_eligible run es (effective_lifecycle_end_ms m run) now (dt_ghost_visibility_ms timing)"
    using assms(1) by (auto simp: is_default_visible_task_run_def
        is_default_visible_task_run_with_ghost_window_def Let_def split: if_splits)
  note elig = eligible_until [OF this assms(2)]
  show ?thesis
  proof (cases "effective_lifecycle_end_ms m run")
    case None
    then show ?thesis using elig
      by (simp add: is_default_visible_task_run_def is_default_visible_task_run_with_ghost_window_def)
  next
    case (Some e)
    then have "t < i64_saturating_add e default_terminal_visibility_ms"
      using assms unfolding before_min by (auto simp: before_expiry_def lifecycle_expiry_ms_def)
    with Some elig show ?thesis
      by (simp add: is_default_visible_task_run_def is_default_visible_task_run_with_ghost_window_def)
  qed
qed

lemma expired_ancestor_kinds:
  "is_expired_lifecycle_ancestor timing m run es t \<longleftrightarrow>
     is_default_visibility_policy_eligible run es (effective_lifecycle_end_ms m run) t (dt_ghost_visibility_ms timing)
     \<and> effective_lifecycle_end_ms m run \<noteq> None \<and> \<not> is_default_visible_task_run timing m run es t"
  by (cases "effective_lifecycle_end_ms m run")
    (auto simp: is_expired_lifecycle_ancestor_def is_default_visible_task_run_def
      is_default_visible_task_run_with_ghost_window_def)

section \<open>The set of visible runs\<close>

lemma initially_visible_iff:
  assumes "runs_keyed m" and "hm_ok (dm_task_runs m)"
  shows "r \<in> set (initially_visible timing m t) \<longleftrightarrow>
    (\<exists>run. get_task_run m r = Some run \<and> is_default_visible_task_run timing m run (runs_with_executions m) t)"
proof -
  have keyed: "\<And>r t. hm_get (dm_task_runs m) r = Some t \<Longrightarrow> tr_run_id t = r"
    using assms(1) by (auto simp: runs_keyed_def get_task_run_def)
  show ?thesis
    using keyed hm_values_iff [OF assms(2)]
    by (fastforce simp: initially_visible_def get_task_run_def image_iff)
qed

lemma visible_run_known:
  assumes "runs_keyed m" and "hm_ok (dm_task_runs m)"
    and "visible_run timing m t (set (initially_visible timing m t)) r"
  shows "\<exists>run. get_task_run m r = Some run \<and>
    (is_default_visible_task_run timing m run (runs_with_executions m) t
     \<or> is_expired_lifecycle_ancestor timing m run (runs_with_executions m) t)"
  using assms(3) by cases (use initially_visible_iff [OF assms(1,2)] in auto)

text \<open>All the deadlines of the shown runs lie ahead.\<close>

definition rows_ahead :: "display_timing \<Rightarrow> domain_model \<Rightarrow> i64 \<Rightarrow> run_id set \<Rightarrow> i64 \<Rightarrow> bool" where
  "rows_ahead timing m now shown t \<longleftrightarrow> (\<forall>r run. r \<in> shown \<longrightarrow> get_task_run m r = Some run \<longrightarrow>
     before_expiry (min_expiry (lifecycle_expiry_ms timing m (runs_with_executions m) now run)
       (hook_only_expiry_ms (runs_with_executions m) run)) t)"

lemma visible_runs_keep:
  assumes keyed: "runs_keyed m" and ok: "hm_ok (dm_task_runs m)" and "now \<le> t"
    and shown: "\<And>r. visible_run timing m now (set (initially_visible timing m now)) r \<longleftrightarrow> r \<in> shown"
    and ahead: "rows_ahead timing m now shown t"
  shows "visible_run timing m t (set (initially_visible timing m t)) r \<longleftrightarrow> r \<in> shown"
proof
  let ?es = "runs_with_executions m"
  assume "visible_run timing m t (set (initially_visible timing m t)) r"
  then have "visible_run timing m now (set (initially_visible timing m now)) r"
  proof induction
    case (visible_base r)
    then show ?case
      using visible_antitone [OF _ assms(3)] initially_visible_iff [OF keyed ok]
      by (blast intro: visible_run.visible_base)
  next
    case (visible_ancestor e run)
    note elig = visible_ancestor.hyps(4) [unfolded expired_ancestor_kinds]
    have now_elig: "is_default_visibility_policy_eligible run ?es (effective_lifecycle_end_ms m run) now
        (dt_ghost_visibility_ms timing)" using elig eligible_antitone [OF _ assms(3)] by blast
    show ?case
    proof (cases "is_default_visible_task_run timing m run ?es now")
      case True
      then have "ee_parent_run_id e \<in> set (initially_visible timing m now)"
        using initially_visible_iff [OF keyed ok] visible_ancestor.hyps(3) by blast
      then show ?thesis by (rule visible_run.visible_base)
    next
      case False
      then have "is_expired_lifecycle_ancestor timing m run ?es now"
        using now_elig elig by (simp add: expired_ancestor_kinds)
      then show ?thesis using visible_ancestor by (blast intro: visible_run.visible_ancestor)
    qed
  qed
  then show "r \<in> shown" using shown by blast
next
  let ?es = "runs_with_executions m"
  assume "r \<in> shown"
  then have "visible_run timing m now (set (initially_visible timing m now)) r" using shown by blast
  then show "visible_run timing m t (set (initially_visible timing m t)) r"
  proof induction
    case (visible_base r)
    then obtain run where run: "get_task_run m r = Some run" "is_default_visible_task_run timing m run ?es now"
      using initially_visible_iff [OF keyed ok] by blast
    have "r \<in> shown" using visible_run.visible_base [OF visible_base] shown by blast
    with ahead run have "before_expiry (min_expiry (lifecycle_expiry_ms timing m ?es now run)
        (hook_only_expiry_ms ?es run)) t" by (auto simp: rows_ahead_def)
    from visible_until [OF run(2) this] run(1) show ?case
      using initially_visible_iff [OF keyed ok] by (blast intro: visible_run.visible_base)
  next
    case (visible_ancestor e run)
    have "visible_run timing m now (set (initially_visible timing m now)) (ee_parent_run_id e)"
      using visible_ancestor.hyps by (rule visible_run.visible_ancestor)
    then have "ee_parent_run_id e \<in> shown" using shown by blast
    with ahead visible_ancestor.hyps(3) have "before_expiry (min_expiry
        (lifecycle_expiry_ms timing m ?es now run) (hook_only_expiry_ms ?es run)) t"
      by (auto simp: rows_ahead_def)
    note elig = visible_ancestor.hyps(4) [unfolded expired_ancestor_kinds]
    have "is_default_visibility_policy_eligible run ?es (effective_lifecycle_end_ms m run) t
        (dt_ghost_visibility_ms timing)" using elig eligible_until [OF _ \<open>before_expiry _ t\<close>] by blast
    moreover have "\<not> is_default_visible_task_run timing m run ?es t"
      using elig visible_antitone [OF _ assms(3)] by blast
    ultimately have "is_expired_lifecycle_ancestor timing m run ?es t"
      using elig by (simp add: expired_ancestor_kinds)
    then show ?case using visible_ancestor by (blast intro: visible_run.visible_ancestor)
  qed
qed

lemma visible_ids_keep:
  assumes "runs_keyed m" and "hm_ok (dm_task_runs m)" and "now \<le> t"
    and "default_visible_task_run_ids timing m now = Some visible"
    and "rows_ahead timing m now (set visible) t"
  shows "\<exists>visible'. default_visible_task_run_ids timing m t = Some visible' \<and> set visible' = set visible"
proof -
  have "visible_run timing m now (set (initially_visible timing m now)) r \<longleftrightarrow> r \<in> set visible" for r
    using visible_closure_least [OF assms(1), of timing now] assms(4) by auto
  note keep = visible_runs_keep [OF assms(1-3) this assms(5)]
  from visible_closure_least [OF assms(1), of timing t] obtain v where
    "default_visible_task_run_ids timing m t = Some v"
    "\<And>r. r \<in> set v \<longleftrightarrow> visible_run timing m t (set (initially_visible timing m t)) r" by blast
  with keep show ?thesis by auto
qed

lemma row_task_runs_set:
  "set (row_task_runs m rows) = {run. \<exists>r \<in> row_runs rows. get_task_run m r = Some run}"
  by (auto simp: row_task_runs_def filter_map_set row_runs_def)

lemma rows_ahead_expiry:
  assumes "before_expiry (next_run_visibility_expiry_ms timing m rows now) t" and "shown \<subseteq> row_runs rows"
  shows "rows_ahead timing m now shown t"
  unfolding rows_ahead_def
proof (intro allI impI)
  let ?exp = "\<lambda>run. min_expiry (lifecycle_expiry_ms timing m (runs_with_executions m) now run)
      (hook_only_expiry_ms (runs_with_executions m) run)"
  fix r run
  assume "r \<in> shown" "get_task_run m r = Some run"
  then have "run \<in> set (row_task_runs m rows)" using assms(2) by (auto simp: row_task_runs_set)
  then have "e \<in> set (filter_map ?exp (row_task_runs m rows))" if "?exp run = Some e" for e
    using that by (auto simp: filter_map_set)
  then show "before_expiry (?exp run) t"
    using before_least [OF assms(1) [unfolded next_run_visibility_expiry_ms_def Let_def]]
    by (auto simp: before_expiry_def)
qed

section \<open>Agents\<close>

lemma stale_monotone:
  assumes "agent_node_is_display_stale timing agent now" and "now \<le> t"
  shows "agent_node_is_display_stale timing agent t"
  using assms by (cases "an_last_activity_at_ms agent")
    (auto simp: agent_node_is_display_stale_def i64_saturating_sub_def)

lemma agent_until:
  assumes "\<not> agent_node_is_display_stale timing agent now" and "is_i64 t"
    and "0 \<le> dt_headless_inactivity_ms timing" and "dt_headless_inactivity_ms timing \<le> i64_max"
    and "\<And>seen. an_state agent \<in> {None, Some ExecUnknown, Some ExecEnded} \<Longrightarrow>
      an_last_activity_at_ms agent = Some seen \<Longrightarrow> t < i64_saturating_add seen (dt_headless_inactivity_ms timing)"
  shows "\<not> agent_node_is_display_stale timing agent t"
proof
  assume stale: "agent_node_is_display_stale timing agent t"
  then obtain seen where seen: "an_last_activity_at_ms agent = Some seen"
      and old: "dt_headless_inactivity_ms timing \<le> i64_saturating_sub t seen"
      and state: "an_state agent \<in> {None, Some ExecUnknown, Some ExecEnded}"
    unfolding agent_node_is_display_stale_def opt_is_some_and_iff by blast
  from assms(5) [OF state seen] old assms(2-4) show False
    by (auto simp: i64_saturating_sub_def i64_saturating_add_def is_i64_def i64_min_def i64_max_def
        min_def max_def split: if_splits)
qed

lemma agents_keep:
  assumes "before_expiry (next_agent_visibility_expiry_ms timing m now) t" and "now \<le> t" and "is_i64 t"
    and "0 \<le> dt_headless_inactivity_ms timing" and "dt_headless_inactivity_ms timing \<le> i64_max"
    and "agent \<in> set (agent_nodes m)"
  shows "agent_node_is_display_stale timing agent t = agent_node_is_display_stale timing agent now"
proof (cases "agent_node_is_display_stale timing agent now")
  case True
  then show ?thesis using stale_monotone [OF _ assms(2)] by simp
next
  case False
  have "t < i64_saturating_add seen (dt_headless_inactivity_ms timing)"
    if "an_state agent \<in> {None, Some ExecUnknown, Some ExecEnded}" "an_last_activity_at_ms agent = Some seen" for seen
    using that assms(6) False
    by (intro before_least [OF assms(1) [unfolded next_agent_visibility_expiry_ms_def]])
      (force simp: filter_map_set image_iff)
  then have "\<not> agent_node_is_display_stale timing agent t"
    by (intro agent_until [OF False assms(3-5)]) blast
  with False show ?thesis by simp
qed

section \<open>The deadline of the projection\<close>

lemma dag_rows_runs:
  assumes "runs_keyed m" and "known m \<subseteq> set (do_run_ids order)"
  shows "row_runs (build_rows_with_statuses_visible te timing m order now_ms statuses visible)
      = set visible \<inter> known m"
proof -
  obtain prerequisites dependents where
    deps: "fold (note_dependency m) (dm_dependency_edges m) ([], []) = (prerequisites, dependents)" by fastforce
  let ?rows = "map (dag_row te m now_ms statuses visible (stalled_run_ids m now_ms (dt_stall_warn_ms timing))
      prerequisites dependents) (filter_map (get_task_run m) (filter (\<lambda>r. r \<in> set visible) (do_run_ids order)))"
  have key: "rw_key (dag_row te m now_ms statuses visible st p d run) = RunRowKey (tr_run_id run) None" for st p d run
    by (simp add: dag_row_def Let_def)
  have "build_rows_with_statuses_visible te timing m order now_ms statuses visible = ?rows"
    unfolding build_rows_with_statuses_visible_def Let_def deps prod.case
    by (rule filter_True) (auto simp: key)
  moreover have "row_runs ?rows = set visible \<inter> known m"
  proof -
    have "row_runs ?rows = tr_run_id ` {run. \<exists>r. r \<in> set (do_run_ids order) \<and> r \<in> set visible \<and> get_task_run m r = Some run}"
      by (auto simp: row_runs_def filter_map_set key)
    also have "\<dots> = {r. r \<in> set (do_run_ids order) \<and> r \<in> set visible \<and> get_task_run m r \<noteq> None}"
      using assms(1) by (auto simp: runs_keyed_def intro: rev_image_eqI)
    finally show ?thesis using assms(2) by (auto simp: known_def)
  qed
  ultimately show ?thesis by simp
qed

lemma full_rows_runs:
  assumes "tree_keyed m" and "known m \<subseteq> set (do_run_ids (as_dag_order s))"
  shows "row_runs (build_full_rows env m s visible) = set visible \<inter> known m"
  using tree_rows_visible [OF assms(1)] dag_rows_runs [OF _ assms(2)] assms(1)
  by (simp add: build_full_rows_def Let_def tree_keyed_runs split: view_mode.split)

lemma visible_rows_runs:
  "row_runs rows \<subseteq> set visible \<inter> known m \<Longrightarrow> row_runs (visible_rows m visible rows) = row_runs rows"
proof -
  assume sub: "row_runs rows \<subseteq> set visible \<inter> known m"
  have "visible_rows m visible rows = rows"
    unfolding visible_rows_def
  proof (rule filter_True, rule ballI)
    fix row
    assume "row \<in> set rows"
    then have "r \<in> row_runs rows" if "key_run_id (rw_key row) = Some r" for r
      using that by (auto simp: row_runs_def)
    then show "case key_run_id (rw_key row) of None \<Rightarrow> True | Some r \<Rightarrow> get_task_run m r \<noteq> None \<and> r \<in> set visible"
      using sub by (force simp: known_def split: option.split)
  qed
  then show ?thesis by simp
qed

lemma visible_known:
  assumes "tree_keyed m" and "default_visible_task_run_ids timing m now = Some visible"
  shows "set visible \<subseteq> known m"
  using visible_closure_least [OF tree_keyed_runs [OF assms(1)], of timing now] assms(2)
    visible_run_known [OF tree_keyed_runs [OF assms(1)]] assms(1)
  by (fastforce simp: tree_keyed_def known_def)

lemma projection_deadline:
  assumes "tree_keyed m" and "known m \<subseteq> set (do_run_ids (as_dag_order s))" and "as_filter_query s = []"
    and "build_projection env m s = Some p" and "as_now_ms s \<le> t" and "before_expiry (rp_next_expiry_ms p) t"
  shows "\<exists>visible visible'. default_visible_task_run_ids (ae_timing env) m (as_now_ms s) = Some visible
      \<and> default_visible_task_run_ids (ae_timing env) m t = Some visible' \<and> set visible' = set visible"
    and "before_expiry (next_agent_visibility_expiry_ms (ae_timing env) m (as_now_ms s)) t"
proof -
  let ?timing = "ae_timing env" and ?now = "as_now_ms s"
  obtain visible where vis: "default_visible_task_run_ids ?timing m ?now = Some visible"
    using assms(4) by (auto simp: build_projection_def project_state_def split: option.splits)
  let ?full = "build_full_rows env m s visible"
  let ?shown = "visible_rows m visible ?full"
  have "\<exists>duration. rp_next_expiry_ms p = min_expiry (min_expiry (next_agent_visibility_expiry_ms ?timing m ?now)
      (next_run_visibility_expiry_ms ?timing m ?shown ?now)) duration"
    using assms(4) vis assms(3)
    by (auto simp: build_projection_def project_state_def project_rows_with_visible_def Let_def min_expiry_def
        split: option.split)
  then have ahead: "before_expiry (next_agent_visibility_expiry_ms ?timing m ?now) t"
    "before_expiry (next_run_visibility_expiry_ms ?timing m ?shown ?now) t"
    using assms(6) by (auto simp: before_min)
  have "row_runs ?shown = set visible \<inter> known m"
    using full_rows_runs [OF assms(1,2)] visible_rows_runs by simp
  then have "rows_ahead ?timing m ?now (set visible) t"
    using visible_known [OF assms(1) vis] by (intro rows_ahead_expiry [OF ahead(2)]) auto
  from visible_ids_keep [OF tree_keyed_runs [OF assms(1)] _ assms(5) vis this] vis assms(1)
  show "\<exists>visible visible'. default_visible_task_run_ids ?timing m ?now = Some visible
      \<and> default_visible_task_run_ids ?timing m t = Some visible' \<and> set visible' = set visible"
    by (auto simp: tree_keyed_def)
  show "before_expiry (next_agent_visibility_expiry_ms ?timing m ?now) t" by (rule ahead(1))
qed

end
