(* ===== verification/Tail.thy ===== *)
theory Tail
  imports Prelude
begin

text \<open>
  Incremental reading of a provider's session file (\<open>src/provider/tail.rs\<close>). A tail remembers how far
  it has read, the bytes of the record that is not terminated yet, and the identity of the file,
  and starts over when the file is replaced or truncated. The file system is the boundary: a
  snapshot and a bounded read, each of which may fail and may see another file than the last.
\<close>

section \<open>The boundary\<close>

definition max_tail_chunk_bytes :: nat where "max_tail_chunk_bytes = 256 * 1024"
definition max_tail_record_bytes :: nat where "max_tail_record_bytes = 1024 * 1024"
definition record_too_long_error :: string where "record_too_long_error = ''record_too_long''"

record file_snapshot =
  fs_dev :: u64
  fs_inode :: u64
  fs_size :: u64

definition snapshot_identity :: "file_snapshot \<Rightarrow> u64 \<times> u64" where
  "snapshot_identity s = (fs_dev s, fs_inode s)"

record read_chunk =
  rc_snapshot :: file_snapshot
  rc_bytes :: string

text \<open>The trait \<open>ReadBoundary\<close> on a world \<open>'w\<close>; an \<open>io::Error\<close> carries nothing the tail reads.\<close>

datatype io_error = IoError

type_synonym ('w, 'a) io = "'w \<Rightarrow> (io_error + 'a) \<times> 'w"

record 'w read_boundary =
  rb_snapshot :: "string \<Rightarrow> string \<Rightarrow> ('w, file_snapshot) io"
  rb_read_from_bounded :: "string \<Rightarrow> string \<Rightarrow> u64 \<Rightarrow> nat \<Rightarrow> ('w, read_chunk) io"

definition io_bind :: "('w, 'a) io \<Rightarrow> ('a \<Rightarrow> ('w, 'b) io) \<Rightarrow> ('w, 'b) io" where
  "io_bind f g w = (case f w of (Inl e, w') \<Rightarrow> (Inl e, w') | (Inr a, w') \<Rightarrow> g a w')"

definition io_return :: "'a \<Rightarrow> ('w, 'a) io" where
  "io_return a w = (Inr a, w)"

section \<open>Baselines\<close>

text \<open>\<open>Path::join\<close>: an absolute path replaces the root.\<close>

definition path_join :: "string \<Rightarrow> string \<Rightarrow> string" where
  "path_join root relative =
     (if relative \<noteq> [] \<and> hd relative = CHR ''/'' then relative
      else if root = [] \<or> last root = CHR ''/'' then root @ relative
      else root @ ''/'' @ relative)"

record first_seen_baseline =
  fb_existing :: "string list"

definition baseline_from_existing :: "string list \<Rightarrow> first_seen_baseline" where
  "baseline_from_existing paths = \<lparr>fb_existing = hs_extend [] paths\<rparr>"

definition baseline_record :: "string \<Rightarrow> first_seen_baseline \<Rightarrow> first_seen_baseline" where
  "baseline_record path b = b\<lparr>fb_existing := hs_insert path (fb_existing b)\<rparr>"

definition baseline_contained :: "first_seen_baseline \<Rightarrow> string \<Rightarrow> string \<Rightarrow> bool" where
  "baseline_contained b root relative \<longleftrightarrow> path_join root relative \<in> set (fb_existing b)"

section \<open>Records\<close>

record tail_record =
  tl_offset :: u64
  tl_generation :: u64
  tl_bytes :: string
  tl_error_code :: "string option"

definition tail_record_data :: "u64 \<Rightarrow> u64 \<Rightarrow> string \<Rightarrow> tail_record" where
  "tail_record_data offset generation bytes =
     \<lparr>tl_offset = offset, tl_generation = generation, tl_bytes = bytes, tl_error_code = None\<rparr>"

definition tail_record_malformed :: "u64 \<Rightarrow> u64 \<Rightarrow> string \<Rightarrow> tail_record" where
  "tail_record_malformed offset generation error_code =
     \<lparr>tl_offset = offset, tl_generation = generation, tl_bytes = [], tl_error_code = Some error_code\<rparr>"

section \<open>The tail\<close>

record tail_file =
  tf_root :: string
  tf_relative :: string
  tf_offset :: u64
  tf_identity :: "u64 \<times> u64"
  tf_last_size :: u64
  tf_generation :: u64
  tf_partial :: string
  tf_partial_offset :: u64
  tf_discarding :: bool
  tf_read_calls :: u64
  tf_bytes_read :: u64

definition tail_open ::
  "'w read_boundary \<Rightarrow> string \<Rightarrow> string \<Rightarrow> first_seen_baseline \<Rightarrow> u64 \<Rightarrow> ('w, tail_file) io" where
  "tail_open boundary root relative baseline starting_generation =
     io_bind (rb_snapshot boundary root relative) (\<lambda>snapshot.
       let offset = (if baseline_contained baseline root relative then fs_size snapshot else 0)
       in io_return \<lparr>tf_root = root, tf_relative = relative, tf_offset = offset,
            tf_identity = snapshot_identity snapshot, tf_last_size = fs_size snapshot,
            tf_generation = starting_generation, tf_partial = [], tf_partial_offset = offset,
            tf_discarding = False, tf_read_calls = 0, tf_bytes_read = 0\<rparr>)"

text \<open>Forgetting everything about the previous file.\<close>

definition restart_tail :: "u64 \<times> u64 \<Rightarrow> tail_file \<Rightarrow> tail_file" where
  "restart_tail identity t =
     t\<lparr>tf_generation := u64_saturating_add (tf_generation t) 1, tf_offset := 0, tf_partial := [],
       tf_partial_offset := 0, tf_discarding := False, tf_identity := identity\<rparr>"

definition observe_snapshot :: "file_snapshot \<Rightarrow> tail_file \<Rightarrow> tail_file" where
  "observe_snapshot snapshot t =
     (let rotated = snapshot_identity snapshot \<noteq> tf_identity t;
          truncated = fs_size snapshot < tf_last_size t \<or> fs_size snapshot < tf_offset t;
          t = (if rotated \<or> truncated then restart_tail (snapshot_identity snapshot) t else t)
      in t\<lparr>tf_last_size := fs_size snapshot\<rparr>)"

definition newline :: char where "newline = CHR 0x0A"
definition carriage_return :: char where "carriage_return = CHR 0x0D"

text \<open>\<open>iter().position(..)\<close>.\<close>

fun newline_position :: "string \<Rightarrow> nat option" where
  "newline_position [] = None"
| "newline_position (b # bs) = (if b = newline then Some 0 else map_option Suc (newline_position bs))"

definition strip_carriage_return :: "string \<Rightarrow> string" where
  "strip_carriage_return bs =
     (if bs \<noteq> [] \<and> last bs = carriage_return then butlast bs else bs)"

lemma newline_position_less: "newline_position bs = Some n \<Longrightarrow> n < length bs"
  by (induction bs arbitrary: n) (auto split: if_splits)

function accept_loop ::
  "u64 \<Rightarrow> nat \<Rightarrow> string \<Rightarrow> tail_file \<times> tail_record list \<Rightarrow> tail_file \<times> tail_record list" where
  "accept_loop start cursor remaining (t, records) =
     (if remaining = [] then (t, records)
      else if tf_discarding t then
        (case newline_position remaining of
           Some n \<Rightarrow>
             accept_loop start (cursor + n + 1) (drop (n + 1) remaining)
               (t\<lparr>tf_partial_offset := u64_saturating_add start (cursor + n + 1),
                  tf_discarding := False\<rparr>, records)
         | None \<Rightarrow> (t, records))
      else
        (case newline_position remaining of
           Some n \<Rightarrow>
             accept_loop start (cursor + n + 1) (drop (n + 1) remaining)
               (t\<lparr>tf_partial := [], tf_partial_offset := u64_saturating_add start (cursor + n + 1)\<rparr>,
                records @ [if length (tf_partial t) + n > max_tail_record_bytes
                  then tail_record_malformed (tf_partial_offset t) (tf_generation t) record_too_long_error
                  else tail_record_data (tf_partial_offset t) (tf_generation t)
                         (strip_carriage_return (tf_partial t @ take n remaining))])
         | None \<Rightarrow>
             if length (tf_partial t) + length remaining > max_tail_record_bytes
             then (t\<lparr>tf_partial := [], tf_discarding := True\<rparr>,
                   records @ [tail_record_malformed (tf_partial_offset t) (tf_generation t)
                     record_too_long_error])
             else (t\<lparr>tf_partial := tf_partial t @ remaining\<rparr>, records)))"
  by pat_completeness auto
termination
  by (relation "measure (\<lambda>(start, cursor, remaining, st). length remaining)")
    (auto dest: newline_position_less)

definition accept_bytes :: "u64 \<Rightarrow> string \<Rightarrow> tail_file \<Rightarrow> tail_file \<times> tail_record list" where
  "accept_bytes start bytes t =
     (let t = (if tf_partial t = [] \<and> \<not> tf_discarding t then t\<lparr>tf_partial_offset := start\<rparr> else t);
          t = t\<lparr>tf_offset := u64_saturating_add start (length bytes)\<rparr>
      in accept_loop start 0 bytes (t, []))"

definition count_read :: "string \<Rightarrow> tail_file \<Rightarrow> tail_file" where
  "count_read bytes t =
     t\<lparr>tf_read_calls := u64_saturating_add (tf_read_calls t) 1,
       tf_bytes_read := u64_saturating_add (tf_bytes_read t) (length bytes)\<rparr>"

text \<open>
  The state survives a failed read, so every function returns it beside the result. The second
  read is the one at byte zero of a file that replaced the one the snapshot saw.
\<close>

definition poll_snapshot_to_goalpost ::
  "'w read_boundary \<Rightarrow> file_snapshot \<Rightarrow> u64 \<Rightarrow> tail_file \<Rightarrow> 'w
     \<Rightarrow> (io_error + tail_record list) \<times> tail_file \<times> 'w" where
  "poll_snapshot_to_goalpost boundary snapshot goalpost t w =
     (let t = observe_snapshot snapshot t in
      if fs_size snapshot \<le> tf_offset t \<or> goalpost \<le> tf_offset t then (Inr [], t, w)
      else
        let requested = tf_offset t;
            max_bytes = min (u64_saturating_sub goalpost requested) max_tail_chunk_bytes
        in case rb_read_from_bounded boundary (tf_root t) (tf_relative t) requested max_bytes w of
             (Inl e, w) \<Rightarrow> (Inl e, t, w)
           | (Inr chunk, w) \<Rightarrow>
               let t = count_read (rc_bytes chunk) t in
               if snapshot_identity (rc_snapshot chunk) \<noteq> tf_identity t
               then
                 let t = (restart_tail (snapshot_identity (rc_snapshot chunk)) t)
                           \<lparr>tf_last_size := fs_size (rc_snapshot chunk)\<rparr>
                 in case rb_read_from_bounded boundary (tf_root t) (tf_relative t) 0
                        (min goalpost max_tail_chunk_bytes) w of
                      (Inl e, w) \<Rightarrow> (Inl e, t, w)
                    | (Inr replacement, w) \<Rightarrow>
                        let t = count_read (rc_bytes replacement) t in
                        if snapshot_identity (rc_snapshot replacement) \<noteq> tf_identity t
                        then (Inr [], t, w)
                        else (case accept_bytes 0 (rc_bytes replacement) t of
                                (t, records) \<Rightarrow> (Inr records, t, w))
               else
                 let t = t\<lparr>tf_last_size := fs_size (rc_snapshot chunk)\<rparr>
                 in case accept_bytes requested (rc_bytes chunk) t of
                      (t, records) \<Rightarrow> (Inr records, t, w))"

definition tail_poll ::
  "'w read_boundary \<Rightarrow> tail_file \<Rightarrow> 'w \<Rightarrow> (io_error + tail_record list) \<times> tail_file \<times> 'w" where
  "tail_poll boundary t w =
     (case rb_snapshot boundary (tf_root t) (tf_relative t) w of
        (Inl e, w) \<Rightarrow> (Inl e, t, w)
      | (Inr snapshot, w) \<Rightarrow> poll_snapshot_to_goalpost boundary snapshot (fs_size snapshot) t w)"

definition cycle_goalpost ::
  "'w read_boundary \<Rightarrow> tail_file \<Rightarrow> 'w \<Rightarrow> (io_error + u64) \<times> tail_file \<times> 'w" where
  "cycle_goalpost boundary t w =
     (case rb_snapshot boundary (tf_root t) (tf_relative t) w of
        (Inl e, w) \<Rightarrow> (Inl e, t, w)
      | (Inr snapshot, w) \<Rightarrow> (Inr (fs_size snapshot), observe_snapshot snapshot t, w))"

definition poll_to_goalpost ::
  "'w read_boundary \<Rightarrow> u64 \<Rightarrow> tail_file \<Rightarrow> 'w \<Rightarrow> (io_error + tail_record list) \<times> tail_file \<times> 'w" where
  "poll_to_goalpost boundary goalpost t w =
     (case rb_snapshot boundary (tf_root t) (tf_relative t) w of
        (Inl e, w) \<Rightarrow> (Inl e, t, w)
      | (Inr snapshot, w) \<Rightarrow> poll_snapshot_to_goalpost boundary snapshot goalpost t w)"

section \<open>The file system\<close>

text \<open>
  \<open>FsReadBoundary\<close>: the path is opened anew on every call; the world says which regular file, if
  any, the contained path names at the moment.
\<close>

record disk_file =
  df_dev :: u64
  df_inode :: u64
  df_content :: string

type_synonym disk = "string \<Rightarrow> string \<Rightarrow> disk_file option"

definition snapshot_from_file :: "disk_file \<Rightarrow> file_snapshot" where
  "snapshot_from_file f = \<lparr>fs_dev = df_dev f, fs_inode = df_inode f, fs_size = length (df_content f)\<rparr>"

definition fs_read_boundary :: "disk read_boundary" where
  "fs_read_boundary =
     \<lparr>rb_snapshot = (\<lambda>root relative disk.
        (case disk root relative of None \<Rightarrow> Inl IoError | Some f \<Rightarrow> Inr (snapshot_from_file f), disk)),
      rb_read_from_bounded = (\<lambda>root relative offset max_bytes disk.
        (case disk root relative of
           None \<Rightarrow> Inl IoError
         | Some f \<Rightarrow> Inr \<lparr>rc_snapshot = snapshot_from_file f,
             rc_bytes = take (min max_bytes max_tail_chunk_bytes) (drop offset (df_content f))\<rparr>, disk))\<rparr>"

end
