(* ===== verification/Tail_Laws.thy ===== *)
theory Tail_Laws
  imports Tail
begin

text \<open>
  What a tail reads. However the content of a growing file is cut into chunks, the records of all
  polls together are its lines; a line longer than the limit is reported once. The bytes a tail
  holds back never exceed the limit, whatever the file system answers.
\<close>

section \<open>Lines\<close>

text \<open>The specification: the records of a byte string that starts at some offset.\<close>

definition line_record :: "u64 \<Rightarrow> u64 \<Rightarrow> string \<Rightarrow> tail_record" where
  "line_record offset g line =
     (if length line > max_tail_record_bytes then tail_record_malformed offset g record_too_long_error
      else tail_record_data offset g (strip_carriage_return line))"

function line_records :: "u64 \<Rightarrow> u64 \<Rightarrow> string \<Rightarrow> tail_record list" where
  "line_records offset g content =
     (case newline_position content of
        None \<Rightarrow> (if length content > max_tail_record_bytes
                 then [tail_record_malformed offset g record_too_long_error] else [])
      | Some n \<Rightarrow> line_record offset g (take n content)
          # line_records (u64_saturating_add offset (n + 1)) g (drop (n + 1) content))"
  by pat_completeness auto
termination
  by (relation "measure (\<lambda>(offset, g, content). length content)") (auto dest: newline_position_less)

declare line_records.simps [simp del]
declare accept_loop.simps [simp del]

text \<open>The bytes after the last newline.\<close>

function unfinished :: "string \<Rightarrow> string" where
  "unfinished content =
     (case newline_position content of None \<Rightarrow> content | Some n \<Rightarrow> unfinished (drop (n + 1) content))"
  by pat_completeness auto
termination
  by (relation "measure length") (auto dest: newline_position_less)

declare unfinished.simps [simp del]

lemma saturating_twice [simp]:
  "u64_saturating_add (u64_saturating_add a b) c = u64_saturating_add a (b + c)"
  by (simp add: u64_saturating_add_def)

lemma saturating_zero: "a \<le> u64_max \<Longrightarrow> u64_saturating_add a 0 = a"
  by (simp add: u64_saturating_add_def)

lemma saturating_bounded [simp]: "u64_saturating_add a b \<le> u64_max"
  by (simp add: u64_saturating_add_def)

lemma newline_position_append:
  "newline_position (u @ v) = (case newline_position u of Some n \<Rightarrow> Some n
     | None \<Rightarrow> map_option ((+) (length u)) (newline_position v))"
  by (cases "newline_position v"; induction u) (auto split: option.splits)

lemma unfinished_none [simp]: "newline_position (unfinished c) = None"
proof (induction c rule: unfinished.induct)
  case (1 c)
  then show ?case by (subst unfinished.simps) (auto split: option.split)
qed

lemma unfinished_same: "newline_position u = None \<Longrightarrow> unfinished u = u"
  by (subst unfinished.simps) simp

lemma unfinished_length: "length (unfinished c) \<le> length c"
proof (induction c rule: unfinished.induct)
  case (1 c)
  then show ?case by (subst unfinished.simps) (fastforce split: option.split)
qed

lemma unfinished_append: "unfinished (c @ bs) = unfinished (unfinished c @ bs)"
proof (induction c rule: unfinished.induct)
  case (1 c)
  show ?case
  proof (cases "newline_position c")
    case None
    then show ?thesis by (simp add: unfinished_same)
  next
    case (Some n)
    have "unfinished (c @ bs) = unfinished (drop (n + 1) (c @ bs))"
      by (subst unfinished.simps) (simp add: newline_position_append Some)
    also have "drop (n + 1) (c @ bs) = drop (n + 1) c @ bs"
      using newline_position_less [OF Some] by simp
    also have "unfinished (drop (n + 1) c @ bs) = unfinished (unfinished (drop (n + 1) c) @ bs)"
      by (rule 1 [OF Some])
    also have "unfinished (drop (n + 1) c) = unfinished c"
      using Some by (subst (2) unfinished.simps) simp
    finally show ?thesis .
  qed
qed

text \<open>Where the unfinished record of a string starts, and what is already reported of it.\<close>

definition unfinished_offset :: "u64 \<Rightarrow> string \<Rightarrow> u64" where
  "unfinished_offset s c = u64_saturating_add s (length c - length (unfinished c))"

definition reported :: "u64 \<Rightarrow> u64 \<Rightarrow> string \<Rightarrow> tail_record list" where
  "reported offset g u = (if length u > max_tail_record_bytes
     then [tail_record_malformed offset g record_too_long_error] else [])"

lemma line_records_none: "newline_position u = None \<Longrightarrow> line_records offset g u = reported offset g u"
  by (subst line_records.simps) (simp add: reported_def)

lemma line_records_split:
  assumes "s \<le> u64_max"
  shows "\<exists>X. \<forall>bs. line_records s g (c @ bs) = X @ line_records (unfinished_offset s c) g (unfinished c @ bs)"
  using assms
proof (induction s g c rule: line_records.induct)
  case (1 s g c)
  show ?case
  proof (cases "newline_position c")
    case None
    then show ?thesis
      by (intro exI [of _ "[]"]) (simp add: unfinished_same unfinished_offset_def saturating_zero "1.prems")
  next
    case (Some n)
    let ?d = "drop (n + 1) c"
    from "1.IH" [OF Some] obtain X where X: "line_records (u64_saturating_add s (n + 1)) g (?d @ bs)
        = X @ line_records (unfinished_offset (u64_saturating_add s (n + 1)) ?d) g (unfinished ?d @ bs)" for bs
      by auto
    have u: "unfinished c = unfinished ?d" using Some by (subst unfinished.simps) simp
    have o': "unfinished_offset (u64_saturating_add s (n + 1)) ?d = unfinished_offset s c"
    proof -
      have "n + 1 + (length ?d - length (unfinished ?d)) = length c - length (unfinished ?d)"
        using newline_position_less [OF Some] unfinished_length [of ?d] by simp
      then show ?thesis unfolding unfinished_offset_def u saturating_twice by (rule arg_cong)
    qed
    have "line_records s g (c @ bs) = line_record s g (take n c)
        # line_records (u64_saturating_add s (n + 1)) g (?d @ bs)" for bs
      using newline_position_less [OF Some]
      by (subst line_records.simps) (simp add: newline_position_append Some)
    with X show ?thesis
      by (intro exI [of _ "line_record s g (take n c) # X"]) (simp add: u o' [simplified])
  qed
qed

section \<open>The loop over a chunk\<close>

text \<open>The tail holds back the record \<open>u\<close> that started at \<open>offset\<close>.\<close>

definition holds_back :: "tail_file \<Rightarrow> u64 \<Rightarrow> u64 \<Rightarrow> string \<Rightarrow> bool" where
  "holds_back t offset g u \<longleftrightarrow> tf_generation t = g \<and> tf_partial_offset t = offset
     \<and> newline_position u = None
     \<and> (if tf_discarding t then tf_partial t = [] \<and> length u > max_tail_record_bytes
        else tf_partial t = u \<and> length u \<le> max_tail_record_bytes)"

lemma accept_loop_records:
  assumes "holds_back t offset g u" and "offset \<le> u64_max"
    and "\<And>k. u64_saturating_add offset (length u + k) = u64_saturating_add start (cursor + k)"
    and "accept_loop start cursor remaining (t, records) = (t', records')"
  shows "\<exists>new. records' = records @ new
    \<and> line_records offset g (u @ remaining) = reported offset g u @ new
    \<and> holds_back t' (unfinished_offset offset (u @ remaining)) g (unfinished (u @ remaining))
    \<and> tf_offset t' = tf_offset t \<and> tf_identity t' = tf_identity t \<and> tf_last_size t' = tf_last_size t
    \<and> tf_root t' = tf_root t \<and> tf_relative t' = tf_relative t"
  using assms
proof (induction "length remaining" arbitrary: t offset u cursor remaining records rule: less_induct)
  case less
  note st = less.prems(1) [unfolded holds_back_def]
  show ?case
  proof (cases "newline_position remaining")
    case None
    have all: "newline_position (u @ remaining) = None" using st None by (simp add: newline_position_append)
    have done_: "unfinished (u @ remaining) = u @ remaining" "unfinished_offset offset (u @ remaining) = offset"
      by (simp_all add: unfinished_same all unfinished_offset_def saturating_zero less.prems(2))
    show ?thesis
      using less.prems(4) st None unfolding done_ line_records_none [OF all]
      by (subst (asm) accept_loop.simps) (auto simp: holds_back_def reported_def all split: if_splits)
  next
    case (Some n)
    have n: "n < length remaining" by (rule newline_position_less [OF Some])
    let ?rest = "drop (n + 1) remaining"
    let ?offset = "u64_saturating_add start (cursor + n + 1)"
    have pos: "newline_position (u @ remaining) = Some (length u + n)"
      using st Some by (simp add: newline_position_append)
    have next_: "u64_saturating_add offset (length u + n + 1) = ?offset"
      using less.prems(3) [of "n + 1"] by (simp add: add.assoc)
    have lines: "line_records offset g (u @ remaining)
        = line_record offset g (u @ take n remaining) # line_records ?offset g ?rest"
      using n by (subst line_records.simps) (simp add: pos next_ [simplified])
    have rest: "unfinished (u @ remaining) = unfinished ?rest"
      by (subst unfinished.simps) (simp add: pos)
    have offs: "unfinished_offset ?offset ?rest = unfinished_offset offset (u @ remaining)"
    proof -
      have len: "length u + n + 1 + (length ?rest - length (unfinished ?rest))
          = length (u @ remaining) - length (unfinished ?rest)"
        using unfinished_length [of ?rest] n by simp
      show ?thesis unfolding unfinished_offset_def rest next_ [symmetric] saturating_twice len ..
    qed
    let ?t = "if tf_discarding t then t\<lparr>tf_partial_offset := ?offset, tf_discarding := False\<rparr>
      else t\<lparr>tf_partial := [], tf_partial_offset := ?offset\<rparr>"
    let ?rec = "if tf_discarding t then [] else [line_record offset g (u @ take n remaining)]"
    have held: "holds_back ?t ?offset g []" using st by (simp add: holds_back_def)
    have step: "accept_loop start (cursor + n + 1) ?rest (?t, records @ ?rec) = (t', records')"
      using less.prems(4) st Some n
      by (subst (asm) accept_loop.simps) (auto simp: line_record_def split: if_splits)
    have shorter: "length ?rest < length remaining" using n by simp
    from less.hyps [OF shorter held _ _ step] obtain new where new:
      "records' = (records @ ?rec) @ new" "line_records ?offset g ?rest = new"
      "holds_back t' (unfinished_offset ?offset ?rest) g (unfinished ?rest)"
      "tf_offset t' = tf_offset ?t \<and> tf_identity t' = tf_identity ?t \<and> tf_last_size t' = tf_last_size ?t
        \<and> tf_root t' = tf_root ?t \<and> tf_relative t' = tf_relative ?t"
      by (auto simp: reported_def max_tail_record_bytes_def)
    have early: "line_record offset g (u @ take n remaining) # new = reported offset g u @ ?rec @ new"
      using st n by (cases "tf_discarding t") (auto simp: reported_def line_record_def)
    have same: "tf_offset ?t = tf_offset t" "tf_identity ?t = tf_identity t"
      "tf_last_size ?t = tf_last_size t" "tf_root ?t = tf_root t" "tf_relative ?t = tf_relative t"
      by simp_all
    show ?thesis
      using new(1,3,4) [unfolded same] early
      by (intro exI [of _ "?rec @ new"]) (simp add: lines [simplified] new(2) [simplified] rest [simplified] offs [simplified])
  qed
qed

section \<open>Chunks of one file\<close>

text \<open>The tail has read \<open>c\<close>, from offset \<open>s\<close> on, and reported its lines.\<close>

definition has_read :: "tail_file \<Rightarrow> u64 \<Rightarrow> u64 \<Rightarrow> string \<Rightarrow> bool" where
  "has_read t s g c \<longleftrightarrow> s \<le> u64_max \<and> tf_offset t = u64_saturating_add s (length c)
     \<and> holds_back t (unfinished_offset s c) g (unfinished c)"

lemma holds_back_offset [simp]: "holds_back (t\<lparr>tf_offset := x\<rparr>) offset g u = holds_back t offset g u"
  by (simp add: holds_back_def)

lemma holds_back_start:
  "holds_back t offset g u \<Longrightarrow> holds_back (t\<lparr>tf_partial_offset := offset\<rparr>) offset g u"
  by (simp add: holds_back_def)

lemma accept_bytes_lines:
  assumes "has_read t s g c" and "accept_bytes (tf_offset t) bs t = (t', new)"
  shows "has_read t' s g (c @ bs) \<and> line_records s g (c @ bs) = line_records s g c @ new
    \<and> tf_identity t' = tf_identity t \<and> tf_last_size t' = tf_last_size t
    \<and> tf_root t' = tf_root t \<and> tf_relative t' = tf_relative t"
proof -
  let ?u = "unfinished c" and ?o = "unfinished_offset s c"
  have s: "s \<le> u64_max" and offset: "tf_offset t = u64_saturating_add s (length c)"
    and held: "holds_back t ?o g ?u" using assms(1) by (auto simp: has_read_def)
  let ?t = "(if tf_partial t = [] \<and> \<not> tf_discarding t then t\<lparr>tf_partial_offset := tf_offset t\<rparr> else t)
    \<lparr>tf_offset := u64_saturating_add (tf_offset t) (length bs)\<rparr>"
  have run: "accept_loop (tf_offset t) 0 bs (?t, []) = (t', new)"
    using assms(2) by (auto simp: accept_bytes_def Let_def split: if_splits)
  have align: "u64_saturating_add ?o (length ?u + k) = u64_saturating_add (tf_offset t) (0 + k)" for k
    using unfinished_length [of c] by (simp add: unfinished_offset_def offset)
  have "tf_partial t = [] \<Longrightarrow> \<not> tf_discarding t \<Longrightarrow> ?o = tf_offset t"
    using held by (simp add: holds_back_def unfinished_offset_def offset)
  then have "holds_back ?t ?o g ?u" using held holds_back_start [OF held] by auto
  from accept_loop_records [OF this _ align run] have new:
    "line_records ?o g (?u @ bs) = reported ?o g ?u @ new"
    "holds_back t' (unfinished_offset ?o (?u @ bs)) g (unfinished (?u @ bs))"
    "tf_offset t' = u64_saturating_add (tf_offset t) (length bs)" "tf_identity t' = tf_identity t"
    "tf_last_size t' = tf_last_size t" "tf_root t' = tf_root t" "tf_relative t' = tf_relative t"
    by (auto simp: unfinished_offset_def)
  have tail: "unfinished_offset ?o (?u @ bs) = unfinished_offset s (c @ bs)"
  proof -
    have "length c - length ?u + (length (?u @ bs) - length (unfinished (?u @ bs)))
        = length (c @ bs) - length (unfinished (?u @ bs))"
      using unfinished_length [of c] unfinished_length [of "?u @ bs"] by simp
    then show ?thesis
      unfolding unfinished_offset_def [of _ "?u @ bs"] unfinished_offset_def [of s c]
        unfinished_offset_def [of s "c @ bs"] unfinished_append [of c bs] saturating_twice by simp
  qed
  from line_records_split [OF s, of g c] obtain X where
    X: "line_records s g (c @ bs) = X @ line_records ?o g (?u @ bs)" for bs by blast
  have "line_records s g (c @ bs) = line_records s g c @ new"
    using X [of "[]"] X [of bs] new(1) by (simp add: line_records_none)
  with new tail s show ?thesis
    by (simp add: has_read_def offset unfinished_append [of c bs])
qed

section \<open>Polling a growing file\<close>

text \<open>One poll after the other, each on the disk as it is then; a failed poll is tried again later.\<close>

fun poll_all :: "disk list \<Rightarrow> tail_file \<Rightarrow> tail_record list \<times> tail_file" where
  "poll_all [] t = ([], t)"
| "poll_all (d # ds) t =
     (case tail_poll fs_read_boundary t d of
        (Inl _, t', _) \<Rightarrow> poll_all ds t'
      | (Inr new, t', _) \<Rightarrow> (case poll_all ds t' of (later, t'') \<Rightarrow> (new @ later, t'')))"

text \<open>The same file at every poll at which it can be opened, with more content each time.\<close>

fun grows_from :: "string \<Rightarrow> string \<Rightarrow> disk_file \<Rightarrow> disk list \<Rightarrow> bool" where
  "grows_from root relative f [] = True"
| "grows_from root relative f (d # ds) =
     (case d root relative of
        None \<Rightarrow> grows_from root relative f ds
      | Some f' \<Rightarrow> df_dev f' = df_dev f \<and> df_inode f' = df_inode f
          \<and> take (length (df_content f)) (df_content f') = df_content f
          \<and> length (df_content f') \<le> u64_max \<and> grows_from root relative f' ds)"

fun last_seen :: "string \<Rightarrow> string \<Rightarrow> disk_file \<Rightarrow> disk list \<Rightarrow> disk_file" where
  "last_seen root relative f [] = f"
| "last_seen root relative f (d # ds) =
     last_seen root relative (opt_unwrap_or f (d root relative)) ds"

text \<open>The tail follows the file: it has read its bytes from \<open>s\<close> up to its offset.\<close>

definition follows :: "tail_file \<Rightarrow> u64 \<Rightarrow> u64 \<Rightarrow> disk_file \<Rightarrow> bool" where
  "follows t s g f \<longleftrightarrow> tf_identity t = (df_dev f, df_inode f)
     \<and> s \<le> tf_offset t \<and> tf_offset t \<le> length (df_content f)
     \<and> tf_last_size t \<le> length (df_content f) \<and> length (df_content f) \<le> u64_max
     \<and> has_read t s g (drop s (take (tf_offset t) (df_content f)))"

definition lines_read :: "tail_file \<Rightarrow> u64 \<Rightarrow> u64 \<Rightarrow> disk_file \<Rightarrow> tail_record list" where
  "lines_read t s g f = line_records s g (drop s (take (tf_offset t) (df_content f)))"

lemma follows_grown:
  assumes "follows t s g f" and "df_dev f' = df_dev f" and "df_inode f' = df_inode f"
    and "take (length (df_content f)) (df_content f') = df_content f"
    and "length (df_content f') \<le> u64_max"
  shows "follows t s g f' \<and> lines_read t s g f' = lines_read t s g f"
proof -
  have len: "length (df_content f) \<le> length (df_content f')" using assms(4) by (metis length_take min.absorb_iff2 min.commute)
  have "tf_offset t \<le> length (df_content f)" using assms(1) by (simp add: follows_def)
  then have "take (tf_offset t) (df_content f') = take (tf_offset t) (df_content f)"
    using assms(4) by (metis min.absorb1 take_take)
  with assms len show ?thesis by (auto simp: follows_def lines_read_def)
qed

lemma observe_same:
  assumes "follows t s g f"
  shows "observe_snapshot (snapshot_from_file f) t = t\<lparr>tf_last_size := length (df_content f)\<rparr>"
  using assms by (auto simp: observe_snapshot_def follows_def snapshot_from_file_def snapshot_identity_def Let_def)

lemma has_read_frame [simp]:
  "has_read (t\<lparr>tf_last_size := n\<rparr>) s g c = has_read t s g c"
  "has_read (count_read bs t) s g c = has_read t s g c"
  by (simp_all add: has_read_def holds_back_def count_read_def)

lemma poll_lines:
  assumes "follows t s g f" and "disk (tf_root t) (tf_relative t) = Some f"
  obtains new t' where "tail_poll fs_read_boundary t disk = (Inr new, t', disk)"
    and "follows t' s g f" and "lines_read t' s g f = lines_read t s g f @ new"
    and "tf_root t' = tf_root t" and "tf_relative t' = tf_relative t"
    and "tf_offset t' = min (length (df_content f)) (tf_offset t + max_tail_chunk_bytes)"
proof -
  let ?n = "length (df_content f)" and ?snap = "snapshot_from_file f"
  let ?t = "t\<lparr>tf_last_size := ?n\<rparr>"
  have st: "tf_identity t = (df_dev f, df_inode f)" "s \<le> tf_offset t" "tf_offset t \<le> ?n" "?n \<le> u64_max"
    and read: "has_read t s g (drop s (take (tf_offset t) (df_content f)))"
    using assms(1) by (auto simp: follows_def)
  have snap: "rb_snapshot fs_read_boundary (tf_root t) (tf_relative t) disk = (Inr ?snap, disk)"
    by (simp add: fs_read_boundary_def assms(2))
  have size: "fs_size ?snap = ?n" and ident: "snapshot_identity ?snap = tf_identity t"
    by (simp_all add: snapshot_from_file_def snapshot_identity_def st(1))
  show thesis
  proof (cases "tf_offset t = ?n")
    case True
    have "tail_poll fs_read_boundary t disk = (Inr [], ?t, disk)"
      by (simp add: tail_poll_def snap poll_snapshot_to_goalpost_def observe_same [OF assms(1)] size True Let_def)
    moreover have "follows ?t s g f" using st read by (simp add: follows_def)
    ultimately show thesis by (intro that [of "[]" ?t]) (simp_all add: lines_read_def True)
  next
    case False
    then have less: "tf_offset t < ?n" using st(3) by simp
    let ?max = "min (u64_saturating_sub ?n (tf_offset t)) max_tail_chunk_bytes"
    let ?bs = "take ?max (drop (tf_offset t) (df_content f))"
    have chunk: "rb_read_from_bounded fs_read_boundary (tf_root t) (tf_relative t) (tf_offset t) ?max disk
        = (Inr \<lparr>rc_snapshot = ?snap, rc_bytes = ?bs\<rparr>, disk)"
      by (simp add: fs_read_boundary_def assms(2))
    let ?u = "(count_read ?bs ?t)\<lparr>tf_last_size := ?n\<rparr>"
    obtain t' new where acc: "accept_bytes (tf_offset ?u) ?bs ?u = (t', new)" by fastforce
    have poll: "tail_poll fs_read_boundary t disk = (Inr new, t', disk)"
      using acc less chunk
      by (simp add: tail_poll_def snap poll_snapshot_to_goalpost_def observe_same [OF assms(1)] size Let_def
          count_read_def ident not_le [symmetric])
    have upto: "drop s (take (tf_offset t) (df_content f)) @ ?bs
        = drop s (take (tf_offset t + ?max) (df_content f))"
      using st(2,3) by (simp add: take_add)
    have "has_read ?u s g (drop s (take (tf_offset t) (df_content f)))" using read by simp
    from accept_bytes_lines [OF this acc, unfolded upto] have acc':
      "has_read t' s g (drop s (take (tf_offset t + ?max) (df_content f)))"
      "line_records s g (drop s (take (tf_offset t + ?max) (df_content f))) = lines_read t s g f @ new"
      "tf_identity t' = tf_identity t" "tf_last_size t' = ?n" "tf_root t' = tf_root t"
      "tf_relative t' = tf_relative t" by (auto simp: lines_read_def count_read_def)
    have offset: "tf_offset t' = tf_offset t + ?max"
      using acc'(1) st less by (simp add: has_read_def u64_saturating_add_def u64_saturating_sub_def)
    show thesis
    proof (rule that [OF poll])
      show "follows t' s g f"
        using acc' offset st less by (simp add: follows_def u64_saturating_sub_def)
      show "lines_read t' s g f = lines_read t s g f @ new"
        using acc'(2) by (simp add: lines_read_def offset)
      show "tf_offset t' = min ?n (tf_offset t + max_tail_chunk_bytes)"
        using offset less by (auto simp: u64_saturating_sub_def)
    qed (use acc' in simp_all)
  qed
qed

lemma poll_all_lines:
  assumes "follows t s g f" and "grows_from (tf_root t) (tf_relative t) f ds"
    and "poll_all ds t = (new, t')"
  shows "follows t' s g (last_seen (tf_root t) (tf_relative t) f ds)
    \<and> lines_read t' s g (last_seen (tf_root t) (tf_relative t) f ds) = lines_read t s g f @ new"
  using assms
proof (induction ds arbitrary: t f new)
  case Nil
  then show ?case by simp
next
  case (Cons d ds)
  show ?case
  proof (cases "d (tf_root t) (tf_relative t)")
    case None
    have "tail_poll fs_read_boundary t d = (Inl IoError, t, d)"
      by (simp add: tail_poll_def fs_read_boundary_def None)
    with Cons None show ?thesis by simp
  next
    case (Some f')
    with Cons.prems(2) have g: "df_dev f' = df_dev f" "df_inode f' = df_inode f"
      "take (length (df_content f)) (df_content f') = df_content f" "length (df_content f') \<le> u64_max"
      "grows_from (tf_root t) (tf_relative t) f' ds" by auto
    from follows_grown [OF Cons.prems(1) g(1-4)]
    have f': "follows t s g f'" "lines_read t s g f' = lines_read t s g f" by simp_all
    obtain new1 t1 where poll: "tail_poll fs_read_boundary t d = (Inr new1, t1, d)" "follows t1 s g f'"
        "lines_read t1 s g f' = lines_read t s g f' @ new1"
        "tf_root t1 = tf_root t" "tf_relative t1 = tf_relative t"
      by (rule poll_lines [of t s g f' d, OF f'(1) Some]) (rule that; assumption)
    obtain new2 where rest: "poll_all ds t1 = (new2, t')" "new = new1 @ new2"
      using Cons.prems(3) poll(1) by (auto split: prod.splits)
    from Cons.IH [OF poll(2) _ rest(1)] g(5) poll f'(2) rest(2) Some show ?thesis by simp
  qed
qed

text \<open>Each poll that succeeds reads a whole chunk or everything there is.\<close>

lemma poll_all_progress:
  assumes "follows t s g f" and "grows_from (tf_root t) (tf_relative t) f ds"
    and "poll_all ds t = (new, t')"
  shows "min (length (df_content f))
      (tf_offset t + length (filter (\<lambda>d. d (tf_root t) (tf_relative t) \<noteq> None) ds) * max_tail_chunk_bytes)
    \<le> tf_offset t'"
  using assms
proof (induction ds arbitrary: t f new)
  case Nil
  then show ?case by simp
next
  case (Cons d ds)
  show ?case
  proof (cases "d (tf_root t) (tf_relative t)")
    case None
    have "tail_poll fs_read_boundary t d = (Inl IoError, t, d)"
      by (simp add: tail_poll_def fs_read_boundary_def None)
    with Cons None show ?thesis by simp
  next
    case (Some f')
    with Cons.prems(2) have g: "df_dev f' = df_dev f" "df_inode f' = df_inode f"
      "take (length (df_content f)) (df_content f') = df_content f" "length (df_content f') \<le> u64_max"
      "grows_from (tf_root t) (tf_relative t) f' ds" by auto
    have len: "length (df_content f) \<le> length (df_content f')"
      using g(3) by (metis length_take min.absorb_iff2 min.commute)
    from follows_grown [OF Cons.prems(1) g(1-4)] have f': "follows t s g f'" by simp
    obtain new1 t1 where poll: "tail_poll fs_read_boundary t d = (Inr new1, t1, d)" "follows t1 s g f'"
        "tf_root t1 = tf_root t" "tf_relative t1 = tf_relative t"
        "tf_offset t1 = min (length (df_content f')) (tf_offset t + max_tail_chunk_bytes)"
      by (rule poll_lines [of t s g f' d, OF f' Some]) (rule that; assumption)
    obtain new2 where rest: "poll_all ds t1 = (new2, t')"
      using Cons.prems(3) poll(1) by (auto split: prod.splits)
    from Cons.IH [OF poll(2) _ rest] g(5) poll(3-5) Some len show ?thesis
      by (simp add: min_def split: if_splits)
  qed
qed

lemma open_follows:
  assumes "tail_open fs_read_boundary root relative baseline g disk = (Inr t, disk')"
    and "disk root relative = Some f" and "length (df_content f) \<le> u64_max"
  shows "follows t (tf_offset t) g f" and "lines_read t (tf_offset t) g f = []"
    and "tf_root t = root" and "tf_relative t = relative"
    and "tf_offset t = (if baseline_contained baseline root relative then length (df_content f) else 0)"
proof -
  let ?s = "if baseline_contained baseline root relative then length (df_content f) else 0"
  have t: "t = \<lparr>tf_root = root, tf_relative = relative, tf_offset = ?s,
      tf_identity = (df_dev f, df_inode f), tf_last_size = length (df_content f), tf_generation = g,
      tf_partial = [], tf_partial_offset = ?s, tf_discarding = False, tf_read_calls = 0, tf_bytes_read = 0\<rparr>"
    using assms(1) by (auto simp: tail_open_def io_bind_def io_return_def fs_read_boundary_def assms(2)
        snapshot_from_file_def snapshot_identity_def Let_def)
  have none: "unfinished [] = []" "line_records s g [] = []" for s
    by (simp_all add: unfinished_same line_records_none reported_def)
  show "follows t (tf_offset t) g f"
    using assms(3) by (auto simp: t follows_def has_read_def holds_back_def none unfinished_offset_def
        saturating_zero)
  show "lines_read t (tf_offset t) g f = []" by (simp add: lines_read_def none)
  show "tf_root t = root" "tf_relative t = relative" "tf_offset t = ?s" by (simp_all add: t)
qed

section \<open>Bounds against any file system\<close>

definition tail_bounded :: "tail_file \<Rightarrow> bool" where
  "tail_bounded t \<longleftrightarrow> length (tf_partial t) \<le> max_tail_record_bytes
     \<and> (tf_discarding t \<longrightarrow> tf_partial t = [])"

lemma accept_loop_bounded:
  "tail_bounded t \<Longrightarrow> accept_loop start cursor remaining (t, records) = (t', records') \<Longrightarrow> tail_bounded t'"
proof (induction "length remaining" arbitrary: t cursor remaining records rule: less_induct)
  case less
  show ?case
  proof (cases "newline_position remaining")
    case None
    with less.prems show ?thesis
      by (subst (asm) accept_loop.simps) (auto simp: tail_bounded_def split: if_splits)
  next
    case (Some n)
    then have shorter: "length (drop (n + 1) remaining) < length remaining" "remaining \<noteq> []"
      using newline_position_less [OF Some] by auto
    show ?thesis
    proof (cases "tf_discarding t")
      case True
      have "accept_loop start (cursor + n + 1) (drop (n + 1) remaining)
          (t\<lparr>tf_partial_offset := u64_saturating_add start (cursor + n + 1), tf_discarding := False\<rparr>, records)
        = (t', records')"
        using less.prems(2) Some True shorter(2) by (subst (asm) accept_loop.simps) simp
      from less.hyps [OF shorter(1) _ this] less.prems(1) show ?thesis by (simp add: tail_bounded_def)
    next
      case False
      obtain rs where "accept_loop start (cursor + n + 1) (drop (n + 1) remaining)
          (t\<lparr>tf_partial := [], tf_partial_offset := u64_saturating_add start (cursor + n + 1)\<rparr>, rs)
        = (t', records')"
        using less.prems(2) Some False shorter(2) by (subst (asm) accept_loop.simps) simp
      from less.hyps [OF shorter(1) _ this] show ?thesis by (simp add: tail_bounded_def)
    qed
  qed
qed

text \<open>Every tail that can come about, whatever the boundary answers and however the world changes.\<close>

inductive tail_reachable :: "'w read_boundary \<Rightarrow> tail_file \<Rightarrow> bool" for boundary where
  reach_open: "tail_open boundary root relative baseline g w = (Inr t, w') \<Longrightarrow> tail_reachable boundary t"
| reach_poll: "tail_reachable boundary t \<Longrightarrow> tail_poll boundary t w = (r, t', w') \<Longrightarrow>
    tail_reachable boundary t'"
| reach_goalpost: "tail_reachable boundary t \<Longrightarrow> cycle_goalpost boundary t w = (r', t', w') \<Longrightarrow>
    tail_reachable boundary t'"
| reach_poll_to: "tail_reachable boundary t \<Longrightarrow> poll_to_goalpost boundary goalpost t w = (r, t', w') \<Longrightarrow>
    tail_reachable boundary t'"

lemma tail_bounded_frame [simp]:
  "tail_bounded (count_read bs t) = tail_bounded t"
  "tail_bounded (t\<lparr>tf_last_size := n\<rparr>) = tail_bounded t"
  "tail_bounded (t\<lparr>tf_offset := n\<rparr>) = tail_bounded t"
  "tail_bounded (t\<lparr>tf_partial_offset := n\<rparr>) = tail_bounded t"
  "tail_bounded (restart_tail i t)"
  by (auto simp: tail_bounded_def count_read_def restart_tail_def)

lemma observe_bounded [simp]: "tail_bounded t \<Longrightarrow> tail_bounded (observe_snapshot snapshot t)"
  by (simp add: observe_snapshot_def Let_def)

lemma accept_bytes_bounded:
  assumes "tail_bounded t" and "accept_bytes start bs t = (t', new)"
  shows "tail_bounded t'"
  by (rule accept_loop_bounded [OF _ assms(2) [unfolded accept_bytes_def Let_def]]) (simp add: assms(1))

lemma poll_bounded:
  assumes "tail_bounded t" and "poll_snapshot_to_goalpost boundary snapshot goalpost t w = (r, t', w')"
  shows "tail_bounded t'"
  using assms
  by (auto simp: poll_snapshot_to_goalpost_def Let_def split: if_splits prod.splits sum.splits
      dest: accept_bytes_bounded [rotated])

lemma reachable_bounded: "tail_reachable boundary t \<Longrightarrow> tail_bounded t"
proof (induction rule: tail_reachable.induct)
  case reach_open
  then show ?case
    by (auto simp: tail_open_def io_bind_def io_return_def Let_def tail_bounded_def split: prod.splits sum.splits)
next
  case reach_poll
  then show ?case by (auto simp: tail_poll_def split: prod.splits sum.splits dest: poll_bounded [rotated])
next
  case reach_goalpost
  then show ?case by (auto simp: cycle_goalpost_def split: prod.splits sum.splits)
next
  case reach_poll_to
  then show ?case by (auto simp: poll_to_goalpost_def split: prod.splits sum.splits dest: poll_bounded [rotated])
qed

end
