(* ===== verification/Session_Key.thy ===== *)
theory Session_Key
  imports Prelude
begin

text \<open>
  Session names (\<open>src/session_key.rs\<close>): which input names the session, and the path-safe key it is
  encoded as. The SHA-256 digest belongs to another crate: it is the parameter \<open>sha256\<close>, from the
  bytes of the name to the 32 bytes of its digest.
\<close>

section \<open>Resolution and encoding\<close>

datatype resolver_source = ExplicitFlag | Environment | ManagedPaneDefault

definition resolver_source_text :: "resolver_source \<Rightarrow> string" where
  "resolver_source_text source =
     (case source of ExplicitFlag \<Rightarrow> ''flag'' | Environment \<Rightarrow> ''environment''
      | ManagedPaneDefault \<Rightarrow> ''default'')"

record session_key =
  sk_original_name :: string
  sk_sanitized :: string
  sk_hash16 :: string
  sk_encoded :: string

record resolved_session =
  rs_session_key :: session_key
  rs_source :: resolver_source

datatype session_key_error = UnresolvableSession | EmptyName | DotOnlyName

text \<open>One byte of the name; only the first byte must not be a dot.\<close>

definition key_byte_ok :: "char \<Rightarrow> bool" where
  "key_byte_ok c \<longleftrightarrow> (CHR ''a'' \<le> c \<and> c \<le> CHR ''z'') \<or> (CHR ''0'' \<le> c \<and> c \<le> CHR ''9'')
     \<or> c = CHR ''.'' \<or> c = CHR ''_'' \<or> c = CHR ''-''"

definition sanitize_byte :: "nat \<Rightarrow> char \<Rightarrow> char" where
  "sanitize_byte index byte =
     (let byte = ascii_lower byte
      in if index = 0 \<and> byte = CHR ''.'' \<or> \<not> key_byte_ok byte then CHR ''_'' else byte)"

definition sanitize_name :: "string \<Rightarrow> string" where
  "sanitize_name name = map (\<lambda>(index, byte). sanitize_byte index byte) (enumerate 0 (take 48 name))"

definition hex_byte :: "char \<Rightarrow> string" where
  "hex_byte byte = [hex_digit (byte_of byte div 16), hex_digit (byte_of byte mod 16)]"

definition session_encode :: "(string \<Rightarrow> string) \<Rightarrow> string \<Rightarrow> session_key_error + session_key" where
  "session_encode sha256 name =
     (if name = [] then Inl EmptyName
      else if list_all (\<lambda>byte. byte = CHR ''.'') name then Inl DotOnlyName
      else
        let sanitized = sanitize_name name;
            hash16 = concat (map hex_byte (take 8 (sha256 name)))
        in Inr \<lparr>sk_original_name = name, sk_sanitized = sanitized, sk_hash16 = hash16,
                sk_encoded = sanitized @ ''-'' @ hash16\<rparr>)"

definition session_resolve ::
  "(string \<Rightarrow> string) \<Rightarrow> string option \<Rightarrow> string option \<Rightarrow> bool \<Rightarrow> session_key_error + resolved_session" where
  "session_resolve sha256 session_flag herdr_session inside_managed_pane =
     (case (case session_flag of
              Some name \<Rightarrow> Some (name, ExplicitFlag)
            | None \<Rightarrow>
                (case opt_filter (\<lambda>name. name \<noteq> []) herdr_session of
                   Some name \<Rightarrow> Some (name, Environment)
                 | None \<Rightarrow>
                     if inside_managed_pane then Some (''default'', ManagedPaneDefault) else None)) of
        None \<Rightarrow> Inl UnresolvableSession
      | Some (name, source) \<Rightarrow>
          (case session_encode sha256 name of
             Inl e \<Rightarrow> Inl e
           | Inr key \<Rightarrow> Inr \<lparr>rs_session_key = key, rs_source = source\<rparr>))"

section \<open>Keys are path components\<close>

lemma sanitize_byte_ok: "key_byte_ok (sanitize_byte index byte)"
  by (simp add: sanitize_byte_def Let_def key_byte_ok_def)

lemma sanitize_name_ok: "list_all key_byte_ok (sanitize_name name)"
  by (auto simp: sanitize_name_def list_all_iff sanitize_byte_ok)

lemma sanitize_name_length: "length (sanitize_name name) = min 48 (length name)"
  by (simp add: sanitize_name_def)

lemma hd_sanitize_name: "name \<noteq> [] \<Longrightarrow> hd (sanitize_name name) \<noteq> CHR ''.''"
  by (cases name) (auto simp: sanitize_name_def sanitize_byte_def Let_def)

lemma hex_digit_ok: "n < 16 \<Longrightarrow> key_byte_ok (hex_digit n)"
  by (simp add: hex_digit_def key_byte_ok_def less_eq_char_def)

lemma byte_div: "byte_of c div 16 < 16"
proof -
  have "(of_char c :: nat) < 256" by simp
  then show ?thesis unfolding byte_of_def by (intro less_mult_imp_div_less) linarith
qed

lemma hex_byte_ok: "list_all key_byte_ok (hex_byte byte)"
  by (simp add: hex_byte_def hex_digit_ok byte_div)

lemma hex_digit_inj: "hex_digit n = hex_digit n' \<Longrightarrow> n < 16 \<Longrightarrow> n' < 16 \<Longrightarrow> n = n'"
  by (auto simp: hex_digit_def dest!: arg_cong [where f = "of_char :: char \<Rightarrow> nat"] split: if_splits)

lemma hex_bytes_inj:
  "concat (map hex_byte xs) = concat (map hex_byte ys) \<Longrightarrow> xs = ys"
proof (induction xs arbitrary: ys)
  case Nil
  then show ?case by (cases ys) (auto simp: hex_byte_def)
next
  case (Cons x xs)
  then obtain y ys' where ys: "ys = y # ys'" by (cases ys) (auto simp: hex_byte_def)
  have "byte_of x div 16 = byte_of y div 16" "byte_of x mod 16 = byte_of y mod 16"
    using Cons.prems by (auto simp: ys hex_byte_def intro!: hex_digit_inj byte_div)
  then have "byte_of x = byte_of y" by (metis div_mult_mod_eq)
  then have "x = y" by (simp add: byte_of_def)
  moreover have "xs = ys'" using Cons.IH Cons.prems by (simp add: ys hex_byte_def)
  ultimately show ?case by (simp add: ys)
qed

text \<open>What a key looks like, and when two names share one.\<close>

lemma session_encode_safe:
  assumes "session_encode sha256 name = Inr key" and "length (sha256 name) = 32"
  shows "list_all key_byte_ok (sk_encoded key)" and "sk_encoded key \<noteq> []"
    and "hd (sk_encoded key) \<noteq> CHR ''.''" and "length (sk_encoded key) \<le> 65"
    and "sk_encoded key = sk_sanitized key @ ''-'' @ sk_hash16 key" and "length (sk_hash16 key) = 16"
proof -
  have ne: "name \<noteq> []" and key: "sk_encoded key = sanitize_name name @ ''-'' @ concat (map hex_byte (take 8 (sha256 name)))"
    and eq: "sk_encoded key = sk_sanitized key @ ''-'' @ sk_hash16 key"
    and hash: "sk_hash16 key = concat (map hex_byte (take 8 (sha256 name)))"
    using assms(1) by (auto simp: session_encode_def Let_def split: if_splits)
  have len: "length (concat (map hex_byte bs)) = 2 * length bs" for bs
    by (induction bs) (simp_all add: hex_byte_def)
  show "list_all key_byte_ok (sk_encoded key)"
    using sanitize_name_ok [of name] hex_byte_ok
    by (auto simp: key list_all_iff key_byte_ok_def [of "CHR ''-''"])
  show "sk_encoded key \<noteq> []" by (simp add: key)
  show "hd (sk_encoded key) \<noteq> CHR ''.''"
    using hd_sanitize_name [OF ne] ne sanitize_name_length [of name] by (cases "sanitize_name name") (auto simp: key)
  show "length (sk_hash16 key) = 16" using assms(2) by (simp add: hash len)
  then show "length (sk_encoded key) \<le> 65" using sanitize_name_length [of name] by (simp add: key hash)
  show "sk_encoded key = sk_sanitized key @ ''-'' @ sk_hash16 key" by (rule eq)
qed

lemma session_encode_distinct:
  assumes "session_encode sha256 name = Inr key" and "session_encode sha256 name' = Inr key'"
    and "length (sha256 name) = 32" and "length (sha256 name') = 32"
    and "sk_encoded key = sk_encoded key'"
  shows "take 8 (sha256 name) = take 8 (sha256 name')"
proof -
  note one = session_encode_safe(5,6) [OF assms(1,3)] and two = session_encode_safe(5,6) [OF assms(2,4)]
  have "sk_hash16 key = sk_hash16 key'"
    using assms(5) one two by (simp add: append_eq_append_conv)
  moreover have "sk_hash16 key = concat (map hex_byte (take 8 (sha256 name)))"
    "sk_hash16 key' = concat (map hex_byte (take 8 (sha256 name')))"
    using assms(1,2) by (auto simp: session_encode_def Let_def split: if_splits)
  ultimately show ?thesis by (simp add: hex_bytes_inj)
qed

end
