(* ===== verification/Terminal_Properties.thy ===== *)
theory Terminal_Properties
  imports Deadline_Laws Tail_Laws Session_Key Samples
begin

text \<open>
  The properties of the terminal interface - the dependency order and the execution tree - and of
  the tails and session keys. Each rests on the laws of its component.
\<close>

section \<open>The dependency order\<close>

text \<open>C26. The dependency order contains every known run exactly once; it is a topological order
  exactly when the dependencies have no cycle; and it is the only order that prefers, among the
  runs whose prerequisites are all displayed, the position displayed before, then the ordinal.\<close>

theorem dag_order_exact:
  "\<exists>order'. recompute m order = Some order'
     \<and> distinct (do_run_ids order') \<and> set (do_run_ids order') = known_runs m
     \<and> (topological (known_dependencies m) (do_run_ids order') \<longleftrightarrow> acyclic (known_dependencies m))
     \<and> (\<forall>ids. displayed_order (known_runs m) (known_dependencies m) (displayed_key m order) ids
          \<longleftrightarrow> ids = do_run_ids order')"
proof -
  obtain order' where some: "recompute m order = Some order'"
    and ord: "displayed_order (known_runs m) (known_dependencies m) (displayed_key m order) (do_run_ids order')"
    by (rule recompute_works [of m order])
  note members = displayed_order_members [OF ord]
  note topo = displayed_topological_iff [OF ord finite_known_runs known_dependencies_sub]
  have "displayed_order (known_runs m) (known_dependencies m) (displayed_key m order) ids
      \<longleftrightarrow> ids = do_run_ids order'" for ids
    using displayed_order_unique [OF _ ord displayed_key_inj] ord by metis
  with some members topo show ?thesis by blast
qed

text \<open>C27. The dependency order is stable: recomputing it for a model with the same runs and
  dependencies - whatever else changed, display ordinals included - leaves the displayed order as
  it is.\<close>

theorem dag_order_stable:
  assumes "recompute m order = Some order'"
    and "known_runs m' = known_runs m" and "known_dependencies m' = known_dependencies m"
  shows "\<exists>order''. recompute m' order' = Some order'' \<and> do_run_ids order'' = do_run_ids order'"
proof -
  obtain o1 where o1: "recompute m order = Some o1"
    and ord: "displayed_order (known_runs m) (known_dependencies m) (displayed_key m order) (do_run_ids o1)"
    and pos: "do_previous_positions o1 = zip (do_run_ids o1) [0..<length (do_run_ids o1)]"
    by (rule recompute_works [of m order])
  have eq: "o1 = order'" using o1 assms(1) by simp
  note ord = ord [unfolded eq] and pos = pos [unfolded eq]
  note members = displayed_order_members [OF ord]
  obtain o2 where o2: "recompute m' order' = Some o2"
    and ord2: "displayed_order (known_runs m') (known_dependencies m') (displayed_key m' order') (do_run_ids o2)"
    by (rule recompute_works [of m' order'])
  let ?ids = "do_run_ids order'"
  have key: "displayed_key m' order' (?ids ! i) = (i, opt_unwrap_or 0 (hm_get (run_ordinals m') (?ids ! i)), ?ids ! i)"
    if "i < length ?ids" for i
    using that members(1) by (simp add: displayed_key_def inherited_position_def pos map_of_zip_nth)
  have "sorted (map (displayed_key m' order') ?ids)"
    by (simp add: sorted_iff_nth_mono_less key less_eq_prod_def)
  from displayed_order_resorted [OF ord this] have
    "displayed_order (known_runs m') (known_dependencies m') (displayed_key m' order') ?ids"
    by (simp add: assms(2,3))
  from displayed_order_unique [OF ord2 this displayed_key_inj] o2 show ?thesis by simp
qed

text \<open>The sample model with the ordinals of two runs exchanged and a dependency between two runs.\<close>

definition sample_dependency :: dependency_edge where
  "sample_dependency = \<lparr>de_prerequisite_run_id = sample_run 3, de_dependent_run_id = sample_run 1\<rparr>"

definition dag_model :: domain_model where
  "dag_model = sample_model\<lparr>dm_dependency_edges := [sample_dependency]\<rparr>"

definition renumbered_model :: domain_model where
  "renumbered_model = insert_task_run (controller_run\<lparr>tr_display_ordinal := DisplayOrdinal 9\<rparr>) dag_model"

theorem dag_order_stable_witness:
  "\<exists>order' order''. recompute dag_model dag_order_new = Some order'
     \<and> recompute renumbered_model order' = Some order'' \<and> do_run_ids order'' = do_run_ids order'"
proof -
  obtain order' where first: "recompute dag_model dag_order_new = Some order'"
    by (rule recompute_works [of dag_model dag_order_new])
  have "map tr_run_id (task_runs renumbered_model) = map tr_run_id (task_runs dag_model)"
    "dm_dependency_edges renumbered_model = dm_dependency_edges dag_model" by code_simp+
  then have runs: "known_runs renumbered_model = known_runs dag_model"
    and edges: "dm_dependency_edges renumbered_model = dm_dependency_edges dag_model"
    unfolding known_runs_def by (metis list.set_map)+
  have deps: "known_dependencies renumbered_model = known_dependencies dag_model"
    unfolding known_dependencies_def runs edges ..
  from dag_order_stable [OF first runs deps] first show ?thesis by blast
qed


section \<open>The execution tree\<close>

text \<open>C28. The execution tree shows exactly the visible runs: each run that the visibility policy
  selects and that the model knows has a row, and no other run has one.\<close>

theorem tree_shows_visible:
  assumes "tree_keyed m"
  shows "row_runs (build_tree_rows_with_statuses timing m order session_name now_ms newest_agents statuses visible)
      = set visible \<inter> known m"
  by (rule tree_rows_visible [OF assms])

theorem tree_shows_visible_witness:
  "row_runs (build_tree_rows_with_statuses display_timing_default sample_model stable_order_new ''main'' 0 []
       (from_model display_timing_default sample_model 0) [sample_run 3, sample_run 2, sample_run 9])
     = {sample_run 2, sample_run 3}"
proof -
  have topology: "dm_panes sample_model = []" "dm_tabs sample_model = []" "dm_workspaces sample_model = []"
    by code_simp+
  have "hm_ok (dm_task_runs sample_model)" by code_simp
  then have "tree_keyed sample_model" using sample_keyed topology
    by (simp add: tree_keyed_def get_pane_def get_tab_def get_workspace_def)
  moreover have "get_task_run sample_model (sample_run 2) \<noteq> None" "get_task_run sample_model (sample_run 3) \<noteq> None"
    "get_task_run sample_model (sample_run 9) = None" by code_simp+
  then have "set [sample_run 3, sample_run 2, sample_run 9] \<inter> known sample_model = {sample_run 2, sample_run 3}"
    by (auto simp: known_def)
  ultimately show ?thesis by (simp only: tree_shows_visible)
qed

section \<open>Displayed rows\<close>

text \<open>C35. Collapsing hides exactly the rows below a collapsed row, by the depths of the rows.\<close>

theorem collapse_hides_descendants:
  "apply_collapse rows collapsed = nths rows {i. \<not> (\<exists>j. row_ancestor rows j i
     \<and> collapse_key (rw_key (rows ! j)) \<in> set collapsed)}"
proof -
  have "{i. \<not> (\<exists>j. row_ancestor rows j i \<and> collapse_key (rw_key (rows ! j)) \<in> set collapsed)}
      = {i. \<not> (\<exists>j. row_ancestor rows j i \<and> in_collapsed collapsed (rows ! j))}"
    by (simp add: in_collapsed_def)
  then show ?thesis using apply_collapse_nths by (simp add: in_collapsed_def)
qed

text \<open>C36. A search in the tree keeps exactly the rows that match and those of their ancestors that
  may be shown.\<close>

theorem search_keeps_ancestors:
  "matching_rows te m rows visible query ExecutionTree
     = (let matches = {i. i < length rows \<and> row_is_filter_eligible m (rows ! i) visible
              \<and> row_matches te m (rows ! i) query}
        in nths rows {i. i \<in> matches
             \<or> row_is_filter_eligible m (rows ! i) visible \<and> (\<exists>d \<in> matches. row_ancestor rows i d)})"
proof -
  let ?matches = "{i. i < length rows \<and> row_is_filter_eligible m (rows ! i) visible \<and> row_matches te m (rows ! i) query}"
  have direct: "set (direct_matches te m rows visible query) = ?matches"
    by (force simp: direct_matches_def in_set_enumerate_eq)
  then have "\<forall>i \<in> set (direct_matches te m rows visible query). i < length rows" by simp
  from retain_tree_matches_nths [OF this, of m visible, unfolded direct] show ?thesis
    by (simp only: matching_rows_def view_mode.case Let_def)
qed

text \<open>C29. Whatever the channels deliver and whatever keys are pressed, the rows and the deadline of
  the application are the projection of its model at its cached time, and every handler returns.\<close>

theorem app_rows_current:
  assumes "app_reachable env app"
  shows "build_projection env (ap_model app) (ap_state app)
      = Some \<lparr>rp_rows = ap_rows app, rp_next_expiry_ms = ap_next_expiry_ms app\<rparr>
    \<and> (\<forall>notice key. handle_key env notice key app \<noteq> None)
    \<and> (\<forall>inputs. tree_keyed (wi_model inputs) \<longrightarrow> refresh_if_changed env inputs app \<noteq> None)"
proof -
  note ok = app_reachable_ok [OF assms]
  then have "runs_keyed (ap_model app)" "rows_current env app" by (auto simp: app_ok_def tree_keyed_runs)
  from handle_key_good [OF this] this refresh_if_changed_good [OF ok] show ?thesis
    by (force simp: good_key_def rows_current_def)
qed

text \<open>The application started on the sample model, with a clock that stands still.\<close>

definition sample_app_env :: app_env where
  "sample_app_env = \<lparr>ae_text = \<lparr>te_run_text = (\<lambda>_. ''run''), te_lowercase = str_lower\<rparr>, ae_timing = display_timing_default\<rparr>"

definition sample_watch_inputs :: watch_inputs where
  "sample_watch_inputs = \<lparr>wi_model = sample_model, wi_activity = [], wi_terminal_times = [],
     wi_model_changed = Some True, wi_performance_changed = Some False, wi_coverage_changed = None,
     wi_diagnostics_changed = None, wi_operator_changed = None\<rparr>"

lemma sample_tree_keyed: "tree_keyed sample_model"
proof -
  have "dm_panes sample_model = []" "dm_tabs sample_model = []" "dm_workspaces sample_model = []"
    "hm_ok (dm_task_runs sample_model)" by code_simp+
  then show ?thesis using sample_keyed
    by (simp add: tree_keyed_def get_pane_def get_tab_def get_workspace_def)
qed

lemma sample_app:
  obtains app where "app_reachable sample_app_env app" and "ap_model app = sample_model"
    and "as_filter_query (ap_state app) = []" and "as_now_ms (ap_state app) = 5" and "as_follow (ap_state app)"
proof -
  have keyed: "tree_keyed (wi_model sample_watch_inputs)" by (simp add: sample_watch_inputs_def sample_tree_keyed)
  obtain app where "app_new sample_app_env sample_watch_inputs ''main'' False False 8 False (\<lambda>_. 5) = Some app"
    "ap_model app = wi_model sample_watch_inputs" "as_filter_query (ap_state app) = []" "as_follow (ap_state app)"
    "as_now_ms (ap_state app) = 5"
    by (rule app_new_some [OF keyed, where env = sample_app_env and session = "''main''" and notice_visible = False
          and notice_state_base = False and capacity = 8 and closed = False and clock = "\<lambda>_. 5"])
  with app_started [OF keyed] show thesis by (intro that) (auto simp: sample_watch_inputs_def)
qed

theorem app_rows_current_witness:
  "\<exists>app. app_reachable sample_app_env app \<and> ap_model app = sample_model
     \<and> handle_key sample_app_env \<lparr>nb_publish_ok = True, nb_marker_current = True\<rparr>
          \<lparr>ke_code = KeyTab, ke_release = False, ke_modifiers_empty = True\<rparr> app \<noteq> None"
proof -
  obtain app where "app_reachable sample_app_env app" "ap_model app = sample_model" by (rule sample_app)
  with app_rows_current [of sample_app_env app] show ?thesis by blast
qed

text \<open>C30. After a refresh the selection is on a displayed row - there is none only if there is no
  row - and an application that follows has selected the last row.\<close>

theorem refresh_selects_row:
  assumes "app_reachable env app" and "tree_keyed (wi_model inputs)"
  shows "\<exists>app'. app_refresh env inputs app = Some app' \<and> ap_model app' = wi_model inputs
    \<and> (case as_selected (ap_state app') of None \<Rightarrow> ap_rows app' = []
        | Some key \<Rightarrow> key \<in> rw_key ` set (ap_rows app'))
    \<and> (as_follow (ap_state app) \<longrightarrow> as_selected (ap_state app') = map_option rw_key (last_of (ap_rows app')))"
proof -
  have "runs_keyed (ap_model app)" using app_reachable_ok [OF assms(1)] by (simp add: app_ok_def tree_keyed_runs)
  from refresh_cached_good [OF this tree_keyed_runs [OF assms(2)], of env] obtain app'
    where app': "app_refresh env inputs app = Some app'" "ap_model app' = wi_model inputs" "selection_on_row app'"
      "as_follow (ap_state app) \<longrightarrow> as_selected (ap_state app') = map_option rw_key (last_of (ap_rows app'))"
    unfolding app_refresh_def by blast
  from app'(3) have "case as_selected (ap_state app') of None \<Rightarrow> ap_rows app' = []
      | Some key \<Rightarrow> key \<in> rw_key ` set (ap_rows app')"
    by (auto simp: selection_on_row_def has_key_iff split: option.splits)
  with app' show ?thesis by blast
qed

theorem refresh_selects_row_witness:
  "\<exists>app app'. app_reachable sample_app_env app \<and> app_refresh sample_app_env sample_watch_inputs app = Some app'
     \<and> as_selected (ap_state app') = map_option rw_key (last_of (ap_rows app'))"
proof -
  obtain app where "app_reachable sample_app_env app" "as_follow (ap_state app)" by (rule sample_app)
  moreover have "tree_keyed (wi_model sample_watch_inputs)" by (simp add: sample_watch_inputs_def sample_tree_keyed)
  ultimately show ?thesis using refresh_selects_row [of sample_app_env app sample_watch_inputs] by blast
qed





section \<open>Tails\<close>







section \<open>Session keys\<close>




end
