(* ===== verification/Spec2Isabelle.thy ===== *)
theory Spec2Isabelle
  imports Store_Properties Sweep_Laws Lifecycle_Laws Text_Keys Terminal_Properties
begin

text \<open>
  herdr-top observes the coding agents of a terminal multiplexer. A collector receives topology,
  Controller and provider events, drives one reducer that owns the domain model, publishes
  snapshots for the terminal interface, and hands batches of operations to a writer that keeps
  them in a SQLite store, from which the next start restores the model. This development models
  that core in the order in which the program is layered; file names are relative to \<open>src/src\<close>.

  \<^item> \<open>Prelude\<close>: Rust integers (\<open>i64\<close> as \<open>int\<close>, \<open>u64\<close> as \<open>nat\<close>, the bounds written out in the saturating
    and checked operations), hash maps as association lists, byte strings with UTF-8 units.
  \<^item> \<open>Ids\<close>, \<open>RunState\<close>, \<open>Entities\<close>, \<open>Domain_Model\<close>, \<open>Graph\<close>, \<open>Publication\<close>: \<open>model/\<close>. The record
    \<open>domain_model\<close> has one field per table of \<open>DomainModel\<close>; \<open>Publication\<close> is the part of it that
    hides runs whose history is being read.
  \<^item> \<open>Activity\<close> (\<open>activity.rs\<close>), \<open>Status\<close> (\<open>status.rs\<close>), \<open>Operator\<close> (\<open>operator.rs\<close>): the read models.
  \<^item> \<open>Cycles\<close>, \<open>Identity\<close>: \<open>identity.rs\<close>, the planner of bindings and the merge of two runs.
  \<^item> \<open>Transitions\<close>, \<open>Reducer_State\<close>, \<open>Reducer_Body\<close>, \<open>Reducer_Events\<close>, \<open>Reducer_Apply\<close>,
    \<open>Reducer_Controller\<close>, \<open>Reducer_Reconcile\<close>, \<open>Reducer_Provider\<close>: \<open>reducer.rs\<close>. A handler takes the
    reducer and the batch it fills, and returns both; an operation that can fail returns a sum.
  \<^item> \<open>Persist_Ops\<close>: the operations of a batch, the interface between the reducer and the store.
  \<^item> \<open>Store_Codec\<close>, \<open>Store_Schema\<close>, \<open>Store_Write\<close>, \<open>Store_Merge\<close>, \<open>Store_History\<close>, \<open>Store_Restore\<close>,
    \<open>Store_Retention\<close>: \<open>store/mod.rs\<close> and \<open>store/schema.rs\<close>. A table is an association list from its
    primary key; a statement is the function it computes on the tables, and it fails where SQLite
    reports a violated constraint. A transaction that fails leaves the database as it was.
  \<^item> \<open>Worklist\<close>, \<open>Dag_Order\<close> (\<open>tui/dag.rs\<close>), \<open>Row_Labels\<close>, \<open>Tree_Rows\<close> (\<open>tui/view.rs\<close>), \<open>Projection\<close>
    (\<open>tui/projection.rs\<close>), \<open>App\<close> (\<open>tui/app.rs\<close>): the terminal interface up to the rows it shows.
    \<open>recompute\<close> is the dependency order, \<open>build_tree_rows_with_statuses\<close> the tree of workspaces, tabs,
    panes, runs and agents, \<open>project_rows_with_visible\<close> what search and collapsing leave of it and
    when it has to be made again; \<open>App\<close> is the state with selection, follow mode, filter and
    overlays, and one function per key.
  \<^item> \<open>Tail\<close> (\<open>provider/tail.rs\<close>): the reader of growing log files; \<open>Session_Key\<close> (\<open>session_key.rs\<close>):
    the name of a session as a path component.

  The laws stand apart from the definitions. \<open>Identity_Laws\<close>, \<open>Merge_Laws\<close>, \<open>Node_Links\<close>,
  \<open>Lifecycle_Laws\<close>, \<open>Telemetry_Queue\<close>, \<open>Text_Keys\<close>, \<open>Display_Text\<close> and \<open>Effect_Laws\<close> say what single
  operations do. \<open>Handler_Laws\<close> asks an invariant for the primitive updates alone and derives it for
  every event handler; \<open>Operation_Laws\<close> extends this locale to whole operations, and \<open>Reducer_Laws\<close>
  and \<open>Reducer_Steps\<close> interpret both. \<open>Reducer_Machine\<close> is the step relation of the reducer as the
  collector drives it, with the provider observation that is open; \<open>Reader_Laws\<close> and \<open>Sweep_Laws\<close>
  are about its reachable states. \<open>Schema_Laws\<close> and \<open>Schema_Steps\<close> do the same for the database;
  \<open>Contraction_Laws\<close> relates its merge to the merge in memory, \<open>Drain_Laws\<close>, \<open>Replay_Laws\<close> and
  \<open>Retention_Laws\<close> treat history drains, repeated batches and clean-up. \<open>Dag_Laws\<close>, \<open>Tree_Laws\<close>,
  \<open>Tree_Placement\<close>, \<open>App_Laws\<close>, \<open>Deadline_Laws\<close> and \<open>Tail_Laws\<close> are about the terminal interface and
  the reader of log files. The properties stand in this theory, in \<open>Store_Properties\<close> and in
  \<open>Terminal_Properties\<close>. \<open>Samples\<close>, \<open>Reducer_Samples\<close>
  and \<open>Store_Samples\<close> are the concrete states at which the properties are instantiated.

  Parameters. Identifiers drawn from the ULID generator, the wall clock and the digest of the
  lifecycle source order are fields of the environment of the reducer; the texts of run
  identifiers and the JSON documents of telemetry are fields of the environment of the store. The
  properties assume of them only that decoding inverts encoding and that texts of distinct
  identifiers differ (\<open>env_ok\<close>). The digest of a session name, the Unicode lower case of a search,
  the texts of runs in the interface and the clock are arguments of the functions that use them.

  Loops. Every loop of the code is a terminating function here; no fuel is used except where the
  code bounds the loop itself (the merges of a batch, followed at most as often as the batch has
  entries). The iteration order of a hash map is the order of its association list; properties
  hold for every such order.

  Not modelled: threads, channels, sockets and timers of the collector; migrations of older
  schemas, pragmas and checkpoints of SQLite; the text of error messages (an error keeps its
  variant and, where the code names one, its column); \<open>f64\<close> arithmetic (progress and rates as
  displayed); drawing of the terminal interface; process start-up and the file
  lock; diagnostics reports; test-only code.
\<close>

section \<open>Identity and relationship graphs\<close>

text \<open>C1. A merge the planner proposes always goes through; afterwards no table of live rows mentions
  the absorbed run, and both relationship graphs are well formed: one dispatch parent per child, no
  cycle. The two archives are not rewritten: an image captured before a history was read stays under
  the run it shows and only its canonical run moves to the survivor, and deferred activity stays.\<close>

theorem merge_sound:
  assumes "hm_ok (dm_run_ids_by_key m)" and "runs_keyed m"
    and "plan_binding m evidence = Merge survivor absorbed"
  shows "\<exists>m' batch. apply_binding_plan_at fresh (plan_binding m evidence) now m = (m', Inr batch)
    \<and> \<not> mentions_run m' absorbed
    \<and> dm_history_run_publications m' =
        hm_map_values (\<lambda>p. if hp_canonical_run_id p = absorbed then p\<lparr>hp_canonical_run_id := survivor\<rparr> else p)
          (dm_history_run_publications m)
    \<and> dm_deferred_history_activity m' = dm_deferred_history_activity m
    \<and> dispatch_graph_ok (dm_execution_edges m') \<and> dependency_graph_ok (dm_dependency_edges m')"
proof -
  obtain m' batch where ap: "apply_binding_plan_at fresh (Merge survivor absorbed) now m = (m', Inr batch)"
    using merge_applies [OF assms(1,2)] plan_binding_Merge [OF assms(3)] by blast
  obtain g t where g: "preflight_merge m survivor absorbed = Inr g"
    and t: "get_task_run (merge_in_memory survivor absorbed g now m) survivor = Some t"
    and m': "m' = insert_task_run (touch_task_run now t) (merge_in_memory survivor absorbed g now m)"
    by (rule merge_result_model [OF assms(1,2) ap])
  have "\<not> mentions_run m' absorbed"
    unfolding m' by (rule mentions_run_insert [OF merge_forgets_absorbed [OF assms(1) g]])
      (use merge_survivor_id [OF assms(2) g t] preflight_merge_D(1) [OF g] in simp)
  then show ?thesis
    using ap assms(3) merged_edges(1,2) [OF g] by (simp add: m' insert_task_run_frame merge_tables(5,6)
        merge_archives fold_deferred)
qed

theorem merge_sound_witness:
  "\<exists>m' batch. apply_binding_plan_at (sample_run 9)
      (plan_binding sample_model (ControllerNativeSession (sample_run 1) Codex ''session'')) 5 sample_model
      = (m', Inr batch) \<and> \<not> mentions_run m' (sample_run 2)"
proof -
  have "plan_binding sample_model (ControllerNativeSession (sample_run 1) Codex ''session'')
      = Merge (sample_run 1) (sample_run 2)" by code_simp
  from merge_sound [OF sample_tables(2) sample_keyed this] show ?thesis by blast
qed

text \<open>A plan that is rejected, by the planner or on application, leaves the model as it was.\<close>

lemma rejected_plan_keeps_model:
  assumes "hm_ok (dm_run_ids_by_key m)" and "runs_keyed m"
    and "apply_binding_plan_at fresh plan now m = (m', Inl conflict)"
  shows "m' = m"
  by (rule apply_plan_unchanged [OF assms])

text \<open>C2. The preflight of a dispatch edge accepts exactly the edges that leave one parent per
  child and no cycle.\<close>

theorem dispatch_preflight_exact:
  "(preflight_execution_edge m e = Inr ()) = dispatch_graph_ok (dm_execution_edges m @ [e])"
  by (rule preflight_execution_edge_iff)

text \<open>The preflight of a dependency edge accepts exactly the edges that leave no cycle.\<close>

lemma dependency_preflight_exact:
  "(preflight_dependency_edge m e = Inr ()) = dependency_graph_ok (dm_dependency_edges m @ [e])"
  by (rule preflight_dependency_edge_iff)

text \<open>C3. Kahn's algorithm reports a cycle exactly when a run reaches itself along the edges.\<close>

theorem cycle_detection_exact: "graph_has_cycle E = (\<exists>r. (r, r) \<in> (set E)\<^sup>+)"
  by (rule graph_has_cycle_iff)

text \<open>C4. A Controller event that passes validation leaves both relationship graphs well formed.\<close>

theorem controller_keeps_graphs:
  assumes "graphs_ok (rd_model r)" and "validate_controller_event E event r = Inr delta"
  shows "graphs_ok (dl_post_model delta)"
  by (rule validated_graphs [OF assms(2,1)])

theorem controller_keeps_graphs_witness:
  "\<exists>delta. validate_controller_event sample_env sample_dispatch sample_reducer = Inr delta
     \<and> graphs_ok (dl_post_model delta)"
proof -
  obtain delta where d: "validate_controller_event sample_env sample_dispatch sample_reducer = Inr delta"
    using sample_dispatch_accepted by blast
  show ?thesis using d controller_keeps_graphs [OF sample_graphs d] by blast
qed

text \<open>C5. The counter of dangling announcements is the number of components of relationship-only
  runs that no live run touches, capped at the maximum of its type.\<close>

theorem dangling_count_exact:
  "dangling_announcement_components m = min u64_max (card (dangling_components m))"
  by (rule dangling_count_eq)

section \<open>The reducer as a state machine\<close>

text \<open>C6. In every state the collector can drive the reducer into, each table of the model is a
  map whose rows stand under their own identifiers.\<close>

theorem reachable_tables_keyed:
  assumes "reachable E (r, p)"
  shows "tables_ok (rd_model r) \<and> rows_keyed (rd_model r)"
  using reachable_tables [OF assms] by (simp add: model_ok_def)

theorem reachable_tables_keyed_witness: "tables_ok (rd_model sample_reducer)"
  using reachable_tables_keyed [OF sample_reachable] by simp

text \<open>C7. No provider agent of a reachable model is its own ancestor along the parent links.\<close>

theorem reachable_agents_acyclic:
  assumes "reachable E (r, p)"
  shows "(agent, agent) \<notin> (node_parents (dm_agent_nodes (rd_model r)))\<^sup>+"
  using reachable_tables [OF assms] by (simp add: model_ok_def parents_ok_def acyclic_def)

theorem reachable_agents_acyclic_witness:
  "(''agent'', ''agent'') \<notin> (node_parents (dm_agent_nodes (rd_model unready_reducer)))\<^sup>+"
  by (rule reachable_agents_acyclic [OF unready_reachable])

text \<open>C8. In a reachable state the check of a proposed parent accepts exactly the links that do not
  make the child its own ancestor.\<close>

theorem provider_parent_exact:
  assumes "reachable E (r, p)"
  shows "provider_parent_is_valid (rd_model r) child parent =
    ((parent, child) \<notin> (node_parents (dm_agent_nodes (rd_model r)))\<^sup>*)"
  using parent_valid_iff [of "rd_model r"] reachable_tables [OF assms] by (simp add: model_ok_def)

theorem provider_parent_exact_witness:
  "provider_parent_is_valid (rd_model sample_reducer) ''child'' ''parent'' =
    ((''parent'', ''child'') \<notin> (node_parents (dm_agent_nodes (rd_model sample_reducer)))\<^sup>*)"
  by (rule provider_parent_exact [OF sample_reachable])

text \<open>C9. The page the operator reads in a reachable state is sorted newest first, shows no event
  twice and is never longer than its limit.\<close>

theorem reachable_operator_page:
  assumes "reachable E (r, p)"
  shows "newest_first (fst (op_snapshot (rd_operator r)))
    \<and> distinct (map ai_event_id (fst (op_snapshot (rd_operator r))))
    \<and> length (fst (op_snapshot (rd_operator r))) \<le> activity_limit"
  using reachable_ok [OF assms] by (simp add: driven_ok_def core_ok_def operator_ok_def activity_normal_def)

theorem reachable_operator_page_witness:
  "length (fst (op_snapshot (rd_operator sample_reducer))) \<le> activity_limit"
  using reachable_operator_page [OF sample_reachable] by simp

text \<open>C10. A run that readers of the published model see is either a run whose history has been
  read completely, as it stands in the model, or the image captured before its history was read.\<close>

theorem published_runs_ready:
  assumes "get_task_run (publication_snapshot m) i = Some t"
  shows "i \<notin> set (history_blocked m) \<and> get_task_run m i = Some t
    \<or> (\<exists>p \<in> set (hm_values (dm_history_run_publications m)).
        hp_canonical_run_id p \<in> set (history_blocked m) \<and> hp_task_run p = t \<and> tr_run_id t = i)"
  by (rule snapshot_runs [OF assms])

theorem published_runs_ready_witness:
  "sample_run 1 \<notin> set (history_blocked unready_model)"
proof -
  have "get_task_run (publication_snapshot unready_model) (sample_run 1) = Some controller_run"
    "dm_history_run_publications unready_model = []" by code_simp+
  from published_runs_ready [OF this(1)] this(2) show ?thesis by simp
qed

text \<open>C17. While a historical observation is open, no step of the collector changes what the
  readers of the published model see.\<close>

theorem historical_observation_hidden:
  assumes "reducer_step E (r, p) (r', p')"
    and "rd_defer_provider_publication r" and "rd_defer_provider_publication r'"
  shows "rd_published r' = rd_published r"
  by (rule step_hides [OF assms])

theorem historical_observation_hidden_witness:
  "\<exists>r r' p'. rd_defer_provider_publication r \<and> reducer_step sample_env (r, p') (r', p')
     \<and> rd_published r' = rd_published r"
proof -
  let ?begun = "begin_provider_observation (Historical (HistoryDrainId ''drain'') ''event'') 5 sample_reducer"
  have "opt_is_some_and (\<lambda>x. rd_defer_provider_publication (fst x)) ?begun"
    by (simp add: begin_provider_observation_def Let_def opt_is_some_and_def sample_reducer_def reducer_new_def
        take_deferred_history_activity_def)
  then obtain r :: reducer and p :: "provider_observation_prior option"
    where "rd_defer_provider_publication r" by (auto simp: some_and_iff)
  moreover have s: "reducer_step sample_env (r, p) (restore_non_lane_task_state_runs [] r, p)"
    by (rule step_task_state_runs)
  moreover have "rd_defer_provider_publication (restore_non_lane_task_state_runs [] r)"
    using \<open>rd_defer_provider_publication r\<close> by (simp add: restore_non_lane_task_state_runs_def)
  ultimately show ?thesis using historical_observation_hidden [OF s] by blast
qed

text \<open>C18. While a live observation of an unready run waits for the writer, no step of the collector
  changes what the readers of the published model see.\<close>

theorem unacknowledged_observation_hidden:
  assumes "reducer_step E (r, p) (r', p')" and "awaiting r" and "awaiting r'"
  shows "rd_published r' = rd_published r"
  by (rule step_held [OF assms])

theorem unacknowledged_observation_hidden_witness:
  "\<exists>r r'. awaiting r \<and> reducer_step sample_env (r, None) (r', None) \<and> rd_published r' = rd_published r"
proof -
  obtain r1 prior r3 batch where "awaiting r3" by (rule sample_live_observation)
  moreover have s: "reducer_step sample_env (r3, None) (restore_non_lane_task_state_runs [] r3, None)"
    by (rule step_task_state_runs)
  moreover have "awaiting (restore_non_lane_task_state_runs [] r3)"
    using \<open>awaiting r3\<close> by (simp add: restore_non_lane_task_state_runs_def awaiting_def)
  ultimately show ?thesis using unacknowledged_observation_hidden [OF s] by blast
qed

text \<open>C19. A live observation takes a checkpoint exactly when it touches a run whose history was not
  ready when it began. If the writer does not commit it, then with a checkpoint the model, the
  ordinals, the ingest sequence and the telemetry are as they were when the observation began;
  without one nothing of them is undone.\<close>

theorem uncommitted_observation_undone:
  assumes "begin_provider_observation Live n r = Some (r1, prior)"
    and "finish_provider_observation E prior operations Live manifest m r2 = Some (r3, batch, ReceiptLive (Some i))"
    and "\<not> committed outcome"
  shows "awaiting r3 = touches_unready prior operations r2
    \<and> capture_checkpoint (complete_provider_submission E (ReceiptLive (Some i)) outcome r3)
      = capture_checkpoint (if touches_unready prior operations r2 then r else r3)"
  using live_undone [OF assms] by blast

theorem uncommitted_observation_undone_witness:
  "\<exists>r3. awaiting r3 \<and> capture_checkpoint (complete_provider_submission sample_env (ReceiptLive (Some 0)) WriteSkipped r3)
     = capture_checkpoint unready_reducer"
proof -
  obtain r1 prior r3 batch where b: "begin_provider_observation Live 5 unready_reducer = Some (r1, prior)"
    and f: "finish_provider_observation sample_env prior sample_operations Live None 5 r1
        = Some (r3, batch, ReceiptLive (Some 0))" and w: "awaiting r3"
    by (rule sample_live_observation)
  have "\<not> committed WriteSkipped" by (simp add: committed_def)
  from uncommitted_observation_undone [OF b f this] w show ?thesis by auto
qed

section \<open>Operations\<close>

text \<open>C20. An observation that is dropped, or that runs out of ordinals, leaves the reducer as it was
  but for the clock and the identifiers it has drawn. If it came with a changed agent status of a
  pane, the runs of that pane also stay noted for the next rate observation: neither error path
  takes them back.\<close>

theorem failed_observation_rolled_back:
  assumes "apply_observation_inner E events observation r = (r', Inr (DroppedBindingConflict conflict))
    \<or> apply_observation_inner E events observation r = (r', Inl OrdinalExhausted)"
  shows "r' = r\<lparr>rd_minted := rd_minted r', rd_ticks := rd_ticks r',
    rd_pending_rate_observation_runs := rd_pending_rate_observation_runs (observe_first observation r)\<rparr>"
  by (rule failed_observation [OF assms])

theorem failed_observation_rolled_back_witness:
  "\<exists>r'. apply_observation_inner sample_env [unknown_event] None full_reducer = (r', Inl OrdinalExhausted)
     \<and> r' = full_reducer\<lparr>rd_minted := rd_minted r', rd_ticks := rd_ticks r'\<rparr>"
proof -
  have "snd (apply_observation_inner sample_env [unknown_event] None full_reducer) = Inl OrdinalExhausted" by code_simp
  then have e: "apply_observation_inner sample_env [unknown_event] None full_reducer
      = (fst (apply_observation_inner sample_env [unknown_event] None full_reducer), Inl OrdinalExhausted)"
    by (simp only: prod_eq_iff fst_conv snd_conv)
  have "observe_first None full_reducer = full_reducer" by (simp add: observe_first_def)
  with failed_observation_rolled_back [OF disjI2 [OF e]] e show ?thesis by auto
qed

text \<open>A commit takes over the validated rows and opens its batch with the sequence number it
  uses; every event the batch records carries that number.\<close>

lemma commit_stamps_batch:
  assumes "rd_next_ingest_seq r = Some q" and "0 < q"
  shows "\<exists>r' batch. commit_staged_unqueued E delta r = (r', Inr (AdvanceIngestSequence q # batch))
    \<and> rows r' = rows_of (dl_post_model delta)
    \<and> (\<forall>e \<in> set (recorded batch). md_ingest_seq (event_metadata e) = Some (nat q))"
  by (rule commit_taken [OF assms])

text \<open>When the sequence numbers have run out a commit is refused and no row of the model
  changes.\<close>

lemma exhausted_commit_refused:
  assumes "rd_next_ingest_seq r = None \<or> (\<exists>q. rd_next_ingest_seq r = Some q \<and> q \<le> 0)"
  shows "\<exists>r'. commit_staged_unqueued E delta r = (r', Inl IngestSequenceExhausted) \<and> rows r' = rows r"
  by (rule commit_exhausted [OF assms])

text \<open>C21. The next sequence number never decreases, except when a live observation that was not
  committed is rolled back to its checkpoint.\<close>

theorem ingest_sequence_monotone:
  assumes "reducer_step E (r, p) (r', p')" and "seq_from n (rd_next_ingest_seq r)"
  shows "seq_from n (rd_next_ingest_seq r')
    \<or> (\<exists>pending c. rd_pending_live_provider_submission r = Some pending \<and> pl_checkpoint pending = Some c
        \<and> rd_next_ingest_seq r' = lc_next_ingest_seq c)"
  by (rule step_sequence [OF assms])

theorem ingest_sequence_monotone_witness:
  "seq_from 1 (rd_next_ingest_seq (fst (sweep_stale sample_env 5 sample_reducer)))"
proof -
  have "seq_from 1 (rd_next_ingest_seq sample_reducer)"
    by (simp add: sample_reducer_def reducer_new_def Let_def take_deferred_history_activity_def seq_from_def)
  moreover have "rd_pending_live_provider_submission sample_reducer = None"
    by (simp add: sample_reducer_def reducer_new_def Let_def take_deferred_history_activity_def)
  ultimately show ?thesis
    using ingest_sequence_monotone [OF step_sweep [of sample_env sample_reducer None 5]] by auto
qed

text \<open>C22. Of the events of a run's native lifecycle, in whatever order they arrive, the one with the
  newest watermark decides: the run takes its status and its watermark, unless it already has one
  that is as new, and then nothing changes. Another event with the same watermark may only repeat
  that status.\<close>

theorem newest_lifecycle_decides:
  assumes "(s, wm) \<in> set es" and "\<And>s' wm'. (s', wm') \<in> set es \<Longrightarrow> wm' \<le> wm"
    and "\<And>s'. (s', wm) \<in> set es \<Longrightarrow> s' = s"
  shows "let before = opt_unwrap_or v6_default (get_v6_state (model_of w) run)
    in opt_unwrap_or v6_default (get_v6_state
        (model_of (fold (\<lambda>(s, wm). apply_native_lifecycle run s wm) es w)) run)
      = (if opt_is_some_and (\<lambda>old. wm \<le> old) (v6_lifecycle_watermark before) then before
         else before\<lparr>v6_native_session_end := map_option (\<lambda>status.
                \<lparr>ne_status = status, ne_at_ms = wm_source_at_ms wm\<rparr>) s,
              v6_lifecycle_watermark := Some wm\<rparr>)"
  unfolding Let_def lifecycle_lookups by (rule newest_lifecycle [OF assms])

theorem newest_lifecycle_decides_witness:
  "v6_native_session_end (opt_unwrap_or v6_default (get_v6_state (model_of (fold (\<lambda>(s, wm).
      apply_native_lifecycle (sample_run 2) s wm)
      [(Some EndDone, Watermark 2 2 ''b''), (None, Watermark 1 1 ''a'')] (sample_reducer, []))) (sample_run 2)))
    = Some \<lparr>ne_status = EndDone, ne_at_ms = 2\<rparr>"
proof -
  let ?es = "[(Some EndDone, Watermark 2 2 ''b''), (None, Watermark 1 1 ''a'')]"
  have "opt_unwrap_or v6_default (get_v6_state sample_model (sample_run 2)) = v6_default" by code_simp
  then have none: "opt_unwrap_or v6_default (get_v6_state (model_of (sample_reducer, [])) (sample_run 2)) = v6_default"
    by (simp add: sample_reducer_def reducer_new_model with_diagnostics_def get_v6_state_def)
  have "wm' \<le> Watermark 2 2 ''b''" if "(s', wm') \<in> set ?es" for s' wm'
    using that by (auto simp: less_eq_native_lifecycle_watermark_def watermark_key_def)
  note decided = newest_lifecycle_decides [where w = "(sample_reducer, [])" and run = "sample_run 2", OF _ this,
      of "Some EndDone", unfolded Let_def none]
  show ?thesis by (subst decided) (auto simp: v6_default_def)
qed

text \<open>Reading the same lifecycle events again changes nothing.\<close>

lemma lifecycle_replay_absorbed:
  "opt_unwrap_or v6_default (get_v6_state
      (model_of (fold (\<lambda>(s, wm). apply_native_lifecycle run s wm) (es @ es) w)) run)
    = opt_unwrap_or v6_default (get_v6_state
      (model_of (fold (\<lambda>(s, wm). apply_native_lifecycle run s wm) es w)) run)"
  unfolding lifecycle_lookups by (rule lifecycle.steps_repeated)

text \<open>C23. The queue of samples that arrive before their run is known holds exactly the newest samples
  of its capacity, in the order they arrived, however the keys interleave.\<close>

theorem telemetry_queue_newest:
  assumes "queue_ok q"
  shows "queued (fold (\<lambda>(k, s). enqueue_pending_telemetry k s) xs q)
    = drop (length (queued q @ xs) - pending_telemetry_sample_capacity) (queued q @ xs)"
  using early_telemetry.enq_all [OF assms, of xs] by (simp add: early_telemetry.newest_def)

theorem telemetry_queue_newest_witness:
  "queued (fold (\<lambda>(k, s). enqueue_pending_telemetry k s)
      [(Native Codex ''a'', sample_sample), (Native Claude ''b'', sample_sample)] ([], [], 0))
    = [(Native Codex ''a'', sample_sample), (Native Claude ''b'', sample_sample)]"
proof -
  have "queue_ok ([], [], 0)" by (simp add: queue_ok_def matched_def)
  from telemetry_queue_newest [OF this, of "[(Native Codex ''a'', sample_sample), (Native Claude ''b'', sample_sample)]"]
  show ?thesis by (simp add: queued_def [of "([], [], 0)"] pending_telemetry_sample_capacity_def)
qed

text \<open>The reducer never holds more early samples than the capacity of the queue, and its counter
  is the number of samples it holds.\<close>

lemma telemetry_queue_bounded:
  assumes "reachable E (r, p)"
  shows "length (queued (telemetry_queue_of r)) \<le> pending_telemetry_sample_capacity
    \<and> rd_pending_telemetry_count r = length (queued (telemetry_queue_of r))"
  using reachable_queue [OF assms] early_telemetry.items_bound [OF reachable_queue [OF assms]]
    queued_length [OF reachable_queue [OF assms]] by (simp add: telemetry_queue_of_def)

text \<open>C24. A sweep ends exactly the executions that have been stale for the whole grace period; the
  others keep their state.\<close>

theorem sweep_ends_expired:
  assumes "model_ok (rd_model r)"
  shows "get_execution (rd_model (fst (sweep_stale E n r))) i =
    map_option (\<lambda>e. if grace_over n e then ended_execution e else e) (get_execution (rd_model r) i)"
  by (rule sweep_executions [OF assms])

theorem sweep_ends_expired_witness:
  "get_execution (rd_model (fst (sweep_stale sample_env 10000000 stale_reducer))) ''exec''
    = Some (ended_execution sample_execution)"
proof -
  have m: "model_ok (rd_model stale_reducer)"
    using reachable_tables [OF stale_reachable] .
  have "get_execution (rd_model stale_reducer) ''exec'' = Some sample_execution"
    by (simp add: stale_reducer_def reducer_new_model with_diagnostics_def get_execution_def insert_execution_def
        sample_execution_def)
  moreover have "grace_over 10000000 sample_execution"
    by (simp add: grace_over_def sample_execution_def stale_grace_ms_def i64_saturating_sub_def
        i64_max_def i64_min_def)
  ultimately show ?thesis using sweep_ends_expired [OF m] by simp
qed

text \<open>The operator's clear command dismisses exactly the runs that are finished or whose hooks
  have gone silent, and changes no other run.\<close>

lemma clear_dismisses_finished:
  assumes "model_ok (rd_model r)"
  shows "get_task_run (rd_model (fst (apply_operator_command E DismissClearable n r))) i =
    map_option (\<lambda>t. if tr_dismissed_at_ms t = None \<and> (task_is_terminal (tr_state t)
          \<or> is_hook_only_stale_task_run t (runs_with_executions (rd_model r)) n)
        then dismissed_at n t else t) (get_task_run (rd_model r) i)"
  using command_runs [OF assms, of E DismissClearable n i] clearable_iff [OF assms, of i n]
  by (auto split: option.split)

section \<open>Tables, publication and read models\<close>

text \<open>C25. The change detector reports exactly the runs of which anything differs: rows, owned
  executions and agents, edges, or keys.\<close>

theorem change_detection_exact:
  assumes "tables_ok m" and "tables_ok before"
  shows "r \<in> set (changed_task_run_ids_since m before) \<longleftrightarrow> run_projection m r \<noteq> run_projection before r"
  by (rule changed_ids_iff [OF assms])

theorem change_detection_exact_witness:
  "sample_run 2 \<in> set (changed_task_run_ids_since unready_model sample_model) \<longleftrightarrow>
    run_projection unready_model (sample_run 2) \<noteq> run_projection sample_model (sample_run 2)"
  by (rule change_detection_exact [OF unready_tables sample_tables(1)])

text \<open>C37. When a run whose rate totals are in their domain is captured and removed, restoring the
  image gives back every run of the model as it was, except that the key of the run is bound to it
  and it has a lifecycle state. For a run that was bound to its key, and had a state, nothing
  differs.\<close>

theorem captured_run_restored:
  assumes "tables_ok m" and "rows_keyed m" and "opt_is_none_or rate_in_domain (get_run_rate_totals m r)"
    and "capture_history_publication m r = Some p"
  shows "run_projection (restore_history_publication p (remove_task_run_projection r m)) r'
      = run_projection (rebound p m) r'
    \<and> (run_bound m r \<longrightarrow> run_projection (rebound p m) r' = run_projection m r')"
  using restore_capture [OF assms] rebound_bound [OF _ assms(4)] by blast

theorem captured_run_restored_witness:
  "\<exists>p. capture_history_publication sample_model (sample_run 2) = Some p
    \<and> run_projection (restore_history_publication p (remove_task_run_projection (sample_run 2) sample_model))
        (sample_run 3) = run_projection sample_model (sample_run 3)"
proof -
  have b: "run_bound sample_model (sample_run 2)" by code_simp
  then have d: "opt_is_none_or rate_in_domain (get_run_rate_totals sample_model (sample_run 2))"
    by (simp add: run_bound_def)
  have "get_task_run sample_model (sample_run 2) \<noteq> None" by code_simp
  then have "capture_history_publication sample_model (sample_run 2) \<noteq> None"
    by (auto simp: capture_history_publication_def)
  then obtain p where p: "capture_history_publication sample_model (sample_run 2) = Some p" by blast
  from captured_run_restored [OF sample_tables(1) sample_rows d p] p b show ?thesis by auto
qed

text \<open>C38. The worklist behind the default view terminates and computes the least set of runs that
  contains the initially visible ones and the expired ancestors of its members.\<close>

theorem default_view_least:
  assumes "runs_keyed m"
  shows "\<exists>v. default_visible_task_run_ids timing m now_ms = Some v \<and> distinct v
    \<and> (\<forall>r. r \<in> set v \<longleftrightarrow> visible_run timing m now_ms (set (initially_visible timing m now_ms)) r)"
  by (rule visible_closure_least [OF assms])

theorem default_view_least_witness:
  "default_visible_task_run_ids display_timing_default sample_model 5 \<noteq> None"
  using default_view_least [OF sample_keyed] by (metis option.distinct(1))

text \<open>The status read model depends on what the tables contain, not on the order in which their
  rows were inserted.\<close>

lemma status_order_irrelevant:
  assumes "tables_ok m" and "tables_ok m'" and "same_content m m'" and "agents_identified m"
  shows "task_display_status (from_model_filtered timing m now_ms run) m t pane inactive
    = task_display_status (from_model_filtered timing m' now_ms run) m' t pane inactive"
  by (rule task_display_status_same [OF from_model_same [OF assms] assms(3)])

text \<open>Adding to the rate ledger saturates, reports exactly the additions that lose something and
  never leaves the range that can be persisted.\<close>

lemma rate_ledger_saturates:
  assumes "is_i64 (rt_working_ms a)" and "is_i64 (rt_working_ms b)"
  shows "rate_in_domain (fst (rate_saturating_add a b))
    \<and> (snd (rate_saturating_add a b) \<longleftrightarrow>
        rt_output_tokens (fst (rate_saturating_add a b)) \<noteq> rt_output_tokens a + rt_output_tokens b
        \<or> rt_working_ms (fst (rate_saturating_add a b)) \<noteq> rt_working_ms a + rt_working_ms b)"
  using rate_add_in_domain [OF assms(1)] rate_add_flag [OF assms] by blast

text \<open>Normalising the operator page loses an event only to a newer copy of it, or because the page
  is full of newer events.\<close>

lemma operator_page_keeps_newest:
  assumes "x \<in> set xs"
  shows "(\<exists>y \<in> set (normalize_activity xs). ai_event_id y = ai_event_id x \<and> activity_key x \<le> activity_key y)
    \<or> (length (normalize_activity xs) = activity_limit
       \<and> (\<forall>y \<in> set (normalize_activity xs). activity_key x \<le> activity_key y))"
  by (rule normalize_keeps_newest [OF assms])

text \<open>C39. Controller text that is sanitised shows only printable characters, is bounded in bytes, and
  sanitising it again changes nothing.\<close>

theorem controller_text_sanitized:
  assumes "utf8_wf s"
  shows "list_all printable (utf8_chars (sanitize_controller_text s))
    \<and> length (sanitize_controller_text s) \<le> sanitize_max_bytes
    \<and> sanitize_controller_text (sanitize_controller_text s) = sanitize_controller_text s"
  using sanitize_printable [OF assms] sanitize_idempotent [OF assms] sanitize_longest [of s] by blast

theorem controller_text_sanitized_witness:
  "list_all printable (utf8_chars (sanitize_controller_text [CHR ''a'', CHR 0x1B, CHR ''b'']))"
proof -
  have "utf8_wf [CHR ''a'', CHR 0x1B, CHR ''b'']" by code_simp
  from controller_text_sanitized [OF this] show ?thesis by blast
qed

text \<open>An execution ends exactly when its end is observed, or when it is seen stale again after the
  grace period, and never by the terminal's own report that the agent is done.\<close>

lemma execution_end_exact:
  assumes "current \<noteq> ExecEnded"
  shows "next_execution_state current observed md = ExecEnded \<longleftrightarrow>
     \<not> (md_source md = ''herdr'' \<and> md_source_event_type md = ''done'')
     \<and> (observed = ExecEnded \<or> (\<exists>s t. observed = ExecStale s \<and> current = ExecStale t
          \<and> stale_grace_ms \<le> i64_saturating_sub (md_receipt_time_ms md) t))"
  by (rule next_execution_state_ends_iff [OF assms])

text \<open>The two text identities of run keys are injective: no key can be mistaken for another.\<close>

lemma run_key_identities_injective:
  "(stable_run_key_identity a = stable_run_key_identity b) = (a = b)
   \<and> (stable_provider_lifecycle_run_key_identity a = stable_provider_lifecycle_run_key_identity b) = (a = b)"
  by (simp add: stable_run_key_identity_inject lifecycle_identity_inject)

text \<open>The bounded loop along the merges of a batch always reaches the run that survives them: when
  the merges form no cycle, it never stops at a run that was merged away.\<close>

lemma merge_chain_followed:
  assumes "acyclic (merge_links t)"
  shows "hm_get t (follow_merges (length t) t r) = None
    \<and> (r, follow_merges (length t) t r) \<in> (merge_links t)\<^sup>*"
  by (rule follow_merges_bound [OF assms])

section \<open>A violated assertion\<close>

text \<open>C40. The sweep closes a run that a Controller only announced, and so leaves a run without state
  event and without execution that is no longer queued: the debug assertion of the relationship
  graph, which the sweep evaluates next, fails.\<close>

theorem sweep_violates_assertion:
  assumes "model_ok (rd_model r)" and "stale_executions n (rd_model r) = []"
    and "i \<in> set (inactive_dispatch_only_runs E n (rd_model r))"
    and "get_task_run (rd_model r) i = Some t" and "\<not> tr_has_controller_task_state_event t"
  shows "\<exists>t'. get_task_run (rd_model (fst (sweep_stale E n r))) i = Some t'
    \<and> \<not> relationship_assertion t' (execution_bound_runs (rd_model (fst (sweep_stale E n r))))"
  by (rule sweep_violates [OF assms])

theorem sweep_violates_assertion_witness:
  "\<exists>t'. get_task_run (rd_model (fst (sweep_stale sample_env 100000000 announced_reducer))) (sample_run 7) = Some t'
    \<and> \<not> relationship_assertion t' (execution_bound_runs
          (rd_model (fst (sweep_stale sample_env 100000000 announced_reducer))))"
proof -
  have "model_ok (rd_model announced_reducer)" using reachable_tables [OF announced_reachable] .
  moreover have "stale_executions 100000000 (rd_model announced_reducer) = []" by code_simp
  moreover have "sample_run 7 \<in> set (inactive_dispatch_only_runs sample_env 100000000 (rd_model announced_reducer))"
    by code_simp
  moreover have "get_task_run (rd_model announced_reducer) (sample_run 7) = Some announced_run"
    "\<not> tr_has_controller_task_state_event announced_run" by code_simp+
  ultimately show ?thesis by (rule sweep_violates_assertion)
qed

end
